(* ===== verification/Prelude.thy ===== *)
theory Prelude imports Complex_Main "HOL-Library.Sublist"
begin

text \<open>
  Shared vocabulary of the development: Python exceptions as values, the result type with its
  sequencing operations, the two ways the source rejects data (declared field constraints of a
  model class, and a chain of \<open>if ...: raise\<close> statements), ASCII string helpers and a few
  list facts.

  Strings are HOL strings; the model treats them as ASCII text, so one character is one Python
  code point. A timestamp is an instant in microseconds since 1970-01-01 UTC (\<open>int\<close>), a duration a
  number of microseconds. A value of type \<open>timestamp\<close> is a datetime as a caller hands it in:
  naive, or aware (then only its instant matters, because the source converts it to UTC at once).
\<close>

named_theorems result_simps \<open>unfolding of the result type's sequencing\<close>
named_theorems error_dests \<open>what a successful run says about its guards\<close>

section \<open>Exceptions as values\<close>

datatype exn =
    ValueError string            \<comment> \<open>raise ValueError(message), also inside a model validator\<close>
  | FieldErrors "string list"    \<comment> \<open>declared field constraints that fail, in declaration order\<close>
  | MissingKey string            \<comment> \<open>KeyError\<close>
  | MissingLookup string         \<comment> \<open>LookupError\<close>
  | LeaseConflict string         \<comment> \<open>BackgroundJobConflictError\<close>
  | InvalidOperation             \<comment> \<open>decimal.InvalidOperation\<close>
  | DivisionByZero               \<comment> \<open>decimal.DivisionByZero\<close>
  | OutOfRange                   \<comment> \<open>IndexError\<close>
  | RuntimeError string          \<comment> \<open>raise RuntimeError(message)\<close>
  | Overflow                     \<comment> \<open>decimal.Overflow\<close>

type_synonym 'a result = "exn + 'a"

fun bindR :: "'a result \<Rightarrow> ('a \<Rightarrow> 'b result) \<Rightarrow> 'b result" where
  "bindR (Inl e) f = Inl e"
| "bindR (Inr x) f = f x"

lemma bindR_Inr_iff: "bindR m f = Inr y \<longleftrightarrow> (\<exists>x. m = Inr x \<and> f x = Inr y)"
  by (cases m) auto

lemma bindR_Inl_iff: "bindR m f = Inl e \<longleftrightarrow> m = Inl e \<or> (\<exists>x. m = Inr x \<and> f x = Inl e)"
  by (cases m) auto

lemmas bindR_iffs [error_dests] = bindR_Inr_iff bindR_Inl_iff

lemma bindR_assoc [result_simps]: "bindR (bindR m f) g = bindR m (\<lambda>x. bindR (f x) g)"
  by (cases m) auto

lemma bindR_Inr_right [simp]: "bindR m Inr = m"
  by (cases m) auto

lemma bindR_cong [fundef_cong]:
  "m = m' \<Longrightarrow> (\<And>x. m' = Inr x \<Longrightarrow> f x = f' x) \<Longrightarrow> bindR m f = bindR m' f'"
  by (cases m') auto

text \<open>\<open>returns m\<close>: the computation ends normally.\<close>

definition returns :: "'a result \<Rightarrow> bool" where
  "returns m \<longleftrightarrow> (case m of Inl _ \<Rightarrow> False | Inr _ \<Rightarrow> True)"

lemma returns_simps [simp]: "returns (Inr x)" "\<not> returns (Inl e)"
  by (simp_all add: returns_def)

lemma returns_iff: "returns m \<longleftrightarrow> (\<exists>x. m = Inr x)"
  by (cases m) auto

section \<open>Guards\<close>

text \<open>
  \<open>raising cs x\<close> is a run of statements \<open>if condition: raise error\<close> followed by \<open>return x\<close>: the
  first condition that holds raises its error.
\<close>

fun raising :: "(bool \<times> exn) list \<Rightarrow> 'a \<Rightarrow> 'a result" where
  "raising [] x = Inr x"
| "raising ((bad, e) # cs) x = (if bad then Inl e else raising cs x)"

lemma raising_Inr_iff [error_dests]:
  "raising cs x = Inr y \<longleftrightarrow> y = x \<and> (\<forall>(bad, e) \<in> set cs. \<not> bad)"
  by (induction cs x rule: raising.induct) auto

lemma raising_returns_iff: "returns (raising cs x) \<longleftrightarrow> (\<forall>(bad, e) \<in> set cs. \<not> bad)"
  by (induction cs x rule: raising.induct) auto

text \<open>
  Proofs use these characterisations; the equations that try the conditions in order are for
  evaluation.
\<close>

declare raising.simps [simp del]

lemma raising_Nil [simp]: "raising [] x = Inr x"
  by (simp add: raising.simps)

text \<open>
  The field constraints of a model class are all checked before its validator runs; the
  error names every field that fails.
\<close>

definition failing_fields :: "(string \<times> bool) list \<Rightarrow> string list" where
  "failing_fields fs = map fst (filter (\<lambda>f. \<not> snd f) fs)"

definition check_fields :: "(string \<times> bool) list \<Rightarrow> 'a \<Rightarrow> 'a result" where
  "check_fields fs x =
     (if failing_fields fs = [] then Inr x else Inl (FieldErrors (failing_fields fs)))"

lemma failing_fields_simps [simp]:
  "failing_fields [] = []"
  "failing_fields ((n, ok) # fs) = (if ok then failing_fields fs else n # failing_fields fs)"
  by (simp_all add: failing_fields_def)

lemma failing_fields_Nil_iff: "failing_fields fs = [] \<longleftrightarrow> (\<forall>(n, ok) \<in> set fs. ok)"
  by (auto simp: failing_fields_def filter_empty_conv)

lemma check_fields_Inr_iff [error_dests]:
  "check_fields fs x = Inr y \<longleftrightarrow> y = x \<and> (\<forall>(n, ok) \<in> set fs. ok)"
  by (auto simp: check_fields_def failing_fields_Nil_iff)

lemma check_fields_pass: "\<forall>(n, ok) \<in> set fs. ok \<Longrightarrow> check_fields fs x = Inr x"
  by (simp add: check_fields_Inr_iff)

section \<open>Loops that can raise\<close>

fun mapR :: "('a \<Rightarrow> 'b result) \<Rightarrow> 'a list \<Rightarrow> 'b list result" where
  "mapR f [] = Inr []"
| "mapR f (x # xs) = bindR (f x) (\<lambda>y. bindR (mapR f xs) (\<lambda>ys. Inr (y # ys)))"

fun foldR :: "('s \<Rightarrow> 'a \<Rightarrow> 's result) \<Rightarrow> 's \<Rightarrow> 'a list \<Rightarrow> 's result" where
  "foldR f s [] = Inr s"
| "foldR f s (x # xs) = bindR (f s x) (\<lambda>s'. foldR f s' xs)"

lemma mapR_cong [fundef_cong]:
  "xs = ys \<Longrightarrow> (\<And>x. x \<in> set ys \<Longrightarrow> f x = g x) \<Longrightarrow> mapR f xs = mapR g ys"
  by (induction ys arbitrary: xs) auto

lemma mapR_Inr_iff: "mapR f xs = Inr ys \<longleftrightarrow> list_all2 (\<lambda>x y. f x = Inr y) xs ys"
  by (induction xs arbitrary: ys) (auto simp: bindR_Inr_iff list_all2_Cons1)

lemma mapR_length: "mapR f xs = Inr ys \<Longrightarrow> length ys = length xs"
  by (auto simp: mapR_Inr_iff dest: list_all2_lengthD)

lemma mapR_total: "(\<And>x. x \<in> set xs \<Longrightarrow> f x = Inr (g x)) \<Longrightarrow> mapR f xs = Inr (map g xs)"
  by (induction xs) auto

lemma mapR_returns: "(\<And>x. x \<in> set xs \<Longrightarrow> returns (f x)) \<Longrightarrow> \<exists>ys. mapR f xs = Inr ys"
  by (induction xs) (fastforce simp: returns_iff)+

lemma mapR_set:
  assumes "mapR f xs = Inr ys" and "y \<in> set ys"
  obtains x where "x \<in> set xs" and "f x = Inr y"
  using assms by (auto simp: mapR_Inr_iff list_all2_conv_all_nth in_set_conv_nth) (metis nth_mem)

lemma mapR_append:
  "mapR f (xs @ ys) = bindR (mapR f xs) (\<lambda>us. bindR (mapR f ys) (\<lambda>vs. Inr (us @ vs)))"
  by (induction xs) (simp_all add: bindR_assoc)

lemma foldR_append: "foldR f s (xs @ ys) = bindR (foldR f s xs) (\<lambda>s'. foldR f s' ys)"
  by (induction xs arbitrary: s) (simp_all add: bindR_assoc)

lemma foldR_checks: "(\<And>x. x \<in> set xs \<Longrightarrow> f () x = Inr ()) \<Longrightarrow> foldR f () xs = Inr ()"
  by (induction xs) auto

lemma foldR_prefix_inv:
  assumes "I [] s" and "\<And>pre x t. I pre t \<Longrightarrow> prefix (pre @ [x]) xs \<Longrightarrow> \<exists>t'. f t x = Inr t' \<and> I (pre @ [x]) t'"
  shows "\<exists>t. foldR f s xs = Inr t \<and> I xs t"
  using assms(2)
proof (induction xs rule: rev_induct)
  case Nil
  then show ?case using assms(1) by simp
next
  case (snoc x xs)
  then obtain t where "foldR f s xs = Inr t" "I xs t" by (meson prefix_snoc prefix_order.trans)
  then show ?case using snoc.prems [of xs t x] by (auto simp: foldR_append)
qed

text \<open>\<open>collectR f xs\<close>: a loop whose body appends to a result list or continues without appending.\<close>

fun collectR :: "('a \<Rightarrow> 'b option result) \<Rightarrow> 'a list \<Rightarrow> 'b list result" where
  "collectR f [] = Inr []"
| "collectR f (x # xs) =
     bindR (f x) (\<lambda>r. bindR (collectR f xs) (\<lambda>ys. Inr (case r of None \<Rightarrow> ys | Some y \<Rightarrow> y # ys)))"

lemma collectR_append:
  "collectR f (xs @ ys) = bindR (collectR f xs) (\<lambda>us. bindR (collectR f ys) (\<lambda>vs. Inr (us @ vs)))"
proof (induction xs)
  case (Cons x xs)
  then show ?case
    by (cases "f x"; cases "collectR f xs"; cases "collectR f ys") (auto split: option.splits)
qed simp

lemma collectR_set:
  "collectR f xs = Inr ys \<Longrightarrow> y \<in> set ys \<Longrightarrow> \<exists>x \<in> set xs. f x = Inr (Some y)"
  by (induction xs arbitrary: ys) (auto simp: bindR_Inr_iff split: option.splits)

lemma collectR_returns:
  "(\<And>x. x \<in> set xs \<Longrightarrow> returns (f x)) \<Longrightarrow> \<exists>ys. collectR f xs = Inr ys"
  by (induction xs) (fastforce simp: returns_iff)+

text \<open>A key that grows along the input grows along the collected results.\<close>

lemma collectR_sorted:
  assumes "collectR f xs = Inr ys" and "sorted_wrt P xs"
    and "\<And>x y. x \<in> set xs \<Longrightarrow> f x = Inr (Some y) \<Longrightarrow> key y = k x"
    and "\<And>x x'. P x x' \<Longrightarrow> k x < k x'"
  shows "sorted_wrt (\<lambda>y y'. key y < (key y' :: int)) ys"
  using assms(1-3)
proof (induction xs arbitrary: ys)
  case (Cons x xs)
  then obtain r zs where r: "f x = Inr r" and zs: "collectR f xs = Inr zs"
    and ys: "ys = (case r of None \<Rightarrow> zs | Some y \<Rightarrow> y # zs)"
    by (auto simp: bindR_Inr_iff)
  have IH: "sorted_wrt (\<lambda>y y'. key y < key y') zs" using Cons zs by simp
  have "key y < key z" if y: "r = Some y" and z: "z \<in> set zs" for y z
  proof -
    obtain x' where "x' \<in> set xs" "f x' = Inr (Some z)" using collectR_set [OF zs z] by blast
    with r y Cons.prems(2,3) assms(4) show ?thesis by force
  qed
  with IH ys show ?case by (auto split: option.splits)
qed simp

section \<open>Timestamps handed in by a caller\<close>

datatype timestamp = Naive int | Aware int

text \<open>
  \<open>value.tzinfo is None or value.utcoffset() is None\<close> raises; otherwise the value is converted
  to UTC.
\<close>

fun to_utc :: "string \<Rightarrow> timestamp \<Rightarrow> int result" where
  "to_utc message (Naive t) = Inl (ValueError message)"
| "to_utc message (Aware t) = Inr t"

fun aware :: "timestamp \<Rightarrow> bool" where
  "aware (Naive t) = False"
| "aware (Aware t) = True"

fun instant :: "timestamp \<Rightarrow> int" where
  "instant (Naive t) = t"
| "instant (Aware t) = t"

lemma to_utc_Inr_iff [error_dests]: "to_utc m ts = Inr t \<longleftrightarrow> ts = Aware t"
  by (cases ts) auto

abbreviation second_us :: int where "second_us \<equiv> 1000000"
abbreviation minute_us :: int where "minute_us \<equiv> 60 * second_us"
abbreviation hour_us :: int where "hour_us \<equiv> 60 * minute_us"
abbreviation day_us :: int where "day_us \<equiv> 24 * hour_us"

section \<open>ASCII strings\<close>

text \<open>Python's ASCII whitespace: tab to carriage return, the four separators, and space.\<close>

definition is_space :: "char \<Rightarrow> bool" where
  "is_space c \<longleftrightarrow> (let n = (of_char c :: nat) in (9 \<le> n \<and> n \<le> 13) \<or> (28 \<le> n \<and> n \<le> 32))"

definition strip :: "string \<Rightarrow> string" where
  "strip s = rev (dropWhile is_space (rev (dropWhile is_space s)))"

lemma strip_Nil_iff: "strip s = [] \<longleftrightarrow> (\<forall>c \<in> set s. is_space c)"
proof -
  have "strip s = [] \<longleftrightarrow> (\<forall>c \<in> set (dropWhile is_space s). is_space c)"
    by (simp add: strip_def dropWhile_eq_Nil_conv)
  also have "\<dots> \<longleftrightarrow> dropWhile is_space s = []"
    by (metis all_not_in_conv hd_dropWhile hd_in_set list.set(1))
  finally show ?thesis by (simp add: dropWhile_eq_Nil_conv)
qed

lemma strip_ends: "strip s = t \<Longrightarrow> t \<noteq> [] \<Longrightarrow> \<not> is_space (hd t) \<and> \<not> is_space (last t)"
proof -
  assume t: "strip s = t" "t \<noteq> []"
  let ?u = "dropWhile is_space s"
  have u: "t = rev (dropWhile is_space (rev ?u))" using t by (simp add: strip_def)
  then have ne: "dropWhile is_space (rev ?u) \<noteq> []" using t(2) by (metis rev_is_Nil_conv)
  then have l: "\<not> is_space (last t)" using hd_dropWhile [of is_space "rev ?u"] u
    by (simp add: last_rev)
  obtain pre where pre: "rev ?u = pre @ dropWhile is_space (rev ?u)"
    by (metis takeWhile_dropWhile_id)
  then have "?u = t @ rev pre" by (metis u rev_append rev_rev_ident)
  then have "hd t = hd ?u" using t(2) by simp
  moreover have "?u \<noteq> []" using ne by (metis dropWhile.simps(1) rev.simps(1))
  ultimately show ?thesis using l hd_dropWhile [of is_space s] by metis
qed

lemma strip_idem [simp]: "strip (strip s) = strip s"
proof (cases "strip s = []")
  case True
  then show ?thesis by (simp only: True) (simp add: strip_def)
next
  case False
  define t where "t = strip s"
  have t: "t \<noteq> []" "\<not> is_space (hd t)" "\<not> is_space (last t)"
    using strip_ends [OF t_def [symmetric]] False by (simp_all add: t_def)
  have "dropWhile is_space t = t" using t by (cases t) auto
  moreover have "dropWhile is_space (rev t) = rev t" using t by (cases t rule: rev_cases) auto
  ultimately show ?thesis by (simp add: strip_def [of t] flip: t_def)
qed

lemma length_strip: "length (strip s) \<le> length s"
  unfolding strip_def using length_dropWhile_le [of is_space "rev (dropWhile is_space s)"]
    length_dropWhile_le [of is_space s] by simp

definition upper_char :: "char \<Rightarrow> char" where
  "upper_char c =
     (let n = (of_char c :: nat) in if 97 \<le> n \<and> n \<le> 122 then char_of (n - 32) else c)"

definition upper :: "string \<Rightarrow> string" where
  "upper s = map upper_char s"

definition is_upper_alnum :: "char \<Rightarrow> bool" where
  "is_upper_alnum c \<longleftrightarrow>
     (let n = (of_char c :: nat) in (65 \<le> n \<and> n \<le> 90) \<or> (48 \<le> n \<and> n \<le> 57))"

definition is_lower_hex :: "char \<Rightarrow> bool" where
  "is_lower_hex c \<longleftrightarrow>
     (let n = (of_char c :: nat) in (97 \<le> n \<and> n \<le> 102) \<or> (48 \<le> n \<and> n \<le> 57))"

text \<open>\<open>has_id_form p k s\<close>: the pattern \<open>^p[a-f0-9]{k}$\<close>.\<close>

definition has_id_form :: "string \<Rightarrow> nat \<Rightarrow> string \<Rightarrow> bool" where
  "has_id_form p k s \<longleftrightarrow>
     take (length p) s = p \<and> length (drop (length p) s) = k
     \<and> list_all is_lower_hex (drop (length p) s)"

lemma has_id_form_append [simp]:
  "has_id_form p k (p @ d) \<longleftrightarrow> length d = k \<and> list_all is_lower_hex d"
  by (simp add: has_id_form_def)

definition sized :: "nat \<Rightarrow> nat \<Rightarrow> string \<Rightarrow> bool" where
  "sized lo hi s \<longleftrightarrow> lo \<le> length s \<and> length s \<le> hi"

section \<open>Lists\<close>

lemma sort_key_sorted:
  assumes "sorted_wrt (\<lambda>x y. key x < (key y :: int)) xs" shows "sort_key key xs = xs"
proof -
  have "sorted (map key xs)" using assms by (auto simp: sorted_wrt_map elim: sorted_wrt_mono_rel [rotated])
  then show ?thesis by (simp add: sort_key_id_if_sorted)
qed

lemma remdups_adj_snoc:
  "remdups_adj (xs @ [x]) = (if xs \<noteq> [] \<and> last xs = x then remdups_adj xs else remdups_adj xs @ [x])"
proof (cases xs rule: rev_cases)
  case (snoc ys y)
  then show ?thesis using remdups_adj_append_two [of ys y x] by simp
qed simp

lemma map_filter_snoc:
  "List.map_filter f (xs @ [x]) = List.map_filter f xs @ (case f x of None \<Rightarrow> [] | Some y \<Rightarrow> [y])"
  by (simp add: List.map_filter_def split: option.splits)

text \<open>\<open>itertools.pairwise\<close>: each element with its successor.\<close>

definition adjacent :: "'a list \<Rightarrow> ('a \<times> 'a) list" where
  "adjacent xs = zip xs (tl xs)"

lemma adjacent_simps [simp]:
  "adjacent [] = []" "adjacent [x] = []" "adjacent (x # y # zs) = (x, y) # adjacent (y # zs)"
  by (simp_all add: adjacent_def)

lemma adjacent_sorted_wrt:
  assumes "transp P"
  shows "(\<forall>(x, y) \<in> set (adjacent xs). P x y) \<longleftrightarrow> sorted_wrt P xs"
proof (induction xs rule: induct_list012)
  case (3 x y zs)
  then show ?case using assms by (auto dest: transpD)
qed auto

lemma set_adjacent: "(x, y) \<in> set (adjacent xs) \<Longrightarrow> x \<in> set xs \<and> y \<in> set xs"
  by (cases xs) (auto simp: adjacent_def dest: set_zip_leftD set_zip_rightD)

lemma zip_take_shorter: "m \<le> n \<Longrightarrow> zip (take n xs) (take m ys) = take m (zip xs ys)"
  by (rule nth_equalityI) auto

lemma adjacent_take: "adjacent (take n xs) = take (n - 1) (adjacent xs)"
  unfolding adjacent_def using zip_take_shorter [of "n - 1" n xs "tl xs"] by (cases xs; cases n) auto

lemma adjacent_seconds: "map snd (adjacent xs) = tl xs"
  by (cases xs) (simp_all add: adjacent_def map_snd_zip_take)

lemma adjacent_seconds_sorted:
  assumes "sorted_wrt P xs" shows "sorted_wrt (\<lambda>p q. P (snd p) (snd q)) (adjacent xs)"
proof -
  have "sorted_wrt P (map snd (adjacent xs))"
    unfolding adjacent_seconds using assms by (cases xs) auto
  then show ?thesis by (simp add: sorted_wrt_map)
qed

lemma collectR_split:
  assumes "collectR f xs = Inr ys"
  obtains us vs where "collectR f (take n xs) = Inr us" "collectR f (drop n xs) = Inr vs" "ys = us @ vs"
proof -
  have "bindR (collectR f (take n xs)) (\<lambda>us. bindR (collectR f (drop n xs)) (\<lambda>vs. Inr (us @ vs))) = Inr ys"
    using assms collectR_append [of f "take n xs" "drop n xs"] by simp
  then show ?thesis using that by (auto simp: bindR_Inr_iff)
qed

definition enumerate_from :: "int \<Rightarrow> 'a list \<Rightarrow> (int \<times> 'a) list" where
  "enumerate_from n xs = zip (map (\<lambda>i. n + int i) [0..<length xs]) xs"

lemma enumerate_from_simps [simp]:
  "enumerate_from n [] = []"
  "enumerate_from n (x # xs) = (n, x) # enumerate_from (n + 1) xs"
proof -
  have "map (\<lambda>i. n + int i) [0..<Suc (length xs)] = n # map (\<lambda>i. n + 1 + int i) [0..<length xs]"
    by (simp add: upt_conv_Cons map_Suc_upt [symmetric] del: upt_Suc map_Suc_upt)
  then show "enumerate_from n (x # xs) = (n, x) # enumerate_from (n + 1) xs"
    by (simp add: enumerate_from_def del: upt_Suc)
qed (simp add: enumerate_from_def)

lemma enumerate_from_append:
  "enumerate_from n (xs @ ys) = enumerate_from n xs @ enumerate_from (n + int (length xs)) ys"
  by (induction xs arbitrary: n) (simp_all add: algebra_simps)

lemma enumerate_from_late: "r \<in> set (enumerate_from n xs) \<Longrightarrow> n \<le> fst r"
  by (cases r) (auto simp: enumerate_from_def dest!: set_zip_leftD)

lemma length_enumerate_from [simp]: "length (enumerate_from n xs) = length xs"
  by (simp add: enumerate_from_def)

end
