(* ===== verification/Rounding.thy ===== *)
theory Rounding imports Prelude
begin

text \<open>
  Rounding of exact results: to an integer (the modes of Python's \<open>decimal\<close>), and to a number of
  significant digits in a base, which is how both \<open>decimal.Decimal\<close> (28 digits, base ten) and
  \<open>float\<close> (53 digits, base two) round the exact result of an operation.
\<close>

section \<open>Rounding a rational to an integer\<close>

definition round_half_even :: "rat \<Rightarrow> int" where
  "round_half_even x =
     (let f = \<lfloor>x\<rfloor>; d = x - of_int f
      in if d < 1/2 then f else if 1/2 < d then f + 1 else if even f then f else f + 1)"

definition round_half_up :: "rat \<Rightarrow> int" where
  "round_half_up x = (if 0 \<le> x then \<lfloor>x + 1/2\<rfloor> else - \<lfloor>- x + 1/2\<rfloor>)"

definition round_down :: "rat \<Rightarrow> int" where
  "round_down x = (if 0 \<le> x then \<lfloor>x\<rfloor> else - \<lfloor>- x\<rfloor>)"

lemma round_half_even_cases:
  obtains "round_half_even x = \<lfloor>x\<rfloor>" "x - of_int \<lfloor>x\<rfloor> \<le> 1/2"
        | "round_half_even x = \<lfloor>x\<rfloor> + 1" "1/2 \<le> x - of_int \<lfloor>x\<rfloor>"
  unfolding round_half_even_def Let_def by (smt (verit) linorder_not_le less_le_not_le)

lemma round_half_even_error: "\<bar>of_int (round_half_even x) - x\<bar> \<le> 1/2"
  by (cases rule: round_half_even_cases [of x]) linarith+

lemma round_half_even_mono:
  assumes "x \<le> y" shows "round_half_even x \<le> round_half_even y"
proof (cases "\<lfloor>x\<rfloor> = \<lfloor>y\<rfloor>")
  case True
  with assms show ?thesis by (auto simp: round_half_even_def Let_def)
next
  case False
  with assms have "\<lfloor>x\<rfloor> + 1 \<le> \<lfloor>y\<rfloor>" using floor_mono [of x y] by linarith
  then show ?thesis
    by (cases rule: round_half_even_cases [of x]; cases rule: round_half_even_cases [of y]) linarith+
qed

lemma round_half_even_of_int: "round_half_even (of_int n) = n"
  by (simp add: round_half_even_def)

lemma round_half_even_minus: "round_half_even (- x) = - round_half_even x"
proof (cases "of_int \<lfloor>x\<rfloor> = x")
  case True
  then obtain n where "x = of_int n" by metis
  then show ?thesis using round_half_even_of_int [of "- n"] by (simp add: round_half_even_of_int)
next
  case False
  then have "\<lfloor>- x\<rfloor> = - \<lfloor>x\<rfloor> - 1"
    by (metis ceiling_altdef ceiling_def diff_minus_eq_add minus_add_distrib minus_diff_eq
        minus_minus uminus_add_conv_diff)
  then show ?thesis by (auto simp: round_half_even_def Let_def)
qed

lemma round_half_up_error: "\<bar>of_int (round_half_up x) - x\<bar> \<le> 1/2"
proof (cases "0 \<le> x")
  case True
  then have "round_half_up x = \<lfloor>x + 1/2\<rfloor>" by (simp add: round_half_up_def)
  then show ?thesis by linarith
next
  case False
  then have "round_half_up x = - \<lfloor>- x + 1/2\<rfloor>" by (simp add: round_half_up_def)
  then show ?thesis by linarith
qed

lemma round_half_up_mono:
  assumes "x \<le> y" shows "round_half_up x \<le> round_half_up y"
proof -
  consider "0 \<le> x" | "x < 0" "0 \<le> y" | "y < 0" by linarith
  then show ?thesis
  proof cases
    case 1 with assms show ?thesis by (simp add: round_half_up_def floor_mono)
  next
    case 2
    then have "0 \<le> \<lfloor>- x + 1/2\<rfloor>" "0 \<le> \<lfloor>y + 1/2\<rfloor>" by simp_all
    then have "- \<lfloor>- x + 1/2\<rfloor> \<le> \<lfloor>y + 1/2\<rfloor>" by linarith
    with 2 show ?thesis unfolding round_half_up_def by simp
  next
    case 3
    with assms show ?thesis by (simp add: round_half_up_def floor_mono)
  qed
qed

lemma round_half_up_of_int: "round_half_up (of_int n) = n"
proof -
  have *: "\<lfloor>of_int m + 1/2 :: rat\<rfloor> = m" for m :: int by linarith
  show ?thesis using * [of n] * [of "- n"] by (simp add: round_half_up_def)
qed

lemma round_down_error: "\<bar>of_int (round_down x) - x\<bar> < 1"
proof (cases "0 \<le> x")
  case True
  then have "round_down x = \<lfloor>x\<rfloor>" by (simp add: round_down_def)
  then show ?thesis by linarith
next
  case False
  then have "round_down x = - \<lfloor>- x\<rfloor>" by (simp add: round_down_def)
  then show ?thesis by linarith
qed

lemma round_down_mono:
  assumes "x \<le> y" shows "round_down x \<le> round_down y"
proof -
  consider "0 \<le> x" | "x < 0" "0 \<le> y" | "y < 0" by linarith
  then show ?thesis
  proof cases
    case 2
    then have "0 \<le> \<lfloor>- x\<rfloor>" "0 \<le> \<lfloor>y\<rfloor>" by simp_all
    then have "- \<lfloor>- x\<rfloor> \<le> \<lfloor>y\<rfloor>" by linarith
    with 2 show ?thesis unfolding round_down_def by simp
  qed (use assms in \<open>simp_all add: round_down_def floor_mono\<close>)
qed

lemma round_down_of_int: "round_down (of_int n) = n"
  using floor_of_int [of "- n", where 'a = rat] by (simp add: round_down_def)

lemma round_down_le: "0 \<le> x \<Longrightarrow> of_int (round_down x) \<le> x"
  by (simp add: round_down_def)

section \<open>Rounding to significant digits\<close>

text \<open>\<open>leading b x\<close> is the exponent of the leading base-\<open>b\<close> digit of a positive \<open>x\<close>.\<close>

function leading :: "int \<Rightarrow> rat \<Rightarrow> int" where
  "leading b x =
     (if x \<le> 0 \<or> b < 2 then 0
      else if of_int b \<le> x then leading b (x / of_int b) + 1
      else if x < 1 then leading b (x * of_int b) - 1
      else 0)"
  by pat_completeness auto
termination
proof (relation "measure (\<lambda>(b, x). if of_int b \<le> x then nat \<lfloor>x\<rfloor> + 1 else if 0 < x \<and> x < 1 then nat \<lfloor>1 / x\<rfloor> else 0)")
  fix b :: int and x :: rat
  assume x: "\<not> (x \<le> 0 \<or> b < 2)" "of_int b \<le> x"
  have "(2 :: rat) \<le> of_int b" using x(1) by simp
  then have "x / of_int b \<le> x / 2" using x(1) by (intro divide_left_mono) auto
  moreover have "2 \<le> x" using x(2) \<open>2 \<le> of_int b\<close> by linarith
  ultimately have "\<lfloor>x / of_int b\<rfloor> < \<lfloor>x\<rfloor>" "0 < \<lfloor>x\<rfloor>" by linarith+
  moreover have "nat \<lfloor>1 / (x / of_int b)\<rfloor> < nat \<lfloor>x\<rfloor> + 1"
  proof -
    have "1 / (x / of_int b) \<le> 1" using x by (simp add: field_simps)
    then have "\<lfloor>1 / (x / of_int b)\<rfloor> \<le> 1" by linarith
    with \<open>0 < \<lfloor>x\<rfloor>\<close> show ?thesis by linarith
  qed
  ultimately show "((b, x / of_int b), (b, x)) \<in> measure (\<lambda>(b, x). if of_int b \<le> x then nat \<lfloor>x\<rfloor> + 1
      else if 0 < x \<and> x < 1 then nat \<lfloor>1 / x\<rfloor> else 0)"
    using x by (auto simp: nat_less_eq_zless)
next
  fix b :: int and x :: rat
  assume x: "\<not> (x \<le> 0 \<or> b < 2)" "\<not> of_int b \<le> x" "x < 1"
  define y where "y = 1 / x"
  have b: "(2 :: rat) \<le> of_int b" using x(1) by simp
  have "1 \<le> y" using x by (simp add: y_def field_simps)
  then have "1 \<le> \<lfloor>y\<rfloor>" by simp
  have "y / of_int b \<le> y / 2" using b \<open>1 \<le> y\<close> by (intro divide_left_mono) auto
  then have "\<lfloor>y / of_int b\<rfloor> \<le> \<lfloor>y / 2\<rfloor>" by (rule floor_mono)
  moreover have "\<lfloor>y / 2\<rfloor> < \<lfloor>y\<rfloor>" using \<open>1 \<le> \<lfloor>y\<rfloor>\<close> by linarith
  ultimately have "\<lfloor>y / of_int b\<rfloor> < \<lfloor>y\<rfloor>" by linarith
  moreover have "0 \<le> \<lfloor>y / of_int b\<rfloor>" using \<open>1 \<le> y\<close> b by simp
  ultimately have "\<lfloor>1 / (x * of_int b)\<rfloor> < \<lfloor>1 / x\<rfloor>" "0 \<le> \<lfloor>1 / (x * of_int b)\<rfloor>" by (simp_all add: y_def)
  moreover have "\<not> of_int b \<le> x * of_int b" using x b by simp
  ultimately show "((b, x * of_int b), (b, x)) \<in> measure (\<lambda>(b, x). if of_int b \<le> x then nat \<lfloor>x\<rfloor> + 1
      else if 0 < x \<and> x < 1 then nat \<lfloor>1 / x\<rfloor> else 0)"
    using x by (auto simp: nat_less_eq_zless)
qed simp

declare leading.simps [simp del]

definition rounded_to :: "int \<Rightarrow> nat \<Rightarrow> rat \<Rightarrow> rat" where
  "rounded_to b p x =
     (if x = 0 then 0
      else let u = of_int b powi (leading b \<bar>x\<bar> + 1 - int p) in of_int (round_half_even (x / u)) * u)"

lemma rounded_to_0 [simp]: "rounded_to b p 0 = 0"
  by (simp add: rounded_to_def)

lemma rounded_to_minus: "rounded_to b p (- x) = - rounded_to b p x"
  by (simp add: rounded_to_def Let_def round_half_even_minus)

lemma power_int_step: "(0 :: rat) < c \<Longrightarrow> c powi (e + 1) = c * c powi e" "(0 :: rat) < c \<Longrightarrow> c powi (e - 1) = c powi e / c"
  by (simp_all add: power_int_add power_int_diff)

lemma leading_spec:
  "2 \<le> b \<Longrightarrow> 0 < x \<Longrightarrow> of_int b powi leading b x \<le> x \<and> x < of_int b powi (leading b x + 1)"
proof (induction b x rule: leading.induct)
  case (1 b x)
  have b: "(2 :: rat) \<le> of_int b" using 1(3) by simp
  then have c: "(0 :: rat) < of_int b" by linarith
  consider (big) "of_int b \<le> x" | (small) "x < 1" | (mid) "1 \<le> x" "x < of_int b" by linarith
  then show ?case
  proof cases
    case big
    with 1 b have "of_int b powi leading b (x / of_int b) \<le> x / of_int b \<and> x / of_int b < of_int b powi (leading b (x / of_int b) + 1)"
      by simp
    moreover have e: "leading b x = leading b (x / of_int b) + 1" using big b 1(3,4) by (simp add: leading.simps [of b x])
    ultimately show ?thesis
      unfolding e power_int_step(1) [OF c] using c by (simp add: field_simps)
  next
    case small
    with 1 b have "of_int b powi leading b (x * of_int b) \<le> x * of_int b \<and> x * of_int b < of_int b powi (leading b (x * of_int b) + 1)"
      by simp
    moreover have e: "leading b x = leading b (x * of_int b) - 1" using small b 1(3,4) by (simp add: leading.simps [of b x])
    ultimately show ?thesis
      unfolding e power_int_step [OF c] using c by (simp add: field_simps)
  next
    case mid
    then show ?thesis using b by (simp add: leading.simps [of b x])
  qed
qed

text \<open>The facts that hold for every base and precision.\<close>

locale significand =
  fixes b :: int and p :: nat
  assumes base: "2 \<le> b" and digits: "1 \<le> p"
begin

lemma base_rat: "(2 :: rat) \<le> of_int b"
  using base by simp

lemma power_pos: "0 < (of_int b :: rat) powi e"
  using base_rat by (intro zero_less_power_int) linarith

lemma power_less_iff: "(of_int b :: rat) powi d < of_int b powi e \<longleftrightarrow> d < e"
proof -
  have "1 < (of_int b :: rat)" using base_rat by linarith
  then show ?thesis
    using power_int_strict_increasing [of d e "of_int b :: rat"] power_int_strict_increasing [of e d "of_int b :: rat"]
    by (cases d e rule: linorder_cases) auto
qed

lemma power_le_iff: "(of_int b :: rat) powi d \<le> of_int b powi e \<longleftrightarrow> d \<le> e"
  using power_less_iff [of e d] by (simp add: linorder_not_less [symmetric])

lemma power_add: "(of_int b :: rat) powi (d + e) = of_int b powi d * of_int b powi e"
  using base_rat by (intro power_int_add) auto

lemma power_int_nat: "(of_int b :: rat) powi int n = of_int (b ^ n)"
  by simp

lemma power_unit: "(of_int b :: rat) powi e = of_int (b ^ (p - 1)) * of_int b powi (e + 1 - int p)"
proof -
  have "e = int (p - 1) + (e + 1 - int p)" using digits by simp
  then have "(of_int b :: rat) powi e = of_int b powi int (p - 1) * of_int b powi (e + 1 - int p)"
    by (metis power_add)
  then show ?thesis by (simp only: power_int_of_nat of_int_power)
qed

lemma leading_eq:
  assumes "of_int b powi e \<le> x" "x < of_int b powi (e + 1)" shows "leading b x = e"
proof -
  have x: "0 < x" using assms(1) power_pos [of e] by linarith
  note spec = leading_spec [OF base x]
  have "(of_int b :: rat) powi e < of_int b powi (leading b x + 1)" "(of_int b :: rat) powi leading b x < of_int b powi (e + 1)"
    using spec assms by linarith+
  then have "e < leading b x + 1" "leading b x < e + 1" by (simp_all only: power_less_iff)
  then show ?thesis by simp
qed

lemma leading_mono:
  assumes "0 < x" "x \<le> y" shows "leading b x \<le> leading b y"
proof -
  have "(of_int b :: rat) powi leading b x < of_int b powi (leading b y + 1)"
    using leading_spec [OF base, of x] leading_spec [OF base, of y] assms by linarith
  then have "leading b x < leading b y + 1" by (simp only: power_less_iff)
  then show ?thesis by simp
qed

text \<open>A positive value is rounded between the powers of the base that enclose it.\<close>

lemma rounded_enclosed:
  assumes "0 < x"
  shows "of_int b powi leading b x \<le> rounded_to b p x \<and> rounded_to b p x \<le> of_int b powi (leading b x + 1)"
proof -
  define u :: rat where "u = of_int b powi (leading b x + 1 - int p)"
  have u: "0 < u" by (simp add: u_def power_pos)
  have split: "of_int b powi (e + (leading b x + 1 - int p)) = of_int b powi e * u" for e
    by (simp add: u_def power_add)
  have lo: "of_int b powi leading b x = of_int (b ^ (p - 1)) * u"
    unfolding u_def by (rule power_unit)
  have hi: "of_int b powi (leading b x + 1) = of_int (b ^ p) * u"
    using split [of "int p"] by (simp add: add.commute)
  have "of_int (b ^ (p - 1)) \<le> x / u" "x / u \<le> of_int (b ^ p)"
    using leading_spec [OF base assms] u unfolding lo hi by (simp_all add: field_simps)
  then have "b ^ (p - 1) \<le> round_half_even (x / u)" "round_half_even (x / u) \<le> b ^ p"
    using round_half_even_mono round_half_even_of_int by metis+
  then have "(of_int (b ^ (p - 1)) :: rat) \<le> of_int (round_half_even (x / u))"
    "of_int (round_half_even (x / u)) \<le> (of_int (b ^ p) :: rat)"
    by (simp_all only: of_int_le_iff)
  then have "of_int (b ^ (p - 1)) * u \<le> of_int (round_half_even (x / u)) * u"
    "of_int (round_half_even (x / u)) * u \<le> of_int (b ^ p) * u"
    using u by (simp_all only: mult_right_mono less_imp_le)
  moreover have "rounded_to b p x = of_int (round_half_even (x / u)) * u"
    using assms by (simp add: rounded_to_def u_def Let_def)
  ultimately show ?thesis unfolding lo hi by simp
qed

lemma rounded_pos: "0 < x \<Longrightarrow> 0 < rounded_to b p x"
  using rounded_enclosed [of x] power_pos [of "leading b x"] by linarith

lemma rounded_mono_pos:
  assumes "0 < x" "x \<le> y" shows "rounded_to b p x \<le> rounded_to b p y"
proof (cases "leading b x = leading b y")
  case True
  define u :: rat where "u = of_int b powi (leading b y + 1 - int p)"
  have "0 < u" by (simp add: u_def power_pos)
  with assms have "round_half_even (x / u) \<le> round_half_even (y / u)"
    by (intro round_half_even_mono) (simp add: divide_right_mono)
  then have "of_int (round_half_even (x / u)) * u \<le> of_int (round_half_even (y / u)) * u"
    using \<open>0 < u\<close> by (simp add: mult_right_mono)
  with True assms show ?thesis by (simp add: rounded_to_def u_def Let_def)
next
  case False
  with leading_mono [OF assms] have "leading b x + 1 \<le> leading b y" by simp
  then have "(of_int b :: rat) powi (leading b x + 1) \<le> of_int b powi leading b y" by (simp only: power_le_iff)
  with rounded_enclosed [of x] rounded_enclosed [of y] assms show ?thesis by linarith
qed

lemma rounded_mono: "x \<le> y \<Longrightarrow> rounded_to b p x \<le> rounded_to b p y"
proof -
  assume le: "x \<le> y"
  consider "0 < x" | "x = 0" | "x < 0" "0 \<le> y" | "y < 0" using le by linarith
  then show ?thesis
  proof cases
    case 1 with le show ?thesis by (rule rounded_mono_pos [rotated])
  next
    case 2 with le rounded_pos [of y] show ?thesis by (cases "y = 0") auto
  next
    case 3
    then have "rounded_to b p x \<le> 0" using rounded_pos [of "- x"] by (simp add: rounded_to_minus)
    moreover have "0 \<le> rounded_to b p y" using 3 rounded_pos [of y] by (cases "y = 0") auto
    ultimately show ?thesis by linarith
  next
    case 4
    with le rounded_mono_pos [of "- y" "- x"] show ?thesis by (simp add: rounded_to_minus)
  qed
qed

text \<open>The relative error is at most half a unit in the last digit.\<close>

lemma rounded_error: "\<bar>rounded_to b p x - x\<bar> \<le> \<bar>x\<bar> * (1 / (2 * of_int b ^ (p - 1)))"
proof (cases "x = 0")
  case False
  define u :: rat where "u = of_int b powi (leading b \<bar>x\<bar> + 1 - int p)"
  have u: "0 < u" by (simp add: u_def power_pos)
  have "of_int b powi leading b \<bar>x\<bar> = of_int (b ^ (p - 1)) * u"
    unfolding u_def by (rule power_unit)
  then have le: "u * of_int b ^ (p - 1) \<le> \<bar>x\<bar>"
    using leading_spec [OF base, of "\<bar>x\<bar>"] False by (simp add: mult.commute)
  have "rounded_to b p x = of_int (round_half_even (x / u)) * u"
    using False by (simp add: rounded_to_def u_def Let_def)
  then have "rounded_to b p x - x = (of_int (round_half_even (x / u)) - x / u) * u"
    using u by (simp add: field_simps)
  then have "\<bar>rounded_to b p x - x\<bar> = \<bar>of_int (round_half_even (x / u)) - x / u\<bar> * u"
    using u by (simp add: abs_mult)
  also have "\<dots> \<le> (1 / 2) * u"
    using round_half_even_error [of "x / u"] u by (intro mult_right_mono) auto
  finally have "\<bar>rounded_to b p x - x\<bar> \<le> u / 2" by simp
  moreover have "u \<le> \<bar>x\<bar> / of_int b ^ (p - 1)" using le base_rat by (simp add: pos_le_divide_eq)
  then have "u / 2 \<le> \<bar>x\<bar> / of_int b ^ (p - 1) / 2" by (rule divide_right_mono) simp
  ultimately have "\<bar>rounded_to b p x - x\<bar> \<le> \<bar>x\<bar> / of_int b ^ (p - 1) / 2" by (rule order_trans)
  then show ?thesis by (simp add: mult.commute)
qed simp

text \<open>A value that needs at most \<open>p\<close> digits is not changed.\<close>

lemma rounded_exact:
  assumes "\<bar>c\<bar> \<le> b ^ p" shows "rounded_to b p (of_int c * of_int b powi e) = of_int c * of_int b powi e"
proof (cases "c = 0")
  case False
  define x :: rat where "x = of_int c * of_int b powi e"
  define k where "k = leading b \<bar>x\<bar>"
  have "x \<noteq> 0" using False base by (simp add: x_def)
  have x: "\<bar>x\<bar> = of_int \<bar>c\<bar> * of_int b powi e" using power_pos [of e] by (simp add: x_def abs_mult)
  have "(of_int \<bar>c\<bar> :: rat) \<le> of_int (b ^ p)" using assms by (simp only: of_int_le_iff)
  then have "\<bar>x\<bar> \<le> of_int (b ^ p) * of_int b powi e"
    unfolding x using power_pos [of e] by (intro mult_right_mono) auto
  also have "\<dots> = of_int b powi (e + int p)" using power_add [of "int p" e] by (simp add: add.commute)
  finally have upper: "\<bar>x\<bar> \<le> of_int b powi (e + int p)" .
  then have "of_int b powi k \<le> (of_int b powi (e + int p) :: rat)"
    using leading_spec [OF base, of "\<bar>x\<bar>"] \<open>x \<noteq> 0\<close> unfolding k_def by linarith
  then have le: "k \<le> e + int p" by (simp only: power_le_iff)
  define u :: rat where "u = of_int b powi (k + 1 - int p)"
  have u: "0 < u" by (simp add: u_def power_pos)
  have "\<exists>m. x = of_int m * u"
  proof (cases "k = e + int p")
    case True
    with upper have "\<bar>x\<bar> = of_int b powi k"
      using leading_spec [OF base, of "\<bar>x\<bar>"] \<open>x \<noteq> 0\<close> by (simp add: k_def [symmetric])
    then have "\<bar>x\<bar> = of_int (b ^ (p - 1)) * u" unfolding u_def using power_unit [of k] by simp
    then have "x = of_int (b ^ (p - 1)) * u \<or> x = - (of_int (b ^ (p - 1)) * u)" by linarith
    then show ?thesis
    proof
      assume "x = of_int (b ^ (p - 1)) * u" then show ?thesis ..
    next
      assume "x = - (of_int (b ^ (p - 1)) * u)"
      then have "x = of_int (- (b ^ (p - 1))) * u" by simp
      then show ?thesis ..
    qed
  next
    case False
    define m where "m = nat (e - (k + 1 - int p))"
    have "e = int m + (k + 1 - int p)" using False le by (simp add: m_def)
    then have "(of_int b :: rat) powi e = of_int b powi int m * u" unfolding u_def by (simp only: power_add)
    then have "x = of_int (c * b ^ m) * u" unfolding x_def by (simp add: mult.assoc)
    then show ?thesis ..
  qed
  then obtain m where m: "x = of_int m * u" ..
  then have "x / u = of_int m" using u by simp
  moreover have "rounded_to b p x = of_int (round_half_even (x / u)) * u"
    using \<open>x \<noteq> 0\<close> by (simp add: rounded_to_def Let_def u_def k_def)
  ultimately have "rounded_to b p x = x" using m by (simp add: round_half_even_of_int)
  then show ?thesis by (simp add: x_def)
qed simp

lemma rounded_int: "\<bar>n\<bar> \<le> b ^ p \<Longrightarrow> rounded_to b p (of_int n) = of_int n"
  using rounded_exact [of n 0] by simp

text \<open>Rounding twice is rounding once.\<close>

lemma rounded_idem [simp]: "rounded_to b p (rounded_to b p x) = rounded_to b p x"
proof (cases "x = 0")
  case False
  define e where "e = leading b \<bar>x\<bar> + 1 - int p"
  define r where "r = round_half_even (x / of_int b powi e)"
  have u: "(0 :: rat) < of_int b powi e" by (simp add: power_pos)
  have r: "rounded_to b p x = of_int r * of_int b powi e"
    using False by (simp add: rounded_to_def r_def e_def Let_def)
  have "\<bar>x\<bar> < of_int b powi (e + int p)"
    using leading_spec [OF base, of "\<bar>x\<bar>"] False by (simp add: e_def)
  also have "\<dots> = of_int (b ^ p) * of_int b powi e" using power_add [of "int p" e] by (simp add: add.commute)
  finally have "\<bar>x / of_int b powi e\<bar> < of_int (b ^ p)" using u by (simp add: abs_divide pos_divide_less_eq)
  then have "x / of_int b powi e \<le> of_int (b ^ p)" "of_int (- (b ^ p)) \<le> x / of_int b powi e"
    unfolding of_int_minus by linarith+
  then have "\<bar>r\<bar> \<le> b ^ p"
    unfolding r_def using round_half_even_mono round_half_even_of_int by (metis abs_le_iff minus_le_iff)
  then show ?thesis unfolding r by (rule rounded_exact)
qed (simp add: rounded_to_def)

end

interpretation decimal_digits: significand 10 28
  by unfold_locales simp_all

interpretation binary_digits: significand 2 53
  by unfold_locales simp_all

end
