(* ===== verification/Decimal28.thy ===== *)
theory Decimal28 imports Rounding
begin

text \<open>
  Python's \<open>decimal.Decimal\<close> under the default context, which the source never changes: 28
  significant digits, ROUND_HALF_EVEN, and traps for InvalidOperation and DivisionByZero. A finite
  decimal is modelled by its value, a rational number; its exponent (how many zeros it is written
  with) and the sign of zero are not part of the value, and no operation modelled here but
  \<open>str\<close> depends on them. An arithmetic operation computes the exact result and rounds it
  (\<open>dround\<close>); comparisons, \<open>max\<close> and \<open>min\<close> are exact. The exponent range of the
  context (plus or minus 999999) is taken to be wide enough: overflow and underflow are not modelled.
\<close>

section \<open>Rounding to 28 significant digits\<close>

definition dround :: "rat \<Rightarrow> rat" where
  "dround x = rounded_to 10 28 x"

abbreviation adjusted :: "rat \<Rightarrow> int" where "adjusted \<equiv> leading 10"

abbreviation pow10 :: "int \<Rightarrow> rat" where "pow10 e \<equiv> 10 powi e"

lemmas adjusted_eq = decimal_digits.leading_eq [simplified]

lemma dround_0 [simp]: "dround 0 = 0"
  by (simp add: dround_def)

lemma dround_minus: "dround (- x) = - dround x"
  by (simp add: dround_def rounded_to_minus)

lemma dround_pos: "0 < x \<Longrightarrow> 0 < dround x"
  using decimal_digits.rounded_pos by (simp add: dround_def)

lemma dround_mono: "x \<le> y \<Longrightarrow> dround x \<le> dround y"
  using decimal_digits.rounded_mono by (simp add: dround_def)

lemma dround_error: "\<bar>dround x - x\<bar> \<le> \<bar>x\<bar> * (1 / (2 * 10 ^ 27))"
  using decimal_digits.rounded_error [of x] by (simp add: dround_def)

lemma dround_exact: "\<bar>c\<bar> \<le> 10 ^ 28 \<Longrightarrow> dround (of_int c * pow10 e) = of_int c * pow10 e"
  using decimal_digits.rounded_exact [of c e] by (simp add: dround_def)

lemma dround_idem [simp]: "dround (dround x) = dround x"
  by (simp add: dround_def)

section \<open>Arithmetic\<close>

definition dadd :: "rat \<Rightarrow> rat \<Rightarrow> rat" where "dadd x y = dround (x + y)"
definition dsub :: "rat \<Rightarrow> rat \<Rightarrow> rat" where "dsub x y = dround (x - y)"
definition dmul :: "rat \<Rightarrow> rat \<Rightarrow> rat" where "dmul x y = dround (x * y)"
definition dneg :: "rat \<Rightarrow> rat" where "dneg x = dround (- x)"
definition dabs :: "rat \<Rightarrow> rat" where "dabs x = dround \<bar>x\<bar>"

text \<open>Division traps a zero divisor: InvalidOperation for 0/0, DivisionByZero otherwise.\<close>

definition ddiv :: "rat \<Rightarrow> rat \<Rightarrow> rat result" where
  "ddiv x y =
     (if y = 0 then Inl (if x = 0 then InvalidOperation else DivisionByZero)
      else Inr (dround (x / y)))"

text \<open>The quotient where the divisor is known not to be zero.\<close>

definition dquot :: "rat \<Rightarrow> rat \<Rightarrow> rat" where "dquot x y = dround (x / y)"

lemma ddiv_nonzero: "y \<noteq> 0 \<Longrightarrow> ddiv x y = Inr (dquot x y)"
  by (simp add: ddiv_def dquot_def)

text \<open>\<open>sum(values, start=Decimal("0"))\<close> adds from the left, rounding after each addition.\<close>

definition dsum :: "rat list \<Rightarrow> rat" where
  "dsum xs = foldl dadd 0 xs"

text \<open>
  \<open>x.quantize(10^-k, rounding)\<close>: a multiple of the quantum, refused when its coefficient needs
  more than 28 digits.
\<close>

definition quantize :: "(rat \<Rightarrow> int) \<Rightarrow> nat \<Rightarrow> rat \<Rightarrow> rat result" where
  "quantize rnd k x =
     (let c = rnd (x * 10 ^ k)
      in if \<bar>c\<bar> < 10 ^ 28 then Inr (of_int c / 10 ^ k) else Inl InvalidOperation)"

section \<open>What clients use of a rounding context\<close>

locale rounding_context =
  fixes rnd :: "rat \<Rightarrow> rat"
  assumes rnd_mono: "x \<le> y \<Longrightarrow> rnd x \<le> rnd y"
    and rnd_int: "\<bar>n\<bar> \<le> 10 ^ 28 \<Longrightarrow> rnd (of_int n) = of_int n"
    and rnd_minus: "rnd (- x) = - rnd x"
    and rnd_nonzero: "rnd x = 0 \<Longrightarrow> x = 0"
begin

lemma rnd_zero: "rnd 0 = 0"
  using rnd_int [of 0] by simp

lemma rnd_one: "rnd 1 = 1"
  using rnd_int [of 1] by simp

lemma rnd_nonneg: "0 \<le> x \<Longrightarrow> 0 \<le> rnd x"
  using rnd_mono [of 0 x] rnd_zero by simp

lemma rnd_positive: "0 < x \<Longrightarrow> 0 < rnd x"
  using rnd_nonneg [of x] rnd_nonzero [of x] by (auto simp: less_le)

lemma rnd_negative: "x < 0 \<Longrightarrow> rnd x < 0"
  using rnd_positive [of "- x"] by (simp add: rnd_minus)

lemma rnd_sign: "sgn (rnd x) = sgn x"
  using rnd_positive [of x] rnd_negative [of x] rnd_zero by (cases x "0 :: rat" rule: linorder_cases) auto

lemma rnd_le_int: "x \<le> of_int n \<Longrightarrow> \<bar>n\<bar> \<le> 10 ^ 28 \<Longrightarrow> rnd x \<le> of_int n"
  using rnd_mono [of x "of_int n"] rnd_int [of n] by simp

lemma rnd_ge_int: "of_int n \<le> x \<Longrightarrow> \<bar>n\<bar> \<le> 10 ^ 28 \<Longrightarrow> of_int n \<le> rnd x"
  using rnd_mono [of "of_int n" x] rnd_int [of n] by simp

lemma rnd_unit_interval: "0 \<le> x \<Longrightarrow> x \<le> 1 \<Longrightarrow> 0 \<le> rnd x \<and> rnd x \<le> 1"
  using rnd_nonneg [of x] rnd_le_int [of x 1] by simp

end

interpretation dc: rounding_context dround
proof unfold_locales
  show "dround (of_int n) = of_int n" if "\<bar>n\<bar> \<le> 10 ^ 28" for n
    using dround_exact [OF that, of 0] by simp
  show "x = 0" if "dround x = 0" for x
    using that dround_pos [of x] dround_pos [of "- x"]
    by (cases x "0 :: rat" rule: linorder_cases) (auto simp: dround_minus)
qed (fact dround_mono dround_minus)+

lemmas dec_defs = dadd_def dsub_def dmul_def dneg_def dabs_def dquot_def

section \<open>Decimal grids: amounts with at most k fractional digits\<close>

definition on_grid :: "nat \<Rightarrow> rat \<Rightarrow> bool" where
  "on_grid k x \<longleftrightarrow> of_int \<lfloor>x * 10 ^ k\<rfloor> = x * 10 ^ k"

lemma on_grid_iff: "on_grid k x \<longleftrightarrow> (\<exists>c. x = of_int c / 10 ^ k)"
proof
  assume "on_grid k x"
  then have "x * 10 ^ k = of_int \<lfloor>x * 10 ^ k\<rfloor>" by (simp only: on_grid_def)
  then have "x = of_int \<lfloor>x * 10 ^ k\<rfloor> / 10 ^ k" by (metis nonzero_eq_divide_eq power_not_zero zero_neq_numeral)
  then show "\<exists>c. x = of_int c / 10 ^ k" ..
qed (auto simp: on_grid_def)

lemma on_grid_frac [simp, intro]: "on_grid k (of_int c / 10 ^ k)"
  by (auto simp: on_grid_iff)

lemma on_grid_of_int [simp, intro]: "on_grid k (of_int c)"
  unfolding on_grid_iff by (rule exI [of _ "c * 10 ^ k"]) simp

lemma on_grid_0 [simp]: "on_grid k 0" and on_grid_1 [simp]: "on_grid k 1"
  using on_grid_of_int [of k 0] on_grid_of_int [of k 1] by simp_all

lemma on_grid_add [intro]: "on_grid k x \<Longrightarrow> on_grid k y \<Longrightarrow> on_grid k (x + y)"
  unfolding on_grid_iff by (metis add_divide_distrib of_int_add)

lemma on_grid_minus [intro]: "on_grid k x \<Longrightarrow> on_grid k (- x)"
  unfolding on_grid_iff by (metis minus_divide_left of_int_minus)

lemma on_grid_diff [intro]: "on_grid k x \<Longrightarrow> on_grid k y \<Longrightarrow> on_grid k (x - y)"
  using on_grid_add [of k x "- y"] on_grid_minus [of k y] by simp

lemma on_grid_sum_list [intro]: "(\<And>x. x \<in> set xs \<Longrightarrow> on_grid k x) \<Longrightarrow> on_grid k (sum_list xs)"
  by (induction xs) auto

text \<open>An amount on the grid that fits in 28 digits is represented exactly.\<close>

lemma dround_grid:
  assumes "on_grid k x" "\<bar>x\<bar> * 10 ^ k \<le> 10 ^ 28" shows "dround x = x"
proof -
  obtain c where c: "x = of_int c / 10 ^ k" using assms(1) by (auto simp: on_grid_iff)
  then have "\<bar>x\<bar> * 10 ^ k = of_int \<bar>c\<bar>" by simp
  with assms(2) have "(of_int \<bar>c\<bar> :: rat) \<le> of_int (10 ^ 28)" by simp
  then have "\<bar>c\<bar> \<le> 10 ^ 28" by (simp only: of_int_le_iff)
  moreover have "x = of_int c * pow10 (- int k)" by (simp add: c power_int_minus field_simps)
  ultimately show ?thesis using dround_exact by metis
qed

text \<open>
  Evaluation by the simplifier of closed decimal expressions whose values have at most twelve
  fractional digits.
\<close>

lemmas dec_eval = dec_defs on_grid_def dround_grid [of 12]

section \<open>Sums on a grid\<close>

lemma dsum_snoc: "dsum (xs @ [x]) = dadd (dsum xs) x"
  by (simp add: dsum_def)

lemma abs_sum_list_le: "\<bar>sum_list xs\<bar> \<le> sum_list (map abs (xs :: rat list))"
  by (induction xs) (auto intro: order_trans [OF abs_triangle_ineq])

lemma dsum_grid:
  assumes "\<forall>x \<in> set xs. on_grid k x" "sum_list (map abs xs) * 10 ^ k \<le> 10 ^ 28"
  shows "dsum xs = sum_list xs"
  using assms
proof (induction xs rule: rev_induct)
  case (snoc x xs)
  have le: "\<bar>sum_list xs + x\<bar> \<le> sum_list (map abs (xs @ [x]))"
    using abs_sum_list_le [of "xs @ [x]"] by simp
  then have "\<bar>sum_list xs + x\<bar> * 10 ^ k \<le> sum_list (map abs (xs @ [x])) * 10 ^ k"
    by (rule mult_right_mono) simp
  then have "\<bar>sum_list xs + x\<bar> * 10 ^ k \<le> 10 ^ 28" using snoc.prems(2) by linarith
  moreover have "on_grid k (sum_list xs + x)" using snoc.prems(1) by auto
  ultimately have "dround (sum_list xs + x) = sum_list xs + x" by (rule dround_grid [rotated])
  moreover have "sum_list (map abs xs) * 10 ^ k \<le> sum_list (map abs (xs @ [x])) * 10 ^ k"
    by (rule mult_right_mono) simp_all
  then have "sum_list (map abs xs) * 10 ^ k \<le> 10 ^ 28" using snoc.prems(2) by linarith
  then have "dsum xs = sum_list xs" using snoc.IH snoc.prems(1) by simp
  ultimately show ?case by (simp add: dsum_snoc dadd_def)
qed (simp add: dsum_def)

text \<open>A product of rounded factors stays within a factor of two of the exact one.\<close>

lemma dround_abs_le: "\<bar>dround x\<bar> \<le> \<bar>x\<bar> * (1001 / 1000)"
proof -
  have "\<bar>dround x\<bar> \<le> \<bar>x\<bar> + \<bar>x\<bar> * (1 / (2 * 10 ^ 27))" using dround_error [of x] by linarith
  also have "\<dots> \<le> \<bar>x\<bar> * (1001 / 1000)" by (simp add: field_simps)
  finally show ?thesis .
qed

section \<open>Quantizing, for any monotone rounding that fixes the integers\<close>

locale integer_rounding =
  fixes r :: "rat \<Rightarrow> int"
  assumes r_mono: "x \<le> y \<Longrightarrow> r x \<le> r y"
    and r_int: "r (of_int n) = n"
    and r_near: "\<bar>of_int (r x) - x\<bar> \<le> 1"
begin

lemma quantize_grid:
  assumes "on_grid k x" "\<bar>x\<bar> * 10 ^ k < 10 ^ 28" shows "quantize r k x = Inr x"
proof -
  obtain c where c: "x = of_int c / 10 ^ k" using assms(1) by (auto simp: on_grid_iff)
  then have "\<bar>x\<bar> * 10 ^ k = of_int \<bar>c\<bar>" by simp
  with assms(2) have "(of_int \<bar>c\<bar> :: rat) < of_int (10 ^ 28)" by simp
  then have "\<bar>c\<bar> < 10 ^ 28" by (simp only: of_int_less_iff)
  then show ?thesis by (simp add: quantize_def c r_int)
qed

lemma quantize_result:
  assumes "quantize r k x = Inr y"
  shows "on_grid k y" "\<bar>y\<bar> * 10 ^ k < 10 ^ 28" "y = of_int (r (x * 10 ^ k)) / 10 ^ k"
proof -
  from assms have y: "y = of_int (r (x * 10 ^ k)) / 10 ^ k" and c: "\<bar>r (x * 10 ^ k)\<bar> < 10 ^ 28"
    by (auto simp: quantize_def Let_def split: if_splits)
  from c have "(of_int \<bar>r (x * 10 ^ k)\<bar> :: rat) < of_int (10 ^ 28)" by (simp only: of_int_less_iff)
  then show "\<bar>y\<bar> * 10 ^ k < 10 ^ 28" by (simp add: y)
  show "on_grid k y" "y = of_int (r (x * 10 ^ k)) / 10 ^ k" by (simp_all add: y)
qed

lemma quantize_near:
  assumes "quantize r k x = Inr y" shows "\<bar>y - x\<bar> \<le> 1 / 10 ^ k"
proof -
  have "\<bar>y - x\<bar> * 10 ^ k = \<bar>(y - x) * 10 ^ k\<bar>" by (simp add: abs_mult)
  also have "(y - x) * 10 ^ k = of_int (r (x * 10 ^ k)) - x * 10 ^ k"
    by (simp add: quantize_result(3) [OF assms] left_diff_distrib)
  finally show ?thesis using r_near [of "x * 10 ^ k"] by (simp add: field_simps)
qed

lemma quantize_idem: "quantize r k x = Inr y \<Longrightarrow> quantize r k y = Inr y"
  using quantize_grid quantize_result by blast

lemma quantize_mono:
  assumes "quantize r k x = Inr u" "quantize r k y = Inr v" "x \<le> y" shows "u \<le> v"
proof -
  have "r (x * 10 ^ k) \<le> r (y * 10 ^ k)" using assms(3) by (intro r_mono mult_right_mono) auto
  then show ?thesis
    using quantize_result(3) [OF assms(1)] quantize_result(3) [OF assms(2)] by (simp add: divide_right_mono)
qed

lemma quantize_between:
  assumes "quantize r k x = Inr y" "on_grid k a" "on_grid k b" "a \<le> x" "x \<le> b"
  shows "a \<le> y \<and> y \<le> b"
proof -
  obtain c d where cd: "a = of_int c / 10 ^ k" "b = of_int d / 10 ^ k"
    using assms(2,3) by (auto simp: on_grid_iff)
  with assms(4,5) have "of_int c \<le> x * 10 ^ k" "x * 10 ^ k \<le> of_int d" by (simp_all add: field_simps)
  then have "c \<le> r (x * 10 ^ k)" "r (x * 10 ^ k) \<le> d" using r_mono r_int by metis+
  then have "(of_int c :: rat) \<le> of_int (r (x * 10 ^ k))" "(of_int (r (x * 10 ^ k)) :: rat) \<le> of_int d"
    by simp_all
  then show ?thesis unfolding quantize_result(3) [OF assms(1)] cd by (simp add: divide_right_mono)
qed

lemma quantize_nonneg: "quantize r k x = Inr y \<Longrightarrow> 0 \<le> x \<Longrightarrow> 0 \<le> y"
  using quantize_result(3) [of k x y] r_mono [of 0 "x * 10 ^ k"] r_int [of 0] by simp

lemma quantize_returns:
  assumes "\<bar>x\<bar> * 10 ^ k \<le> 10 ^ 28 - 2" obtains y where "quantize r k x = Inr y"
proof -
  have "\<bar>x * 10 ^ k\<bar> \<le> 10 ^ 28 - 2" using assms by (simp add: abs_mult)
  then have "\<bar>of_int (r (x * 10 ^ k)) :: rat\<bar> < 10 ^ 28" using r_near [of "x * 10 ^ k"] by linarith
  then have "(of_int \<bar>r (x * 10 ^ k)\<bar> :: rat) < of_int (10 ^ 28)" by simp
  then have "\<bar>r (x * 10 ^ k)\<bar> < 10 ^ 28" by (simp only: of_int_less_iff)
  then show ?thesis by (intro that) (simp add: quantize_def)
qed

end

interpretation half_even: integer_rounding round_half_even
proof unfold_locales
  show "\<bar>of_int (round_half_even x) - x\<bar> \<le> 1" for x using round_half_even_error [of x] by linarith
qed (fact round_half_even_mono round_half_even_of_int)+

interpretation half_up: integer_rounding round_half_up
proof unfold_locales
  show "\<bar>of_int (round_half_up x) - x\<bar> \<le> 1" for x using round_half_up_error [of x] by linarith
qed (fact round_half_up_mono round_half_up_of_int)+

interpretation down: integer_rounding round_down
  using round_down_error
  by unfold_locales (auto simp: round_down_mono round_down_of_int intro: less_imp_le)

end
