(* ===== verification/Digests.thy ===== *)
theory Digests imports Prelude "HOL-Library.Word"
begin

unbundle bit_operations_syntax

text \<open>
  The parts of Python's standard library from which the source builds its deterministic
  identifiers: \<open>str(int)\<close>, \<open>datetime.isoformat()\<close> of a UTC instant, \<open>"::".join\<close>, and
  \<open>hashlib.sha256(...).hexdigest()\<close>. SHA-256 is the FIPS 180-4 function on the bytes of the
  (ASCII) string. What the program relies on is that a digest is 64 lower-case hex digits, so
  that every identifier cut from one has the declared pattern; nothing here assumes that digests
  do not collide.
\<close>

section \<open>Numbers and instants as text\<close>

definition digit_char :: "int \<Rightarrow> char" where
  "digit_char d = char_of (48 + nat d)"

function nat_digits :: "int \<Rightarrow> string" where
  "nat_digits n = (if n < 10 then [digit_char n] else nat_digits (n div 10) @ [digit_char (n mod 10)])"
  by pat_completeness auto
termination
  by (relation "measure nat") auto

declare nat_digits.simps [simp del]

lemma length_nat_digits:
  assumes "0 \<le> n" "n < 10 ^ k" "0 < k" shows "1 \<le> length (nat_digits n) \<and> length (nat_digits n) \<le> k"
  using assms
proof (induction n arbitrary: k rule: nat_digits.induct)
  case (1 n)
  show ?case
  proof (cases "n < 10")
    case True
    with 1 show ?thesis by (simp add: nat_digits.simps [of n])
  next
    case False
    with 1(3) have "k \<noteq> 1" by auto
    with 1(4) obtain m where m: "k = Suc m" "0 < m" by (cases k) auto
    have "n div 10 < 10 ^ m" using 1(3) m by (simp add: div_less_iff_less_mult)
    with 1 m False have "1 \<le> length (nat_digits (n div 10)) \<and> length (nat_digits (n div 10)) \<le> m" by simp
    with False m show ?thesis by (simp add: nat_digits.simps [of n])
  qed
qed

definition str_int :: "int \<Rightarrow> string" where
  "str_int n = (if n < 0 then CHR ''-'' # nat_digits (- n) else nat_digits n)"

definition pad :: "nat \<Rightarrow> int \<Rightarrow> string" where
  "pad w n = (let s = str_int n in replicate (w - length s) (CHR ''0'') @ s)"

text \<open>The proleptic Gregorian date of a day number counted from 1970-01-01.\<close>

definition civil_date :: "int \<Rightarrow> int \<times> int \<times> int" where
  "civil_date days =
     (let z = days + 719468;
          era = z div 146097;
          doe = z mod 146097;
          yoe = (doe - doe div 1460 + doe div 36524 - doe div 146096) div 365;
          doy = doe - (365 * yoe + yoe div 4 - yoe div 100);
          mp = (5 * doy + 2) div 153;
          d = doy - (153 * mp + 2) div 5 + 1;
          m = (if mp < 10 then mp + 3 else mp - 9);
          y = yoe + era * 400 + (if m \<le> 2 then 1 else 0)
      in (y, m, d))"

definition isoformat :: "int \<Rightarrow> string" where
  "isoformat t =
     (let (y, m, d) = civil_date (t div day_us);
          r = t mod day_us;
          us = r mod second_us
      in pad 4 y @ ''-'' @ pad 2 m @ ''-'' @ pad 2 d @ ''T'' @
         pad 2 (r div hour_us) @ '':'' @ pad 2 (r mod hour_us div minute_us) @ '':'' @
         pad 2 (r mod minute_us div second_us) @
         (if us = 0 then '''' else ''.'' @ pad 6 us) @ ''+00:00'')"

fun join :: "string \<Rightarrow> string list \<Rightarrow> string" where
  "join sep [] = []"
| "join sep [s] = s"
| "join sep (s # t # ss) = s @ sep @ join sep (t # ss)"

section \<open>SHA-256\<close>

type_synonym u32 = "32 word"

definition sha_k :: "u32 list" where
  "sha_k =
    [1116352408, 1899447441, 3049323471, 3921009573, 961987163, 1508970993, 2453635748, 2870763221,
     3624381080, 310598401, 607225278, 1426881987, 1925078388, 2162078206, 2614888103, 3248222580,
     3835390401, 4022224774, 264347078, 604807628, 770255983, 1249150122, 1555081692, 1996064986,
     2554220882, 2821834349, 2952996808, 3210313671, 3336571891, 3584528711, 113926993, 338241895,
     666307205, 773529912, 1294757372, 1396182291, 1695183700, 1986661051, 2177026350, 2456956037,
     2730485921, 2820302411, 3259730800, 3345764771, 3516065817, 3600352804, 4094571909, 275423344,
     430227734, 506948616, 659060556, 883997877, 958139571, 1322822218, 1537002063, 1747873779,
     1955562222, 2024104815, 2227730452, 2361852424, 2428436474, 2756734187, 3204031479, 3329325298]"

definition sha_init :: "u32 list" where
  "sha_init =
    [1779033703, 3144134277, 1013904242, 2773480762, 1359893119, 2600822924, 528734635, 1541459225]"

definition rotr :: "nat \<Rightarrow> u32 \<Rightarrow> u32" where
  "rotr n x = (drop_bit n x) OR (push_bit (32 - n) x)"

text \<open>The message schedule is kept newest word first, so that the four taps are fixed positions.\<close>

fun sha_schedule :: "nat \<Rightarrow> u32 list \<Rightarrow> u32 list" where
  "sha_schedule 0 ws = ws"
| "sha_schedule (Suc n) ws =
     (let w15 = ws ! 14; w2 = ws ! 1;
          s0 = rotr 7 w15 XOR rotr 18 w15 XOR drop_bit 3 w15;
          s1 = rotr 17 w2 XOR rotr 19 w2 XOR drop_bit 10 w2
      in sha_schedule n ((ws ! 15 + s0 + ws ! 6 + s1) # ws))"

fun sha_round :: "u32 list \<Rightarrow> u32 \<times> u32 \<Rightarrow> u32 list" where
  "sha_round [a, b, c, d, e, f, g, h] (k, w) =
     (let s1 = rotr 6 e XOR rotr 11 e XOR rotr 25 e;
          ch = (e AND f) XOR (NOT e AND g);
          t1 = h + s1 + ch + k + w;
          s0 = rotr 2 a XOR rotr 13 a XOR rotr 22 a;
          maj = (a AND b) XOR (a AND c) XOR (b AND c)
      in [t1 + (s0 + maj), a, b, c, d + t1, e, f, g])"
| "sha_round hs kw = hs"

definition sha_block :: "u32 list \<Rightarrow> u32 list \<Rightarrow> u32 list" where
  "sha_block hs block =
     map2 (+) hs (foldl sha_round hs (zip sha_k (rev (sha_schedule 48 (rev block)))))"

fun words_of_bytes :: "u32 list \<Rightarrow> u32 list" where
  "words_of_bytes (a # b # c # d # bs) =
     (push_bit 24 a OR push_bit 16 b OR push_bit 8 c OR d) # words_of_bytes bs"
| "words_of_bytes _ = []"

definition length_bytes :: "nat \<Rightarrow> u32 list" where
  "length_bytes n = map (\<lambda>i. of_nat (n * 8 div 256 ^ (7 - i) mod 256)) [0..<8]"

definition sha_padded :: "string \<Rightarrow> u32 list" where
  "sha_padded s =
     map (\<lambda>c. of_nat (of_char c)) s @ [0x80] @
     replicate ((119 - length s mod 64) mod 64) 0 @ length_bytes (length s)"

fun sha_blocks :: "nat \<Rightarrow> u32 list \<Rightarrow> u32 list \<Rightarrow> u32 list" where
  "sha_blocks 0 hs ws = hs"
| "sha_blocks (Suc n) hs ws = sha_blocks n (sha_block hs (take 16 ws)) (drop 16 ws)"

definition hex_char :: "u32 \<Rightarrow> char" where
  "hex_char w = (let n = unat w mod 16 in if n < 10 then char_of (48 + n) else char_of (87 + n))"

definition hex_word :: "u32 \<Rightarrow> string" where
  "hex_word w = map (\<lambda>i. hex_char (drop_bit (28 - 4 * i) w)) [0..<8]"

definition sha256_hexdigest :: "string \<Rightarrow> string" where
  "sha256_hexdigest s =
     (let ws = words_of_bytes (sha_padded s)
      in concat (map hex_word (sha_blocks (length ws div 16) sha_init ws)))"

text \<open>The 16-digit digests that identifiers carry.\<close>

definition digest16 :: "string \<Rightarrow> string" where
  "digest16 s = take 16 (sha256_hexdigest s)"

lemma is_lower_hex_hex_char [simp]: "is_lower_hex (hex_char w)"
proof -
  have "unat w mod 16 < 16" by simp
  then consider "unat w mod 16 < 10" | "10 \<le> unat w mod 16" "unat w mod 16 < 16" by linarith
  then show ?thesis
    by cases (auto simp: hex_char_def is_lower_hex_def Let_def of_char_of)
qed

lemma hex_word_form: "length (hex_word w) = 8" "list_all is_lower_hex (hex_word w)"
  by (simp_all add: hex_word_def list_all_iff)

lemma length_sha_round: "length hs = 8 \<Longrightarrow> length (sha_round hs kw) = 8"
  by (cases "(hs, kw)" rule: sha_round.cases) (auto simp: Let_def)

lemma length_sha_block: "length hs = 8 \<Longrightarrow> length (sha_block hs b) = 8"
proof -
  assume hs: "length hs = 8"
  have "length (foldl sha_round hs kws) = 8" for kws
    using hs by (induction kws arbitrary: hs) (simp_all add: length_sha_round)
  with hs show ?thesis by (simp add: sha_block_def)
qed

lemma length_sha_blocks: "length hs = 8 \<Longrightarrow> length (sha_blocks n hs ws) = 8"
  by (induction n arbitrary: hs ws) (simp_all add: length_sha_block)

lemma hexdigest_form: "length (sha256_hexdigest s) = 64" "list_all is_lower_hex (sha256_hexdigest s)"
proof -
  have len: "length (concat (map hex_word ws)) = 8 * length ws" for ws
    by (induction ws) (simp_all add: hex_word_form)
  have hex: "list_all is_lower_hex (concat (map hex_word ws))" for ws
    by (induction ws) (simp_all add: hex_word_form)
  show "length (sha256_hexdigest s) = 64" "list_all is_lower_hex (sha256_hexdigest s)"
    by (simp_all add: sha256_hexdigest_def Let_def len hex length_sha_blocks sha_init_def)
qed

lemma digest16_form [simp]: "length (digest16 s) = 16" "list_all is_lower_hex (digest16 s)"
  using hexdigest_form [of s] by (auto simp: digest16_def list_all_iff dest: in_set_takeD)

end
