(* ===== verification/Domain.thy ===== *)
theory Domain imports Decimal28 Digests
begin

text \<open>
  The market-data vocabulary of \<open>trd_bot/domain/market_data.py\<close> (timeframes, trading pairs, OHLCV
  candles) and the immutable dataset snapshot of \<open>trd_bot/research/datasets.py\<close> that every
  research component reads. A model class is a record plus a construction function that runs the
  class's field constraints and then its validator.
\<close>

section \<open>Timeframes and pairs\<close>

datatype market_type = SPOT

datatype timeframe = MINUTES_15 | HOUR_1 | HOURS_4 | DAY_1

fun duration :: "timeframe \<Rightarrow> int" where
  "duration MINUTES_15 = 15 * minute_us"
| "duration HOUR_1 = hour_us"
| "duration HOURS_4 = 4 * hour_us"
| "duration DAY_1 = day_us"

lemma duration_pos: "0 < duration tf"
  by (cases tf) simp_all

record trading_pair =
  base_asset :: string
  quote_asset :: string
  pair_market_type :: market_type

definition normalize_asset :: "string \<Rightarrow> string" where
  "normalize_asset v = upper (strip v)"

definition asset_ok :: "string \<Rightarrow> bool" where
  "asset_ok a \<longleftrightarrow> sized 2 15 a \<and> list_all is_upper_alnum a"

definition TradingPair :: "string \<Rightarrow> string \<Rightarrow> market_type \<Rightarrow> trading_pair result" where
  "TradingPair base quoted mt =
     (let b = normalize_asset base; q = normalize_asset quoted
      in bindR (check_fields [(''base_asset'', asset_ok b), (''quote_asset'', asset_ok q)] ())
           (\<lambda>_. raising [(b = q, ValueError ''base asset and quote asset must be different'')]
                  \<lparr>base_asset = b, quote_asset = q, pair_market_type = mt\<rparr>))"

definition symbol :: "trading_pair \<Rightarrow> string" where
  "symbol p = base_asset p @ ''/'' @ quote_asset p"

lemma is_upper_alnum_facts: "is_upper_alnum c \<Longrightarrow> \<not> is_space c \<and> upper_char c = c"
  by (auto simp: is_upper_alnum_def is_space_def upper_char_def Let_def)

lemma strip_fixed: "list_all (\<lambda>c. \<not> is_space c) s \<Longrightarrow> strip s = s"
proof -
  have "dropWhile is_space t = t" if "list_all (\<lambda>c. \<not> is_space c) t" for t
    using that by (cases t) auto
  moreover assume "list_all (\<lambda>c. \<not> is_space c) s"
  moreover then have "list_all (\<lambda>c. \<not> is_space c) (rev s)" by (simp add: list_all_iff)
  ultimately have "dropWhile is_space s = s" "dropWhile is_space (rev s) = rev s" by blast+
  then show ?thesis by (simp add: strip_def)
qed

lemma normalize_asset_fixed:
  assumes "list_all is_upper_alnum a" shows "normalize_asset a = a"
proof -
  have "list_all (\<lambda>c. \<not> is_space c) a" "map upper_char a = a"
    using assms is_upper_alnum_facts by (auto simp: list_all_iff intro: map_idI)
  then show ?thesis by (simp add: normalize_asset_def strip_fixed upper_def)
qed

lemma TradingPair_Inr:
  "TradingPair b q mt = Inr p \<longleftrightarrow>
     p = \<lparr>base_asset = normalize_asset b, quote_asset = normalize_asset q, pair_market_type = mt\<rparr>
     \<and> asset_ok (normalize_asset b) \<and> asset_ok (normalize_asset q)
     \<and> normalize_asset b \<noteq> normalize_asset q"
  by (auto simp: TradingPair_def Let_def error_dests)

section \<open>Candles\<close>

record candle =
  candle_source :: string
  candle_pair :: trading_pair
  candle_timeframe :: timeframe
  open_time :: int
  close_time :: int
  received_at :: int
  open_price :: rat
  high_price :: rat
  low_price :: rat
  close_price :: rat
  volume :: rat
  is_closed :: bool

text \<open>The field constraints of \<open>OHLCVCandle\<close>; its timestamps are converted to UTC by then.\<close>

definition candle_fields :: "candle \<Rightarrow> (string \<times> bool) list" where
  "candle_fields c =
     [(''source'', sized 1 50 (candle_source c)),
      (''open_price'', 0 < open_price c), (''high_price'', 0 < high_price c),
      (''low_price'', 0 < low_price c), (''close_price'', 0 < close_price c),
      (''volume'', 0 \<le> volume c)]"

definition validate_candle :: "candle \<Rightarrow> candle result" where
  "validate_candle c =
     (let highest_body_price = max (open_price c) (close_price c);
          lowest_body_price = min (open_price c) (close_price c)
      in raising
        [(close_time c \<le> open_time c, ValueError ''close time must be after open time''),
         (high_price c < low_price c, ValueError ''high price cannot be lower than low price''),
         (high_price c < highest_body_price,
            ValueError ''high price cannot be lower than open or close price''),
         (low_price c > lowest_body_price,
            ValueError ''low price cannot be higher than open or close price'')] c)"

text \<open>
  \<open>OHLCVCandle(...)\<close>: the timestamps arrive as the caller has them; a naive one fails its field
  validator.
\<close>

definition OHLCVCandle ::
  "string \<Rightarrow> trading_pair \<Rightarrow> timeframe \<Rightarrow> timestamp \<Rightarrow> timestamp \<Rightarrow> timestamp \<Rightarrow>
   rat \<Rightarrow> rat \<Rightarrow> rat \<Rightarrow> rat \<Rightarrow> rat \<Rightarrow> bool \<Rightarrow> candle result" where
  "OHLCVCandle src pair tf opened_at closed_at rcvd_at op hi lo cl vol fin =
     (let c = \<lparr>candle_source = src, candle_pair = pair, candle_timeframe = tf,
               open_time = instant opened_at, close_time = instant closed_at, received_at = instant rcvd_at,
               open_price = op, high_price = hi, low_price = lo, close_price = cl, volume = vol,
               is_closed = fin\<rparr>
      in bindR (check_fields
             ([hd (candle_fields c),
               (''open_time'', aware opened_at), (''close_time'', aware closed_at),
               (''received_at'', aware rcvd_at)] @ tl (candle_fields c)) c)
           validate_candle)"

text \<open>What holds of every candle that exists.\<close>

definition valid_candle :: "candle \<Rightarrow> bool" where
  "valid_candle c \<longleftrightarrow>
     (\<forall>(n, ok) \<in> set (candle_fields c). ok) \<and> returns (validate_candle c)"

lemma valid_candle_iff:
  "valid_candle c \<longleftrightarrow>
     sized 1 50 (candle_source c) \<and> 0 < low_price c \<and> 0 \<le> volume c
     \<and> open_time c < close_time c
     \<and> low_price c \<le> min (open_price c) (close_price c)
     \<and> max (open_price c) (close_price c) \<le> high_price c"
  by (auto simp: valid_candle_def candle_fields_def validate_candle_def Let_def raising_returns_iff
      not_less not_le)

lemma validate_candle_Inr: "validate_candle c = Inr d \<Longrightarrow> d = c \<and> returns (validate_candle c)"
  by (simp add: validate_candle_def Let_def raising_Inr_iff raising_returns_iff)

lemma OHLCVCandle_valid:
  assumes "OHLCVCandle src pair tf t1 t2 t3 op hi lo cl vol fin = Inr c"
  shows "valid_candle c" "t1 = Aware (open_time c)" "t2 = Aware (close_time c)"
    "t3 = Aware (received_at c)"
proof -
  define c0 where "c0 = \<lparr>candle_source = src, candle_pair = pair, candle_timeframe = tf,
    open_time = instant t1, close_time = instant t2, received_at = instant t3,
    open_price = op, high_price = hi, low_price = lo, close_price = cl, volume = vol, is_closed = fin\<rparr>"
  let ?aware = "[(''open_time'', aware t1), (''close_time'', aware t2), (''received_at'', aware t3)]"
  have ok: "check_fields ([hd (candle_fields c0)] @ ?aware @ tl (candle_fields c0)) c0 = Inr c0"
    and c: "validate_candle c0 = Inr c"
    using assms by (auto simp: OHLCVCandle_def c0_def [symmetric] bindR_Inr_iff check_fields_Inr_iff)
  have "set (candle_fields c0) \<subseteq> set ([hd (candle_fields c0)] @ ?aware @ tl (candle_fields c0))"
    by (simp add: candle_fields_def)
  with ok have "\<forall>(n, b) \<in> set (candle_fields c0). b" unfolding check_fields_Inr_iff by blast
  with validate_candle_Inr [OF c] show "valid_candle c" by (simp add: valid_candle_def)
  from ok have "aware t1" "aware t2" "aware t3" by (simp_all add: check_fields_Inr_iff)
  with validate_candle_Inr [OF c] show "t1 = Aware (open_time c)" "t2 = Aware (close_time c)"
    "t3 = Aware (received_at c)"
    by (cases t1; cases t2; cases t3; simp add: c0_def)+
qed

section \<open>Dataset snapshots\<close>

text \<open>
  The part of \<open>DatasetSnapshot\<close> that strategies and backtests read; the theory \<open>Datasets\<close> extends the
  record by the provenance, the quality report and the content identity.
\<close>

record dataset =
  dataset_id :: string
  schema_version :: int
  dataset_name :: string
  dataset_source :: string
  dataset_pair :: trading_pair
  dataset_timeframe :: timeframe
  start_time :: int
  end_time :: int
  dataset_created_at :: int
  candle_count :: int
  checksum :: string
  candles :: "candle list"

text \<open>
  A series of candles as the exchanges deliver it: not empty, each candle valid, and each candle over
  before the next one opens. (The quality check compares open times only, so the last condition is
  not something it guarantees.)
\<close>

definition candle_series :: "candle list \<Rightarrow> bool" where
  "candle_series cs \<longleftrightarrow>
     cs \<noteq> [] \<and> list_all valid_candle cs
     \<and> sorted_wrt (\<lambda>a b. close_time a \<le> open_time b) cs"

lemma candle_series_opens:
  "candle_series cs \<Longrightarrow> sorted_wrt (\<lambda>a b. open_time a < open_time b) cs"
proof -
  assume cs: "candle_series cs"
  then have "sorted_wrt (\<lambda>a b. close_time a \<le> open_time b) cs" by (simp add: candle_series_def)
  moreover have "\<forall>a \<in> set cs. open_time a < close_time a"
    using cs by (auto simp: candle_series_def list_all_iff valid_candle_iff)
  ultimately show ?thesis by (elim sorted_wrt_mono_rel [rotated]) fastforce
qed

lemma candle_series_closes:
  "candle_series cs \<Longrightarrow> sorted_wrt (\<lambda>a b. close_time a < close_time b) cs"
proof -
  assume cs: "candle_series cs"
  then have "sorted_wrt (\<lambda>a b. close_time a \<le> open_time b) cs" by (simp add: candle_series_def)
  moreover have "\<forall>a \<in> set cs. open_time a < close_time a"
    using cs by (auto simp: candle_series_def list_all_iff valid_candle_iff)
  ultimately show ?thesis by (elim sorted_wrt_mono_rel [rotated]) fastforce
qed

lemma candle_series_valid: "candle_series cs \<Longrightarrow> c \<in> set cs \<Longrightarrow> valid_candle c"
  by (auto simp: candle_series_def list_all_iff)

section \<open>A sample series\<close>

text \<open>Hourly candles with one price each, for the concrete instances of the theorems.\<close>

definition sample_pair :: trading_pair where
  "sample_pair = \<lparr>base_asset = ''BTC'', quote_asset = ''USDT'', pair_market_type = SPOT\<rparr>"

definition sample_candle :: "int \<times> rat \<Rightarrow> candle" where
  "sample_candle r =
     \<lparr>candle_source = ''test'', candle_pair = sample_pair, candle_timeframe = HOUR_1,
      open_time = fst r * hour_us, close_time = (fst r + 1) * hour_us,
      received_at = (fst r + 1) * hour_us,
      open_price = snd r, high_price = snd r, low_price = snd r, close_price = snd r, volume = 1,
      is_closed = True\<rparr>"

definition sample_dataset :: "rat list \<Rightarrow> dataset" where
  "sample_dataset prices =
     \<lparr>dataset_id = ''dataset-1'', schema_version = 3, dataset_name = ''sample'',
      dataset_source = ''test'', dataset_pair = sample_pair, dataset_timeframe = HOUR_1,
      start_time = 0, end_time = int (length prices) * hour_us, dataset_created_at = 0,
      candle_count = int (length prices), checksum = replicate 64 (CHR ''0''),
      candles = map sample_candle (enumerate_from 0 prices)\<rparr>"

lemma sample_dataset_fields [simp]:
  "dataset_id (sample_dataset ps) = ''dataset-1''" "dataset_pair (sample_dataset ps) = sample_pair"
  "dataset_timeframe (sample_dataset ps) = HOUR_1"
  by (simp_all add: sample_dataset_def)

lemma sample_candles: "candles (sample_dataset ps) = map sample_candle (enumerate_from 0 ps)"
  by (simp add: sample_dataset_def)

lemma sample_candle_times [simp]:
  "open_time (sample_candle r) = fst r * hour_us" "close_time (sample_candle r) = (fst r + 1) * hour_us"
  "open_price (sample_candle r) = snd r" "close_price (sample_candle r) = snd r"
  by (simp_all add: sample_candle_def)

lemma sample_candle_series [simp]:
  assumes "ps \<noteq> []" "\<forall>p \<in> set ps. 0 < p" shows "candle_series (candles (sample_dataset ps))"
proof -
  have valid: "list_all valid_candle (map sample_candle (enumerate_from n ps))" for n
    using assms(2)
    by (induction ps arbitrary: n) (simp_all add: valid_candle_iff sample_candle_def sized_def)
  have "sorted_wrt (\<lambda>a b. close_time a \<le> open_time b) (map sample_candle (enumerate_from n ps))" for n
    by (induction ps arbitrary: n) (fastforce dest: enumerate_from_late)+
  then have sorted: "sorted_wrt (\<lambda>a b. close_time a \<le> open_time b)
      (map sample_candle (enumerate_from 0 ps))" .
  show ?thesis
    using assms(1) valid [of 0] sorted by (auto simp: candle_series_def sample_candles enumerate_from_def)
qed

end
