(* ===== verification/Indicators.thy ===== *)
theory Indicators imports Domain
begin

text \<open>
  The technical indicators of \<open>trd_bot/indicators\<close>: simple and exponential moving averages and
  Wilder's RSI, with the source's running updates and its decimal rounding. An indicator returns
  one entry per price, \<open>None\<close> while its window is not full. The locale states what strategies rely
  on: one entry per price, and no entry depends on later prices.
\<close>

section \<open>Result rows\<close>

text \<open>
  \<open>[None] * len(values)\<close> with its entries from position \<open>k\<close> on filled in: first \<open>x\<close>, then the
  values that the loop over the later positions computes.
\<close>

definition windowed :: "nat \<Rightarrow> 'a \<Rightarrow> 'a list \<Rightarrow> 'a option list" where
  "windowed k x xs = replicate k None @ Some x # map Some xs"

lemma length_windowed [simp]: "length (windowed k x xs) = k + 1 + length xs"
  by (simp add: windowed_def)

lemma take_windowed: "k < n \<Longrightarrow> take n (windowed k x xs) = windowed k x (take (n - Suc k) xs)"
  by (simp add: windowed_def take_map take_Cons' Suc_diff_Suc)

lemma take_windowed_short: "n \<le> k \<Longrightarrow> take n (windowed k x xs) = replicate n None"
  by (simp add: windowed_def min_absorb1)

lemma Some_in_windowed: "Some y \<in> set (windowed k x xs) \<longleftrightarrow> y = x \<or> y \<in> set xs"
  by (auto simp: windowed_def)

section \<open>Simple moving average\<close>

text \<open>The loop over the window's right end; a row is the price that leaves and the one that enters.\<close>

fun sma_loop :: "rat \<Rightarrow> rat \<Rightarrow> (rat \<times> rat) list \<Rightarrow> rat list" where
  "sma_loop period_decimal window_total [] = []"
| "sma_loop period_decimal window_total ((leaving, entering) # rows) =
     (let window_total' = dadd window_total (dsub entering leaving)
      in dquot window_total' period_decimal # sma_loop period_decimal window_total' rows)"

definition simple_moving_average :: "rat list \<Rightarrow> int \<Rightarrow> rat option list result" where
  "simple_moving_average values period =
     (if period < 2 then Inl (ValueError ''SMA period must be at least 2'')
      else if values = [] then Inr []
      else if int (length values) < period then Inr (replicate (length values) None)
      else
        let p = nat period; period_decimal = of_int period;
            window_total = dsum (take p values)
        in Inr (windowed (p - 1) (dquot window_total period_decimal)
                 (sma_loop period_decimal window_total (zip values (drop p values)))))"

section \<open>Exponential moving average\<close>

fun ema_loop :: "rat \<Rightarrow> rat \<Rightarrow> rat list \<Rightarrow> rat list" where
  "ema_loop multiplier previous_ema [] = []"
| "ema_loop multiplier previous_ema (v # vs) =
     (let current_ema = dadd (dmul (dsub v previous_ema) multiplier) previous_ema
      in current_ema # ema_loop multiplier current_ema vs)"

definition exponential_moving_average :: "rat list \<Rightarrow> int \<Rightarrow> rat option list result" where
  "exponential_moving_average values period =
     (if period < 2 then Inl (ValueError ''EMA period must be at least 2'')
      else if values = [] then Inr []
      else if int (length values) < period then Inr (replicate (length values) None)
      else
        let p = nat period;
            initial_average = dquot (dsum (take p values)) (of_int period);
            multiplier = dquot 2 (of_int (period + 1))
        in Inr (windowed (p - 1) initial_average
                 (ema_loop multiplier initial_average (drop p values))))"

section \<open>Relative strength index\<close>

definition rsi_value :: "rat \<Rightarrow> rat \<Rightarrow> rat" where
  "rsi_value average_gain average_loss =
     (if average_gain = 0 \<and> average_loss = 0 then 50
      else if average_loss = 0 then 100
      else if average_gain = 0 then 0
      else let relative_strength = dquot average_gain average_loss
           in dsub 100 (dquot 100 (dadd 1 relative_strength)))"

definition gain_of :: "rat \<times> rat \<Rightarrow> rat" where
  "gain_of r = (let change = dsub (snd r) (fst r) in max change 0)"

definition loss_of :: "rat \<times> rat \<Rightarrow> rat" where
  "loss_of r = (let change = dsub (snd r) (fst r) in max (dneg change) 0)"

fun rsi_loop :: "rat \<Rightarrow> rat \<Rightarrow> rat \<Rightarrow> rat \<Rightarrow> (rat \<times> rat) list \<Rightarrow> rat list" where
  "rsi_loop divisor smoothing_weight average_gain average_loss [] = []"
| "rsi_loop divisor smoothing_weight average_gain average_loss (row # rows) =
     (let ag = dquot (dadd (dmul average_gain smoothing_weight) (gain_of row)) divisor;
          al = dquot (dadd (dmul average_loss smoothing_weight) (loss_of row)) divisor
      in rsi_value ag al # rsi_loop divisor smoothing_weight ag al rows)"

definition relative_strength_index :: "rat list \<Rightarrow> int \<Rightarrow> rat option list result" where
  "relative_strength_index values period =
     (if period < 2 then Inl (ValueError ''RSI period must be at least 2'')
      else if values = [] then Inr []
      else if int (length values) \<le> period then Inr (replicate (length values) None)
      else
        let p = nat period; divisor = of_int period;
            changes = adjacent values;
            average_gain = dquot (dsum (map gain_of (take p changes))) divisor;
            average_loss = dquot (dsum (map loss_of (take p changes))) divisor
        in Inr (windowed p (rsi_value average_gain average_loss)
                 (rsi_loop divisor (of_int (period - 1)) average_gain average_loss
                    (drop p changes))))"

section \<open>What strategies rely on\<close>

locale causal_indicator =
  fixes indicator :: "rat list \<Rightarrow> int \<Rightarrow> rat option list result"
  assumes indicator_length: "indicator vs p = Inr rs \<Longrightarrow> length rs = length vs"
    and indicator_prefix: "indicator vs p = Inr rs \<Longrightarrow> indicator (take n vs) p = Inr (take n rs)"
    and indicator_total: "2 \<le> p \<Longrightarrow> \<exists>rs. indicator vs p = Inr rs"
begin

text \<open>Two price series that agree up to a point have the same indicator values up to it.\<close>

lemma indicator_agree:
  assumes "indicator vs p = Inr rs" "indicator ws p = Inr ss" "take n vs = take n ws"
  shows "take n rs = take n ss"
  using indicator_prefix [OF assms(1), of n] indicator_prefix [OF assms(2), of n] assms(3) by simp

end

lemma length_sma_loop [simp]: "length (sma_loop d t rows) = length rows"
  by (induction d t rows rule: sma_loop.induct) (simp_all add: Let_def)

lemma length_ema_loop [simp]: "length (ema_loop m e vs) = length vs"
  by (induction m e vs rule: ema_loop.induct) (simp_all add: Let_def)

lemma length_rsi_loop [simp]: "length (rsi_loop d s g l rows) = length rows"
  by (induction d s g l rows rule: rsi_loop.induct) (simp_all add: Let_def)

lemma sma_loop_take: "sma_loop d t (take n rows) = take n (sma_loop d t rows)"
  by (induction d t rows arbitrary: n rule: sma_loop.induct) (auto simp: Let_def take_Cons split: nat.split)

lemma ema_loop_take: "ema_loop m e (take n vs) = take n (ema_loop m e vs)"
  by (induction m e vs arbitrary: n rule: ema_loop.induct) (auto simp: Let_def take_Cons split: nat.split)

lemma rsi_loop_take: "rsi_loop d s g l (take n rows) = take n (rsi_loop d s g l rows)"
  by (induction d s g l rows arbitrary: n rule: rsi_loop.induct)
    (auto simp: Let_def take_Cons split: nat.split)

interpretation sma: causal_indicator simple_moving_average
proof unfold_locales
  fix vs p rs n
  assume run: "simple_moving_average vs p = Inr rs"
  show "length rs = length vs"
    using run by (auto simp: simple_moving_average_def Let_def split: if_splits)
  show "simple_moving_average (take n vs) p = Inr (take n rs)"
  proof (cases "int (min n (length vs)) < p")
    case True
    with run show ?thesis
      by (auto simp: simple_moving_average_def Let_def min_def take_windowed_short split: if_splits)
  next
    case False
    then have "nat p \<le> n" "0 < nat p" "\<not> int (length vs) < p"
      using run by (auto simp: simple_moving_average_def split: if_splits)
    moreover have "zip (take n vs) (drop (nat p) (take n vs)) = take (n - nat p) (zip vs (drop (nat p) vs))"
      using \<open>nat p \<le> n\<close> by (simp add: drop_take zip_take_shorter)
    ultimately show ?thesis
      using run False by (auto simp: simple_moving_average_def Let_def take_windowed sma_loop_take
          min_absorb1 split: if_splits)
  qed
next
  show "\<exists>rs. simple_moving_average vs p = Inr rs" if "2 \<le> p" for vs p
    using that by (auto simp: simple_moving_average_def Let_def)
qed

interpretation ema: causal_indicator exponential_moving_average
proof unfold_locales
  fix vs p rs n
  assume run: "exponential_moving_average vs p = Inr rs"
  show "length rs = length vs"
    using run by (auto simp: exponential_moving_average_def Let_def split: if_splits)
  show "exponential_moving_average (take n vs) p = Inr (take n rs)"
  proof (cases "int (min n (length vs)) < p")
    case True
    with run show ?thesis
      by (auto simp: exponential_moving_average_def Let_def min_def take_windowed_short split: if_splits)
  next
    case False
    then have "nat p \<le> n" "0 < nat p" "\<not> int (length vs) < p"
      using run by (auto simp: exponential_moving_average_def split: if_splits)
    then show ?thesis
      using run False by (auto simp: exponential_moving_average_def Let_def take_windowed ema_loop_take
          min_absorb1 drop_take split: if_splits)
  qed
next
  show "\<exists>rs. exponential_moving_average vs p = Inr rs" if "2 \<le> p" for vs p
    using that by (auto simp: exponential_moving_average_def Let_def)
qed

interpretation rsi: causal_indicator relative_strength_index
proof unfold_locales
  fix vs p rs n
  assume run: "relative_strength_index vs p = Inr rs"
  show "length rs = length vs"
    using run by (auto simp: relative_strength_index_def adjacent_def Let_def split: if_splits)
  show "relative_strength_index (take n vs) p = Inr (take n rs)"
  proof (cases "int (min n (length vs)) \<le> p")
    case True
    with run show ?thesis
      by (auto simp: relative_strength_index_def Let_def min_def take_windowed_short split: if_splits)
  next
    case False
    then have p: "nat p + 1 \<le> n" "\<not> int (length vs) \<le> p"
      using run by (auto simp: relative_strength_index_def split: if_splits)
    show ?thesis
      using run False p
      by (auto simp: relative_strength_index_def Let_def adjacent_take drop_take rsi_loop_take take_windowed
          min_absorb1 split: if_splits)
  qed
next
  show "\<exists>rs. relative_strength_index vs p = Inr rs" if "2 \<le> p" for vs p
    using that by (auto simp: relative_strength_index_def Let_def)
qed


section \<open>The running SMA is the window average\<close>

text \<open>The specification: each entry is the rounded quotient of the exact sum of its window.\<close>

definition sma_reference :: "rat list \<Rightarrow> nat \<Rightarrow> rat option list" where
  "sma_reference values p =
     map (\<lambda>i. if Suc i < p then None
              else Some (dquot (sum_list (take p (drop (Suc i - p) values))) (of_nat p)))
       [0..<length values]"

text \<open>
  Prices with at most \<open>k\<close> fractional digits whose windows fit in 28 digits: every running total is
  then exact.
\<close>

definition prices_fit :: "nat \<Rightarrow> nat \<Rightarrow> rat list \<Rightarrow> bool" where
  "prices_fit k p values \<longleftrightarrow> (\<forall>v \<in> set values. on_grid k v \<and> of_nat p * \<bar>v\<bar> * 10 ^ k \<le> 10 ^ 28)"

lemma sum_list_bound:
  fixes b :: rat
  shows "(\<And>x. x \<in> set xs \<Longrightarrow> \<bar>x\<bar> \<le> b) \<Longrightarrow> \<bar>sum_list xs\<bar> \<le> of_nat (length xs) * b"
proof (induction xs)
  case (Cons x xs)
  then have "\<bar>x\<bar> \<le> b" "\<bar>sum_list xs\<bar> \<le> of_nat (length xs) * b" by auto
  then show ?case by (simp add: algebra_simps)
qed simp

lemma prices_fit_window:
  assumes "prices_fit k p vs" "set ws \<subseteq> set vs" "length ws \<le> p"
  shows "dround (sum_list ws) = sum_list ws"
proof (cases "p = 0")
  case False
  have "\<bar>x\<bar> \<le> 10 ^ 28 / (10 ^ k * of_nat p)" if "x \<in> set ws" for x
    using assms(1,2) that False by (auto simp: prices_fit_def field_simps)
  then have "\<bar>sum_list ws\<bar> \<le> of_nat (length ws) * (10 ^ 28 / (10 ^ k * of_nat p))"
    by (rule sum_list_bound)
  also have "\<dots> \<le> of_nat p * (10 ^ 28 / (10 ^ k * of_nat p))"
    using assms(3) by (intro mult_right_mono) auto
  finally have "\<bar>sum_list ws\<bar> * 10 ^ k \<le> 10 ^ 28" using False by (simp add: field_simps)
  moreover have "on_grid k (sum_list ws)" using assms(1,2) by (auto simp: prices_fit_def)
  ultimately show ?thesis by (rule dround_grid [rotated])
qed (use assms in simp)

lemma dsum_exact:
  assumes "prices_fit k p vs" "set ws \<subseteq> set vs" "length ws \<le> p"
  shows "dsum ws = sum_list ws"
  using assms(2,3)
proof (induction ws rule: rev_induct)
  case (snoc x xs)
  then show ?case
    using prices_fit_window [OF assms(1), of "xs @ [x]"] by (simp add: dsum_snoc dadd_def)
qed (simp add: dsum_def)

text \<open>The change of one step: the entering price minus the leaving one, exact as well.\<close>

lemma prices_fit_change:
  assumes "prices_fit k p vs" "2 \<le> p" "x \<in> set vs" "y \<in> set vs"
  shows "dsub x y = x - y"
proof -
  have "(2 :: rat) \<le> of_nat p" using assms(2) by (metis of_nat_le_iff of_nat_numeral)
  then have two: "2 * (\<bar>v\<bar> * 10 ^ k) \<le> of_nat p * \<bar>v\<bar> * 10 ^ k" for v :: rat
    unfolding mult.assoc by (intro mult_right_mono) auto
  have "of_nat p * \<bar>x\<bar> * 10 ^ k \<le> 10 ^ 28" "of_nat p * \<bar>y\<bar> * 10 ^ k \<le> 10 ^ 28"
    using assms(1,3,4) by (auto simp: prices_fit_def)
  with two [of x] two [of y] have "2 * (\<bar>x\<bar> * 10 ^ k) \<le> 10 ^ 28" "2 * (\<bar>y\<bar> * 10 ^ k) \<le> 10 ^ 28"
    by linarith+
  moreover have "\<bar>x - y\<bar> * 10 ^ k \<le> \<bar>x\<bar> * 10 ^ k + \<bar>y\<bar> * 10 ^ k"
    by (simp add: abs_triangle_ineq4 mult_right_mono flip: distrib_right)
  ultimately have "\<bar>x - y\<bar> * 10 ^ k \<le> 10 ^ 28" by linarith
  moreover have "on_grid k (x - y)" using assms(1,3,4) by (auto simp: prices_fit_def)
  ultimately show ?thesis by (simp add: dsub_def dround_grid)
qed


lemma sma_loop_exact:
  assumes "prices_fit k p vs" "2 \<le> p" "p \<le> length vs"
  shows "sma_loop d (sum_list (take p vs)) (zip vs (drop p vs))
       = map (\<lambda>j. dquot (sum_list (take p (drop (Suc j) vs))) d) [0..<length vs - p]"
  using assms(1,3)
proof (induction vs)
  case (Cons v vs)
  show ?case
  proof (cases "length vs < p")
    case True
    with Cons.prems(2) show ?thesis by simp
  next
    case False
    obtain q where q: "p = Suc q" using assms(2) by (cases p) auto
    define w where "w = vs ! q"
    have drop: "drop p (v # vs) = w # drop p vs"
      using False q by (simp add: w_def Cons_nth_drop_Suc)
    have fits: "prices_fit k p vs" using Cons.prems(1) by (simp add: prices_fit_def)
    have window: "sum_list (take p vs) = sum_list (take p (v # vs)) + (w - v)"
      using False q by (simp add: w_def take_Suc_conv_app_nth)
    have "w \<in> set vs" using False q by (simp add: w_def)
    then have "dsub w v = w - v" using prices_fit_change [OF Cons.prems(1) assms(2)] by simp
    then have total: "dadd (sum_list (take p (v # vs))) (dsub w v) = sum_list (take p vs)"
      using prices_fit_window [OF fits, of "take p vs"] window by (simp add: dadd_def set_take_subset)
    have upt: "[0..<length (v # vs) - p] = 0 # map Suc [0..<length vs - p]"
      using False by (simp add: Suc_diff_le upt_conv_Cons map_Suc_upt del: upt_Suc)
    show ?thesis
      using False total Cons.IH [OF fits] unfolding drop upt by (simp add: Let_def comp_def)
  qed
qed (use assms in simp)

section \<open>RSI stays between 0 and 100\<close>

lemma gain_loss_nonneg: "0 \<le> gain_of r" "0 \<le> loss_of r"
  by (simp_all add: gain_of_def loss_of_def Let_def)

lemma dsum_nonneg: "(\<And>x. x \<in> set xs \<Longrightarrow> 0 \<le> x) \<Longrightarrow> 0 \<le> dsum xs"
  by (induction xs rule: rev_induct) (auto simp: dsum_snoc dadd_def dsum_def [of "[]"] intro: dc.rnd_nonneg)

lemma rsi_value_range:
  assumes "0 \<le> g" "0 \<le> l" shows "0 \<le> rsi_value g l \<and> rsi_value g l \<le> 100"
proof (cases "g = 0 \<or> l = 0")
  case False
  define y where "y = dadd 1 (dquot g l)"
  have "0 \<le> dquot g l" unfolding dquot_def using assms by (intro dc.rnd_nonneg) simp
  then have "1 \<le> y" using dc.rnd_ge_int [of 1 "1 + dquot g l"] by (simp add: y_def dadd_def)
  then have "0 \<le> 100 / y" "100 / y \<le> 100" by (simp_all add: field_simps)
  then have "0 \<le> dquot 100 y" "dquot 100 y \<le> 100"
    using dc.rnd_le_int [of "100 / y" 100] by (simp_all add: dquot_def dc.rnd_nonneg)
  then have "0 \<le> dsub 100 (dquot 100 y)" "dsub 100 (dquot 100 y) \<le> 100"
    using dc.rnd_le_int [of "100 - dquot 100 y" 100] by (simp_all add: dsub_def dc.rnd_nonneg)
  with False show ?thesis by (simp add: rsi_value_def y_def Let_def)
qed (auto simp: rsi_value_def)

lemma smoothed_nonneg:
  assumes "0 \<le> a" "0 \<le> w" "0 \<le> x" "0 < d" shows "0 \<le> dquot (dadd (dmul a w) x) d"
proof -
  have "0 \<le> dmul a w" unfolding dmul_def using assms by (intro dc.rnd_nonneg) simp
  then have "0 \<le> dadd (dmul a w) x" unfolding dadd_def using assms by (intro dc.rnd_nonneg) simp
  then show ?thesis unfolding dquot_def using assms by (intro dc.rnd_nonneg) simp
qed

lemma rsi_loop_range:
  assumes "0 < d" "0 \<le> w" "0 \<le> g" "0 \<le> l"
  shows "x \<in> set (rsi_loop d w g l rows) \<Longrightarrow> 0 \<le> x \<and> x \<le> 100"
  using assms
proof (induction rows arbitrary: g l)
  case (Cons r rows)
  let ?g = "dquot (dadd (dmul g w) (gain_of r)) d" and ?l = "dquot (dadd (dmul l w) (loss_of r)) d"
  have new: "0 \<le> ?g" "0 \<le> ?l" using Cons.prems by (auto intro!: smoothed_nonneg gain_loss_nonneg)
  from Cons.prems(1) consider "x = rsi_value ?g ?l" | "x \<in> set (rsi_loop d w ?g ?l rows)"
    by (auto simp: Let_def)
  then show ?case
    using rsi_value_range [OF new] Cons.IH [OF _ Cons.prems(2,3) new] by cases auto
qed simp

section \<open>Properties\<close>

text \<open>
  C13: for prices with at most k fractional digits whose windows fit in 28 digits, the running-sum
  SMA returns, for every position with a full window, the rounded quotient of the exact window sum:
  the incremental total never drifts.
\<close>

theorem sma_matches_reference:
  assumes "prices_fit k p values" "2 \<le> p"
  shows "simple_moving_average values (int p) = Inr (sma_reference values p)"
proof (cases "length values < p")
  case True
  then have "sma_reference values p = replicate (length values) None"
    by (auto simp: sma_reference_def intro!: nth_equalityI)
  with True assms(2) show ?thesis by (simp add: simple_moving_average_def)
next
  case False
  let ?f = "\<lambda>i. if Suc i < p then None
              else Some (dquot (sum_list (take p (drop (Suc i - p) values))) (of_nat p))"
  define q where "q = p - 1"
  have q: "p = Suc q" and q1: "p - 1 = q" using assms(2) by (simp_all add: q_def)
  have "[0..<length values] = [0..<q] @ q # [p..<length values]"
    using False q upt_add_eq_append [of 0 q "length values - q"] upt_conv_Cons [of q "length values"]
    by simp
  moreover have "[p..<length values] = map (\<lambda>j. p + j) [0..<length values - p]"
    using False by (intro nth_equalityI) auto
  ultimately have "sma_reference values p
      = replicate q None @ Some (dquot (sum_list (take p values)) (of_nat p))
        # map (\<lambda>j. Some (dquot (sum_list (take p (drop (Suc j) values))) (of_nat p)))
            [0..<length values - p]"
    unfolding q by (simp add: sma_reference_def comp_def map_replicate_trivial [symmetric] del: upt_Suc)
  moreover have "dsum (take p values) = sum_list (take p values)"
    using dsum_exact [OF assms(1), of "take p values"] by (simp add: set_take_subset)
  moreover have "2 \<le> int p" "values \<noteq> []" using False assms(2) by auto
  ultimately show ?thesis
    using False sma_loop_exact [OF assms, of "of_nat p"]
    by (simp add: simple_moving_average_def windowed_def Let_def comp_def q1 [simplified])
qed

text \<open>The hypotheses hold for ordinary prices.\<close>

theorem sma_matches_reference_witness:
  "simple_moving_average [10, 12, 23/2, 14] (int 2) = Inr (sma_reference [10, 12, 23/2, 14] 2)"
  by (rule sma_matches_reference [of 1]) (simp_all add: prices_fit_def on_grid_def)

text \<open>Every RSI value is between 0 and 100, whatever the prices and the rounding errors.\<close>

theorem rsi_in_range:
  assumes "relative_strength_index values period = Inr rs" "Some x \<in> set rs"
  shows "0 \<le> x \<and> x \<le> 100"
proof -
  let ?avg = "\<lambda>f. dquot (dsum (map f (take (nat period) (adjacent values)))) (of_int period)"
  have "2 \<le> period" using assms by (auto simp: relative_strength_index_def split: if_splits)
  then have avg: "0 \<le> ?avg gain_of" "0 \<le> ?avg loss_of"
    unfolding dquot_def using gain_loss_nonneg
    by (auto intro!: dc.rnd_nonneg divide_nonneg_nonneg dsum_nonneg)
  consider "x = rsi_value (?avg gain_of) (?avg loss_of)"
    | "x \<in> set (rsi_loop (of_int period) (of_int (period - 1)) (?avg gain_of) (?avg loss_of)
        (drop (nat period) (adjacent values)))"
    using assms by (auto simp: relative_strength_index_def Let_def Some_in_windowed split: if_splits)
  then show ?thesis
  proof cases
    case 2
    show ?thesis by (rule rsi_loop_range [OF _ _ avg 2]) (use \<open>2 \<le> period\<close> in simp_all)
  qed (use rsi_value_range [OF avg] in simp)
qed

theorem rsi_in_range_witness:
  "relative_strength_index [10, 11, 10] 2 = Inr [None, None, Some 50] \<and> (50 :: rat) \<le> 100"
  using rsi_in_range [of "[10, 11, 10]" 2 "[None, None, Some 50]" 50]
  by (simp add: relative_strength_index_def windowed_def rsi_value_def gain_of_def loss_of_def Let_def
     dsum_def dec_eval numeral_2_eq_2)

end
