(* ===== verification/Strategies.thy ===== *)
theory Strategies imports Indicators
begin

text \<open>
  Research signals (\<open>trd_bot/strategies/signals.py\<close>) and the three strategies that emit them:
  SMA and EMA crossover and the RSI threshold strategy. The locale is the contract of
  \<open>BaseStrategy.generate\<close> that the backtest engine relies on.
\<close>

section \<open>Signals\<close>

datatype signal_direction = SignalLong | SignalShort | SignalNeutral

fun direction_value :: "signal_direction \<Rightarrow> string" where
  "direction_value SignalLong = ''long''"
| "direction_value SignalShort = ''short''"
| "direction_value SignalNeutral = ''neutral''"

record strategy_feature =
  feature_name :: string
  feature_value :: rat

definition StrategyFeature :: "string \<Rightarrow> rat \<Rightarrow> strategy_feature result" where
  "StrategyFeature n v = check_fields [(''name'', sized 1 100 n)] \<lparr>feature_name = n, feature_value = v\<rparr>"

record strategy_signal =
  signal_id :: string
  signal_strategy_name :: string
  signal_strategy_version :: string
  signal_dataset_id :: string
  signal_pair :: trading_pair
  signal_timeframe :: timeframe
  candle_open_time :: int
  candle_close_time :: int
  generated_at :: int
  direction :: signal_direction
  signal_score :: rat
  signal_reason :: string
  features :: "strategy_feature list"

definition signal_fields :: "strategy_signal \<Rightarrow> (string \<times> bool) list" where
  "signal_fields s =
     [(''signal_id'', has_id_form ''signal-'' 16 (signal_id s)),
      (''strategy_name'', sized 1 100 (signal_strategy_name s)),
      (''strategy_version'', sized 1 30 (signal_strategy_version s)),
      (''dataset_id'', 1 \<le> length (signal_dataset_id s)),
      (''score'', - 1 \<le> signal_score s \<and> signal_score s \<le> 1),
      (''reason'', sized 1 500 (signal_reason s))]"

definition validate_signal :: "strategy_signal \<Rightarrow> strategy_signal result" where
  "validate_signal s = raising
     [(candle_close_time s \<le> candle_open_time s,
         ValueError ''candle close time must be after open time''),
      (direction s = SignalLong \<and> signal_score s \<le> 0,
         ValueError ''long signal score must be greater than zero''),
      (direction s = SignalShort \<and> signal_score s \<ge> 0,
         ValueError ''short signal score must be lower than zero''),
      (direction s = SignalNeutral \<and> signal_score s \<noteq> 0,
         ValueError ''neutral signal score must be zero'')] s"

definition StrategySignal :: "strategy_signal \<Rightarrow> strategy_signal result" where
  "StrategySignal s = bindR (check_fields (signal_fields s) s) validate_signal"

definition build_signal_id :: "string \<Rightarrow> string \<Rightarrow> string \<Rightarrow> int \<Rightarrow> signal_direction \<Rightarrow> string" where
  "build_signal_id name version ds_id close_at dir =
     ''signal-'' @ digest16 (join ''::'' [name, version, ds_id, isoformat close_at, direction_value dir])"

lemma build_signal_id_form [simp]: "has_id_form ''signal-'' 16 (build_signal_id n v d t dir)"
  unfolding build_signal_id_def has_id_form_append by simp

lemma StrategySignal_Inr_iff:
  "StrategySignal s = Inr t \<longleftrightarrow>
     t = s \<and> (\<forall>(n, ok) \<in> set (signal_fields s). ok) \<and> candle_open_time s < candle_close_time s
     \<and> (case direction s of SignalLong \<Rightarrow> 0 < signal_score s | SignalShort \<Rightarrow> signal_score s < 0
        | SignalNeutral \<Rightarrow> signal_score s = 0)"
  by (cases "direction s")
    (auto simp: StrategySignal_def bindR_Inr_iff check_fields_Inr_iff validate_signal_def
      raising_Inr_iff not_le)

text \<open>Clipping a score: \<open>max(Decimal("-1"), min(Decimal("1"), score))\<close>.\<close>

definition clip_score :: "rat \<Rightarrow> rat" where
  "clip_score score = max (- 1) (min 1 score)"

lemma clip_score_range: "- 1 \<le> clip_score x" "clip_score x \<le> 1"
  by (simp_all add: clip_score_def)

lemma clip_score_sign: "0 < x \<Longrightarrow> 0 < clip_score x" "x < 0 \<Longrightarrow> clip_score x < 0"
  by (simp_all add: clip_score_def max_def min_def)

section \<open>The signal both kinds of strategy append\<close>

text \<open>The texts and features in which the strategies differ.\<close>

record signal_text =
  strategy_name :: string
  strategy_version :: string
  long_reason :: string
  short_reason :: string

definition emit_signal ::
  "signal_text \<Rightarrow> dataset \<Rightarrow> candle \<Rightarrow> signal_direction \<Rightarrow> rat \<Rightarrow> (string \<times> rat) list
   \<Rightarrow> strategy_signal option result" where
  "emit_signal lbl ds candle dir sc feats =
     bindR (mapR (\<lambda>(n, v). StrategyFeature n v) feats)
       (\<lambda>fs. bindR (StrategySignal
           \<lparr>signal_id = build_signal_id (strategy_name lbl) (strategy_version lbl) (dataset_id ds)
                          (close_time candle) dir,
            signal_strategy_name = strategy_name lbl,
            signal_strategy_version = strategy_version lbl,
            signal_dataset_id = dataset_id ds,
            signal_pair = dataset_pair ds,
            signal_timeframe = dataset_timeframe ds,
            candle_open_time = open_time candle,
            candle_close_time = close_time candle,
            generated_at = close_time candle,
            direction = dir,
            signal_score = sc,
            signal_reason = (if dir = SignalLong then long_reason lbl else short_reason lbl),
            features = fs\<rparr>)
         (\<lambda>s. Inr (Some s)))"

section \<open>Moving-average crossover strategies\<close>

record crossover_strategy =
  fast_period :: int
  slow_period :: int

definition SMACrossoverStrategy :: "int \<Rightarrow> int \<Rightarrow> crossover_strategy result" where
  "SMACrossoverStrategy fast slow = raising
     [(fast < 2, ValueError ''fast SMA period must be at least 2''),
      (slow \<le> fast, ValueError ''slow SMA period must be greater than fast SMA period'')]
     \<lparr>fast_period = fast, slow_period = slow\<rparr>"

definition EMACrossoverStrategy :: "int \<Rightarrow> int \<Rightarrow> crossover_strategy result" where
  "EMACrossoverStrategy fast slow = raising
     [(fast < 2, ValueError ''fast EMA period must be at least 2''),
      (slow \<le> fast, ValueError ''slow EMA period must be greater than fast EMA period'')]
     \<lparr>fast_period = fast, slow_period = slow\<rparr>"

definition crossover_direction :: "rat \<Rightarrow> rat \<Rightarrow> rat \<Rightarrow> rat \<Rightarrow> signal_direction option" where
  "crossover_direction previous_fast previous_slow current_fast current_slow =
     (if previous_fast \<le> previous_slow \<and> current_fast > current_slow then Some SignalLong
      else if previous_fast \<ge> previous_slow \<and> current_fast < current_slow then Some SignalShort
      else None)"

text \<open>
  The loop body. A row is the pair of averages with its candle; the body sees two successive rows.
  The feature names are those of the moving average.
\<close>

fun crossover_step ::
  "signal_text \<Rightarrow> string \<times> string \<Rightarrow> dataset
   \<Rightarrow> ((rat option \<times> rat option) \<times> candle) \<times> ((rat option \<times> rat option) \<times> candle)
   \<Rightarrow> strategy_signal option result" where
  "crossover_step lbl (fast_name, slow_name) ds
     (((Some previous_fast, Some previous_slow), _), ((Some current_fast, Some current_slow), candle)) =
     (case crossover_direction previous_fast previous_slow current_fast current_slow of
        None \<Rightarrow> Inr None
      | Some dir \<Rightarrow>
          bindR (ddiv (dsub current_fast current_slow) (close_price candle))
            (\<lambda>sc. emit_signal lbl ds candle dir (clip_score sc)
                     [(fast_name, current_fast), (slow_name, current_slow),
                      (''close_price'', close_price candle)]))"
| "crossover_step lbl names ds rows = Inr None"

definition crossover_generate ::
  "signal_text \<Rightarrow> string \<times> string \<Rightarrow> (rat list \<Rightarrow> int \<Rightarrow> rat option list result)
   \<Rightarrow> crossover_strategy \<Rightarrow> dataset \<Rightarrow> strategy_signal list result" where
  "crossover_generate lbl names moving_average st ds =
     (let close_prices = map close_price (candles ds)
      in bindR (moving_average close_prices (fast_period st))
           (\<lambda>fast_values. bindR (moving_average close_prices (slow_period st))
             (\<lambda>slow_values. collectR (crossover_step lbl names ds)
                (adjacent (zip (zip fast_values slow_values) (candles ds))))))"

definition sma_text :: signal_text where
  "sma_text = \<lparr>strategy_name = ''sma-crossover'', strategy_version = ''1.0.0'',
     long_reason = ''Fast SMA crossed above slow SMA.'',
     short_reason = ''Fast SMA crossed below slow SMA.''\<rparr>"

definition ema_text :: signal_text where
  "ema_text = \<lparr>strategy_name = ''ema-crossover'', strategy_version = ''1.0.0'',
     long_reason = ''Fast EMA crossed above slow EMA.'',
     short_reason = ''Fast EMA crossed below slow EMA.''\<rparr>"

definition sma_generate :: "crossover_strategy \<Rightarrow> dataset \<Rightarrow> strategy_signal list result" where
  "sma_generate = crossover_generate sma_text (''fast_sma'', ''slow_sma'') simple_moving_average"

definition ema_generate :: "crossover_strategy \<Rightarrow> dataset \<Rightarrow> strategy_signal list result" where
  "ema_generate = crossover_generate ema_text (''fast_ema'', ''slow_ema'') exponential_moving_average"

section \<open>RSI threshold strategy\<close>

record rsi_strategy =
  rsi_period :: int
  oversold_threshold :: rat
  overbought_threshold :: rat

definition RSIThresholdStrategy :: "int \<Rightarrow> rat \<Rightarrow> rat \<Rightarrow> rsi_strategy result" where
  "RSIThresholdStrategy period oversold overbought = raising
     [(period < 2, ValueError ''RSI period must be at least 2''),
      (\<not> (0 < oversold \<and> oversold < 50),
         ValueError ''oversold RSI threshold must be between 0 and 50''),
      (\<not> (50 < overbought \<and> overbought < 100),
         ValueError ''overbought RSI threshold must be between 50 and 100'')]
     \<lparr>rsi_period = period, oversold_threshold = oversold, overbought_threshold = overbought\<rparr>"

definition rsi_text :: signal_text where
  "rsi_text = \<lparr>strategy_name = ''rsi-threshold'', strategy_version = ''1.0.0'',
     long_reason = ''RSI crossed into the oversold region.'',
     short_reason = ''RSI crossed into the overbought region.''\<rparr>"

definition rsi_crossing :: "rsi_strategy \<Rightarrow> rat \<Rightarrow> rat \<Rightarrow> (signal_direction \<times> rat) option" where
  "rsi_crossing st previous_rsi current_rsi =
     (if previous_rsi > oversold_threshold st \<and> current_rsi \<le> oversold_threshold st
      then Some (SignalLong, oversold_threshold st)
      else if previous_rsi < overbought_threshold st \<and> current_rsi \<ge> overbought_threshold st
      then Some (SignalShort, overbought_threshold st)
      else None)"

definition rsi_score :: "signal_direction \<Rightarrow> rat \<Rightarrow> rat" where
  "rsi_score dir current_rsi =
     (if dir = SignalLong then dquot (dsub 50 current_rsi) 50
      else dneg (dquot (dsub current_rsi 50) 50))"

fun rsi_step ::
  "rsi_strategy \<Rightarrow> dataset \<Rightarrow> (rat option \<times> candle) \<times> (rat option \<times> candle)
   \<Rightarrow> strategy_signal option result" where
  "rsi_step st ds ((Some previous_rsi, _), (Some current_rsi, candle)) =
     (case rsi_crossing st previous_rsi current_rsi of
        None \<Rightarrow> Inr None
      | Some (dir, threshold) \<Rightarrow>
          emit_signal rsi_text ds candle dir (clip_score (rsi_score dir current_rsi))
            [(''previous_rsi'', previous_rsi), (''rsi'', current_rsi), (''threshold'', threshold),
             (''close_price'', close_price candle)])"
| "rsi_step st ds rows = Inr None"

definition rsi_generate :: "rsi_strategy \<Rightarrow> dataset \<Rightarrow> strategy_signal list result" where
  "rsi_generate st ds =
     bindR (relative_strength_index (map close_price (candles ds)) (rsi_period st))
       (\<lambda>rsi_values. collectR (rsi_step st ds) (adjacent (zip rsi_values (candles ds))))"

section \<open>The contract of a strategy\<close>

definition research_dataset :: "dataset \<Rightarrow> bool" where
  "research_dataset ds \<longleftrightarrow> candle_series (candles ds) \<and> 1 \<le> length (dataset_id ds)"

text \<open>A signal that was emitted for a candle of the dataset.\<close>

definition signal_from :: "dataset \<Rightarrow> strategy_signal \<Rightarrow> bool" where
  "signal_from ds s \<longleftrightarrow>
     StrategySignal s = Inr s \<and> direction s \<noteq> SignalNeutral
     \<and> signal_dataset_id s = dataset_id ds \<and> signal_pair s = dataset_pair ds
     \<and> signal_timeframe s = dataset_timeframe ds
     \<and> (\<exists>c \<in> set (candles ds). candle_open_time s = open_time c \<and> candle_close_time s = close_time c)
     \<and> generated_at s = candle_close_time s"

definition signals_for :: "dataset \<Rightarrow> strategy_signal list \<Rightarrow> bool" where
  "signals_for ds sigs \<longleftrightarrow>
     list_all (signal_from ds) sigs
     \<and> sorted_wrt (\<lambda>s t. candle_close_time s < candle_close_time t) sigs"

locale research_strategy =
  fixes configured :: "'c \<Rightarrow> bool"
    and generate :: "'c \<Rightarrow> dataset \<Rightarrow> strategy_signal list result"
  assumes generate_sound:
    "configured st \<Longrightarrow> research_dataset ds \<Longrightarrow> \<exists>sigs. generate st ds = Inr sigs \<and> signals_for ds sigs"
    and generate_prefix:
    "configured st \<Longrightarrow> research_dataset ds \<Longrightarrow> generate st ds = Inr sigs \<Longrightarrow>
       \<exists>us vs. generate st (ds\<lparr>candles := take n (candles ds)\<rparr>) = Inr us \<and> sigs = us @ vs
         \<and> (\<forall>s \<in> set vs. \<exists>c \<in> set (drop n (candles ds)). candle_close_time s = close_time c)"
begin

lemma generated_signals:
  assumes "configured st" "research_dataset ds" "generate st ds = Inr sigs"
  shows "signals_for ds sigs"
  using generate_sound [OF assms(1,2)] assms(3) by auto

text \<open>
  Signals of candles that have closed by \<open>t\<close> do not depend on what happens after \<open>t\<close>.
\<close>

lemma no_lookahead:
  assumes "configured st" "research_dataset ds" "research_dataset (ds\<lparr>candles := cs\<rparr>)"
    and "take n cs = take n (candles ds)"
    and "\<forall>c \<in> set (drop n (candles ds)) \<union> set (drop n cs). t < close_time c"
    and "generate st ds = Inr sigs" "generate st (ds\<lparr>candles := cs\<rparr>) = Inr sigs'"
  shows "filter (\<lambda>s. candle_close_time s \<le> t) sigs = filter (\<lambda>s. candle_close_time s \<le> t) sigs'"
proof -
  obtain us vs where us: "generate st (ds\<lparr>candles := take n (candles ds)\<rparr>) = Inr us"
    and sigs: "sigs = us @ vs"
    and vs: "\<forall>s \<in> set vs. \<exists>c \<in> set (drop n (candles ds)). candle_close_time s = close_time c"
    using generate_prefix [OF assms(1,2,6), of n] by blast
  obtain us' vs' where us': "generate st (ds\<lparr>candles := take n cs\<rparr>) = Inr us'"
    and sigs': "sigs' = us' @ vs'"
    and vs': "\<forall>s \<in> set vs'. \<exists>c \<in> set (drop n cs). candle_close_time s = close_time c"
    using generate_prefix [OF assms(1,3,7), of n] by auto
  have "us' = us" using us us' assms(4) by simp
  moreover have "filter (\<lambda>s. candle_close_time s \<le> t) vs = []"
    "filter (\<lambda>s. candle_close_time s \<le> t) vs' = []"
    using vs vs' assms(5) by (force simp: filter_empty_conv)+
  ultimately show ?thesis by (simp add: sigs sigs')
qed

end

text \<open>
  A loop over successive rows whose body never raises and emits, at most, a signal for its candle.
\<close>

definition sound_step ::
  "dataset \<Rightarrow> (('r \<times> candle) \<times> ('r \<times> candle) \<Rightarrow> strategy_signal option result) \<Rightarrow> bool" where
  "sound_step ds f \<longleftrightarrow>
     (\<forall>p q c. c \<in> set (candles ds) \<longrightarrow>
        (\<exists>r. f (p, (q, c)) = Inr r
           \<and> (\<forall>s. r = Some s \<longrightarrow> signal_from ds s \<and> candle_close_time s = close_time c)))"

lemma sound_step_emits:
  assumes "sound_step ds f" "collectR f xs = Inr sigs" "s \<in> set sigs"
    and "\<forall>x \<in> set xs. snd (snd x) \<in> set (candles ds)"
  shows "\<exists>x \<in> set xs. signal_from ds s \<and> candle_close_time s = close_time (snd (snd x))"
proof -
  obtain x where x: "x \<in> set xs" "f x = Inr (Some s)" using collectR_set [OF assms(2,3)] by blast
  obtain p q c where pqc: "x = (p, (q, c))" by (cases x) auto
  with x assms(4) have "c \<in> set (candles ds)" by force
  then obtain r where "f (p, q, c) = Inr r"
    "\<forall>s. r = Some s \<longrightarrow> signal_from ds s \<and> candle_close_time s = close_time c"
    using assms(1) unfolding sound_step_def by blast
  with x pqc show ?thesis by (intro bexI [of _ x]) auto
qed

lemma scan_sound:
  assumes f: "sound_step ds f" and ds: "research_dataset ds" and len: "length rows = length (candles ds)"
  shows "\<exists>sigs. collectR f (adjacent (zip rows (candles ds))) = Inr sigs \<and> signals_for ds sigs"
proof -
  let ?xs = "adjacent (zip rows (candles ds))"
  have in_ds: "\<forall>x \<in> set ?xs. snd (snd x) \<in> set (candles ds)"
    by (auto dest!: set_adjacent set_zip_rightD)
  have "returns (f x)" if "x \<in> set ?xs" for x
    using f in_ds that by (cases x; cases "snd x") (force simp: sound_step_def returns_iff)
  then obtain sigs where sigs: "collectR f ?xs = Inr sigs" using collectR_returns by blast
  have "sorted_wrt (\<lambda>a b. close_time a < close_time b) (map snd (zip rows (candles ds)))"
    using candle_series_closes [of "candles ds"] ds len by (simp add: research_dataset_def)
  then have sorted: "sorted_wrt (\<lambda>x y. close_time (snd (snd x)) < close_time (snd (snd y))) ?xs"
    by (intro adjacent_seconds_sorted) (simp add: sorted_wrt_map)
  have key: "candle_close_time s = close_time (snd (snd x))"
    if "x \<in> set ?xs" "f x = Inr (Some s)" for x s
    using sound_step_emits [OF f, of "[x]" "[s]" s] that in_ds by auto
  have "list_all (signal_from ds) sigs"
    using sound_step_emits [OF f sigs _ in_ds] by (auto simp: list_all_iff)
  with sigs collectR_sorted [OF sigs sorted key] show ?thesis by (auto simp: signals_for_def)
qed

lemma scan_prefix:
  assumes f: "sound_step ds f" and len: "length rows = length (candles ds)"
    and sigs: "collectR f (adjacent (zip rows (candles ds))) = Inr sigs"
  shows "\<exists>us vs. collectR f (adjacent (zip (take n rows) (take n (candles ds)))) = Inr us
    \<and> sigs = us @ vs \<and> (\<forall>s \<in> set vs. \<exists>c \<in> set (drop n (candles ds)). candle_close_time s = close_time c)"
proof -
  let ?xs = "adjacent (zip rows (candles ds))"
  have split: "adjacent (zip (take n rows) (take n (candles ds))) = take (n - 1) ?xs"
    by (simp add: take_zip [symmetric] adjacent_take)
  obtain us vs where us: "collectR f (take (n - 1) ?xs) = Inr us"
    and vs: "collectR f (drop (n - 1) ?xs) = Inr vs" and eq: "sigs = us @ vs"
    by (rule collectR_split [OF sigs])
  have snds: "map (snd \<circ> snd) (drop (n - 1) ?xs) = drop (n - 1) (tl (candles ds))"
    using len by (simp add: drop_map [symmetric] map_map [symmetric] adjacent_seconds map_tl del: map_map)
  have "drop (n - 1) (tl (candles ds)) = drop n (candles ds)" if "n \<noteq> 0"
    using that by (simp add: drop_Suc [symmetric])
  then have late: "set (map (snd \<circ> snd) (drop (n - 1) ?xs)) \<subseteq> set (drop n (candles ds))"
    unfolding snds by (cases "n = 0") (cases "candles ds", auto)
  have "\<exists>c \<in> set (drop n (candles ds)). candle_close_time s = close_time c" if emitted: "s \<in> set vs" for s
  proof -
    have "\<forall>x \<in> set (drop (n - 1) ?xs). snd (snd x) \<in> set (candles ds)"
      using late by (auto dest: in_set_dropD)
    then obtain x where "x \<in> set (drop (n - 1) ?xs)" "candle_close_time s = close_time (snd (snd x))"
      using sound_step_emits [OF f vs emitted] by blast
    with late show ?thesis by force
  qed
  with us split eq show ?thesis by auto
qed

section \<open>The three strategies keep the contract\<close>

lemma emit_signal_sound:
  assumes ds: "research_dataset ds" and c: "c \<in> set (candles ds)"
    and tx: "lbl \<in> {sma_text, ema_text, rsi_text}"
    and names: "\<forall>(n, v) \<in> set feats. sized 1 100 n"
    and dir: "dir = SignalLong \<and> 0 < sc \<or> dir = SignalShort \<and> sc < 0"
    and range: "- 1 \<le> sc" "sc \<le> 1"
  shows "\<exists>s. emit_signal lbl ds c dir sc feats = Inr (Some s) \<and> signal_from ds s
    \<and> candle_close_time s = close_time c"
proof -
  define feature_of where "feature_of = (\<lambda>(n :: string, v :: rat). \<lparr>feature_name = n, feature_value = v\<rparr>)"
  have fs: "mapR (\<lambda>(n, v). StrategyFeature n v) feats = Inr (map feature_of feats)"
    using names by (intro mapR_total) (auto simp: StrategyFeature_def check_fields_Inr_iff feature_of_def)
  have "open_time c < close_time c"
    using ds c by (auto simp: research_dataset_def valid_candle_iff dest: candle_series_valid)
  define s where "s = \<lparr>signal_id = build_signal_id (strategy_name lbl) (strategy_version lbl)
      (dataset_id ds) (close_time c) dir,
    signal_strategy_name = strategy_name lbl, signal_strategy_version = strategy_version lbl,
    signal_dataset_id = dataset_id ds, signal_pair = dataset_pair ds,
    signal_timeframe = dataset_timeframe ds, candle_open_time = open_time c,
    candle_close_time = close_time c, generated_at = close_time c, direction = dir, signal_score = sc,
    signal_reason = (if dir = SignalLong then long_reason lbl else short_reason lbl),
    features = map feature_of feats\<rparr>"
  have texts: "sized 1 100 (strategy_name lbl)" "sized 1 30 (strategy_version lbl)"
    "sized 1 500 (long_reason lbl)" "sized 1 500 (short_reason lbl)"
    using tx by (auto simp: sma_text_def ema_text_def rsi_text_def sized_def)
  have "StrategySignal s = Inr s"
    using texts dir range ds \<open>open_time c < close_time c\<close>
    by (auto simp: s_def StrategySignal_Inr_iff signal_fields_def research_dataset_def)
  moreover from this have "signal_from ds s" using c dir by (auto simp: signal_from_def s_def)
  ultimately show ?thesis
    by (intro exI [of _ s]) (simp add: emit_signal_def fs s_def [symmetric], simp add: s_def)
qed

lemma crossover_sound_step:
  assumes ds: "research_dataset ds" and tx: "lbl \<in> {sma_text, ema_text}"
    and names: "sized 1 100 (fst nms)" "sized 1 100 (snd nms)"
  shows "sound_step ds (crossover_step lbl nms ds)"
  unfolding sound_step_def
proof (intro allI impI)
  fix p q :: "(rat option \<times> rat option) \<times> candle" and q' :: "rat option \<times> rat option" and c
  assume c: "c \<in> set (candles ds)"
  then have close_pos: "0 < close_price c"
    using ds by (auto simp: research_dataset_def valid_candle_iff dest!: candle_series_valid)
  show "\<exists>r. crossover_step lbl nms ds (p, (q', c)) = Inr r \<and>
      (\<forall>s. r = Some s \<longrightarrow> signal_from ds s \<and> candle_close_time s = close_time c)"
  proof (cases "(lbl, nms, ds, (p, (q', c)))" rule: crossover_step.cases)
    case (1 lbl' fast slow ds' pf ps cd cf cs c')
    let ?sc = "clip_score (dquot (dsub cf cs) (close_price c))"
    have long: "0 < ?sc" if "cs < cf"
      using that close_pos by (auto intro!: clip_score_sign dc.rnd_positive divide_pos_pos simp: dec_defs)
    have short: "?sc < 0" if "cf < cs"
      using that close_pos by (auto intro!: clip_score_sign dc.rnd_negative divide_neg_pos simp: dec_defs)
    show ?thesis
    proof (cases "crossover_direction pf ps cf cs")
      case None
      with 1 show ?thesis by auto
    next
      case (Some dir)
      with long short have "dir = SignalLong \<and> 0 < ?sc \<or> dir = SignalShort \<and> ?sc < 0"
        by (auto simp: crossover_direction_def split: if_splits)
      with Some 1 emit_signal_sound [OF ds c, of lbl "[(fast, cf), (slow, cs), (''close_price'', close_price c)]" dir ?sc]
      show ?thesis
        using tx names close_pos clip_score_range
        by (auto simp: ddiv_nonzero sized_def)
    qed
  qed auto
qed

lemma rsi_sound_step:
  assumes ds: "research_dataset ds" and st: "oversold_threshold st < 50" "50 < overbought_threshold st"
  shows "sound_step ds (rsi_step st ds)"
  unfolding sound_step_def
proof (intro allI impI)
  fix p :: "rat option \<times> candle" and q :: "rat option" and c
  assume c: "c \<in> set (candles ds)"
  show "\<exists>r. rsi_step st ds (p, (q, c)) = Inr r \<and>
      (\<forall>s. r = Some s \<longrightarrow> signal_from ds s \<and> candle_close_time s = close_time c)"
  proof (cases "(st, ds, (p, (q, c)))" rule: rsi_step.cases)
    case (1 st' ds' pr cd cr c')
    have long: "0 < rsi_score SignalLong cr" if "cr < 50"
      using that by (auto intro!: dc.rnd_positive simp: rsi_score_def dec_defs)
    have short: "rsi_score SignalShort cr < 0" if "50 < cr"
      using that by (auto intro!: dc.rnd_negative dc.rnd_positive simp: rsi_score_def dec_defs)
    show ?thesis
    proof (cases "rsi_crossing st pr cr")
      case None
      with 1 show ?thesis by auto
    next
      case (Some dt)
      obtain dir thr where dt: "dt = (dir, thr)" by (cases dt)
      let ?sc = "clip_score (rsi_score dir cr)"
      have "dir = SignalLong \<and> 0 < ?sc \<or> dir = SignalShort \<and> ?sc < 0"
        using Some dt long short st by (auto simp: rsi_crossing_def clip_score_sign split: if_splits)
      with Some 1 dt show ?thesis
        using emit_signal_sound [OF ds c, of rsi_text "[(''previous_rsi'', pr), (''rsi'', cr),
          (''threshold'', thr), (''close_price'', close_price c)]" dir ?sc] clip_score_range
        by (auto simp: sized_def)
    qed
  qed auto
qed

lemma crossover_step_truncated [simp]:
  "crossover_step lbl nms (ds\<lparr>candles := cs\<rparr>) = crossover_step lbl nms ds"
proof
  show "crossover_step lbl nms (ds\<lparr>candles := cs\<rparr>) x = crossover_step lbl nms ds x" for x
    by (cases "(lbl, nms, ds, x)" rule: crossover_step.cases)
      (auto simp: emit_signal_def split: option.splits)
qed

lemma rsi_step_truncated [simp]: "rsi_step st (ds\<lparr>candles := cs\<rparr>) = rsi_step st ds"
proof
  show "rsi_step st (ds\<lparr>candles := cs\<rparr>) x = rsi_step st ds x" for x
    by (cases "(st, ds, x)" rule: rsi_step.cases) (auto simp: emit_signal_def split: option.splits)
qed

text \<open>The two crossover strategies differ in their moving average only.\<close>

definition crossover_configured :: "crossover_strategy \<Rightarrow> bool" where
  "crossover_configured st \<longleftrightarrow> 2 \<le> fast_period st \<and> fast_period st < slow_period st"

definition rsi_configured :: "rsi_strategy \<Rightarrow> bool" where
  "rsi_configured st \<longleftrightarrow> 2 \<le> rsi_period st
     \<and> 0 < oversold_threshold st \<and> oversold_threshold st < 50
     \<and> 50 < overbought_threshold st \<and> overbought_threshold st < 100"

lemma constructor_configured:
  "SMACrossoverStrategy f s = Inr st \<Longrightarrow> crossover_configured st"
  "EMACrossoverStrategy f s = Inr st \<Longrightarrow> crossover_configured st"
  "RSIThresholdStrategy n lo hi = Inr rst \<Longrightarrow> rsi_configured rst"
  by (auto simp: SMACrossoverStrategy_def EMACrossoverStrategy_def RSIThresholdStrategy_def
      raising_Inr_iff crossover_configured_def rsi_configured_def)

lemma crossover_generated:
  assumes avg: "causal_indicator avg" and st: "crossover_configured st"
    and tx: "lbl \<in> {sma_text, ema_text}" and names: "sized 1 100 (fst nms)" "sized 1 100 (snd nms)"
    and ds: "research_dataset ds"
  shows "\<exists>sigs. crossover_generate lbl nms avg st ds = Inr sigs \<and> signals_for ds sigs
    \<and> (\<exists>us vs. crossover_generate lbl nms avg st (ds\<lparr>candles := take n (candles ds)\<rparr>) = Inr us
         \<and> sigs = us @ vs
         \<and> (\<forall>s \<in> set vs. \<exists>c \<in> set (drop n (candles ds)). candle_close_time s = close_time c))"
proof -
  let ?ps = "map close_price (candles ds)"
  obtain fs ss where run: "avg ?ps (fast_period st) = Inr fs" "avg ?ps (slow_period st) = Inr ss"
    using causal_indicator.indicator_total [OF avg] st by (force simp: crossover_configured_def)
  have len: "length (zip fs ss) = length (candles ds)"
    using causal_indicator.indicator_length [OF avg] run by fastforce
  note step = crossover_sound_step [OF ds tx names]
  obtain sigs where sigs: "collectR (crossover_step lbl nms ds) (adjacent (zip (zip fs ss) (candles ds))) = Inr sigs"
    and "signals_for ds sigs"
    using scan_sound [OF step ds len] by blast
  moreover have "avg (map close_price (take n (candles ds))) (fast_period st) = Inr (take n fs)"
    "avg (map close_price (take n (candles ds))) (slow_period st) = Inr (take n ss)"
    using causal_indicator.indicator_prefix [OF avg] run by (metis take_map)+
  ultimately show ?thesis
    using run scan_prefix [OF step len sigs, of n] by (auto simp: crossover_generate_def take_zip)
qed

interpretation sma_strategy: research_strategy crossover_configured sma_generate
  using crossover_generated [OF sma.causal_indicator_axioms, of _ sma_text "(''fast_sma'', ''slow_sma'')"]
  by unfold_locales (fastforce simp: sma_generate_def sized_def)+

interpretation ema_strategy: research_strategy crossover_configured ema_generate
  using crossover_generated [OF ema.causal_indicator_axioms, of _ ema_text "(''fast_ema'', ''slow_ema'')"]
  by unfold_locales (fastforce simp: ema_generate_def sized_def)+

lemma rsi_generated:
  assumes st: "rsi_configured st" and ds: "research_dataset ds"
  shows "\<exists>sigs. rsi_generate st ds = Inr sigs \<and> signals_for ds sigs
    \<and> (\<exists>us vs. rsi_generate st (ds\<lparr>candles := take n (candles ds)\<rparr>) = Inr us \<and> sigs = us @ vs
         \<and> (\<forall>s \<in> set vs. \<exists>c \<in> set (drop n (candles ds)). candle_close_time s = close_time c))"
proof -
  obtain rs where run: "relative_strength_index (map close_price (candles ds)) (rsi_period st) = Inr rs"
    using rsi.indicator_total st by (force simp: rsi_configured_def)
  have len: "length rs = length (candles ds)" using rsi.indicator_length [OF run] by simp
  have step: "sound_step ds (rsi_step st ds)" using rsi_sound_step [OF ds] st by (simp add: rsi_configured_def)
  obtain sigs where sigs: "collectR (rsi_step st ds) (adjacent (zip rs (candles ds))) = Inr sigs"
    and "signals_for ds sigs"
    using scan_sound [OF step ds len] by blast
  moreover have "relative_strength_index (map close_price (take n (candles ds))) (rsi_period st)
      = Inr (take n rs)"
    using rsi.indicator_prefix [OF run] by (metis take_map)
  ultimately show ?thesis
    using run scan_prefix [OF step len sigs, of n] by (auto simp: rsi_generate_def)
qed

interpretation rsi_threshold: research_strategy rsi_configured rsi_generate
  using rsi_generated by unfold_locales (blast, fastforce)

section \<open>Properties\<close>

text \<open>
  the SMA crossover strategy, on any dataset, returns normally; every signal is valid (long
  signals score above zero, short ones below), belongs to a candle of the dataset, and there is at
  most one signal per candle, in time order.
\<close>

theorem sma_signals_sound:
  assumes "SMACrossoverStrategy fast slow = Inr st" "research_dataset ds"
  shows "\<exists>sigs. sma_generate st ds = Inr sigs \<and> signals_for ds sigs"
  using sma_strategy.generate_sound constructor_configured(1) assms by blast

theorem sma_signals_sound_witness:
  "\<exists>sigs. sma_generate \<lparr>fast_period = 2, slow_period = 3\<rparr> (sample_dataset [10, 9, 8, 12]) = Inr sigs
     \<and> signals_for (sample_dataset [10, 9, 8, 12]) sigs"
  by (rule sma_signals_sound [of 2 3])
    (simp_all add: SMACrossoverStrategy_def raising.simps research_dataset_def)

text \<open>
  The RSI strategy has the same guarantee: whatever thresholds its constructor accepts, an
  oversold crossing gets a positive score and an overbought one a negative score after rounding
  and clipping, so building the signal never fails.
\<close>

theorem rsi_signals_sound:
  assumes "RSIThresholdStrategy period oversold overbought = Inr st" "research_dataset ds"
  shows "\<exists>sigs. rsi_generate st ds = Inr sigs \<and> signals_for ds sigs"
  using rsi_threshold.generate_sound constructor_configured(3) assms by blast

theorem rsi_signals_sound_witness:
  "\<exists>sigs. rsi_generate \<lparr>rsi_period = 2, oversold_threshold = 30, overbought_threshold = 70\<rparr>
       (sample_dataset [10, 9, 8, 12]) = Inr sigs
     \<and> signals_for (sample_dataset [10, 9, 8, 12]) sigs"
  by (rule rsi_signals_sound [of 2 30 70])
    (simp_all add: RSIThresholdStrategy_def raising.simps research_dataset_def)

text \<open>
  C12: no look-ahead. Two datasets with the same candles up to some point give the EMA crossover
  strategy the same signals for every candle closed by a time \<open>t\<close> before the remaining candles
  close, whatever those remaining candles are.
\<close>

theorem ema_no_lookahead:
  assumes "EMACrossoverStrategy fast slow = Inr st"
    and "research_dataset ds" "research_dataset (ds\<lparr>candles := cs\<rparr>)"
    and "take n cs = take n (candles ds)"
    and "\<forall>c \<in> set (drop n (candles ds)) \<union> set (drop n cs). t < close_time c"
    and "ema_generate st ds = Inr sigs" "ema_generate st (ds\<lparr>candles := cs\<rparr>) = Inr sigs'"
  shows "filter (\<lambda>s. candle_close_time s \<le> t) sigs = filter (\<lambda>s. candle_close_time s \<le> t) sigs'"
  using ema_strategy.no_lookahead constructor_configured(2) assms by blast

theorem ema_no_lookahead_witness:
  "\<exists>sigs sigs'. ema_generate \<lparr>fast_period = 2, slow_period = 3\<rparr> (sample_dataset [10, 9, 8, 12]) = Inr sigs
     \<and> ema_generate \<lparr>fast_period = 2, slow_period = 3\<rparr>
         (sample_dataset [10, 9, 8, 12]\<lparr>candles := candles (sample_dataset [10, 9, 8, 5])\<rparr>) = Inr sigs'
     \<and> filter (\<lambda>s. candle_close_time s \<le> 3 * hour_us) sigs
       = filter (\<lambda>s. candle_close_time s \<le> 3 * hour_us) sigs'"
proof -
  let ?st = "\<lparr>fast_period = 2, slow_period = 3\<rparr>" and ?ds = "sample_dataset [10, 9, 8, 12]"
  let ?ds' = "?ds\<lparr>candles := candles (sample_dataset [10, 9, 8, 5])\<rparr>"
  let ?keep = "filter (\<lambda>s. candle_close_time s \<le> 3 * hour_us)"
  have st: "EMACrossoverStrategy 2 3 = Inr ?st" by (simp add: EMACrossoverStrategy_def raising.simps)
  have ds: "research_dataset ?ds" "research_dataset ?ds'" by (simp_all add: research_dataset_def)
  obtain sigs sigs' where run: "ema_generate ?st ?ds = Inr sigs" "ema_generate ?st ?ds' = Inr sigs'"
    using ema_strategy.generate_sound [OF constructor_configured(2) [OF st]] ds by blast
  have "take 3 (candles (sample_dataset [10, 9, 8, 5])) = take 3 (candles ?ds)"
    "\<forall>c \<in> set (drop 3 (candles ?ds)) \<union> set (drop 3 (candles (sample_dataset [10, 9, 8, 5]))).
       3 * hour_us < close_time c"
    by (simp_all add: sample_candles eval_nat_numeral)
  then have "?keep sigs = ?keep sigs'" by (rule ema_no_lookahead [OF st ds _ _ run])
  with run show ?thesis by blast
qed

end
