(* ===== verification/Backtest.thy ===== *)
theory Backtest imports Strategies "HOL-Library.Multiset"
begin

text \<open>
  The backtest engine (\<open>trd_bot/backtesting/models.py\<close>, \<open>engine.py\<close>): configuration, events, the
  scheduling of signals on the candle that follows them, and the run that turns scheduled signals
  into a sequence of position events. The last part is the event log as an abstract specification:
  what the performance analyzer may rely on.
\<close>

section \<open>Configuration and events\<close>

datatype position_side = SideLong | SideShort

datatype event_type = POSITION_OPENED | POSITION_CLOSED

fun event_type_value :: "event_type \<Rightarrow> string" where
  "event_type_value POSITION_OPENED = ''position_opened''"
| "event_type_value POSITION_CLOSED = ''position_closed''"

datatype exit_reason = OPPOSITE_SIGNAL | END_OF_DATA

record backtest_config =
  starting_balance :: rat
  allocation_fraction :: rat
  fee_rate :: rat
  slippage_rate :: rat

definition config_fields :: "backtest_config \<Rightarrow> (string \<times> bool) list" where
  "config_fields cfg =
     [(''starting_balance'', 0 < starting_balance cfg),
      (''allocation_fraction'', 0 < allocation_fraction cfg \<and> allocation_fraction cfg \<le> 1),
      (''fee_rate'', 0 \<le> fee_rate cfg \<and> fee_rate cfg < 1),
      (''slippage_rate'', 0 \<le> slippage_rate cfg \<and> slippage_rate cfg < 1)]"

definition BacktestConfig :: "rat \<Rightarrow> rat \<Rightarrow> rat \<Rightarrow> rat \<Rightarrow> backtest_config result" where
  "BacktestConfig balance allocation fee slippage =
     (let cfg = \<lparr>starting_balance = balance, allocation_fraction = allocation, fee_rate = fee,
                 slippage_rate = slippage\<rparr>
      in check_fields (config_fields cfg) cfg)"

record backtest_event =
  event_id :: string
  sequence_number :: int
  event_kind :: event_type
  event_time :: int
  event_pair :: trading_pair
  event_side :: position_side
  event_price :: rat
  event_quantity :: rat
  event_signal_id :: "string option"
  event_exit_reason :: "exit_reason option"

definition event_fields :: "backtest_event \<Rightarrow> (string \<times> bool) list" where
  "event_fields e =
     [(''event_id'', has_id_form ''event-'' 16 (event_id e)),
      (''sequence_number'', 1 \<le> sequence_number e),
      (''price'', 0 < event_price e), (''quantity'', 0 < event_quantity e),
      (''signal_id'', case event_signal_id e of None \<Rightarrow> True | Some s \<Rightarrow> has_id_form ''signal-'' 16 s)]"

definition validate_event :: "backtest_event \<Rightarrow> backtest_event result" where
  "validate_event e = raising
     [(event_kind e = POSITION_OPENED \<and> event_signal_id e = None,
         ValueError ''position-opened event requires a signal ID''),
      (event_kind e = POSITION_OPENED \<and> event_exit_reason e \<noteq> None,
         ValueError ''position-opened event cannot have an exit reason''),
      (event_kind e = POSITION_CLOSED \<and> event_exit_reason e = None,
         ValueError ''position-closed event requires an exit reason'')] e"

definition BacktestEvent :: "backtest_event \<Rightarrow> backtest_event result" where
  "BacktestEvent e = bindR (check_fields (event_fields e) e) validate_event"

definition build_backtest_event_id :: "string \<Rightarrow> int \<Rightarrow> event_type \<Rightarrow> int \<Rightarrow> string" where
  "build_backtest_event_id run_id seq kind ts =
     ''event-'' @ digest16 (join ''::'' [run_id, str_int seq, event_type_value kind, isoformat ts])"

lemma build_backtest_event_id_form [simp]: "has_id_form ''event-'' 16 (build_backtest_event_id r n k t)"
  unfolding build_backtest_event_id_def has_id_form_append by simp

lemma BacktestEvent_Inr_iff:
  "BacktestEvent e = Inr f \<longleftrightarrow> f = e \<and> (\<forall>(n, ok) \<in> set (event_fields e). ok)
     \<and> (case event_kind e of
          POSITION_OPENED \<Rightarrow> event_signal_id e \<noteq> None \<and> event_exit_reason e = None
        | POSITION_CLOSED \<Rightarrow> event_exit_reason e \<noteq> None)"
  by (cases "event_kind e")
    (auto simp: BacktestEvent_def bindR_Inr_iff check_fields_Inr_iff validate_event_def raising_Inr_iff)

section \<open>Signals: validation and scheduling\<close>

definition validate_signals :: "dataset \<Rightarrow> strategy_signal list \<Rightarrow> unit result" where
  "validate_signals ds sigs =
     (let candle_windows = map (\<lambda>c. (open_time c, close_time c)) (candles ds)
      in foldR (\<lambda>_ s. raising
           [(signal_dataset_id s \<noteq> dataset_id ds, ValueError ''signal does not belong to the dataset''),
            (signal_pair s \<noteq> dataset_pair ds, ValueError ''signal pair does not match the dataset''),
            (signal_timeframe s \<noteq> dataset_timeframe ds,
               ValueError ''signal timeframe does not match the dataset''),
            ((candle_open_time s, candle_close_time s) \<notin> set candle_windows,
               ValueError ''signal candle does not exist in the dataset'')] ())
         () sigs)"

definition schedule_signal ::
  "int list \<Rightarrow> (int \<rightharpoonup> strategy_signal) \<Rightarrow> strategy_signal \<Rightarrow> (int \<rightharpoonup> strategy_signal) result" where
  "schedule_signal candle_open_times scheduled s =
     (if direction s = SignalNeutral then Inr scheduled
      else let execution_time = candle_close_time s
        in if execution_time \<notin> set candle_open_times then Inr scheduled
           else if scheduled execution_time \<noteq> None
           then Inl (ValueError ''multiple signals cannot execute at the same time'')
           else Inr (scheduled(execution_time \<mapsto> s)))"

definition schedule_signals :: "dataset \<Rightarrow> strategy_signal list \<Rightarrow> (int \<rightharpoonup> strategy_signal) result" where
  "schedule_signals ds sigs =
     foldR (schedule_signal (map open_time (candles ds))) Map.empty (sort_key candle_close_time sigs)"

section \<open>The run\<close>

fun direction_to_side :: "signal_direction \<Rightarrow> position_side result" where
  "direction_to_side SignalLong = Inr SideLong"
| "direction_to_side SignalShort = Inr SideShort"
| "direction_to_side SignalNeutral = Inl (ValueError ''neutral signal cannot open a position'')"

definition apply_slippage :: "rat \<Rightarrow> position_side \<Rightarrow> bool \<Rightarrow> rat \<Rightarrow> rat" where
  "apply_slippage market_price side opening rate =
     (let is_buy = (opening \<and> side = SideLong) \<or> (\<not> opening \<and> side = SideShort)
      in if is_buy then dmul market_price (dadd 1 rate) else dmul market_price (dsub 1 rate))"

definition create_event ::
  "string \<Rightarrow> int \<Rightarrow> event_type \<Rightarrow> int \<Rightarrow> trading_pair \<Rightarrow> position_side \<Rightarrow> rat \<Rightarrow> rat
   \<Rightarrow> string option \<Rightarrow> exit_reason option \<Rightarrow> backtest_event result" where
  "create_event run_id seq kind ts pair side price qty sid reason =
     BacktestEvent \<lparr>event_id = build_backtest_event_id run_id seq kind ts, sequence_number = seq,
       event_kind = kind, event_time = ts, event_pair = pair, event_side = side, event_price = price,
       event_quantity = qty, event_signal_id = sid, event_exit_reason = reason\<rparr>"

record open_position =
  pos_side :: position_side
  pos_quantity :: rat

record run_state =
  run_events :: "backtest_event list"
  current_position :: "open_position option"
  next_sequence :: int

definition initial_run :: run_state where
  "initial_run = \<lparr>run_events = [], current_position = None, next_sequence = 1\<rparr>"

text \<open>
  The two statements that append a position-closed event, with the reset of the position; the loop
  increments the sequence number, and so does the last close here, where nothing reads it.
\<close>

definition close_current ::
  "string \<Rightarrow> dataset \<Rightarrow> backtest_config \<Rightarrow> rat \<Rightarrow> int \<Rightarrow> string option \<Rightarrow> exit_reason \<Rightarrow> run_state
   \<Rightarrow> run_state result" where
  "close_current run_id ds cfg market_price ts sid reason st =
     (case current_position st of
        None \<Rightarrow> Inr st
      | Some p \<Rightarrow>
          bindR (create_event run_id (next_sequence st) POSITION_CLOSED ts (dataset_pair ds) (pos_side p)
                  (apply_slippage market_price (pos_side p) False (slippage_rate cfg)) (pos_quantity p)
                  sid (Some reason))
            (\<lambda>e. Inr (st\<lparr>run_events := run_events st @ [e], current_position := None,
                        next_sequence := next_sequence st + 1\<rparr>)))"

definition open_target ::
  "string \<Rightarrow> dataset \<Rightarrow> backtest_config \<Rightarrow> rat \<Rightarrow> candle \<Rightarrow> strategy_signal \<Rightarrow> position_side \<Rightarrow> run_state
   \<Rightarrow> run_state result" where
  "open_target run_id ds cfg allocation c s target st =
     (let entry_price = apply_slippage (open_price c) target True (slippage_rate cfg)
      in bindR (ddiv allocation entry_price)
        (\<lambda>qty. bindR (create_event run_id (next_sequence st) POSITION_OPENED (open_time c)
                       (dataset_pair ds) target entry_price qty (Some (signal_id s)) None)
          (\<lambda>e. Inr (st\<lparr>run_events := run_events st @ [e],
                      current_position := Some \<lparr>pos_side = target, pos_quantity = qty\<rparr>,
                      next_sequence := next_sequence st + 1\<rparr>))))"

definition run_step ::
  "string \<Rightarrow> dataset \<Rightarrow> backtest_config \<Rightarrow> rat \<Rightarrow> (int \<rightharpoonup> strategy_signal) \<Rightarrow> run_state \<Rightarrow> candle
   \<Rightarrow> run_state result" where
  "run_step run_id ds cfg allocation scheduled st c =
     (case scheduled (open_time c) of
        None \<Rightarrow> Inr st
      | Some s \<Rightarrow>
          bindR (direction_to_side (direction s))
            (\<lambda>target.
               if map_option pos_side (current_position st) = Some target then Inr st
               else bindR (close_current run_id ds cfg (open_price c) (open_time c)
                             (Some (signal_id s)) OPPOSITE_SIGNAL st)
                      (open_target run_id ds cfg allocation c s target)))"

definition run_backtest ::
  "string \<Rightarrow> dataset \<Rightarrow> strategy_signal list \<Rightarrow> backtest_config \<Rightarrow> backtest_event list result" where
  "run_backtest run_id ds sigs cfg =
     (if strip run_id = [] then Inl (ValueError ''run ID cannot be empty'')
      else bindR (validate_signals ds sigs)
        (\<lambda>_. bindR (schedule_signals ds sigs)
          (\<lambda>scheduled.
             let allocation = dmul (starting_balance cfg) (allocation_fraction cfg)
             in bindR (foldR (run_step run_id ds cfg allocation scheduled) initial_run (candles ds))
               (\<lambda>st. if current_position st = None then Inr (run_events st)
                     else if candles ds = [] then Inl OutOfRange
                     else let final_candle = last (candles ds)
                       in bindR (close_current run_id ds cfg (close_price final_candle)
                                  (close_time final_candle) None END_OF_DATA st)
                            (\<lambda>st'. Inr (run_events st'))))))"

section \<open>The event log\<close>

text \<open>
  What the engine promises to whoever reads its events: opened and closed positions alternate, a
  close has the pair, the side and the quantity of its open and comes later, nothing stays open,
  and the sequence numbers are 1, 2, 3, ... \<open>replay\<close> is the position left open by a log, if the log is
  well formed.
\<close>

definition closes :: "backtest_event \<Rightarrow> backtest_event \<Rightarrow> bool" where
  "closes opened e \<longleftrightarrow> event_kind e = POSITION_CLOSED \<and> event_pair e = event_pair opened
     \<and> event_side e = event_side opened \<and> event_quantity e = event_quantity opened
     \<and> event_time opened < event_time e"

fun replay :: "backtest_event option \<Rightarrow> backtest_event list \<Rightarrow> backtest_event option option" where
  "replay opened [] = Some opened"
| "replay None (e # es) = (if event_kind e = POSITION_OPENED then replay (Some e) es else None)"
| "replay (Some opened) (e # es) = (if closes opened e then replay None es else None)"

definition numbered :: "backtest_event list \<Rightarrow> bool" where
  "numbered es \<longleftrightarrow> list_all (\<lambda>(n, e). sequence_number e = n) (enumerate_from 1 es)"

definition event_log :: "backtest_event list \<Rightarrow> bool" where
  "event_log es \<longleftrightarrow> list_all (\<lambda>e. BacktestEvent e = Inr e) es \<and> numbered es \<and> replay None es = Some None"

definition opened_sides :: "backtest_event list \<Rightarrow> position_side list" where
  "opened_sides es = map event_side (filter (\<lambda>e. event_kind e = POSITION_OPENED) es)"

lemma replay_append: "replay opened (es @ fs) = Option.bind (replay opened es) (\<lambda>r. replay r fs)"
  by (induction opened es rule: replay.induct) auto

lemma numbered_snoc: "numbered (es @ [e]) \<longleftrightarrow> numbered es \<and> sequence_number e = int (length es) + 1"
  by (auto simp: numbered_def enumerate_from_append)

lemma opened_sides_snoc:
  "opened_sides (es @ [e]) = opened_sides es @ (if event_kind e = POSITION_OPENED then [event_side e] else [])"
  by (simp add: opened_sides_def)

section \<open>Scheduling\<close>

definition executable_signals :: "dataset \<Rightarrow> strategy_signal list \<Rightarrow> strategy_signal list" where
  "executable_signals ds sigs =
     filter (\<lambda>s. direction s \<noteq> SignalNeutral \<and> candle_close_time s \<in> set (map open_time (candles ds))) sigs"

definition schedule_of :: "strategy_signal list \<Rightarrow> int \<rightharpoonup> strategy_signal" where
  "schedule_of sigs = map_of (map (\<lambda>s. (candle_close_time s, s)) sigs)"

text \<open>A signal that belongs to the dataset, at one of its candles.\<close>

definition signal_accepted :: "dataset \<Rightarrow> strategy_signal \<Rightarrow> bool" where
  "signal_accepted ds s \<longleftrightarrow> signal_dataset_id s = dataset_id ds \<and> signal_pair s = dataset_pair ds
     \<and> signal_timeframe s = dataset_timeframe ds
     \<and> list_ex (\<lambda>c. candle_open_time s = open_time c \<and> candle_close_time s = close_time c) (candles ds)"

definition one_per_time :: "dataset \<Rightarrow> strategy_signal list \<Rightarrow> bool" where
  "one_per_time ds sigs \<longleftrightarrow> distinct (map candle_close_time (executable_signals ds sigs))"

lemma schedule_loop:
  defines "trade opens s \<equiv> direction s \<noteq> SignalNeutral \<and> candle_close_time s \<in> set opens"
  shows "foldR (schedule_signal opens) m sigs =
    (if distinct (map candle_close_time (filter (trade opens) sigs))
        \<and> (\<forall>s \<in> set (filter (trade opens) sigs). m (candle_close_time s) = None)
     then Inr (m ++ schedule_of (filter (trade opens) sigs))
     else Inl (ValueError ''multiple signals cannot execute at the same time''))"
proof (induction sigs arbitrary: m)
  case (Cons s sigs)
  let ?t = "filter (trade opens) sigs" and ?m = "m(candle_close_time s \<mapsto> s)"
  show ?case
  proof (cases "trade opens s")
    case False
    then have "schedule_signal opens m s = Inr m" by (auto simp: schedule_signal_def trade_def)
    with False show ?thesis by (simp add: Cons.IH)
  next
    case True
    show ?thesis
    proof (cases "m (candle_close_time s) = None")
      case False
      then have "schedule_signal opens m s = Inl (ValueError ''multiple signals cannot execute at the same time'')"
        using True by (simp add: schedule_signal_def trade_def)
      with True False show ?thesis by simp
    next
      case free: True
      then have step: "foldR (schedule_signal opens) m (s # sigs) = foldR (schedule_signal opens) ?m sigs"
        using True by (simp add: schedule_signal_def trade_def)
      have later: "(\<forall>u \<in> set ?t. ?m (candle_close_time u) = None)
          \<longleftrightarrow> candle_close_time s \<notin> candle_close_time ` set ?t \<and> (\<forall>u \<in> set ?t. m (candle_close_time u) = None)"
        (is "?l \<longleftrightarrow> ?new \<and> ?r")
      proof
        assume l: ?l
        then have new: "candle_close_time u \<noteq> candle_close_time s" if "u \<in> set ?t" for u using that by force
        then have ?new by (metis imageE)
        moreover have ?r using l new by simp
        ultimately show "?new \<and> ?r" ..
      next
        assume "?new \<and> ?r"
        moreover from this have "candle_close_time u \<noteq> candle_close_time s" if "u \<in> set ?t" for u
          using that by (metis imageI)
        ultimately show ?l by simp
      qed
      have same: "?m ++ schedule_of ?t = m ++ schedule_of (s # ?t)" if "candle_close_time s \<notin> candle_close_time ` set ?t"
      proof -
        have "schedule_of ?t (candle_close_time s) = None"
          using that by (auto simp: schedule_of_def map_of_eq_None_iff)
        then show ?thesis by (auto simp: schedule_of_def map_add_def fun_eq_iff split: option.splits)
      qed
      have cons: "filter (trade opens) (s # sigs) = s # ?t" using True by simp
      show ?thesis
        unfolding step Cons.IH later cons using free same by (simp only: list.map list.set distinct.simps set_map) auto
    qed
  qed
qed (simp add: schedule_of_def)

lemma schedule_of_perm:
  assumes "mset xs = mset ys" "distinct (map candle_close_time ys)" shows "schedule_of xs = schedule_of ys"
proof -
  have "mset (map candle_close_time xs) = mset (map candle_close_time ys)" using assms(1) by (simp add: mset_map)
  then have dist: "distinct (map candle_close_time xs)" using assms(2) by (metis mset_eq_imp_distinct_iff)
  have "set xs = set ys" using assms(1) by (metis set_mset_mset)
  moreover have "inj_on candle_close_time (set xs)" using dist by (simp add: distinct_map)
  ultimately show ?thesis
    using dist assms(2) unfolding schedule_of_def by (intro map_of_inject_set [THEN iffD2]) (simp_all add: comp_def)
qed

lemma scheduling:
  "schedule_signals ds sigs = (if one_per_time ds sigs then Inr (schedule_of (executable_signals ds sigs))
     else Inl (ValueError ''multiple signals cannot execute at the same time''))"
proof -
  define xs where "xs = filter (\<lambda>s. direction s \<noteq> SignalNeutral \<and> candle_close_time s \<in> set (map open_time (candles ds)))
    (sort_key candle_close_time sigs)"
  have perm: "mset xs = mset (executable_signals ds sigs)"
    by (simp add: executable_signals_def xs_def mset_filter)
  then have "mset (map candle_close_time xs) = mset (map candle_close_time (executable_signals ds sigs))"
    by (simp only: mset_map)
  then have dist: "distinct (map candle_close_time xs) \<longleftrightarrow> one_per_time ds sigs"
    unfolding one_per_time_def by (rule mset_eq_imp_distinct_iff)
  have "schedule_signals ds sigs = (if distinct (map candle_close_time xs) then Inr (schedule_of xs)
      else Inl (ValueError ''multiple signals cannot execute at the same time''))"
    unfolding schedule_signals_def schedule_loop xs_def by simp
  then show ?thesis using dist schedule_of_perm [OF perm] by (simp add: one_per_time_def)
qed

lemma validation: "validate_signals ds sigs = Inr () \<longleftrightarrow> list_all (signal_accepted ds) sigs"
proof (induction sigs)
  case (Cons s sigs)
  have "(candle_open_time s, candle_close_time s) \<in> set (map (\<lambda>c. (open_time c, close_time c)) (candles ds))
      \<longleftrightarrow> list_ex (\<lambda>c. candle_open_time s = open_time c \<and> candle_close_time s = close_time c) (candles ds)"
    by (auto simp: list_ex_iff)
  with Cons show ?case
    by (simp add: validate_signals_def bindR_Inr_iff raising_Inr_iff signal_accepted_def)
qed (simp add: validate_signals_def)

text \<open>What the model class checks of every signal; the signals of a strategy are accepted and one per time.\<close>

definition constructed :: "strategy_signal list \<Rightarrow> bool" where
  "constructed sigs \<longleftrightarrow> list_all (\<lambda>s. StrategySignal s = Inr s) sigs"

lemma signals_for_tradable:
  assumes "signals_for ds sigs"
  shows "constructed sigs" "list_all (signal_accepted ds) sigs" "one_per_time ds sigs"
proof -
  show "constructed sigs" "list_all (signal_accepted ds) sigs"
    using assms by (auto simp: constructed_def signals_for_def signal_from_def signal_accepted_def list_all_iff list_ex_iff)
  have "sorted_wrt (\<lambda>s t. candle_close_time s < candle_close_time t) (executable_signals ds sigs)"
    using assms by (simp add: executable_signals_def signals_for_def sorted_wrt_filter)
  then show "one_per_time ds sigs"
    by (simp add: one_per_time_def distinct_conv_nth sorted_wrt_iff_nth_less) (metis less_irrefl nat_neq_iff)
qed

lemma schedule_of_Some: "schedule_of sigs t = Some s \<Longrightarrow> s \<in> set sigs \<and> candle_close_time s = t"
  by (auto simp: schedule_of_def dest!: map_of_SomeD)


section \<open>The run\<close>

definition side_of :: "strategy_signal \<Rightarrow> position_side" where
  "side_of s = (if direction s = SignalLong then SideLong else SideShort)"

definition valid_config :: "backtest_config \<Rightarrow> bool" where
  "valid_config cfg \<longleftrightarrow> (\<forall>(n, ok) \<in> set (config_fields cfg). ok)"

text \<open>
  What a fill costs, by what is traded: opening a long and closing a short buy, at the market price and
  the slippage on top; opening a short and closing a long sell, at the market price less the slippage.
\<close>

fun executed_price :: "event_type \<Rightarrow> position_side \<Rightarrow> rat \<Rightarrow> rat \<Rightarrow> rat" where
  "executed_price POSITION_OPENED SideLong p rate = dround (p * dround (1 + rate))"
| "executed_price POSITION_CLOSED SideShort p rate = dround (p * dround (1 + rate))"
| "executed_price POSITION_OPENED SideShort p rate = dround (p * dround (1 - rate))"
| "executed_price POSITION_CLOSED SideLong p rate = dround (p * dround (1 - rate))"

lemma executed_price_slippage: "apply_slippage p side (kind = POSITION_OPENED) rate = executed_price kind side p rate"
  by (cases kind; cases side) (simp_all add: apply_slippage_def dec_defs)

text \<open>
  An event is executed at the open of the candle that follows its signal's candle, at that candle's
  open price and the slippage against the trade; an opening takes the signal's side and the quantity that
  the allocated balance buys. The last close is at the last candle's close.
\<close>

definition executed :: "dataset \<Rightarrow> strategy_signal list \<Rightarrow> backtest_config \<Rightarrow> backtest_event \<Rightarrow> bool" where
  "executed ds sigs cfg e \<longleftrightarrow>
     (\<exists>c \<in> set (candles ds). \<exists>s \<in> set sigs. event_signal_id e = Some (signal_id s)
        \<and> event_time e = candle_close_time s \<and> event_time e = open_time c
        \<and> event_price e = executed_price (event_kind e) (event_side e) (open_price c) (slippage_rate cfg)
        \<and> (if event_kind e = POSITION_OPENED
           then event_side e = side_of s \<and> event_quantity e
             = dround (dround (starting_balance cfg * allocation_fraction cfg) / event_price e)
           else event_exit_reason e = Some OPPOSITE_SIGNAL))
     \<or> (event_kind e = POSITION_CLOSED \<and> event_exit_reason e = Some END_OF_DATA
        \<and> event_time e = close_time (last (candles ds))
        \<and> event_price e = executed_price POSITION_CLOSED (event_side e) (close_price (last (candles ds))) (slippage_rate cfg))"

lemma apply_slippage_pos:
  assumes "valid_config cfg" "0 < p" shows "0 < apply_slippage p side opening (slippage_rate cfg)"
  using assms
  by (auto simp: apply_slippage_def valid_config_def config_fields_def dec_defs Let_def
      intro!: dc.rnd_positive mult_pos_pos add_pos_nonneg)

lemma create_event_runs:
  assumes "1 \<le> seq" "0 < price" "0 < qty"
    and "case sid of None \<Rightarrow> kind = POSITION_CLOSED | Some s \<Rightarrow> has_id_form ''signal-'' 16 s"
    and "reason = None \<longleftrightarrow> kind = POSITION_OPENED"
  shows "\<exists>e. create_event run_id seq kind ts pair side price qty sid reason = Inr e
    \<and> BacktestEvent e = Inr e \<and> sequence_number e = seq \<and> event_kind e = kind \<and> event_time e = ts
    \<and> event_pair e = pair \<and> event_side e = side \<and> event_price e = price \<and> event_quantity e = qty
    \<and> event_signal_id e = sid \<and> event_exit_reason e = reason"
proof -
  let ?e = "\<lparr>event_id = build_backtest_event_id run_id seq kind ts, sequence_number = seq,
       event_kind = kind, event_time = ts, event_pair = pair, event_side = side, event_price = price,
       event_quantity = qty, event_signal_id = sid, event_exit_reason = reason\<rparr>"
  have "BacktestEvent ?e = Inr ?e"
    using assms by (cases kind; cases sid; cases reason) (simp_all add: BacktestEvent_Inr_iff event_fields_def)
  then show ?thesis by (simp add: create_event_def)
qed

text \<open>What the engine's state means after some candles.\<close>

definition run_state_of ::
  "dataset \<Rightarrow> strategy_signal list \<Rightarrow> backtest_config \<Rightarrow> (int \<Rightarrow> bool) \<Rightarrow> run_state \<Rightarrow> bool" where
  "run_state_of ds sigs cfg seen st \<longleftrightarrow>
     list_all (\<lambda>e. BacktestEvent e = Inr e \<and> executed ds sigs cfg e) (run_events st)
     \<and> numbered (run_events st) \<and> next_sequence st = int (length (run_events st)) + 1
     \<and> (case current_position st of
          None \<Rightarrow> replay None (run_events st) = Some None
        | Some p \<Rightarrow> 0 < pos_quantity p
            \<and> (\<exists>e. replay None (run_events st) = Some (Some e) \<and> event_side e = pos_side p
                 \<and> event_quantity e = pos_quantity p \<and> event_pair e = dataset_pair ds \<and> seen (event_time e)))"

lemma close_current_runs:
  assumes st: "run_state_of ds sigs cfg seen st" and cfg: "valid_config cfg" and price: "0 < price"
    and later: "\<And>u. seen u \<Longrightarrow> u < ts"
    and sid: "case sid of None \<Rightarrow> True | Some i \<Rightarrow> has_id_form ''signal-'' 16 i"
    and ex: "\<And>e. \<lbrakk>event_signal_id e = sid; event_time e = ts; event_kind e = POSITION_CLOSED;
        event_exit_reason e = Some reason;
        event_price e = executed_price POSITION_CLOSED (event_side e) price (slippage_rate cfg)\<rbrakk>
        \<Longrightarrow> executed ds sigs cfg e"
  shows "\<exists>st'. close_current run_id ds cfg price ts sid reason st = Inr st'
    \<and> run_state_of ds sigs cfg seen' st' \<and> current_position st' = None
    \<and> opened_sides (run_events st') = opened_sides (run_events st)"
proof (cases "current_position st")
  case None
  with st show ?thesis by (simp add: close_current_def run_state_of_def)
next
  case (Some p)
  with st obtain opened where opened: "replay None (run_events st) = Some (Some opened)"
      "event_side opened = pos_side p" "event_quantity opened = pos_quantity p"
      "event_pair opened = dataset_pair ds" "seen (event_time opened)" and qty: "0 < pos_quantity p"
    by (auto simp: run_state_of_def)
  from st have seq: "1 \<le> next_sequence st" by (simp add: run_state_of_def)
  obtain e where e: "create_event run_id (next_sequence st) POSITION_CLOSED ts (dataset_pair ds) (pos_side p)
      (apply_slippage price (pos_side p) False (slippage_rate cfg)) (pos_quantity p) sid (Some reason) = Inr e"
    and e_fields: "BacktestEvent e = Inr e" "sequence_number e = next_sequence st"
      "event_kind e = POSITION_CLOSED" "event_time e = ts" "event_pair e = dataset_pair ds"
      "event_side e = pos_side p" "event_quantity e = pos_quantity p" "event_signal_id e = sid"
      "event_exit_reason e = Some reason"
      "event_price e = apply_slippage price (pos_side p) False (slippage_rate cfg)"
    using create_event_runs [OF seq apply_slippage_pos [OF cfg price] qty, where sid = sid and kind = POSITION_CLOSED and reason = "Some reason"] sid
    by (fastforce split: option.splits)
  have "closes opened e" using opened e_fields later by (simp add: closes_def)
  moreover have "executed ds sigs cfg e"
    using e_fields executed_price_slippage [of price "pos_side p" POSITION_CLOSED] by (intro ex) simp_all
  ultimately show ?thesis
    using st Some e e_fields opened(1)
    by (auto simp: close_current_def run_state_of_def numbered_snoc replay_append opened_sides_snoc)
qed


lemma open_target_runs:
  assumes st: "run_state_of ds sigs cfg seen st" "current_position st = None"
    and cfg: "valid_config cfg" and c: "c \<in> set (candles ds)" "0 < open_price c"
    and alloc: "0 < allocation" "allocation = dmul (starting_balance cfg) (allocation_fraction cfg)" and target: "target = side_of s"
    and s: "s \<in> set sigs" "candle_close_time s = open_time c" "has_id_form ''signal-'' 16 (signal_id s)"
    and seen: "seen' (open_time c)"
  shows "\<exists>st'. open_target run_id ds cfg allocation c s target st = Inr st'
    \<and> run_state_of ds sigs cfg seen' st' \<and> map_option pos_side (current_position st') = Some target
    \<and> opened_sides (run_events st') = opened_sides (run_events st) @ [target]"
proof -
  let ?price = "apply_slippage (open_price c) target True (slippage_rate cfg)"
  have price: "0 < ?price" by (rule apply_slippage_pos [OF cfg c(2)])
  then have qty: "ddiv allocation ?price = Inr (dquot allocation ?price)" "0 < dquot allocation ?price"
    using alloc by (auto simp: ddiv_nonzero dquot_def intro!: dc.rnd_positive)
  from st have seq: "1 \<le> next_sequence st" by (simp add: run_state_of_def)
  obtain e where e: "create_event run_id (next_sequence st) POSITION_OPENED (open_time c) (dataset_pair ds)
      target ?price (dquot allocation ?price) (Some (signal_id s)) None = Inr e"
    and e_fields: "BacktestEvent e = Inr e" "sequence_number e = next_sequence st"
      "event_kind e = POSITION_OPENED" "event_time e = open_time c" "event_pair e = dataset_pair ds"
      "event_side e = target" "event_quantity e = dquot allocation ?price"
      "event_signal_id e = Some (signal_id s)" "event_price e = ?price"
    using create_event_runs [OF seq price qty(2), where sid = "Some (signal_id s)" and
        kind = POSITION_OPENED and reason = None] s by fastforce
  have "executed ds sigs cfg e"
    using c(1) s e_fields target alloc(2) executed_price_slippage [of "open_price c" target POSITION_OPENED]
    unfolding executed_def by (intro disjI1 bexI [of _ c] bexI [of _ s]) (simp_all add: dquot_def dmul_def)
  with st seen e e_fields qty show ?thesis
    by (auto simp: open_target_def run_state_of_def numbered_snoc replay_append opened_sides_snoc)
qed

text \<open>The sides of the signals scheduled at the given candles.\<close>

definition scheduled_sides :: "(int \<rightharpoonup> strategy_signal) \<Rightarrow> candle list \<Rightarrow> position_side list" where
  "scheduled_sides m cs = map side_of (List.map_filter (m \<circ> open_time) cs)"

definition run_inv ::
  "dataset \<Rightarrow> strategy_signal list \<Rightarrow> backtest_config \<Rightarrow> (int \<rightharpoonup> strategy_signal) \<Rightarrow> candle list
   \<Rightarrow> run_state \<Rightarrow> bool" where
  "run_inv ds sigs cfg m cs st \<longleftrightarrow>
     run_state_of ds sigs cfg (\<lambda>t. t \<in> open_time ` set cs) st
     \<and> opened_sides (run_events st) = remdups_adj (scheduled_sides m cs)
     \<and> map_option pos_side (current_position st)
       = (if scheduled_sides m cs = [] then None else Some (last (scheduled_sides m cs)))"

lemma run_state_of_mono:
  "run_state_of ds sigs cfg seen st \<Longrightarrow> (\<And>t. seen t \<Longrightarrow> seen' t) \<Longrightarrow> run_state_of ds sigs cfg seen' st"
  by (auto simp: run_state_of_def split: option.splits)

lemma direction_to_side_side_of:
  "direction s \<noteq> SignalNeutral \<Longrightarrow> direction_to_side (direction s) = Inr (side_of s)"
  by (cases "direction s") (simp_all add: side_of_def)

lemma run_step_inv:
  assumes inv: "run_inv ds sigs cfg (schedule_of (executable_signals ds sigs)) pre st"
    and pre: "prefix (pre @ [c]) (candles ds)"
    and cfg: "valid_config cfg" and ds: "research_dataset ds" and sigs: "constructed sigs"
    and alloc: "0 < allocation" "allocation = dmul (starting_balance cfg) (allocation_fraction cfg)"
  shows "\<exists>st'. run_step run_id ds cfg allocation (schedule_of (executable_signals ds sigs)) st c = Inr st'
    \<and> run_inv ds sigs cfg (schedule_of (executable_signals ds sigs)) (pre @ [c]) st'"
proof (cases "schedule_of (executable_signals ds sigs) (open_time c)")
  let ?m = "schedule_of (executable_signals ds sigs)"
  case None
  with inv show ?thesis
    by (auto simp: run_step_def run_inv_def scheduled_sides_def map_filter_snoc elim: run_state_of_mono)
next
  let ?m = "schedule_of (executable_signals ds sigs)"
  case (Some s)
  then have s: "s \<in> set sigs" "candle_close_time s = open_time c" "direction s \<noteq> SignalNeutral"
    by (auto dest!: schedule_of_Some simp: executable_signals_def)
  then have side: "direction_to_side (direction s) = Inr (side_of s)"
    and sid: "has_id_form ''signal-'' 16 (signal_id s)"
    using sigs by (auto simp: constructed_def list_all_iff direction_to_side_side_of StrategySignal_Inr_iff signal_fields_def)
  from pre have c: "c \<in> set (candles ds)" by (auto dest: set_mono_prefix)
  then have price: "0 < open_price c"
    using ds by (auto simp: research_dataset_def valid_candle_iff dest!: candle_series_valid)
  have later: "u < open_time c" if "u \<in> open_time ` set pre" for u
  proof -
    have "sorted_wrt (\<lambda>a b. open_time a < open_time b) (candles ds)"
      using ds candle_series_opens by (simp add: research_dataset_def)
    with pre that show ?thesis by (auto simp: prefix_def sorted_wrt_append)
  qed
  have sides: "scheduled_sides ?m (pre @ [c]) = scheduled_sides ?m pre @ [side_of s]"
    using Some by (simp add: scheduled_sides_def map_filter_snoc)
  let ?seen = "\<lambda>t. t \<in> open_time ` set pre" and ?seen' = "\<lambda>t. t \<in> open_time ` set (pre @ [c])"
  show ?thesis
  proof (cases "map_option pos_side (current_position st) = Some (side_of s)")
    case True
    with inv Some side sides show ?thesis
      by (auto simp: run_step_def run_inv_def remdups_adj_snoc split: if_splits elim: run_state_of_mono)
  next
    case False
    have "run_state_of ds sigs cfg ?seen st" using inv by (simp add: run_inv_def)
    moreover have "executed ds sigs cfg e" if "event_signal_id e = Some (signal_id s)"
      "event_time e = open_time c" "event_kind e = POSITION_CLOSED" "event_exit_reason e = Some OPPOSITE_SIGNAL"
      "event_price e = executed_price POSITION_CLOSED (event_side e) (open_price c) (slippage_rate cfg)" for e
      using c s that unfolding executed_def by (intro disjI1 bexI [of _ c] bexI [of _ s]) simp_all
    ultimately obtain st1 where st1: "close_current run_id ds cfg (open_price c) (open_time c)
        (Some (signal_id s)) OPPOSITE_SIGNAL st = Inr st1"
      "run_state_of ds sigs cfg ?seen' st1" "current_position st1 = None"
      "opened_sides (run_events st1) = opened_sides (run_events st)"
      using close_current_runs [OF _ cfg price later, where sid = "Some (signal_id s)"
          and reason = OPPOSITE_SIGNAL and seen' = ?seen'] sid by fastforce
    obtain st2 where st2: "open_target run_id ds cfg allocation c s (side_of s) st1 = Inr st2"
      "run_state_of ds sigs cfg ?seen' st2" "map_option pos_side (current_position st2) = Some (side_of s)"
      "opened_sides (run_events st2) = opened_sides (run_events st1) @ [side_of s]"
      using open_target_runs [OF st1(2,3) cfg c price alloc refl s(1,2) sid, where seen' = ?seen'] by fastforce
    have "opened_sides (run_events st2) = remdups_adj (scheduled_sides ?m (pre @ [c]))"
      using inv False st1(4) st2(4) by (auto simp: sides remdups_adj_snoc run_inv_def split: if_splits)
    then have "run_inv ds sigs cfg ?m (pre @ [c]) st2" using st2 by (simp add: run_inv_def sides)
    moreover have "run_step run_id ds cfg allocation ?m st c = Inr st2"
      using False by (simp add: run_step_def Some side st1(1) st2(1) del: map_option_eq_Some)
    ultimately show ?thesis by blast
  qed
qed

text \<open>The engine runs through, and its events are a log of the scheduled signals.\<close>

lemma tradable_runs:
  assumes "strip run_id \<noteq> []" "valid_config cfg" "research_dataset ds" "constructed sigs"
    and ok: "list_all (signal_accepted ds) sigs" "one_per_time ds sigs"
  shows "\<exists>evs. run_backtest run_id ds sigs cfg = Inr evs \<and> event_log evs
    \<and> list_all (executed ds sigs cfg) evs
    \<and> opened_sides evs
      = remdups_adj (scheduled_sides (schedule_of (executable_signals ds sigs)) (candles ds))"
proof -
  let ?m = "schedule_of (executable_signals ds sigs)"
  let ?alloc = "dmul (starting_balance cfg) (allocation_fraction cfg)"
  have alloc: "0 < ?alloc"
    using assms(2) by (auto simp: dmul_def valid_config_def config_fields_def intro!: dc.rnd_positive)
  have "run_inv ds sigs cfg ?m [] initial_run"
    by (simp add: run_inv_def run_state_of_def initial_run_def numbered_def opened_sides_def
        scheduled_sides_def List.map_filter_def)
  then obtain st where st: "foldR (run_step run_id ds cfg ?alloc ?m) initial_run (candles ds) = Inr st"
    and inv: "run_inv ds sigs cfg ?m (candles ds) st"
    using foldR_prefix_inv [where I = "run_inv ds sigs cfg ?m" and xs = "candles ds"]
      run_step_inv [OF _ _ assms(2-4) alloc refl] by metis
  have sched: "validate_signals ds sigs = Inr ()" "schedule_signals ds sigs = Inr ?m"
    using ok validation scheduling by simp_all
  have finished: "event_log (run_events s) \<and> list_all (executed ds sigs cfg) (run_events s)"
    if "run_state_of ds sigs cfg seen s" "current_position s = None" for s seen
    using that by (auto simp: run_state_of_def event_log_def list_all_iff)
  show ?thesis
  proof (cases "current_position st")
    case None
    with inv finished [of _ st] st sched assms(1) show ?thesis by (auto simp: run_backtest_def run_inv_def Let_def)
  next
    case (Some p)
    let ?last = "last (candles ds)"
    have ne: "candles ds \<noteq> []" and last: "?last \<in> set (candles ds)"
      using assms(3) by (auto simp: research_dataset_def candle_series_def)
    then have price: "0 < close_price ?last" and time: "open_time ?last < close_time ?last"
      using candle_series_valid [of "candles ds" ?last] assms(3)
      by (auto simp: research_dataset_def valid_candle_iff)
    have later: "u < close_time ?last" if "u \<in> open_time ` set (candles ds)" for u
    proof -
      have "sorted_wrt (\<lambda>a b. open_time a < open_time b) (butlast (candles ds) @ [?last])"
        using assms(3) ne candle_series_opens by (simp add: research_dataset_def)
      moreover have "set (candles ds) = insert ?last (set (butlast (candles ds)))"
        using ne by (metis append_butlast_last_id list.simps(15) rotate1.simps(2) set_rotate1)
      ultimately show ?thesis using that time by (auto simp: sorted_wrt_append dest: less_trans)
    qed
    have "run_state_of ds sigs cfg (\<lambda>t. t \<in> open_time ` set (candles ds)) st"
      using inv by (simp add: run_inv_def)
    moreover have "executed ds sigs cfg e" if "event_time e = close_time ?last"
      "event_kind e = POSITION_CLOSED" "event_exit_reason e = Some END_OF_DATA"
      "event_price e = executed_price POSITION_CLOSED (event_side e) (close_price ?last) (slippage_rate cfg)" for e
      using that by (simp add: executed_def)
    ultimately obtain st1 where "close_current run_id ds cfg (close_price ?last) (close_time ?last) None
        END_OF_DATA st = Inr st1"
      "run_state_of ds sigs cfg (\<lambda>_. True) st1" "current_position st1 = None"
      "opened_sides (run_events st1) = opened_sides (run_events st)"
      using close_current_runs [OF _ assms(2) price later, where sid = None and reason = END_OF_DATA
          and seen' = "\<lambda>_. True"] by fastforce
    with Some inv st sched assms(1) ne finished [of _ st1] show ?thesis
      by (auto simp: run_backtest_def run_inv_def Let_def)
  qed
qed

lemma backtest_runs:
  assumes "strip run_id \<noteq> []" "valid_config cfg" "research_dataset ds" "signals_for ds sigs"
  shows "\<exists>evs. run_backtest run_id ds sigs cfg = Inr evs \<and> event_log evs
    \<and> list_all (executed ds sigs cfg) evs
    \<and> opened_sides evs
      = remdups_adj (scheduled_sides (schedule_of (executable_signals ds sigs)) (candles ds))"
  using tradable_runs [OF assms(1-3) signals_for_tradable [OF assms(4)]] .

context research_strategy
begin

text \<open>Whatever a strategy generates, the engine runs it.\<close>

lemma backtest_of_strategy:
  assumes "configured st" "research_dataset ds" "valid_config cfg" "strip run_id \<noteq> []"
  shows "\<exists>sigs evs. generate st ds = Inr sigs \<and> run_backtest run_id ds sigs cfg = Inr evs
    \<and> event_log evs \<and> list_all (executed ds sigs cfg) evs"
  using generate_sound [OF assms(1,2)] backtest_runs [OF assms(4,3,2)] by blast

end

lemma BacktestConfig_valid: "BacktestConfig b a f s = Inr cfg \<Longrightarrow> valid_config cfg"
  by (simp add: BacktestConfig_def Let_def check_fields_Inr_iff valid_config_def)

section \<open>Properties\<close>

definition sample_config :: backtest_config where
  "sample_config = \<lparr>starting_balance = 1000, allocation_fraction = 1 / 2, fee_rate = 1 / 1000,
     slippage_rate = 1 / 1000\<rparr>"

definition sample_signal :: "signal_direction \<Rightarrow> int \<Rightarrow> strategy_signal" where
  "sample_signal dir n =
     \<lparr>signal_id = ''signal-0123456789abcdef'', signal_strategy_name = ''s'', signal_strategy_version = ''1'',
      signal_dataset_id = ''dataset-1'', signal_pair = sample_pair, signal_timeframe = HOUR_1,
      candle_open_time = n * hour_us, candle_close_time = (n + 1) * hour_us,
      generated_at = (n + 1) * hour_us, direction = dir,
      signal_score = (if dir = SignalLong then 1 else - 1), signal_reason = ''r'', features = []\<rparr>"

lemma sample_config_valid: "valid_config sample_config"
  by (simp add: valid_config_def config_fields_def sample_config_def)

text \<open>
  C1: the backtest engine, on any list of signals that their model class accepted (any order, neutral ones,
  any number of them), returns exactly when the run has a name, every signal belongs to the dataset at one
  of its candles, and no two directional signals would execute at the same candle; otherwise it raises. When
  it returns, its events are a well-formed log (each a valid event, numbered 1, 2, ..., opens and closes
  alternating with matching pair, side and quantity, every close later than its open, nothing left open at
  the end of the data), each executed at the price and quantity its signal's next candle gives, and the
  positions opened are those of the directional signals, neutral ones and repetitions of a side left out.
\<close>

theorem engine_event_log:
  assumes "BacktestConfig balance allocation fee slippage = Inr cfg" "research_dataset ds" "constructed sigs"
  shows "(returns (run_backtest run_id ds sigs cfg) \<longleftrightarrow>
      strip run_id \<noteq> [] \<and> list_all (signal_accepted ds) sigs \<and> one_per_time ds sigs)
    \<and> (\<forall>evs. run_backtest run_id ds sigs cfg = Inr evs \<longrightarrow> event_log evs \<and> list_all (executed ds sigs cfg) evs
         \<and> opened_sides evs = remdups_adj (scheduled_sides (schedule_of (executable_signals ds sigs)) (candles ds)))"
proof -
  have "strip run_id \<noteq> [] \<and> list_all (signal_accepted ds) sigs \<and> one_per_time ds sigs"
    if "run_backtest run_id ds sigs cfg = Inr evs" for evs
    using that validation [of ds sigs] by (auto simp: run_backtest_def bindR_Inr_iff scheduling split: if_splits)
  then show ?thesis
    using tradable_runs [OF _ BacktestConfig_valid [OF assms(1)] assms(2,3)] by (fastforce simp: returns_iff)
qed

theorem engine_event_log_witness:
  "\<exists>evs. run_backtest ''run-1'' (sample_dataset [10, 9, 8, 12]) [sample_signal SignalShort 1, sample_signal SignalLong 0]
         sample_config = Inr evs
     \<and> event_log evs \<and> opened_sides evs = [SideLong, SideShort]
     \<and> \<not> returns (run_backtest ''run-1'' (sample_dataset [10, 9, 8, 12])
           [sample_signal SignalShort 1, sample_signal SignalLong 1] sample_config)"
proof -
  let ?ds = "sample_dataset [10, 9, 8, 12]" and ?ok = "[sample_signal SignalShort 1, sample_signal SignalLong 0]"
    and ?clash = "[sample_signal SignalShort 1, sample_signal SignalLong 1]"
  have ds: "research_dataset ?ds" by (simp add: research_dataset_def)
  have cfg: "BacktestConfig 1000 (1 / 2) (1 / 1000) (1 / 1000) = Inr sample_config"
    by (simp add: BacktestConfig_def check_fields_def config_fields_def sample_config_def)
  have id: "strip ''run-1'' \<noteq> []" by (simp add: strip_def is_space_def)
  have made: "constructed ?ok" "constructed ?clash"
    by (simp_all add: constructed_def StrategySignal_Inr_iff signal_fields_def sample_signal_def sized_def has_id_form_def
        is_lower_hex_def)
  have "list_all (signal_accepted ?ds) ?ok" by (simp add: signal_accepted_def sample_signal_def sample_candles)
  moreover have exec: "executable_signals ?ds ?ok = ?ok" "executable_signals ?ds ?clash = ?clash"
    by (simp_all add: executable_signals_def sample_signal_def sample_candles)
  then have "one_per_time ?ds ?ok" "\<not> one_per_time ?ds ?clash" by (simp_all add: one_per_time_def sample_signal_def)
  moreover have "scheduled_sides (schedule_of (executable_signals ?ds ?ok)) (candles ?ds) = [SideLong, SideShort]"
    unfolding exec by (simp add: scheduled_sides_def schedule_of_def sample_signal_def sample_candles side_of_def map_filter_simps)
  ultimately show ?thesis
    using engine_event_log [OF cfg ds made(1), of "''run-1''"] engine_event_log [OF cfg ds made(2), of "''run-1''"] id
    by (auto simp: returns_iff)
qed





end
