(* ===== verification/Performance.thy ===== *)
theory Performance imports Backtest
begin

text \<open>
  Realized performance (\<open>trd_bot/backtesting/performance.py\<close>): money quantized to eight decimals,
  closed trades paired from the event log, the equity curve and the report with its validator; and
  the buy-and-hold benchmark and the comparator (\<open>benchmarks.py\<close>).
\<close>

definition quantize_money :: "rat \<Rightarrow> rat result" where
  "quantize_money value = quantize round_half_even 8 value"

section \<open>Closed trades\<close>

record closed_trade =
  trade_number :: int
  trade_pair :: trading_pair
  trade_side :: position_side
  entry_time :: int
  exit_time :: int
  entry_price :: rat
  exit_price :: rat
  trade_quantity :: rat
  gross_pnl :: rat
  fees :: rat
  net_pnl :: rat
  trade_exit_reason :: exit_reason

definition trade_fields :: "closed_trade \<Rightarrow> (string \<times> bool) list" where
  "trade_fields t =
     [(''trade_number'', 1 \<le> trade_number t), (''entry_price'', 0 < entry_price t),
      (''exit_price'', 0 < exit_price t), (''quantity'', 0 < trade_quantity t), (''fees'', 0 \<le> fees t)]"

definition validate_trade :: "closed_trade \<Rightarrow> closed_trade result" where
  "validate_trade t = raising
     [(exit_time t \<le> entry_time t, ValueError ''trade exit time must be after entry time''),
      (net_pnl t \<noteq> dsub (gross_pnl t) (fees t),
         ValueError ''trade net PnL must equal gross PnL minus fees'')] t"

definition ClosedBacktestTrade :: "closed_trade \<Rightarrow> closed_trade result" where
  "ClosedBacktestTrade t = bindR (check_fields (trade_fields t) t) validate_trade"

definition build_trade ::
  "int \<Rightarrow> backtest_event \<Rightarrow> backtest_event \<Rightarrow> rat \<Rightarrow> closed_trade result" where
  "build_trade number opened cl rate =
     bindR (raising
       [(event_kind cl \<noteq> POSITION_CLOSED, ValueError ''expected a position-closed event''),
        (event_pair opened \<noteq> event_pair cl, ValueError ''trade events must use the same pair''),
        (event_side opened \<noteq> event_side cl, ValueError ''trade events must use the same position side''),
        (event_quantity opened \<noteq> event_quantity cl, ValueError ''trade events must use the same quantity''),
        (event_exit_reason cl = None, ValueError ''closed trade requires an exit reason'')] ())
      (\<lambda>_.
        let raw_gross_pnl =
              (if event_side opened = SideLong
               then dmul (dsub (event_price cl) (event_price opened)) (event_quantity opened)
               else dmul (dsub (event_price opened) (event_price cl)) (event_quantity opened));
            raw_entry_fee = dmul (dmul (event_price opened) (event_quantity opened)) rate;
            raw_exit_fee = dmul (dmul (event_price cl) (event_quantity cl)) rate
        in bindR (quantize_money raw_gross_pnl)
          (\<lambda>gross. bindR (quantize_money (dadd raw_entry_fee raw_exit_fee))
            (\<lambda>fee. bindR (quantize_money (dsub gross fee))
              (\<lambda>net. ClosedBacktestTrade
                 \<lparr>trade_number = number, trade_pair = event_pair opened, trade_side = event_side opened,
                  entry_time = event_time opened, exit_time = event_time cl,
                  entry_price = event_price opened, exit_price = event_price cl,
                  trade_quantity = event_quantity opened, gross_pnl = gross, fees = fee, net_pnl = net,
                  trade_exit_reason = the (event_exit_reason cl)\<rparr>))))"

section \<open>Equity curve\<close>

record equity_point =
  point_number :: int
  point_time :: int
  point_balance :: rat
  point_peak :: rat
  point_drawdown :: rat
  point_drawdown_fraction :: rat

definition point_fields :: "equity_point \<Rightarrow> (string \<times> bool) list" where
  "point_fields p =
     [(''trade_number'', 1 \<le> point_number p), (''peak_balance'', 0 < point_peak p),
      (''drawdown'', 0 \<le> point_drawdown p), (''drawdown_fraction'', 0 \<le> point_drawdown_fraction p)]"

text \<open>The peak balance is positive by its field constraint, so the division does not trap.\<close>

definition validate_point :: "equity_point \<Rightarrow> equity_point result" where
  "validate_point p = raising
     [(point_drawdown p \<noteq> dsub (point_peak p) (point_balance p),
         ValueError ''drawdown must equal peak balance minus current balance''),
      (point_drawdown_fraction p \<noteq> dquot (point_drawdown p) (point_peak p),
         ValueError ''drawdown fraction is inconsistent with drawdown'')] p"

definition EquityPoint :: "equity_point \<Rightarrow> equity_point result" where
  "EquityPoint p = bindR (check_fields (point_fields p) p) validate_point"

fun equity_loop :: "rat \<Rightarrow> rat \<Rightarrow> closed_trade list \<Rightarrow> equity_point list result" where
  "equity_loop balance peak [] = Inr []"
| "equity_loop balance peak (t # ts) =
     (let balance' = dadd balance (net_pnl t);
          peak' = max peak balance';
          drawdown = dsub peak' balance'
      in bindR (ddiv drawdown peak')
        (\<lambda>fraction. bindR (EquityPoint
             \<lparr>point_number = trade_number t, point_time = exit_time t, point_balance = balance',
              point_peak = peak', point_drawdown = drawdown, point_drawdown_fraction = fraction\<rparr>)
          (\<lambda>p. bindR (equity_loop balance' peak' ts) (\<lambda>ps. Inr (p # ps)))))"

definition build_equity_curve :: "closed_trade list \<Rightarrow> rat \<Rightarrow> equity_point list result" where
  "build_equity_curve ts balance = equity_loop balance balance ts"

section \<open>The report\<close>

record performance_report =
  report_run_id :: string
  report_dataset_id :: string
  report_starting_balance :: rat
  ending_balance :: rat
  report_gross_pnl :: rat
  total_fees :: rat
  report_net_pnl :: rat
  total_return :: rat
  gross_profit :: rat
  gross_loss :: rat
  profit_factor :: "rat option"
  peak_balance :: rat
  max_drawdown :: rat
  max_drawdown_fraction :: rat
  total_trades :: int
  winning_trades :: int
  losing_trades :: int
  flat_trades :: int
  win_rate :: "rat option"
  trades :: "closed_trade list"
  equity_curve :: "equity_point list"

text \<open>\<open>max(values, default=d)\<close>.\<close>

fun max_default :: "rat \<Rightarrow> rat list \<Rightarrow> rat" where
  "max_default d [] = d"
| "max_default d (x # xs) = foldl max x xs"

definition report_fields :: "performance_report \<Rightarrow> (string \<times> bool) list" where
  "report_fields r =
     [(''run_id'', sized 1 200 (report_run_id r)), (''dataset_id'', 1 \<le> length (report_dataset_id r)),
      (''starting_balance'', 0 < report_starting_balance r), (''total_fees'', 0 \<le> total_fees r),
      (''gross_profit'', 0 \<le> gross_profit r), (''gross_loss'', 0 \<le> gross_loss r),
      (''profit_factor'', case profit_factor r of None \<Rightarrow> True | Some x \<Rightarrow> 0 \<le> x),
      (''peak_balance'', 0 < peak_balance r), (''max_drawdown'', 0 \<le> max_drawdown r),
      (''max_drawdown_fraction'', 0 \<le> max_drawdown_fraction r),
      (''total_trades'', 0 \<le> total_trades r), (''winning_trades'', 0 \<le> winning_trades r),
      (''losing_trades'', 0 \<le> losing_trades r), (''flat_trades'', 0 \<le> flat_trades r),
      (''win_rate'', case win_rate r of None \<Rightarrow> True | Some x \<Rightarrow> 0 \<le> x \<and> x \<le> 1)]"

definition validate_report :: "performance_report \<Rightarrow> performance_report result" where
  "validate_report r = raising
     [(total_trades r \<noteq> int (length (trades r)),
         ValueError ''total trades must match the trade collection''),
      (total_trades r \<noteq> int (length (equity_curve r)),
         ValueError ''total trades must match the equity curve''),
      (winning_trades r + losing_trades r + flat_trades r \<noteq> total_trades r,
         ValueError ''trade outcome counts must equal total trades''),
      (ending_balance r \<noteq> dadd (report_starting_balance r) (report_net_pnl r),
         ValueError ''ending balance must equal starting balance plus net PnL''),
      (report_net_pnl r \<noteq> dsub (report_gross_pnl r) (total_fees r),
         ValueError ''net PnL must equal gross PnL minus fees''),
      (report_net_pnl r \<noteq> dsub (gross_profit r) (gross_loss r),
         ValueError ''net PnL must equal gross profit minus gross loss''),
      (total_return r \<noteq> dquot (report_net_pnl r) (report_starting_balance r),
         ValueError ''total return must equal net PnL divided by starting balance''),
      (profit_factor r \<noteq> (if gross_loss r > 0 then Some (dquot (gross_profit r) (gross_loss r)) else None),
         ValueError ''profit factor is inconsistent with profit and loss''),
      (peak_balance r \<noteq> max_default (report_starting_balance r) (map point_peak (equity_curve r)),
         ValueError ''peak balance is inconsistent with the equity curve''),
      (max_drawdown r \<noteq> max_default 0 (map point_drawdown (equity_curve r)),
         ValueError ''maximum drawdown is inconsistent with the equity curve''),
      (max_drawdown_fraction r \<noteq> max_default 0 (map point_drawdown_fraction (equity_curve r)),
         ValueError ''maximum drawdown fraction is inconsistent with the equity curve''),
      (list_ex (\<lambda>(n, p). point_number p \<noteq> n) (enumerate_from 1 (equity_curve r)),
         ValueError ''equity curve trade numbers must be continuous''),
      (equity_curve r \<noteq> [] \<and> point_balance (last (equity_curve r)) \<noteq> ending_balance r,
         ValueError ''final equity point must match ending balance''),
      (total_trades r = 0 \<and> win_rate r \<noteq> None,
         ValueError ''an empty report cannot have a win rate''),
      (total_trades r > 0 \<and> win_rate r \<noteq> Some (dquot (of_int (winning_trades r)) (of_int (total_trades r))),
         ValueError ''win rate is inconsistent with trade outcomes'')] r"

definition BacktestPerformanceReport :: "performance_report \<Rightarrow> performance_report result" where
  "BacktestPerformanceReport r = bindR (check_fields (report_fields r) r) validate_report"

section \<open>The analyzer\<close>

definition validate_sequence :: "backtest_event list \<Rightarrow> unit result" where
  "validate_sequence es =
     foldR (\<lambda>_ (n, e). raising
         [(sequence_number e \<noteq> n,
             ValueError ''backtest event sequence must be continuous and ordered'')] ())
       () (enumerate_from 1 es)"

text \<open>The loop's state: the trades so far and the event of the position that is open.\<close>

fun pair_step ::
  "rat \<Rightarrow> closed_trade list \<times> backtest_event option \<Rightarrow> backtest_event
   \<Rightarrow> (closed_trade list \<times> backtest_event option) result" where
  "pair_step rate (ts, opened) e =
     (if event_kind e = POSITION_OPENED then
        (if opened \<noteq> None
         then Inl (ValueError ''cannot open a position while another position is open'')
         else Inr (ts, Some e))
      else case opened of
          None \<Rightarrow> Inl (ValueError ''cannot close a position before it is opened'')
        | Some opened_event \<Rightarrow>
            bindR (build_trade (int (length ts) + 1) opened_event e rate)
              (\<lambda>t. Inr (ts @ [t], None)))"

definition build_trades :: "backtest_event list \<Rightarrow> rat \<Rightarrow> closed_trade list result" where
  "build_trades es rate =
     bindR (foldR (pair_step rate) ([], None) es)
       (\<lambda>(ts, opened). if opened \<noteq> None
          then Inl (ValueError ''backtest events contain an unclosed position'') else Inr ts)"

definition analyze ::
  "string \<Rightarrow> string \<Rightarrow> backtest_event list \<Rightarrow> backtest_config \<Rightarrow> performance_report result" where
  "analyze run_id ds_id es cfg =
     (if strip run_id = [] then Inl (ValueError ''run ID cannot be empty'')
      else if strip ds_id = [] then Inl (ValueError ''dataset ID cannot be empty'')
      else bindR (validate_sequence es) (\<lambda>_. bindR (build_trades es (fee_rate cfg)) (\<lambda>ts.
        let gross = dsum (map gross_pnl ts);
            fee = dsum (map fees ts);
            net = dsum (map net_pnl ts);
            profit = dsum (map net_pnl (filter (\<lambda>t. net_pnl t > 0) ts));
            loss = dsum (map (\<lambda>t. dneg (net_pnl t)) (filter (\<lambda>t. net_pnl t < 0) ts));
            won = length (filter (\<lambda>t. net_pnl t > 0) ts);
            lost = length (filter (\<lambda>t. net_pnl t < 0) ts);
            flat = length (filter (\<lambda>t. net_pnl t = 0) ts)
        in bindR (build_equity_curve ts (starting_balance cfg)) (\<lambda>curve.
           bindR (ddiv net (starting_balance cfg)) (\<lambda>ret.
             BacktestPerformanceReport
              \<lparr>report_run_id = run_id, report_dataset_id = ds_id,
               report_starting_balance = starting_balance cfg,
               ending_balance = dadd (starting_balance cfg) net,
               report_gross_pnl = gross, total_fees = fee, report_net_pnl = net, total_return = ret,
               gross_profit = profit, gross_loss = loss,
               profit_factor = (if loss > 0 then Some (dquot profit loss) else None),
               peak_balance = max_default (starting_balance cfg) (map point_peak curve),
               max_drawdown = max_default 0 (map point_drawdown curve),
               max_drawdown_fraction = max_default 0 (map point_drawdown_fraction curve),
               total_trades = int (length ts), winning_trades = int won, losing_trades = int lost,
               flat_trades = int flat,
               win_rate = (if ts = [] then None
                           else Some (dquot (of_nat won) (of_nat (length ts)))),
               trades = ts, equity_curve = curve\<rparr>)))))"

section \<open>Trades of a log\<close>

text \<open>Money amounts as the analyzer records them: eight decimals, bounded by the traded value.\<close>

definition money_trade :: "rat \<Rightarrow> closed_trade \<Rightarrow> bool" where
  "money_trade v t \<longleftrightarrow> ClosedBacktestTrade t = Inr t \<and> on_grid 8 (gross_pnl t) \<and> on_grid 8 (fees t)
     \<and> net_pnl t = gross_pnl t - fees t \<and> \<bar>gross_pnl t\<bar> \<le> 2 * v + 1 \<and> fees t \<le> 3 * v + 1"

text \<open>Every event trades a value of at most \<open>v\<close>.\<close>

definition traded_value :: "rat \<Rightarrow> backtest_event \<Rightarrow> bool" where
  "traded_value v e \<longleftrightarrow> event_price e * event_quantity e \<le> v"

lemma pnl_bound:
  assumes "0 < p" "0 < q" "0 < n" "p * n \<le> v" "q * n \<le> v"
  shows "\<bar>dmul (dsub p q) n\<bar> \<le> 2 * v"
proof -
  have "\<bar>dmul (dsub p q) n\<bar> \<le> \<bar>dsub p q * n\<bar> * (1001 / 1000)"
    unfolding dmul_def by (rule dround_abs_le)
  also have "\<dots> = \<bar>dsub p q\<bar> * n * (1001 / 1000)" using assms(3) by (simp add: abs_mult)
  also have "\<dots> \<le> \<bar>p - q\<bar> * (1001 / 1000) * n * (1001 / 1000)"
    unfolding dsub_def using assms(3) by (intro mult_right_mono dround_abs_le) auto
  also have "\<dots> = \<bar>p * n - q * n\<bar> * (1002001 / 1000000)"
    using assms(3) by (simp add: abs_mult left_diff_distrib [symmetric])
  also have "\<dots> \<le> 2 * v"
  proof -
    have "0 < p * n" "0 < q * n" using assms by simp_all
    with assms(4,5) have "\<bar>p * n - q * n\<bar> \<le> v" "0 \<le> v" by linarith+
    moreover have "a * (1002001 / 1000000) \<le> 2 * v" if "a \<le> v" "0 \<le> v" for a using that by linarith
    ultimately show ?thesis by blast
  qed
  finally show ?thesis .
qed

lemma fee_bound:
  assumes "0 < p" "0 < n" "p * n \<le> v" "0 \<le> r" "r < 1"
  shows "0 \<le> dmul (dmul p n) r \<and> dmul (dmul p n) r \<le> v * (1003 / 1000)"
proof
  show nonneg: "0 \<le> dmul (dmul p n) r"
    unfolding dmul_def using assms by (intro dc.rnd_nonneg mult_nonneg_nonneg) auto
  have pn: "0 \<le> dmul p n" unfolding dmul_def using assms by (intro dc.rnd_nonneg) simp
  have "\<bar>dmul (dmul p n) r\<bar> \<le> \<bar>dmul p n * r\<bar> * (1001 / 1000)"
    unfolding dmul_def [of "dmul p n" r] by (rule dround_abs_le)
  also have "\<bar>dmul p n * r\<bar> \<le> dmul p n" using pn assms mult_left_le [of r "dmul p n"] by simp
  then have "\<bar>dmul p n * r\<bar> * (1001 / 1000) \<le> dmul p n * (1001 / 1000)" by simp
  also have "dmul p n \<le> p * n * (1001 / 1000)" using dround_abs_le [of "p * n"] pn assms by (simp add: dmul_def)
  then have "dmul p n * (1001 / 1000) \<le> p * n * (1001 / 1000) * (1001 / 1000)" by (rule mult_right_mono) simp
  also have "\<dots> \<le> v * (1003 / 1000)"
  proof -
    have "0 < p * n" using assms by simp
    with assms(3) show ?thesis by linarith
  qed
  finally show "dmul (dmul p n) r \<le> v * (1003 / 1000)" using nonneg by simp
qed

lemma quantize_money_runs:
  assumes "\<bar>x\<bar> \<le> 10 ^ 19" obtains y where "quantize_money x = Inr y" "on_grid 8 y" "\<bar>y - x\<bar> \<le> 1"
    "0 \<le> x \<Longrightarrow> 0 \<le> y"
proof -
  have "\<bar>x\<bar> * 10 ^ 8 \<le> 10 ^ 19 * 10 ^ 8" using assms by (rule mult_right_mono) simp
  then have "\<bar>x\<bar> * 10 ^ 8 \<le> 10 ^ 28 - 2" by simp
  then obtain y where y: "quantize round_half_even 8 x = Inr y" by (rule half_even.quantize_returns)
  have "\<bar>y - x\<bar> \<le> 1" using half_even.quantize_near [OF y] by simp
  then show ?thesis
    using that y half_even.quantize_result(1) [OF y] half_even.quantize_nonneg [OF y]
    by (simp add: quantize_money_def)
qed

lemma quantize_money_fixed: "on_grid 8 x \<Longrightarrow> \<bar>x\<bar> \<le> 10 ^ 19 \<Longrightarrow> quantize_money x = Inr x"
  unfolding quantize_money_def by (rule half_even.quantize_grid) simp_all

lemma dround_money: "on_grid 8 x \<Longrightarrow> \<bar>x\<bar> \<le> 10 ^ 20 \<Longrightarrow> dround x = x"
  by (rule dround_grid [of 8]) simp_all


text \<open>One trade: the quantized amounts are exact afterwards.\<close>

lemma build_trade_runs:
  assumes opened: "BacktestEvent opened = Inr opened" "event_kind opened = POSITION_OPENED"
    and cl: "BacktestEvent cl = Inr cl" "closes opened cl"
    and rate: "0 \<le> rate" "rate < 1" and v: "traded_value v opened" "traded_value v cl" "6 * v + 2 \<le> 10 ^ 19"
    and number: "1 \<le> number"
  shows "\<exists>t. build_trade number opened cl rate = Inr t \<and> money_trade v t \<and> trade_number t = number
    \<and> entry_time t = event_time opened \<and> exit_time t = event_time cl"
proof -
  let ?p = "event_price opened" and ?q = "event_price cl" and ?n = "event_quantity opened"
  have pos: "0 < ?p" "0 < ?q" "0 < ?n" and n: "event_quantity cl = ?n"
    and kind: "event_kind cl = POSITION_CLOSED" and same: "event_pair cl = event_pair opened"
      "event_side cl = event_side opened" "event_time opened < event_time cl"
    using opened cl by (auto simp: BacktestEvent_Inr_iff event_fields_def closes_def)
  obtain reason where reason: "event_exit_reason cl = Some reason"
    using cl(1) kind by (auto simp: BacktestEvent_Inr_iff)
  have val: "?p * ?n \<le> v" "?q * ?n \<le> v" using v n by (simp_all add: traded_value_def)
  then have v0: "0 < v" using pos mult_pos_pos [of ?p ?n] by linarith
  define raw where "raw = (if event_side opened = SideLong then dmul (dsub ?q ?p) ?n else dmul (dsub ?p ?q) ?n)"
  have raw: "\<bar>raw\<bar> \<le> 2 * v" using pnl_bound pos val by (simp add: raw_def)
  have "\<bar>raw\<bar> \<le> 10 ^ 19" using raw v(3) v0 by linarith
  then obtain g where g: "quantize_money raw = Inr g" "on_grid 8 g" "\<bar>g - raw\<bar> \<le> 1"
    by (rule quantize_money_runs)
  let ?f1 = "dmul (dmul ?p ?n) rate" and ?f2 = "dmul (dmul ?q ?n) rate"
  have f12: "0 \<le> ?f1" "?f1 \<le> v * (1003 / 1000)" "0 \<le> ?f2" "?f2 \<le> v * (1003 / 1000)"
    using fee_bound [OF pos(1,3) val(1) rate] fee_bound [OF pos(2,3) val(2) rate] by auto
  have f0: "0 \<le> dadd ?f1 ?f2" unfolding dadd_def using f12 by (intro dc.rnd_nonneg) simp
  have "dadd ?f1 ?f2 \<le> (?f1 + ?f2) * (1001 / 1000)"
    using dround_abs_le [of "?f1 + ?f2"] f12 f0 by (simp add: dadd_def)
  moreover have "x \<le> 3 * v"
    if "x \<le> (a + b) * (1001 / 1000)" "a \<le> v * (1003 / 1000)" "b \<le> v * (1003 / 1000)" for a b x
    using that v0 by (simp add: field_simps)
  ultimately have f3: "dadd ?f1 ?f2 \<le> 3 * v" using f12 by blast
  then have "\<bar>dadd ?f1 ?f2\<bar> \<le> 10 ^ 19" using f0 v(3) v0 by linarith
  then obtain f where f: "quantize_money (dadd ?f1 ?f2) = Inr f" "on_grid 8 f" "\<bar>f - dadd ?f1 ?f2\<bar> \<le> 1" "0 \<le> f"
    using f0 by (metis quantize_money_runs)
  have bounds: "\<bar>g\<bar> \<le> 2 * v + 1" "f \<le> 3 * v + 1" using g(3) raw f(3) f3 by linarith+
  then have gf: "\<bar>g - f\<bar> \<le> 10 ^ 19" using f(4) v(3) v0 by linarith
  have grid: "on_grid 8 (g - f)" using g(2) f(2) by auto
  have exact: "dsub g f = g - f" unfolding dsub_def by (rule dround_money [OF grid]) (use gf in simp)
  let ?t = "\<lparr>trade_number = number, trade_pair = event_pair opened, trade_side = event_side opened,
    entry_time = event_time opened, exit_time = event_time cl, entry_price = ?p, exit_price = ?q,
    trade_quantity = ?n, gross_pnl = g, fees = f, net_pnl = g - f, trade_exit_reason = reason\<rparr>"
  have t: "ClosedBacktestTrade ?t = Inr ?t"
    using number pos f(4) same exact
    by (simp add: ClosedBacktestTrade_def check_fields_pass trade_fields_def validate_trade_def raising_Inr_iff)
  have guards: "raising
       [(event_kind cl \<noteq> POSITION_CLOSED, ValueError ''expected a position-closed event''),
        (event_pair opened \<noteq> event_pair cl, ValueError ''trade events must use the same pair''),
        (event_side opened \<noteq> event_side cl, ValueError ''trade events must use the same position side''),
        (event_quantity opened \<noteq> event_quantity cl, ValueError ''trade events must use the same quantity''),
        (event_exit_reason cl = None, ValueError ''closed trade requires an exit reason'')] () = Inr ()"
    using kind same n reason by (simp add: raising_Inr_iff)
  have "build_trade number opened cl rate = Inr ?t"
    using g(1) f(1) t quantize_money_fixed [OF grid gf]
    unfolding build_trade_def guards by (simp add: n reason exact raw_def [symmetric])
  moreover have "money_trade v ?t" using t g(2) f(2) bounds by (simp add: money_trade_def)
  ultimately show ?thesis by (intro exI [of _ ?t]) simp
qed


lemma pair_events:
  assumes "replay opened es = Some None" and "list_all (\<lambda>e. BacktestEvent e = Inr e \<and> traded_value v e) es"
    and "\<And>o1. opened = Some o1 \<Longrightarrow>
        BacktestEvent o1 = Inr o1 \<and> event_kind o1 = POSITION_OPENED \<and> traded_value v o1"
    and rate: "0 \<le> rate" "rate < 1" and v: "6 * v + 2 \<le> 10 ^ 19"
  shows "\<exists>us. foldR (pair_step rate) (ts, opened) es = Inr (ts @ us, None) \<and> list_all (money_trade v) us
    \<and> map trade_number us = map fst (enumerate_from (int (length ts) + 1) us)
    \<and> 2 * length us = length es + (if opened = None then 0 else 1)"
  using assms(1-3)
proof (induction opened es arbitrary: ts rule: replay.induct)
  case (2 e es)
  then have e: "event_kind e = POSITION_OPENED" by (auto split: if_splits)
  then have "\<exists>us. foldR (pair_step rate) (ts, Some e) es = Inr (ts @ us, None) \<and> list_all (money_trade v) us
      \<and> map trade_number us = map fst (enumerate_from (int (length ts) + 1) us)
      \<and> 2 * length us = length es + 1"
    using 2 by auto
  then show ?case using e by auto
next
  case (3 opened e es)
  then have e: "closes opened e" "replay None es = Some None" by (auto split: if_splits)
  then have kind: "event_kind e = POSITION_CLOSED" by (simp add: closes_def)
  obtain t where t: "build_trade (int (length ts) + 1) opened e rate = Inr t" "money_trade v t"
      "trade_number t = int (length ts) + 1"
    using build_trade_runs [OF _ _ _ e(1) rate _ _ v, of "int (length ts) + 1"] 3 by auto
  have "\<exists>us. foldR (pair_step rate) (ts @ [t], None) es = Inr ((ts @ [t]) @ us, None)
      \<and> list_all (money_trade v) us
      \<and> map trade_number us = map fst (enumerate_from (int (length (ts @ [t])) + 1) us)
      \<and> 2 * length us = length es"
    using "3.IH" [OF e, of "ts @ [t]"] "3.prems"(2) by simp
  then obtain us where us: "foldR (pair_step rate) (ts @ [t], None) es = Inr ((ts @ [t]) @ us, None)"
      "list_all (money_trade v) us" "2 * length us = length es"
      "map trade_number us = map fst (enumerate_from (int (length (ts @ [t])) + 1) us)" by blast
  have "map trade_number (t # us) = map fst (enumerate_from (int (length ts) + 1) (t # us))"
    using us(4) t(3) by (simp add: add.commute add.left_commute)
  moreover have "foldR (pair_step rate) (ts, Some opened) (e # es) = Inr (ts @ t # us, None)"
    using kind t(1) us(1) by simp
  ultimately show ?case using us(2,3) t(2) by (intro exI [of _ "t # us"]) simp
qed simp

section \<open>The equity curve as it should be\<close>

fun running_balances :: "rat \<Rightarrow> rat list \<Rightarrow> rat list" where
  "running_balances b [] = []"
| "running_balances b (x # xs) = (b + x) # running_balances (b + x) xs"

fun running_peaks :: "rat \<Rightarrow> rat list \<Rightarrow> rat list" where
  "running_peaks p [] = []"
| "running_peaks p (b # bs) = max p b # running_peaks (max p b) bs"

lemma length_running [simp]:
  "length (running_balances b xs) = length xs" "length (running_peaks p xs) = length xs"
  by (induction xs arbitrary: b p) auto

lemma running_balances_last: "xs \<noteq> [] \<Longrightarrow> last (running_balances b xs) = b + sum_list xs"
proof (induction xs arbitrary: b)
  case (Cons x xs)
  then show ?case
    using length_running(1) [of "b + x" xs] by (cases "xs = []") (auto simp: add.assoc simp del: length_running)
qed simp

lemma running_peaks_nth:
  "j < length bs \<Longrightarrow> running_peaks p bs ! j = Max (insert p (set (take (Suc j) bs)))"
proof (induction bs arbitrary: p j)
  case (Cons b bs)
  show ?case
  proof (cases j)
    case (Suc i)
    then have "running_peaks p (b # bs) ! j = Max (insert (max p b) (set (take (Suc i) bs)))"
      using Cons by simp
    also have "\<dots> = Max (insert p (insert b (set (take (Suc i) bs))))"
    proof (cases "take (Suc i) bs = []")
      case False
      then show ?thesis by (simp add: Max_insert max.assoc)
    qed simp
    finally show ?thesis using Suc by simp
  qed simp
qed simp

definition drops :: "rat list \<Rightarrow> rat set" where
  "drops xs = {xs ! i - xs ! j | i j. i \<le> j \<and> j < length xs}"

lemma foldl_max: "foldl max x xs = Max (insert x (set (xs :: rat list)))"
proof (induction xs arbitrary: x)
  case (Cons y ys)
  then show ?case by (cases "ys = []") (simp_all add: Max_insert max.assoc)
qed simp

lemma max_default_bound: "x \<in> set xs \<Longrightarrow> x \<le> max_default d xs"
  by (cases xs) (auto simp: foldl_max)

lemma max_default_cases: "max_default d xs \<in> set xs \<or> xs = [] \<and> max_default d xs = d"
proof (cases xs)
  case (Cons x ys)
  have "Max (insert x (set ys)) \<in> insert x (set ys)" by (rule Max_in) simp_all
  with Cons show ?thesis by (simp add: foldl_max)
qed simp

text \<open>The largest of the peak-to-balance gaps is the largest drop from an earlier balance.\<close>

lemma largest_gap:
  defines "gaps s bs \<equiv> map2 (-) (running_peaks s bs) bs"
  shows "max_default 0 (gaps s bs) \<in> drops (s # bs)" "d \<in> drops (s # bs) \<Longrightarrow> d \<le> max_default 0 (gaps s bs)"
proof -
  have gap: "gaps s bs ! j = Max (insert s (set (take (Suc j) bs))) - bs ! j" if "j < length bs" for j
    using that by (simp add: gaps_def running_peaks_nth)
  have prefix_set: "insert s (set (take (Suc j) bs)) = (!) (s # bs) ` {..Suc j}" if "j < length bs" for j
  proof -
    have "set (take (Suc (Suc j)) (s # bs)) = (!) (s # bs) ` {..<Suc (Suc j)}"
      using nth_image [of "Suc (Suc j)" "s # bs"] that by (simp add: atLeast0LessThan)
    then show ?thesis by (simp add: lessThan_Suc_atMost)
  qed
  show "max_default 0 (gaps s bs) \<in> drops (s # bs)"
  proof (cases "bs = []")
    case True
    then show ?thesis by (force simp: gaps_def drops_def)
  next
    case False
    then have "max_default 0 (gaps s bs) \<in> set (gaps s bs)"
      using max_default_cases [of 0 "gaps s bs"] by (cases bs) (auto simp: gaps_def)
    then obtain j where j: "j < length bs" "max_default 0 (gaps s bs) = gaps s bs ! j"
      by (auto simp: in_set_conv_nth gaps_def)
    have "Max (insert s (set (take (Suc j) bs))) \<in> (!) (s # bs) ` {..Suc j}"
      unfolding prefix_set [OF j(1)] by (rule Max_in) simp_all
    then obtain i where "Max (insert s (set (take (Suc j) bs))) = (s # bs) ! i" "i \<in> {..Suc j}"
      by (rule imageE)
    with j gap [OF j(1)] show ?thesis by (force simp: drops_def)
  qed
  show "d \<le> max_default 0 (gaps s bs)" if drop: "d \<in> drops (s # bs)"
  proof -
    obtain i j where ij: "d = (s # bs) ! i - (s # bs) ! j" "i \<le> j" "j < length (s # bs)"
      using drop by (auto simp: drops_def)
    show ?thesis
    proof (cases j)
      case 0
      have "0 \<le> max_default 0 (gaps s bs)"
      proof (cases bs)
        case (Cons b cs)
        have "max s b - b \<le> max_default 0 (gaps s bs)"
          by (rule max_default_bound) (simp add: gaps_def Cons)
        then show ?thesis using max.cobounded2 [of b s] by linarith
      qed (simp add: gaps_def)
      with 0 ij show ?thesis by simp
    next
      case (Suc k)
      with ij have k: "k < length bs" by simp
      have "(s # bs) ! i \<le> Max (insert s (set (take (Suc k) bs)))"
        unfolding prefix_set [OF k] using ij(2) Suc by (intro Max_ge) auto
      then have "d \<le> gaps s bs ! k" using ij(1) Suc gap [OF k] by simp
      also have "\<dots> \<le> max_default 0 (gaps s bs)"
        using k by (intro max_default_bound nth_mem) (simp add: gaps_def)
      finally show ?thesis .
    qed
  qed
qed


text \<open>Amounts on the money grid whose running totals stay within \<open>m\<close>.\<close>

lemma equity_loop_exact:
  assumes "\<forall>t \<in> set ts. on_grid 8 (net_pnl t) \<and> 1 \<le> trade_number t"
    and "on_grid 8 b" "on_grid 8 p" "0 < p" "p \<le> m"
    and "\<bar>b\<bar> + sum_list (map (\<lambda>t. \<bar>net_pnl t\<bar>) ts) \<le> m" "2 * m \<le> 10 ^ 20"
  shows "\<exists>ps. equity_loop b p ts = Inr ps \<and> list_all (\<lambda>x. EquityPoint x = Inr x) ps
    \<and> map point_balance ps = running_balances b (map net_pnl ts)
    \<and> map point_peak ps = running_peaks p (running_balances b (map net_pnl ts))
    \<and> map point_drawdown ps = map2 (-) (map point_peak ps) (map point_balance ps)
    \<and> map point_number ps = map trade_number ts"
  using assms
proof (induction ts arbitrary: b p)
  case (Cons t ts)
  let ?b = "b + net_pnl t" and ?p = "max p (b + net_pnl t)"
  have sums: "0 \<le> sum_list (map (\<lambda>t. \<bar>net_pnl t\<bar>) ts)" by (rule sum_list_nonneg) auto
  have grid: "on_grid 8 ?b" using Cons.prems by auto
  then have grids: "on_grid 8 ?p" "on_grid 8 (?p - ?b)"
    using Cons.prems(3) by (auto simp: max_def)
  have le: "\<bar>?b\<bar> + sum_list (map (\<lambda>t. \<bar>net_pnl t\<bar>) ts) \<le> m"
    using Cons.prems(6) abs_triangle_ineq [of b "net_pnl t"] by simp
  then have b: "\<bar>?b\<bar> \<le> m" using sums by linarith
  then have p: "0 < ?p" "?p \<le> m" using Cons.prems(4,5) by auto
  have dd: "0 \<le> ?p - ?b" "\<bar>?p - ?b\<bar> \<le> 10 ^ 20" using b p Cons.prems(7) by linarith+
  have bal: "dadd b (net_pnl t) = ?b"
    unfolding dadd_def using b Cons.prems(7) by (intro dround_money grid) linarith
  have draw: "dsub ?p ?b = ?p - ?b" unfolding dsub_def by (rule dround_money [OF grids(2) dd(2)])
  let ?x = "\<lparr>point_number = trade_number t, point_time = exit_time t, point_balance = ?b, point_peak = ?p,
    point_drawdown = ?p - ?b, point_drawdown_fraction = dquot (?p - ?b) ?p\<rparr>"
  have "0 \<le> dquot (?p - ?b) ?p" unfolding dquot_def using dd p by (intro dc.rnd_nonneg) simp
  then have x: "EquityPoint ?x = Inr ?x"
    using Cons.prems(1) p dd draw
    by (simp add: EquityPoint_def check_fields_pass point_fields_def validate_point_def raising_Inr_iff)
  obtain ps where ps: "equity_loop ?b ?p ts = Inr ps" "list_all (\<lambda>x. EquityPoint x = Inr x) ps"
      "map point_balance ps = running_balances ?b (map net_pnl ts)"
      "map point_peak ps = running_peaks ?p (running_balances ?b (map net_pnl ts))"
      "map point_drawdown ps = map2 (-) (map point_peak ps) (map point_balance ps)"
      "map point_number ps = map trade_number ts"
    using Cons.IH [of ?b ?p] Cons.prems(1,7) grid grids(1) p le by auto
  have "equity_loop b p (t # ts) = Inr (?x # ps)"
    using p(1) x ps(1) by (simp add: bal draw ddiv_nonzero Let_def)
  with x ps show ?case by (intro exI [of _ "?x # ps"]) simp
qed simp

section \<open>The report of an event log\<close>

text \<open>
  The amounts stay within the 20 integer digits that eight decimals leave: \<open>v\<close> bounds the value an
  event trades.
\<close>

definition money_fits :: "rat \<Rightarrow> backtest_config \<Rightarrow> backtest_event list \<Rightarrow> bool" where
  "money_fits v cfg es \<longleftrightarrow> 0 \<le> v \<and> on_grid 8 (starting_balance cfg) \<and> list_all (traded_value v) es
     \<and> starting_balance cfg + of_nat (length es) * (6 * v + 2) \<le> 10 ^ 19"

lemma sum_list_sub: "sum_list (map (\<lambda>x. f x - (g x :: rat)) xs) = sum_list (map f xs) - sum_list (map g xs)"
  by (induction xs) simp_all

lemma sum_list_signs:
  "sum_list (map f xs) = sum_list (map f (filter (\<lambda>x. (0 :: rat) < f x) xs))
     - sum_list (map (\<lambda>x. - f x) (filter (\<lambda>x. f x < 0) xs))"
  by (induction xs) auto

lemma count_signs:
  "length (filter (\<lambda>x. (0 :: rat) < f x) xs) + length (filter (\<lambda>x. f x < 0) xs)
     + length (filter (\<lambda>x. f x = 0) xs) = length xs"
  by (induction xs) auto

lemma sum_abs_bound:
  assumes "\<forall>x \<in> set xs. \<bar>f x\<bar> \<le> (c :: rat)"
  shows "sum_list (map (\<lambda>x. \<bar>f x\<bar>) xs) \<le> of_nat (length xs) * c"
  using assms by (induction xs) (auto simp: algebra_simps)


lemma validate_sequence_numbered: "numbered es \<Longrightarrow> validate_sequence es = Inr ()"
  unfolding validate_sequence_def
  by (rule foldR_checks) (auto simp: numbered_def list_all_iff raising_Inr_iff)

lemma numbered_points:
  assumes "map point_number ps = map trade_number ts" "map trade_number ts = map fst (enumerate_from 1 ts)"
  shows "\<not> list_ex (\<lambda>(n, p). point_number p \<noteq> n) (enumerate_from 1 ps)"
proof -
  have len: "length ps = length ts" using assms(1) by (metis length_map)
  then have "map point_number ps = map (\<lambda>i. 1 + int i) [0..<length ps]"
    using assms by (simp add: enumerate_from_def map_fst_zip)
  then have "point_number (ps ! i) = 1 + int i" if "i < length ps" for i
    using that by (metis (no_types, lifting) add_0 diff_zero length_map length_upt nth_map nth_upt)
  then show ?thesis by (auto simp: list_ex_iff enumerate_from_def set_zip)
qed

lemma money_trades_sum:
  assumes "list_all (money_trade v) ts" "0 \<le> v" "of_nat (length ts) * (6 * v + 2) \<le> 10 ^ 19"
    and "\<And>t. t \<in> set ts \<Longrightarrow> money_trade v t \<Longrightarrow> on_grid 8 (f t) \<and> \<bar>f t\<bar> \<le> 6 * v + 2"
    and "set us \<subseteq> set ts" "length us \<le> length ts"
  shows "dsum (map f us) = sum_list (map f us) \<and> \<bar>sum_list (map f us)\<bar> \<le> 10 ^ 19"
proof -
  have f: "on_grid 8 (f t) \<and> \<bar>f t\<bar> \<le> 6 * v + 2" if "t \<in> set us" for t
    using assms(1,4,5) that by (auto simp: list_all_iff)
  have "sum_list (map (\<lambda>t. \<bar>f t\<bar>) us) \<le> of_nat (length us) * (6 * v + 2)"
    by (rule sum_abs_bound) (use f in blast)
  also have "\<dots> \<le> of_nat (length ts) * (6 * v + 2)" using assms(2,6) by (intro mult_right_mono) simp_all
  finally have le: "sum_list (map (\<lambda>t. \<bar>f t\<bar>) us) \<le> 10 ^ 19" using assms(3) by linarith
  then have "sum_list (map abs (map f us)) * 10 ^ 8 \<le> 10 ^ 19 * 10 ^ 8"
    by (intro mult_right_mono) (simp_all add: comp_def)
  then have "sum_list (map abs (map f us)) * 10 ^ 8 \<le> 10 ^ 28" by simp
  then have "dsum (map f us) = sum_list (map f us)" using f by (intro dsum_grid) auto
  moreover have "\<bar>sum_list (map f us)\<bar> \<le> 10 ^ 19"
    using abs_sum_list_le [of "map f us"] le by (simp add: comp_def)
  ultimately show ?thesis ..
qed

lemma trades_of_log:
  assumes "event_log es" "valid_config cfg" "money_fits v cfg es"
  shows "\<exists>ts. build_trades es (fee_rate cfg) = Inr ts \<and> list_all (money_trade v) ts
    \<and> map trade_number ts = map fst (enumerate_from 1 ts) \<and> 2 * length ts = length es"
proof (cases es)
  case Nil
  then show ?thesis by (simp add: build_trades_def)
next
  case (Cons e es')
  have "6 * v + 2 \<le> of_nat (length es) * (6 * v + 2)"
    using assms(3) Cons mult_right_mono [of 1 "of_nat (length es)" "6 * v + 2"] by (simp add: money_fits_def)
  moreover have "0 < starting_balance cfg" "starting_balance cfg + of_nat (length es) * (6 * v + 2) \<le> 10 ^ 19"
    using assms(2,3) by (simp_all add: money_fits_def valid_config_def config_fields_def)
  ultimately have "6 * v + 2 \<le> 10 ^ 19" by linarith
  then show ?thesis
    using pair_events [of None es v "fee_rate cfg" "[]"] assms
    by (auto simp: event_log_def money_fits_def list_all_iff valid_config_def config_fields_def build_trades_def)
qed


text \<open>What the report of an event log says, in exact arithmetic.\<close>

definition exact_report :: "rat \<Rightarrow> performance_report \<Rightarrow> bool" where
  "exact_report start r \<longleftrightarrow>
     BacktestPerformanceReport r = Inr r
     \<and> report_gross_pnl r = sum_list (map gross_pnl (trades r))
     \<and> total_fees r = sum_list (map fees (trades r))
     \<and> report_net_pnl r = report_gross_pnl r - total_fees r
     \<and> ending_balance r = start + report_net_pnl r
     \<and> map point_balance (equity_curve r) = running_balances start (map net_pnl (trades r))
     \<and> peak_balance r = Max (insert start (set (map point_balance (equity_curve r))))
     \<and> max_drawdown r = Max (drops (start # map point_balance (equity_curve r)))"

lemma finite_drops: "finite (drops xs)"
proof -
  have "drops xs \<subseteq> (\<lambda>(i, j). xs ! i - xs ! j) ` ({..<length xs} \<times> {..<length xs})"
    unfolding drops_def by force
  then show ?thesis by (rule finite_subset) simp
qed

lemma max_peaks:
  "max_default s (running_peaks s bs) = Max (insert s (set bs))"
proof (cases "bs = []")
  case False
  have "Max (insert s (set (take j bs))) \<le> Max (insert s (set bs))" for j
    by (rule Max_mono) (auto dest: in_set_takeD)
  then have sorted: "x \<le> Max (insert s (set bs))" if "x \<in> set (running_peaks s bs)" for x
    using that unfolding in_set_conv_nth by (metis length_running(2) running_peaks_nth)
  have "running_peaks s bs ! (length bs - 1) = Max (insert s (set bs))"
    using False by (simp add: running_peaks_nth)
  then have "Max (insert s (set bs)) \<in> set (running_peaks s bs)"
    using False nth_mem [of "length bs - 1" "running_peaks s bs"] by simp
  then have "Max (insert s (set bs)) \<le> max_default s (running_peaks s bs)" by (rule max_default_bound)
  moreover have "max_default s (running_peaks s bs) \<in> set (running_peaks s bs)"
    using max_default_cases [of s "running_peaks s bs"] False by (cases bs) auto
  ultimately show ?thesis by (intro antisym sorted)
qed simp

lemma money_trade_facts:
  assumes "money_trade v t" "0 \<le> v"
  shows "on_grid 8 (gross_pnl t)" "on_grid 8 (fees t)" "on_grid 8 (net_pnl t)"
    "net_pnl t = gross_pnl t - fees t" "\<bar>gross_pnl t\<bar> \<le> 6 * v + 2" "\<bar>fees t\<bar> \<le> 6 * v + 2"
    "\<bar>net_pnl t\<bar> \<le> 6 * v + 2" "\<bar>- net_pnl t\<bar> \<le> 6 * v + 2" "on_grid 8 (- net_pnl t)"
    "0 \<le> fees t" "1 \<le> trade_number t"
proof -
  have f: "0 \<le> fees t \<and> 1 \<le> trade_number t"
    using assms(1) by (auto simp: money_trade_def ClosedBacktestTrade_def bindR_Inr_iff check_fields_Inr_iff
        trade_fields_def)
  with assms show "on_grid 8 (gross_pnl t)" "on_grid 8 (fees t)" "net_pnl t = gross_pnl t - fees t"
    "\<bar>gross_pnl t\<bar> \<le> 6 * v + 2" "\<bar>fees t\<bar> \<le> 6 * v + 2" "\<bar>net_pnl t\<bar> \<le> 6 * v + 2"
    "\<bar>- net_pnl t\<bar> \<le> 6 * v + 2" "0 \<le> fees t" "1 \<le> trade_number t"
    by (auto simp: money_trade_def)
  then show "on_grid 8 (net_pnl t)" "on_grid 8 (- net_pnl t)" by auto
qed

abbreviation won :: "closed_trade list \<Rightarrow> closed_trade list" where
  "won ts \<equiv> filter (\<lambda>t. 0 < net_pnl t) ts"
abbreviation lost :: "closed_trade list \<Rightarrow> closed_trade list" where
  "lost ts \<equiv> filter (\<lambda>t. net_pnl t < 0) ts"

lemma money_sums:
  assumes ts: "list_all (money_trade v) ts" and v: "0 \<le> v" and small: "of_nat (length ts) * (6 * v + 2) \<le> 10 ^ 19"
  shows "dsum (map gross_pnl ts) = sum_list (map gross_pnl ts)"
    and "dsum (map fees ts) = sum_list (map fees ts)"
    and "dsum (map net_pnl ts) = sum_list (map net_pnl ts)"
    and "dsum (map net_pnl (won ts)) = sum_list (map net_pnl (won ts))"
    and "dsum (map (\<lambda>t. dneg (net_pnl t)) (lost ts)) = sum_list (map (\<lambda>t. - net_pnl t) (lost ts))"
    and "\<bar>sum_list (map net_pnl ts)\<bar> \<le> 10 ^ 19" and "on_grid 8 (sum_list (map net_pnl ts))"
    and "0 \<le> sum_list (map fees ts)"
proof -
  note sums = money_trades_sum [OF ts v small] and facts = money_trade_facts [OF _ v]
  show "dsum (map gross_pnl ts) = sum_list (map gross_pnl ts)" using sums [of gross_pnl ts] facts by simp
  show "dsum (map fees ts) = sum_list (map fees ts)" using sums [of fees ts] facts by simp
  show "dsum (map net_pnl ts) = sum_list (map net_pnl ts)" "\<bar>sum_list (map net_pnl ts)\<bar> \<le> 10 ^ 19"
    using sums [of net_pnl ts] facts by simp_all
  show "dsum (map net_pnl (won ts)) = sum_list (map net_pnl (won ts))"
    using sums [of net_pnl "won ts"] facts by simp
  have "dneg (net_pnl t) = - net_pnl t" if "t \<in> set ts" for t
  proof -
    have "\<bar>net_pnl t\<bar> \<le> 10 ^ 19" using sums [of net_pnl "[t]"] facts that by (cases ts) auto
    moreover have "on_grid 8 (- net_pnl t)" using ts that facts(9) by (simp add: list_all_iff)
    ultimately show ?thesis unfolding dneg_def by (intro dround_money) auto
  qed
  then have "map (\<lambda>t. dneg (net_pnl t)) (lost ts) = map (\<lambda>t. - net_pnl t) (lost ts)" by simp
  moreover have "dsum (map (\<lambda>t. - net_pnl t) (lost ts)) = sum_list (map (\<lambda>t. - net_pnl t) (lost ts))"
    using sums [of "\<lambda>t. - net_pnl t" "lost ts"] facts(8,9) by simp
  ultimately show "dsum (map (\<lambda>t. dneg (net_pnl t)) (lost ts)) = sum_list (map (\<lambda>t. - net_pnl t) (lost ts))"
    by (simp only:)
  show "on_grid 8 (sum_list (map net_pnl ts))"
    by (rule on_grid_sum_list) (use ts facts(3) in \<open>auto simp: list_all_iff\<close>)
  show "0 \<le> sum_list (map fees ts)"
    by (rule sum_list_nonneg) (use ts facts(10) in \<open>auto simp: list_all_iff\<close>)
qed

lemma money_sums_agree:
  assumes ts: "list_all (money_trade v) ts" and v: "0 \<le> v" and small: "of_nat (length ts) * (6 * v + 2) \<le> 10 ^ 19"
  shows "sum_list (map net_pnl ts) = sum_list (map gross_pnl ts) - sum_list (map fees ts)"
    and "dsub (sum_list (map gross_pnl ts)) (sum_list (map fees ts)) = sum_list (map net_pnl ts)"
    and "dsub (sum_list (map net_pnl (won ts))) (sum_list (map (\<lambda>t. - net_pnl t) (lost ts)))
      = sum_list (map net_pnl ts)"
proof -
  have "map net_pnl ts = map (\<lambda>t. gross_pnl t - fees t) ts"
    using ts money_trade_facts(4) [OF _ v] by (auto simp: list_all_iff)
  then show split: "sum_list (map net_pnl ts) = sum_list (map gross_pnl ts) - sum_list (map fees ts)"
    by (simp only: sum_list_sub)
  have "dround (sum_list (map net_pnl ts)) = sum_list (map net_pnl ts)"
    using money_sums(6,7) [OF assms] by (intro dround_money) auto
  then show "dsub (sum_list (map gross_pnl ts)) (sum_list (map fees ts)) = sum_list (map net_pnl ts)"
    "dsub (sum_list (map net_pnl (won ts))) (sum_list (map (\<lambda>t. - net_pnl t) (lost ts)))
      = sum_list (map net_pnl ts)"
    using sum_list_signs [of net_pnl ts] by (simp_all only: dsub_def split [symmetric])
qed

lemma equity_of_trades:
  assumes ts: "list_all (money_trade v) ts" and v: "0 \<le> v" and s: "0 < s" "on_grid 8 s"
    and small: "s + of_nat (length ts) * (6 * v + 2) \<le> 10 ^ 19"
  shows "\<exists>ps. build_equity_curve ts s = Inr ps \<and> list_all (\<lambda>x. EquityPoint x = Inr x) ps
    \<and> map point_balance ps = running_balances s (map net_pnl ts)
    \<and> map point_peak ps = running_peaks s (running_balances s (map net_pnl ts))
    \<and> map point_drawdown ps = map2 (-) (map point_peak ps) (map point_balance ps)
    \<and> map point_number ps = map trade_number ts"
proof -
  have each: "\<forall>t \<in> set ts. on_grid 8 (net_pnl t) \<and> 1 \<le> trade_number t"
    using ts money_trade_facts(3,11) [OF _ v] by (auto simp: list_all_iff)
  have "sum_list (map (\<lambda>t. \<bar>net_pnl t\<bar>) ts) \<le> of_nat (length ts) * (6 * v + 2)"
    by (rule sum_abs_bound) (use ts money_trade_facts(7) [OF _ v] in \<open>auto simp: list_all_iff\<close>)
  then have "\<bar>s\<bar> + sum_list (map (\<lambda>t. \<bar>net_pnl t\<bar>) ts) \<le> 10 ^ 19" using small s(1) by linarith
  moreover have "s \<le> 10 ^ 19"
    using small v mult_nonneg_nonneg [of "of_nat (length ts)" "6 * v + 2"] by linarith
  ultimately show ?thesis
    unfolding build_equity_curve_def using s by (intro equity_loop_exact [OF each, where m = "10 ^ 19"]) simp_all
qed


text \<open>The report with exact sums in place of the folds.\<close>

definition report_of ::
  "string \<Rightarrow> string \<Rightarrow> rat \<Rightarrow> closed_trade list \<Rightarrow> equity_point list \<Rightarrow> performance_report" where
  "report_of run_id ds_id s ts curve =
     (let net = sum_list (map net_pnl ts); profit = sum_list (map net_pnl (won ts));
          loss = sum_list (map (\<lambda>t. - net_pnl t) (lost ts))
      in \<lparr>report_run_id = run_id, report_dataset_id = ds_id, report_starting_balance = s,
          ending_balance = s + net, report_gross_pnl = sum_list (map gross_pnl ts),
          total_fees = sum_list (map fees ts), report_net_pnl = net, total_return = dquot net s,
          gross_profit = profit, gross_loss = loss,
          profit_factor = (if loss > 0 then Some (dquot profit loss) else None),
          peak_balance = max_default s (map point_peak curve),
          max_drawdown = max_default 0 (map point_drawdown curve),
          max_drawdown_fraction = max_default 0 (map point_drawdown_fraction curve),
          total_trades = int (length ts), winning_trades = int (length (won ts)),
          losing_trades = int (length (lost ts)),
          flat_trades = int (length (filter (\<lambda>t. net_pnl t = 0) ts)),
          win_rate = (if ts = [] then None else Some (dquot (of_nat (length (won ts))) (of_nat (length ts)))),
          trades = ts, equity_curve = curve\<rparr>)"

lemma report_of_amounts:
  "trades (report_of run_id ds_id s ts curve) = ts" "equity_curve (report_of run_id ds_id s ts curve) = curve"
  "report_gross_pnl (report_of run_id ds_id s ts curve) = sum_list (map gross_pnl ts)"
  "total_fees (report_of run_id ds_id s ts curve) = sum_list (map fees ts)"
  "report_net_pnl (report_of run_id ds_id s ts curve) = sum_list (map net_pnl ts)"
  "ending_balance (report_of run_id ds_id s ts curve) = s + sum_list (map net_pnl ts)"
  "report_starting_balance (report_of run_id ds_id s ts curve) = s"
  "report_run_id (report_of run_id ds_id s ts curve) = run_id"
  "report_dataset_id (report_of run_id ds_id s ts curve) = ds_id"
  by (simp_all add: report_of_def Let_def)

lemma report_of_fields:
  assumes "1 \<le> length run_id" "length run_id \<le> 200" "1 \<le> length ds_id" "0 < s"
    and "0 \<le> sum_list (map fees ts)" "list_all (\<lambda>x. EquityPoint x = Inr x) curve"
  shows "\<forall>(n, ok) \<in> set (report_fields (report_of run_id ds_id s ts curve)). ok"
proof -
  have signs: "0 \<le> sum_list (map net_pnl (won ts))" "0 \<le> sum_list (map (\<lambda>t. - net_pnl t) (lost ts))"
    by (rule sum_list_nonneg; auto)+
  have points: "0 < point_peak x" "0 \<le> point_drawdown x" "0 \<le> point_drawdown_fraction x"
    if "x \<in> set curve" for x
    using assms(6) that by (auto simp: list_all_iff EquityPoint_def bindR_Inr_iff check_fields_Inr_iff point_fields_def)
  have "0 < max_default s (map point_peak curve)"
    using max_default_cases [of s "map point_peak curve"] points assms(4) by auto
  moreover have "0 \<le> max_default 0 (map point_drawdown curve)"
    "0 \<le> max_default 0 (map point_drawdown_fraction curve)"
    using max_default_cases [of 0 "map point_drawdown curve"]
      max_default_cases [of 0 "map point_drawdown_fraction curve"] points by auto
  moreover have "0 \<le> dquot (of_nat (length (won ts))) (of_nat (length ts))
      \<and> dquot (of_nat (length (won ts))) (of_nat (length ts)) \<le> 1" if "ts \<noteq> []"
    unfolding dquot_def using that by (intro dc.rnd_unit_interval) simp_all
  moreover have "0 \<le> dquot (sum_list (map net_pnl (won ts))) (sum_list (map (\<lambda>t. - net_pnl t) (lost ts)))"
    unfolding dquot_def using signs by (intro dc.rnd_nonneg) simp
  ultimately show ?thesis
    using assms signs by (simp add: report_fields_def report_of_def Let_def sized_def)
qed

lemma analyze_log:
  assumes ids: "strip run_id \<noteq> []" "length run_id \<le> 200" "strip ds_id \<noteq> []"
    and cfg: "valid_config cfg" and es: "event_log es" and fits: "money_fits v cfg es"
  shows "\<exists>r. analyze run_id ds_id es cfg = Inr r \<and> exact_report (starting_balance cfg) r
    \<and> 2 * length (trades r) = length es \<and> report_starting_balance r = starting_balance cfg
    \<and> report_run_id r = run_id \<and> report_dataset_id r = ds_id"
proof -
  let ?s = "starting_balance cfg"
  obtain ts where ts: "build_trades es (fee_rate cfg) = Inr ts" "list_all (money_trade v) ts"
      "map trade_number ts = map fst (enumerate_from 1 ts)" "2 * length ts = length es"
    using trades_of_log [OF es cfg fits] by blast
  have v: "0 \<le> v" and s: "0 < ?s" "on_grid 8 ?s"
    and total: "?s + of_nat (length es) * (6 * v + 2) \<le> 10 ^ 19"
    using fits cfg by (simp_all add: money_fits_def valid_config_def config_fields_def)
  have "(of_nat (length ts) :: rat) * (6 * v + 2) \<le> of_nat (length es) * (6 * v + 2)"
    using v ts(4) by (intro mult_right_mono) simp_all
  then have small: "of_nat (length ts) * (6 * v + 2) \<le> 10 ^ 19"
    "?s + of_nat (length ts) * (6 * v + 2) \<le> 10 ^ 19"
    using total s(1) by linarith+
  note sums = money_sums [OF ts(2) v small(1)] and agree = money_sums_agree [OF ts(2) v small(1)]
  obtain curve where curve: "build_equity_curve ts ?s = Inr curve" "list_all (\<lambda>x. EquityPoint x = Inr x) curve"
      "map point_balance curve = running_balances ?s (map net_pnl ts)"
      "map point_peak curve = running_peaks ?s (map point_balance curve)"
      "map point_drawdown curve = map2 (-) (map point_peak curve) (map point_balance curve)"
      "map point_number curve = map trade_number ts"
    using equity_of_trades [OF ts(2) v s small(2)] by auto
  let ?r = "report_of run_id ds_id ?s ts curve"
  have "?s \<le> 10 ^ 19"
    using small(2) v mult_nonneg_nonneg [of "of_nat (length ts)" "6 * v + 2"] by linarith
  then have "\<bar>?s + sum_list (map net_pnl ts)\<bar> \<le> 10 ^ 20" using sums(6) s(1) by simp
  then have ending: "dadd ?s (sum_list (map net_pnl ts)) = ?s + sum_list (map net_pnl ts)"
    unfolding dadd_def using s(2) sums(7) by (intro dround_money) auto
  have run: "analyze run_id ds_id es cfg = BacktestPerformanceReport ?r"
    using ids validate_sequence_numbered [of es] es ts(1) curve(1) s(1) ending
    by (simp add: analyze_def event_log_def Let_def sums ddiv_nonzero report_of_def)
  have len: "length curve = length ts" using curve(6) by (metis length_map)
  have last: "point_balance (last curve) = ?s + sum_list (map net_pnl ts)" if "curve \<noteq> []"
    using that running_balances_last [of "map net_pnl ts" ?s] curve(3) len
    by (metis last_map length_0_conv length_map)
  have "run_id \<noteq> []" "ds_id \<noteq> []" using ids by (auto simp: strip_def)
  then have "\<forall>(n, ok) \<in> set (report_fields ?r). ok"
    using ids(2) s(1) sums(8) curve(2) by (intro report_of_fields) (auto simp: Suc_le_eq)
  moreover have "validate_report ?r = Inr ?r"
    unfolding validate_report_def raising_Inr_iff
    using count_signs [of net_pnl ts] numbered_points [OF curve(6) ts(3)] len ending agree last
    by (auto simp: report_of_def Let_def)
  ultimately have valid: "BacktestPerformanceReport ?r = Inr ?r"
    by (simp add: BacktestPerformanceReport_def check_fields_pass)
  have "max_drawdown ?r = Max (drops (?s # map point_balance curve))"
    using largest_gap [where s = ?s and bs = "map point_balance curve"] curve(4,5)
    by (intro Max_eqI [symmetric]) (simp_all add: finite_drops report_of_def Let_def)
  moreover have "peak_balance ?r = Max (insert ?s (set (map point_balance curve)))"
    unfolding max_peaks [symmetric] curve(4) [symmetric] by (simp add: report_of_def Let_def)
  ultimately have "exact_report ?s ?r"
    using valid agree(1) curve(3) by (simp add: exact_report_def report_of_amounts)
  with valid show ?thesis
    using run ts(4) by (intro exI [of _ ?r]) (simp add: report_of_amounts)
qed

section \<open>Buy and hold\<close>

datatype benchmark_type = BUY_AND_HOLD

datatype comparison_outcome = OUTCOME_STRATEGY | OUTCOME_BENCHMARK | OUTCOME_TIE

record benchmark_result =
  benchmark_kind :: benchmark_type
  benchmark_run_id :: string
  benchmark_dataset_id :: string
  benchmark_config :: backtest_config
  benchmark_events :: "backtest_event list"
  benchmark_report :: performance_report

definition validate_benchmark :: "benchmark_result \<Rightarrow> benchmark_result result" where
  "validate_benchmark b = raising
     [(length (benchmark_events b) \<noteq> 2,
         ValueError ''buy-and-hold benchmark must contain exactly two events''),
      (event_kind (benchmark_events b ! 0) \<noteq> POSITION_OPENED,
         ValueError ''benchmark must start with a position-opened event''),
      (event_kind (benchmark_events b ! 1) \<noteq> POSITION_CLOSED,
         ValueError ''benchmark must end with a position-closed event''),
      (report_run_id (benchmark_report b) \<noteq> benchmark_run_id b,
         ValueError ''benchmark performance report run does not match''),
      (report_dataset_id (benchmark_report b) \<noteq> benchmark_dataset_id b,
         ValueError ''benchmark performance report dataset does not match''),
      (report_starting_balance (benchmark_report b) \<noteq> starting_balance (benchmark_config b),
         ValueError ''benchmark performance report balance does not match config'')] b"

definition BenchmarkResult :: "benchmark_result \<Rightarrow> benchmark_result result" where
  "BenchmarkResult b =
     bindR (check_fields [(''run_id'', has_id_form ''benchmark-'' 16 (benchmark_run_id b)),
                          (''dataset_id'', 1 \<le> length (benchmark_dataset_id b))] b) validate_benchmark"

text \<open>
  The JSON text of the configuration depends on how its decimals are written (their exponents), so it
  is an argument here.
\<close>

definition build_benchmark_run_id :: "string \<Rightarrow> string \<Rightarrow> string" where
  "build_benchmark_run_id ds_id config_payload =
     ''benchmark-'' @ digest16 (join ''::'' [ds_id, ''buy_and_hold'', config_payload])"

definition benchmark_signal_id :: "string \<Rightarrow> string" where
  "benchmark_signal_id run_id = ''signal-'' @ digest16 (run_id @ ''::entry'')"

definition buy_and_hold_events :: "string \<Rightarrow> dataset \<Rightarrow> backtest_config \<Rightarrow> backtest_event list result" where
  "buy_and_hold_events run_id ds cfg =
     (if candles ds = [] then Inl OutOfRange
      else let first_candle = hd (candles ds); final_candle = last (candles ds);
               entry = dmul (open_price first_candle) (dadd 1 (slippage_rate cfg));
               exit = dmul (close_price final_candle) (dsub 1 (slippage_rate cfg));
               allocation = dmul (starting_balance cfg) (allocation_fraction cfg)
        in bindR (ddiv allocation entry) (\<lambda>qty.
             bindR (create_event run_id 1 POSITION_OPENED (open_time first_candle) (dataset_pair ds) SideLong
                      entry qty (Some (benchmark_signal_id run_id)) None) (\<lambda>opened.
             bindR (create_event run_id 2 POSITION_CLOSED (close_time final_candle) (dataset_pair ds) SideLong
                      exit qty None (Some END_OF_DATA)) (\<lambda>cl. Inr [opened, cl]))))"

definition run_buy_and_hold :: "string \<Rightarrow> dataset \<Rightarrow> backtest_config \<Rightarrow> benchmark_result result" where
  "run_buy_and_hold config_payload ds cfg =
     (let run_id = build_benchmark_run_id (dataset_id ds) config_payload
      in bindR (buy_and_hold_events run_id ds cfg) (\<lambda>es.
         bindR (analyze run_id (dataset_id ds) es cfg) (\<lambda>report.
           BenchmarkResult \<lparr>benchmark_kind = BUY_AND_HOLD, benchmark_run_id = run_id,
             benchmark_dataset_id = dataset_id ds, benchmark_config = cfg, benchmark_events = es,
             benchmark_report = report\<rparr>)))"

section \<open>Comparing a strategy with a benchmark\<close>

record benchmark_comparison =
  strategy_run_id :: string
  compared_run_id :: string
  compared_dataset_id :: string
  strategy_return :: rat
  benchmark_return :: rat
  return_delta :: rat
  net_pnl_delta :: rat
  max_drawdown_fraction_delta :: rat
  strategy_has_lower_drawdown :: bool
  outcome :: comparison_outcome

definition outcome_of :: "rat \<Rightarrow> comparison_outcome" where
  "outcome_of delta =
     (if delta > 0 then OUTCOME_STRATEGY else if delta < 0 then OUTCOME_BENCHMARK else OUTCOME_TIE)"

definition validate_comparison :: "benchmark_comparison \<Rightarrow> benchmark_comparison result" where
  "validate_comparison c = raising
     [(return_delta c \<noteq> dsub (strategy_return c) (benchmark_return c),
         ValueError ''return delta is inconsistent with compared returns''),
      (outcome c \<noteq> outcome_of (return_delta c),
         ValueError ''comparison outcome is inconsistent with return delta'')] c"

definition BenchmarkComparison :: "benchmark_comparison \<Rightarrow> benchmark_comparison result" where
  "BenchmarkComparison c =
     bindR (check_fields [(''strategy_run_id'', 1 \<le> length (strategy_run_id c)),
                          (''benchmark_run_id'', has_id_form ''benchmark-'' 16 (compared_run_id c)),
                          (''dataset_id'', 1 \<le> length (compared_dataset_id c))] c) validate_comparison"

definition compare_performance ::
  "performance_report \<Rightarrow> benchmark_result \<Rightarrow> benchmark_comparison result" where
  "compare_performance strategy b =
     (let r = benchmark_report b
      in bindR (raising
           [(report_dataset_id strategy \<noteq> benchmark_dataset_id b,
               ValueError ''strategy and benchmark must use the same dataset''),
            (report_starting_balance strategy \<noteq> report_starting_balance r,
               ValueError ''strategy and benchmark must use the same starting balance'')] ())
         (\<lambda>_. let delta = dsub (total_return strategy) (total_return r)
              in BenchmarkComparison
                \<lparr>strategy_run_id = report_run_id strategy, compared_run_id = benchmark_run_id b,
                 compared_dataset_id = report_dataset_id strategy,
                 strategy_return = total_return strategy, benchmark_return = total_return r,
                 return_delta = delta, net_pnl_delta = dsub (report_net_pnl strategy) (report_net_pnl r),
                 max_drawdown_fraction_delta = dsub (max_drawdown_fraction strategy) (max_drawdown_fraction r),
                 strategy_has_lower_drawdown = max_drawdown_fraction strategy < max_drawdown_fraction r,
                 outcome = outcome_of delta\<rparr>))"

lemma buy_and_hold_log:
  assumes "research_dataset ds" "valid_config cfg"
  defines "entry \<equiv> dmul (open_price (hd (candles ds))) (dadd 1 (slippage_rate cfg))"
  defines "qty \<equiv> dquot (dmul (starting_balance cfg) (allocation_fraction cfg)) entry"
  shows "\<exists>es. buy_and_hold_events run_id ds cfg = Inr es \<and> event_log es
    \<and> map event_kind es = [POSITION_OPENED, POSITION_CLOSED]
    \<and> map event_price es = [entry, dmul (close_price (last (candles ds))) (dsub 1 (slippage_rate cfg))]
    \<and> map event_quantity es = [qty, qty]"
proof -
  let ?c = "hd (candles ds)" and ?d = "last (candles ds)"
  have ne: "candles ds \<noteq> []" using assms(1) by (simp add: research_dataset_def candle_series_def)
  then have ends: "valid_candle ?c" "valid_candle ?d" "?c \<in> set (candles ds)" "?d \<in> set (candles ds)"
    using assms(1) by (auto simp: research_dataset_def intro: candle_series_valid [of "candles ds"])
  then have prices: "0 < open_price ?c" "0 < close_price ?d" by (auto simp: valid_candle_iff)
  have cfg: "0 < starting_balance cfg" "0 < allocation_fraction cfg" "0 \<le> slippage_rate cfg" "slippage_rate cfg < 1"
    using assms(2) by (simp_all add: valid_config_def config_fields_def)
  let ?exit = "dmul (close_price ?d) (dsub 1 (slippage_rate cfg))"
    and ?alloc = "dmul (starting_balance cfg) (allocation_fraction cfg)"
  have pos: "0 < entry" "0 < ?exit" "0 < ?alloc"
    using prices cfg by (auto simp: entry_def dec_defs intro!: dc.rnd_positive mult_pos_pos add_pos_nonneg)
  then have qty: "0 < qty" by (auto simp: qty_def dquot_def intro!: dc.rnd_positive)
  have sid: "has_id_form ''signal-'' 16 (benchmark_signal_id run_id)"
    unfolding benchmark_signal_id_def has_id_form_append by simp
  have time: "open_time ?c < close_time ?d"
  proof -
    have "sorted_wrt (\<lambda>a b. open_time a < open_time b) (candles ds)"
      using assms(1) candle_series_opens by (simp add: research_dataset_def)
    then have "open_time ?c \<le> open_time ?d" using ne by (cases "candles ds") (auto intro: less_imp_le)
    with ends(2) show ?thesis by (simp add: valid_candle_iff)
  qed
  obtain e where e: "create_event run_id 1 POSITION_OPENED (open_time ?c) (dataset_pair ds) SideLong entry
      qty (Some (benchmark_signal_id run_id)) None = Inr e" "BacktestEvent e = Inr e"
      "sequence_number e = 1" "event_kind e = POSITION_OPENED" "event_time e = open_time ?c"
      "event_pair e = dataset_pair ds" "event_side e = SideLong" "event_quantity e = qty" "event_price e = entry"
    using create_event_runs [OF _ pos(1) qty, where seq = 1 and kind = POSITION_OPENED and reason = None
        and sid = "Some (benchmark_signal_id run_id)"] sid by fastforce
  obtain f where f: "create_event run_id 2 POSITION_CLOSED (close_time ?d) (dataset_pair ds) SideLong ?exit
      qty None (Some END_OF_DATA) = Inr f" "BacktestEvent f = Inr f"
      "sequence_number f = 2" "event_kind f = POSITION_CLOSED" "event_time f = close_time ?d"
      "event_pair f = dataset_pair ds" "event_side f = SideLong" "event_quantity f = qty" "event_price f = ?exit"
    using create_event_runs [OF _ pos(2) qty, where seq = 2 and kind = POSITION_CLOSED
        and reason = "Some END_OF_DATA" and sid = None] by fastforce
  have "event_log [e, f]" using e f time by (simp add: event_log_def numbered_def closes_def)
  moreover have "buy_and_hold_events run_id ds cfg = Inr [e, f]"
    using ne e(1) f(1) pos(1) by (simp add: buy_and_hold_events_def Let_def ddiv_nonzero entry_def [symmetric] qty_def [symmetric])
  ultimately show ?thesis using e f by auto
qed

text \<open>
  The buy-and-hold benchmark on any dataset consists of exactly one trade over the whole dataset: where
  the amounts fit, its result passes its validator, with an exact report of one trade.
\<close>

lemma buy_and_hold_runs:
  assumes "research_dataset ds" "strip (dataset_id ds) \<noteq> []" "valid_config cfg"
    and "buy_and_hold_events (build_benchmark_run_id (dataset_id ds) payload) ds cfg = Inr es"
    and "money_fits v cfg es"
  shows "\<exists>b. run_buy_and_hold payload ds cfg = Inr b \<and> BenchmarkResult b = Inr b \<and> benchmark_events b = es
    \<and> benchmark_run_id b = build_benchmark_run_id (dataset_id ds) payload
    \<and> benchmark_dataset_id b = dataset_id ds \<and> benchmark_config b = cfg
    \<and> report_starting_balance (benchmark_report b) = starting_balance cfg
    \<and> length (trades (benchmark_report b)) = 1
    \<and> exact_report (starting_balance cfg) (benchmark_report b)"
proof -
  let ?id = "build_benchmark_run_id (dataset_id ds) payload"
  have es: "event_log es" "map event_kind es = [POSITION_OPENED, POSITION_CLOSED]"
    using buy_and_hold_log [OF assms(1,3), of ?id] assms(4) by auto
  have form: "has_id_form ''benchmark-'' 16 ?id"
    unfolding build_benchmark_run_id_def has_id_form_append by simp
  have id: "strip ?id \<noteq> []" "length ?id \<le> 200"
  proof -
    have "CHR ''b'' \<in> set ?id" "\<not> is_space (CHR ''b'')"
      by (simp_all add: build_benchmark_run_id_def is_space_def)
    then show "strip ?id \<noteq> []" unfolding strip_Nil_iff by blast
    show "length ?id \<le> 200" by (simp add: build_benchmark_run_id_def)
  qed
  obtain r where r: "analyze ?id (dataset_id ds) es cfg = Inr r" "exact_report (starting_balance cfg) r"
      "2 * length (trades r) = length es" "report_starting_balance r = starting_balance cfg"
      "report_run_id r = ?id" "report_dataset_id r = dataset_id ds"
    using analyze_log [OF id assms(2,3) es(1) assms(5)] by blast
  obtain e f where ef: "es = [e, f]" "event_kind e = POSITION_OPENED" "event_kind f = POSITION_CLOSED"
    using es(2) by (auto simp: map_eq_Cons_conv)
  then show ?thesis
    using r assms(1,4) form
    by (simp add: run_buy_and_hold_def Let_def BenchmarkResult_def check_fields_pass validate_benchmark_def
        raising_Inr_iff research_dataset_def bindR_Inr_iff)
qed

text \<open>The differences a comparison states, each rounded once.\<close>

definition deltas_of :: "performance_report \<Rightarrow> performance_report \<Rightarrow> benchmark_comparison \<Rightarrow> bool" where
  "deltas_of strategy benchmark c \<longleftrightarrow>
     return_delta c = dround (total_return strategy - total_return benchmark)
     \<and> net_pnl_delta c = dround (report_net_pnl strategy - report_net_pnl benchmark)
     \<and> max_drawdown_fraction_delta c = dround (max_drawdown_fraction strategy - max_drawdown_fraction benchmark)
     \<and> (strategy_has_lower_drawdown c \<longleftrightarrow> max_drawdown_fraction strategy < max_drawdown_fraction benchmark)"

text \<open>
  A comparison with a benchmark on the same dataset and balance always succeeds, and its outcome is
  the order of the two returns: rounding their difference never changes who is ahead.
\<close>

lemma comparison_runs:
  assumes "report_dataset_id strategy = benchmark_dataset_id b"
    and "report_starting_balance strategy = report_starting_balance (benchmark_report b)"
    and "1 \<le> length (report_run_id strategy)" "BenchmarkResult b = Inr b"
  shows "\<exists>c. compare_performance strategy b = Inr c
    \<and> strategy_run_id c = report_run_id strategy \<and> compared_run_id c = benchmark_run_id b
    \<and> compared_dataset_id c = benchmark_dataset_id b
    \<and> strategy_return c = total_return strategy \<and> benchmark_return c = total_return (benchmark_report b)
    \<and> outcome c = (if total_return (benchmark_report b) < total_return strategy then OUTCOME_STRATEGY
                   else if total_return strategy < total_return (benchmark_report b) then OUTCOME_BENCHMARK
                   else OUTCOME_TIE)
    \<and> deltas_of strategy (benchmark_report b) c"
proof -
  let ?x = "total_return strategy" and ?y = "total_return (benchmark_report b)"
  have "has_id_form ''benchmark-'' 16 (benchmark_run_id b)" "1 \<le> length (benchmark_dataset_id b)"
    using assms(4) by (simp_all add: BenchmarkResult_def bindR_Inr_iff check_fields_Inr_iff)
  moreover have "sgn (dsub ?x ?y) = sgn (?x - ?y)" unfolding dsub_def by (rule dc.rnd_sign)
  then have "outcome_of (dsub ?x ?y) = (if ?y < ?x then OUTCOME_STRATEGY else if ?x < ?y
      then OUTCOME_BENCHMARK else OUTCOME_TIE)"
    by (auto simp: outcome_of_def sgn_if split: if_splits)
  ultimately show ?thesis
    using assms(1-3)
    by (simp add: compare_performance_def Let_def BenchmarkComparison_def check_fields_pass
        validate_comparison_def raising_Inr_iff bindR_Inr_iff deltas_of_def dsub_def)
qed

section \<open>Properties\<close>

text \<open>
  C4: the performance analyzer never rejects a well-formed event log: for a starting balance with at
  most eight decimals and amounts that fit, it returns a report that passes its own validator and is
  exact: gross PnL, fees and net PnL are the exact sums over the trades, the ending balance is the
  starting balance plus the net PnL, there is one trade per pair of events, the equity curve is the
  running balance, the peak is its maximum and the maximum drawdown is its largest drop from any
  earlier balance.
\<close>

theorem analyzer_exact_on_logs:
  assumes "strip run_id \<noteq> []" "length run_id \<le> 200" "strip ds_id \<noteq> []" "valid_config cfg"
    and "event_log es" "money_fits v cfg es"
  shows "\<exists>r. analyze run_id ds_id es cfg = Inr r \<and> exact_report (starting_balance cfg) r
    \<and> 2 * length (trades r) = length es"
  using analyze_log [OF assms] by blast

definition sample_log :: "backtest_event list" where
  "sample_log =
     [\<lparr>event_id = ''event-0123456789abcdef'', sequence_number = 1, event_kind = POSITION_OPENED,
       event_time = 0, event_pair = sample_pair, event_side = SideShort, event_price = 100,
       event_quantity = 1 / 3, event_signal_id = Some ''signal-0123456789abcdef'',
       event_exit_reason = None\<rparr>,
      \<lparr>event_id = ''event-fedcba9876543210'', sequence_number = 2, event_kind = POSITION_CLOSED,
       event_time = 5, event_pair = sample_pair, event_side = SideShort, event_price = 110,
       event_quantity = 1 / 3, event_signal_id = None, event_exit_reason = Some END_OF_DATA\<rparr>]"

lemma sample_log_facts: "event_log sample_log" "money_fits 40 sample_config sample_log"
  by (simp_all add: sample_log_def event_log_def numbered_def closes_def BacktestEvent_Inr_iff
      event_fields_def has_id_form_def is_lower_hex_def money_fits_def traded_value_def sample_config_def
      on_grid_def)

theorem analyzer_exact_on_logs_witness:
  "\<exists>r. analyze ''run-1'' ''dataset-1'' sample_log sample_config = Inr r
     \<and> exact_report (starting_balance sample_config) r \<and> 2 * length (trades r) = length sample_log"
  by (rule analyzer_exact_on_logs [OF _ _ _ sample_config_valid sample_log_facts])
    (simp_all add: strip_def is_space_def)

section \<open>A balance finer than the money quantum\<close>

text \<open>
  Nothing limits the digits of the starting balance. One with 27 decimals loses its last digit when
  the first profit is added, so the equity curve and the ending balance disagree.
\<close>

definition fine_balance :: rat where "fine_balance = 1 + 1 / 10 ^ 27"

definition fine_config :: backtest_config where
  "fine_config = \<lparr>starting_balance = fine_balance, allocation_fraction = 1, fee_rate = 0, slippage_rate = 0\<rparr>"

definition unit_event :: "int \<Rightarrow> event_type \<Rightarrow> rat \<Rightarrow> backtest_event" where
  "unit_event n kind price =
     \<lparr>event_id = ''event-0123456789abcdef'', sequence_number = n, event_kind = kind,
      event_time = n, event_pair = sample_pair, event_side = SideLong, event_price = price,
      event_quantity = 1, event_signal_id = Some ''signal-0123456789abcdef'',
      event_exit_reason = (if kind = POSITION_CLOSED then Some OPPOSITE_SIGNAL else None)\<rparr>"

definition fine_log :: "backtest_event list" where
  "fine_log = [unit_event 1 POSITION_OPENED 1, unit_event 2 POSITION_CLOSED 10,
               unit_event 3 POSITION_OPENED 10, unit_event 4 POSITION_CLOSED 1]"

lemma fine_log_facts: "valid_config fine_config" "event_log fine_log"
  by (simp_all add: valid_config_def config_fields_def fine_config_def fine_balance_def fine_log_def unit_event_def
      event_log_def numbered_def closes_def BacktestEvent_Inr_iff event_fields_def has_id_form_def
      is_lower_hex_def)

lemma fine_sums: "dround (1 + 1 / 10 ^ 27) = 1 + 1 / 10 ^ 27" "dround (10 + 1 / 10 ^ 27) = 10"
proof -
  show "dround (1 + 1 / 10 ^ 27) = 1 + 1 / 10 ^ 27"
    by (rule dround_grid [of 27]) (simp_all add: on_grid_def)
  have "adjusted (10 + 1 / 10 ^ 27) = 1" by (rule adjusted_eq) simp_all
  moreover have "round_half_even (10 ^ 27 + 1 / 10) = 10 ^ 27"
  proof -
    have "\<lfloor>10 ^ 27 + 1 / 10 :: rat\<rfloor> = 10 ^ 27" by (rule floor_unique) simp_all
    then show ?thesis by (simp add: round_half_even_def)
  qed
  ultimately show "dround (10 + 1 / 10 ^ 27) = 10" by (simp add: dround_def rounded_to_def Let_def)
qed

lemma fine_trades:
  "build_trades fine_log 0 = Inr
     [\<lparr>trade_number = 1, trade_pair = sample_pair, trade_side = SideLong, entry_time = 1, exit_time = 2,
        entry_price = 1, exit_price = 10, trade_quantity = 1, gross_pnl = 9, fees = 0, net_pnl = 9,
        trade_exit_reason = OPPOSITE_SIGNAL\<rparr>,
      \<lparr>trade_number = 2, trade_pair = sample_pair, trade_side = SideLong, entry_time = 3, exit_time = 4,
        entry_price = 10, exit_price = 1, trade_quantity = 1, gross_pnl = - 9, fees = 0, net_pnl = - 9,
        trade_exit_reason = OPPOSITE_SIGNAL\<rparr>]"
  by (simp add: build_trades_def fine_log_def unit_event_def build_trade_def raising.simps dec_eval
      quantize_money_fixed ClosedBacktestTrade_def check_fields_def trade_fields_def validate_trade_def)

lemma fine_amounts:
  "dadd fine_balance 9 = 10" "dadd fine_balance 0 = fine_balance" "max fine_balance 10 = 10"
  "0 < fine_balance" "fine_balance \<noteq> 0" "fine_balance \<noteq> 1"
  using fine_sums by (simp_all add: fine_balance_def dadd_def)

lemma fine_quotients:
  "dadd 10 (- 9) = 1" "dsub 10 1 = 9" "dsub 10 10 = 0" "dsub 0 0 = 0" "dsub 9 9 = 0" "dadd 0 9 = 9"
  "dadd 9 (- 9) = 0" "dadd 0 0 = 0" "dneg (- 9) = 9" "dquot 9 10 = 9 / 10" "dquot 0 x = 0" "dquot 9 9 = 1"
  "dquot 1 2 = 1 / 2"
  by (simp_all add: dec_eval)

lemma fine_curve:
  "build_equity_curve
     [\<lparr>trade_number = 1, trade_pair = sample_pair, trade_side = SideLong, entry_time = 1, exit_time = 2,
        entry_price = 1, exit_price = 10, trade_quantity = 1, gross_pnl = 9, fees = 0, net_pnl = 9,
        trade_exit_reason = OPPOSITE_SIGNAL\<rparr>,
      \<lparr>trade_number = 2, trade_pair = sample_pair, trade_side = SideLong, entry_time = 3, exit_time = 4,
        entry_price = 10, exit_price = 1, trade_quantity = 1, gross_pnl = - 9, fees = 0, net_pnl = - 9,
        trade_exit_reason = OPPOSITE_SIGNAL\<rparr>] fine_balance
   = Inr [\<lparr>point_number = 1, point_time = 2, point_balance = 10, point_peak = 10, point_drawdown = 0,
            point_drawdown_fraction = 0\<rparr>,
          \<lparr>point_number = 2, point_time = 4, point_balance = 1, point_peak = 10, point_drawdown = 9,
            point_drawdown_fraction = 9 / 10\<rparr>]"
  by (simp add: build_equity_curve_def fine_amounts fine_quotients ddiv_nonzero EquityPoint_def
      check_fields_def point_fields_def validate_point_def raising.simps)

text \<open>
  The analyzer can reject the log of a valid run: with the (accepted) starting balance
  1.000000000000000000000000001, a trade that gains 9 and one that loses 9, the equity curve ends at 1
  while the ending balance is the starting balance, and the report's own validator raises.
\<close>

theorem analyzer_rejects_fine_balance:
  "valid_config fine_config \<and> event_log fine_log
     \<and> analyze ''run-1'' ''dataset-1'' fine_log fine_config
       = Inl (ValueError ''final equity point must match ending balance'')"
proof -
  have "validate_sequence fine_log = Inr ()"
    using fine_log_facts(2) validate_sequence_numbered by (simp add: event_log_def)
  moreover have "strip ''run-1'' \<noteq> []" "strip ''dataset-1'' \<noteq> []" by (simp_all add: strip_Nil_iff is_space_def)
  moreover have "fee_rate fine_config = 0" "starting_balance fine_config = fine_balance"
    by (simp_all add: fine_config_def)
  ultimately show ?thesis
    using fine_log_facts
    by (simp add: analyze_def fine_trades fine_curve dsum_def fine_amounts fine_quotients ddiv_nonzero
      BacktestPerformanceReport_def check_fields_def report_fields_def sized_def validate_report_def raising.simps)
qed

end
