(* ===== verification/Jobs.thy ===== *)
theory Jobs imports Prelude
begin

text \<open>
  Durable background jobs (\<open>trd_bot/jobs.py\<close>): the allowlisted kinds with their execution policies,
  the job record with its lifecycle validator, the builder and the handler registry.
\<close>

section \<open>Kinds and policies\<close>

datatype job_kind =
    EXPERIMENT_EXECUTION | WALK_FORWARD_EXECUTION | MARKET_DATA_IMPORT | MARKET_DATA_POLL
  | MARKET_DATA_REPLAY | MARKET_CONTEXT_EVALUATION | ALERT_EVALUATION | DECISION_EVALUATION
  | DATASET_FILE_IMPORT | OPTIMIZATION_EXECUTION

datatype cancellation_mode = COOPERATIVE

definition MAX_BACKGROUND_JOB_ATTEMPTS :: int where
  "MAX_BACKGROUND_JOB_ATTEMPTS = 10"

definition DEFAULT_LEASE_DURATION :: int where
  "DEFAULT_LEASE_DURATION = 5 * minute_us"

record job_policy =
  policy_kind :: job_kind
  policy_max_attempts :: int
  retry_delays :: "int list"
  policy_lease_duration :: int
  cancellation :: cancellation_mode
  supported_payload_versions :: "int list"

definition BackgroundJobPolicy :: "job_policy \<Rightarrow> job_policy result" where
  "BackgroundJobPolicy p = raising
     [(\<not> (1 \<le> policy_max_attempts p \<and> policy_max_attempts p \<le> MAX_BACKGROUND_JOB_ATTEMPTS),
         ValueError ''background job policy attempt budget is invalid''),
      (policy_lease_duration p \<le> 0,
         ValueError ''background job policy lease duration must be positive''),
      (int (length (retry_delays p)) \<noteq> policy_max_attempts p - 1,
         ValueError ''background job policy requires one delay per automatic retry''),
      (list_ex (\<lambda>d. d < 0) (retry_delays p),
         ValueError ''background job policy retry delays cannot be negative''),
      (supported_payload_versions p = [] \<or> list_ex (\<lambda>v. v < 1) (supported_payload_versions p),
         ValueError ''background job policy payload versions are invalid'')] p"

text \<open>Indexing a tuple with a negative number counts from its end; attempts are at least 1 here.\<close>

definition retry_delay_after :: "job_policy \<Rightarrow> int \<Rightarrow> int result" where
  "retry_delay_after p attempts =
     (if attempts < 1 then Inl (ValueError ''background job retry requires a completed attempt'')
      else if attempts \<ge> policy_max_attempts p then Inr 0
      else if nat (attempts - 1) < length (retry_delays p) then Inr (retry_delays p ! nat (attempts - 1))
      else Inl OutOfRange)"

definition standard_policy :: "job_kind \<Rightarrow> job_policy" where
  "standard_policy k =
     \<lparr>policy_kind = k, policy_max_attempts = 3, retry_delays = [5 * second_us, 30 * second_us],
      policy_lease_duration = DEFAULT_LEASE_DURATION, cancellation = COOPERATIVE,
      supported_payload_versions = [1]\<rparr>"

text \<open>The catalog covers every kind, so the lookup never raises.\<close>

definition get_background_job_policy :: "job_kind \<Rightarrow> job_policy" where
  "get_background_job_policy k =
     (if k = MARKET_DATA_IMPORT
      then (standard_policy k)\<lparr>policy_max_attempts := 1, retry_delays := []\<rparr>
      else standard_policy k)"

section \<open>The job and its lifecycle\<close>

datatype job_status = QUEUED | RUNNING | SUCCEEDED | FAILED | CANCELLED

definition TERMINAL_JOB_STATUSES :: "job_status list" where
  "TERMINAL_JOB_STATUSES = [SUCCEEDED, FAILED, CANCELLED]"

text \<open>The payload is its JSON text.\<close>

record job =
  job_id :: string
  job_kind :: job_kind
  payload_version :: int
  payload :: string
  idempotency_key :: "string option"
  job_status :: job_status
  progress_percent :: int
  attempt_count :: int
  max_attempts :: int
  run_after :: int
  lease_owner :: "string option"
  lease_expires_at :: "int option"
  cancel_requested :: bool
  result_reference :: "string option"
  error_code :: "string option"
  error_message :: "string option"
  job_created_at :: int
  job_updated_at :: int
  started_at :: "int option"
  finished_at :: "int option"

definition opt_sized :: "nat \<Rightarrow> nat \<Rightarrow> string option \<Rightarrow> bool" where
  "opt_sized lo hi s \<longleftrightarrow> (case s of None \<Rightarrow> True | Some t \<Rightarrow> sized lo hi t)"

definition job_fields :: "job \<Rightarrow> (string \<times> bool) list" where
  "job_fields j =
     [(''job_id'', has_id_form ''job-'' 20 (job_id j)), (''payload_version'', 1 \<le> payload_version j),
      (''idempotency_key'', opt_sized 1 200 (idempotency_key j)),
      (''progress_percent'', 0 \<le> progress_percent j \<and> progress_percent j \<le> 100),
      (''attempt_count'', 0 \<le> attempt_count j),
      (''max_attempts'', 1 \<le> max_attempts j \<and> max_attempts j \<le> MAX_BACKGROUND_JOB_ATTEMPTS),
      (''lease_owner'', opt_sized 1 100 (lease_owner j)),
      (''result_reference'', opt_sized 1 200 (result_reference j)),
      (''error_code'', opt_sized 1 100 (error_code j)),
      (''error_message'', opt_sized 1 500 (error_message j))]"

definition no_outcome :: "job \<Rightarrow> bool" where
  "no_outcome j \<longleftrightarrow> result_reference j = None \<and> error_code j = None \<and> error_message j = None"

definition validate_lifecycle :: "job \<Rightarrow> job result" where
  "validate_lifecycle j =
     bindR (raising
       [(job_updated_at j < job_created_at j \<or> run_after j < job_created_at j,
           ValueError ''background job timestamps are inconsistent''),
        ((lease_owner j = None) \<noteq> (lease_expires_at j = None),
           ValueError ''background job lease owner and expiry must be recorded together''),
        (attempt_count j > max_attempts j,
           ValueError ''background job attempts cannot exceed the configured maximum'')] ())
      (\<lambda>_. case job_status j of
         QUEUED \<Rightarrow> raising
           [(lease_owner j \<noteq> None \<or> finished_at j \<noteq> None,
               ValueError ''queued background job cannot have a lease or finish time''),
            (\<not> no_outcome j, ValueError ''queued background job cannot contain an outcome'')] j
       | RUNNING \<Rightarrow> raising
           [(lease_owner j = None \<or> started_at j = None \<or> finished_at j \<noteq> None,
               ValueError ''running background job requires an active lease and start time''),
            (attempt_count j < 1 \<or> progress_percent j \<ge> 100,
               ValueError ''running background job attempt and progress are invalid''),
            (\<not> no_outcome j, ValueError ''running background job cannot contain an outcome'')] j
       | SUCCEEDED \<Rightarrow> raising
           [(finished_at j = None \<or> lease_owner j \<noteq> None,
               ValueError ''terminal background job requires finish time and no lease''),
            (progress_percent j \<noteq> 100 \<or> error_code j \<noteq> None \<or> error_message j \<noteq> None,
               ValueError ''succeeded background job outcome is inconsistent'')] j
       | FAILED \<Rightarrow> raising
           [(finished_at j = None \<or> lease_owner j \<noteq> None,
               ValueError ''terminal background job requires finish time and no lease''),
            (result_reference j \<noteq> None \<or> error_code j = None \<or> error_message j = None,
               ValueError ''failed background job requires an error'')] j
       | CANCELLED \<Rightarrow> raising
           [(finished_at j = None \<or> lease_owner j \<noteq> None,
               ValueError ''terminal background job requires finish time and no lease''),
            (\<not> no_outcome j, ValueError ''cancelled background job cannot contain an outcome'')] j)"

definition BackgroundJob :: "job \<Rightarrow> job result" where
  "BackgroundJob j = bindR (check_fields (job_fields j) j) validate_lifecycle"

definition is_terminal :: "job \<Rightarrow> bool" where
  "is_terminal j \<longleftrightarrow> job_status j \<in> set TERMINAL_JOB_STATUSES"

section \<open>The operator's view\<close>

record job_summary =
  summary_job_id :: string
  summary_kind :: job_kind
  summary_status :: job_status
  summary_progress :: int
  summary_attempts :: int
  summary_max_attempts :: int
  summary_run_after :: int
  summary_lease_expires :: "int option"
  summary_cancel_requested :: bool
  summary_result_reference :: "string option"
  summary_error_code :: "string option"
  summary_error_message :: "string option"
  summary_created_at :: int
  summary_updated_at :: int
  summary_started_at :: "int option"
  summary_finished_at :: "int option"

definition job_summary_of :: "job \<Rightarrow> job_summary" where
  "job_summary_of j =
     \<lparr>summary_job_id = job_id j, summary_kind = job_kind j, summary_status = job_status j,
      summary_progress = progress_percent j, summary_attempts = attempt_count j,
      summary_max_attempts = max_attempts j, summary_run_after = run_after j,
      summary_lease_expires = lease_expires_at j, summary_cancel_requested = cancel_requested j,
      summary_result_reference = result_reference j, summary_error_code = error_code j,
      summary_error_message = error_message j, summary_created_at = job_created_at j,
      summary_updated_at = job_updated_at j, summary_started_at = started_at j,
      summary_finished_at = finished_at j\<rparr>"

section \<open>Building a job\<close>

text \<open>
  The identifier's 20 hexadecimal digits come from \<open>uuid4\<close>; \<open>clock\<close> is the current time, used where
  the caller gives none.
\<close>

definition build_job ::
  "string \<Rightarrow> int \<Rightarrow> job_kind \<Rightarrow> string \<Rightarrow> string option \<Rightarrow> int option \<Rightarrow> timestamp option
   \<Rightarrow> timestamp option \<Rightarrow> job result" where
  "build_job uuid_digits clock kind content key budget after now =
     (let created = (case now of None \<Rightarrow> Aware clock | Some t \<Rightarrow> t);
          start = (case after of None \<Rightarrow> created | Some t \<Rightarrow> t);
          attempts = (case budget of None \<Rightarrow> policy_max_attempts (get_background_job_policy kind) | Some n \<Rightarrow> n);
          j = \<lparr>job_id = ''job-'' @ uuid_digits, job_kind = kind, payload_version = 1, payload = content,
               idempotency_key = key, job_status = QUEUED, progress_percent = 0, attempt_count = 0,
               max_attempts = attempts, run_after = instant start, lease_owner = None,
               lease_expires_at = None, cancel_requested = False, result_reference = None,
               error_code = None, error_message = None, job_created_at = instant created,
               job_updated_at = instant created, started_at = None, finished_at = None\<rparr>
      in bindR (check_fields
           (take 6 (job_fields j) @ [(''run_after'', aware start)] @ drop 6 (job_fields j)
            @ [(''created_at'', aware created), (''updated_at'', aware created)]) j)
           validate_lifecycle)"

section \<open>Handlers\<close>

type_synonym 'h handler_registry = "(job_kind \<times> 'h) list"

definition register_handler ::
  "'h handler_registry \<Rightarrow> job_kind \<Rightarrow> 'h \<Rightarrow> 'h handler_registry result" where
  "register_handler reg k h =
     (if map_of reg k \<noteq> None then Inl (ValueError ''background job handler is already registered'')
      else Inr ((k, h) # reg))"

definition get_handler :: "'h handler_registry \<Rightarrow> job_kind \<Rightarrow> 'h result" where
  "get_handler reg k =
     (case map_of reg k of None \<Rightarrow> Inl (MissingLookup ''background job handler is not registered'')
      | Some h \<Rightarrow> Inr h)"

definition require_exact_allowlist :: "'h handler_registry \<Rightarrow> job_kind list \<Rightarrow> unit result" where
  "require_exact_allowlist reg allowed =
     (if set (map fst reg) \<noteq> set allowed
      then Inl (ValueError ''background job handler allowlist does not match policy catalog'')
      else Inr ())"

text \<open>What a handler run amounts to: it returns a reference, or raises.\<close>

datatype handler_outcome =
    HandlerReturned "string option"
  | HandlerError string string bool   \<comment> \<open>BackgroundJobHandlerError: code, message, retryable\<close>
  | HandlerRaised                     \<comment> \<open>any other exception\<close>

definition BackgroundJobHandlerError :: "string \<Rightarrow> string \<Rightarrow> bool \<Rightarrow> handler_outcome result" where
  "BackgroundJobHandlerError code message retryable =
     (if strip code = [] \<or> strip message = []
      then Inl (ValueError ''background job handler error requires code and message'')
      else Inr (HandlerError (strip code) (strip message) retryable))"

end
