(* ===== verification/Job_Store.thy ===== *)
theory Job_Store imports Jobs
begin

text \<open>
  The job repository (\<open>trd_bot/db/background_job_repositories.py\<close>) over the table of job rows, and the
  worker of \<open>trd_bot/jobs.py\<close>. A store is the list of rows; a row is the job its JSON column holds
  (the other columns are copies that the queries select on). The order of the list is the order in
  which the database breaks ties of \<open>ORDER BY\<close>; every theorem holds for any order. An operation is one
  transaction under row locks, so it is one step; \<open>locked\<close> stands for the rows that other
  sessions hold locks on while a claim skips them. An operation returns the store it leaves, also when
  it raises.
\<close>

type_synonym store = "job list"

type_synonym 'a outcome = "'a result \<times> store"

definition find_row :: "string \<Rightarrow> store \<Rightarrow> job option" where
  "find_row jid s = find (\<lambda>r. job_id r = jid) s"

text \<open>\<open>_from_row\<close> validates the stored JSON again.\<close>

definition from_row :: "job \<Rightarrow> job result" where
  "from_row row = BackgroundJob row"

definition update_row :: "store \<Rightarrow> job \<Rightarrow> store" where
  "update_row s j = map (\<lambda>r. if job_id r = job_id j then j else r) s"

text \<open>\<open>self._persist(row, BackgroundJob.model_validate(...))\<close>.\<close>

definition persist :: "store \<Rightarrow> job result \<Rightarrow> job outcome" where
  "persist s r = (case r of Inl e \<Rightarrow> (Inl e, s) | Inr j \<Rightarrow> (Inr j, update_row s j))"

section \<open>Enqueueing\<close>

definition get_by_idempotency_key :: "store \<Rightarrow> job_kind \<Rightarrow> string \<Rightarrow> job option result" where
  "get_by_idempotency_key s k key =
     (case find (\<lambda>r. job_kind r = k \<and> idempotency_key r = Some key) s of
        None \<Rightarrow> Inr None | Some row \<Rightarrow> bindR (from_row row) (\<lambda>j. Inr (Some j)))"

definition stage_job :: "store \<Rightarrow> job \<Rightarrow> job option result" where
  "stage_job s j =
     (case idempotency_key j of None \<Rightarrow> Inr None | Some key \<Rightarrow> get_by_idempotency_key s (job_kind j) key)"

text \<open>The table's primary key and its unique constraint; a missing key never conflicts.\<close>

definition violates_unique :: "store \<Rightarrow> job \<Rightarrow> bool" where
  "violates_unique s j \<longleftrightarrow>
     list_ex (\<lambda>r. job_id r = job_id j
       \<or> (idempotency_key j \<noteq> None \<and> job_kind r = job_kind j \<and> idempotency_key r = idempotency_key j)) s"

text \<open>
  \<open>seen\<close> is the store that the first query reads; other sessions may have committed by the time the
  insert commits on \<open>s\<close>.
\<close>

definition enqueue :: "store \<Rightarrow> job \<Rightarrow> store \<Rightarrow> (job \<times> bool) outcome" where
  "enqueue seen j s =
     (case stage_job seen j of
        Inl e \<Rightarrow> (Inl e, s)
      | Inr (Some existing) \<Rightarrow> (Inr (existing, False), s)
      | Inr None \<Rightarrow>
          if \<not> violates_unique s j then (Inr (j, True), s @ [j])
          else case idempotency_key j of
              None \<Rightarrow> (Inl (ValueError ''background job could not be enqueued''), s)
            | Some key \<Rightarrow>
                (case get_by_idempotency_key s (job_kind j) key of
                   Inl e \<Rightarrow> (Inl e, s)
                 | Inr None \<Rightarrow> (Inl (ValueError ''background job could not be enqueued''), s)
                 | Inr (Some existing) \<Rightarrow> (Inr (existing, False), s)))"

section \<open>Reading\<close>

definition get_job :: "string \<Rightarrow> store \<Rightarrow> job option result" where
  "get_job jid s =
     (case find_row jid s of None \<Rightarrow> Inr None | Some row \<Rightarrow> bindR (from_row row) (\<lambda>j. Inr (Some j)))"

definition with_status :: "job_status list option \<Rightarrow> store \<Rightarrow> store" where
  "with_status statuses s =
     (case statuses of
        None \<Rightarrow> s
      | Some ss \<Rightarrow> if ss = [] then s else filter (\<lambda>r. job_status r \<in> set ss) s)"

definition count_jobs :: "job_status list option \<Rightarrow> store \<Rightarrow> int" where
  "count_jobs statuses s = int (length (with_status statuses s))"

text \<open>Later rows first; among equal times the greater identifier first.\<close>

fun string_less :: "string \<Rightarrow> string \<Rightarrow> bool" where
  "string_less s [] = False"
| "string_less [] (d # t) = True"
| "string_less (c # s) (d # t) =
     ((of_char c :: nat) < of_char d \<or> (c = d \<and> string_less s t))"

definition newer :: "job \<Rightarrow> job \<Rightarrow> bool" where
  "newer a b \<longleftrightarrow> job_created_at b < job_created_at a
     \<or> (job_created_at a = job_created_at b \<and> string_less (job_id b) (job_id a))"

fun insert_newer :: "job \<Rightarrow> job list \<Rightarrow> job list" where
  "insert_newer j [] = [j]"
| "insert_newer j (r # rs) = (if newer r j then r # insert_newer j rs else j # r # rs)"

definition list_job_page :: "int \<Rightarrow> int \<Rightarrow> job_status list option \<Rightarrow> store \<Rightarrow> job list result" where
  "list_job_page limit offset statuses s =
     bindR (raising
       [(limit \<le> 0 \<or> limit > 100, ValueError ''background job page limit must be between 1 and 100''),
        (offset < 0, ValueError ''background job page offset cannot be negative'')] ())
       (\<lambda>_. mapR from_row
              (take (nat limit) (drop (nat offset) (foldr insert_newer (with_status statuses s) []))))"

section \<open>Claiming\<close>

definition claimable :: "int \<Rightarrow> job \<Rightarrow> bool" where
  "claimable now r \<longleftrightarrow>
     (job_status r = QUEUED \<and> run_after r \<le> now)
     \<or> (job_status r = RUNNING \<and> (case lease_expires_at r of None \<Rightarrow> False | Some t \<Rightarrow> t \<le> now))"

definition earlier :: "job \<Rightarrow> job \<Rightarrow> bool" where
  "earlier a b \<longleftrightarrow> run_after a < run_after b
     \<or> (run_after a = run_after b \<and> job_created_at a \<le> job_created_at b)"

fun first_row :: "job list \<Rightarrow> job option" where
  "first_row [] = None"
| "first_row (r # rs) =
     (case first_row rs of None \<Rightarrow> Some r | Some q \<Rightarrow> Some (if earlier r q then r else q))"

definition next_row :: "(string \<Rightarrow> bool) \<Rightarrow> int \<Rightarrow> store \<Rightarrow> job option" where
  "next_row locked now s = first_row (filter (\<lambda>r. claimable now r \<and> \<not> locked (job_id r)) s)"

definition cancelled :: "job \<Rightarrow> int \<Rightarrow> job result" where
  "cancelled j now =
     BackgroundJob (j\<lparr>job_status := CANCELLED, lease_owner := None, lease_expires_at := None,
       cancel_requested := True, job_updated_at := now, finished_at := Some now\<rparr>)"

text \<open>Stored without a validation of its own.\<close>

definition exhausted :: "job \<Rightarrow> int \<Rightarrow> job" where
  "exhausted j now =
     j\<lparr>job_status := FAILED, lease_owner := None, lease_expires_at := None,
       error_code := Some ''attempts_exhausted'',
       error_message := Some ''background job lease expired after the final attempt'',
       job_updated_at := now, finished_at := Some now\<rparr>"

definition claimed :: "job \<Rightarrow> string \<Rightarrow> int \<Rightarrow> int \<Rightarrow> job result" where
  "claimed j worker lease now =
     BackgroundJob (j\<lparr>job_status := RUNNING, attempt_count := attempt_count j + 1,
       lease_owner := Some (strip worker), lease_expires_at := Some (now + lease),
       started_at := (case started_at j of None \<Rightarrow> Some now | Some t \<Rightarrow> Some t),
       job_updated_at := now, finished_at := None, error_code := None, error_message := None\<rparr>)"

lemma first_row_in: "first_row rs = Some r \<Longrightarrow> r \<in> set rs"
  by (induction rs arbitrary: r) (auto split: option.splits if_splits)

lemma BackgroundJob_Inr: "BackgroundJob j = Inr k \<Longrightarrow> k = j"
  by (auto simp: BackgroundJob_def validate_lifecycle_def error_dests split: job_status.splits)

lemma next_row_facts:
  assumes "next_row locked now s = Some row"
  shows "row \<in> set s" "claimable now row" "\<not> locked (job_id row)"
  using first_row_in [OF assms [unfolded next_row_def]] by auto

text \<open>Every pass of the loop that continues makes a claimable row terminal.\<close>

lemma update_shrinks:
  assumes "row \<in> set s" "claimable now row" "job_id j = job_id row" "\<not> claimable now j"
  shows "length (filter (claimable now) (update_row s j)) < length (filter (claimable now) s)"
proof -
  have le: "length (filter (claimable now) (update_row t j)) \<le> length (filter (claimable now) t)" for t
    using assms(4) by (induction t) (auto simp: update_row_def)
  obtain us vs where s: "s = us @ row # vs" using assms(1) by (meson split_list)
  show ?thesis
    using le [of us] le [of vs] assms(2-4) by (simp add: s update_row_def)
qed

lemma finishing_shrinks:
  assumes "next_row locked now s = Some row" "from_row row = Inr current"
    and "cancelled current now = Inr j \<or> j = exhausted current now"
  shows "length (filter (claimable now) (update_row s j)) < length (filter (claimable now) s)"
proof -
  have "current = row" using assms(2) BackgroundJob_Inr by (simp add: from_row_def)
  moreover from this assms(3) have "job_id j = job_id row" "\<not> claimable now j"
    by (auto simp: cancelled_def exhausted_def claimable_def dest!: BackgroundJob_Inr)
  ultimately show ?thesis using next_row_facts [OF assms(1)] by (intro update_shrinks)
qed

function claim_loop :: "string \<Rightarrow> int \<Rightarrow> (string \<Rightarrow> bool) \<Rightarrow> int \<Rightarrow> store \<Rightarrow> job option outcome" where
  "claim_loop worker lease locked now s =
     (case next_row locked now s of
        None \<Rightarrow> (Inr None, s)
      | Some row \<Rightarrow>
         (case from_row row of
            Inl e \<Rightarrow> (Inl e, s)
          | Inr current \<Rightarrow>
              if cancel_requested current then
                (case cancelled current now of
                   Inl e \<Rightarrow> (Inl e, s)
                 | Inr j \<Rightarrow> claim_loop worker lease locked now (update_row s j))
              else if attempt_count current \<ge> max_attempts current then
                claim_loop worker lease locked now (update_row s (exhausted current now))
              else
                (case claimed current worker lease now of
                   Inl e \<Rightarrow> (Inl e, s)
                 | Inr j \<Rightarrow> (Inr (Some j), update_row s j))))"
  by pat_completeness auto
termination
  by (relation "measure (\<lambda>(worker, lease, locked, now, s). length (filter (claimable now) s))")
    (auto intro: finishing_shrinks)

declare claim_loop.simps [simp del]

definition claim_next :: "string \<Rightarrow> int \<Rightarrow> (string \<Rightarrow> bool) \<Rightarrow> timestamp \<Rightarrow> store \<Rightarrow> job option outcome" where
  "claim_next worker lease locked now s =
     (case to_utc ''background job operation time must include timezone'' now of
        Inl e \<Rightarrow> (Inl e, s)
      | Inr claimed_at \<Rightarrow>
          if strip worker = [] \<or> lease \<le> 0
          then (Inl (ValueError ''worker ID and lease duration must be valid''), s)
          else claim_loop worker lease locked claimed_at s)"

section \<open>Operations of the worker that owns a job\<close>

definition owned_running :: "string \<Rightarrow> string \<Rightarrow> int \<Rightarrow> store \<Rightarrow> job result" where
  "owned_running jid worker now s =
     (case find_row jid s of
        None \<Rightarrow> Inl (MissingKey jid)
      | Some row \<Rightarrow> bindR (from_row row) (\<lambda>j. raising
          [(job_status j \<noteq> RUNNING \<or> lease_owner j \<noteq> Some worker
            \<or> (case lease_expires_at j of None \<Rightarrow> True | Some t \<Rightarrow> t \<le> now),
              LeaseConflict ''background job lease is not owned by this worker'')] j))"

definition heartbeat :: "string \<Rightarrow> string \<Rightarrow> int \<Rightarrow> int \<Rightarrow> int \<Rightarrow> store \<Rightarrow> job outcome" where
  "heartbeat jid worker progress lease now s =
     persist s (bindR (raising
         [(lease \<le> 0, ValueError ''background job lease duration must be positive'')] ())
       (\<lambda>_. bindR (owned_running jid worker now s)
         (\<lambda>j. bindR (raising
             [(progress < progress_percent j \<or> \<not> (0 \<le> progress \<and> progress < 100),
                 ValueError ''background job progress must be monotonic and below 100'')] ())
           (\<lambda>_. BackgroundJob (j\<lparr>progress_percent := progress, lease_expires_at := Some (now + lease),
                                 job_updated_at := now\<rparr>)))))"

definition succeed :: "string \<Rightarrow> string \<Rightarrow> string option \<Rightarrow> int \<Rightarrow> store \<Rightarrow> job outcome" where
  "succeed jid worker reference now s =
     persist s (bindR (owned_running jid worker now s)
       (\<lambda>j. if cancel_requested j then cancelled j now
            else BackgroundJob (j\<lparr>job_status := SUCCEEDED, progress_percent := 100, lease_owner := None,
                   lease_expires_at := None, result_reference := reference, job_updated_at := now,
                   finished_at := Some now\<rparr>)))"

definition fail :: "string \<Rightarrow> string \<Rightarrow> string \<Rightarrow> string \<Rightarrow> bool \<Rightarrow> int option \<Rightarrow> int \<Rightarrow> store \<Rightarrow> job outcome" where
  "fail jid worker code message retryable retry_delay now s =
     (let delay = (case retry_delay of None \<Rightarrow> 0 | Some d \<Rightarrow> d)
      in persist s (bindR (raising
           [(delay < 0, ValueError ''background job retry delay cannot be negative'')] ())
         (\<lambda>_. bindR (owned_running jid worker now s)
           (\<lambda>j. if cancel_requested j then cancelled j now
                else if retryable \<and> attempt_count j < max_attempts j then
                  BackgroundJob (j\<lparr>job_status := QUEUED, progress_percent := 0, lease_owner := None,
                    lease_expires_at := None, run_after := now + delay, job_updated_at := now\<rparr>)
                else
                  BackgroundJob (j\<lparr>job_status := FAILED, lease_owner := None, lease_expires_at := None,
                    error_code := Some code, error_message := Some (take 500 message),
                    job_updated_at := now, finished_at := Some now\<rparr>)))))"

section \<open>Operations of the operator\<close>

definition request_cancel :: "string \<Rightarrow> int \<Rightarrow> store \<Rightarrow> job outcome" where
  "request_cancel jid now s =
     (case find_row jid s of
        None \<Rightarrow> (Inl (MissingKey jid), s)
      | Some row \<Rightarrow>
         (case from_row row of
            Inl e \<Rightarrow> (Inl e, s)
          | Inr j \<Rightarrow>
              if is_terminal j then (Inr j, s)
              else if job_status j = QUEUED then persist s (cancelled j now)
              else persist s (BackgroundJob (j\<lparr>cancel_requested := True, job_updated_at := now\<rparr>))))"

definition retry_failed :: "string \<Rightarrow> int \<Rightarrow> store \<Rightarrow> job outcome" where
  "retry_failed jid now s =
     (case find_row jid s of
        None \<Rightarrow> (Inl (MissingKey jid), s)
      | Some row \<Rightarrow>
          persist s (bindR (from_row row)
            (\<lambda>j. bindR (raising
               [(job_status j \<noteq> FAILED, ValueError ''only failed background jobs can be retried''),
                (attempt_count j \<ge> MAX_BACKGROUND_JOB_ATTEMPTS,
                   ValueError ''background job reached the hard attempt limit'')] ())
              (\<lambda>_. BackgroundJob (j\<lparr>job_status := QUEUED, progress_percent := 0,
                 max_attempts := attempt_count j + 1, run_after := now, cancel_requested := False,
                 result_reference := None, error_code := None, error_message := None,
                 job_updated_at := now, finished_at := None\<rparr>)))))"

text \<open>Every operation but reading normalizes its time first; a naive one raises.\<close>

definition at_time :: "timestamp \<Rightarrow> (int \<Rightarrow> store \<Rightarrow> 'a outcome) \<Rightarrow> store \<Rightarrow> 'a outcome" where
  "at_time now f s =
     (case to_utc ''background job operation time must include timezone'' now of
        Inl e \<Rightarrow> (Inl e, s) | Inr t \<Rightarrow> f t s)"

section \<open>The worker\<close>

text \<open>\<open>BackgroundJobContext.cancellation_requested\<close>.\<close>

definition cancellation_requested :: "string \<Rightarrow> store \<Rightarrow> bool result" where
  "cancellation_requested jid s =
     bindR (get_job jid s) (\<lambda>r. Inr (case r of None \<Rightarrow> False | Some j \<Rightarrow> cancel_requested j))"

definition BackgroundJobWorker :: "int \<Rightarrow> unit result" where
  "BackgroundJobWorker lease =
     raising [(lease \<le> 0, ValueError ''background job lease duration must be positive'')] ()"

text \<open>
  The worker sees the repository through its protocol. \<open>sql_repository\<close> is the repository above;
  \<open>locked\<close> are the rows other sessions hold.
\<close>

record 's repository =
  repo_get :: "string \<Rightarrow> 's \<Rightarrow> job option result"
  repo_claim_next :: "string \<Rightarrow> int \<Rightarrow> int \<Rightarrow> 's \<Rightarrow> job option result \<times> 's"
  repo_succeed :: "string \<Rightarrow> string \<Rightarrow> string option \<Rightarrow> int \<Rightarrow> 's \<Rightarrow> job result \<times> 's"
  repo_fail :: "string \<Rightarrow> string \<Rightarrow> string \<Rightarrow> string \<Rightarrow> bool \<Rightarrow> int option \<Rightarrow> int \<Rightarrow> 's \<Rightarrow> job result \<times> 's"
  repo_request_cancel :: "string \<Rightarrow> int \<Rightarrow> 's \<Rightarrow> job result \<times> 's"

definition sql_repository :: "(string \<Rightarrow> bool) \<Rightarrow> store repository" where
  "sql_repository locked =
     \<lparr>repo_get = get_job,
      repo_claim_next = (\<lambda>worker lease now. claim_next worker lease locked (Aware now)),
      repo_succeed = succeed, repo_fail = fail, repo_request_cancel = request_cancel\<rparr>"

text \<open>
  A handler is code that is registered elsewhere; it gets the claimed job, may change the store
  (through its context) and ends with an outcome. \<open>t\<close> is the time of the claim and \<open>u\<close> the time of the
  operation that ends the attempt.
\<close>

type_synonym 's handler = "job \<Rightarrow> 's \<Rightarrow> handler_outcome \<times> 's"

definition returned_reference_ok :: "string option \<Rightarrow> bool" where
  "returned_reference_ok r \<longleftrightarrow> (case r of None \<Rightarrow> True | Some t \<Rightarrow> sized 1 200 t)"

definition fail_retryable ::
  "'s repository \<Rightarrow> string \<Rightarrow> job \<Rightarrow> string \<Rightarrow> string \<Rightarrow> int \<Rightarrow> 's \<Rightarrow> job result \<times> 's" where
  "fail_retryable repo worker j code message u s =
     (case retry_delay_after (get_background_job_policy (job_kind j)) (attempt_count j) of
        Inl e \<Rightarrow> (Inl e, s)
      | Inr d \<Rightarrow> repo_fail repo (job_id j) worker code message True (Some d) u s)"

text \<open>How the worker ends an attempt whose handler has run.\<close>

fun conclude ::
  "'s repository \<Rightarrow> string \<Rightarrow> job \<Rightarrow> int \<Rightarrow> handler_outcome \<times> 's \<Rightarrow> job result \<times> 's" where
  "conclude repo worker j u (HandlerError code message True, s) =
     fail_retryable repo worker j code message u s"
| "conclude repo worker j u (HandlerError code message False, s) =
     repo_fail repo (job_id j) worker code message False None u s"
| "conclude repo worker j u (HandlerRaised, s) =
     fail_retryable repo worker j ''job_handler_failed'' ''background job handler failed'' u s"
| "conclude repo worker j u (HandlerReturned reference, s) =
     (if returned_reference_ok reference then repo_succeed repo (job_id j) worker reference u s
      else fail_retryable repo worker j ''job_handler_failed'' ''background job handler failed'' u s)"

definition finish_attempt ::
  "'s repository \<Rightarrow> 's handler handler_registry \<Rightarrow> string \<Rightarrow> job \<Rightarrow> int \<Rightarrow> 's \<Rightarrow> job result \<times> 's" where
  "finish_attempt repo reg worker j u s =
     (if payload_version j \<notin> set (supported_payload_versions (get_background_job_policy (job_kind j)))
      then repo_fail repo (job_id j) worker ''unsupported_job_payload_version''
             ''background job payload version is not supported'' False None u s
      else case get_handler reg (job_kind j) of
          Inl e \<Rightarrow> repo_fail repo (job_id j) worker ''unsupported_job_kind''
                     ''background job kind has no registered handler'' False None u s
        | Inr handler \<Rightarrow> conclude repo worker j u (handler j s))"

definition run_once ::
  "'s repository \<Rightarrow> 's handler handler_registry \<Rightarrow> string \<Rightarrow> int \<Rightarrow> int \<Rightarrow> int \<Rightarrow> 's
   \<Rightarrow> job option result \<times> 's" where
  "run_once repo reg worker lease t u s =
     (case repo_claim_next repo worker lease t s of
        (Inl e, s1) \<Rightarrow> (Inl e, s1)
      | (Inr None, s1) \<Rightarrow> (Inr None, s1)
      | (Inr (Some j), s1) \<Rightarrow>
          if cancel_requested j then
            (case repo_request_cancel repo (job_id j) u s1 of
               (Inl e, s2) \<Rightarrow> (Inl e, s2) | (Inr k, s2) \<Rightarrow> (Inr (Some k), s2))
          else
            (case finish_attempt repo reg worker j u s1 of
               (Inl (LeaseConflict m), s2) \<Rightarrow> (repo_get repo (job_id j) s2, s2)
             | (Inl e, s2) \<Rightarrow> (Inl e, s2)
             | (Inr k, s2) \<Rightarrow> (Inr (Some k), s2)))"

section \<open>Executions\<close>

datatype job_operation =
    Enqueue store job
  | Claim string int "string \<Rightarrow> bool"
  | Heartbeat string string int int
  | Succeed string string "string option"
  | Fail string string string string bool "int option"
  | RequestCancel string
  | RetryFailed string

fun perform :: "job_operation \<Rightarrow> int \<Rightarrow> store \<Rightarrow> store" where
  "perform (Enqueue seen j) now s = snd (enqueue seen j s)"
| "perform (Claim worker lease locked) now s = snd (claim_next worker lease locked (Aware now) s)"
| "perform (Heartbeat jid worker progress lease) now s = snd (heartbeat jid worker progress lease now s)"
| "perform (Succeed jid worker reference) now s = snd (succeed jid worker reference now s)"
| "perform (Fail jid worker code message retryable delay) now s =
     snd (fail jid worker code message retryable delay now s)"
| "perform (RequestCancel jid) now s = snd (request_cancel jid now s)"
| "perform (RetryFailed jid) now s = snd (retry_failed jid now s)"

text \<open>Only jobs that the builder made by now are enqueued.\<close>

definition built_job :: "int \<Rightarrow> job \<Rightarrow> bool" where
  "built_job now j \<longleftrightarrow>
     (\<exists>digits clock kind content key budget after t.
        build_job digits clock kind content key budget after t = Inr j) \<and> job_created_at j \<le> now"

fun allowed :: "int \<Rightarrow> job_operation \<Rightarrow> bool" where
  "allowed now (Enqueue seen j) = built_job now j"
| "allowed now op = True"

text \<open>
  \<open>executes s t s' t'\<close>: some operations, of any sessions in any order, take the store from \<open>s\<close> at time
  \<open>t\<close> to \<open>s'\<close> at time \<open>t'\<close>; the clock does not go back.
\<close>

inductive executes :: "store \<Rightarrow> int \<Rightarrow> store \<Rightarrow> int \<Rightarrow> bool" where
  no_step: "executes s t s t"
| one_step: "executes s t s' t' \<Longrightarrow> t' \<le> u \<Longrightarrow> allowed u op \<Longrightarrow> executes s t (perform op u s') u"

inductive_cases executes_elim: "executes s t s' t'"

end
