(* ===== verification/Job_Lifecycle.thy ===== *)
theory Job_Lifecycle imports Job_Store
begin

text \<open>
  The lifecycle of a background job as an abstract state machine, the proof that every operation of
  the repository moves rows along it, the invariants of the job table, and what the claim, the leases,
  cancellation, retries and the worker guarantee.
\<close>

section \<open>Valid jobs\<close>

definition valid_job :: "job \<Rightarrow> bool" where
  "valid_job j \<longleftrightarrow> (\<forall>(n, ok) \<in> set (job_fields j). ok)
     \<and> job_created_at j \<le> job_updated_at j \<and> job_created_at j \<le> run_after j
     \<and> (lease_owner j = None \<longleftrightarrow> lease_expires_at j = None) \<and> attempt_count j \<le> max_attempts j
     \<and> (case job_status j of
          QUEUED \<Rightarrow> lease_owner j = None \<and> finished_at j = None \<and> no_outcome j
        | RUNNING \<Rightarrow> lease_owner j \<noteq> None \<and> started_at j \<noteq> None \<and> finished_at j = None
            \<and> 1 \<le> attempt_count j \<and> progress_percent j < 100 \<and> no_outcome j
        | SUCCEEDED \<Rightarrow> lease_owner j = None \<and> finished_at j \<noteq> None \<and> progress_percent j = 100
            \<and> error_code j = None \<and> error_message j = None
        | FAILED \<Rightarrow> lease_owner j = None \<and> finished_at j \<noteq> None \<and> result_reference j = None
            \<and> error_code j \<noteq> None \<and> error_message j \<noteq> None
        | CANCELLED \<Rightarrow> lease_owner j = None \<and> finished_at j \<noteq> None \<and> no_outcome j)"

lemma BackgroundJob_Inr_iff: "BackgroundJob j = Inr k \<longleftrightarrow> k = j \<and> valid_job j"
  by (cases "job_status j")
    (auto simp: BackgroundJob_def validate_lifecycle_def valid_job_def bindR_Inr_iff check_fields_Inr_iff
      raising_Inr_iff not_less not_le)

lemma from_row_Inr_iff: "from_row r = Inr j \<longleftrightarrow> j = r \<and> valid_job r"
  by (simp add: from_row_def BackgroundJob_Inr_iff)

section \<open>The lifecycle of a job\<close>

text \<open>\<open>lifecycle now r j\<close>: the transitions a job can make; the abstract machine of this component.\<close>

definition owns :: "string \<Rightarrow> int \<Rightarrow> job \<Rightarrow> bool" where
  "owns worker now r \<longleftrightarrow> job_status r = RUNNING \<and> lease_owner r = Some worker
     \<and> (\<exists>e. lease_expires_at r = Some e \<and> now < e)"

inductive lifecycle :: "int \<Rightarrow> job \<Rightarrow> job \<Rightarrow> bool" where
  claiming: "claimable now r \<Longrightarrow> \<not> cancel_requested r \<Longrightarrow> attempt_count r < max_attempts r \<Longrightarrow>
    claimed r worker lease now = Inr j \<Longrightarrow> lifecycle now r j"
| exhausting: "claimable now r \<Longrightarrow> \<not> cancel_requested r \<Longrightarrow> max_attempts r \<le> attempt_count r \<Longrightarrow>
    lifecycle now r (exhausted r now)"
| cancelling: "job_status r = QUEUED \<or> (job_status r = RUNNING \<and> cancel_requested r) \<Longrightarrow>
    cancelled r now = Inr j \<Longrightarrow> lifecycle now r j"
| beating: "owns worker now r \<Longrightarrow> progress_percent r \<le> progress \<Longrightarrow> 0 < lease \<Longrightarrow>
    j = r\<lparr>progress_percent := progress, lease_expires_at := Some (now + lease), job_updated_at := now\<rparr> \<Longrightarrow>
    valid_job j \<Longrightarrow> lifecycle now r j"
| succeeding: "owns worker now r \<Longrightarrow> \<not> cancel_requested r \<Longrightarrow>
    j = r\<lparr>job_status := SUCCEEDED, progress_percent := 100, lease_owner := None, lease_expires_at := None,
          result_reference := reference, job_updated_at := now, finished_at := Some now\<rparr> \<Longrightarrow>
    valid_job j \<Longrightarrow> lifecycle now r j"
| requeueing: "owns worker now r \<Longrightarrow> \<not> cancel_requested r \<Longrightarrow> attempt_count r < max_attempts r \<Longrightarrow> 0 \<le> delay \<Longrightarrow>
    j = r\<lparr>job_status := QUEUED, progress_percent := 0, lease_owner := None, lease_expires_at := None,
          run_after := now + delay, job_updated_at := now\<rparr> \<Longrightarrow>
    valid_job j \<Longrightarrow> lifecycle now r j"
| failing: "owns worker now r \<Longrightarrow> \<not> cancel_requested r \<Longrightarrow>
    j = r\<lparr>job_status := FAILED, lease_owner := None, lease_expires_at := None, error_code := Some code,
          error_message := Some message, job_updated_at := now, finished_at := Some now\<rparr> \<Longrightarrow>
    valid_job j \<Longrightarrow> lifecycle now r j"
| requesting: "job_status r = RUNNING \<Longrightarrow> j = r\<lparr>cancel_requested := True, job_updated_at := now\<rparr> \<Longrightarrow>
    valid_job j \<Longrightarrow> lifecycle now r j"
| retrying: "job_status r = FAILED \<Longrightarrow> attempt_count r < MAX_BACKGROUND_JOB_ATTEMPTS \<Longrightarrow>
    j = r\<lparr>job_status := QUEUED, progress_percent := 0, max_attempts := attempt_count r + 1,
          run_after := now, cancel_requested := False, result_reference := None, error_code := None,
          error_message := None, job_updated_at := now, finished_at := None\<rparr> \<Longrightarrow>
    valid_job j \<Longrightarrow> lifecycle now r j"

inductive_cases lifecycle_elim: "lifecycle now r j"

lemma lifecycle_identity:
  "lifecycle now r j \<Longrightarrow> job_id j = job_id r \<and> job_kind j = job_kind r
     \<and> idempotency_key j = idempotency_key r \<and> job_created_at j = job_created_at r
     \<and> payload j = payload r \<and> payload_version j = payload_version r"
  by (erule lifecycle_elim)
    (auto simp: claimed_def cancelled_def exhausted_def BackgroundJob_Inr_iff)

text \<open>What holds of every row at time \<open>t\<close>.\<close>

definition good_row :: "int \<Rightarrow> job \<Rightarrow> bool" where
  "good_row t r \<longleftrightarrow> valid_job r \<and> job_updated_at r \<le> t
     \<and> (\<forall>x. started_at r = Some x \<longrightarrow> job_created_at r \<le> x \<and> x \<le> t)
     \<and> (\<forall>x. finished_at r = Some x \<longrightarrow> job_created_at r \<le> x \<and> x \<le> t
          \<and> (\<forall>y. started_at r = Some y \<longrightarrow> y \<le> x))
     \<and> (cancel_requested r \<longrightarrow> job_status r \<in> {RUNNING, CANCELLED})
     \<and> (job_status r = QUEUED \<longrightarrow> attempt_count r < max_attempts r \<and> progress_percent r = 0)"

lemma claimable_open: "claimable now r \<Longrightarrow> job_status r = QUEUED \<or> job_status r = RUNNING"
  by (auto simp: claimable_def)

lemma exhausted_valid:
  assumes "valid_job r" "job_status r = QUEUED \<or> job_status r = RUNNING" "job_created_at r \<le> now"
  shows "valid_job (exhausted r now)"
  using assms
  by (auto simp: valid_job_def job_fields_def exhausted_def no_outcome_def opt_sized_def sized_def)

lemma good_lifecycle:
  assumes r: "good_row t r" and u: "t \<le> u" and step: "lifecycle u r j" shows "good_row u j"
proof -
  have r': "valid_job r" "job_created_at r \<le> u" "job_updated_at r \<le> u"
      "\<And>x. started_at r = Some x \<Longrightarrow> job_created_at r \<le> x \<and> x \<le> u"
      "\<And>x. finished_at r = Some x \<Longrightarrow> job_created_at r \<le> x \<and> x \<le> u \<and> (\<forall>y. started_at r = Some y \<longrightarrow> y \<le> x)"
      "cancel_requested r \<Longrightarrow> job_status r \<in> {RUNNING, CANCELLED}"
    using r u by (auto simp: good_row_def valid_job_def)
  from step show ?thesis
  proof cases
    case exhausting
    with r' show ?thesis using exhausted_valid [of r u] claimable_open [of u r]
      by (auto simp: good_row_def exhausted_def)
  next
    case claiming
    with r' show ?thesis by (auto simp: good_row_def claimed_def BackgroundJob_Inr_iff split: option.splits)
  next
    case cancelling
    with r' show ?thesis by (auto simp: good_row_def cancelled_def BackgroundJob_Inr_iff)
  qed (use r' in \<open>auto simp: good_row_def owns_def\<close>)
qed

section \<open>Every operation moves rows along the lifecycle\<close>

text \<open>\<open>moves P now s s'\<close>: rows that satisfy \<open>P\<close> move, the others stay.\<close>

inductive moves :: "(job \<Rightarrow> bool) \<Rightarrow> int \<Rightarrow> store \<Rightarrow> store \<Rightarrow> bool" for P where
  stay: "moves P now s s"
| move: "moves P now s s' \<Longrightarrow> r \<in> set s' \<Longrightarrow> P r \<Longrightarrow> lifecycle now r j \<Longrightarrow> moves P now s (update_row s' j)"

lemma find_row_Some: "find_row jid s = Some r \<Longrightarrow> r \<in> set s \<and> job_id r = jid"
  by (auto simp: find_row_def find_Some_iff)

lemma one_move: "r \<in> set s \<Longrightarrow> P r \<Longrightarrow> lifecycle now r j \<Longrightarrow> moves P now s (update_row s j)"
  by (rule move [OF stay])

lemma moves_trans: "moves P now s2 s3 \<Longrightarrow> moves P now s1 s2 \<Longrightarrow> moves P now s1 s3"
  by (induction rule: moves.induct) (auto intro: moves.intros)

lemma owned_running_Inr_iff:
  "owned_running jid worker now s = Inr j \<longleftrightarrow> find_row jid s = Some j \<and> valid_job j \<and> owns worker now j"
  by (auto simp: owned_running_def owns_def bindR_Inr_iff raising_Inr_iff from_row_Inr_iff not_le
      split: option.splits)

text \<open>A persisted result was computed from a row of the store.\<close>

lemma persist_moves:
  assumes "\<And>j. r = Inr j \<Longrightarrow> \<exists>row \<in> set s. P row \<and> lifecycle now row j"
  shows "moves P now s (snd (persist s r))"
  using assms by (cases r) (auto simp: persist_def intro: stay one_move)

lemma owned_moves:
  assumes "\<And>row j. row \<in> set s \<Longrightarrow> owns worker now row \<Longrightarrow> f row = Inr j \<Longrightarrow> lifecycle now row j"
  shows "moves (\<lambda>r. job_id r = jid \<and> owns worker now r) now s (snd (persist s (bindR (owned_running jid worker now s) f)))"
  by (rule persist_moves) (auto simp: bindR_Inr_iff owned_running_Inr_iff dest!: find_row_Some intro: assms)

lemma guarded_moves:
  "(\<And>u. g = Inr u \<Longrightarrow> moves P now s (snd (persist s m))) \<Longrightarrow> moves P now s (snd (persist s (bindR g (\<lambda>_. m))))"
  by (cases g) (auto simp: persist_def stay)

lemma heartbeat_moves: "moves (\<lambda>r. job_id r = jid \<and> owns worker now r) now s (snd (heartbeat jid worker progress lease now s))"
  unfolding heartbeat_def
  by (intro guarded_moves owned_moves) (auto simp: error_dests BackgroundJob_Inr_iff not_less not_le intro: beating)

lemma succeed_moves: "moves (\<lambda>r. job_id r = jid \<and> owns worker now r) now s (snd (succeed jid worker reference now s))"
  unfolding succeed_def
  by (intro owned_moves)
    (auto simp: BackgroundJob_Inr_iff split: if_splits intro: succeeding cancelling simp: owns_def)

lemma fail_moves: "moves (\<lambda>r. job_id r = jid \<and> owns worker now r) now s (snd (fail jid worker code message retryable delay now s))"
  unfolding fail_def Let_def
  by (intro guarded_moves owned_moves)
    (auto simp: BackgroundJob_Inr_iff raising_Inr_iff not_less split: if_splits intro: requeueing failing,
      auto simp: owns_def intro: cancelling)

lemma request_cancel_moves: "moves (\<lambda>r. job_id r = jid) now s (snd (request_cancel jid now s))"
proof (cases "find_row jid s")
  case (Some row)
  have "moves (\<lambda>r. job_id r = jid) now s (snd (persist s (BackgroundJob (row\<lparr>cancel_requested := True, job_updated_at := now\<rparr>))))"
    if "job_status row = RUNNING"
    using that find_row_Some [OF Some] by (intro persist_moves) (auto simp: BackgroundJob_Inr_iff intro: requesting)
  moreover have "moves (\<lambda>r. job_id r = jid) now s (snd (persist s (cancelled row now)))" if "job_status row = QUEUED"
    using that find_row_Some [OF Some] by (intro persist_moves) (auto intro: cancelling)
  moreover have "job_status row = QUEUED \<or> job_status row = RUNNING" if "\<not> is_terminal row"
    using that by (cases "job_status row") (auto simp: is_terminal_def TERMINAL_JOB_STATUSES_def)
  ultimately show ?thesis
    using Some by (auto simp: request_cancel_def from_row_Inr_iff intro: stay split: sum.splits)
qed (simp add: request_cancel_def stay)

lemma retry_failed_moves: "moves (\<lambda>r. job_id r = jid \<and> job_status r = FAILED) now s (snd (retry_failed jid now s))"
  by (auto simp: retry_failed_def stay error_dests from_row_Inr_iff BackgroundJob_Inr_iff not_le
      dest!: find_row_Some intro!: persist_moves retrying bexI split: option.splits)

lemma claim_loop_moves: "moves (claimable now) now s (snd (claim_loop worker lease locked now s))"
proof (induction worker lease locked now s rule: claim_loop.induct)
  case (1 worker lease locked now s)
  show ?case
  proof (cases "next_row locked now s")
    case None
    then show ?thesis by (simp add: claim_loop.simps [of _ _ _ _ s] stay)
  next
    case (Some row)
    note row = next_row_facts [OF Some]
    show ?thesis
    proof (cases "from_row row")
      case (Inl e)
      with Some show ?thesis by (simp add: claim_loop.simps [of _ _ _ _ s] stay)
    next
      case (Inr cur)
      then have cur: "cur = row" by (simp add: from_row_Inr_iff)
      have first: "moves (claimable now) now s (update_row s j)" if "lifecycle now row j" for j
        using row(1,2) that by (rule one_move)
      show ?thesis
      proof (cases "cancel_requested row")
        case True
        show ?thesis
        proof (cases "cancelled row now")
          case (Inr j)
          have "lifecycle now row j" using True Inr row(2) claimable_open by (blast intro: cancelling)
          then show ?thesis
            using 1(1) [OF Some] \<open>from_row row = _\<close> Inr True Some cur first
            by (auto simp: claim_loop.simps [of _ _ _ _ s] intro: moves_trans)
        qed (use True Some Inr cur in \<open>simp add: claim_loop.simps [of _ _ _ _ s] stay\<close>)
      next
        case False
        show ?thesis
        proof (cases "max_attempts row \<le> attempt_count row")
          case True
          have "lifecycle now row (exhausted row now)" using True False row(2) by (blast intro: exhausting)
          then show ?thesis
            using 1(2) [OF Some] Inr True False Some cur first
            by (auto simp: claim_loop.simps [of _ _ _ _ s] intro: moves_trans)
        next
          case enough: False
          show ?thesis
          proof (cases "claimed row worker lease now")
            case (Inr j)
            then have "lifecycle now row j" using False enough row(2) by (auto intro: claiming)
            then show ?thesis
              using \<open>from_row row = _\<close> Inr enough False Some cur first
              by (simp add: claim_loop.simps [of _ _ _ _ s])
          qed (use enough False Some Inr cur in \<open>simp add: claim_loop.simps [of _ _ _ _ s] stay\<close>)
        qed
      qed
    qed
  qed
qed

lemma claim_next_moves: "moves (claimable now) now s (snd (claim_next worker lease locked (Aware now) s))"
  by (simp add: claim_next_def stay claim_loop_moves)

section \<open>Invariants of the store\<close>

definition same_key :: "job \<Rightarrow> job \<Rightarrow> bool" where
  "same_key a b \<longleftrightarrow> job_kind a = job_kind b \<and> idempotency_key a \<noteq> None
     \<and> idempotency_key a = idempotency_key b"

definition good_store :: "int \<Rightarrow> store \<Rightarrow> bool" where
  "good_store t s \<longleftrightarrow> sorted_wrt (\<lambda>a b. job_id a \<noteq> job_id b \<and> \<not> same_key a b) s \<and> list_all (good_row t) s"

lemma good_row_later: "good_row t r \<Longrightarrow> t \<le> u \<Longrightarrow> good_row u r"
  by (auto simp: good_row_def)

lemma good_store_later: "good_store t s \<Longrightarrow> t \<le> u \<Longrightarrow> good_store u s"
  by (auto simp: good_store_def list_all_iff intro: good_row_later)

lemma good_store_unique:
  assumes "good_store t s" "a \<in> set s" "b \<in> set s" "job_id a = job_id b" shows "a = b"
proof -
  have "distinct (map job_id s)" using assms(1) by (induction s) (auto simp: good_store_def)
  then show ?thesis using assms(2-4) by (auto simp: distinct_map dest: inj_onD)
qed

lemma good_store_update:
  assumes s: "good_store t s" and r: "r \<in> set s" "lifecycle t r j"
  shows "good_store t (update_row s j)"
proof -
  define f where "f = (\<lambda>a. if job_id a = job_id j then j else a)"
  have same: "job_id (f a) = job_id a \<and> job_kind (f a) = job_kind a \<and> idempotency_key (f a) = idempotency_key a"
    if "a \<in> set s" for a
    using lifecycle_identity [OF r(2)] good_store_unique [OF s that r(1)] by (auto simp: f_def)
  have "good_row t j" using s r by (auto simp: good_store_def list_all_iff intro: good_lifecycle)
  then have "list_all (good_row t) (map f s)" using s by (auto simp: good_store_def list_all_iff f_def)
  moreover have "sorted_wrt (\<lambda>a b. job_id (f a) \<noteq> job_id (f b) \<and> \<not> same_key (f a) (f b)) s"
    using s unfolding good_store_def
    by (auto elim!: sorted_wrt_mono_rel [rotated] simp: same same_key_def)
  ultimately show ?thesis by (simp add: good_store_def update_row_def sorted_wrt_map f_def [symmetric])
qed

lemma good_store_moves: "moves P t s s' \<Longrightarrow> good_store t s \<Longrightarrow> good_store t s'"
  by (induction rule: moves.induct) (auto intro: good_store_update)

lemma built_job_good:
  assumes "built_job t j" shows "good_row t j \<and> job_status j = QUEUED \<and> \<not> cancel_requested j"
proof -
  obtain digits clock kind content key budget after now where
      "build_job digits clock kind content key budget after now = Inr j"
    using assms by (auto simp: built_job_def)
  then have "valid_job j \<and> job_status j = QUEUED \<and> \<not> cancel_requested j \<and> attempt_count j = 0
      \<and> progress_percent j = 0 \<and> job_updated_at j = job_created_at j \<and> started_at j = None \<and> finished_at j = None"
    by (auto simp: build_job_def Let_def bindR_Inr_iff check_fields_Inr_iff validate_lifecycle_def
        raising_Inr_iff valid_job_def job_fields_def not_less)
  then show ?thesis
    using assms by (auto simp: built_job_def good_row_def valid_job_def job_fields_def)
qed

lemma good_store_snoc:
  assumes "good_store t s" "good_row t j" "\<not> violates_unique s j" shows "good_store t (s @ [j])"
  using assms by (auto simp: good_store_def sorted_wrt_append list_ex_iff violates_unique_def same_key_def)

text \<open>
  An operation moves the rows that it concerns along the lifecycle, or appends a new job.
\<close>

fun concerns :: "job_operation \<Rightarrow> int \<Rightarrow> job \<Rightarrow> bool" where
  "concerns (Enqueue seen j) now r = False"
| "concerns (Claim worker lease locked) now r = claimable now r"
| "concerns (Heartbeat jid worker progress lease) now r = (job_id r = jid \<and> owns worker now r)"
| "concerns (Succeed jid worker reference) now r = (job_id r = jid \<and> owns worker now r)"
| "concerns (Fail jid worker code message retryable delay) now r = (job_id r = jid \<and> owns worker now r)"
| "concerns (RequestCancel jid) now r = (job_id r = jid)"
| "concerns (RetryFailed jid) now r = (job_id r = jid \<and> job_status r = FAILED)"

lemma concerns_functions:
  "concerns (Claim worker lease locked) now = claimable now"
  "concerns (Heartbeat jid worker progress lease) now = (\<lambda>r. job_id r = jid \<and> owns worker now r)"
  "concerns (Succeed jid worker reference) now = (\<lambda>r. job_id r = jid \<and> owns worker now r)"
  "concerns (Fail jid worker code message retryable delay) now = (\<lambda>r. job_id r = jid \<and> owns worker now r)"
  "concerns (RequestCancel jid) now = (\<lambda>r. job_id r = jid)"
  "concerns (RetryFailed jid) now = (\<lambda>r. job_id r = jid \<and> job_status r = FAILED)"
  by (simp_all add: fun_eq_iff)

lemma perform_cases:
  assumes "allowed now op"
  shows "moves (concerns op now) now s (perform op now s)
    \<or> (\<exists>j. perform op now s = s @ [j] \<and> built_job now j \<and> \<not> violates_unique s j)"
proof (cases op)
  case (Enqueue seen j)
  then show ?thesis
    using assms by (auto simp: enqueue_def stay split: sum.splits option.splits)
qed (simp_all add: concerns_functions claim_next_moves heartbeat_moves succeed_moves fail_moves request_cancel_moves
    retry_failed_moves)

lemma perform_good: "good_store t s \<Longrightarrow> t \<le> u \<Longrightarrow> allowed u op \<Longrightarrow> good_store u (perform op u s)"
  using perform_cases [of u op s] good_store_moves good_store_later good_store_snoc built_job_good by metis

lemma executes_good: "executes s t s' t' \<Longrightarrow> good_store t s \<Longrightarrow> good_store t' s' \<and> t \<le> t'"
  by (induction rule: executes.induct) (auto intro: perform_good)

section \<open>What happens to one job\<close>

text \<open>The row of a job after some operations is reached by lifecycle transitions.\<close>

definition later_row :: "job \<Rightarrow> job \<Rightarrow> bool" where
  "later_row = (\<lambda>r j. \<exists>now. lifecycle now r j)\<^sup>*\<^sup>*"

lemma moves_row:
  assumes "moves P now s s'" "good_store now s" "r \<in> set s"
  shows "\<exists>j \<in> set s'. job_id j = job_id r \<and> later_row r j"
  using assms
proof (induction rule: moves.induct)
  case stay
  then show ?case by (auto simp: later_row_def)
next
  case (move now s q k l)
  then obtain j where j: "j \<in> set q" "job_id j = job_id r" "later_row r j" by blast
  have good: "good_store now q" using good_store_moves move by blast
  show ?case
  proof (cases "job_id j = job_id l")
    case True
    then have "k = j" using good_store_unique [OF good] j(1) move lifecycle_identity by metis
    then have "later_row r l" using j(3) move(4) unfolding later_row_def by (auto intro: rtranclp.rtrancl_into_rtrancl)
    with True j show ?thesis by (force simp: update_row_def)
  next
    case False
    with j show ?thesis by (force simp: update_row_def)
  qed
qed

lemma moves_frame:
  assumes "moves P now s s'" "good_store now s" "r \<in> set s" "\<not> P r"
  shows "r \<in> set s'"
  using assms
proof (induction rule: moves.induct)
  case (move now s q k l)
  have "job_id r \<noteq> job_id l"
    using good_store_unique [of now q k r] good_store_moves move lifecycle_identity by metis
  with move show ?case by (force simp: update_row_def)
qed simp

lemma executes_row:
  assumes "executes s t s' t'" "good_store t s" "r \<in> set s"
  shows "\<exists>j \<in> set s'. job_id j = job_id r \<and> later_row r j"
  using assms
proof (induction rule: executes.induct)
  case (no_step s t)
  then show ?case by (auto simp: later_row_def)
next
  case (one_step s t q v u op)
  then obtain j where j: "j \<in> set q" "job_id j = job_id r" "later_row r j" by blast
  have good: "good_store u q" using executes_good [OF one_step(1)] one_step by (auto intro: good_store_later)
  from perform_cases [OF one_step(3)] show ?case
  proof
    assume "moves (concerns op u) u q (perform op u q)"
    from moves_row [OF this good j(1)] j show ?thesis by (metis later_row_def rtranclp_trans)
  qed (use j in auto)
qed

text \<open>A property that every transition keeps holds of the later rows of a job.\<close>

lemma later_row_keeps:
  assumes "later_row r j" "P r" "\<And>now a b. P a \<Longrightarrow> lifecycle now a b \<Longrightarrow> P b" shows "P j"
  using assms unfolding later_row_def by (induction rule: rtranclp_induct) blast+

lemma final_lifecycle: "lifecycle now r j \<Longrightarrow> job_status r \<notin> {SUCCEEDED, CANCELLED}"
  by (erule lifecycle_elim) (auto simp: claimable_def owns_def)

lemma cancel_requested_lifecycle:
  assumes "lifecycle now r j" "cancel_requested r" "job_status r \<in> {RUNNING, CANCELLED}"
  shows "cancel_requested j \<and> job_status j \<in> {RUNNING, CANCELLED}"
  using assms by (elim lifecycle_elim) (auto simp: cancelled_def BackgroundJob_Inr_iff)

section \<open>Claiming\<close>

definition runnable :: "(string \<Rightarrow> bool) \<Rightarrow> int \<Rightarrow> job \<Rightarrow> bool" where
  "runnable locked now r \<longleftrightarrow> claimable now r \<and> \<not> locked (job_id r) \<and> \<not> cancel_requested r
     \<and> attempt_count r < max_attempts r"

lemma earlier_refl: "earlier a a" and earlier_total: "earlier a b \<or> earlier b a" and earlier_trans: "earlier a b \<Longrightarrow> earlier b c \<Longrightarrow> earlier a c"
  by (auto simp: earlier_def)

lemma first_row_None_iff: "first_row rs = None \<longleftrightarrow> rs = []"
  by (cases rs) (auto split: option.splits)

lemma first_row_earliest: "first_row rs = Some r \<Longrightarrow> q \<in> set rs \<Longrightarrow> earlier r q"
proof (induction rs arbitrary: r q)
  case (Cons x rs)
  show ?case
  proof (cases "first_row rs")
    case None
    then have "rs = []" by (simp add: first_row_None_iff)
    with Cons.prems earlier_total [of x x] show ?thesis by auto
  next
    case (Some p)
    then have "earlier p y" if "y \<in> set rs" for y using Cons.IH that by blast
    with Some Cons.prems earlier_total [of p x] show ?thesis
      by (auto split: if_splits intro: earlier_trans earlier_refl)
  qed
qed simp

lemma open_row_facts:
  assumes "good_row t r" "claimable now r" "t \<le> now"
  shows "job_status r = QUEUED \<or> job_status r = RUNNING" "progress_percent r < 100" "no_outcome r"
    "finished_at r = None" "job_created_at r \<le> now" "valid_job r"
    "job_status r = QUEUED \<Longrightarrow> attempt_count r < max_attempts r"
  using assms claimable_open [OF assms(2)] by (auto simp: good_row_def valid_job_def)

lemma cancelled_returns:
  assumes "good_row t r" "claimable now r" "t \<le> now"
  shows "\<exists>j. cancelled r now = Inr j \<and> lifecycle now r j \<or> \<not> cancel_requested r"
  using open_row_facts [OF assms]
  by (auto simp: cancelled_def BackgroundJob_Inr_iff valid_job_def job_fields_def opt_sized_def no_outcome_def
      intro!: cancelling)

lemma claimed_returns:
  assumes "good_row t r" "claimable now r" "t \<le> now" "attempt_count r < max_attempts r" "0 < lease"
    and "strip worker \<noteq> []" "length (strip worker) \<le> 100"
  shows "\<exists>j. claimed r worker lease now = Inr j"
proof -
  have "1 \<le> length (strip worker)" using assms(6) by (cases "strip worker") auto
  then show ?thesis
    using open_row_facts [OF assms(1-3)] assms
    by (auto simp: claimed_def BackgroundJob_Inr_iff valid_job_def job_fields_def opt_sized_def no_outcome_def
        sized_def split: option.splits job_status.splits)
qed

lemma claimed_facts:
  assumes "claimed r worker lease now = Inr j" "0 < lease"
  shows "owns (strip worker) now j" "job_id j = job_id r" "attempt_count j = attempt_count r + 1"
    "cancel_requested j = cancel_requested r" "job_kind j = job_kind r" "max_attempts j = max_attempts r"
    "\<not> claimable now j"
  using assms by (auto simp: claimed_def BackgroundJob_Inr_iff owns_def claimable_def)

definition claim_result ::
  "string \<Rightarrow> int \<Rightarrow> (string \<Rightarrow> bool) \<Rightarrow> int \<Rightarrow> store \<Rightarrow> job option outcome \<Rightarrow> bool" where
  "claim_result worker lease locked now s out \<longleftrightarrow>
     (case out of
        (Inl e, s') \<Rightarrow> False
      | (Inr None, s') \<Rightarrow> (\<forall>r \<in> set s'. claimable now r \<longrightarrow> locked (job_id r))
          \<and> (\<forall>r \<in> set s. \<not> runnable locked now r)
      | (Inr (Some j), s') \<Rightarrow> j \<in> set s' \<and> (\<exists>r \<in> set s. runnable locked now r
            \<and> (\<forall>q \<in> set s. runnable locked now q \<longrightarrow> earlier r q) \<and> claimed r worker lease now = Inr j))"

text \<open>Finishing a row that is not runnable leaves the runnable rows as they are.\<close>

lemma runnable_after_finish:
  assumes "good_store now s" "row \<in> set s" "lifecycle now row j" "\<not> claimable now j" "\<not> runnable locked now row"
  shows "r \<in> set (update_row s j) \<and> runnable locked now r \<longleftrightarrow> r \<in> set s \<and> runnable locked now r"
proof -
  have "\<not> runnable locked now j" using assms(4) by (simp add: runnable_def)
  moreover have "job_id r \<noteq> job_id j" if "r \<in> set s" "runnable locked now r"
    using good_store_unique [OF assms(1) that(1) assms(2)] lifecycle_identity [OF assms(3)] assms(5) that(2) by auto
  ultimately show ?thesis by (auto simp: update_row_def)
qed

lemma claim_result_step:
  assumes "good_store now s" "row \<in> set s" "lifecycle now row j" "\<not> claimable now j" "\<not> runnable locked now row"
    and "claim_result worker lease locked now (update_row s j) out"
  shows "claim_result worker lease locked now s out"
proof -
  obtain res s' where out: "out = (res, s')" by (cases out)
  have same: "(\<exists>r \<in> set (update_row s j). runnable locked now r \<and> P r) \<longleftrightarrow> (\<exists>r \<in> set s. runnable locked now r \<and> P r)"
    "(\<forall>q \<in> set (update_row s j). runnable locked now q \<longrightarrow> Q q) \<longleftrightarrow> (\<forall>q \<in> set s. runnable locked now q \<longrightarrow> Q q)"
    "(\<forall>r \<in> set (update_row s j). \<not> runnable locked now r) \<longleftrightarrow> (\<forall>r \<in> set s. \<not> runnable locked now r)" for P Q
    using runnable_after_finish [OF assms(1-5)] by blast+
  show ?thesis
    using assms(6) by (simp add: claim_result_def out same split: sum.splits option.splits)
qed

lemma claim_loop_result:
  assumes "good_store now s" "0 < lease" "strip worker \<noteq> []" "length (strip worker) \<le> 100"
  shows "claim_result worker lease locked now s (claim_loop worker lease locked now s)"
  using assms
proof (induction worker lease locked now s rule: claim_loop.induct)
  case (1 worker lease locked now s)
  show ?case
  proof (cases "next_row locked now s")
    case None
    then show ?thesis
      by (auto simp: claim_loop.simps [of _ _ _ _ s] claim_result_def next_row_def first_row_None_iff
          filter_empty_conv runnable_def)
  next
    case (Some row)
    note row = next_row_facts [OF Some]
    have good: "good_row now row" using "1.prems"(1) row(1) by (simp add: good_store_def list_all_iff)
    then have reads: "from_row row = Inr row" by (simp add: from_row_Inr_iff good_row_def)
    consider (cancel) "cancel_requested row"
      | (exhaust) "\<not> cancel_requested row" "max_attempts row \<le> attempt_count row"
      | (claim) "\<not> cancel_requested row" "attempt_count row < max_attempts row" by linarith
    then show ?thesis
    proof cases
      case cancel
      then obtain j where j: "cancelled row now = Inr j" "lifecycle now row j"
        using cancelled_returns [OF good row(2)] by auto
      have "\<not> claimable now j" "\<not> runnable locked now row"
        using j(1) cancel by (auto simp: cancelled_def BackgroundJob_Inr_iff claimable_def runnable_def)
      from claim_result_step [OF "1.prems"(1) row(1) j(2) this]
        "1.IH"(1) [OF Some reads cancel j(1) good_store_update [OF "1.prems"(1) row(1) j(2)] "1.prems"(2-4)]
      show ?thesis using Some reads cancel j(1) by (simp add: claim_loop.simps [of _ _ _ _ s])
    next
      case exhaust
      have j: "lifecycle now row (exhausted row now)" using exhaust row(2) by (blast intro: exhausting)
      have "\<not> claimable now (exhausted row now)" "\<not> runnable locked now row"
        using exhaust by (auto simp: exhausted_def claimable_def runnable_def)
      from claim_result_step [OF "1.prems"(1) row(1) j this]
        "1.IH"(2) [OF Some reads exhaust good_store_update [OF "1.prems"(1) row(1) j] "1.prems"(2-4)]
      show ?thesis using Some reads exhaust by (simp add: claim_loop.simps [of _ _ _ _ s])
    next
      case claim
      then obtain j where j: "claimed row worker lease now = Inr j"
        using claimed_returns [OF good row(2)] "1.prems" by blast
      have "earlier row q" if "q \<in> set s" "runnable locked now q" for q
        using that first_row_earliest [OF Some [unfolded next_row_def], of q] by (simp add: runnable_def)
      moreover have "j \<in> set (update_row s j)"
        using row(1) claimed_facts(2) [OF j "1.prems"(2)] by (force simp: update_row_def)
      moreover have "claim_loop worker lease locked now s = (Inr (Some j), update_row s j)"
        using Some reads claim j by (simp add: claim_loop.simps [of _ _ _ _ s])
      ultimately show ?thesis
        using row j claim by (auto simp: claim_result_def runnable_def)
    qed
  qed
qed

end
