(* ===== verification/Job_Worker.thy ===== *)
theory Job_Worker imports Job_Lifecycle
begin

text \<open>
  The repository protocol as an interface, what one round of the worker guarantees over any repository
  that keeps it, and the properties of the job queue as a whole.
\<close>

section \<open>The repository as the worker sees it\<close>

text \<open>
  The contract of a lease-based repository: a claim hands out a job that was ready, if there is one, which the
  worker then holds until its lease ends; and who holds a job can end its attempt, which is stored.
\<close>

locale lease_repository =
  fixes repo :: "'s repository"
    and inv :: "int \<Rightarrow> 's \<Rightarrow> bool"
    and holds :: "string \<Rightarrow> int \<Rightarrow> job \<Rightarrow> 's \<Rightarrow> bool"
    and ready :: "int \<Rightarrow> 's \<Rightarrow> string \<Rightarrow> bool" and recorded :: "job \<Rightarrow> 's \<Rightarrow> bool"
  assumes claim_holds:
    "inv t s \<Longrightarrow> 0 < lease \<Longrightarrow> strip w = w \<Longrightarrow> sized 1 100 w \<Longrightarrow>
       \<exists>r s'. repo_claim_next repo w lease t s = (Inr r, s') \<and> inv t s'
         \<and> (r = None \<longrightarrow> (\<forall>i. \<not> ready t s i))
         \<and> (\<forall>j. r = Some j \<longrightarrow> ready t s (job_id j) \<and> \<not> cancel_requested j \<and> 1 \<le> attempt_count j
              \<and> (\<forall>u. t \<le> u \<longrightarrow> u < t + lease \<longrightarrow> holds w u j s'))"
    and succeed_ends:
    "inv t s \<Longrightarrow> t \<le> u \<Longrightarrow> holds w u j s \<Longrightarrow> opt_sized 1 200 ref \<Longrightarrow>
       \<exists>k s'. repo_succeed repo (job_id j) w ref u s = (Inr k, s')
         \<and> recorded k s' \<and> job_id k = job_id j \<and> job_status k \<in> {SUCCEEDED, CANCELLED}"
    and fail_ends:
    "inv t s \<Longrightarrow> t \<le> u \<Longrightarrow> holds w u j s \<Longrightarrow> sized 1 100 code \<Longrightarrow> message \<noteq> [] \<Longrightarrow>
       (\<And>d. delay = Some d \<Longrightarrow> 0 \<le> d) \<Longrightarrow>
       \<exists>k s'. repo_fail repo (job_id j) w code message retryable delay u s = (Inr k, s')
         \<and> recorded k s' \<and> job_id k = job_id j \<and> job_status k \<in> {QUEUED, FAILED, CANCELLED}"

text \<open>A handler that keeps to itself and whose errors have codes that fit.\<close>

definition orderly_handler :: "'s handler \<Rightarrow> bool" where
  "orderly_handler h \<longleftrightarrow>
     (\<forall>j s. snd (h j s) = s
        \<and> (case fst (h j s) of HandlerError code message retryable \<Rightarrow> sized 1 100 code \<and> message \<noteq> []
           | _ \<Rightarrow> True))"

lemma retry_delay_returns:
  assumes "1 \<le> n" shows "\<exists>d. retry_delay_after (get_background_job_policy k) n = Inr d \<and> 0 \<le> d"
proof -
  have "n = 1 \<or> n = 2 \<or> 3 \<le> n" using assms by linarith
  then show ?thesis
    by (auto simp: retry_delay_after_def get_background_job_policy_def standard_policy_def nth_Cons')
qed

context lease_repository
begin

lemma fail_retryable_ends:
  assumes "inv t s" "t \<le> u" "holds w u j s" "sized 1 100 code" "message \<noteq> []" "1 \<le> attempt_count j"
  shows "\<exists>k s'. fail_retryable repo w j code message u s = (Inr k, s')
    \<and> recorded k s' \<and> job_id k = job_id j \<and> job_status k \<in> {QUEUED, FAILED, CANCELLED}"
proof -
  obtain d where "retry_delay_after (get_background_job_policy (job_kind j)) (attempt_count j) = Inr d" "0 \<le> d"
    using retry_delay_returns [OF assms(6)] by blast
  then show ?thesis using fail_ends [OF assms(1-5), of "Some d" True] by (simp add: fail_retryable_def)
qed

lemma finish_attempt_ends:
  assumes inv: "inv t s" "t \<le> u" "holds w u j s" and n: "1 \<le> attempt_count j"
    and reg: "\<forall>k h. map_of reg k = Some h \<longrightarrow> orderly_handler h"
  shows "\<exists>k s'. finish_attempt repo reg w j u s = (Inr k, s') \<and> recorded k s' \<and> job_id k = job_id j \<and> job_status k \<noteq> RUNNING"
proof -
  note unsupported = fail_ends [OF inv, where delay = None and retryable = False]
  have ends: "\<exists>k s'. conclude repo w j u (h j s) = (Inr k, s') \<and> recorded k s' \<and> job_id k = job_id j \<and> job_status k \<noteq> RUNNING"
    if h: "orderly_handler h" for h
  proof -
    obtain out where out: "h j s = (out, s)" using h by (metis orderly_handler_def prod.collapse)
    have err: "sized 1 100 code \<and> message \<noteq> []" if "out = HandlerError code message retryable" for code message retryable
      using h [unfolded orderly_handler_def, rule_format, of j s] out that by simp
    have job_failed: "sized 1 100 ''job_handler_failed''" by (simp add: sized_def)
    note retry = fail_retryable_ends [OF inv _ _ n]
    show ?thesis
    proof (cases out)
      case (HandlerReturned r)
      have ok: "returned_reference_ok r = opt_sized 1 200 r" by (simp only: returned_reference_ok_def opt_sized_def)
      show ?thesis
      proof (cases "opt_sized 1 200 r")
        case True
        with HandlerReturned out ok succeed_ends [OF inv True] show ?thesis by fastforce
      next
        case False
        with HandlerReturned out ok retry [OF job_failed, of "''background job handler failed''"]
        show ?thesis by auto
      qed
    next
      case (HandlerError code message retryable)
      then show ?thesis
        using out err [OF HandlerError] retry [of code message] unsupported [of code message]
        by (cases retryable) auto
    next
      case HandlerRaised
      then show ?thesis using out retry [OF job_failed, of "''background job handler failed''"] by auto
    qed
  qed
  show ?thesis
  proof (cases "map_of reg (job_kind j)")
    case None
    have "sized 1 100 ''unsupported_job_kind''" "sized 1 100 ''unsupported_job_payload_version''"
      by (simp_all add: sized_def)
    then show ?thesis
      using None unsupported [of "''unsupported_job_kind''" "''background job kind has no registered handler''"]
        unsupported [of "''unsupported_job_payload_version''" "''background job payload version is not supported''"]
      by (auto simp: finish_attempt_def get_handler_def)
  next
    case (Some h)
    have "sized 1 100 ''unsupported_job_payload_version''" by (simp add: sized_def)
    then show ?thesis
      using Some ends [OF reg [rule_format, OF Some]]
        unsupported [of "''unsupported_job_payload_version''" "''background job payload version is not supported''"]
      by (auto simp: finish_attempt_def get_handler_def)
  qed
qed

text \<open>
  One round of the worker never raises. If a job is ready, one is taken, and its attempt ends: the job that
  the round returns is the stored one, and is not running.
\<close>

lemma run_once_ends:
  assumes "inv t s" "t \<le> u" "u < t + lease" "strip w = w" "sized 1 100 w"
    and reg: "\<forall>k h. map_of reg k = Some h \<longrightarrow> orderly_handler h"
  shows "\<exists>r s'. run_once repo reg w lease t u s = (Inr r, s')
    \<and> (case r of None \<Rightarrow> \<forall>i. \<not> ready t s i
       | Some k \<Rightarrow> ready t s (job_id k) \<and> recorded k s' \<and> job_status k \<noteq> RUNNING)"
proof -
  have lease: "0 < lease" using assms(2,3) by simp
  obtain r s' where claim: "repo_claim_next repo w lease t s = (Inr r, s')" "inv t s'"
    "r = None \<Longrightarrow> \<forall>i. \<not> ready t s i"
    "\<And>j. r = Some j \<Longrightarrow> ready t s (job_id j) \<and> \<not> cancel_requested j \<and> 1 \<le> attempt_count j \<and> holds w u j s'"
    using claim_holds [OF assms(1) lease assms(4,5)] assms(2,3) by blast
  show ?thesis
  proof (cases r)
    case None
    with claim(1,3) show ?thesis by (simp add: run_once_def)
  next
    case (Some j)
    with claim(4) have j: "\<not> cancel_requested j" "1 \<le> attempt_count j" "holds w u j s'" "ready t s (job_id j)" by auto
    show ?thesis
      using finish_attempt_ends [OF claim(2) assms(2) j(3,2) reg] claim(1) Some j(1,4)
      by (auto simp: run_once_def)
  qed
qed

end

text \<open>The repository of this component keeps the contract, on every good store.\<close>

definition holds_job :: "string \<Rightarrow> int \<Rightarrow> job \<Rightarrow> store \<Rightarrow> bool" where
  "holds_job w u j s \<longleftrightarrow> j \<in> set s \<and> owns w u j"

lemma BackgroundJob_of_valid: "valid_job j \<Longrightarrow> BackgroundJob j = Inr j"
  by (simp add: BackgroundJob_Inr_iff)

lemma find_row_in: "good_store t s \<Longrightarrow> j \<in> set s \<Longrightarrow> find_row (job_id j) s = Some j"
proof -
  assume s: "good_store t s" "j \<in> set s"
  then have "find_row (job_id j) s \<noteq> None" by (auto simp: find_row_def find_None_iff)
  then obtain r where "find_row (job_id j) s = Some r" by blast
  with find_row_Some [OF this] good_store_unique [OF s(1) _ s(2)] show ?thesis by auto
qed

lemma held_is_owned:
  assumes "good_store t s" "holds_job w u j s" shows "owned_running (job_id j) w u s = Inr j"
  using assms find_row_in [OF assms(1)]
  by (auto simp: owned_running_Inr_iff holds_job_def good_store_def list_all_iff good_row_def)

lemma held_facts:
  assumes "good_store t s" "holds_job w u j s" "t \<le> u"
  shows "valid_job j" "job_created_at j \<le> u" "no_outcome j" "job_status j = RUNNING" "lease_owner j = Some w"
    "lease_expires_at j \<noteq> None" "started_at j \<noteq> None"
  using assms by (auto simp: holds_job_def good_store_def list_all_iff good_row_def valid_job_def owns_def)

lemma valid_updates:
  assumes "good_store t s" "holds_job w u j s" "t \<le> u"
  shows "\<exists>k. cancelled j u = Inr k \<and> job_id k = job_id j \<and> job_status k = CANCELLED"
    and "opt_sized 1 200 ref \<Longrightarrow> valid_job (j\<lparr>job_status := SUCCEEDED, progress_percent := 100, lease_owner := None,
       lease_expires_at := None, result_reference := ref, job_updated_at := u, finished_at := Some u\<rparr>)"
    and "0 \<le> d \<Longrightarrow> valid_job (j\<lparr>job_status := QUEUED, progress_percent := 0, lease_owner := None,
       lease_expires_at := None, run_after := u + d, job_updated_at := u\<rparr>)"
    and "sized 1 100 code \<Longrightarrow> message \<noteq> [] \<Longrightarrow> valid_job (j\<lparr>job_status := FAILED, lease_owner := None,
       lease_expires_at := None, error_code := Some code, error_message := Some (take 500 message),
       job_updated_at := u, finished_at := Some u\<rparr>)"
proof -
  have "valid_job (j\<lparr>job_status := CANCELLED, lease_owner := None, lease_expires_at := None,
       cancel_requested := True, job_updated_at := u, finished_at := Some u\<rparr>)"
    using held_facts [OF assms] by (auto simp: valid_job_def job_fields_def no_outcome_def opt_sized_def)
  then show "\<exists>k. cancelled j u = Inr k \<and> job_id k = job_id j \<and> job_status k = CANCELLED"
    by (simp add: cancelled_def BackgroundJob_Inr_iff)
qed (use held_facts [OF assms] in \<open>auto simp: valid_job_def job_fields_def no_outcome_def opt_sized_def
      sized_def Suc_le_eq\<close>)

text \<open>What is ready to be claimed, and what is stored.\<close>

definition ready_job :: "(string \<Rightarrow> bool) \<Rightarrow> int \<Rightarrow> store \<Rightarrow> string \<Rightarrow> bool" where
  "ready_job locked t s i \<longleftrightarrow> list_ex (\<lambda>q. job_id q = i \<and> runnable locked t q) s"

definition stored_job :: "job \<Rightarrow> store \<Rightarrow> bool" where
  "stored_job k s \<longleftrightarrow> find_row (job_id k) s = Some k"

lemma stored_update:
  assumes "j \<in> set s" "job_id k = job_id j" shows "stored_job k (update_row s k)"
proof -
  have "find (\<lambda>r. job_id r = job_id k) (map (\<lambda>r. if job_id r = job_id k then k else r) s) = Some k" if "j \<in> set s" for s
    using that assms(2) by (induction s) auto
  then show ?thesis using assms(1) by (simp add: stored_job_def find_row_def update_row_def)
qed

interpretation jobs: lease_repository "sql_repository locked" good_store holds_job "ready_job locked" stored_job
proof unfold_locales
  fix t lease :: int and s :: store and w :: string
  assume s: "good_store t s" and w: "0 < lease" "strip w = w" "sized 1 100 w"
  define out where "out = claim_loop w lease locked t s"
  have run: "repo_claim_next (sql_repository locked) w lease t s = out"
    using w by (auto simp: sql_repository_def claim_next_def out_def sized_def)
  have result: "claim_result w lease locked t s out"
    unfolding out_def using w by (intro claim_loop_result s) (auto simp: sized_def)
  have good: "good_store t (snd out)"
    unfolding out_def using good_store_moves [OF claim_loop_moves s] .
  from result obtain r where r: "fst out = Inr r" by (cases out; cases "fst out") (auto simp: claim_result_def)
  have none: "\<forall>i. \<not> ready_job locked t s i" if "r = None"
    using result r that by (cases out) (auto simp: claim_result_def ready_job_def list_ex_iff)
  have "ready_job locked t s (job_id j) \<and> \<not> cancel_requested j \<and> 1 \<le> attempt_count j
      \<and> (\<forall>u. t \<le> u \<longrightarrow> u < t + lease \<longrightarrow> holds_job w u j (snd out))"
    if j: "r = Some j" for j
  proof -
    from result r j obtain q where q: "j \<in> set (snd out)" "q \<in> set s" "runnable locked t q"
      "claimed q w lease t = Inr j" by (cases out) (auto simp: claim_result_def)
    have "valid_job q" using s q(2) by (auto simp: good_store_def list_all_iff good_row_def)
    then have "0 \<le> attempt_count q" by (simp add: valid_job_def job_fields_def)
    moreover have "lease_expires_at j = Some (t + lease)" "job_status j = RUNNING" "lease_owner j = Some (strip w)"
      using q(4) by (auto simp: claimed_def BackgroundJob_Inr_iff)
    ultimately show ?thesis
      using q claimed_facts [OF q(4) w(1)] w(2)
      by (auto simp: runnable_def holds_job_def owns_def ready_job_def list_ex_iff)
  qed
  with none show "\<exists>r s'. repo_claim_next (sql_repository locked) w lease t s = (Inr r, s') \<and> good_store t s'
         \<and> (r = None \<longrightarrow> (\<forall>i. \<not> ready_job locked t s i))
         \<and> (\<forall>j. r = Some j \<longrightarrow> ready_job locked t s (job_id j) \<and> \<not> cancel_requested j \<and> 1 \<le> attempt_count j
              \<and> (\<forall>u. t \<le> u \<longrightarrow> u < t + lease \<longrightarrow> holds_job w u j s'))"
    using run r good by (intro exI [of _ r] exI [of _ "snd out"]) (auto simp: prod_eq_iff)
next
  fix t u :: int and s :: store and w j ref
  assume held: "good_store t s" "t \<le> u" "holds_job w u j s" and ref: "opt_sized 1 200 ref"
  show "\<exists>k s'. repo_succeed (sql_repository locked) (job_id j) w ref u s = (Inr k, s')
         \<and> stored_job k s' \<and> job_id k = job_id j \<and> job_status k \<in> {SUCCEEDED, CANCELLED}"
    using stored_update valid_updates(1) [OF held(1,3,2)] BackgroundJob_of_valid [OF valid_updates(2) [OF held(1,3,2) ref]]
      held_is_owned [OF held(1,3)] held(3) unfolding holds_job_def
    by (auto simp: sql_repository_def succeed_def persist_def)
next
  fix t u :: int and s :: store and w j code delay and retryable :: bool and message :: string
  assume held: "good_store t s" "t \<le> u" "holds_job w u j s" and err: "sized 1 100 code" "message \<noteq> []"
    and delay: "\<And>d. delay = Some d \<Longrightarrow> 0 \<le> (d :: int)"
  define d where "d = (case delay of None \<Rightarrow> 0 | Some x \<Rightarrow> x)"
  have d: "0 \<le> d" using delay by (simp add: d_def split: option.split)
  show "\<exists>k s'. repo_fail (sql_repository locked) (job_id j) w code message retryable delay u s = (Inr k, s')
         \<and> stored_job k s' \<and> job_id k = job_id j \<and> job_status k \<in> {QUEUED, FAILED, CANCELLED}"
    using stored_update valid_updates(1) [OF held(1,3,2)] BackgroundJob_of_valid [OF valid_updates(3) [OF held(1,3,2) d]]
      BackgroundJob_of_valid [OF valid_updates(4) [OF held(1,3,2) err]] held_is_owned [OF held(1,3)] d
      held(3) [unfolded holds_job_def]
    by (auto simp: sql_repository_def fail_def Let_def d_def [symmetric] raising.simps persist_def)
qed

section \<open>Properties of the queue\<close>

text \<open>The table's check constraints, on the columns that copy a row's job.\<close>

definition row_constraints :: "job \<Rightarrow> bool" where
  "row_constraints r \<longleftrightarrow>
     0 \<le> progress_percent r \<and> progress_percent r \<le> 100
     \<and> 0 \<le> attempt_count r \<and> attempt_count r \<le> max_attempts r \<and> 0 < max_attempts r \<and> max_attempts r \<le> 10
     \<and> job_created_at r \<le> job_updated_at r \<and> job_created_at r \<le> run_after r
     \<and> (case started_at r of None \<Rightarrow> True | Some x \<Rightarrow> job_created_at r \<le> x)
     \<and> (case finished_at r of None \<Rightarrow> True
        | Some x \<Rightarrow> job_created_at r \<le> x \<and> (case started_at r of None \<Rightarrow> True | Some y \<Rightarrow> y \<le> x))
     \<and> ((job_status r = RUNNING \<and> lease_owner r \<noteq> None \<and> lease_expires_at r \<noteq> None)
        \<or> (job_status r \<noteq> RUNNING \<and> lease_owner r = None \<and> lease_expires_at r = None))
     \<and> ((is_terminal r \<and> finished_at r \<noteq> None) \<or> (\<not> is_terminal r \<and> finished_at r = None))
     \<and> (job_status r \<noteq> SUCCEEDED \<or> progress_percent r = 100)"

lemma good_row_constraints: "good_row t r \<Longrightarrow> row_constraints r"
  by (cases "job_status r")
    (auto simp: good_row_def valid_job_def job_fields_def row_constraints_def is_terminal_def
      TERMINAL_JOB_STATUSES_def MAX_BACKGROUND_JOB_ATTEMPTS_def split: option.splits)

lemma good_row_facts:
  "good_row t r \<Longrightarrow> from_row r = Inr r \<and> row_constraints r
     \<and> (cancel_requested r \<longrightarrow> job_status r = RUNNING \<or> job_status r = CANCELLED)"
  using good_row_constraints [of t r] by (simp add: from_row_Inr_iff good_row_def)

definition sample_job :: job where
  "sample_job =
     \<lparr>job_id = ''job-0123456789abcdef0123'', job_kind = ALERT_EVALUATION, payload_version = 1,
      payload = ''{}'', idempotency_key = Some ''alerts-1'', job_status = QUEUED, progress_percent = 0,
      attempt_count = 0, max_attempts = 3, run_after = 10, lease_owner = None, lease_expires_at = None,
      cancel_requested = False, result_reference = None, error_code = None, error_message = None,
      job_created_at = 10, job_updated_at = 10, started_at = None, finished_at = None\<rparr>"

lemma sample_job_built: "built_job 10 sample_job"
proof -
  have "build_job ''0123456789abcdef0123'' 0 ALERT_EVALUATION ''{}'' (Some ''alerts-1'') None None
      (Some (Aware 10)) = Inr sample_job"
    by (simp add: build_job_def sample_job_def Let_def check_fields_def job_fields_def has_id_form_def
        is_lower_hex_def get_background_job_policy_def standard_policy_def MAX_BACKGROUND_JOB_ATTEMPTS_def
        opt_sized_def sized_def validate_lifecycle_def raising.simps no_outcome_def)
  moreover have "job_created_at sample_job \<le> 10" by (simp add: sample_job_def)
  ultimately show ?thesis unfolding built_job_def by blast
qed

lemma sample_good_row: "good_row 10 sample_job" and sample_good: "good_store 10 [sample_job]"
  using built_job_good [OF sample_job_built] by (simp_all add: good_store_def)

text \<open>
  C5: whatever operations any sessions perform in any order, starting from an empty table and under a
  clock that does not go back: job ids are unique, no two jobs share a kind and an idempotency key,
  every row is a valid job (it can be read back), satisfies the table's check constraints and a
  requested cancellation is only ever pending on a running job.
\<close>

theorem job_table_invariant:
  assumes "executes [] t0 s t"
  shows "distinct (map job_id s) \<and> sorted_wrt (\<lambda>a b. \<not> same_key a b) s
    \<and> list_all (\<lambda>r. from_row r = Inr r \<and> row_constraints r
        \<and> (cancel_requested r \<longrightarrow> job_status r \<in> {RUNNING, CANCELLED})) s"
proof -
  have good: "good_store t s" using executes_good [OF assms] by (simp add: good_store_def)
  then have "distinct (map job_id s)" by (induction s) (auto simp: good_store_def)
  moreover have "sorted_wrt (\<lambda>a b. \<not> same_key a b) s"
    using good unfolding good_store_def by (auto elim: sorted_wrt_mono_rel [rotated])
  ultimately show ?thesis
    using good good_row_facts by (auto simp: good_store_def list_all_iff)
qed

theorem job_table_invariant_witness:
  "row_constraints sample_job \<and> executes [] 0 [sample_job] 10"
proof -
  have "executes [] 0 (perform (Enqueue [] sample_job) 10 []) 10"
    by (rule one_step [OF no_step]) (simp_all add: sample_job_built)
  moreover have "perform (Enqueue [] sample_job) 10 [] = [sample_job]"
    by (simp add: enqueue_def stage_job_def get_by_idempotency_key_def violates_unique_def sample_job_def)
  ultimately show ?thesis using job_table_invariant [of 0 "[sample_job]" 10] by simp
qed

text \<open>
  C9: once a running job's cancellation is requested, it is still requested after any further
  operations and the job is running or cancelled: it never succeeds, fails or is queued again.
\<close>

theorem requested_cancel_dominates:
  assumes "executes s t s' t'" "good_store t s" "r \<in> set s" "cancel_requested r"
  shows "\<exists>j \<in> set s'. job_id j = job_id r \<and> cancel_requested j \<and> job_status j \<in> {RUNNING, CANCELLED}"
proof -
  obtain j where j: "j \<in> set s'" "job_id j = job_id r" "later_row r j"
    using executes_row [OF assms(1-3)] by blast
  have "cancel_requested r \<and> job_status r \<in> {RUNNING, CANCELLED}"
    using assms(2-4) by (auto simp: good_store_def list_all_iff good_row_def)
  then have "cancel_requested j \<and> job_status j \<in> {RUNNING, CANCELLED}"
    by (rule later_row_keeps [OF j(3)]) (use cancel_requested_lifecycle in blast)
  with j show ?thesis by blast
qed

text \<open>
  A job that succeeded or was cancelled never changes again.
\<close>

theorem finished_jobs_never_change:
  assumes "executes s t s' t'" "good_store t s" "r \<in> set s" "job_status r \<in> {SUCCEEDED, CANCELLED}"
  shows "r \<in> set s'"
proof -
  obtain j where j: "j \<in> set s'" "later_row r j"
    using executes_row [OF assms(1-3)] by blast
  have "j = r" by (rule later_row_keeps [OF j(2)]) (use assms(4) final_lifecycle in blast)+
  with j show ?thesis by simp
qed

text \<open>
  C6: while a worker's lease lasts, the job stays that worker's: no claim of any worker and no
  heartbeat, success or failure reported by another worker changes it; only its owner's reports can
  end the lease.
\<close>

theorem lease_excludes_others:
  assumes "good_store t s" "t \<le> now" "r \<in> set s" "owns w now r" "allowed now op"
    and "case op of Heartbeat jid w' _ _ \<Rightarrow> w' \<noteq> w | Succeed jid w' _ \<Rightarrow> w' \<noteq> w
         | Fail jid w' _ _ _ _ \<Rightarrow> w' \<noteq> w | RequestCancel jid \<Rightarrow> jid \<noteq> job_id r | _ \<Rightarrow> True"
  shows "r \<in> set (perform op now s)"
proof -
  have "\<not> concerns op now r"
    using assms(4,6) by (cases op) (auto simp: owns_def claimable_def)
  with perform_cases [OF assms(5), of s] moves_frame [OF _ good_store_later [OF assms(1,2)] assms(3)]
  show ?thesis using assms(3) by auto
qed


definition running_sample :: job where
  "running_sample = sample_job\<lparr>job_status := RUNNING, attempt_count := 1, lease_owner := Some ''worker-1'',
     lease_expires_at := Some 100, started_at := Some 20, job_updated_at := 20\<rparr>"

lemma running_sample_facts:
  "good_store 20 [running_sample]" "owns ''worker-1'' 30 running_sample"
  "good_store 20 [running_sample\<lparr>cancel_requested := True\<rparr>]"
  "good_store 20 [running_sample\<lparr>job_status := CANCELLED, lease_owner := None, lease_expires_at := None,
     finished_at := Some 20\<rparr>]"
  by (simp_all add: running_sample_def sample_job_def good_store_def good_row_def valid_job_def job_fields_def
      has_id_form_def is_lower_hex_def MAX_BACKGROUND_JOB_ATTEMPTS_def opt_sized_def sized_def no_outcome_def owns_def)

theorem requested_cancel_dominates_witness:
  "\<exists>j \<in> set (perform (Fail (job_id running_sample) ''worker-1'' ''c'' ''m'' True None) 30
       [running_sample\<lparr>cancel_requested := True\<rparr>]).
     job_id j = job_id running_sample \<and> cancel_requested j \<and> job_status j \<in> {RUNNING, CANCELLED}"
  using requested_cancel_dominates [OF one_step [OF no_step, of 20 30
      "Fail (job_id running_sample) ''worker-1'' ''c'' ''m'' True None"] running_sample_facts(3)]
  by simp

theorem finished_jobs_never_change_witness:
  "running_sample\<lparr>job_status := CANCELLED, lease_owner := None, lease_expires_at := None, finished_at := Some 20\<rparr>
   \<in> set (perform (RetryFailed (job_id running_sample)) 30
        [running_sample\<lparr>job_status := CANCELLED, lease_owner := None, lease_expires_at := None,
           finished_at := Some 20\<rparr>])"
  by (rule finished_jobs_never_change [OF one_step [OF no_step, of 20 30] running_sample_facts(4)]) simp_all

theorem lease_excludes_others_witness:
  "running_sample \<in> set (perform (Succeed (job_id running_sample) ''worker-2'' None) 30 [running_sample])"
  by (rule lease_excludes_others [OF running_sample_facts(1) _ _ running_sample_facts(2)]) simp_all

text \<open>
  C7: a claim on a good store never raises. If it returns a job, the job comes from the runnable row
  (due or with an expired lease, not locked, not cancelled, with an attempt left) with the earliest run
  time and creation time, which it moves to running with one more attempt; if it returns none, there
  was no runnable row, and no claimable row is left but those that other sessions lock.
\<close>

theorem claim_takes_the_earliest:
  assumes "good_store t s" "t \<le> now" "0 < lease" "strip worker \<noteq> []" "length (strip worker) \<le> 100"
    and "claim_next worker lease locked (Aware now) s = (out, s')"
  shows "(out = Inr None \<and> (\<forall>r \<in> set s. \<not> runnable locked now r)
        \<and> (\<forall>r \<in> set s'. claimable now r \<longrightarrow> locked (job_id r)))
    \<or> (\<exists>j. out = Inr (Some j) \<and> j \<in> set s' \<and> owns (strip worker) now j
        \<and> (\<exists>r \<in> set s. job_id j = job_id r \<and> attempt_count j = attempt_count r + 1
             \<and> runnable locked now r \<and> (\<forall>q \<in> set s. runnable locked now q \<longrightarrow> earlier r q)))"
proof -
  have "claim_result worker lease locked now s (out, s')"
    using claim_loop_result [OF good_store_later [OF assms(1,2)] assms(3-5), of locked] assms(3,4,6)
    by (simp add: claim_next_def)
  then consider "out = Inr None" "\<forall>r \<in> set s. \<not> runnable locked now r" "\<forall>r \<in> set s'. claimable now r \<longrightarrow> locked (job_id r)"
    | j r where "out = Inr (Some j)" "j \<in> set s'" "r \<in> set s" "runnable locked now r"
        "\<forall>q \<in> set s. runnable locked now q \<longrightarrow> earlier r q" "claimed r worker lease now = Inr j"
    by (auto simp: claim_result_def split: sum.splits option.splits)
  then show ?thesis
  proof cases
    case (2 j r)
    with claimed_facts [OF 2(6) assms(3)] show ?thesis by blast
  qed simp
qed

theorem claim_takes_the_earliest_witness:
  "\<exists>out s'. claim_next ''worker-1'' 60 (\<lambda>_. False) (Aware 30) [sample_job] = (out, s')
     \<and> ((out = Inr None \<and> (\<forall>r \<in> set s'. \<not> claimable 30 r))
        \<or> (\<exists>j. out = Inr (Some j) \<and> j \<in> set s' \<and> owns (strip ''worker-1'') 30 j))"
proof -
  obtain out s' where run: "claim_next ''worker-1'' 60 (\<lambda>_. False) (Aware 30) [sample_job] = (out, s')" by force
  have "strip ''worker-1'' \<noteq> []" "length (strip ''worker-1'') \<le> 100"
    by (simp_all add: strip_def is_space_def)
  then have "(out = Inr None \<and> (\<forall>r \<in> set [sample_job]. \<not> runnable (\<lambda>_. False) 30 r)
        \<and> (\<forall>r \<in> set s'. claimable 30 r \<longrightarrow> False))
    \<or> (\<exists>j. out = Inr (Some j) \<and> j \<in> set s' \<and> owns (strip ''worker-1'') 30 j
        \<and> (\<exists>r \<in> set [sample_job]. job_id j = job_id r \<and> attempt_count j = attempt_count r + 1
             \<and> runnable (\<lambda>_. False) 30 r \<and> (\<forall>q \<in> set [sample_job]. runnable (\<lambda>_. False) 30 q \<longrightarrow> earlier r q)))"
    by (intro claim_takes_the_earliest [OF sample_good _ _ _ _ run]) simp_all
  then show ?thesis using run by blast
qed

lemma find_unique: "x \<in> set xs \<Longrightarrow> P x \<Longrightarrow> \<forall>y \<in> set xs. P y \<longrightarrow> y = x \<Longrightarrow> find P xs = Some x"
proof -
  assume x: "x \<in> set xs" "P x" and unique: "\<forall>y \<in> set xs. P y \<longrightarrow> y = x"
  from x obtain y where y: "find P xs = Some y" by (cases "find P xs") (auto simp: find_None_iff)
  then have "y \<in> set xs" "P y" by (auto simp: find_Some_iff)
  with unique y show ?thesis by blast
qed

lemma good_store_key:
  assumes "good_store t s" "a \<in> set s" "b \<in> set s" "same_key a b" shows "a = b"
proof -
  have sorted: "sorted_wrt (\<lambda>a b. \<not> same_key a b) s"
    using assms(1) unfolding good_store_def by (auto elim: sorted_wrt_mono_rel [rotated])
  obtain i j where ij: "i < length s" "j < length s" "a = s ! i" "b = s ! j"
    using assms(2,3) by (auto simp: in_set_conv_nth)
  have "same_key b a" using assms(4) unfolding same_key_def by metis
  then show ?thesis
    using sorted_wrt_nth_less [OF sorted, of i j] sorted_wrt_nth_less [OF sorted, of j i] ij assms(4)
    by (cases i j rule: linorder_cases) auto
qed

text \<open>
  C10: enqueueing is idempotent: after a job with an idempotency key is in the table, and whatever
  happens in between, enqueueing a job of the same kind with the same key returns that job and changes
  nothing, even if the earlier look-up of the key had missed it.
\<close>

theorem enqueue_idempotent:
  assumes "executes s t s' t'" "good_store t s" "j \<in> set s"
    and "idempotency_key j = Some key" "idempotency_key k = Some key" "job_kind k = job_kind j"
    and "seen = s' \<or> stage_job seen k = Inr None"
  shows "\<exists>i. enqueue seen k s' = (Inr (i, False), s') \<and> job_id i = job_id j \<and> idempotency_key i = Some key"
proof -
  have good: "good_store t' s'" using executes_good [OF assms(1,2)] by simp
  obtain i where i: "i \<in> set s'" "job_id i = job_id j" "later_row j i"
    using executes_row [OF assms(1-3)] by blast
  have "job_kind i = job_kind j \<and> idempotency_key i = Some key"
    by (rule later_row_keeps [OF i(3)]) (use assms(4) lifecycle_identity in auto)
  then have ki: "job_kind i = job_kind k" "idempotency_key i = Some key" using assms(6) by simp_all
  have "find (\<lambda>r. job_kind r = job_kind k \<and> idempotency_key r = Some key) s' = Some i"
  proof (rule find_unique [OF i(1)])
    show "\<forall>y \<in> set s'. job_kind y = job_kind k \<and> idempotency_key y = Some key \<longrightarrow> y = i"
    proof (intro ballI impI)
      fix y assume "y \<in> set s'" "job_kind y = job_kind k \<and> idempotency_key y = Some key"
      with ki show "y = i" by (intro good_store_key [OF good _ i(1)]) (simp_all add: same_key_def)
    qed
  qed (use ki in simp)
  then have "get_by_idempotency_key s' (job_kind k) key = Inr (Some i)"
    using good i(1) by (auto simp: get_by_idempotency_key_def from_row_Inr_iff good_store_def list_all_iff
        good_row_def bindR_Inr_iff)
  moreover have "violates_unique s' k" using i(1) ki assms(5) by (auto simp: violates_unique_def list_ex_iff)
  moreover have "stage_job seen k = Inr (Some i) \<or> stage_job seen k = Inr None"
    using calculation(1) assms(5,7) by (auto simp: stage_job_def)
  ultimately show ?thesis
    using assms(5) i(2) ki(2) by (intro exI [of _ i]) (auto simp: enqueue_def)
qed


theorem enqueue_idempotent_witness:
  "\<exists>i. enqueue [] (running_sample\<lparr>job_id := ''job-00000000000000000000''\<rparr>) [running_sample]
        = (Inr (i, False), [running_sample]) \<and> job_id i = job_id running_sample"
proof -
  have "idempotency_key running_sample = Some ''alerts-1''" by (simp add: running_sample_def sample_job_def)
  then have "\<exists>i. enqueue [] (running_sample\<lparr>job_id := ''job-00000000000000000000''\<rparr>) [running_sample]
      = (Inr (i, False), [running_sample]) \<and> job_id i = job_id running_sample
      \<and> idempotency_key i = Some ''alerts-1''"
    by (intro enqueue_idempotent [OF no_step running_sample_facts(1)])
      (simp_all add: stage_job_def get_by_idempotency_key_def)
  then show ?thesis by blast
qed

text \<open>
  a retryable failure with an attempt left is retried: the owner's report queues the job for the
  end of its delay, and from then on a claim finds work to do.
\<close>

theorem failed_attempt_is_retried:
  assumes "good_store t s" "t \<le> now" "r \<in> set s" "owns worker now r" "\<not> cancel_requested r"
    and "attempt_count r < max_attempts r" "0 \<le> delay" "now + delay \<le> later"
    and "0 < lease" "strip w \<noteq> []" "length (strip w) \<le> 100"
  shows "\<exists>q s'. fail (job_id r) worker code message True (Some delay) now s = (Inr q, s')
    \<and> job_status q = QUEUED \<and> run_after q = now + delay \<and> attempt_count q = attempt_count r
    \<and> (\<exists>j s''. claim_next w lease (\<lambda>_. False) (Aware later) s' = (Inr (Some j), s''))"
proof -
  have held: "holds_job worker now r s" using assms(3,4) by (simp add: holds_job_def)
  let ?q = "r\<lparr>job_status := QUEUED, progress_percent := 0, lease_owner := None, lease_expires_at := None,
    run_after := now + delay, job_updated_at := now\<rparr>"
  have "BackgroundJob ?q = Inr ?q"
    using valid_updates(3) [OF assms(1) held assms(2,7)] by (rule BackgroundJob_of_valid)
  then have run: "fail (job_id r) worker code message True (Some delay) now s = (Inr ?q, update_row s ?q)"
    using held_is_owned [OF assms(1) held] assms(5-7) by (simp add: fail_def raising.simps persist_def)
  have good: "good_store now (update_row s ?q)"
    using good_store_moves [OF fail_moves good_store_later [OF assms(1,2)]] run by (metis snd_conv)
  have q: "?q \<in> set (update_row s ?q)" "runnable (\<lambda>_. False) later ?q"
    using assms(3,5,6,8) by (force simp: update_row_def runnable_def claimable_def)+
  obtain out s'' where claim: "claim_next w lease (\<lambda>_. False) (Aware later) (update_row s ?q) = (out, s'')" by force
  have result: "claim_result w lease (\<lambda>_. False) later (update_row s ?q) (out, s'')"
    using claim_loop_result [OF good_store_later [OF good], of later lease w "\<lambda>_. False"] assms(7-11) claim
    by (simp add: claim_next_def)
  then obtain j where "out = Inr (Some j)"
    using q by (auto simp: claim_result_def split: sum.splits option.splits)
  then show ?thesis using run claim by simp
qed

theorem failed_attempt_is_retried_witness:
  "\<exists>q s'. fail (job_id running_sample) ''worker-1'' ''code'' ''message'' True (Some 5) 30 [running_sample] = (Inr q, s')
     \<and> job_status q = QUEUED \<and> run_after q = 35
     \<and> (\<exists>j s''. claim_next ''worker-2'' 60 (\<lambda>_. False) (Aware 40) s' = (Inr (Some j), s''))"
proof -
  have "strip ''worker-2'' \<noteq> []" "length (strip ''worker-2'') \<le> 100" by (simp_all add: strip_def is_space_def)
  moreover have "\<not> cancel_requested running_sample" "attempt_count running_sample < max_attempts running_sample"
    by (simp_all add: running_sample_def sample_job_def)
  ultimately show ?thesis
    using failed_attempt_is_retried [OF running_sample_facts(1) _ _ running_sample_facts(2), of 5 40 60 "''worker-2''"
        "''code''" "''message''"] by auto
qed

text \<open>
  C8: one round of the worker, on any job table that the repository's operations can produce, with a worker id
  without surrounding blanks and handlers that leave the table alone and raise errors with short codes, never
  raises. If no job is ready it takes none; otherwise it takes one that was ready, and when it finishes within
  the lease that job is not left running: the job it returns is the one stored under that id, and has
  succeeded, failed, been cancelled or been queued for another attempt.
\<close>

theorem worker_never_leaves_a_job_running:
  assumes "executes [] t0 s t" "t \<le> u" "u < t + lease" "strip w = w" "sized 1 100 w"
    and "\<forall>k h. map_of reg k = Some h \<longrightarrow> orderly_handler h"
  shows "\<exists>r s'. run_once (sql_repository locked) reg w lease t u s = (Inr r, s')
    \<and> (case r of None \<Rightarrow> \<forall>q \<in> set s. \<not> runnable locked t q
       | Some k \<Rightarrow> (\<exists>q \<in> set s. job_id q = job_id k \<and> runnable locked t q)
           \<and> find_row (job_id k) s' = Some k \<and> job_status k \<noteq> RUNNING)"
proof -
  have "good_store t s" using executes_good [OF assms(1)] by (simp add: good_store_def)
  then show ?thesis
    using jobs.run_once_ends [OF _ assms(2-6), of s locked]
    by (fastforce simp: ready_job_def stored_job_def list_ex_iff split: option.splits)
qed

theorem worker_never_leaves_a_job_running_witness:
  "\<exists>k s'. run_once (sql_repository (\<lambda>_. False)) [(ALERT_EVALUATION, \<lambda>j s. (HandlerReturned None, s))]
       ''worker-1'' 60 10 40 [sample_job] = (Inr (Some k), s')
     \<and> job_id k = ''job-0123456789abcdef0123'' \<and> find_row (job_id k) s' = Some k \<and> job_status k \<noteq> RUNNING"
proof -
  have table: "executes [] 0 [sample_job] 10"
  proof -
    have "executes [] 0 (perform (Enqueue [] sample_job) 10 []) 10"
      by (rule one_step [OF no_step]) (simp_all add: sample_job_built)
    moreover have "perform (Enqueue [] sample_job) 10 [] = [sample_job]"
      by (simp add: enqueue_def stage_job_def get_by_idempotency_key_def violates_unique_def sample_job_def)
    ultimately show ?thesis by simp
  qed
  have ready: "runnable (\<lambda>_. False) 10 sample_job" by (simp add: runnable_def claimable_def sample_job_def)
  have "\<exists>r s'. run_once (sql_repository (\<lambda>_. False)) [(ALERT_EVALUATION, \<lambda>j s. (HandlerReturned None, s))]
       ''worker-1'' 60 10 40 [sample_job] = (Inr r, s')
    \<and> (case r of None \<Rightarrow> \<forall>q \<in> set [sample_job]. \<not> runnable (\<lambda>_. False) 10 q
       | Some k \<Rightarrow> (\<exists>q \<in> set [sample_job]. job_id q = job_id k \<and> runnable (\<lambda>_. False) 10 q)
           \<and> find_row (job_id k) s' = Some k \<and> job_status k \<noteq> RUNNING)"
    by (rule worker_never_leaves_a_job_running [OF table])
      (simp_all add: strip_def is_space_def sized_def orderly_handler_def)
  then obtain r s' where r: "run_once (sql_repository (\<lambda>_. False)) [(ALERT_EVALUATION, \<lambda>j s. (HandlerReturned None, s))]
       ''worker-1'' 60 10 40 [sample_job] = (Inr r, s')"
    "case r of None \<Rightarrow> \<forall>q \<in> set [sample_job]. \<not> runnable (\<lambda>_. False) 10 q
       | Some k \<Rightarrow> (\<exists>q \<in> set [sample_job]. job_id q = job_id k \<and> runnable (\<lambda>_. False) 10 q)
           \<and> find_row (job_id k) s' = Some k \<and> job_status k \<noteq> RUNNING"
    by blast
  with ready obtain k where "r = Some k" by (cases r) auto
  with r show ?thesis by (auto simp: sample_job_def)
qed

text \<open>
  C11: the claim stores the worker id stripped, the reports compare it as given: a worker whose id has
  surrounding blanks can never heartbeat, complete or fail a job that it has just claimed.
\<close>

theorem padded_worker_loses_its_job:
  assumes "good_store t s" "t \<le> now" "strip worker \<noteq> worker" "length (strip worker) \<le> 100"
    and "claim_next worker lease locked (Aware now) s = (Inr (Some j), s')"
  shows "fst (succeed (job_id j) worker reference later s')
      = Inl (LeaseConflict ''background job lease is not owned by this worker'')
    \<and> fst (fail (job_id j) worker code message retryable None later s')
      = Inl (LeaseConflict ''background job lease is not owned by this worker'')"
proof -
  have lease: "0 < lease" "strip worker \<noteq> []" and loop: "claim_loop worker lease locked now s = (Inr (Some j), s')"
    using assms(5) by (auto simp: claim_next_def split: if_splits)
  have good: "good_store now s'"
    using good_store_moves [OF claim_loop_moves good_store_later [OF assms(1,2)], of worker lease locked]
    by (simp add: loop)
  have j: "j \<in> set s'" "lease_owner j = Some (strip worker)"
    using claim_loop_result [OF good_store_later [OF assms(1,2)] lease assms(4), of locked] loop
    by (auto simp: claim_result_def claimed_def BackgroundJob_Inr_iff)
  have "valid_job j" using good j(1) by (auto simp: good_store_def list_all_iff good_row_def)
  then have "owned_running (job_id j) worker later s'
      = Inl (LeaseConflict ''background job lease is not owned by this worker'')"
    using find_row_in [OF good j(1)] j(2) assms(3)
    by (simp add: owned_running_def from_row_def BackgroundJob_of_valid raising.simps)
  then show ?thesis by (simp add: succeed_def fail_def persist_def raising.simps)
qed


theorem padded_worker_loses_its_job_witness:
  "\<exists>j s'. claim_next '' worker'' 60 (\<lambda>_. False) (Aware 30) [sample_job] = (Inr (Some j), s')
     \<and> fst (succeed (job_id j) '' worker'' None 31 s')
       = Inl (LeaseConflict ''background job lease is not owned by this worker'')"
proof -
  have w: "strip '' worker'' = ''worker''" by (simp add: strip_def is_space_def)
  obtain out s' where run: "claim_next '' worker'' 60 (\<lambda>_. False) (Aware 30) [sample_job] = (out, s')" by force
  have "claim_result '' worker'' 60 (\<lambda>_. False) 30 [sample_job] (out, s')"
    using claim_loop_result [OF good_store_later [OF sample_good], of 30 60 "'' worker''" "\<lambda>_. False"] run w
    by (simp add: claim_next_def)
  moreover have "runnable (\<lambda>_. False) 30 sample_job"
    by (simp add: runnable_def claimable_def sample_job_def)
  ultimately obtain j where j: "out = Inr (Some j)" by (auto simp: claim_result_def split: sum.splits option.splits)
  have "fst (succeed (job_id j) '' worker'' None 31 s')
      = Inl (LeaseConflict ''background job lease is not owned by this worker'')
    \<and> fst (fail (job_id j) '' worker'' ''code'' ''message'' True None 31 s')
      = Inl (LeaseConflict ''background job lease is not owned by this worker'')"
    by (rule padded_worker_loses_its_job [OF sample_good _ _ _ run [unfolded j]]) (simp_all add: w)
  with run j show ?thesis by blast
qed

end
