(* ===== verification/Portfolio.thy ===== *)
theory Portfolio imports Performance
begin

text \<open>
  The simulated portfolio of \<open>trd_bot/paper/portfolio.py\<close>: positions, the timeline of events, the
  accounting snapshot with its validator, and the ledger whose five transitions build the next
  snapshot. A snapshot is immutable, so a transition is a function from one snapshot to the next
  one or to an error. The text of a decimal inside an identifier is an argument of the
  model, since the value of a decimal does not determine how many zeros it is written with.
\<close>

section \<open>Enumerations and identifiers\<close>

datatype simulation_mode = PAPER | SHADOW

fun mode_value :: "simulation_mode \<Rightarrow> string" where
  "mode_value PAPER = ''paper''"
| "mode_value SHADOW = ''shadow''"

datatype portfolio_status = ACTIVE | COMPLETED

datatype position_status = PositionOpen | PositionClosed

datatype portfolio_event_type =
  PortfolioCreated | PositionOpenedEvent | PositionMarkedEvent | PositionClosedEvent | PortfolioCompleted

fun portfolio_event_value :: "portfolio_event_type \<Rightarrow> string" where
  "portfolio_event_value PortfolioCreated = ''portfolio_created''"
| "portfolio_event_value PositionOpenedEvent = ''position_opened''"
| "portfolio_event_value PositionMarkedEvent = ''position_marked''"
| "portfolio_event_value PositionClosedEvent = ''position_closed''"
| "portfolio_event_value PortfolioCompleted = ''portfolio_completed''"

definition build_portfolio_id :: "simulation_mode \<Rightarrow> string \<Rightarrow> int \<Rightarrow> string \<Rightarrow> string \<Rightarrow> string" where
  "build_portfolio_id mode ds created cash_text fee_text =
     ''portfolio-'' @ digest16 (join ''::'' [mode_value mode, ds, isoformat created, cash_text, fee_text])"

definition build_position_id :: "string \<Rightarrow> int \<Rightarrow> int \<Rightarrow> string" where
  "build_position_id pid number opened =
     ''position-'' @ digest16 (join ''::'' [pid, str_int number, isoformat opened])"

definition build_portfolio_event_id :: "string \<Rightarrow> int \<Rightarrow> portfolio_event_type \<Rightarrow> int \<Rightarrow> string" where
  "build_portfolio_event_id pid number kind occurred =
     ''portfolio-event-'' @
     digest16 (join ''::'' [pid, str_int number, portfolio_event_value kind, isoformat occurred])"

lemma portfolio_id_forms [simp]:
  "has_id_form ''portfolio-'' 16 (build_portfolio_id m d t c f)"
  "has_id_form ''position-'' 16 (build_position_id p n t)"
  "has_id_form ''portfolio-event-'' 16 (build_portfolio_event_id p n k t)"
  unfolding build_portfolio_id_def build_position_id_def build_portfolio_event_id_def
    has_id_form_append by simp_all

section \<open>Positions\<close>

record simulated_position =
  sp_id :: string
  sp_portfolio_id :: string
  sp_pair :: trading_pair
  sp_side :: position_side
  sp_status :: position_status
  sp_quantity :: rat
  sp_entry_price :: rat
  sp_opened_at :: int
  sp_current_price :: rat
  sp_current_at :: int
  sp_reserved :: rat
  sp_entry_fee :: rat
  sp_unrealized :: rat
  sp_exit_price :: "rat option"
  sp_closed_at :: "int option"
  sp_exit_fee :: rat
  sp_gross :: rat
  sp_realized :: rat

definition opt_positive :: "rat option \<Rightarrow> bool" where
  "opt_positive x = (case x of None \<Rightarrow> True | Some v \<Rightarrow> 0 < v)"

definition position_fields :: "simulated_position \<Rightarrow> (string \<times> bool) list" where
  "position_fields q =
     [(''position_id'', has_id_form ''position-'' 16 (sp_id q)),
      (''portfolio_id'', has_id_form ''portfolio-'' 16 (sp_portfolio_id q)),
      (''quantity'', 0 < sp_quantity q), (''entry_price'', 0 < sp_entry_price q),
      (''current_price'', 0 < sp_current_price q), (''reserved_notional'', 0 < sp_reserved q),
      (''entry_fee'', 0 \<le> sp_entry_fee q), (''exit_price'', opt_positive (sp_exit_price q)),
      (''exit_fee'', 0 \<le> sp_exit_fee q)]"

text \<open>The gross result of holding a position up to a price.\<close>

definition gross_pnl :: "simulated_position \<Rightarrow> rat \<Rightarrow> rat result" where
  "gross_pnl q price =
     (if sp_side q = SideLong
      then quantize_money (dmul (dsub price (sp_entry_price q)) (sp_quantity q))
      else quantize_money (dmul (dsub (sp_entry_price q) price) (sp_quantity q)))"

text \<open>
  The validator computes the expected mark of every position, also of a closed one; a
  decimal overflow there is raised before the status is looked at.
\<close>

definition validate_position :: "simulated_position \<Rightarrow> simulated_position result" where
  "validate_position q =
     (if sp_current_at q < sp_opened_at q
      then Inl (ValueError ''position mark time cannot be before open time'')
      else bindR (gross_pnl q (sp_current_price q)) (\<lambda>expected_unrealized.
        if sp_status q = PositionOpen
        then raising
          [(sp_exit_price q \<noteq> None \<or> sp_closed_at q \<noteq> None,
             ValueError ''an open position cannot have exit details''),
           (sp_exit_fee q \<noteq> 0 \<or> sp_gross q \<noteq> 0 \<or> sp_realized q \<noteq> 0,
             ValueError ''an open position cannot have realized results''),
           (sp_unrealized q \<noteq> expected_unrealized,
             ValueError ''position unrealized PnL is inconsistent with its mark'')] q
        else bindR (raising
          [(sp_exit_price q = None \<or> sp_closed_at q = None,
             ValueError ''a closed position requires exit details''),
           (the (sp_closed_at q) \<le> sp_opened_at q,
             ValueError ''position close time must be after open time''),
           (Some (sp_current_at q) \<noteq> sp_closed_at q \<or> Some (sp_current_price q) \<noteq> sp_exit_price q,
             ValueError ''a closed position mark must match its exit''),
           (sp_unrealized q \<noteq> 0, ValueError ''a closed position cannot have unrealized PnL'')] ()) (\<lambda>_.
          bindR (quantize_money (dsub (dsub (sp_gross q) (sp_entry_fee q)) (sp_exit_fee q))) (\<lambda>expected.
            raising [(sp_realized q \<noteq> expected,
              ValueError ''position realized PnL is inconsistent with gross PnL and fees'')] q))))"

definition SimulatedPosition :: "simulated_position \<Rightarrow> simulated_position result" where
  "SimulatedPosition q = bindR (check_fields (position_fields q) q) validate_position"

section \<open>Timeline events\<close>

record timeline_event =
  te_id :: string
  te_portfolio_id :: string
  te_sequence :: int
  te_kind :: portfolio_event_type
  te_occurred_at :: int
  te_equity :: rat
  te_position_id :: "string option"
  te_price :: "rat option"
  te_quantity :: "rat option"
  te_realized :: "rat option"

definition timeline_event_fields :: "timeline_event \<Rightarrow> (string \<times> bool) list" where
  "timeline_event_fields e =
     [(''event_id'', has_id_form ''portfolio-event-'' 16 (te_id e)),
      (''portfolio_id'', has_id_form ''portfolio-'' 16 (te_portfolio_id e)),
      (''sequence_number'', 1 \<le> te_sequence e),
      (''position_id'', case te_position_id e of None \<Rightarrow> True | Some p \<Rightarrow> has_id_form ''position-'' 16 p),
      (''price'', opt_positive (te_price e)), (''quantity'', opt_positive (te_quantity e))]"

definition validate_event_details :: "timeline_event \<Rightarrow> timeline_event result" where
  "validate_event_details e =
     (let is_position_event =
            te_kind e \<in> {PositionOpenedEvent, PositionMarkedEvent, PositionClosedEvent};
          has_position_details =
            (te_position_id e \<noteq> None \<and> te_price e \<noteq> None \<and> te_quantity e \<noteq> None)
      in raising
        [(is_position_event \<noteq> has_position_details,
            ValueError ''position event details are inconsistent with event type''),
         (te_kind e = PositionClosedEvent \<and> te_realized e = None,
            ValueError ''a position-closed event requires realized PnL''),
         (te_kind e \<noteq> PositionClosedEvent \<and> te_realized e \<noteq> None,
            ValueError ''only a position-closed event can contain realized PnL'')] e)"

definition PortfolioTimelineEvent :: "timeline_event \<Rightarrow> timeline_event result" where
  "PortfolioTimelineEvent e = bindR (check_fields (timeline_event_fields e) e) validate_event_details"

section \<open>The accounting snapshot\<close>

record portfolio =
  pf_id :: string
  pf_mode :: simulation_mode
  pf_status :: portfolio_status
  pf_dataset_id :: string
  pf_created_at :: int
  pf_updated_at :: int
  pf_starting_cash :: rat
  pf_cash :: rat
  pf_equity :: rat
  pf_fee_rate :: rat
  pf_fees_paid :: rat
  pf_realized :: rat
  pf_unrealized :: rat
  pf_positions :: "simulated_position list"
  pf_timeline :: "timeline_event list"

definition open_ones :: "simulated_position list \<Rightarrow> simulated_position list" where
  "open_ones ps = filter (\<lambda>q. sp_status q = PositionOpen) ps"

definition closed_ones :: "simulated_position list \<Rightarrow> simulated_position list" where
  "closed_ones ps = filter (\<lambda>q. sp_status q = PositionClosed) ps"

text \<open>The loop over the timeline: every event is of this portfolio and has the next number.\<close>

definition timeline_step :: "string \<Rightarrow> unit \<Rightarrow> int \<times> timeline_event \<Rightarrow> unit result" where
  "timeline_step pid u row = (case row of (expected_sequence, e) \<Rightarrow> raising
     [(te_portfolio_id e \<noteq> pid, ValueError ''timeline event belongs to another portfolio''),
      (te_sequence e \<noteq> expected_sequence,
         ValueError ''portfolio timeline sequence must be continuous'')] ())"

definition validate_accounting :: "portfolio \<Rightarrow> portfolio result" where
  "validate_accounting p =
    (let ps = pf_positions p; tl = pf_timeline p; opens = open_ones ps in
     bindR (raising
       [(pf_updated_at p < pf_created_at p,
           ValueError ''portfolio update time cannot be before creation time''),
        (tl = [], ValueError ''portfolio timeline cannot be empty''),
        (te_kind (hd tl) \<noteq> PortfolioCreated,
           ValueError ''portfolio timeline must start with portfolio creation'')] ()) (\<lambda>_.
     bindR (foldR (timeline_step (pf_id p)) () (enumerate_from 1 tl)) (\<lambda>_.
     bindR (raising
       [(te_occurred_at (last tl) \<noteq> pf_updated_at p,
           ValueError ''latest timeline event must match portfolio update time''),
        (te_equity (last tl) \<noteq> pf_equity p,
           ValueError ''latest timeline event must match portfolio equity''),
        (\<not> distinct (map sp_id ps), ValueError ''portfolio position IDs must be unique''),
        (list_ex (\<lambda>q. sp_portfolio_id q \<noteq> pf_id p) ps,
           ValueError ''position belongs to another portfolio''),
        (length opens > 1, ValueError ''portfolio cannot have more than one open position''),
        (pf_status p = COMPLETED \<and> opens \<noteq> [],
           ValueError ''a completed portfolio cannot have an open position''),
        (pf_status p = COMPLETED \<and> te_kind (last tl) \<noteq> PortfolioCompleted,
           ValueError ''a completed portfolio requires a completion event''),
        (pf_status p \<noteq> COMPLETED \<and> te_kind (last tl) = PortfolioCompleted,
           ValueError ''an active portfolio cannot have a completion event'')] ()) (\<lambda>_.
     bindR (quantize_money (dsum (map (\<lambda>q. dadd (sp_entry_fee q) (sp_exit_fee q)) ps))) (\<lambda>expected_fees.
     bindR (raising [(pf_fees_paid p \<noteq> expected_fees,
        ValueError ''portfolio fees are inconsistent with positions'')] ()) (\<lambda>_.
     bindR (quantize_money (dsum (map sp_realized (closed_ones ps)))) (\<lambda>closed_realized.
     bindR (quantize_money (dsum (map sp_unrealized opens))) (\<lambda>open_unrealized.
     bindR (raising
       [(pf_realized p \<noteq> closed_realized,
           ValueError ''portfolio realized PnL is inconsistent with positions''),
        (pf_unrealized p \<noteq> open_unrealized,
           ValueError ''portfolio unrealized PnL is inconsistent with positions'')] ()) (\<lambda>_.
     bindR (quantize_money (dsum (map (\<lambda>q. dadd (sp_reserved q) (sp_entry_fee q)) opens)))
       (\<lambda>open_commitment.
     bindR (quantize_money (dsub (dadd (pf_starting_cash p) closed_realized) open_commitment))
       (\<lambda>expected_cash.
     bindR (quantize_money (dadd (pf_cash p)
              (dsum (map (\<lambda>q. dadd (sp_reserved q) (sp_unrealized q)) opens)))) (\<lambda>expected_equity.
     raising
       [(pf_cash p \<noteq> expected_cash, ValueError ''portfolio cash is inconsistent with positions''),
        (pf_equity p \<noteq> expected_equity,
           ValueError ''portfolio equity is inconsistent with positions'')] p))))))))))))"

text \<open>
  A nested model that fails its constraints or raises ValueError makes the field that holds it
  fail; any other exception leaves the validation at once.
\<close>

fun nested :: "'a result \<Rightarrow> bool result" where
  "nested (Inr x) = Inr True"
| "nested (Inl (ValueError m)) = Inr False"
| "nested (Inl (FieldErrors fs)) = Inr False"
| "nested (Inl e) = Inl e"

definition portfolio_fields :: "portfolio \<Rightarrow> bool \<Rightarrow> bool \<Rightarrow> (string \<times> bool) list" where
  "portfolio_fields p positions_ok timeline_ok =
     [(''portfolio_id'', has_id_form ''portfolio-'' 16 (pf_id p)),
      (''dataset_id'', sized 1 100 (pf_dataset_id p) \<and> strip (pf_dataset_id p) \<noteq> ''''),
      (''starting_cash'', 0 < pf_starting_cash p), (''cash'', 0 \<le> pf_cash p),
      (''fee_rate'', 0 \<le> pf_fee_rate p \<and> pf_fee_rate p < 1), (''fees_paid'', 0 \<le> pf_fees_paid p),
      (''positions'', positions_ok), (''timeline'', timeline_ok)]"

definition SimulatedPortfolio :: "portfolio \<Rightarrow> portfolio result" where
  "SimulatedPortfolio p =
     bindR (mapR (\<lambda>q. nested (SimulatedPosition q)) (pf_positions p)) (\<lambda>qs.
     bindR (mapR (\<lambda>e. nested (PortfolioTimelineEvent e)) (pf_timeline p)) (\<lambda>es.
     bindR (check_fields (portfolio_fields p (list_all id qs) (list_all id es)) ()) (\<lambda>_.
     validate_accounting (p\<lparr>pf_dataset_id := strip (pf_dataset_id p)\<rparr>))))"

section \<open>The ledger\<close>

definition portfolio_event ::
  "string \<Rightarrow> int \<Rightarrow> portfolio_event_type \<Rightarrow> int \<Rightarrow> rat \<Rightarrow> string option \<Rightarrow> rat option \<Rightarrow> rat option
   \<Rightarrow> rat option \<Rightarrow> timeline_event result" where
  "portfolio_event pid number kind occurred equity posid price qty realized =
     PortfolioTimelineEvent \<lparr>te_id = build_portfolio_event_id pid number kind occurred,
       te_portfolio_id = pid, te_sequence = number, te_kind = kind, te_occurred_at = occurred,
       te_equity = equity, te_position_id = posid, te_price = price, te_quantity = qty,
       te_realized = realized\<rparr>"

definition position_event ::
  "portfolio \<Rightarrow> portfolio_event_type \<Rightarrow> int \<Rightarrow> rat \<Rightarrow> simulated_position \<Rightarrow> rat \<Rightarrow> rat option
   \<Rightarrow> timeline_event result" where
  "position_event p kind occurred equity q price realized =
     portfolio_event (pf_id p) (int (length (pf_timeline p)) + 1) kind occurred equity
       (Some (sp_id q)) (Some price) (Some (sp_quantity q)) realized"

definition require_active :: "portfolio \<Rightarrow> unit result" where
  "require_active p = raising [(pf_status p \<noteq> ACTIVE, ValueError ''portfolio is already completed'')] ()"

definition next_timestamp :: "portfolio \<Rightarrow> timestamp \<Rightarrow> int result" where
  "next_timestamp p value = bindR (to_utc ''transition time must include timezone information'' value)
     (\<lambda>ts. raising [(ts \<le> pf_updated_at p,
        ValueError ''portfolio transition time must move forward'')] ts)"

text \<open>The first open position with the id, and its index.\<close>

fun find_open :: "string \<Rightarrow> nat \<Rightarrow> simulated_position list \<Rightarrow> (nat \<times> simulated_position) result" where
  "find_open pid i [] = Inl (ValueError ''open simulated position was not found'')"
| "find_open pid i (q # qs) =
     (if sp_id q = pid \<and> sp_status q = PositionOpen then Inr (i, q) else find_open pid (Suc i) qs)"

definition ledger_create ::
  "simulation_mode \<Rightarrow> string \<Rightarrow> rat \<Rightarrow> string \<Rightarrow> rat \<Rightarrow> string \<Rightarrow> timestamp \<Rightarrow> portfolio result" where
  "ledger_create mode ds starting_cash cash_text fee fee_text created =
     bindR (to_utc ''creation time must include timezone information'' created) (\<lambda>ts.
     let normalized = strip ds; pid = build_portfolio_id mode normalized ts cash_text fee_text in
     bindR (quantize_money starting_cash) (\<lambda>equity.
     bindR (portfolio_event pid 1 PortfolioCreated ts equity None None None None) (\<lambda>e.
     SimulatedPortfolio \<lparr>pf_id = pid, pf_mode = mode, pf_status = ACTIVE, pf_dataset_id = normalized,
       pf_created_at = ts, pf_updated_at = ts, pf_starting_cash = equity, pf_cash = equity,
       pf_equity = equity, pf_fee_rate = fee, pf_fees_paid = 0, pf_realized = 0, pf_unrealized = 0,
       pf_positions = [], pf_timeline = [e]\<rparr>)))"

text \<open>The position a transition builds from the one before.\<close>

definition opened_position ::
  "portfolio \<Rightarrow> trading_pair \<Rightarrow> position_side \<Rightarrow> rat \<Rightarrow> rat \<Rightarrow> int \<Rightarrow> rat \<Rightarrow> rat \<Rightarrow> simulated_position" where
  "opened_position p pair side price qty ts notional entry_fee =
     \<lparr>sp_id = build_position_id (pf_id p) (int (length (pf_positions p)) + 1) ts,
      sp_portfolio_id = pf_id p, sp_pair = pair, sp_side = side, sp_status = PositionOpen,
      sp_quantity = qty, sp_entry_price = price, sp_opened_at = ts, sp_current_price = price,
      sp_current_at = ts, sp_reserved = notional, sp_entry_fee = entry_fee, sp_unrealized = 0,
      sp_exit_price = None, sp_closed_at = None, sp_exit_fee = 0, sp_gross = 0, sp_realized = 0\<rparr>"

definition marked_position :: "simulated_position \<Rightarrow> rat \<Rightarrow> int \<Rightarrow> rat \<Rightarrow> simulated_position" where
  "marked_position q price ts unrealized =
     q\<lparr>sp_current_price := price, sp_current_at := ts, sp_unrealized := unrealized\<rparr>"

definition closed_position ::
  "simulated_position \<Rightarrow> rat \<Rightarrow> int \<Rightarrow> rat \<Rightarrow> rat \<Rightarrow> rat \<Rightarrow> simulated_position" where
  "closed_position q price ts exit_fee gross realized =
     q\<lparr>sp_status := PositionClosed, sp_current_price := price, sp_current_at := ts,
       sp_unrealized := 0, sp_exit_price := Some price, sp_closed_at := Some ts,
       sp_exit_fee := exit_fee, sp_gross := gross, sp_realized := realized\<rparr>"

definition ledger_open ::
  "trading_pair \<Rightarrow> position_side \<Rightarrow> rat \<Rightarrow> rat \<Rightarrow> timestamp \<Rightarrow> portfolio \<Rightarrow> portfolio result" where
  "ledger_open pair side price qty occurred p =
     bindR (require_active p) (\<lambda>_.
     bindR (raising [(list_ex (\<lambda>q. sp_status q = PositionOpen) (pf_positions p),
        ValueError ''cannot open a position while another position is open'')] ()) (\<lambda>_.
     bindR (next_timestamp p occurred) (\<lambda>ts.
     bindR (raising [(price \<le> 0 \<or> qty \<le> 0,
        ValueError ''position price and quantity must be greater than zero'')] ()) (\<lambda>_.
     bindR (quantize_money (dmul price qty)) (\<lambda>notional.
     bindR (quantize_money (dmul notional (pf_fee_rate p))) (\<lambda>entry_fee.
     bindR (quantize_money (dadd notional entry_fee)) (\<lambda>commitment.
     bindR (raising [(commitment > pf_cash p,
        ValueError ''portfolio has insufficient simulated cash'')] ()) (\<lambda>_.
     bindR (SimulatedPosition (opened_position p pair side price qty ts notional entry_fee)) (\<lambda>q.
     bindR (quantize_money (dsub (pf_cash p) commitment)) (\<lambda>cash.
     bindR (quantize_money (dadd cash notional)) (\<lambda>equity.
     bindR (position_event p PositionOpenedEvent ts equity q price None) (\<lambda>e.
     bindR (quantize_money (dadd (pf_fees_paid p) entry_fee)) (\<lambda>fees.
     SimulatedPortfolio (p\<lparr>pf_updated_at := ts, pf_cash := cash, pf_equity := equity,
       pf_fees_paid := fees, pf_positions := pf_positions p @ [q],
       pf_timeline := pf_timeline p @ [e]\<rparr>))))))))))))))"

definition ledger_mark :: "string \<Rightarrow> rat \<Rightarrow> timestamp \<Rightarrow> portfolio \<Rightarrow> portfolio result" where
  "ledger_mark posid price occurred p =
     bindR (require_active p) (\<lambda>_.
     bindR (find_open posid 0 (pf_positions p)) (\<lambda>(i, q).
     bindR (next_timestamp p occurred) (\<lambda>ts.
     bindR (raising [(price \<le> 0, ValueError ''mark price must be greater than zero'')] ()) (\<lambda>_.
     bindR (gross_pnl q price) (\<lambda>unrealized.
     let marked = marked_position q price ts unrealized in
     bindR (quantize_money (dadd (dadd (pf_cash p) (sp_reserved marked)) unrealized)) (\<lambda>equity.
     bindR (position_event p PositionMarkedEvent ts equity marked price None) (\<lambda>e.
     SimulatedPortfolio (p\<lparr>pf_updated_at := ts, pf_equity := equity, pf_unrealized := unrealized,
       pf_positions := (pf_positions p)[i := marked], pf_timeline := pf_timeline p @ [e]\<rparr>))))))))"

definition ledger_close :: "string \<Rightarrow> rat \<Rightarrow> timestamp \<Rightarrow> portfolio \<Rightarrow> portfolio result" where
  "ledger_close posid price occurred p =
     bindR (require_active p) (\<lambda>_.
     bindR (find_open posid 0 (pf_positions p)) (\<lambda>(i, q).
     bindR (next_timestamp p occurred) (\<lambda>ts.
     bindR (raising [(price \<le> 0, ValueError ''exit price must be greater than zero'')] ()) (\<lambda>_.
     bindR (gross_pnl q price) (\<lambda>gross.
     bindR (quantize_money (dmul (dmul price (sp_quantity q)) (pf_fee_rate p))) (\<lambda>exit_fee.
     bindR (quantize_money (dsub (dsub gross (sp_entry_fee q)) exit_fee)) (\<lambda>realized.
     let closed_one = closed_position q price ts exit_fee gross realized in
     bindR (quantize_money (dsub (dadd (dadd (pf_cash p) (sp_reserved q)) gross) exit_fee)) (\<lambda>cash.
     bindR (quantize_money (dadd (pf_realized p) realized)) (\<lambda>cumulative.
     bindR (position_event p PositionClosedEvent ts cash closed_one price (Some realized)) (\<lambda>e.
     bindR (quantize_money (dadd (pf_fees_paid p) exit_fee)) (\<lambda>fees.
     SimulatedPortfolio (p\<lparr>pf_updated_at := ts, pf_cash := cash, pf_equity := cash,
       pf_fees_paid := fees, pf_realized := cumulative, pf_unrealized := 0,
       pf_positions := (pf_positions p)[i := closed_one],
       pf_timeline := pf_timeline p @ [e]\<rparr>))))))))))))"

definition ledger_complete :: "timestamp \<Rightarrow> portfolio \<Rightarrow> portfolio result" where
  "ledger_complete occurred p =
     bindR (require_active p) (\<lambda>_.
     bindR (raising [(list_ex (\<lambda>q. sp_status q = PositionOpen) (pf_positions p),
        ValueError ''cannot complete a portfolio with an open position'')] ()) (\<lambda>_.
     bindR (next_timestamp p occurred) (\<lambda>ts.
     bindR (portfolio_event (pf_id p) (int (length (pf_timeline p)) + 1) PortfolioCompleted ts
              (pf_equity p) None None None None) (\<lambda>e.
     SimulatedPortfolio (p\<lparr>pf_status := COMPLETED, pf_updated_at := ts,
       pf_timeline := pf_timeline p @ [e]\<rparr>)))))"

section \<open>Snapshots are fixed points of their own validation\<close>

lemma gross_pnl_update [simp]:
  "gross_pnl (q\<lparr>sp_unrealized := u\<rparr>) x = gross_pnl q x" "gross_pnl (q\<lparr>sp_current_price := u\<rparr>) x = gross_pnl q x"
  "gross_pnl (q\<lparr>sp_current_at := t\<rparr>) x = gross_pnl q x" "gross_pnl (q\<lparr>sp_status := st\<rparr>) x = gross_pnl q x"
  "gross_pnl (q\<lparr>sp_exit_price := op\<rparr>) x = gross_pnl q x" "gross_pnl (q\<lparr>sp_closed_at := ot\<rparr>) x = gross_pnl q x"
  "gross_pnl (q\<lparr>sp_exit_fee := u\<rparr>) x = gross_pnl q x" "gross_pnl (q\<lparr>sp_gross := u\<rparr>) x = gross_pnl q x"
  "gross_pnl (q\<lparr>sp_realized := u\<rparr>) x = gross_pnl q x"
  by (simp_all add: gross_pnl_def)

lemma SimulatedPosition_Inr:
  "SimulatedPosition q = Inr r \<longleftrightarrow>
     r = q \<and> (\<forall>(n, ok) \<in> set (position_fields q). ok) \<and> sp_opened_at q \<le> sp_current_at q
     \<and> (\<exists>mark. gross_pnl q (sp_current_price q) = Inr mark
       \<and> (case sp_status q of
            PositionOpen \<Rightarrow> sp_exit_price q = None \<and> sp_closed_at q = None \<and> sp_exit_fee q = 0
              \<and> sp_gross q = 0 \<and> sp_realized q = 0 \<and> sp_unrealized q = mark
          | PositionClosed \<Rightarrow> sp_exit_price q = Some (sp_current_price q)
              \<and> sp_closed_at q = Some (sp_current_at q) \<and> sp_opened_at q < sp_current_at q
              \<and> sp_unrealized q = 0
              \<and> quantize_money (dsub (dsub (sp_gross q) (sp_entry_fee q)) (sp_exit_fee q))
                  = Inr (sp_realized q)))"
  by (cases "sp_status q")
    (auto simp: SimulatedPosition_def validate_position_def bindR_Inr_iff check_fields_Inr_iff
      raising_Inr_iff)

lemma PortfolioTimelineEvent_Inr:
  "PortfolioTimelineEvent e = Inr f \<longleftrightarrow>
     f = e \<and> (\<forall>(n, ok) \<in> set (timeline_event_fields e). ok)
     \<and> (te_kind e \<in> {PositionOpenedEvent, PositionMarkedEvent, PositionClosedEvent}
          \<longleftrightarrow> te_position_id e \<noteq> None \<and> te_price e \<noteq> None \<and> te_quantity e \<noteq> None)
     \<and> (te_kind e = PositionClosedEvent \<longleftrightarrow> te_realized e \<noteq> None)"
  by (auto simp: PortfolioTimelineEvent_def validate_event_details_def Let_def bindR_Inr_iff
      check_fields_Inr_iff raising_Inr_iff)

lemma nested_True: "nested m = Inr True \<longleftrightarrow> returns m"
  by (cases m rule: nested.cases) auto

lemma all_nested:
  "(\<exists>bs. mapR (\<lambda>x. nested (f x)) xs = Inr bs \<and> list_all id bs) \<longleftrightarrow> (\<forall>x \<in> set xs. returns (f x))"
proof (induction xs)
  case (Cons x xs)
  show ?case
    using Cons.IH by (cases "f x" rule: nested.cases) (fastforce simp: bindR_Inr_iff)+
qed simp

text \<open>What the portfolio's validator asks of everything but the amounts.\<close>

definition well_built :: "portfolio \<Rightarrow> bool" where
  "well_built p \<longleftrightarrow>
     pf_created_at p \<le> pf_updated_at p \<and> pf_timeline p \<noteq> []
     \<and> te_kind (hd (pf_timeline p)) = PortfolioCreated
     \<and> (\<forall>(n, e) \<in> set (enumerate_from 1 (pf_timeline p)). te_portfolio_id e = pf_id p \<and> te_sequence e = n)
     \<and> te_occurred_at (last (pf_timeline p)) = pf_updated_at p
     \<and> te_equity (last (pf_timeline p)) = pf_equity p
     \<and> distinct (map sp_id (pf_positions p))
     \<and> (\<forall>q \<in> set (pf_positions p). sp_portfolio_id q = pf_id p)
     \<and> length (open_ones (pf_positions p)) \<le> 1
     \<and> (pf_status p = COMPLETED \<longrightarrow> open_ones (pf_positions p) = [])
     \<and> (pf_status p = COMPLETED \<longleftrightarrow> te_kind (last (pf_timeline p)) = PortfolioCompleted)"

text \<open>What it asks of the amounts, as the code computes them.\<close>

definition amounts_agree :: "portfolio \<Rightarrow> bool" where
  "amounts_agree p \<longleftrightarrow>
     (let ps = pf_positions p; opens = open_ones ps in
      quantize_money (dsum (map (\<lambda>q. dadd (sp_entry_fee q) (sp_exit_fee q)) ps)) = Inr (pf_fees_paid p)
      \<and> quantize_money (dsum (map sp_realized (closed_ones ps))) = Inr (pf_realized p)
      \<and> quantize_money (dsum (map sp_unrealized opens)) = Inr (pf_unrealized p)
      \<and> (\<exists>commitment. quantize_money (dsum (map (\<lambda>q. dadd (sp_reserved q) (sp_entry_fee q)) opens))
            = Inr commitment
          \<and> quantize_money (dsub (dadd (pf_starting_cash p) (pf_realized p)) commitment) = Inr (pf_cash p))
      \<and> quantize_money (dadd (pf_cash p)
            (dsum (map (\<lambda>q. dadd (sp_reserved q) (sp_unrealized q)) opens))) = Inr (pf_equity p))"

lemma foldR_unit_checks:
  "foldR f () xs = Inr () \<longleftrightarrow> (\<forall>x \<in> set xs. f () x = Inr ())"
  by (induction xs) (auto simp: bindR_Inr_iff)

lemma validate_accounting_Inr:
  "validate_accounting p = Inr r \<longleftrightarrow> r = p \<and> well_built p \<and> amounts_agree p"
  by (cases "pf_status p")
   (auto simp: validate_accounting_def Let_def bindR_Inr_iff raising_Inr_iff foldR_unit_checks
    timeline_step_def well_built_def amounts_agree_def list_ex_iff split: prod.splits)

definition valid_portfolio :: "portfolio \<Rightarrow> bool" where
  "valid_portfolio p \<longleftrightarrow> SimulatedPortfolio p = Inr p"

lemma SimulatedPortfolio_Inr:
  "SimulatedPortfolio p = Inr r \<longleftrightarrow>
     r = p\<lparr>pf_dataset_id := strip (pf_dataset_id p)\<rparr>
     \<and> (\<forall>q \<in> set (pf_positions p). returns (SimulatedPosition q))
     \<and> (\<forall>e \<in> set (pf_timeline p). returns (PortfolioTimelineEvent e))
     \<and> (\<forall>(n, ok) \<in> set (portfolio_fields p True True). ok) \<and> well_built p \<and> amounts_agree p"
    (is "?run \<longleftrightarrow> ?spec")
proof -
  let ?p = "p\<lparr>pf_dataset_id := strip (pf_dataset_id p)\<rparr>"
  have fields: "(\<forall>(n, ok) \<in> set (portfolio_fields p b c). ok)
      \<longleftrightarrow> b \<and> c \<and> (\<forall>(n, ok) \<in> set (portfolio_fields p True True). ok)" for b c
    by (auto simp: portfolio_fields_def)
  have same: "well_built ?p = well_built p" "amounts_agree ?p = amounts_agree p"
    by (simp_all add: well_built_def amounts_agree_def)
  have "?run \<longleftrightarrow> (\<exists>qs. mapR (\<lambda>q. nested (SimulatedPosition q)) (pf_positions p) = Inr qs \<and> list_all id qs)
      \<and> (\<exists>es. mapR (\<lambda>e. nested (PortfolioTimelineEvent e)) (pf_timeline p) = Inr es \<and> list_all id es)
      \<and> (\<forall>(n, ok) \<in> set (portfolio_fields p True True). ok) \<and> r = ?p \<and> well_built ?p \<and> amounts_agree ?p"
    unfolding SimulatedPortfolio_def bindR_Inr_iff check_fields_Inr_iff validate_accounting_Inr
    by (subst fields) blast
  then show ?thesis unfolding all_nested same by blast
qed

lemma returned_portfolio_valid:
  assumes "SimulatedPortfolio p = Inr r" shows "valid_portfolio r"
proof -
  note p = assms [unfolded SimulatedPortfolio_Inr]
  have r: "r = p\<lparr>pf_dataset_id := strip (pf_dataset_id p)\<rparr>" using p by simp
  have "sized 1 100 (strip (pf_dataset_id p))"
    using p length_strip [of "pf_dataset_id p"]
    by (cases "strip (pf_dataset_id p)") (auto simp: sized_def portfolio_fields_def)
  then have f: "\<forall>(n, ok) \<in> set (portfolio_fields r True True). ok"
    using p by (simp add: r portfolio_fields_def)
  have "well_built r = well_built p" "amounts_agree r = amounts_agree p"
    by (simp_all add: r well_built_def amounts_agree_def)
  then show ?thesis
    unfolding valid_portfolio_def SimulatedPortfolio_Inr using p f by (simp add: r)
qed

section \<open>Exact amounts\<close>

text \<open>
  \<open>exact_book p\<close> is the accounting in exact arithmetic. It is what the validator computes as
  long as the amounts are multiples of the money quantum and their total, \<open>turnover p\<close>, needs no
  more digits than a decimal has.
\<close>

definition exact_book :: "portfolio \<Rightarrow> bool" where
  "exact_book p \<longleftrightarrow>
     (let ps = pf_positions p; opens = open_ones ps in
      pf_fees_paid p = (\<Sum>q\<leftarrow>ps. sp_entry_fee q + sp_exit_fee q)
      \<and> pf_realized p = (\<Sum>q\<leftarrow>closed_ones ps. sp_realized q)
      \<and> pf_unrealized p = (\<Sum>q\<leftarrow>opens. sp_unrealized q)
      \<and> pf_cash p = pf_starting_cash p + pf_realized p - (\<Sum>q\<leftarrow>opens. sp_reserved q + sp_entry_fee q)
      \<and> pf_equity p = pf_cash p + (\<Sum>q\<leftarrow>opens. sp_reserved q + sp_unrealized q))"

definition position_on_grid :: "simulated_position \<Rightarrow> bool" where
  "position_on_grid q \<longleftrightarrow>
     on_grid 8 (sp_reserved q) \<and> on_grid 8 (sp_entry_fee q) \<and> on_grid 8 (sp_unrealized q)
     \<and> on_grid 8 (sp_exit_fee q) \<and> on_grid 8 (sp_gross q) \<and> on_grid 8 (sp_realized q)"

definition on_money_grid :: "portfolio \<Rightarrow> bool" where
  "on_money_grid p \<longleftrightarrow> on_grid 8 (pf_starting_cash p) \<and> list_all position_on_grid (pf_positions p)"

definition position_turnover :: "simulated_position \<Rightarrow> rat" where
  "position_turnover q = \<bar>sp_reserved q\<bar> + \<bar>sp_entry_fee q\<bar> + \<bar>sp_exit_fee q\<bar> + \<bar>sp_unrealized q\<bar> + \<bar>sp_realized q\<bar>"

definition turnover :: "portfolio \<Rightarrow> rat" where
  "turnover p = \<bar>pf_starting_cash p\<bar> + sum_list (map position_turnover (pf_positions p))"

lemma position_turnover_nonneg [simp]: "0 \<le> position_turnover q"
  by (simp add: position_turnover_def)

lemma abs_add_turnover:
  "\<bar>sp_entry_fee q + sp_exit_fee q\<bar> \<le> position_turnover q" "\<bar>sp_realized q\<bar> \<le> position_turnover q"
  "\<bar>sp_unrealized q\<bar> \<le> position_turnover q" "\<bar>sp_reserved q + sp_entry_fee q\<bar> \<le> position_turnover q"
  "\<bar>sp_reserved q + sp_unrealized q\<bar> \<le> position_turnover q"
  by (simp_all add: position_turnover_def)

lemma sum_abs_filter:
  assumes "\<And>q. \<bar>f q\<bar> \<le> position_turnover q"
  shows "(\<Sum>q\<leftarrow>filter P ps. \<bar>f q\<bar>) \<le> sum_list (map position_turnover ps)"
proof (induction ps)
  case (Cons q ps)
  then show ?case using assms [of q] position_turnover_nonneg [of q] by auto
qed simp

lemma money_sum:
  assumes grid: "\<And>q. q \<in> set ps \<Longrightarrow> on_grid 8 (f q)" and le: "\<And>q. \<bar>f q\<bar> \<le> position_turnover q"
    and fits: "sum_list (map position_turnover ps) \<le> 10 ^ 20"
  shows "dsum (map (\<lambda>q. dround (f q)) (filter P ps)) = (\<Sum>q\<leftarrow>filter P ps. f q)"
    "on_grid 8 (\<Sum>q\<leftarrow>filter P ps. f q)" "\<bar>\<Sum>q\<leftarrow>filter P ps. f q\<bar> \<le> sum_list (map position_turnover ps)"
proof -
  have abs: "(\<Sum>q\<leftarrow>filter P ps. \<bar>f q\<bar>) \<le> sum_list (map position_turnover ps)"
    using le by (rule sum_abs_filter)
  have one: "dround (f q) = f q" if q: "q \<in> set ps" for q
  proof (rule dround_money)
    show "on_grid 8 (f q)" using q by (rule grid)
    have "position_turnover q \<le> sum_list (map position_turnover ps)"
      using q by (intro member_le_sum_list) auto
    with le [of q] fits show "\<bar>f q\<bar> \<le> 10 ^ 20" by linarith
  qed
  then have "map (\<lambda>q. dround (f q)) (filter P ps) = map f (filter P ps)" by simp
  moreover have "dsum (map f (filter P ps)) = sum_list (map f (filter P ps))"
  proof (rule dsum_grid)
    show "\<forall>x\<in>set (map f (filter P ps)). on_grid 8 x" using grid by auto
    have "sum_list (map abs (map f (filter P ps))) = (\<Sum>q\<leftarrow>filter P ps. \<bar>f q\<bar>)" by (simp add: comp_def)
    with abs fits show "sum_list (map abs (map f (filter P ps))) * 10 ^ 8 \<le> 10 ^ 28" by simp
  qed
  ultimately show "dsum (map (\<lambda>q. dround (f q)) (filter P ps)) = (\<Sum>q\<leftarrow>filter P ps. f q)"
    by (simp only:)
  show "on_grid 8 (\<Sum>q\<leftarrow>filter P ps. f q)" by (rule on_grid_sum_list) (auto intro: grid)
  have "\<bar>\<Sum>q\<leftarrow>filter P ps. f q\<bar> \<le> (\<Sum>q\<leftarrow>filter P ps. \<bar>f q\<bar>)"
    using abs_sum_list_le [of "map f (filter P ps)"] by (simp add: comp_def)
  with abs show "\<bar>\<Sum>q\<leftarrow>filter P ps. f q\<bar> \<le> sum_list (map position_turnover ps)" by linarith
qed

text \<open>The same for amounts a position already holds.\<close>

lemma money_sum_plain:
  assumes grid: "\<And>q. q \<in> set ps \<Longrightarrow> on_grid 8 (f q)" and le: "\<And>q. \<bar>f q\<bar> \<le> position_turnover q"
    and fits: "sum_list (map position_turnover ps) \<le> 10 ^ 20"
  shows "dsum (map f (filter P ps)) = (\<Sum>q\<leftarrow>filter P ps. f q)"
proof (rule dsum_grid)
  show "\<forall>x\<in>set (map f (filter P ps)). on_grid 8 x" using grid by auto
  have "sum_list (map abs (map f (filter P ps))) = (\<Sum>q\<leftarrow>filter P ps. \<bar>f q\<bar>)" by (simp add: comp_def)
  with sum_abs_filter [OF le, of P ps] fits
  show "sum_list (map abs (map f (filter P ps))) * 10 ^ 8 \<le> 10 ^ 28" by simp
qed

lemma money_exact:
  assumes "on_grid 8 x" "\<bar>x\<bar> \<le> 10 ^ 19" shows "quantize_money x = Inr y \<longleftrightarrow> y = x"
  using quantize_money_fixed [OF assms] by auto

lemma amounts_agree_exact:
  assumes grid: "on_money_grid p" and fits: "turnover p \<le> 10 ^ 18"
  shows "amounts_agree p \<longleftrightarrow> exact_book p"
proof -
  let ?ps = "pf_positions p" and ?s = "pf_starting_cash p"
  let ?T = "sum_list (map position_turnover ?ps)"
  have T: "\<bar>?s\<bar> + ?T \<le> 10 ^ 18" and s: "on_grid 8 ?s"
    using fits grid by (simp_all add: turnover_def on_money_grid_def)
  have pw: "(10 :: rat) ^ 18 \<le> 10 ^ 19" "4 * (10 :: rat) ^ 18 \<le> 10 ^ 19" "(10 :: rat) ^ 19 \<le> 10 ^ 20" by simp_all
  have T20: "?T \<le> 10 ^ 20" using T pw abs_ge_zero [of ?s] by linarith
  have g: "position_on_grid q" if "q \<in> set ?ps" for q
    using grid that by (simp add: on_money_grid_def list_all_iff)
  let ?fee = "\<lambda>q. sp_entry_fee q + sp_exit_fee q" and ?com = "\<lambda>q. sp_reserved q + sp_entry_fee q"
    and ?val = "\<lambda>q. sp_reserved q + sp_unrealized q"
  have gf: "\<And>q. q \<in> set ?ps \<Longrightarrow> on_grid 8 (?fee q)" "\<And>q. q \<in> set ?ps \<Longrightarrow> on_grid 8 (?com q)"
    "\<And>q. q \<in> set ?ps \<Longrightarrow> on_grid 8 (?val q)" "\<And>q. q \<in> set ?ps \<Longrightarrow> on_grid 8 (sp_realized q)"
    "\<And>q. q \<in> set ?ps \<Longrightarrow> on_grid 8 (sp_unrealized q)"
    using g by (auto simp: position_on_grid_def)
  note fee = money_sum [OF gf(1) abs_add_turnover(1) T20, of "\<lambda>q. True", simplified]
  note com = money_sum [OF gf(2) abs_add_turnover(4) T20, of "\<lambda>q. sp_status q = PositionOpen"]
  note val = money_sum [OF gf(3) abs_add_turnover(5) T20, of "\<lambda>q. sp_status q = PositionOpen"]
  note re = money_sum_plain [OF gf(4) abs_add_turnover(2) T20, of "\<lambda>q. sp_status q = PositionClosed"]
    money_sum(2,3) [OF gf(4) abs_add_turnover(2) T20, of "\<lambda>q. sp_status q = PositionClosed"]
  note un = money_sum_plain [OF gf(5) abs_add_turnover(3) T20, of "\<lambda>q. sp_status q = PositionOpen"]
    money_sum(2,3) [OF gf(5) abs_add_turnover(3) T20, of "\<lambda>q. sp_status q = PositionOpen"]
  define F R U C V where "F = (\<Sum>q\<leftarrow>?ps. ?fee q)" and "R = (\<Sum>q\<leftarrow>closed_ones ?ps. sp_realized q)"
    and "U = (\<Sum>q\<leftarrow>open_ones ?ps. sp_unrealized q)" and "C = (\<Sum>q\<leftarrow>open_ones ?ps. ?com q)"
    and "V = (\<Sum>q\<leftarrow>open_ones ?ps. ?val q)"
  note defs = F_def R_def U_def C_def V_def
  have sums: "dsum (map (\<lambda>q. dadd (sp_entry_fee q) (sp_exit_fee q)) ?ps) = F"
    "dsum (map sp_realized (closed_ones ?ps)) = R" "dsum (map sp_unrealized (open_ones ?ps)) = U"
    "dsum (map (\<lambda>q. dadd (sp_reserved q) (sp_entry_fee q)) (open_ones ?ps)) = C"
    "dsum (map (\<lambda>q. dadd (sp_reserved q) (sp_unrealized q)) (open_ones ?ps)) = V"
    using fee(1) re(1) un(1) com(1) val(1) by (simp_all add: defs dadd_def open_ones_def closed_ones_def)
  have grids: "on_grid 8 F" "on_grid 8 R" "on_grid 8 U" "on_grid 8 C" "on_grid 8 V"
    using fee(2) re(2) un(2) com(2) val(2) by (simp_all add: defs open_ones_def closed_ones_def)
  have "\<bar>F\<bar> \<le> ?T" "\<bar>R\<bar> \<le> ?T" "\<bar>U\<bar> \<le> ?T" "\<bar>C\<bar> \<le> ?T" "\<bar>V\<bar> \<le> ?T"
    using fee(3) re(3) un(3) com(3) val(3) by (simp_all add: defs open_ones_def closed_ones_def)
  with T have bounds: "\<bar>F\<bar> \<le> 10 ^ 18" "\<bar>R\<bar> \<le> 10 ^ 18" "\<bar>U\<bar> \<le> 10 ^ 18" "\<bar>C\<bar> \<le> 10 ^ 18" "\<bar>V\<bar> \<le> 10 ^ 18"
    "\<bar>?s\<bar> \<le> 10 ^ 18"
    by linarith+
  have small: "\<bar>x\<bar> \<le> 10 ^ 19" if "\<bar>x\<bar> \<le> 10 ^ 18" for x :: rat using that pw by linarith
  have grid3: "on_grid 8 (?s + R)" "on_grid 8 (?s + R - C)" "on_grid 8 (?s + R - C + V)"
    using s grids by auto
  have b3: "\<bar>?s + R\<bar> \<le> 10 ^ 20" "\<bar>?s + R - C\<bar> \<le> 10 ^ 19" "\<bar>?s + R - C + V\<bar> \<le> 10 ^ 19"
    "\<bar>?s + R - C\<bar> \<le> 10 ^ 20" "\<bar>?s + R - C + V\<bar> \<le> 10 ^ 20"
    using bounds pw by linarith+
  have sr: "dadd ?s R = ?s + R" "dsub (?s + R) C = ?s + R - C" "dadd (?s + R - C) V = ?s + R - C + V"
    unfolding dadd_def dsub_def using grid3 b3 by (simp_all add: dround_money)
  show ?thesis
    unfolding amounts_agree_def exact_book_def Let_def sums defs [symmetric]
      money_exact [OF grids(1) small [OF bounds(1)]] money_exact [OF grids(2) small [OF bounds(2)]]
      money_exact [OF grids(3) small [OF bounds(3)]] money_exact [OF grids(4) small [OF bounds(4)]]
    using sr money_exact [OF grid3(2) b3(2)] money_exact [OF grid3(3) b3(3)] by auto
qed

section \<open>The states the ledger reaches\<close>

inductive ledger_step :: "portfolio \<Rightarrow> portfolio \<Rightarrow> bool" where
  opens: "ledger_open pair side price qty at_time p = Inr p' \<Longrightarrow> ledger_step p p'"
| marks: "ledger_mark posid price at_time p = Inr p' \<Longrightarrow> ledger_step p p'"
| closes_one: "ledger_close posid price at_time p = Inr p' \<Longrightarrow> ledger_step p p'"
| completes: "ledger_complete at_time p = Inr p' \<Longrightarrow> ledger_step p p'"

inductive simulated :: "portfolio \<Rightarrow> bool" where
  created: "ledger_create mode ds cash cash_text fee fee_text at_time = Inr p \<Longrightarrow> simulated p"
| stepped: "simulated p \<Longrightarrow> ledger_step p p' \<Longrightarrow> simulated p'"

lemma quantize_money_grid: "quantize_money x = Inr y \<Longrightarrow> on_grid 8 y"
  unfolding quantize_money_def by (rule half_even.quantize_result(1))

lemma gross_pnl_grid: "gross_pnl q x = Inr y \<Longrightarrow> on_grid 8 y"
  by (auto simp: gross_pnl_def split: if_splits dest: quantize_money_grid)

lemma find_open_Inr:
  assumes "find_open posid k ps = Inr (i, q)"
  obtains pre post where "ps = pre @ q # post" "i = k + length pre" "sp_id q = posid" "sp_status q = PositionOpen"
  using assms
proof (induction ps arbitrary: k thesis)
  case (Cons r ps)
  show ?case
  proof (cases "sp_id r = posid \<and> sp_status r = PositionOpen")
    case True
    with Cons.prems(2) show ?thesis by (intro Cons.prems(1) [of "[]" ps]) auto
  next
    case False
    with Cons.prems(2) have "find_open posid (Suc k) ps = Inr (i, q)" by auto
    then obtain pre post where "ps = pre @ q # post" "i = Suc k + length pre" "sp_id q = posid"
      "sp_status q = PositionOpen"
      by (rule Cons.IH [rotated])
    then show ?thesis by (intro Cons.prems(1) [of "r # pre" post]) auto
  qed
qed simp

lemma portfolio_event_Inr:
  "portfolio_event pid n k t eq posid price qty realized = Inr e \<Longrightarrow>
     te_portfolio_id e = pid \<and> te_sequence e = n \<and> te_kind e = k \<and> te_occurred_at e = t \<and> te_equity e = eq
     \<and> te_position_id e = posid \<and> te_price e = price \<and> te_quantity e = qty \<and> te_realized e = realized"
  by (auto simp: portfolio_event_def PortfolioTimelineEvent_Inr)

text \<open>What each transition that returns has done.\<close>

lemma returned_snapshot:
  assumes "SimulatedPortfolio p = Inr r"
  shows "r = p\<lparr>pf_dataset_id := strip (pf_dataset_id p)\<rparr>" "valid_portfolio r"
  using assms returned_portfolio_valid by (auto simp: SimulatedPortfolio_Inr)

lemma valid_portfolio_iff:
  "valid_portfolio p \<longleftrightarrow>
     strip (pf_dataset_id p) = pf_dataset_id p
     \<and> (\<forall>q \<in> set (pf_positions p). SimulatedPosition q = Inr q)
     \<and> (\<forall>e \<in> set (pf_timeline p). PortfolioTimelineEvent e = Inr e)
     \<and> (\<forall>(n, ok) \<in> set (portfolio_fields p True True). ok) \<and> well_built p \<and> amounts_agree p"
proof -
  have "returns (SimulatedPosition q) \<longleftrightarrow> SimulatedPosition q = Inr q" for q
    by (auto simp: returns_iff SimulatedPosition_Inr)
  moreover have "returns (PortfolioTimelineEvent e) \<longleftrightarrow> PortfolioTimelineEvent e = Inr e" for e
    by (auto simp: returns_iff PortfolioTimelineEvent_Inr)
  moreover have "p = p\<lparr>pf_dataset_id := d\<rparr> \<longleftrightarrow> d = pf_dataset_id p" for d
    by (cases p) auto
  ultimately show ?thesis unfolding valid_portfolio_def SimulatedPortfolio_Inr by auto
qed

lemma next_timestamp_Inr: "next_timestamp p v = Inr t \<longleftrightarrow> v = Aware t \<and> pf_updated_at p < t"
  by (auto simp: next_timestamp_def error_dests)

lemma require_active_Inr: "require_active p = Inr u \<longleftrightarrow> pf_status p = ACTIVE"
  by (auto simp: require_active_def raising_Inr_iff)

definition extends :: "portfolio \<Rightarrow> portfolio_event_type \<Rightarrow> portfolio \<Rightarrow> bool" where
  "extends p k p' \<longleftrightarrow>
     pf_status p = ACTIVE \<and> pf_updated_at p < pf_updated_at p'
     \<and> pf_id p' = pf_id p \<and> pf_mode p' = pf_mode p \<and> pf_dataset_id p' = strip (pf_dataset_id p)
     \<and> pf_created_at p' = pf_created_at p \<and> pf_starting_cash p' = pf_starting_cash p
     \<and> pf_fee_rate p' = pf_fee_rate p
     \<and> (\<exists>e. pf_timeline p' = pf_timeline p @ [e] \<and> te_kind e = k \<and> te_occurred_at e = pf_updated_at p'
          \<and> te_equity e = pf_equity p')"

text \<open>How a position changes while its portfolio steps on.\<close>

definition position_step :: "simulated_position \<Rightarrow> simulated_position \<Rightarrow> bool" where
  "position_step q q' \<longleftrightarrow>
     sp_status q = PositionOpen \<and> sp_id q' = sp_id q \<and> sp_pair q' = sp_pair q \<and> sp_side q' = sp_side q
     \<and> sp_quantity q' = sp_quantity q \<and> sp_entry_price q' = sp_entry_price q
     \<and> sp_opened_at q' = sp_opened_at q \<and> sp_reserved q' = sp_reserved q \<and> sp_entry_fee q' = sp_entry_fee q
     \<and> (position_on_grid q \<longrightarrow> position_on_grid q')"

lemma marked_position_fields [simp]:
  "sp_id (marked_position q x t u) = sp_id q" "sp_portfolio_id (marked_position q x t u) = sp_portfolio_id q"
  "sp_status (marked_position q x t u) = sp_status q" "sp_quantity (marked_position q x t u) = sp_quantity q"
  "sp_opened_at (marked_position q x t u) = sp_opened_at q" "sp_reserved (marked_position q x t u) = sp_reserved q"
  "sp_entry_fee (marked_position q x t u) = sp_entry_fee q" "sp_exit_fee (marked_position q x t u) = sp_exit_fee q"
  "sp_unrealized (marked_position q x t u) = u" "sp_realized (marked_position q x t u) = sp_realized q"
  by (simp_all add: marked_position_def)

lemma closed_position_fields [simp]:
  "sp_id (closed_position q x t f g r) = sp_id q"
  "sp_portfolio_id (closed_position q x t f g r) = sp_portfolio_id q"
  "sp_status (closed_position q x t f g r) = PositionClosed"
  "sp_quantity (closed_position q x t f g r) = sp_quantity q"
  "sp_opened_at (closed_position q x t f g r) = sp_opened_at q"
  "sp_reserved (closed_position q x t f g r) = sp_reserved q"
  "sp_entry_fee (closed_position q x t f g r) = sp_entry_fee q" "sp_exit_fee (closed_position q x t f g r) = f"
  "sp_unrealized (closed_position q x t f g r) = 0" "sp_realized (closed_position q x t f g r) = r"
  by (simp_all add: closed_position_def)

lemma opened_position_fields [simp]:
  "sp_portfolio_id (opened_position p pr sd x n t v f) = pf_id p"
  "sp_status (opened_position p pr sd x n t v f) = PositionOpen"
  "sp_quantity (opened_position p pr sd x n t v f) = n" "sp_opened_at (opened_position p pr sd x n t v f) = t"
  "sp_reserved (opened_position p pr sd x n t v f) = v" "sp_entry_fee (opened_position p pr sd x n t v f) = f"
  "sp_exit_fee (opened_position p pr sd x n t v f) = 0" "sp_unrealized (opened_position p pr sd x n t v f) = 0"
  "sp_realized (opened_position p pr sd x n t v f) = 0"
  by (simp_all add: opened_position_def)

lemma marked_position_step:
  "sp_status q = PositionOpen \<Longrightarrow> on_grid 8 u \<Longrightarrow> position_step q (marked_position q x t u)"
  by (simp add: position_step_def marked_position_def position_on_grid_def)

lemma closed_position_step:
  "sp_status q = PositionOpen \<Longrightarrow> on_grid 8 f \<Longrightarrow> on_grid 8 g \<Longrightarrow> on_grid 8 r
   \<Longrightarrow> position_step q (closed_position q x t f g r)"
  by (simp add: position_step_def closed_position_def position_on_grid_def)

lemma ledger_open_Inr:
  assumes "ledger_open pair side price qty at_time p = Inr p'"
  obtains q where "extends p PositionOpenedEvent p'" "valid_portfolio p'" "pf_status p' = ACTIVE"
    "pf_positions p' = pf_positions p @ [q]" "sp_status q = PositionOpen" "position_on_grid q"
    "sp_opened_at q = pf_updated_at p'" "open_ones (pf_positions p) = []"
proof -
  from assms obtain ts q e n f c com eq fe where p': "SimulatedPortfolio (p\<lparr>pf_updated_at := ts, pf_cash := c,
      pf_equity := eq, pf_fees_paid := fe, pf_positions := pf_positions p @ [q],
      pf_timeline := pf_timeline p @ [e]\<rparr>) = Inr p'"
    and facts: "pf_status p = ACTIVE" "pf_updated_at p < ts" "open_ones (pf_positions p) = []"
      "quantize_money (dmul price qty) = Inr n" "quantize_money (dmul n (pf_fee_rate p)) = Inr f"
      "SimulatedPosition (opened_position p pair side price qty ts n f) = Inr q"
      "position_event p PositionOpenedEvent ts eq q price None = Inr e"
    by (auto simp: ledger_open_def bindR_Inr_iff raising_Inr_iff next_timestamp_Inr require_active_Inr
        open_ones_def filter_empty_conv list_ex_iff)
  have q: "q = opened_position p pair side price qty ts n f" using facts(6) by (simp add: SimulatedPosition_Inr)
  have "position_on_grid q"
    using quantize_money_grid [OF facts(4)] quantize_money_grid [OF facts(5)]
    by (simp add: q position_on_grid_def) (simp add: opened_position_def)
  with returned_snapshot [OF p'] facts show ?thesis
    by (intro that [of q]) (auto simp: extends_def position_event_def q dest!: portfolio_event_Inr)
qed

lemma ledger_mark_Inr:
  assumes "ledger_mark posid price at_time p = Inr p'"
  obtains pre q q' post where "extends p PositionMarkedEvent p'" "valid_portfolio p'" "pf_status p' = ACTIVE"
    "pf_positions p = pre @ q # post" "pf_positions p' = pre @ q' # post" "position_step q q'"
    "sp_status q' = PositionOpen"
proof -
  from assms obtain i ts q u e eq where
    p': "SimulatedPortfolio (p\<lparr>pf_updated_at := ts, pf_equity := eq, pf_unrealized := u,
       pf_positions := (pf_positions p)[i := marked_position q price ts u],
       pf_timeline := pf_timeline p @ [e]\<rparr>) = Inr p'"
    and facts: "pf_status p = ACTIVE" "pf_updated_at p < ts" "find_open posid 0 (pf_positions p) = Inr (i, q)"
      "gross_pnl q price = Inr u"
      "position_event p PositionMarkedEvent ts eq (marked_position q price ts u) price None = Inr e"
    by (auto simp: ledger_mark_def bindR_Inr_iff raising_Inr_iff next_timestamp_Inr require_active_Inr
        Let_def)
  from facts(3) obtain pre post where q: "pf_positions p = pre @ q # post" "i = length pre"
    "sp_status q = PositionOpen" by (rule find_open_Inr) auto
  show ?thesis
    by (rule that [of pre q post "marked_position q price ts u"])
      (use returned_snapshot [OF p'] facts marked_position_step [OF q(3) gross_pnl_grid [OF facts(4)]] q in
        \<open>auto simp: extends_def position_event_def dest!: portfolio_event_Inr\<close>)
qed

lemma ledger_close_Inr:
  assumes "ledger_close posid price at_time p = Inr p'"
  obtains pre q q' post where "extends p PositionClosedEvent p'" "valid_portfolio p'" "pf_status p' = ACTIVE"
    "pf_positions p = pre @ q # post" "pf_positions p' = pre @ q' # post" "position_step q q'"
    "sp_status q' = PositionClosed"
proof -
  from assms obtain i ts q g f re c cum e fe where
    p': "SimulatedPortfolio (p\<lparr>pf_updated_at := ts, pf_cash := c, pf_equity := c, pf_fees_paid := fe,
       pf_realized := cum, pf_unrealized := 0,
       pf_positions := (pf_positions p)[i := closed_position q price ts f g re],
       pf_timeline := pf_timeline p @ [e]\<rparr>) = Inr p'"
    and facts: "pf_status p = ACTIVE" "pf_updated_at p < ts" "find_open posid 0 (pf_positions p) = Inr (i, q)"
      "gross_pnl q price = Inr g"
      "quantize_money (dmul (dmul price (sp_quantity q)) (pf_fee_rate p)) = Inr f"
      "quantize_money (dsub (dsub g (sp_entry_fee q)) f) = Inr re"
      "position_event p PositionClosedEvent ts c (closed_position q price ts f g re) price (Some re) = Inr e"
    by (auto simp: ledger_close_def bindR_Inr_iff raising_Inr_iff next_timestamp_Inr require_active_Inr
        Let_def)
  from facts(3) obtain pre post where q: "pf_positions p = pre @ q # post" "i = length pre"
    "sp_status q = PositionOpen" by (rule find_open_Inr) auto
  note step = closed_position_step [OF q(3) quantize_money_grid [OF facts(5)] gross_pnl_grid [OF facts(4)]
      quantize_money_grid [OF facts(6)]]
  show ?thesis
    by (rule that [of pre q post "closed_position q price ts f g re"])
      (use returned_snapshot [OF p'] facts step q in
        \<open>auto simp: extends_def position_event_def dest!: portfolio_event_Inr\<close>)
qed

lemma ledger_complete_Inr:
  assumes "ledger_complete at_time p = Inr p'"
  shows "extends p PortfolioCompleted p'" "valid_portfolio p'" "pf_status p' = COMPLETED"
    "pf_positions p' = pf_positions p" "open_ones (pf_positions p) = []"
  using assms
  by (auto simp: ledger_complete_def bindR_Inr_iff raising_Inr_iff next_timestamp_Inr require_active_Inr
      extends_def open_ones_def filter_empty_conv list_ex_iff
      dest!: portfolio_event_Inr dest: returned_snapshot)

section \<open>The invariant of the ledger\<close>

definition ledger_invariant :: "portfolio \<Rightarrow> bool" where
  "ledger_invariant p \<longleftrightarrow>
     valid_portfolio p \<and> on_money_grid p
     \<and> sorted_wrt (<) (map te_occurred_at (pf_timeline p))
     \<and> (\<forall>q \<in> set (pf_positions p). sp_opened_at q \<le> pf_updated_at p)"

lemma valid_portfolio_facts:
  assumes "valid_portfolio p"
  shows "0 < pf_starting_cash p" "0 \<le> pf_cash p" "0 \<le> pf_fees_paid p" "0 \<le> pf_fee_rate p" "pf_fee_rate p < 1"
    "pf_timeline p \<noteq> []" "te_occurred_at (last (pf_timeline p)) = pf_updated_at p"
    "length (open_ones (pf_positions p)) \<le> 1" "strip (pf_dataset_id p) = pf_dataset_id p"
    "sized 1 100 (pf_dataset_id p)" "strip (pf_dataset_id p) \<noteq> []" "has_id_form ''portfolio-'' 16 (pf_id p)"
    "pf_status p = COMPLETED \<Longrightarrow> open_ones (pf_positions p) = []"
    "q \<in> set (pf_positions p) \<Longrightarrow> SimulatedPosition q = Inr q"
  using assms by (auto simp: valid_portfolio_iff portfolio_fields_def well_built_def)

lemma ledger_create_invariant:
  assumes "ledger_create mode ds cash cash_text fee fee_text at_time = Inr p" shows "ledger_invariant p"
proof -
  from assms obtain ts c e where p: "SimulatedPortfolio \<lparr>pf_id = build_portfolio_id mode (strip ds) ts cash_text fee_text,
       pf_mode = mode, pf_status = ACTIVE, pf_dataset_id = strip ds,
       pf_created_at = ts, pf_updated_at = ts, pf_starting_cash = c, pf_cash = c,
       pf_equity = c, pf_fee_rate = fee, pf_fees_paid = 0, pf_realized = 0, pf_unrealized = 0,
       pf_positions = [], pf_timeline = [e]\<rparr> = Inr p" and c: "quantize_money cash = Inr c"
    by (auto simp: ledger_create_def bindR_Inr_iff Let_def error_dests)
  show ?thesis
    using returned_snapshot [OF p] quantize_money_grid [OF c]
    by (simp add: ledger_invariant_def on_money_grid_def)
qed

lemma extends_times:
  assumes "extends p k p'" "ledger_invariant p"
  shows "sorted_wrt (<) (map te_occurred_at (pf_timeline p'))"
proof -
  obtain e where e: "pf_timeline p' = pf_timeline p @ [e]" "te_occurred_at e = pf_updated_at p'"
    and later: "pf_updated_at p < pf_updated_at p'"
    using assms(1) by (auto simp: extends_def)
  have sorted: "sorted_wrt (<) (map te_occurred_at (pf_timeline p))" and v: "valid_portfolio p"
    using assms(2) by (simp_all add: ledger_invariant_def)
  have "te_occurred_at x \<le> pf_updated_at p" if "x \<in> set (pf_timeline p)" for x
  proof -
    have tl: "pf_timeline p = butlast (pf_timeline p) @ [last (pf_timeline p)]"
      using valid_portfolio_facts(6) [OF v] by simp
    have "sorted_wrt (<) (map te_occurred_at (butlast (pf_timeline p)) @ [te_occurred_at (last (pf_timeline p))])"
      using sorted by (subst (asm) tl) simp
    moreover have "x \<in> set (butlast (pf_timeline p)) \<or> x = last (pf_timeline p)"
      using that by (subst (asm) tl) auto
    ultimately show ?thesis using valid_portfolio_facts(7) [OF v] by (fastforce simp: sorted_wrt_append)
  qed
  then show ?thesis using sorted e later by (fastforce simp: sorted_wrt_append)
qed

lemma replaced_position:
  assumes "extends p k p'" "ledger_invariant p" "valid_portfolio p'" "pf_positions p = pre @ q # post"
    "pf_positions p' = pre @ q' # post" "position_step q q'"
  shows "ledger_invariant p'"
proof -
  have "pf_updated_at p < pf_updated_at p'" "pf_starting_cash p' = pf_starting_cash p"
    using assms(1) by (simp_all add: extends_def)
  moreover have "\<forall>x \<in> set (pre @ q # post). position_on_grid x \<and> sp_opened_at x \<le> pf_updated_at p"
    "on_grid 8 (pf_starting_cash p)"
    using assms(2,4) by (auto simp: ledger_invariant_def on_money_grid_def list_all_iff)
  moreover have late: "x \<le> pf_updated_at p'" if "x \<le> pf_updated_at p" for x
    using that assms(1) by (simp add: extends_def)
  ultimately show ?thesis
    unfolding ledger_invariant_def on_money_grid_def list_all_iff assms(5)
    using extends_times [OF assms(1,2)] assms(3,6)
    by (auto simp: position_step_def intro: late)
qed

lemma ledger_step_invariant:
  assumes "ledger_step p p'" "ledger_invariant p" shows "ledger_invariant p'"
  using assms(1)
proof cases
  case (opens pair side price qty at_time)
  from ledger_open_Inr [OF this] obtain q where q: "extends p PositionOpenedEvent p'" "valid_portfolio p'"
    "pf_positions p' = pf_positions p @ [q]" "position_on_grid q" "sp_opened_at q = pf_updated_at p'"
    by metis
  then show ?thesis
    using assms(2) extends_times [OF q(1) assms(2)]
    by (fastforce simp: ledger_invariant_def on_money_grid_def extends_def)
next
  case (marks posid price at_time)
  from ledger_mark_Inr [OF this] obtain pre q q' post where q: "extends p PositionMarkedEvent p'" "valid_portfolio p'"
    "pf_positions p = pre @ q # post" "pf_positions p' = pre @ q' # post" "position_step q q'"
    by metis
  then show ?thesis using assms(2) by (intro replaced_position [of p _ p' pre q post q'])
next
  case (closes_one posid price at_time)
  from ledger_close_Inr [OF this] obtain pre q q' post where q: "extends p PositionClosedEvent p'" "valid_portfolio p'"
    "pf_positions p = pre @ q # post" "pf_positions p' = pre @ q' # post" "position_step q q'"
    by metis
  then show ?thesis using assms(2) by (intro replaced_position [of p _ p' pre q post q'])
next
  case (completes at_time)
  note q = ledger_complete_Inr [OF this]
  then show ?thesis
    using assms(2) extends_times [OF q(1) assms(2)]
    by (fastforce simp: ledger_invariant_def on_money_grid_def extends_def)
qed

lemma simulated_invariant: "simulated p \<Longrightarrow> ledger_invariant p"
  by (induction rule: simulated.induct) (auto intro: ledger_create_invariant ledger_step_invariant)

section \<open>When a transition succeeds\<close>

text \<open>The amount an exact value is rounded to, where it fits.\<close>

definition to_money :: "rat \<Rightarrow> rat" where
  "to_money x = of_int (round_half_even (x * 10 ^ 8)) / 10 ^ 8"

lemma to_money_grid [simp]: "on_grid 8 (to_money x)"
  unfolding to_money_def by (rule on_grid_frac)

lemma quantize_to_money:
  assumes "\<bar>x\<bar> \<le> 10 ^ 19"
  shows "quantize_money x = Inr (to_money x)" "\<bar>to_money x\<bar> \<le> \<bar>x\<bar> + 1" "0 \<le> x \<Longrightarrow> 0 \<le> to_money x"
proof -
  obtain y where y: "quantize_money x = Inr y" "\<bar>y - x\<bar> \<le> 1" "0 \<le> x \<Longrightarrow> 0 \<le> y"
    using quantize_money_runs [OF assms] by metis
  have "y = to_money x"
    using y(1) half_even.quantize_result(3) [of 8 x y] by (simp add: quantize_money_def to_money_def)
  with y show "quantize_money x = Inr (to_money x)" "\<bar>to_money x\<bar> \<le> \<bar>x\<bar> + 1" "0 \<le> x \<Longrightarrow> 0 \<le> to_money x"
    by auto
qed

lemma to_money_fixed: "on_grid 8 x \<Longrightarrow> to_money x = x"
  by (auto simp: on_grid_iff to_money_def round_half_even_of_int)

lemma money_add:
  assumes "on_grid 8 x" "on_grid 8 y" "\<bar>x + y\<bar> \<le> 10 ^ 19"
  shows "dadd x y = x + y" "quantize_money (dadd x y) = Inr (x + y)"
proof -
  have g: "on_grid 8 (x + y)" using assms by auto
  have "(10 :: rat) ^ 19 \<le> 10 ^ 20" by simp
  with assms(3) have "\<bar>x + y\<bar> \<le> 10 ^ 20" by linarith
  with g show "dadd x y = x + y" by (simp add: dadd_def dround_money)
  then show "quantize_money (dadd x y) = Inr (x + y)" using quantize_money_fixed [OF g assms(3)] by simp
qed

lemma money_sub:
  assumes "on_grid 8 x" "on_grid 8 y" "\<bar>x - y\<bar> \<le> 10 ^ 19"
  shows "dsub x y = x - y" "quantize_money (dsub x y) = Inr (x - y)"
  using money_add [of x "- y"] on_grid_minus [of 8 y] assms by (simp_all add: dadd_def dsub_def)

text \<open>A snapshot that extends an accepted one consistently is accepted.\<close>

lemma enumerate_from_snoc:
  "enumerate_from n (xs @ [x]) = enumerate_from n xs @ [(n + int (length xs), x)]"
  by (simp add: enumerate_from_append)

lemma extension_accepted:
  assumes inv: "valid_portfolio p" and ext: "extends p k p'"
    and ev: "PortfolioTimelineEvent e = Inr e" "pf_timeline p' = pf_timeline p @ [e]"
      "te_portfolio_id e = pf_id p" "te_sequence e = int (length (pf_timeline p)) + 1"
    and status: "pf_status p' = COMPLETED \<longleftrightarrow> k = PortfolioCompleted"
      "pf_status p' = COMPLETED \<Longrightarrow> open_ones (pf_positions p') = []"
    and ps: "\<forall>q \<in> set (pf_positions p'). SimulatedPosition q = Inr q \<and> sp_portfolio_id q = pf_id p"
      "distinct (map sp_id (pf_positions p'))" "length (open_ones (pf_positions p')) \<le> 1"
    and amounts: "amounts_agree p'" "0 \<le> pf_fees_paid p'"
  shows "SimulatedPortfolio p' = (if 0 \<le> pf_cash p' then Inr p' else Inl (FieldErrors [''cash'']))"
proof -
  note v = inv [unfolded valid_portfolio_iff]
  have e: "te_kind e = k" "te_occurred_at e = pf_updated_at p'" "te_equity e = pf_equity p'"
    and same: "pf_id p' = pf_id p" "pf_dataset_id p' = pf_dataset_id p" "pf_created_at p' = pf_created_at p"
      "pf_starting_cash p' = pf_starting_cash p" "pf_fee_rate p' = pf_fee_rate p"
      "pf_updated_at p < pf_updated_at p'"
    using ext ev(2) v by (auto simp: extends_def)
  have built: "well_built p'"
    using v e same ev status ps
    by (auto simp: well_built_def enumerate_from_snoc hd_append)
  have "mapR (\<lambda>q. nested (SimulatedPosition q)) (pf_positions p') = Inr (map (\<lambda>_. True) (pf_positions p'))"
    using ps(1) by (intro mapR_total) simp
  moreover have "mapR (\<lambda>e. nested (PortfolioTimelineEvent e)) (pf_timeline p') = Inr (map (\<lambda>_. True) (pf_timeline p'))"
    using v ev by (intro mapR_total) auto
  moreover have "list_all id (map (\<lambda>_. True) (pf_positions p'))" "list_all id (map (\<lambda>_. True) (pf_timeline p'))"
    by (simp_all add: list_all_iff)
  moreover have "check_fields (portfolio_fields p' True True) () =
      (if 0 \<le> pf_cash p' then Inr () else Inl (FieldErrors [''cash'']))"
    unfolding portfolio_fields_def same using valid_portfolio_facts [OF inv] amounts(2)
    by (simp add: check_fields_def)
  moreover have "p'\<lparr>pf_dataset_id := strip (pf_dataset_id p')\<rparr> = p'" using v same by simp
  moreover have "validate_accounting p' = Inr p'" using built amounts(1) by (simp add: validate_accounting_Inr)
  ultimately show ?thesis by (simp add: SimulatedPortfolio_def)
qed

end
