(* ===== verification/Portfolio_Ledger.thy ===== *)
theory Portfolio_Ledger imports Portfolio
begin

text \<open>
  What the transitions of the simulated portfolio do: when each of them succeeds and which amounts
  it leaves, in exact arithmetic. The bounds keep every amount within the 28 digits of a decimal;
  they are stated on the turnover of the portfolio (its starting cash and every amount its
  positions ever held) and on the value of the position at the prices involved.
\<close>

section \<open>The books around one open position\<close>

lemma find_open_split:
  assumes "distinct (map sp_id (pre @ q # post))" "sp_status q = PositionOpen"
  shows "find_open (sp_id q) k (pre @ q # post) = Inr (k + length pre, q)"
  using assms by (induction pre arbitrary: k) auto

lemma only_open:
  assumes "valid_portfolio p" "pf_positions p = pre @ q # post" "sp_status q = PositionOpen"
  shows "open_ones pre = []" "open_ones post = []" "pf_status p = ACTIVE"
proof -
  have "length (open_ones (pf_positions p)) \<le> 1" using valid_portfolio_facts(8) [OF assms(1)] .
  then have "length (open_ones pre) + length (open_ones post) = 0"
    unfolding assms(2) using assms(3) by (simp add: open_ones_def)
  then show "open_ones pre = []" "open_ones post = []" by simp_all
  have "open_ones (pf_positions p) \<noteq> []" unfolding assms(2) using assms(3) by (simp add: open_ones_def)
  then show "pf_status p = ACTIVE" using valid_portfolio_facts [OF assms(1)] by (cases "pf_status p") auto
qed

text \<open>The books before a transition, with the amounts of the open position singled out.\<close>

lemma book_with_open:
  assumes inv: "ledger_invariant p" and fits: "turnover p \<le> 10 ^ 17"
    and ps: "pf_positions p = pre @ q # post" and opened: "sp_status q = PositionOpen"
  shows "pf_cash p = pf_starting_cash p + pf_realized p - (sp_reserved q + sp_entry_fee q)"
    "pf_equity p = pf_cash p + (sp_reserved q + sp_unrealized q)" "pf_unrealized p = sp_unrealized q"
    "pf_realized p = sum_list (map sp_realized (closed_ones pre @ closed_ones post))"
    "pf_fees_paid p = (\<Sum>x\<leftarrow>pre @ post. sp_entry_fee x + sp_exit_fee x) + (sp_entry_fee q + sp_exit_fee q)"
proof -
  have "(10 :: rat) ^ 17 \<le> 10 ^ 18" by simp
  with fits have "turnover p \<le> 10 ^ 18" by linarith
  then have "exact_book p"
    using inv amounts_agree_exact [of p] by (simp add: ledger_invariant_def valid_portfolio_iff)
  moreover have "valid_portfolio p" using inv by (simp add: ledger_invariant_def)
  note only_open [OF this ps opened]
  ultimately show "pf_cash p = pf_starting_cash p + pf_realized p - (sp_reserved q + sp_entry_fee q)"
    "pf_equity p = pf_cash p + (sp_reserved q + sp_unrealized q)" "pf_unrealized p = sp_unrealized q"
    "pf_realized p = sum_list (map sp_realized (closed_ones pre @ closed_ones post))"
    "pf_fees_paid p = (\<Sum>x\<leftarrow>pre @ post. sp_entry_fee x + sp_exit_fee x) + (sp_entry_fee q + sp_exit_fee q)"
    using opened by (auto simp: exact_book_def Let_def ps open_ones_def closed_ones_def)
qed

lemma turnover_split:
  "pf_positions p = pre @ q # post \<Longrightarrow>
     turnover p = \<bar>pf_starting_cash p\<bar> + sum_list (map position_turnover (pre @ post)) + position_turnover q"
  by (simp add: turnover_def)

lemma turnover_parts:
  assumes "pf_positions p = pre @ q # post"
  shows "\<bar>pf_starting_cash p\<bar> \<le> turnover p" "\<bar>sp_reserved q\<bar> \<le> turnover p" "\<bar>sp_entry_fee q\<bar> \<le> turnover p"
    "\<bar>sum_list (map sp_realized (closed_ones pre @ closed_ones post))\<bar> \<le> turnover p"
    "\<bar>\<Sum>x\<leftarrow>pre @ post. sp_entry_fee x + sp_exit_fee x\<bar> + \<bar>sp_entry_fee q\<bar> \<le> turnover p"
proof -
  let ?T = "sum_list (map position_turnover (pre @ post))"
  have T: "0 \<le> ?T" by (rule sum_list_nonneg) auto
  have t: "turnover p = \<bar>pf_starting_cash p\<bar> + ?T + position_turnover q" using assms by (rule turnover_split)
  have q: "\<bar>sp_reserved q\<bar> + \<bar>sp_entry_fee q\<bar> \<le> position_turnover q" by (simp add: position_turnover_def)
  show "\<bar>pf_starting_cash p\<bar> \<le> turnover p" "\<bar>sp_reserved q\<bar> \<le> turnover p" "\<bar>sp_entry_fee q\<bar> \<le> turnover p"
    using T q unfolding t by linarith+
  have "\<bar>sum_list (map sp_realized (filter P xs))\<bar> \<le> sum_list (map position_turnover xs)" for P xs
    using sum_abs_filter [OF abs_add_turnover(2), of P xs] abs_sum_list_le [of "map sp_realized (filter P xs)"]
    by (simp add: comp_def)
  from this [of "\<lambda>q. sp_status q = PositionClosed" "pre @ post"]
  have "\<bar>sum_list (map sp_realized (closed_ones pre @ closed_ones post))\<bar> \<le> ?T"
    by (simp add: closed_ones_def)
  then show "\<bar>sum_list (map sp_realized (closed_ones pre @ closed_ones post))\<bar> \<le> turnover p"
    using position_turnover_nonneg [of q] unfolding t by linarith
  have "\<bar>\<Sum>x\<leftarrow>pre @ post. sp_entry_fee x + sp_exit_fee x\<bar> \<le> ?T"
    using sum_abs_filter [OF abs_add_turnover(1), of "\<lambda>_. True" "pre @ post"]
      abs_sum_list_le [of "map (\<lambda>x. sp_entry_fee x + sp_exit_fee x) (pre @ post)"]
    by (simp add: comp_def)
  then show "\<bar>\<Sum>x\<leftarrow>pre @ post. sp_entry_fee x + sp_exit_fee x\<bar> + \<bar>sp_entry_fee q\<bar> \<le> turnover p"
    using q unfolding t by linarith
qed

section \<open>Marks and results\<close>

text \<open>The result of a position at a price, rounded to money.\<close>

definition result_at :: "simulated_position \<Rightarrow> rat \<Rightarrow> rat" where
  "result_at q price =
     to_money (dmul (if sp_side q = SideLong then dsub price (sp_entry_price q)
                     else dsub (sp_entry_price q) price) (sp_quantity q))"

lemma dmul_le: "\<bar>a\<bar> * \<bar>b\<bar> \<le> v \<Longrightarrow> \<bar>dmul a b\<bar> \<le> v * (1001 / 1000)"
  using dround_abs_le [of "a * b"] by (simp add: dmul_def abs_mult)

lemma raw_result_le:
  assumes "0 < a" "0 < b" "0 < n" "a * n \<le> v" "b * n \<le> v"
  shows "\<bar>dmul (dsub a b) n\<bar> \<le> v * (1001 / 1000) * (1001 / 1000)"
proof (rule dmul_le)
  have "\<bar>dsub a b\<bar> \<le> \<bar>a - b\<bar> * (1001 / 1000)" using dround_abs_le by (simp add: dsub_def)
  also have "\<dots> \<le> max a b * (1001 / 1000)" using assms by (intro mult_right_mono) auto
  finally have "\<bar>dsub a b\<bar> * n \<le> max a b * (1001 / 1000) * n" using assms(3) by (intro mult_right_mono) auto
  also have "\<dots> = max (a * n) (b * n) * (1001 / 1000)" using assms(3) by (simp add: max_mult_distrib_right)
  also have "\<dots> \<le> v * (1001 / 1000)" using assms(4,5) by (intro mult_right_mono) auto
  finally show "\<bar>dsub a b\<bar> * \<bar>n\<bar> \<le> v * (1001 / 1000)" using assms(3) by simp
qed

lemma gross_pnl_result:
  assumes pos: "0 < price" "0 < sp_entry_price q" "0 < sp_quantity q"
    and v: "price * sp_quantity q \<le> 10 ^ 17" "sp_entry_price q * sp_quantity q \<le> 10 ^ 17"
  shows "gross_pnl q price = Inr (result_at q price)" "\<bar>result_at q price\<bar> \<le> 2 * 10 ^ 17" "on_grid 8 (result_at q price)"
proof -
  let ?raw = "dmul (if sp_side q = SideLong then dsub price (sp_entry_price q)
                     else dsub (sp_entry_price q) price) (sp_quantity q)"
  have "\<bar>?raw\<bar> \<le> 10 ^ 17 * (1001 / 1000) * (1001 / 1000)" 
    using raw_result_le [of price "sp_entry_price q" "sp_quantity q" "10 ^ 17"]
      raw_result_le [of "sp_entry_price q" price "sp_quantity q" "10 ^ 17"] pos v by simp
  moreover have "10 ^ 17 * (1001 / 1000) * (1001 / 1000) + 1 \<le> 2 * (10 :: rat) ^ 17" "2 * (10 :: rat) ^ 17 \<le> 10 ^ 19"
    by simp_all
  ultimately have "\<bar>?raw\<bar> + 1 \<le> 2 * 10 ^ 17" "\<bar>?raw\<bar> \<le> 10 ^ 19" by linarith+
  then show "gross_pnl q price = Inr (result_at q price)" "\<bar>result_at q price\<bar> \<le> 2 * 10 ^ 17" "on_grid 8 (result_at q price)"
    using quantize_to_money [of ?raw] by (auto simp: gross_pnl_def result_at_def)
qed

section \<open>Marking\<close>

lemma position_event_runs:
  assumes "has_id_form ''portfolio-'' 16 (pf_id p)" "has_id_form ''position-'' 16 (sp_id q)"
    "0 < price" "0 < sp_quantity q" "k \<in> {PositionOpenedEvent, PositionMarkedEvent, PositionClosedEvent}"
    "(k = PositionClosedEvent) = (realized \<noteq> None)"
  obtains e where "position_event p k ts equity q price realized = Inr e" "PortfolioTimelineEvent e = Inr e"
    "te_portfolio_id e = pf_id p" "te_sequence e = int (length (pf_timeline p)) + 1" "te_kind e = k"
    "te_occurred_at e = ts" "te_equity e = equity"
  using assms
  by (intro that [OF _ _ _ _ _ _ _, rotated 2])
    (auto simp: position_event_def portfolio_event_def PortfolioTimelineEvent_Inr timeline_event_fields_def
      opt_positive_def)

lemma open_position_facts:
  assumes inv: "ledger_invariant p" and q: "q \<in> set (pf_positions p)"
  shows "0 < sp_quantity q" "0 < sp_entry_price q" "0 < sp_reserved q" "0 \<le> sp_entry_fee q"
    "has_id_form ''position-'' 16 (sp_id q)" "sp_opened_at q \<le> pf_updated_at p" "position_on_grid q"
    "sp_portfolio_id q = pf_id p" "distinct (map sp_id (pf_positions p))" "SimulatedPosition q = Inr q"
    "sp_status q = PositionOpen \<Longrightarrow> sp_exit_fee q = 0 \<and> sp_realized q = 0 \<and> sp_gross q = 0
       \<and> sp_exit_price q = None \<and> sp_closed_at q = None"
proof -
  have v: "valid_portfolio p" using inv by (simp add: ledger_invariant_def)
  show s: "SimulatedPosition q = Inr q" using valid_portfolio_facts [OF v] q by blast
  show "0 < sp_quantity q" "0 < sp_entry_price q" "0 < sp_reserved q" "0 \<le> sp_entry_fee q"
    "has_id_form ''position-'' 16 (sp_id q)"
    "sp_status q = PositionOpen \<Longrightarrow> sp_exit_fee q = 0 \<and> sp_realized q = 0 \<and> sp_gross q = 0
       \<and> sp_exit_price q = None \<and> sp_closed_at q = None"
    using s by (auto simp: SimulatedPosition_Inr position_fields_def)
  show "sp_opened_at q \<le> pf_updated_at p" "position_on_grid q"
    using inv q by (auto simp: ledger_invariant_def on_money_grid_def list_all_iff)
  show "sp_portfolio_id q = pf_id p" "distinct (map sp_id (pf_positions p))"
    using v q by (auto simp: valid_portfolio_iff well_built_def)
qed

lemma mark_runs:
  assumes inv: "ledger_invariant p" and fits: "turnover p \<le> 10 ^ 17"
    and q: "q \<in> set (pf_positions p)" "sp_status q = PositionOpen"
    and price: "0 < price" "price * sp_quantity q \<le> 10 ^ 17" "sp_entry_price q * sp_quantity q \<le> 10 ^ 17"
    and later: "pf_updated_at p < t"
  shows "\<exists>p'. ledger_mark (sp_id q) price (Aware t) p = Inr p' \<and> extends p PositionMarkedEvent p'
    \<and> pf_cash p' = pf_cash p \<and> pf_realized p' = pf_realized p \<and> pf_fees_paid p' = pf_fees_paid p
    \<and> pf_unrealized p' = result_at q price
    \<and> pf_equity p' = pf_cash p + sp_reserved q + result_at q price"
proof -
  obtain pre post where ps: "pf_positions p = pre @ q # post" using q(1) by (meson split_list)
  have v: "valid_portfolio p" using inv by (simp add: ledger_invariant_def)
  note facts = open_position_facts [OF inv q(1)] and book = book_with_open [OF inv fits ps q(2)]
    and opens = only_open [OF v ps q(2)] and parts = turnover_parts [OF ps]
  define u where "u = result_at q price"
  have u: "gross_pnl q price = Inr u" "\<bar>u\<bar> \<le> 2 * 10 ^ 17" "on_grid 8 u"
    using gross_pnl_result [OF price(1) facts(2,1) price(2,3)] by (simp_all add: u_def)
  define m where "m = marked_position q price t u"
  define q8 :: rat where "q8 = 10 ^ 17"
  have pw: "10 * q8 = 10 ^ 18" "100 * q8 = 10 ^ 19" "0 < q8" by (simp_all add: q8_def)
  have grids: "on_grid 8 (sp_reserved q)" "on_grid 8 (pf_cash p)"
    using facts(7) quantize_money_grid v
    by (auto simp: position_on_grid_def valid_portfolio_iff amounts_agree_def Let_def)
  have small: "\<bar>pf_cash p\<bar> \<le> 4 * q8" "\<bar>sp_reserved q\<bar> \<le> q8" "\<bar>u\<bar> \<le> 2 * q8"
    using parts fits u(2) unfolding book(1) book(4) q8_def by linarith+
  have eq: "quantize_money (dadd (dadd (pf_cash p) (sp_reserved q)) u) = Inr (pf_cash p + sp_reserved q + u)"
  proof -
    have "dadd (pf_cash p) (sp_reserved q) = pf_cash p + sp_reserved q"
      using grids small pw by (intro money_add(1)) linarith+
    then show ?thesis using grids u(3) small pw by (simp only:) (intro money_add(2); auto)
  qed
  obtain e where e: "position_event p PositionMarkedEvent t (pf_cash p + sp_reserved q + u) m price None = Inr e"
    "PortfolioTimelineEvent e = Inr e"
    "te_portfolio_id e = pf_id p" "te_sequence e = int (length (pf_timeline p)) + 1" "te_kind e = PositionMarkedEvent"
    "te_occurred_at e = t" "te_equity e = pf_cash p + sp_reserved q + u"
    using position_event_runs [of p m price PositionMarkedEvent None t "pf_cash p + sp_reserved q + u"]
      valid_portfolio_facts [OF v] facts price(1) by (auto simp: m_def)
  define p' where "p' = p\<lparr>pf_updated_at := t, pf_equity := pf_cash p + sp_reserved q + u, pf_unrealized := u,
       pf_positions := pre @ m # post, pf_timeline := pf_timeline p @ [e]\<rparr>"
  have ext: "extends p PositionMarkedEvent p'"
    using opens later e valid_portfolio_facts(9) [OF v] by (auto simp: extends_def p'_def)
  have sm: "SimulatedPosition m = Inr m"
    using facts(10,6,11) q(2) u(1) price(1) later
    by (simp add: SimulatedPosition_Inr position_fields_def m_def marked_position_def)
  have mg: "on_money_grid p'" 
    using inv u(3) facts(7) by (auto simp: ledger_invariant_def on_money_grid_def p'_def ps m_def
      position_on_grid_def marked_position_def)
  have "turnover p' \<le> turnover p + \<bar>u\<bar>"
    using abs_ge_zero [of "sp_unrealized q"]
    by (simp add: turnover_def p'_def ps position_turnover_def m_def marked_position_def)
  then have "turnover p' \<le> 10 ^ 18" using fits small pw unfolding q8_def by linarith
  moreover have "exact_book p'"
    using book opens q(2) facts(11) by (simp add: exact_book_def Let_def p'_def open_ones_def closed_ones_def m_def)
  ultimately have agree: "amounts_agree p'" using amounts_agree_exact [OF mg] by simp
  have "SimulatedPortfolio p' = (if 0 \<le> pf_cash p' then Inr p' else Inl (FieldErrors [''cash'']))"
  proof (rule extension_accepted [OF v ext e(2)])
    show "\<forall>q \<in> set (pf_positions p'). SimulatedPosition q = Inr q \<and> sp_portfolio_id q = pf_id p"
      using sm open_position_facts [OF inv] ps by (auto simp: p'_def m_def)
    show "distinct (map sp_id (pf_positions p'))" using facts(9) by (simp add: p'_def m_def ps)
    show "length (open_ones (pf_positions p')) \<le> 1" using opens q(2) by (simp add: p'_def m_def open_ones_def)
  qed (use e agree opens valid_portfolio_facts [OF v] in \<open>simp_all add: p'_def\<close>)
  then have "SimulatedPortfolio p' = Inr p'" using valid_portfolio_facts(2) [OF v] by (simp add: p'_def)
  then have "ledger_mark (sp_id q) price (Aware t) p = Inr p'"
    using opens later price(1) u(1) eq e(1) find_open_split [of pre q post 0] facts(9) q(2)
    by (simp add: ledger_mark_def ps [symmetric] require_active_def next_timestamp_def raising.simps Let_def
        m_def [symmetric])
      (simp add: p'_def m_def ps)
  then show ?thesis using ext by (auto simp: p'_def u_def [symmetric])
qed


section \<open>Closing\<close>

text \<open>The fee of closing a position at a price.\<close>

definition exit_fee_at :: "portfolio \<Rightarrow> simulated_position \<Rightarrow> rat \<Rightarrow> rat" where
  "exit_fee_at p q price = to_money (dmul (dmul price (sp_quantity q)) (pf_fee_rate p))"

lemma exit_fee_facts:
  assumes "0 < price" "0 < sp_quantity q" "0 \<le> pf_fee_rate p" "pf_fee_rate p < 1" "price * sp_quantity q \<le> 10 ^ 17"
  shows "quantize_money (dmul (dmul price (sp_quantity q)) (pf_fee_rate p)) = Inr (exit_fee_at p q price)"
    "0 \<le> exit_fee_at p q price" "exit_fee_at p q price \<le> 2 * 10 ^ 17" "on_grid 8 (exit_fee_at p q price)"
proof -
  have v: "\<bar>dmul price (sp_quantity q)\<bar> \<le> 10 ^ 17 * (1001 / 1000)" using assms by (intro dmul_le) simp
  have "\<bar>dmul price (sp_quantity q)\<bar> * \<bar>pf_fee_rate p\<bar> \<le> 10 ^ 17 * (1001 / 1000) * 1"
    using v assms by (intro mult_mono) auto
  then have le: "\<bar>dmul (dmul price (sp_quantity q)) (pf_fee_rate p)\<bar> \<le> 10 ^ 17 * (1001 / 1000) * (1001 / 1000)"
    by (intro dmul_le) simp
  have nonneg: "0 \<le> dmul (dmul price (sp_quantity q)) (pf_fee_rate p)"
    using assms dc.rnd_nonneg by (simp add: dmul_def)
  have "10 ^ 17 * (1001 / 1000) * (1001 / 1000) + 1 \<le> 2 * (10 :: rat) ^ 17" "2 * (10 :: rat) ^ 17 \<le> 10 ^ 19"
    by simp_all
  with le have b: "\<bar>dmul (dmul price (sp_quantity q)) (pf_fee_rate p)\<bar> + 1 \<le> 2 * 10 ^ 17"
    "\<bar>dmul (dmul price (sp_quantity q)) (pf_fee_rate p)\<bar> \<le> 10 ^ 19" by linarith+
  note m = quantize_to_money [OF b(2)]
  show "quantize_money (dmul (dmul price (sp_quantity q)) (pf_fee_rate p)) = Inr (exit_fee_at p q price)"
    "on_grid 8 (exit_fee_at p q price)"
    using m(1) by (simp_all add: exit_fee_at_def)
  show "0 \<le> exit_fee_at p q price" using m(3) [OF nonneg] by (simp add: exit_fee_at_def)
  then show "exit_fee_at p q price \<le> 2 * 10 ^ 17" using m(2) b(1) unfolding exit_fee_at_def by linarith
qed

lemma close_amounts:
  assumes inv: "ledger_invariant p" and fits: "turnover p \<le> 10 ^ 17"
    and ps: "pf_positions p = pre @ q # post" and opened: "sp_status q = PositionOpen"
    and g: "\<bar>g\<bar> \<le> 2 * 10 ^ 17" "on_grid 8 g" and f: "0 \<le> f" "f \<le> 2 * 10 ^ 17" "on_grid 8 f"
    and proceeds: "proceeds = pf_cash p + sp_reserved q + g - f" and r_def: "r = g - sp_entry_fee q - f"
  shows "quantize_money (dsub (dadd (dadd (pf_cash p) (sp_reserved q)) g) f) = Inr proceeds"
    "quantize_money (dsub (dsub g (sp_entry_fee q)) f) = Inr r"
    "quantize_money (dadd (pf_realized p) r) = Inr (pf_realized p + r)"
    "quantize_money (dadd (pf_fees_paid p) f) = Inr (pf_fees_paid p + f)"
    "\<bar>r\<bar> \<le> 5 * 10 ^ 17" "on_grid 8 r"
proof -
  have q: "q \<in> set (pf_positions p)" by (simp add: ps)
  have v: "valid_portfolio p" using inv by (simp add: ledger_invariant_def)
  note facts = open_position_facts [OF inv q] and book = book_with_open [OF inv fits ps opened]
    and parts = turnover_parts [OF ps]
  define q8 :: rat where "q8 = 10 ^ 17"
  have pw: "10 * q8 = 10 ^ 18" "100 * q8 = 10 ^ 19" "0 < q8" by (simp_all add: q8_def)
  have grids: "on_grid 8 (sp_reserved q)" "on_grid 8 (sp_entry_fee q)" "on_grid 8 (pf_cash p)" "on_grid 8 (pf_realized p)"
    "on_grid 8 (pf_fees_paid p)"
    using facts(7) quantize_money_grid v
    by (auto simp: position_on_grid_def valid_portfolio_iff amounts_agree_def Let_def)
  have small: "\<bar>pf_cash p\<bar> \<le> 4 * q8" "\<bar>sp_reserved q\<bar> \<le> q8" "\<bar>sp_entry_fee q\<bar> \<le> q8" "\<bar>g\<bar> \<le> 2 * q8" "f \<le> 2 * q8"
    "\<bar>pf_realized p\<bar> \<le> q8"
    using parts fits g(1) f(2) unfolding book(1) book(4) q8_def by linarith+
  have fees: "\<bar>pf_fees_paid p\<bar> \<le> q8"
    using parts(5) fits facts(11) opened unfolding book(5) q8_def by linarith
  have gr: "on_grid 8 (pf_cash p + sp_reserved q)" "on_grid 8 (pf_cash p + sp_reserved q + g)"
    "on_grid 8 (g - sp_entry_fee q)" "on_grid 8 r"
    using grids g(2) f(3) by (auto simp: r_def)
  have "dadd (pf_cash p) (sp_reserved q) = pf_cash p + sp_reserved q"
    using grids small pw by (intro money_add(1)) linarith+
  moreover have "dadd (pf_cash p + sp_reserved q) g = pf_cash p + sp_reserved q + g"
    using gr(1) g(2) small pw by (intro money_add(1)) linarith+
  moreover have "quantize_money (dsub (pf_cash p + sp_reserved q + g) f) = Inr proceeds"
    unfolding proceeds using gr(2) f(1,3) small pw by (intro money_sub(2)) linarith+
  ultimately have cash: "quantize_money (dsub (dadd (dadd (pf_cash p) (sp_reserved q)) g) f) = Inr proceeds"
    by simp
  have "dsub g (sp_entry_fee q) = g - sp_entry_fee q"
    using grids g(2) small pw by (intro money_sub(1)) linarith+
  moreover have "quantize_money (dsub (g - sp_entry_fee q) f) = Inr r"
    unfolding r_def using gr(3) f(1,3) small pw by (intro money_sub(2)) linarith+
  ultimately have realized: "quantize_money (dsub (dsub g (sp_entry_fee q)) f) = Inr r" by simp
  have rb: "\<bar>r\<bar> \<le> 5 * q8" using small f(1) unfolding r_def by linarith
  have cumulative: "quantize_money (dadd (pf_realized p) r) = Inr (pf_realized p + r)"
    using grids gr(4) small rb pw by (intro money_add(2)) linarith+
  have paid: "quantize_money (dadd (pf_fees_paid p) f) = Inr (pf_fees_paid p + f)"
    using grids f(1,3) small fees pw by (intro money_add(2)) linarith+
  show "quantize_money (dsub (dadd (dadd (pf_cash p) (sp_reserved q)) g) f) = Inr proceeds"
    "quantize_money (dsub (dsub g (sp_entry_fee q)) f) = Inr r"
    "quantize_money (dadd (pf_realized p) r) = Inr (pf_realized p + r)"
    "quantize_money (dadd (pf_fees_paid p) f) = Inr (pf_fees_paid p + f)"
    "\<bar>r\<bar> \<le> 5 * 10 ^ 17" "on_grid 8 r"
    using cash realized cumulative paid rb gr(4) by (simp_all add: q8_def)
qed

lemma close_runs:
  assumes inv: "ledger_invariant p" and fits: "turnover p \<le> 10 ^ 17"
    and q: "q \<in> set (pf_positions p)" "sp_status q = PositionOpen"
    and price: "0 < price" "price * sp_quantity q \<le> 10 ^ 17" "sp_entry_price q * sp_quantity q \<le> 10 ^ 17"
    and later: "pf_updated_at p < t"
  defines "g \<equiv> result_at q price" and "f \<equiv> exit_fee_at p q price"
  defines "proceeds \<equiv> pf_cash p + sp_reserved q + g - f"
  shows "proceeds < 0 \<Longrightarrow> ledger_close (sp_id q) price (Aware t) p = Inl (FieldErrors [''cash''])"
    "0 \<le> proceeds \<Longrightarrow> \<exists>p'. ledger_close (sp_id q) price (Aware t) p = Inr p' \<and> extends p PositionClosedEvent p'
       \<and> pf_cash p' = proceeds \<and> pf_equity p' = proceeds \<and> pf_unrealized p' = 0
       \<and> pf_realized p' = pf_realized p + (g - sp_entry_fee q - f) \<and> pf_fees_paid p' = pf_fees_paid p + f
       \<and> open_ones (pf_positions p') = []"
proof -
  obtain pre post where ps: "pf_positions p = pre @ q # post" using q(1) by (meson split_list)
  have v: "valid_portfolio p" using inv by (simp add: ledger_invariant_def)
  note facts = open_position_facts [OF inv q(1)] and book = book_with_open [OF inv fits ps q(2)]
    and opens = only_open [OF v ps q(2)] and parts = turnover_parts [OF ps]
  have g: "gross_pnl q price = Inr g" "\<bar>g\<bar> \<le> 2 * 10 ^ 17" "on_grid 8 g"
    using gross_pnl_result [OF price(1) facts(2,1) price(2,3)] by (simp_all add: g_def)
  have f: "quantize_money (dmul (dmul price (sp_quantity q)) (pf_fee_rate p)) = Inr f" "0 \<le> f" "f \<le> 2 * 10 ^ 17"
    "on_grid 8 f"
    using exit_fee_facts [OF price(1) facts(1) valid_portfolio_facts(4,5) [OF v] price(2)] by (simp_all add: f_def)
  define r where "r = g - sp_entry_fee q - f"
  define m where "m = closed_position q price t f g r"
  note amounts = close_amounts [OF inv fits ps q(2) g(2,3) f(2-4) proceeds_def [THEN meta_eq_to_obj_eq] r_def]
  obtain e where e: "position_event p PositionClosedEvent t proceeds m price (Some r) = Inr e"
    "PortfolioTimelineEvent e = Inr e"
    "te_portfolio_id e = pf_id p" "te_sequence e = int (length (pf_timeline p)) + 1" "te_kind e = PositionClosedEvent"
    "te_occurred_at e = t" "te_equity e = proceeds"
    using position_event_runs [of p m price PositionClosedEvent "Some r" t proceeds]
      valid_portfolio_facts [OF v] facts price(1) by (auto simp: m_def)
  define p' where "p' = p\<lparr>pf_updated_at := t, pf_cash := proceeds, pf_equity := proceeds,
       pf_fees_paid := pf_fees_paid p + f, pf_realized := pf_realized p + r, pf_unrealized := 0,
       pf_positions := pre @ m # post, pf_timeline := pf_timeline p @ [e]\<rparr>"
  have ext: "extends p PositionClosedEvent p'"
    using opens later e valid_portfolio_facts(9) [OF v] by (auto simp: extends_def p'_def)
  have mark: "gross_pnl m price = Inr g"
    using g(1) by (simp add: m_def closed_position_def)
  have sm: "SimulatedPosition m = Inr m"
    using facts(10,6) mark amounts(2) price(1) later f(2)
    by (simp add: SimulatedPosition_Inr position_fields_def m_def closed_position_def opt_positive_def)
  have mg: "on_money_grid p'"
    using inv g(3) f(4) amounts(6) facts(7) by (auto simp: ledger_invariant_def on_money_grid_def p'_def ps m_def
      position_on_grid_def closed_position_def)
  have "turnover p' \<le> turnover p + f + \<bar>r\<bar>"
    using abs_ge_zero [of "sp_unrealized q"] abs_ge_zero [of "sp_exit_fee q"] abs_ge_zero [of "sp_realized q"] f(2)
    by (simp add: turnover_def p'_def ps position_turnover_def m_def closed_position_def)
  moreover have "8 * (10 :: rat) ^ 17 \<le> 10 ^ 18" by simp
  ultimately have "turnover p' \<le> 10 ^ 18" using fits f(3) amounts(5) by linarith
  moreover have "exact_book p'"
    using book opens q(2) facts(11)
    by (simp add: exact_book_def Let_def p'_def open_ones_def closed_ones_def m_def proceeds_def r_def)
  ultimately have agree: "amounts_agree p'" using amounts_agree_exact [OF mg] by simp
  have "SimulatedPortfolio p' = (if 0 \<le> pf_cash p' then Inr p' else Inl (FieldErrors [''cash'']))"
  proof (rule extension_accepted [OF v ext e(2)])
    show "\<forall>q \<in> set (pf_positions p'). SimulatedPosition q = Inr q \<and> sp_portfolio_id q = pf_id p"
      using sm open_position_facts [OF inv] ps by (auto simp: p'_def m_def)
    show "distinct (map sp_id (pf_positions p'))" using facts(9) by (simp add: p'_def m_def ps)
    show "length (open_ones (pf_positions p')) \<le> 1" using opens by (simp add: p'_def m_def open_ones_def)
  qed (use e agree opens f(2) valid_portfolio_facts [OF v] in \<open>simp_all add: p'_def\<close>)
  moreover have "ledger_close (sp_id q) price (Aware t) p = SimulatedPortfolio p'"
    using opens later price(1) g(1) f(1) amounts(1-4) e(1)
      find_open_split [of pre q post 0] facts(9) q(2)
    by (simp add: ledger_close_def ps [symmetric] require_active_def next_timestamp_def raising.simps Let_def
        m_def [symmetric])
      (simp add: p'_def m_def ps)
  moreover have "open_ones (pf_positions p') = []" using opens by (simp add: p'_def m_def open_ones_def)
  ultimately show
    "proceeds < 0 \<Longrightarrow> ledger_close (sp_id q) price (Aware t) p = Inl (FieldErrors [''cash''])"
    "0 \<le> proceeds \<Longrightarrow> \<exists>p'. ledger_close (sp_id q) price (Aware t) p = Inr p' \<and> extends p PositionClosedEvent p'
       \<and> pf_cash p' = proceeds \<and> pf_equity p' = proceeds \<and> pf_unrealized p' = 0
       \<and> pf_realized p' = pf_realized p + (g - sp_entry_fee q - f) \<and> pf_fees_paid p' = pf_fees_paid p + f
       \<and> open_ones (pf_positions p') = []"
    using ext by (auto simp: p'_def r_def)
qed

section \<open>Opening\<close>

text \<open>What opening a position reserves and costs.\<close>

definition notional_of :: "rat \<Rightarrow> rat \<Rightarrow> rat" where
  "notional_of price qty = to_money (dmul price qty)"

definition entry_fee_of :: "portfolio \<Rightarrow> rat \<Rightarrow> rat \<Rightarrow> rat" where
  "entry_fee_of p price qty = to_money (dmul (notional_of price qty) (pf_fee_rate p))"

lemma open_amounts:
  assumes "0 < price" "0 < qty" "0 \<le> pf_fee_rate p" "pf_fee_rate p < 1" "price * qty \<le> 10 ^ 17"
  defines "n \<equiv> notional_of price qty" and "f \<equiv> entry_fee_of p price qty"
  shows "quantize_money (dmul price qty) = Inr n" "quantize_money (dmul n (pf_fee_rate p)) = Inr f"
    "quantize_money (dadd n f) = Inr (n + f)" "0 \<le> n" "0 \<le> f" "n \<le> 2 * 10 ^ 17" "f \<le> 3 * 10 ^ 17"
    "on_grid 8 n" "on_grid 8 f"
proof -
  define q8 :: rat where "q8 = 10 ^ 17"
  have pw: "100 * q8 = 10 ^ 19" "100 \<le> q8" by (simp_all add: q8_def)
  have "\<bar>dmul price qty\<bar> \<le> q8 * (1001 / 1000)" using assms(1,2,5) unfolding q8_def by (intro dmul_le) simp
  then have v: "\<bar>dmul price qty\<bar> \<le> q8 * (1001 / 1000)" "\<bar>dmul price qty\<bar> \<le> 10 ^ 19" using pw by linarith+
  have "0 \<le> dmul price qty" using assms(1,2) dc.rnd_nonneg by (simp add: dmul_def)
  with quantize_to_money [OF v(2)] have n: "quantize_money (dmul price qty) = Inr n" "0 \<le> n"
    "\<bar>n\<bar> \<le> \<bar>dmul price qty\<bar> + 1"
    unfolding n_def notional_of_def by (simp_all only:)
  then have "n \<le> q8 * (11 / 10)" using v(1) pw by linarith
  note n = n this
  have "\<bar>n\<bar> * \<bar>pf_fee_rate p\<bar> \<le> q8 * (11 / 10) * 1" using n assms(3,4) by (intro mult_mono) auto
  then have "\<bar>dmul n (pf_fee_rate p)\<bar> \<le> q8 * (11 / 10) * 1 * (1001 / 1000)" by (rule dmul_le)
  then have w: "\<bar>dmul n (pf_fee_rate p)\<bar> \<le> q8 * (12 / 10)" "\<bar>dmul n (pf_fee_rate p)\<bar> \<le> 10 ^ 19" using pw by linarith+
  have "0 \<le> dmul n (pf_fee_rate p)" using n assms(3) dc.rnd_nonneg by (simp add: dmul_def)
  with quantize_to_money [OF w(2)] have f: "quantize_money (dmul n (pf_fee_rate p)) = Inr f" "0 \<le> f"
    "\<bar>f\<bar> \<le> \<bar>dmul n (pf_fee_rate p)\<bar> + 1"
    unfolding f_def entry_fee_of_def n_def [symmetric] by (simp_all only:)
  then have "f \<le> q8 * (13 / 10)" using w(1) pw by linarith
  note f = f this
  show grids: "on_grid 8 n" "on_grid 8 f" by (simp_all add: n_def f_def notional_of_def entry_fee_of_def)
  show "quantize_money (dadd n f) = Inr (n + f)"
    using grids n f pw by (intro money_add(2)) linarith+
  show "n \<le> 2 * 10 ^ 17" "f \<le> 3 * 10 ^ 17" using n(4) f(4) pw unfolding q8_def by linarith+
  show "quantize_money (dmul price qty) = Inr n" "quantize_money (dmul n (pf_fee_rate p)) = Inr f" "0 \<le> n" "0 \<le> f"
    using n f by simp_all
qed


lemma book_without_open:
  assumes inv: "ledger_invariant p" and fits: "turnover p \<le> 10 ^ 17" and none: "open_ones (pf_positions p) = []"
  shows "pf_cash p = pf_starting_cash p + pf_realized p" "pf_equity p = pf_cash p" "pf_unrealized p = 0"
    "pf_realized p = sum_list (map sp_realized (closed_ones (pf_positions p)))"
    "pf_fees_paid p = (\<Sum>x\<leftarrow>pf_positions p. sp_entry_fee x + sp_exit_fee x)"
    "\<bar>pf_cash p\<bar> \<le> 2 * 10 ^ 17" "\<bar>pf_fees_paid p\<bar> \<le> 10 ^ 17"
proof -
  let ?T = "sum_list (map position_turnover (pf_positions p))"
  have t: "turnover p = \<bar>pf_starting_cash p\<bar> + ?T" by (simp add: turnover_def)
  have T: "0 \<le> ?T" by (rule sum_list_nonneg) auto
  have "(10 :: rat) ^ 17 \<le> 10 ^ 18" by simp
  with fits have "turnover p \<le> 10 ^ 18" by linarith
  then have "exact_book p"
    using inv amounts_agree_exact [of p] by (simp add: ledger_invariant_def valid_portfolio_iff)
  then show book: "pf_cash p = pf_starting_cash p + pf_realized p" "pf_equity p = pf_cash p" "pf_unrealized p = 0"
    "pf_realized p = sum_list (map sp_realized (closed_ones (pf_positions p)))"
    "pf_fees_paid p = (\<Sum>x\<leftarrow>pf_positions p. sp_entry_fee x + sp_exit_fee x)"
    using none by (simp_all add: exact_book_def Let_def)
  have "\<bar>pf_realized p\<bar> \<le> ?T"
    using sum_abs_filter [OF abs_add_turnover(2), of "\<lambda>q. sp_status q = PositionClosed" "pf_positions p"]
      abs_sum_list_le [of "map sp_realized (closed_ones (pf_positions p))"] unfolding book(4)
    by (simp add: closed_ones_def comp_def)
  then show "\<bar>pf_cash p\<bar> \<le> 2 * 10 ^ 17" using T fits unfolding t book(1) by linarith
  have "\<bar>pf_fees_paid p\<bar> \<le> ?T"
    using sum_abs_filter [OF abs_add_turnover(1), of "\<lambda>_. True" "pf_positions p"]
      abs_sum_list_le [of "map (\<lambda>x. sp_entry_fee x + sp_exit_fee x) (pf_positions p)"] unfolding book(5)
    by (simp add: comp_def)
  then show "\<bar>pf_fees_paid p\<bar> \<le> 10 ^ 17" using fits unfolding t by linarith
qed

lemma open_runs:
  assumes inv: "ledger_invariant p" and fits: "turnover p \<le> 10 ^ 17"
    and active: "pf_status p = ACTIVE" "open_ones (pf_positions p) = []"
    and price: "0 < price" "0 < qty" "price * qty \<le> 10 ^ 17"
    and later: "pf_updated_at p < t"
    and fresh: "build_position_id (pf_id p) (int (length (pf_positions p)) + 1) t \<notin> sp_id ` set (pf_positions p)"
  defines "n \<equiv> notional_of price qty" and "f \<equiv> entry_fee_of p price qty"
  assumes funds: "0 < n" "n + f \<le> pf_cash p"
  shows "\<exists>p'. ledger_open pair side price qty (Aware t) p = Inr p' \<and> extends p PositionOpenedEvent p'
    \<and> pf_positions p' = pf_positions p @ [opened_position p pair side price qty t n f]
    \<and> pf_cash p' = pf_cash p - (n + f) \<and> pf_equity p' = pf_equity p - f
    \<and> pf_fees_paid p' = pf_fees_paid p + f \<and> pf_realized p' = pf_realized p \<and> pf_unrealized p' = 0"
proof -
  have v: "valid_portfolio p" using inv by (simp add: ledger_invariant_def)
  note book = book_without_open [OF inv fits active(2)]
    and amounts = open_amounts [OF price(1,2) valid_portfolio_facts(4,5) [OF v] price(3), folded n_def f_def]
  define q where "q = opened_position p pair side price qty t n f"
  define q8 :: rat where "q8 = 10 ^ 17"
  have pw: "10 * q8 = 10 ^ 18" "100 * q8 = 10 ^ 19" "0 < q8" by (simp_all add: q8_def)
  have small: "pf_cash p \<le> 2 * q8" "n \<le> 2 * q8" "f \<le> 3 * q8" "\<bar>pf_fees_paid p\<bar> \<le> q8" "0 \<le> pf_cash p"
    using book(6,7) amounts(6,7) valid_portfolio_facts(2) [OF v] unfolding q8_def by linarith+
  have grids: "on_grid 8 (pf_cash p)" "on_grid 8 (pf_fees_paid p)"
    using quantize_money_grid v by (auto simp: valid_portfolio_iff amounts_agree_def Let_def)
  have cash: "quantize_money (dsub (pf_cash p) (n + f)) = Inr (pf_cash p - (n + f))"
    using grids amounts small funds pw by (intro money_sub(2)) (auto intro!: on_grid_add)
  have "quantize_money (dadd (pf_cash p - (n + f)) n) = Inr (pf_cash p - (n + f) + n)"
    using grids amounts small funds pw by (intro money_add(2)) (auto intro!: on_grid_add on_grid_diff)
  then have equity: "quantize_money (dadd (pf_cash p - (n + f)) n) = Inr (pf_cash p - f)" by simp
  have paid: "quantize_money (dadd (pf_fees_paid p) f) = Inr (pf_fees_paid p + f)"
    using grids amounts small pw by (intro money_add(2)) linarith+
  have mark: "gross_pnl q price = Inr 0"
    using quantize_money_fixed [of 0] by (simp add: gross_pnl_def q_def opened_position_def dsub_def dmul_def)
  have sq: "SimulatedPosition q = Inr q"
    using mark price funds(1) amounts(5) valid_portfolio_facts [OF v]
    by (simp add: SimulatedPosition_Inr position_fields_def q_def opened_position_def opt_positive_def)
  have id: "has_id_form ''position-'' 16 (sp_id q)" "sp_quantity q = qty"
    by (simp_all add: q_def opened_position_def)
  obtain e where e: "position_event p PositionOpenedEvent t (pf_cash p - f) q price None = Inr e"
    "PortfolioTimelineEvent e = Inr e"
    "te_portfolio_id e = pf_id p" "te_sequence e = int (length (pf_timeline p)) + 1" "te_kind e = PositionOpenedEvent"
    "te_occurred_at e = t" "te_equity e = pf_cash p - f"
    using position_event_runs [of p q price PositionOpenedEvent None t "pf_cash p - f"]
      valid_portfolio_facts(12) [OF v] id price by auto
  define p' where "p' = p\<lparr>pf_updated_at := t, pf_cash := pf_cash p - (n + f), pf_equity := pf_cash p - f,
       pf_fees_paid := pf_fees_paid p + f, pf_positions := pf_positions p @ [q],
       pf_timeline := pf_timeline p @ [e]\<rparr>"
  have ext: "extends p PositionOpenedEvent p'"
    using active later e valid_portfolio_facts(9) [OF v] by (auto simp: extends_def p'_def)
  have mg: "on_money_grid p'"
    using inv amounts(8,9) by (auto simp: ledger_invariant_def on_money_grid_def p'_def q_def
      position_on_grid_def opened_position_def)
  have "turnover p' = turnover p + n + f"
    using amounts(4,5) by (simp add: turnover_def p'_def position_turnover_def q_def opened_position_def)
  then have "turnover p' \<le> 10 ^ 18" using fits small pw unfolding q8_def by linarith
  moreover have "exact_book p'"
    using book active by (simp add: exact_book_def Let_def p'_def open_ones_def closed_ones_def q_def)
  ultimately have agree: "amounts_agree p'" using amounts_agree_exact [OF mg] by simp
  have "SimulatedPortfolio p' = (if 0 \<le> pf_cash p' then Inr p' else Inl (FieldErrors [''cash'']))"
  proof (rule extension_accepted [OF v ext e(2)])
    show "\<forall>q \<in> set (pf_positions p'). SimulatedPosition q = Inr q \<and> sp_portfolio_id q = pf_id p"
      using sq open_position_facts [OF inv] by (auto simp: p'_def) (simp add: q_def)
    have "distinct (map sp_id (pf_positions p))" using v by (simp add: valid_portfolio_iff well_built_def)
    then show "distinct (map sp_id (pf_positions p'))"
      using fresh by (simp add: p'_def q_def) (simp add: opened_position_def)
    show "length (open_ones (pf_positions p')) \<le> 1" using active by (simp add: p'_def open_ones_def)
  qed (use e agree active amounts(5) valid_portfolio_facts [OF v] in \<open>simp_all add: p'_def\<close>)
  then have "SimulatedPortfolio p' = Inr p'" using funds(2) by (simp add: p'_def)
  moreover have "\<not> list_ex (\<lambda>q. sp_status q = PositionOpen) (pf_positions p)"
    using active(2) by (simp add: open_ones_def filter_empty_conv list_ex_iff)
  ultimately have "ledger_open pair side price qty (Aware t) p = Inr p'"
    using active later price amounts(1-3) cash equity paid sq e(1) funds(2)
    by (simp add: ledger_open_def require_active_def next_timestamp_def raising.simps q_def [symmetric])
      (simp add: p'_def)
  then show ?thesis using ext book(2,3) by (auto simp: p'_def q_def)
qed

section \<open>Creating and completing\<close>

lemma create_runs:
  assumes "sized 1 100 (strip ds)" "0 < to_money cash" "\<bar>cash\<bar> \<le> 10 ^ 18" "0 \<le> fee" "fee < 1"
  shows "\<exists>p. ledger_create mode ds cash cash_text fee fee_text (Aware t) = Inr p \<and> pf_status p = ACTIVE
    \<and> pf_positions p = [] \<and> pf_starting_cash p = to_money cash \<and> pf_cash p = to_money cash
    \<and> pf_equity p = to_money cash \<and> pf_fee_rate p = fee \<and> pf_updated_at p = t \<and> pf_dataset_id p = strip ds"
proof -
  define c where "c = to_money cash"
  have pw: "10 * (10 :: rat) ^ 18 = 10 ^ 19" "1 \<le> (10 :: rat) ^ 18" by simp_all
  have b: "\<bar>cash\<bar> \<le> 10 ^ 19" using assms(3) pw by linarith
  have c: "quantize_money cash = Inr c" "\<bar>c\<bar> \<le> 2 * 10 ^ 18" "on_grid 8 c" "0 < c"
    using quantize_to_money [OF b] assms(2,3) pw by (simp_all add: c_def)
  define pid where "pid = build_portfolio_id mode (strip ds) t cash_text fee_text"
  define e where "e = \<lparr>te_id = build_portfolio_event_id pid 1 PortfolioCreated t, te_portfolio_id = pid,
    te_sequence = 1, te_kind = PortfolioCreated, te_occurred_at = t, te_equity = c, te_position_id = None,
    te_price = None, te_quantity = None, te_realized = None\<rparr>"
  define p where "p = \<lparr>pf_id = pid, pf_mode = mode, pf_status = ACTIVE, pf_dataset_id = strip ds,
       pf_created_at = t, pf_updated_at = t, pf_starting_cash = c, pf_cash = c,
       pf_equity = c, pf_fee_rate = fee, pf_fees_paid = 0, pf_realized = 0, pf_unrealized = 0,
       pf_positions = [], pf_timeline = [e]\<rparr>"
  have id: "has_id_form ''portfolio-'' 16 pid" by (simp add: pid_def)
  have ev: "PortfolioTimelineEvent e = Inr e"
    using id by (simp add: PortfolioTimelineEvent_Inr timeline_event_fields_def e_def opt_positive_def)
  have zero: "quantize_money 0 = Inr 0" by (intro quantize_money_fixed) simp_all
  have "quantize_money c = Inr c" using c pw by (intro quantize_money_fixed) linarith+
  moreover have "dadd c 0 = c" "dsub c 0 = c"
    using money_add [of c 0] money_sub [of c 0] c pw by auto
  ultimately have agree: "amounts_agree p"
    using zero by (simp add: amounts_agree_def p_def open_ones_def closed_ones_def dsum_def)
  have "strip ds \<noteq> []" using assms(1) by (auto simp: sized_def)
  then have "valid_portfolio p"
    using assms c(4) id ev agree
    by (simp add: valid_portfolio_iff portfolio_fields_def p_def well_built_def open_ones_def)
      (simp add: e_def)
  then have "ledger_create mode ds cash cash_text fee fee_text (Aware t) = Inr p"
    using c(1) ev
    by (simp add: ledger_create_def pid_def [symmetric] portfolio_event_def e_def [symmetric] valid_portfolio_def p_def)
  then show ?thesis by (auto simp: p_def c_def)
qed

lemma complete_runs:
  assumes inv: "ledger_invariant p" and active: "pf_status p = ACTIVE" "open_ones (pf_positions p) = []"
    and later: "pf_updated_at p < t"
  shows "\<exists>p'. ledger_complete (Aware t) p = Inr p' \<and> extends p PortfolioCompleted p'
    \<and> pf_positions p' = pf_positions p \<and> pf_cash p' = pf_cash p \<and> pf_status p' = COMPLETED"
proof -
  have v: "valid_portfolio p" using inv by (simp add: ledger_invariant_def)
  define e where "e = \<lparr>te_id = build_portfolio_event_id (pf_id p) (int (length (pf_timeline p)) + 1) PortfolioCompleted t,
    te_portfolio_id = pf_id p, te_sequence = int (length (pf_timeline p)) + 1, te_kind = PortfolioCompleted,
    te_occurred_at = t, te_equity = pf_equity p, te_position_id = None,
    te_price = None, te_quantity = None, te_realized = None\<rparr>"
  have ev: "PortfolioTimelineEvent e = Inr e"
    using valid_portfolio_facts(12) [OF v]
    by (simp add: PortfolioTimelineEvent_Inr timeline_event_fields_def e_def opt_positive_def)
  define p' where "p' = p\<lparr>pf_status := COMPLETED, pf_updated_at := t, pf_timeline := pf_timeline p @ [e]\<rparr>"
  have ext: "extends p PortfolioCompleted p'"
    using active later valid_portfolio_facts(9) [OF v] by (auto simp: extends_def p'_def e_def)
  have agree: "amounts_agree p'" using v by (simp add: valid_portfolio_iff p'_def amounts_agree_def)
  have "SimulatedPortfolio p' = (if 0 \<le> pf_cash p' then Inr p' else Inl (FieldErrors [''cash'']))"
  proof (rule extension_accepted [OF v ext ev])
    show "\<forall>q \<in> set (pf_positions p'). SimulatedPosition q = Inr q \<and> sp_portfolio_id q = pf_id p"
      using open_position_facts [OF inv] by (auto simp: p'_def)
    show "distinct (map sp_id (pf_positions p'))"
      using v by (simp add: p'_def valid_portfolio_iff well_built_def)
  qed (use agree active valid_portfolio_facts [OF v] in \<open>simp_all add: p'_def e_def\<close>)
  then have "SimulatedPortfolio p' = Inr p'" using valid_portfolio_facts(2) [OF v] by (simp add: p'_def)
  moreover have "\<not> list_ex (\<lambda>q. sp_status q = PositionOpen) (pf_positions p)"
    using active(2) by (simp add: open_ones_def filter_empty_conv list_ex_iff)
  ultimately have "ledger_complete (Aware t) p = Inr p'"
    using active later ev
    by (simp add: ledger_complete_def require_active_def next_timestamp_def raising.simps portfolio_event_def
        e_def [symmetric]) (simp add: p'_def)
  then show ?thesis using ext by (auto simp: p'_def)
qed

end
