(* ===== verification/Portfolio_Properties.thy ===== *)
theory Portfolio_Properties imports Portfolio_Ledger
begin

text \<open>
  The properties of the simulated portfolio: the invariant of every reachable snapshot, exact books,
  exactly when a position can be opened, what closing and marking do, the append-only history, and the
  loss beyond the cash that leaves a position open for good. The sample portfolio is a short of one unit
  at 90 with a fee rate of one per mille and 100 of starting cash.
\<close>

section \<open>Sample portfolios\<close>

lemma sample_created:
  obtains p where "simulated p" "pf_status p = ACTIVE" "pf_positions p = []" "pf_starting_cash p = 100"
    "pf_cash p = 100" "pf_fee_rate p = 1 / 1000" "pf_updated_at p = 0"
proof -
  have m: "to_money 100 = 100" using to_money_fixed [of 100] on_grid_of_int [of 8 100] by simp
  have "sized 1 100 (strip ''dataset-1'')" by (simp add: strip_def is_space_def sized_def)
  from create_runs [OF this, of 100 "1 / 1000" PAPER "''100''" "''0.001''" 0] m
  show ?thesis by (auto intro: that created)
qed

lemma sample_opened:
  obtains p0 p q where "simulated p0" "pf_cash p0 = 100" "turnover p0 = 100" "entry_fee_of p0 90 1 = 9 / 100"
    "pf_positions p0 = []" "pf_fee_rate p0 = 1 / 1000"
    "ledger_open sample_pair SideShort 90 1 (Aware 1) p0 = Inr p" "simulated p" "pf_status p = ACTIVE" "pf_positions p = [q]" "pf_starting_cash p = 100"
    "pf_cash p = 991 / 100" "pf_fee_rate p = 1 / 1000" "pf_updated_at p = 1" "sp_status q = PositionOpen"
    "sp_side q = SideShort" "sp_entry_price q = 90" "sp_quantity q = 1" "sp_reserved q = 90"
    "turnover p \<le> 10 ^ 17" "open_ones (pf_positions p) \<noteq> []"
proof -
  obtain p where p: "simulated p" "pf_status p = ACTIVE" "pf_positions p = []" "pf_starting_cash p = 100"
    "pf_cash p = 100" "pf_fee_rate p = 1 / 1000" "pf_updated_at p = 0" by (rule sample_created)
  have "on_grid 8 (9 / 100 :: rat)" by (simp add: on_grid_def)
  then have "to_money 90 = 90" "to_money (9 / 100) = 9 / 100"
    using to_money_fixed [of 90] on_grid_of_int [of 8 90] to_money_fixed [of "9 / 100"] by simp_all
  then have n: "notional_of 90 1 = 90" and f: "entry_fee_of p 90 1 = 9 / 100"
    by (simp_all add: notional_of_def entry_fee_of_def p(6) dec_eval)
  obtain p' where p': "ledger_open sample_pair SideShort 90 1 (Aware 1) p = Inr p'" "extends p PositionOpenedEvent p'"
    "pf_positions p' = [opened_position p sample_pair SideShort 90 1 1 90 (9 / 100)]" "pf_cash p' = 991 / 100"
    using open_runs [OF simulated_invariant [OF p(1)], of 90 1 1 sample_pair SideShort] p
    by (auto simp: n f turnover_def open_ones_def)
  have s: "simulated p'" using p(1) p'(1) by (blast intro: stepped opens)
  have st: "pf_status p' = ACTIVE" "pf_updated_at p' = 1"
  proof -
    show "pf_status p' = ACTIVE" using ledger_open_Inr [OF p'(1)] by metis
    show "pf_updated_at p' = 1"
      using p'(1) by (auto simp: ledger_open_def bindR_Inr_iff next_timestamp_Inr dest: returned_snapshot(1))
  qed
  show ?thesis
    by (rule that [OF p(1,5) _ f p(3,6) p'(1) s st(1) p'(3) _ p'(4) _ st(2)])
      (use p' p in \<open>simp_all add: extends_def opened_position_def turnover_def position_turnover_def open_ones_def\<close>)
qed

section \<open>Properties\<close>

text \<open>
  C14: Whatever sequence of transitions built it, a snapshot of the simulated portfolio passes its
  own validation unchanged, its cash is not negative, at most one position is open and none is once
  the portfolio is completed, and the times of its timeline strictly increase up to its update time.
\<close>

theorem portfolio_invariant:
  assumes "simulated p"
  shows "SimulatedPortfolio p = Inr p \<and> 0 \<le> pf_cash p \<and> length (open_ones (pf_positions p)) \<le> 1
    \<and> (pf_status p = COMPLETED \<longrightarrow> open_ones (pf_positions p) = [])
    \<and> sorted_wrt (<) (map te_occurred_at (pf_timeline p))
    \<and> te_occurred_at (last (pf_timeline p)) = pf_updated_at p"
  using simulated_invariant [OF assms] valid_portfolio_facts [of p]
  by (auto simp: ledger_invariant_def valid_portfolio_def)

theorem portfolio_invariant_witness: "\<exists>p. pf_cash p = 991 / 100 \<and> SimulatedPortfolio p = Inr p"
proof -
  obtain p where "simulated p" "pf_cash p = 991 / 100" by (rule sample_opened)
  with portfolio_invariant [of p] show ?thesis by blast
qed

text \<open>
  The accounting identities hold exactly: fees are the sum of the positions' fees, realized
  PnL the sum over the closed positions, and equity is starting cash plus realized and unrealized PnL
  less the entry fees of the open position. The turnover bound keeps every sum within 28 digits.
\<close>

theorem portfolio_books_balance:
  assumes "simulated p" "turnover p \<le> 10 ^ 18"
  shows "pf_fees_paid p = (\<Sum>q\<leftarrow>pf_positions p. sp_entry_fee q + sp_exit_fee q)
    \<and> pf_realized p = (\<Sum>q\<leftarrow>closed_ones (pf_positions p). sp_realized q)
    \<and> pf_equity p = pf_starting_cash p + pf_realized p + pf_unrealized p
        - (\<Sum>q\<leftarrow>open_ones (pf_positions p). sp_entry_fee q)"
proof -
  have "on_money_grid p" "amounts_agree p"
    using simulated_invariant [OF assms(1)] by (auto simp: ledger_invariant_def valid_portfolio_iff)
  with amounts_agree_exact [OF _ assms(2)] have "exact_book p" by blast
  then show ?thesis by (simp add: exact_book_def Let_def sum_list_addf)
qed

theorem portfolio_books_balance_witness:
  "\<exists>(p :: portfolio) q. pf_positions p = [q] \<and> pf_equity p = 100 + pf_realized p + pf_unrealized p
     - (\<Sum>q\<leftarrow>open_ones (pf_positions p). sp_entry_fee q)"
proof -
  obtain p q where p: "simulated p" "pf_positions p = [q]" "pf_starting_cash p = 100" "turnover p \<le> 10 ^ 17"
    by (rule sample_opened)
  have "(10 :: rat) ^ 17 \<le> 10 ^ 18" by simp
  with p(4) have "turnover p \<le> 10 ^ 18" by linarith
  note books = portfolio_books_balance [OF p(1) this, unfolded p(3)]
  show ?thesis by (rule exI [of _ p], rule exI [of _ q]) (use p(2) books in simp)
qed

text \<open>
  A position can be opened exactly when the portfolio is active and has no open position, time
  moves forward, price and quantity are positive, the notional does not round to zero, and notional plus
  entry fee are covered by the cash. (The position identifier must be new: it is a digest.)
\<close>

theorem open_position_iff:
  assumes "simulated p" "turnover p \<le> 10 ^ 17" "price * qty \<le> 10 ^ 17"
    and "build_position_id (pf_id p) (int (length (pf_positions p)) + 1) t \<notin> sp_id ` set (pf_positions p)"
  shows "returns (ledger_open pair side price qty (Aware t) p) \<longleftrightarrow>
    pf_status p = ACTIVE \<and> open_ones (pf_positions p) = [] \<and> pf_updated_at p < t \<and> 0 < price \<and> 0 < qty
    \<and> 0 < notional_of price qty \<and> notional_of price qty + entry_fee_of p price qty \<le> pf_cash p"
    (is "?runs \<longleftrightarrow> ?guards")
proof
  note inv = simulated_invariant [OF assms(1)]
  have v: "valid_portfolio p" using inv by (simp add: ledger_invariant_def)
  assume ?runs
  then obtain n f c q where g: "pf_status p = ACTIVE" "\<not> list_ex (\<lambda>q. sp_status q = PositionOpen) (pf_positions p)"
    "pf_updated_at p < t" "0 < price" "0 < qty" "quantize_money (dmul price qty) = Inr n"
    "quantize_money (dmul n (pf_fee_rate p)) = Inr f" "quantize_money (dadd n f) = Inr c" "c \<le> pf_cash p"
    "SimulatedPosition (opened_position p pair side price qty t n f) = Inr q"
    by (auto simp: returns_iff ledger_open_def bindR_Inr_iff raising_Inr_iff require_active_Inr next_timestamp_Inr)
  note a = open_amounts [OF g(4,5) valid_portfolio_facts(4,5) [OF v] assms(3)]
  have "n = notional_of price qty" using a(1) g(6) by simp
  moreover have "f = entry_fee_of p price qty" using a(2) g(7) calculation by simp
  ultimately show ?guards
    using g a(3) by (auto simp: open_ones_def filter_empty_conv list_ex_iff SimulatedPosition_Inr position_fields_def)
next
  assume ?guards
  then show ?runs
    using open_runs [OF simulated_invariant [OF assms(1)] assms(2), of price qty t pair side] assms(3,4)
    by (auto simp: returns_iff)
qed

theorem open_position_iff_witness:
  "\<exists>p. pf_cash p = 100 \<and> returns (ledger_open sample_pair SideLong 90 1 (Aware 1) p)
     \<and> \<not> returns (ledger_open sample_pair SideLong 100 1 (Aware 1) p)"
proof -
  obtain p where p: "simulated p" "pf_status p = ACTIVE" "pf_positions p = []" "pf_starting_cash p = 100"
    "pf_cash p = 100" "pf_fee_rate p = 1 / 1000" "pf_updated_at p = 0" by (rule sample_created)
  have "on_grid 8 (9 / 100 :: rat)" "on_grid 8 (1 / 10 :: rat)" by (simp_all add: on_grid_def)
  then have m: "to_money 90 = 90" "to_money (9 / 100) = 9 / 100" "to_money 100 = 100" "to_money (1 / 10) = 1 / 10"
    using to_money_fixed on_grid_of_int [of 8 90] on_grid_of_int [of 8 100] by simp_all
  have v: "notional_of 90 1 = 90" "entry_fee_of p 90 1 = 9 / 100" "notional_of 100 1 = 100" "entry_fee_of p 100 1 = 1 / 10"
    by (simp_all add: notional_of_def entry_fee_of_def p(6) dec_eval m)
  have t: "turnover p \<le> 10 ^ 17" using p by (simp add: turnover_def)
  have "returns (ledger_open sample_pair SideLong 90 1 (Aware 1) p)"
    using open_position_iff [OF p(1) t, of 90 1 1 sample_pair SideLong] p v by (simp add: open_ones_def)
  moreover have "\<not> returns (ledger_open sample_pair SideLong 100 1 (Aware 1) p)"
    using open_position_iff [OF p(1) t, of 100 1 1 sample_pair SideLong] p v by (simp add: open_ones_def)
  ultimately show ?thesis using p(5) by blast
qed

text \<open>
  C15: Closing an open position at a price either settles it exactly (cash becomes cash plus
  reserved notional plus gross result minus exit fee, the trade's net result is added to realized PnL), or,
  when those proceeds are negative, raises and changes nothing.
\<close>

theorem close_position_settles:
  assumes "simulated p" "turnover p \<le> 10 ^ 17" "q \<in> set (pf_positions p)" "sp_status q = PositionOpen"
    and "0 < price" "price * sp_quantity q \<le> 10 ^ 17" "sp_entry_price q * sp_quantity q \<le> 10 ^ 17"
    and "pf_updated_at p < t"
    and "proceeds = pf_cash p + sp_reserved q + result_at q price - exit_fee_at p q price"
  shows "(case ledger_close (sp_id q) price (Aware t) p of
      Inl err \<Rightarrow> proceeds < 0 \<and> err = FieldErrors [''cash'']
    | Inr p' \<Rightarrow> 0 \<le> proceeds \<and> pf_cash p' = proceeds \<and> pf_equity p' = proceeds \<and> pf_unrealized p' = 0
        \<and> pf_realized p' = pf_realized p + (result_at q price - sp_entry_fee q - exit_fee_at p q price)
        \<and> pf_fees_paid p' = pf_fees_paid p + exit_fee_at p q price
        \<and> open_ones (pf_positions p') = [])"
  using close_runs [OF simulated_invariant [OF assms(1)] assms(2-8)] assms(9)
  by (cases "0 \<le> proceeds") auto

text \<open>The sample short of one unit from 90: at 80 it gains 10, at 300 it loses more than there is.\<close>

lemma sample_results:
  assumes "sp_side q = SideShort" "sp_entry_price q = 90" "sp_quantity q = 1" "pf_fee_rate p = 1 / 1000"
  shows "result_at q 80 = 10" "exit_fee_at p q 80 = 2 / 25" "result_at q 300 = - 210" "exit_fee_at p q 300 = 3 / 10"
    "result_at q 90 = 0" "exit_fee_at p q 90 = 9 / 100"
proof -
  have "on_grid 8 (2 / 25 :: rat)" "on_grid 8 (3 / 10 :: rat)" "on_grid 8 (9 / 100 :: rat)" by (simp_all add: on_grid_def)
  then have m: "to_money 10 = 10" "to_money (2 / 25) = 2 / 25" "to_money (- 210) = - 210" "to_money (3 / 10) = 3 / 10"
    "to_money (9 / 100) = 9 / 100" "to_money 0 = 0"
    using to_money_fixed on_grid_of_int [of 8 10] on_grid_of_int [of 8 "- 210"] by simp_all
  show "result_at q 80 = 10" "exit_fee_at p q 80 = 2 / 25" "result_at q 300 = - 210" "exit_fee_at p q 300 = 3 / 10"
    "result_at q 90 = 0" "exit_fee_at p q 90 = 9 / 100"
    by (simp_all add: result_at_def exit_fee_at_def assms dec_eval m)
qed

theorem close_position_settles_witness:
  "\<exists>p p' posid. pf_cash p = 991 / 100 \<and> ledger_close posid 80 (Aware 2) p = Inr p' \<and> pf_cash p' = 10983 / 100"
proof -
  obtain p q where p: "simulated p" "pf_positions p = [q]" "pf_cash p = 991 / 100" "pf_fee_rate p = 1 / 1000"
    "pf_updated_at p = 1" "sp_status q = PositionOpen" "sp_side q = SideShort" "sp_entry_price q = 90"
    "sp_quantity q = 1" "sp_reserved q = 90" "turnover p \<le> 10 ^ 17"
    by (rule sample_opened)
  have q: "q \<in> set (pf_positions p)" by (simp add: p(2))
  note r = sample_results [OF p(7-9,4)]
  have "case ledger_close (sp_id q) 80 (Aware 2) p of
      Inl err \<Rightarrow> 10983 / 100 < (0 :: rat) \<and> err = FieldErrors [''cash'']
    | Inr p' \<Rightarrow> 0 \<le> (10983 / 100 :: rat) \<and> pf_cash p' = 10983 / 100 \<and> pf_equity p' = 10983 / 100 \<and> pf_unrealized p' = 0
        \<and> pf_realized p' = pf_realized p + (result_at q 80 - sp_entry_fee q - exit_fee_at p q 80)
        \<and> pf_fees_paid p' = pf_fees_paid p + exit_fee_at p q 80 \<and> open_ones (pf_positions p') = []"
    by (rule close_position_settles [OF p(1) p(11) q p(6)]) (use p r in simp_all)
  then show ?thesis using p(3) by (cases "ledger_close (sp_id q) 80 (Aware 2) p") auto
qed

text \<open>
  A mark never fails on an open position of a reachable portfolio: it revalues the
  position and the equity and leaves cash, fees and realized PnL alone.
\<close>

theorem mark_never_fails:
  assumes "simulated p" "turnover p \<le> 10 ^ 17" "q \<in> set (pf_positions p)" "sp_status q = PositionOpen"
    and "0 < price" "price * sp_quantity q \<le> 10 ^ 17" "sp_entry_price q * sp_quantity q \<le> 10 ^ 17"
    and "pf_updated_at p < t"
  shows "\<exists>p'. ledger_mark (sp_id q) price (Aware t) p = Inr p' \<and> pf_cash p' = pf_cash p
    \<and> pf_realized p' = pf_realized p \<and> pf_fees_paid p' = pf_fees_paid p \<and> pf_unrealized p' = result_at q price
    \<and> pf_equity p' = pf_cash p + sp_reserved q + result_at q price"
  using mark_runs [OF simulated_invariant [OF assms(1)] assms(2-8)] by blast

theorem mark_never_fails_witness:
  "\<exists>p p' posid. pf_cash p = 991 / 100 \<and> ledger_mark posid 300 (Aware 2) p = Inr p'
     \<and> pf_unrealized p' = - 210 \<and> pf_equity p' = - (11009 / 100)"
proof -
  obtain p q where p: "simulated p" "pf_positions p = [q]" "pf_cash p = 991 / 100" "pf_fee_rate p = 1 / 1000"
    "pf_updated_at p = 1" "sp_status q = PositionOpen" "sp_side q = SideShort" "sp_entry_price q = 90"
    "sp_quantity q = 1" "sp_reserved q = 90" "turnover p \<le> 10 ^ 17"
    by (rule sample_opened)
  have q: "q \<in> set (pf_positions p)" by (simp add: p(2))
  obtain p' where "ledger_mark (sp_id q) 300 (Aware 2) p = Inr p'" "pf_unrealized p' = result_at q 300"
    "pf_equity p' = pf_cash p + sp_reserved q + result_at q 300"
    using mark_never_fails [OF p(1) p(11) q p(6), of 300 2] p by auto
  then show ?thesis using p(3,10) sample_results [OF p(7-9,4)] by auto
qed

text \<open>What a successful opening has done.\<close>

lemma open_effect:
  assumes sim: "simulated p" and fits: "turnover p \<le> 10 ^ 16" and price: "price * qty \<le> 10 ^ 16"
    and run: "ledger_open pair side price qty (Aware t) p = Inr p'"
  defines "n \<equiv> notional_of price qty" and "f \<equiv> entry_fee_of p price qty"
  shows "pf_positions p' = pf_positions p @ [opened_position p pair side price qty t n f]"
    "pf_cash p' = pf_cash p - (n + f)" "pf_fees_paid p' = pf_fees_paid p + f" "pf_realized p' = pf_realized p"
    "pf_fee_rate p' = pf_fee_rate p" "turnover p' \<le> 10 ^ 17" "0 < price" "0 < qty" "pf_updated_at p' = t"
proof -
  note inv = simulated_invariant [OF sim]
  have v: "valid_portfolio p" using inv by (simp add: ledger_invariant_def)
  have pw: "10 * (10 :: rat) ^ 16 = 10 ^ 17" "(1 :: rat) \<le> 10 ^ 15" "10 * (10 :: rat) ^ 15 = 10 ^ 16" by simp_all
  have fits17: "turnover p \<le> 10 ^ 17" and price17: "price * qty \<le> 10 ^ 17" using fits price pw by linarith+
  from run obtain m g c q c2 eq fe e where g: "pf_status p = ACTIVE" "\<not> list_ex (\<lambda>q. sp_status q = PositionOpen) (pf_positions p)"
    "pf_updated_at p < t" "0 < price" "0 < qty" "quantize_money (dmul price qty) = Inr m"
    "quantize_money (dmul m (pf_fee_rate p)) = Inr g" "quantize_money (dadd m g) = Inr c" "c \<le> pf_cash p"
    "SimulatedPosition (opened_position p pair side price qty t m g) = Inr q"
    "SimulatedPortfolio (p\<lparr>pf_updated_at := t, pf_cash := c2, pf_equity := eq,
       pf_fees_paid := fe, pf_positions := pf_positions p @ [q], pf_timeline := pf_timeline p @ [e]\<rparr>) = Inr p'"
    by (auto simp: ledger_open_def bindR_Inr_iff raising_Inr_iff require_active_Inr next_timestamp_Inr)
  note a = open_amounts [OF g(4,5) valid_portfolio_facts(4,5) [OF v] price17, folded n_def f_def]
  have mn: "m = n" using a(1) g(6) by simp
  then have gf: "g = f" using a(2) g(7) by simp
  have q: "q = opened_position p pair side price qty t n f" using g(10) mn gf by (simp add: SimulatedPosition_Inr)
  have "distinct (map sp_id (pf_positions p @ [q]))"
    using returned_snapshot [OF g(11)] by (simp add: valid_portfolio_iff well_built_def)
  then have fresh: "build_position_id (pf_id p) (int (length (pf_positions p)) + 1) t \<notin> sp_id ` set (pf_positions p)"
    by (simp add: q opened_position_def)
  have "0 < n" using g(10) mn by (simp add: SimulatedPosition_Inr position_fields_def)
  moreover have "n + f \<le> pf_cash p" using g(8,9) a(3) mn gf by simp
  moreover have "open_ones (pf_positions p) = []"
    using g(2) by (simp add: open_ones_def filter_empty_conv list_ex_iff)
  ultimately obtain r where "ledger_open pair side price qty (Aware t) p = Inr r"
    and r: "extends p PositionOpenedEvent r"
      "pf_positions r = pf_positions p @ [opened_position p pair side price qty t n f]"
      "pf_cash r = pf_cash p - (n + f)" "pf_fees_paid r = pf_fees_paid p + f" "pf_realized r = pf_realized p"
    using open_runs [OF inv fits17 g(1) _ g(4,5) price17 g(3) fresh, of pair side, folded n_def f_def] by blast
  then have "r = p'" using run by simp
  with r g(4,5) show "pf_positions p' = pf_positions p @ [opened_position p pair side price qty t n f]"
    "pf_cash p' = pf_cash p - (n + f)" "pf_fees_paid p' = pf_fees_paid p + f" "pf_realized p' = pf_realized p"
    "pf_fee_rate p' = pf_fee_rate p" "0 < price" "0 < qty"
    by (simp_all add: extends_def)
  show "pf_updated_at p' = t" using returned_snapshot [OF g(11)] by simp
  have "n \<le> 2 * 10 ^ 16" "f \<le> 3 * 10 ^ 16"
  proof -
    have "\<bar>dmul price qty\<bar> \<le> 10 ^ 16 * (1001 / 1000)" using price g(4,5) by (intro dmul_le) simp
    moreover have "(10 :: rat) ^ 16 * 100 \<le> 10 ^ 19" by simp
    ultimately have "\<bar>n\<bar> \<le> 10 ^ 16 * (1001 / 1000) + 1"
      using quantize_to_money(2) [of "dmul price qty"] pw unfolding n_def notional_of_def by linarith
    then show n2: "n \<le> 2 * 10 ^ 16" using pw by linarith
    have "\<bar>n\<bar> * \<bar>pf_fee_rate p\<bar> \<le> (2 * 10 ^ 16) * 1"
      using n2 a(4) valid_portfolio_facts(4,5) [OF v] by (intro mult_mono) auto
    then have "\<bar>dmul n (pf_fee_rate p)\<bar> \<le> (2 * 10 ^ 16) * 1 * (1001 / 1000)" by (rule dmul_le)
    moreover have "(10 :: rat) ^ 16 * 100 \<le> 10 ^ 19" by simp
    ultimately have "\<bar>f\<bar> \<le> (2 * 10 ^ 16) * 1 * (1001 / 1000) + 1"
      using quantize_to_money(2) [of "dmul n (pf_fee_rate p)"] pw unfolding f_def entry_fee_of_def n_def [symmetric]
      by linarith
    then show "f \<le> 3 * 10 ^ 16" using pw by linarith
  qed
  moreover have "turnover p' = turnover p + n + f"
    using \<open>r = p'\<close> r(1,2) a(4,5)
    by (simp add: turnover_def extends_def position_turnover_def opened_position_def)
  ultimately show "turnover p' \<le> 10 ^ 17" using fits pw by linarith
qed

text \<open>
  Opening a position and closing it at the same price costs exactly the two fees: realized PnL and
  cash fall by entry fee plus exit fee, and nothing stays open.
\<close>

theorem open_close_round_trip:
  assumes "simulated p" "turnover p \<le> 10 ^ 16" "price * qty \<le> 10 ^ 16"
    and "ledger_open pair side price qty (Aware t1) p = Inr p1" "pf_positions p1 = pf_positions p @ [q]"
    and "ledger_close (sp_id q) price (Aware t2) p1 = Inr p2"
  shows "pf_cash p2 = pf_cash p - (entry_fee_of p price qty + exit_fee_at p q price)
    \<and> pf_realized p2 = pf_realized p - (entry_fee_of p price qty + exit_fee_at p q price)
    \<and> pf_fees_paid p2 = pf_fees_paid p + (entry_fee_of p price qty + exit_fee_at p q price)
    \<and> open_ones (pf_positions p2) = []"
proof -
  note o1 = open_effect [OF assms(1-4)]
  define n f where "n = notional_of price qty" and "f = entry_fee_of p price qty"
  have q: "q = opened_position p pair side price qty t1 n f" using o1(1) assms(5) by (simp add: n_def f_def)
  have s1: "simulated p1" using assms(1,4) by (blast intro: stepped opens)
  have m: "q \<in> set (pf_positions p1)" "sp_status q = PositionOpen" by (simp_all add: assms(5)) (simp add: q)
  have pq: "sp_quantity q = qty" "sp_entry_price q = price" "sp_reserved q = n" "sp_entry_fee q = f"
    by (simp_all add: q opened_position_def)
  have "(10 :: rat) ^ 16 \<le> 10 ^ 17" by simp
  with assms(3) have v: "price * sp_quantity q \<le> 10 ^ 17" "sp_entry_price q * sp_quantity q \<le> 10 ^ 17"
    unfolding pq by linarith+
  have later: "pf_updated_at p1 < t2"
    using assms(6) by (auto simp: ledger_close_def bindR_Inr_iff next_timestamp_Inr)
  have "result_at q price = 0"
    by (simp add: result_at_def pq dsub_def dmul_def to_money_fixed)
  moreover have "exit_fee_at p1 q price = exit_fee_at p q price" by (simp add: exit_fee_at_def o1(5))
  ultimately show ?thesis
    using close_runs [OF simulated_invariant [OF s1] o1(6) m o1(7) v later] assms(6) o1(2-4) pq
    by (cases "pf_cash p1 + sp_reserved q + result_at q price - exit_fee_at p1 q price < 0")
      (auto simp: n_def f_def not_less)
qed

theorem open_close_round_trip_witness:
  "\<exists>p p1 p2 posid. ledger_open sample_pair SideShort 90 1 (Aware 1) p = Inr p1 \<and> pf_cash p = 100
     \<and> ledger_close posid 90 (Aware 2) p1 = Inr p2 \<and> pf_cash p2 = 9982 / 100"
proof -
  obtain p p1 q where p: "simulated p" "pf_cash p = 100" "turnover p = 100" "entry_fee_of p 90 1 = 9 / 100"
    "pf_positions p = []" "pf_fee_rate p = 1 / 1000" "ledger_open sample_pair SideShort 90 1 (Aware 1) p = Inr p1"
    and p1: "simulated p1" "pf_positions p1 = [q]" "pf_cash p1 = 991 / 100" "pf_fee_rate p1 = 1 / 1000"
    "pf_updated_at p1 = 1" "sp_status q = PositionOpen" "sp_side q = SideShort" "sp_entry_price q = 90"
    "sp_quantity q = 1" "sp_reserved q = 90" "turnover p1 \<le> 10 ^ 17"
    by (rule sample_opened)
  have "\<exists>p2. ledger_close (sp_id q) 90 (Aware 2) p1 = Inr p2"
    using close_runs(2) [OF simulated_invariant [OF p1(1)] p1(11), of q 90 2] p1 sample_results(5,6) [OF p1(7-9,4)]
    by auto
  then obtain p2 where p2: "ledger_close (sp_id q) 90 (Aware 2) p1 = Inr p2" ..
  have "pf_cash p2 = pf_cash p - (entry_fee_of p 90 1 + exit_fee_at p q 90)"
    using open_close_round_trip [OF p(1) _ _ p(7) _ p2] p(3,5) p1(2) by simp
  then show ?thesis
    using p p2 sample_results(6) [OF p1(7-9) p(6)] by auto
qed

text \<open>
  The ledger is append-only: a transition keeps the portfolio's identity, dataset, starting cash and fee
  rate, appends exactly one timeline event, never reopens or alters a closed position, and
  never drops one.
\<close>

theorem ledger_append_only:
  assumes "simulated p" "ledger_step p p'"
  shows "pf_id p' = pf_id p \<and> pf_dataset_id p' = pf_dataset_id p \<and> pf_starting_cash p' = pf_starting_cash p
    \<and> pf_fee_rate p' = pf_fee_rate p
    \<and> (\<exists>e. pf_timeline p' = pf_timeline p @ [e] \<and> te_occurred_at e = pf_updated_at p' \<and> te_equity e = pf_equity p')
    \<and> prefix (map sp_id (pf_positions p)) (map sp_id (pf_positions p'))
    \<and> set (closed_ones (pf_positions p)) \<subseteq> set (closed_ones (pf_positions p'))"
proof -
  have v: "valid_portfolio p" using simulated_invariant [OF assms(1)] by (simp add: ledger_invariant_def)
  have ext: ?thesis if "extends p k p'" "prefix (map sp_id (pf_positions p)) (map sp_id (pf_positions p'))"
    "set (closed_ones (pf_positions p)) \<subseteq> set (closed_ones (pf_positions p'))" for k
    using that valid_portfolio_facts(9) [OF v] by (auto simp: extends_def)
  show ?thesis
    using assms(2)
  proof cases
    case (opens pair side price qty at_time)
    from ledger_open_Inr [OF this] obtain q where "extends p PositionOpenedEvent p'" "pf_positions p' = pf_positions p @ [q]"
      by metis
    then show ?thesis by (intro ext) (auto simp: closed_ones_def)
  next
    case (marks posid price at_time)
    from ledger_mark_Inr [OF this] obtain pre q q' post where "extends p PositionMarkedEvent p'"
      "pf_positions p = pre @ q # post" "pf_positions p' = pre @ q' # post" "position_step q q'"
      by metis
    then show ?thesis by (intro ext) (auto simp: closed_ones_def position_step_def)
  next
    case (closes_one posid price at_time)
    from ledger_close_Inr [OF this] obtain pre q q' post where "extends p PositionClosedEvent p'"
      "pf_positions p = pre @ q # post" "pf_positions p' = pre @ q' # post" "position_step q q'"
      by metis
    then show ?thesis by (intro ext) (auto simp: closed_ones_def position_step_def)
  next
    case (completes at_time)
    from ledger_complete_Inr [OF this] show ?thesis by (intro ext) auto
  qed
qed

theorem ledger_append_only_witness:
  "\<exists>(p :: portfolio) (p' :: portfolio) e. pf_cash p = 100 \<and> pf_cash p' = 991 / 100 \<and> pf_timeline p' = pf_timeline p @ [e]"
proof -
  obtain p p1 where p: "simulated p" "pf_cash p = 100" "ledger_open sample_pair SideShort 90 1 (Aware 1) p = Inr p1"
    "pf_cash p1 = 991 / 100"
    by (rule sample_opened)
  with ledger_append_only [OF p(1) opens [OF p(3)]] show ?thesis by blast
qed

text \<open>
  A completed portfolio is final: it has no open position and every transition raises. Conversely an
  active portfolio without an open position can be completed at any later time, with its cash unchanged.
\<close>

theorem completion_is_final:
  assumes "simulated p"
  shows "if pf_status p = COMPLETED then open_ones (pf_positions p) = [] \<and> (\<forall>p'. \<not> ledger_step p p')
    else open_ones (pf_positions p) = [] \<longrightarrow> (\<forall>t > pf_updated_at p.
      \<exists>p'. ledger_complete (Aware t) p = Inr p' \<and> pf_status p' = COMPLETED \<and> pf_cash p' = pf_cash p)"
proof (cases "pf_status p")
  case ACTIVE
  then show ?thesis using complete_runs [OF simulated_invariant [OF assms]] by auto
next
  case COMPLETED
  have v: "valid_portfolio p" using simulated_invariant [OF assms] by (simp add: ledger_invariant_def)
  have "\<not> ledger_step p p'" for p'
    using COMPLETED
    by (auto elim!: ledger_step.cases simp: ledger_open_def ledger_mark_def ledger_close_def ledger_complete_def
        require_active_def raising.simps)
  then show ?thesis using COMPLETED valid_portfolio_facts [OF v] by auto
qed

theorem completion_is_final_witness:
  "\<exists>p p'. pf_cash p = 100 \<and> ledger_complete (Aware 1) p = Inr p' \<and> pf_status p' = COMPLETED \<and> pf_cash p' = 100
     \<and> (\<forall>p''. \<not> ledger_step p' p'')"
proof -
  obtain p where p: "simulated p" "pf_status p = ACTIVE" "pf_positions p = []" "pf_cash p = 100" "pf_updated_at p = 0"
    by (rule sample_created)
  have "\<forall>t>0. \<exists>p'. ledger_complete (Aware t) p = Inr p' \<and> pf_status p' = COMPLETED \<and> pf_cash p' = 100"
    using completion_is_final [OF p(1)] p(2-5) by (simp add: open_ones_def)
  from this [rule_format, of 1] obtain p' where
    p': "ledger_complete (Aware 1) p = Inr p'" "pf_status p' = COMPLETED" "pf_cash p' = 100" by auto
  have "simulated p'" using p(1) p'(1) by (blast intro: stepped completes)
  from completion_is_final [OF this] p' p(4) show ?thesis by auto
qed

text \<open>
  C16: A position whose loss exceeds the reserved notional and the cash together is stuck: it cannot be
  closed at that price, and while it is open the portfolio cannot be completed either. A short position
  reaches this state when the price rises far enough.
\<close>

theorem underwater_position_is_stuck:
  assumes "simulated p" "turnover p \<le> 10 ^ 17" "q \<in> set (pf_positions p)" "sp_status q = PositionOpen"
    and "0 < price" "price * sp_quantity q \<le> 10 ^ 17" "sp_entry_price q * sp_quantity q \<le> 10 ^ 17"
    and "pf_updated_at p < t"
    and "pf_cash p + sp_reserved q + result_at q price < exit_fee_at p q price"
  shows "ledger_close (sp_id q) price (Aware t) p = Inl (FieldErrors [''cash''])
    \<and> ledger_complete (Aware t) p = Inl (ValueError ''cannot complete a portfolio with an open position'')"
proof
  show "ledger_close (sp_id q) price (Aware t) p = Inl (FieldErrors [''cash''])"
    using close_runs(1) [OF simulated_invariant [OF assms(1)] assms(2-8)] assms(9) by simp
  have "valid_portfolio p" using simulated_invariant [OF assms(1)] by (simp add: ledger_invariant_def)
  then have "pf_status p = ACTIVE" using assms(3,4) only_open by (metis split_list)
  moreover have "list_ex (\<lambda>q. sp_status q = PositionOpen) (pf_positions p)" using assms(3,4) by (auto simp: list_ex_iff)
  ultimately show "ledger_complete (Aware t) p = Inl (ValueError ''cannot complete a portfolio with an open position'')"
    by (simp add: ledger_complete_def require_active_def raising.simps)
qed

theorem underwater_position_is_stuck_witness:
  "\<exists>p posid. simulated p \<and> pf_cash p = 991 / 100
     \<and> ledger_close posid 300 (Aware 2) p = Inl (FieldErrors [''cash''])
     \<and> ledger_complete (Aware 2) p = Inl (ValueError ''cannot complete a portfolio with an open position'')"
proof -
  obtain p q where p: "simulated p" "pf_positions p = [q]" "pf_cash p = 991 / 100" "pf_fee_rate p = 1 / 1000"
    "pf_updated_at p = 1" "sp_status q = PositionOpen" "sp_side q = SideShort" "sp_entry_price q = 90"
    "sp_quantity q = 1" "sp_reserved q = 90" "turnover p \<le> 10 ^ 17"
    by (rule sample_opened)
  have q: "q \<in> set (pf_positions p)" by (simp add: p(2))
  note stuck = underwater_position_is_stuck [OF p(1) p(11) q p(6), of 300 2]
  show ?thesis
    by (rule exI [of _ p], rule exI [of _ "sp_id q"], intro conjI)
      (use p stuck sample_results [OF p(7-9,4)] in simp_all)
qed

end
