(* ===== verification/Candidates.thy ===== *)
theory Candidates imports Strategies
begin

text \<open>
  Research candidates (\<open>trd_bot/research/candidates.py\<close>): the trade plan, the candidate with its
  validator and its lifecycle, the builder that derives a candidate from a strategy signal, and the
  generator (\<open>trd_bot/research/candidate_generation.py\<close>) that turns the signals of an experiment into
  candidates. A model object that already exists is not validated again when it becomes a field
  of another one; \<open>select\<close>, \<open>mark_stale\<close> and \<open>invalidate\<close> validate the whole dump again.
\<close>

section \<open>Evidence and trade plans\<close>

datatype candidate_action = ActionLong | ActionShort | ActionNeutral | NoTrade

fun action_value :: "candidate_action \<Rightarrow> string" where
  "action_value ActionLong = ''long''"
| "action_value ActionShort = ''short''"
| "action_value ActionNeutral = ''neutral''"
| "action_value NoTrade = ''no_trade''"

datatype candidate_status = CANDIDATE | SELECTED | STALE | INVALIDATED

record candidate_evidence =
  evidence_source :: string
  evidence_name :: string
  evidence_value :: "rat option"
  evidence_note :: "string option"

definition evidence_fields :: "candidate_evidence \<Rightarrow> (string \<times> bool) list" where
  "evidence_fields e =
     [(''source'', sized 1 100 (evidence_source e)), (''name'', sized 1 100 (evidence_name e)),
      (''note'', case evidence_note e of None \<Rightarrow> True | Some t \<Rightarrow> sized 1 500 t)]"

definition CandidateEvidence :: "candidate_evidence \<Rightarrow> candidate_evidence result" where
  "CandidateEvidence e =
     bindR (check_fields (evidence_fields e) e)
       (raising [(evidence_value e = None \<and> evidence_note e = None,
          ValueError ''candidate evidence requires a value or note'')])"

record entry_zone =
  lower_price :: rat
  upper_price :: rat

definition CandidateEntryZone :: "rat \<Rightarrow> rat \<Rightarrow> entry_zone result" where
  "CandidateEntryZone lo hi =
     bindR (check_fields [(''lower_price'', 0 < lo), (''upper_price'', 0 < hi)]
              \<lparr>lower_price = lo, upper_price = hi\<rparr>)
       (raising [(hi < lo, ValueError ''entry zone upper price cannot be lower than lower price'')])"

record candidate_target =
  target_label :: string
  target_price :: rat

definition CandidateTarget :: "string \<Rightarrow> rat \<Rightarrow> candidate_target result" where
  "CandidateTarget lbl price =
     check_fields [(''label'', sized 1 50 lbl), (''price'', 0 < price)]
       \<lparr>target_label = lbl, target_price = price\<rparr>"

record trade_plan =
  plan_zone :: entry_zone
  invalidation_price :: rat
  plan_targets :: "candidate_target list"

definition validate_targets :: "trade_plan \<Rightarrow> trade_plan result" where
  "validate_targets p = raising
     [(plan_targets p = [], ValueError ''directional candidate requires at least one target''),
      (\<not> distinct (map target_label (plan_targets p)), ValueError ''candidate target labels must be unique''),
      (\<not> distinct (map target_price (plan_targets p)), ValueError ''candidate target prices must be unique'')] p"

definition CandidateTradePlan :: "trade_plan \<Rightarrow> trade_plan result" where
  "CandidateTradePlan p =
     bindR (check_fields [(''invalidation_price'', 0 < invalidation_price p)] p) validate_targets"

text \<open>The same checks when the plan is validated from a dump: its parts are validated too.\<close>

definition plan_ok :: "trade_plan \<Rightarrow> bool" where
  "plan_ok p \<longleftrightarrow>
     returns (CandidateEntryZone (lower_price (plan_zone p)) (upper_price (plan_zone p)))
     \<and> (\<forall>t \<in> set (plan_targets p). returns (CandidateTarget (target_label t) (target_price t)))
     \<and> returns (CandidateTradePlan p)"

section \<open>Candidates\<close>

record candidate =
  candidate_id :: string
  cand_experiment_id :: string
  cand_dataset_id :: string
  cand_signal_id :: string
  cand_strategy_name :: string
  cand_strategy_version :: string
  cand_pair :: trading_pair
  cand_timeframe :: timeframe
  horizon_candles :: int
  observed_at :: int
  source_generated_at :: int
  cand_created_at :: int
  valid_until :: int
  source_direction :: signal_direction
  cand_action :: candidate_action
  cand_signal_score :: rat
  confidence :: rat
  rationale :: string
  evidence :: "candidate_evidence list"
  cand_plan :: "trade_plan option"
  cand_status :: candidate_status
  status_changed_at :: "int option"

definition build_candidate_id :: "string \<Rightarrow> string \<Rightarrow> candidate_action \<Rightarrow> int \<Rightarrow> string" where
  "build_candidate_id eid sid act horizon =
     ''candidate-'' @ digest16 (join ''::'' [eid, sid, action_value act, str_int horizon])"

definition candidate_fields :: "candidate \<Rightarrow> bool \<Rightarrow> bool \<Rightarrow> (string \<times> bool) list" where
  "candidate_fields c created_aware valid_aware =
     [(''candidate_id'', has_id_form ''candidate-'' 16 (candidate_id c)),
      (''experiment_id'', has_id_form ''experiment-'' 16 (cand_experiment_id c)),
      (''dataset_id'', sized 1 100 (cand_dataset_id c)),
      (''signal_id'', has_id_form ''signal-'' 16 (cand_signal_id c)),
      (''strategy_name'', sized 1 100 (cand_strategy_name c)),
      (''strategy_version'', sized 1 30 (cand_strategy_version c)),
      (''horizon_candles'', 1 \<le> horizon_candles c),
      (''created_at'', created_aware), (''valid_until'', valid_aware),
      (''signal_score'', - 1 \<le> cand_signal_score c \<and> cand_signal_score c \<le> 1),
      (''confidence'', 0 \<le> confidence c \<and> confidence c \<le> 1),
      (''rationale'', sized 1 1000 (rationale c)),
      (''evidence'', list_all (\<lambda>e. returns (CandidateEvidence e)) (evidence c)),
      (''trade_plan'', case cand_plan c of None \<Rightarrow> True | Some p \<Rightarrow> plan_ok p)]"

fun source_action :: "signal_direction \<Rightarrow> candidate_action" where
  "source_action SignalLong = ActionLong"
| "source_action SignalShort = ActionShort"
| "source_action SignalNeutral = ActionNeutral"

definition validate_source_direction :: "candidate \<Rightarrow> unit result" where
  "validate_source_direction c = raising
     [(source_direction c = SignalLong \<and> cand_signal_score c \<le> 0,
         ValueError ''long source signal score must be greater than zero''),
      (source_direction c = SignalShort \<and> cand_signal_score c \<ge> 0,
         ValueError ''short source signal score must be lower than zero''),
      (source_direction c = SignalNeutral \<and> cand_signal_score c \<noteq> 0,
         ValueError ''neutral source signal score must be zero''),
      (cand_action c \<noteq> source_action (source_direction c) \<and> cand_action c \<noteq> NoTrade,
         ValueError ''candidate action cannot reverse its source signal'')] ()"

definition directional :: "candidate_action \<Rightarrow> bool" where
  "directional act \<longleftrightarrow> act = ActionLong \<or> act = ActionShort"

definition validate_plan_geometry :: "candidate_action \<Rightarrow> trade_plan \<Rightarrow> unit result" where
  "validate_plan_geometry act p =
    (let zone = plan_zone p; inval = invalidation_price p; prices = map target_price (plan_targets p) in
     if act = ActionLong then raising
       [(inval \<ge> lower_price zone, ValueError ''long invalidation must be below the entry zone''),
        (list_ex (\<lambda>x. x \<le> upper_price zone) prices, ValueError ''long targets must be above the entry zone''),
        (list_ex (\<lambda>(earlier, later). later \<le> earlier) (adjacent prices),
           ValueError ''long targets must be ordered from lower to higher'')] ()
     else if act = ActionShort then raising
       [(inval \<le> upper_price zone, ValueError ''short invalidation must be above the entry zone''),
        (list_ex (\<lambda>x. x \<ge> lower_price zone) prices, ValueError ''short targets must be below the entry zone''),
        (list_ex (\<lambda>(earlier, later). later \<ge> earlier) (adjacent prices),
           ValueError ''short targets must be ordered from higher to lower'')] ()
     else Inr ())"

definition validate_trade_plan :: "candidate \<Rightarrow> unit result" where
  "validate_trade_plan c =
     bindR (raising
       [(directional (cand_action c) \<and> cand_plan c = None,
           ValueError ''directional candidate requires a trade plan''),
        (\<not> directional (cand_action c) \<and> cand_plan c \<noteq> None,
           ValueError ''non-directional candidate cannot contain a trade plan'')] ()) (\<lambda>_.
     case cand_plan c of None \<Rightarrow> Inr () | Some p \<Rightarrow> validate_plan_geometry (cand_action c) p)"

definition validate_status :: "candidate \<Rightarrow> unit result" where
  "validate_status c =
     (if cand_status c = CANDIDATE
      then raising [(status_changed_at c \<noteq> None,
             ValueError ''fresh candidate cannot have status_changed_at'')] ()
      else case status_changed_at c of
          None \<Rightarrow> Inl (ValueError ''non-fresh candidate requires status_changed_at'')
        | Some t \<Rightarrow> raising [(t < cand_created_at c,
             ValueError ''candidate status change cannot precede creation'')] ())"

definition validate_candidate :: "candidate \<Rightarrow> candidate result" where
  "validate_candidate c =
     bindR (raising
       [(source_generated_at c < observed_at c,
           ValueError ''signal generation cannot precede candidate observation''),
        (cand_created_at c < source_generated_at c,
           ValueError ''candidate creation cannot precede source signal generation''),
        (valid_until c \<le> cand_created_at c,
           ValueError ''candidate validity must extend beyond creation time''),
        (candidate_id c \<noteq> build_candidate_id (cand_experiment_id c) (cand_signal_id c) (cand_action c)
           (horizon_candles c), ValueError ''candidate ID does not match its identity''),
        (evidence c = [], ValueError ''candidate requires at least one evidence item''),
        (\<not> distinct (map (\<lambda>e. (evidence_source e, evidence_name e)) (evidence c)),
           ValueError ''candidate evidence identities must be unique'')] ()) (\<lambda>_.
     bindR (validate_source_direction c) (\<lambda>_.
     bindR (validate_trade_plan c) (\<lambda>_.
     bindR (validate_status c) (\<lambda>_. Inr c))))"

definition ResearchCandidate :: "candidate \<Rightarrow> bool \<Rightarrow> bool \<Rightarrow> candidate result" where
  "ResearchCandidate c created_aware valid_aware =
     bindR (check_fields (candidate_fields c created_aware valid_aware) c) validate_candidate"

section \<open>Lifecycle\<close>

definition candidate_timestamp :: "timestamp \<Rightarrow> int result" where
  "candidate_timestamp v = to_utc ''candidate timestamp must include timezone information'' v"

definition is_selectable :: "candidate \<Rightarrow> int \<Rightarrow> bool" where
  "is_selectable c at_time \<longleftrightarrow>
     cand_status c = CANDIDATE \<and> directional (cand_action c)
     \<and> cand_created_at c \<le> at_time \<and> at_time < valid_until c"

definition restamped :: "candidate \<Rightarrow> candidate_status \<Rightarrow> int \<Rightarrow> candidate result" where
  "restamped c st t =
     ResearchCandidate (c\<lparr>cand_status := st, status_changed_at := Some t\<rparr>) True True"

definition select :: "timestamp \<Rightarrow> candidate \<Rightarrow> candidate result" where
  "select selected_at c =
     (if cand_status c = SELECTED then Inr c
      else if cand_status c \<noteq> CANDIDATE then Inl (ValueError ''only fresh candidates can be selected'')
      else bindR (candidate_timestamp selected_at) (\<lambda>t.
        if \<not> is_selectable c t
        then Inl (ValueError ''candidate is not selectable at the requested time'')
        else restamped c SELECTED t))"

definition mark_stale :: "timestamp \<Rightarrow> candidate \<Rightarrow> candidate result" where
  "mark_stale stale_at c =
     (if cand_status c = STALE then Inr c
      else if cand_status c \<notin> {CANDIDATE, SELECTED}
      then Inl (ValueError ''terminal candidate cannot become stale'')
      else bindR (candidate_timestamp stale_at) (\<lambda>t.
        if t < valid_until c then Inl (ValueError ''candidate cannot become stale before valid_until'')
        else restamped c STALE t))"

definition invalidate :: "timestamp \<Rightarrow> candidate \<Rightarrow> candidate result" where
  "invalidate invalidated_at c =
     (if cand_status c = INVALIDATED then Inr c
      else if cand_status c \<notin> {CANDIDATE, SELECTED}
      then Inl (ValueError ''terminal candidate cannot be invalidated'')
      else bindR (candidate_timestamp invalidated_at) (\<lambda>t.
        if t < cand_created_at c then Inl (ValueError ''candidate invalidation cannot precede creation'')
        else restamped c INVALIDATED t))"

section \<open>Building candidates from signals\<close>

definition feature_evidence :: "strategy_feature \<Rightarrow> candidate_evidence" where
  "feature_evidence f = \<lparr>evidence_source = ''strategy_feature'', evidence_name = feature_name f,
     evidence_value = Some (feature_value f), evidence_note = None\<rparr>"

definition signal_evidence :: "strategy_signal \<Rightarrow> candidate_evidence list result" where
  "signal_evidence s =
     bindR (CandidateEvidence \<lparr>evidence_source = ''strategy_signal'', evidence_name = ''reason'',
              evidence_value = None, evidence_note = Some (signal_reason s)\<rparr>) (\<lambda>e.
     bindR (mapR (\<lambda>f. CandidateEvidence (feature_evidence f)) (features s)) (\<lambda>es. Inr (e # es)))"

definition candidate_from_signal ::
  "strategy_signal \<Rightarrow> string \<Rightarrow> int \<Rightarrow> rat \<Rightarrow> timestamp \<Rightarrow> timestamp \<Rightarrow> trade_plan option
   \<Rightarrow> candidate_action option \<Rightarrow> string option \<Rightarrow> candidate result" where
  "candidate_from_signal s eid horizon conf created until plan act why =
     (let resolved = (case act of Some a \<Rightarrow> a | None \<Rightarrow> source_action (direction s)) in
      if resolved \<noteq> source_action (direction s) \<and> resolved \<noteq> NoTrade
      then Inl (ValueError ''candidate action cannot reverse its source signal'')
      else bindR (signal_evidence s) (\<lambda>ev.
        ResearchCandidate
          \<lparr>candidate_id = build_candidate_id eid (signal_id s) resolved horizon,
           cand_experiment_id = eid, cand_dataset_id = signal_dataset_id s,
           cand_signal_id = signal_id s, cand_strategy_name = signal_strategy_name s,
           cand_strategy_version = signal_strategy_version s, cand_pair = signal_pair s,
           cand_timeframe = signal_timeframe s, horizon_candles = horizon,
           observed_at = candle_close_time s, source_generated_at = generated_at s,
           cand_created_at = instant created, valid_until = instant until,
           source_direction = direction s, cand_action = resolved,
           cand_signal_score = signal_score s, confidence = conf,
           rationale = (case why of Some r \<Rightarrow> if r = '''' then signal_reason s else r
                        | None \<Rightarrow> signal_reason s),
           evidence = ev, cand_plan = plan, cand_status = CANDIDATE, status_changed_at = None\<rparr>
          (aware created) (aware until)))"

section \<open>Generating candidates for an experiment\<close>

text \<open>What the generator reads of an experiment.\<close>

record experiment_view =
  experiment_id :: string
  experiment_dataset_id :: string
  experiment_horizon :: int
  experiment_signals :: "strategy_signal list"

record generation_policy =
  confidence_prior :: rat
  plan_ratio :: rat

definition CandidateGenerationPolicy :: "rat \<Rightarrow> rat \<Rightarrow> generation_policy result" where
  "CandidateGenerationPolicy conf ratio =
     check_fields [(''confidence_prior'', 0 \<le> conf \<and> conf \<le> 1), (''reward_risk_ratio'', 0 < ratio)]
       \<lparr>confidence_prior = conf, plan_ratio = ratio\<rparr>"

definition validate_signal_lineage :: "strategy_signal \<Rightarrow> dataset \<Rightarrow> unit result" where
  "validate_signal_lineage s ds = raising
     [(signal_dataset_id s \<noteq> dataset_id ds,
         ValueError ''candidate source signal dataset lineage must match''),
      (signal_pair s \<noteq> dataset_pair ds, ValueError ''candidate source signal pair must match dataset''),
      (signal_timeframe s \<noteq> dataset_timeframe ds,
         ValueError ''candidate source signal timeframe must match dataset'')] ()"

definition source_candle :: "strategy_signal \<Rightarrow> dataset \<Rightarrow> candle result" where
  "source_candle s ds =
     (case filter (\<lambda>c. open_time c = candle_open_time s \<and> close_time c = candle_close_time s) (candles ds) of
        [c] \<Rightarrow> Inr c
      | _ \<Rightarrow> Inl (ValueError ''candidate source signal must map to exactly one dataset candle''))"

definition single_target_plan :: "rat \<Rightarrow> rat \<Rightarrow> rat \<Rightarrow> trade_plan option result" where
  "single_target_plan entry inval target =
     bindR (CandidateEntryZone entry entry) (\<lambda>zone.
     bindR (CandidateTarget ''target-1'' target) (\<lambda>t.
     bindR (CandidateTradePlan \<lparr>plan_zone = zone, invalidation_price = inval, plan_targets = [t]\<rparr>)
       (\<lambda>p. Inr (Some p))))"

definition plan_for_signal :: "generation_policy \<Rightarrow> strategy_signal \<Rightarrow> candle \<Rightarrow> trade_plan option result" where
  "plan_for_signal pol s c =
     (let entry = close_price c in
      if direction s = SignalLong then
        (let inval = low_price c; unit_risk = dsub entry inval in
         if unit_risk \<le> 0 then Inr None
         else single_target_plan entry inval (dadd entry (dmul unit_risk (plan_ratio pol))))
      else if direction s = SignalShort then
        (let inval = high_price c; unit_risk = dsub inval entry in
         if unit_risk \<le> 0 then Inr None
         else (let target = dsub entry (dmul unit_risk (plan_ratio pol)) in
           if target \<le> 0 then Inr None else single_target_plan entry inval target))
      else Inr None)"

definition generate_step ::
  "generation_policy \<Rightarrow> experiment_view \<Rightarrow> dataset \<Rightarrow> strategy_signal \<Rightarrow> candidate option result" where
  "generate_step pol ex ds s =
     bindR (validate_signal_lineage s ds) (\<lambda>_.
     if direction s = SignalNeutral then Inr None
     else bindR (source_candle s ds) (\<lambda>c.
       bindR (plan_for_signal pol s c) (\<lambda>plan.
       case plan of None \<Rightarrow> Inr None
       | Some p \<Rightarrow> bindR (candidate_from_signal s (experiment_id ex) (experiment_horizon ex)
             (confidence_prior pol) (Aware (generated_at s))
             (Aware (generated_at s + duration (dataset_timeframe ds) * experiment_horizon ex))
             (Some p) None None) (\<lambda>cand. Inr (Some cand)))))"

definition generate_candidates ::
  "generation_policy \<Rightarrow> experiment_view \<Rightarrow> dataset \<Rightarrow> candidate list result" where
  "generate_candidates pol ex ds =
     (if experiment_dataset_id ex \<noteq> dataset_id ds
      then Inl (ValueError ''experiment and candidate dataset lineage must match'')
      else collectR (generate_step pol ex ds) (experiment_signals ex))"

section \<open>What holds of every candidate\<close>

definition plan_geometry :: "candidate_action \<Rightarrow> trade_plan \<Rightarrow> bool" where
  "plan_geometry act p \<longleftrightarrow>
     (let zone = plan_zone p; prices = map target_price (plan_targets p) in
      if act = ActionLong
      then invalidation_price p < lower_price zone \<and> (\<forall>x \<in> set prices. upper_price zone < x)
           \<and> sorted_wrt (<) prices
      else if act = ActionShort
      then upper_price zone < invalidation_price p \<and> (\<forall>x \<in> set prices. x < lower_price zone)
           \<and> sorted_wrt (>) prices
      else True)"

lemma validate_plan_geometry_iff: "validate_plan_geometry act p = Inr u \<longleftrightarrow> plan_geometry act p"
proof -
  have up: "(\<forall>(x, y) \<in> set (adjacent ps). x < y) \<longleftrightarrow> sorted_wrt (<) ps"
    and down: "(\<forall>(x, y) \<in> set (adjacent ps). y < x) \<longleftrightarrow> sorted_wrt (>) ps" for ps :: "rat list"
    by (rule adjacent_sorted_wrt, simp)+
  show ?thesis
    unfolding plan_geometry_def up [symmetric] down [symmetric]
    by (auto simp: validate_plan_geometry_def Let_def raising_Inr_iff list_ex_iff not_le)
qed

lemma CandidateEntryZone_Inr:
  "CandidateEntryZone lo hi = Inr z \<longleftrightarrow> z = \<lparr>lower_price = lo, upper_price = hi\<rparr> \<and> 0 < lo \<and> lo \<le> hi"
  by (auto simp: CandidateEntryZone_def bindR_Inr_iff check_fields_Inr_iff raising_Inr_iff)

lemma CandidateTarget_Inr:
  "CandidateTarget l x = Inr t \<longleftrightarrow> t = \<lparr>target_label = l, target_price = x\<rparr> \<and> sized 1 50 l \<and> 0 < x"
  by (auto simp: CandidateTarget_def check_fields_Inr_iff)

lemma CandidateTradePlan_Inr:
  "CandidateTradePlan p = Inr q \<longleftrightarrow> q = p \<and> 0 < invalidation_price p \<and> plan_targets p \<noteq> []
     \<and> distinct (map target_label (plan_targets p)) \<and> distinct (map target_price (plan_targets p))"
  by (auto simp: CandidateTradePlan_def validate_targets_def bindR_Inr_iff check_fields_Inr_iff raising_Inr_iff)

lemma plan_ok_iff:
  "plan_ok p \<longleftrightarrow> 0 < lower_price (plan_zone p) \<and> lower_price (plan_zone p) \<le> upper_price (plan_zone p)
     \<and> (\<forall>t \<in> set (plan_targets p). sized 1 50 (target_label t) \<and> 0 < target_price t)
     \<and> 0 < invalidation_price p \<and> plan_targets p \<noteq> []
     \<and> distinct (map target_label (plan_targets p)) \<and> distinct (map target_price (plan_targets p))"
  by (auto simp: plan_ok_def returns_iff CandidateEntryZone_Inr CandidateTarget_Inr CandidateTradePlan_Inr)

text \<open>A candidate as its validator accepts it, status included.\<close>

definition candidate_checks :: "candidate \<Rightarrow> bool" where
  "candidate_checks c \<longleftrightarrow>
     observed_at c \<le> source_generated_at c \<and> source_generated_at c \<le> cand_created_at c
     \<and> cand_created_at c < valid_until c
     \<and> candidate_id c = build_candidate_id (cand_experiment_id c) (cand_signal_id c) (cand_action c) (horizon_candles c)
     \<and> evidence c \<noteq> [] \<and> distinct (map (\<lambda>e. (evidence_source e, evidence_name e)) (evidence c))
     \<and> (case source_direction c of SignalLong \<Rightarrow> 0 < cand_signal_score c | SignalShort \<Rightarrow> cand_signal_score c < 0
        | SignalNeutral \<Rightarrow> cand_signal_score c = 0)
     \<and> (cand_action c = source_action (source_direction c) \<or> cand_action c = NoTrade)
     \<and> (directional (cand_action c) \<longleftrightarrow> cand_plan c \<noteq> None)
     \<and> (case cand_plan c of None \<Rightarrow> True | Some p \<Rightarrow> plan_geometry (cand_action c) p)"

definition status_checks :: "candidate \<Rightarrow> bool" where
  "status_checks c \<longleftrightarrow>
     (case status_changed_at c of None \<Rightarrow> cand_status c = CANDIDATE
      | Some t \<Rightarrow> cand_status c \<noteq> CANDIDATE \<and> cand_created_at c \<le> t)"

lemma validate_candidate_iff: "validate_candidate c = Inr d \<longleftrightarrow> d = c \<and> candidate_checks c \<and> status_checks c"
proof -
  have dir: "validate_source_direction c = Inr u \<longleftrightarrow>
      (case source_direction c of SignalLong \<Rightarrow> 0 < cand_signal_score c | SignalShort \<Rightarrow> cand_signal_score c < 0
        | SignalNeutral \<Rightarrow> cand_signal_score c = 0)
      \<and> (cand_action c = source_action (source_direction c) \<or> cand_action c = NoTrade)" for u
    by (cases "source_direction c") (auto simp: validate_source_direction_def raising_Inr_iff not_le)
  have plan: "validate_trade_plan c = Inr u \<longleftrightarrow> (directional (cand_action c) \<longleftrightarrow> cand_plan c \<noteq> None)
      \<and> (case cand_plan c of None \<Rightarrow> True | Some p \<Rightarrow> plan_geometry (cand_action c) p)" for u
    by (cases "cand_plan c")
      (auto simp: validate_trade_plan_def bindR_Inr_iff raising_Inr_iff validate_plan_geometry_iff)
  have status: "validate_status c = Inr u \<longleftrightarrow> status_checks c" for u
    by (cases "status_changed_at c")
      (auto simp: validate_status_def status_checks_def raising_Inr_iff not_less)
  show ?thesis
    by (auto simp: validate_candidate_def bindR_Inr_iff raising_Inr_iff dir plan status candidate_checks_def not_less not_le)
qed

lemma ResearchCandidate_Inr:
  "ResearchCandidate c ca va = Inr d \<longleftrightarrow>
     d = c \<and> ca \<and> va \<and> (\<forall>(n, ok) \<in> set (candidate_fields c True True). ok) \<and> candidate_checks c \<and> status_checks c"
  by (auto simp: ResearchCandidate_def bindR_Inr_iff check_fields_Inr_iff validate_candidate_iff candidate_fields_def)

definition valid_candidate :: "candidate \<Rightarrow> bool" where
  "valid_candidate c \<longleftrightarrow> ResearchCandidate c True True = Inr c"

lemma valid_candidate_iff:
  "valid_candidate c \<longleftrightarrow>
     (\<forall>(n, ok) \<in> set (candidate_fields c True True). ok) \<and> candidate_checks c \<and> status_checks c"
  by (simp add: valid_candidate_def ResearchCandidate_Inr)

text \<open>A directional candidate has a plan with the right geometry.\<close>

lemma directional_plan:
  assumes "valid_candidate c" "directional (cand_action c)"
  obtains p t ts where "cand_plan c = Some p" "plan_ok p" "plan_geometry (cand_action c) p"
    "plan_targets p = t # ts"
proof -
  from assms obtain p where "cand_plan c = Some p" "plan_ok p" "plan_geometry (cand_action c) p"
    by (auto simp: valid_candidate_iff candidate_checks_def candidate_fields_def)
  moreover then obtain t ts where "plan_targets p = t # ts" by (auto simp: plan_ok_iff neq_Nil_conv)
  ultimately show ?thesis by (rule that)
qed

lemma status_update_checks [simp]:
  "candidate_fields (c\<lparr>cand_status := st, status_changed_at := x\<rparr>) a b = candidate_fields c a b"
  "candidate_checks (c\<lparr>cand_status := st, status_changed_at := x\<rparr>) = candidate_checks c"
  "status_checks (c\<lparr>cand_status := st, status_changed_at := Some t\<rparr>)
     \<longleftrightarrow> st \<noteq> CANDIDATE \<and> cand_created_at c \<le> t"
  by (simp_all add: candidate_fields_def candidate_checks_def status_checks_def
      cong: signal_direction.case_cong option.case_cong)

lemma restamped_Inr:
  assumes "valid_candidate c"
  shows "restamped c st t = Inr d \<longleftrightarrow>
    d = c\<lparr>cand_status := st, status_changed_at := Some t\<rparr> \<and> st \<noteq> CANDIDATE \<and> cand_created_at c \<le> t"
  using assms
  by (auto simp: restamped_def ResearchCandidate_Inr valid_candidate_iff)

section \<open>Lifecycle\<close>

inductive candidate_step :: "candidate \<Rightarrow> candidate \<Rightarrow> bool" where
  selects: "select at_time c = Inr c' \<Longrightarrow> candidate_step c c'"
| expires: "mark_stale at_time c = Inr c' \<Longrightarrow> candidate_step c c'"
| invalidates: "invalidate at_time c = Inr c' \<Longrightarrow> candidate_step c c'"

inductive candidate_life :: "candidate \<Rightarrow> bool" where
  built: "candidate_from_signal s eid horizon conf created until plan act why = Inr c \<Longrightarrow> candidate_life c"
| stepped: "candidate_life c \<Longrightarrow> candidate_step c c' \<Longrightarrow> candidate_life c'"

text \<open>The time at which a status was taken is one at which the operation allows it.\<close>

definition status_in_time :: "candidate \<Rightarrow> bool" where
  "status_in_time c \<longleftrightarrow>
     (case cand_status c of
        CANDIDATE \<Rightarrow> status_changed_at c = None
      | SELECTED \<Rightarrow> directional (cand_action c)
          \<and> (\<exists>t. status_changed_at c = Some t \<and> cand_created_at c \<le> t \<and> t < valid_until c)
      | STALE \<Rightarrow> (\<exists>t. status_changed_at c = Some t \<and> valid_until c \<le> t)
      | INVALIDATED \<Rightarrow> (\<exists>t. status_changed_at c = Some t \<and> cand_created_at c \<le> t))"

lemma candidate_timestamp_Inr: "candidate_timestamp v = Inr t \<longleftrightarrow> v = Aware t"
  by (simp add: candidate_timestamp_def to_utc_Inr_iff)

lemma candidate_timestamp_simps [simp]:
  "candidate_timestamp (Aware t) = Inr t" "candidate_timestamp (Naive t) \<noteq> Inr t'"
  by (simp_all add: candidate_timestamp_def)

lemma candidate_timestamp_Naive [simp]: "bindR (candidate_timestamp (Naive t)) f \<noteq> Inr d"
  by (simp add: candidate_timestamp_def)

lemma select_Inr:
  assumes "valid_candidate c"
  shows "select v c = Inr d \<longleftrightarrow> (cand_status c = SELECTED \<and> d = c)
    \<or> (\<exists>t. v = Aware t \<and> is_selectable c t \<and> d = c\<lparr>cand_status := SELECTED, status_changed_at := Some t\<rparr>)"
  using assms by (cases v) (auto simp: select_def restamped_Inr is_selectable_def)

lemma mark_stale_Inr:
  assumes "valid_candidate c"
  shows "mark_stale v c = Inr d \<longleftrightarrow> (cand_status c = STALE \<and> d = c)
    \<or> (\<exists>t. v = Aware t \<and> cand_status c \<in> {CANDIDATE, SELECTED} \<and> valid_until c \<le> t
         \<and> d = c\<lparr>cand_status := STALE, status_changed_at := Some t\<rparr>)"
proof -
  have "cand_created_at c < valid_until c" using assms by (simp add: valid_candidate_iff candidate_checks_def)
  then show ?thesis
    using assms by (cases v) (auto simp: mark_stale_def restamped_Inr)
qed

lemma invalidate_Inr:
  assumes "valid_candidate c"
  shows "invalidate v c = Inr d \<longleftrightarrow> (cand_status c = INVALIDATED \<and> d = c)
    \<or> (\<exists>t. v = Aware t \<and> cand_status c \<in> {CANDIDATE, SELECTED} \<and> cand_created_at c \<le> t
         \<and> d = c\<lparr>cand_status := INVALIDATED, status_changed_at := Some t\<rparr>)"
  using assms by (cases v) (auto simp: invalidate_def restamped_Inr)

text \<open>A step changes the status and its time only, and only forwards.\<close>

lemma candidate_step_cases:
  assumes "candidate_step c c'" "valid_candidate c"
  obtains (same) "c' = c" "cand_status c \<noteq> CANDIDATE"
    | (select) t where "c' = c\<lparr>cand_status := SELECTED, status_changed_at := Some t\<rparr>" "is_selectable c t"
    | (stale) t where "c' = c\<lparr>cand_status := STALE, status_changed_at := Some t\<rparr>"
        "cand_status c \<in> {CANDIDATE, SELECTED}" "valid_until c \<le> t"
    | (invalid) t where "c' = c\<lparr>cand_status := INVALIDATED, status_changed_at := Some t\<rparr>"
        "cand_status c \<in> {CANDIDATE, SELECTED}" "cand_created_at c \<le> t"
  using assms(1)
proof cases
  case (selects v)
  then have "(cand_status c = SELECTED \<and> c' = c)
      \<or> (\<exists>t. is_selectable c t \<and> c' = c\<lparr>cand_status := SELECTED, status_changed_at := Some t\<rparr>)"
    by (auto simp: select_Inr [OF assms(2)])
  then show ?thesis
  proof (elim disjE exE conjE)
    assume "cand_status c = SELECTED" "c' = c" then show thesis by (intro same) simp_all
  next
    fix t assume "is_selectable c t" "c' = c\<lparr>cand_status := SELECTED, status_changed_at := Some t\<rparr>"
    then show thesis by (intro select)
  qed
next
  case (expires v)
  then have "(cand_status c = STALE \<and> c' = c) \<or> (\<exists>t. cand_status c \<in> {CANDIDATE, SELECTED} \<and> valid_until c \<le> t
      \<and> c' = c\<lparr>cand_status := STALE, status_changed_at := Some t\<rparr>)"
    by (auto simp: mark_stale_Inr [OF assms(2)])
  then show ?thesis
  proof (elim disjE exE conjE)
    assume "cand_status c = STALE" "c' = c" then show thesis by (intro same) simp_all
  next
    fix t assume "cand_status c \<in> {CANDIDATE, SELECTED}" "valid_until c \<le> t"
      "c' = c\<lparr>cand_status := STALE, status_changed_at := Some t\<rparr>"
    then show thesis by (intro stale)
  qed
next
  case (invalidates v)
  then have "(cand_status c = INVALIDATED \<and> c' = c) \<or> (\<exists>t. cand_status c \<in> {CANDIDATE, SELECTED}
      \<and> cand_created_at c \<le> t \<and> c' = c\<lparr>cand_status := INVALIDATED, status_changed_at := Some t\<rparr>)"
    by (auto simp: invalidate_Inr [OF assms(2)])
  then show ?thesis
  proof (elim disjE exE conjE)
    assume "cand_status c = INVALIDATED" "c' = c" then show thesis by (intro same) simp_all
  next
    fix t assume "cand_status c \<in> {CANDIDATE, SELECTED}" "cand_created_at c \<le> t"
      "c' = c\<lparr>cand_status := INVALIDATED, status_changed_at := Some t\<rparr>"
    then show thesis by (intro invalid)
  qed
qed

lemma candidate_step_valid:
  assumes "candidate_step c c'" "valid_candidate c" "status_in_time c"
  shows "valid_candidate c'" "status_in_time c'"
proof -
  have "cand_created_at c < valid_until c" using assms(2) by (simp add: valid_candidate_iff candidate_checks_def)
  have "valid_candidate c' \<and> status_in_time c'"
    using assms(1,2)
  proof (cases rule: candidate_step_cases)
    case same
    then show ?thesis using assms by simp
  next
    case (select t)
    then show ?thesis using assms(2) by (simp add: valid_candidate_iff status_in_time_def is_selectable_def)
  next
    case (stale t)
    have "cand_created_at c \<le> t" using stale(3) \<open>cand_created_at c < valid_until c\<close> by linarith
    with stale assms(2) show ?thesis by (simp add: valid_candidate_iff status_in_time_def)
  next
    case (invalid t)
    then show ?thesis using assms(2) by (simp add: valid_candidate_iff status_in_time_def)
  qed
  then show "valid_candidate c'" "status_in_time c'" by simp_all
qed

lemma candidate_from_signal_valid:
  "candidate_from_signal s eid horizon conf created until plan act why = Inr c \<Longrightarrow>
     valid_candidate c \<and> cand_status c = CANDIDATE \<and> status_in_time c"
  by (auto simp: candidate_from_signal_def Let_def bindR_Inr_iff ResearchCandidate_Inr valid_candidate_iff
      status_in_time_def candidate_fields_def split: if_splits)

lemma candidate_life_valid: "candidate_life c \<Longrightarrow> valid_candidate c \<and> status_in_time c"
  by (induction rule: candidate_life.induct)
    (auto dest: candidate_from_signal_valid candidate_step_valid)

section \<open>Candidates of an experiment\<close>

lemma collectR_subseq:
  assumes "\<And>x. x \<in> set xs \<Longrightarrow> returns (f x)" and "\<And>x y. x \<in> set xs \<Longrightarrow> f x = Inr (Some y) \<Longrightarrow> R x y"
  shows "\<exists>ys zs. collectR f xs = Inr ys \<and> subseq zs xs \<and> list_all2 R zs ys"
  using assms
proof (induction xs)
  case (Cons x xs)
  then obtain ys zs where IH: "collectR f xs = Inr ys" "subseq zs xs" "list_all2 R zs ys" by fastforce
  obtain r where r: "f x = Inr r" using Cons.prems(1) [of x] by (auto simp: returns_iff)
  show ?case
  proof (cases r)
    case None
    with IH r show ?thesis by (auto intro: list_emb_Cons)
  next
    case (Some y)
    then have "R x y" using Cons.prems(2) r by simp
    then have "list_all2 R (x # zs) (y # ys)" "subseq (x # zs) (x # xs)" using IH by simp_all
    moreover have "collectR f (x # xs) = Inr (y # ys)" using IH r Some by simp
    ultimately show ?thesis by blast
  qed
qed simp

text \<open>
  Prices with at most eight fractional digits and a reward ratio that is not absurdly small: then
  the target differs from the entry price after rounding.
\<close>

definition money_candle :: "candle \<Rightarrow> bool" where
  "money_candle c \<longleftrightarrow> on_grid 8 (close_price c) \<and> on_grid 8 (low_price c) \<and> on_grid 8 (high_price c)
     \<and> high_price c \<le> 10 ^ 12"

lemma on_grid_mono: "on_grid k x \<Longrightarrow> k \<le> m \<Longrightarrow> on_grid m x"
proof -
  assume g: "on_grid k x" and le: "k \<le> m"
  obtain c where c: "x = of_int c / 10 ^ k" using g by (auto simp: on_grid_iff)
  have "(10 :: rat) ^ m = 10 ^ k * 10 ^ (m - k)" using le by (simp flip: power_add)
  then have "x = of_int (c * 10 ^ (m - k)) / 10 ^ m" by (simp add: c)
  then show "on_grid m x" unfolding on_grid_iff by blast
qed

lemma dround_above:
  assumes "on_grid 8 e" "0 \<le> e" "e \<le> 10 ^ 12" "1 / 10 ^ 14 \<le> x"
  shows "e < dround (e + x)"
proof -
  have g: "on_grid 14 (e + 1 / 10 ^ 14)"
    using on_grid_mono [OF assms(1), of 14] on_grid_frac [of 14 1] by auto
  have "\<bar>e + 1 / 10 ^ 14\<bar> * 10 ^ 14 \<le> 10 ^ 28" using assms(2,3) by simp
  with g have "dround (e + 1 / 10 ^ 14) = e + 1 / 10 ^ 14" by (rule dround_grid)
  moreover have "dround (e + 1 / 10 ^ 14) \<le> dround (e + x)" using assms(4) by (intro dround_mono) simp
  ultimately show ?thesis by simp
qed

lemma dround_below:
  assumes "on_grid 8 e" "0 \<le> e" "e \<le> 10 ^ 12" "1 / 10 ^ 14 \<le> x"
  shows "dround (e - x) < e"
proof -
  have g: "on_grid 14 (e - 1 / 10 ^ 14)"
    using on_grid_mono [OF assms(1), of 14] on_grid_frac [of 14 1] by auto
  have "\<bar>e - 1 / 10 ^ 14\<bar> * 10 ^ 14 \<le> 10 ^ 28" using assms(2,3) by (simp add: abs_if)
  with g have "dround (e - 1 / 10 ^ 14) = e - 1 / 10 ^ 14" by (rule dround_grid)
  moreover have "dround (e - x) \<le> dround (e - 1 / 10 ^ 14)" using assms(4) by (intro dround_mono) simp
  ultimately show ?thesis by simp
qed

lemma unit_risk:
  assumes "on_grid 8 a" "on_grid 8 b" "0 < a" "a \<le> 10 ^ 12" "0 < b" "b \<le> 10 ^ 12"
  shows "dsub a b = a - b" "b < a \<Longrightarrow> 1 / 10 ^ 8 \<le> a - b"
proof -
  have g: "on_grid 8 (a - b)" using assms by auto
  moreover have "\<bar>a - b\<bar> \<le> 10 ^ 12" using assms(3-6) by linarith
  then have "\<bar>a - b\<bar> * 10 ^ 8 \<le> 10 ^ 12 * 10 ^ 8" by (rule mult_right_mono) simp
  then have "\<bar>a - b\<bar> * 10 ^ 8 \<le> 10 ^ 28" by simp
  ultimately show "dsub a b = a - b" unfolding dsub_def by (rule dround_grid)
  assume lt: "b < a"
  obtain c where c: "a - b = of_int c / 10 ^ 8" using g by (auto simp: on_grid_iff)
  with lt have "0 < c" by (simp add: field_simps)
  then have "(1 :: rat) \<le> of_int c" by simp
  then show "1 / 10 ^ 8 \<le> a - b" unfolding c by (simp add: divide_right_mono)
qed

lemma reward_large:
  assumes "1 / 10 ^ 8 \<le> u" "1 / 10 ^ 6 \<le> r" shows "1 / 10 ^ 14 \<le> dmul u r"
proof -
  have "(1 / 10 ^ 8) * (1 / 10 ^ 6) \<le> u * r" using assms by (intro mult_mono) auto
  then have "dround (1 / 10 ^ 14) \<le> dround (u * r)" by (intro dround_mono) simp
  moreover have "dround (1 / 10 ^ 14) = 1 / 10 ^ 14"
    using on_grid_frac [of 14 1] by (intro dround_grid [of 14]) simp_all
  ultimately show ?thesis by (simp add: dmul_def)
qed

text \<open>The plan made for a signal, where one is made.\<close>

definition plan_made :: "generation_policy \<Rightarrow> strategy_signal \<Rightarrow> candle \<Rightarrow> trade_plan option" where
  "plan_made pol s c =
     (let e = close_price c; mk = (\<lambda>inval target. Some \<lparr>plan_zone = \<lparr>lower_price = e, upper_price = e\<rparr>,
        invalidation_price = inval, plan_targets = [\<lparr>target_label = ''target-1'', target_price = target\<rparr>]\<rparr>) in
      case direction s of
        SignalLong \<Rightarrow> (if low_price c < e then mk (low_price c) (dadd e (dmul (e - low_price c) (plan_ratio pol))) else None)
      | SignalShort \<Rightarrow> (let target = dsub e (dmul (high_price c - e) (plan_ratio pol)) in
          if e < high_price c \<and> 0 < target then mk (high_price c) target else None)
      | SignalNeutral \<Rightarrow> None)"

lemma single_target_plan_runs:
  "0 < e \<Longrightarrow> 0 < inval \<Longrightarrow> 0 < target \<Longrightarrow> single_target_plan e inval target =
     Inr (Some \<lparr>plan_zone = \<lparr>lower_price = e, upper_price = e\<rparr>, invalidation_price = inval,
       plan_targets = [\<lparr>target_label = ''target-1'', target_price = target\<rparr>]\<rparr>)"
  by (simp add: single_target_plan_def CandidateEntryZone_def CandidateTarget_def CandidateTradePlan_def
      validate_targets_def raising.simps check_fields_def sized_def)

lemma plan_for_signal_runs:
  assumes "valid_candle c" "money_candle c" "1 / 10 ^ 6 \<le> plan_ratio pol"
  shows "plan_for_signal pol s c = Inr (plan_made pol s c)"
    "plan_made pol s c = Some p \<Longrightarrow> plan_ok p \<and> plan_geometry (source_action (direction s)) p"
proof -
  let ?e = "close_price c"
  have pr: "0 < low_price c" "low_price c \<le> ?e" "?e \<le> high_price c" "high_price c \<le> 10 ^ 12"
    "on_grid 8 ?e" "on_grid 8 (low_price c)" "on_grid 8 (high_price c)"
    using assms(1,2) by (auto simp: valid_candle_iff money_candle_def)
  have e: "0 < ?e" "?e \<le> 10 ^ 12" "0 < high_price c" "low_price c \<le> 10 ^ 12" using pr by linarith+
  note long = unit_risk [OF pr(5,6) e(1,2) pr(1) e(4)] and short = unit_risk [OF pr(7,5) e(3) pr(4) e(1,2)]
  have up: "?e < dadd ?e (dmul (?e - low_price c) (plan_ratio pol))" if lt: "low_price c < ?e"
    using dround_above [OF pr(5) _ e(2) reward_large [OF long(2) [OF lt] assms(3)]] e by (simp add: dadd_def)
  have down: "dsub ?e (dmul (high_price c - ?e) (plan_ratio pol)) < ?e" if lt: "?e < high_price c"
    using dround_below [OF pr(5) _ e(2) reward_large [OF short(2) [OF lt] assms(3)]] e by (simp add: dsub_def)
  have pos: "0 < dadd ?e (dmul (?e - low_price c) (plan_ratio pol))" if lt: "low_price c < ?e"
    using up [OF lt] e(1) by linarith
  show "plan_for_signal pol s c = Inr (plan_made pol s c)"
    using pr e pos
    by (cases "direction s")
      (simp_all add: plan_for_signal_def plan_made_def Let_def long(1) short(1) single_target_plan_runs not_le)
  assume "plan_made pol s c = Some p"
  then show "plan_ok p \<and> plan_geometry (source_action (direction s)) p"
    using up down pos e pr
    by (cases "direction s")
      (auto simp: plan_made_def Let_def plan_ok_iff plan_geometry_def sized_def split: if_splits)
qed


text \<open>What generation needs of an experiment, and what it makes of a signal.\<close>

definition generating :: "experiment_view \<Rightarrow> dataset \<Rightarrow> bool" where
  "generating ex ds \<longleftrightarrow>
     experiment_dataset_id ex = dataset_id ds \<and> has_id_form ''experiment-'' 16 (experiment_id ex)
     \<and> 1 \<le> experiment_horizon ex \<and> research_dataset ds \<and> length (dataset_id ds) \<le> 100
     \<and> (\<forall>c \<in> set (candles ds). money_candle c)
     \<and> (\<forall>s \<in> set (experiment_signals ex). signal_from ds s
          \<and> distinct (map feature_name (features s)) \<and> (\<forall>f \<in> set (features s). sized 1 100 (feature_name f)))"

definition candidate_of :: "experiment_view \<Rightarrow> dataset \<Rightarrow> strategy_signal \<Rightarrow> candidate \<Rightarrow> bool" where
  "candidate_of ex ds s c \<longleftrightarrow>
     valid_candidate c \<and> cand_status c = CANDIDATE \<and> cand_signal_id c = signal_id s
     \<and> cand_experiment_id c = experiment_id ex \<and> cand_dataset_id c = dataset_id ds
     \<and> directional (cand_action c) \<and> cand_action c = source_action (direction s)
     \<and> cand_created_at c = generated_at s \<and> is_selectable c (generated_at s)
     \<and> valid_until c = generated_at s + duration (dataset_timeframe ds) * experiment_horizon ex"

lemma signal_evidence_runs:
  assumes "sized 1 500 (signal_reason s)" "\<forall>f \<in> set (features s). sized 1 100 (feature_name f)"
  shows "signal_evidence s = Inr (\<lparr>evidence_source = ''strategy_signal'', evidence_name = ''reason'',
      evidence_value = None, evidence_note = Some (signal_reason s)\<rparr> # map feature_evidence (features s))"
proof -
  have "mapR (\<lambda>f. CandidateEvidence (feature_evidence f)) (features s) = Inr (map feature_evidence (features s))"
    using assms(2)
    by (intro mapR_total)
      (simp add: CandidateEvidence_def feature_evidence_def check_fields_def evidence_fields_def sized_def raising.simps)
  then show ?thesis
    using assms(1)
    by (simp add: signal_evidence_def CandidateEvidence_def check_fields_def evidence_fields_def sized_def raising.simps)
qed

lemma evidence_accepted:
  assumes "sized 1 500 (signal_reason s)" "\<forall>f \<in> set (features s). sized 1 100 (feature_name f)"
    and "distinct (map feature_name (features s))" and "signal_evidence s = Inr ev"
  shows "list_all (\<lambda>e. returns (CandidateEvidence e)) ev" "ev \<noteq> []"
    "distinct (map (\<lambda>e. (evidence_source e, evidence_name e)) ev)"
proof -
  have ev: "ev = \<lparr>evidence_source = ''strategy_signal'', evidence_name = ''reason'',
      evidence_value = None, evidence_note = Some (signal_reason s)\<rparr> # map feature_evidence (features s)"
    using signal_evidence_runs [OF assms(1,2)] assms(4) by simp
  show "list_all (\<lambda>e. returns (CandidateEvidence e)) ev" "ev \<noteq> []"
    using assms(1,2)
    by (auto simp: ev list_all_iff CandidateEvidence_def feature_evidence_def check_fields_def evidence_fields_def
        sized_def raising.simps)
  show "distinct (map (\<lambda>e. (evidence_source e, evidence_name e)) ev)"
    using assms(3) by (auto simp: ev feature_evidence_def distinct_map inj_on_def comp_def)
qed

lemma candidate_from_signal_runs:
  assumes g: "generating ex ds" and s: "s \<in> set (experiment_signals ex)" and conf: "0 \<le> conf" "conf \<le> 1"
    and plan: "plan_ok p" "plan_geometry (source_action (direction s)) p"
  shows "\<exists>c. candidate_from_signal s (experiment_id ex) (experiment_horizon ex) conf (Aware (generated_at s))
      (Aware (generated_at s + duration (dataset_timeframe ds) * experiment_horizon ex)) (Some p) None None = Inr c
    \<and> candidate_of ex ds s c"
proof -
  have f: "signal_from ds s" "distinct (map feature_name (features s))"
    "\<forall>f \<in> set (features s). sized 1 100 (feature_name f)"
    using g s by (auto simp: generating_def)
  have sig: "StrategySignal s = Inr s" "direction s \<noteq> SignalNeutral" "signal_dataset_id s = dataset_id ds"
    "generated_at s = candle_close_time s"
    using f(1) by (auto simp: signal_from_def)
  have fields: "has_id_form ''signal-'' 16 (signal_id s)" "sized 1 100 (signal_strategy_name s)"
    "sized 1 30 (signal_strategy_version s)" "- 1 \<le> signal_score s" "signal_score s \<le> 1"
    "sized 1 500 (signal_reason s)"
    and score: "case direction s of SignalLong \<Rightarrow> 0 < signal_score s | SignalShort \<Rightarrow> signal_score s < 0
        | SignalNeutral \<Rightarrow> signal_score s = 0"
    using sig(1) by (simp_all add: StrategySignal_Inr_iff signal_fields_def)
  note ev = signal_evidence_runs [OF fields(6) f(3)]
  note evs = evidence_accepted [OF fields(6) f(3,2) ev]
  have horizon: "1 \<le> experiment_horizon ex" and eid: "has_id_form ''experiment-'' 16 (experiment_id ex)"
    and dsid: "sized 1 100 (dataset_id ds)"
    using g by (auto simp: generating_def research_dataset_def sized_def)
  define until where "until = generated_at s + duration (dataset_timeframe ds) * experiment_horizon ex"
  have until: "generated_at s < until"
    using duration_pos [of "dataset_timeframe ds"] horizon by (simp add: until_def)
  have dir: "directional (source_action (direction s))" using sig(2) by (cases "direction s") (simp_all add: directional_def)
  define act where "act = source_action (direction s)"
  define c where "c = \<lparr>candidate_id = build_candidate_id (experiment_id ex) (signal_id s) act (experiment_horizon ex),
           cand_experiment_id = experiment_id ex, cand_dataset_id = signal_dataset_id s,
           cand_signal_id = signal_id s, cand_strategy_name = signal_strategy_name s,
           cand_strategy_version = signal_strategy_version s, cand_pair = signal_pair s,
           cand_timeframe = signal_timeframe s, horizon_candles = experiment_horizon ex,
           observed_at = candle_close_time s, source_generated_at = generated_at s,
           cand_created_at = generated_at s, valid_until = until,
           source_direction = direction s, cand_action = act,
           cand_signal_score = signal_score s, confidence = conf, rationale = signal_reason s,
           evidence = \<lparr>evidence_source = ''strategy_signal'', evidence_name = ''reason'',
             evidence_value = None, evidence_note = Some (signal_reason s)\<rparr> # map feature_evidence (features s),
           cand_plan = Some p, cand_status = CANDIDATE, status_changed_at = None\<rparr>"
  have "has_id_form ''candidate-'' 16 (build_candidate_id a b d e)" for a b d e
    unfolding build_candidate_id_def has_id_form_append by simp
  moreover have "sized 1 1000 (signal_reason s)" using fields(6) by (simp add: sized_def)
  ultimately have "\<forall>(n, ok) \<in> set (candidate_fields c True True). ok"
    using fields eid dsid horizon conf evs(1) plan(1) sig(3) by (simp add: candidate_fields_def c_def)
  moreover have "candidate_checks c"
    using sig(4) until evs(3) score dir plan(2) by (simp add: candidate_checks_def c_def act_def cong: signal_direction.case_cong option.case_cong)
  moreover have "status_checks c" by (simp add: status_checks_def c_def)
  ultimately have rc: "ResearchCandidate c True True = Inr c" by (simp add: ResearchCandidate_Inr)
  then have "candidate_from_signal s (experiment_id ex) (experiment_horizon ex) conf (Aware (generated_at s))
      (Aware until) (Some p) None None = Inr c"
    by (simp add: candidate_from_signal_def Let_def ev c_def act_def)
  moreover have "candidate_of ex ds s c"
    using rc dir until sig(3)
    by (simp add: candidate_of_def valid_candidate_def) (simp add: c_def act_def until_def is_selectable_def)
  ultimately show ?thesis unfolding until_def by blast
qed

lemma source_candle_runs:
  assumes "research_dataset ds" "signal_from ds s"
  obtains c where "c \<in> set (candles ds)" "source_candle s ds = Inr c" "open_time c = candle_open_time s"
    "close_time c = candle_close_time s"
proof -
  obtain c where c: "c \<in> set (candles ds)" "candle_open_time s = open_time c" "candle_close_time s = close_time c"
    using assms(2) by (auto simp: signal_from_def)
  have "sorted_wrt (\<lambda>a b. open_time a < open_time b) (candles ds)"
    using assms(1) candle_series_opens by (auto simp: research_dataset_def)
  moreover obtain us vs where cs: "candles ds = us @ c # vs" using c(1) by (meson split_list)
  ultimately have "\<forall>x \<in> set us \<union> set vs. open_time x \<noteq> open_time c" by (auto simp: sorted_wrt_append)
  then have "filter (\<lambda>x. open_time x = open_time c \<and> close_time x = close_time c) (candles ds) = [c]"
    unfolding cs by (simp add: filter_empty_conv)
  then have "source_candle s ds = Inr c" by (simp add: source_candle_def c(2,3))
  with c show ?thesis by (intro that) simp_all
qed

lemma generate_step_runs:
  assumes g: "generating ex ds" and pol: "CandidateGenerationPolicy conf ratio = Inr pol" "1 / 10 ^ 6 \<le> ratio"
    and s: "s \<in> set (experiment_signals ex)"
  shows "\<exists>r. generate_step pol ex ds s = Inr r \<and> (\<forall>c. r = Some c \<longrightarrow> candidate_of ex ds s c)"
proof -
  have p: "0 \<le> confidence_prior pol" "confidence_prior pol \<le> 1" "1 / 10 ^ 6 \<le> plan_ratio pol"
    using pol by (auto simp: CandidateGenerationPolicy_def check_fields_Inr_iff)
  have f: "signal_from ds s" and ds: "research_dataset ds" using g s by (auto simp: generating_def)
  obtain k where k: "k \<in> set (candles ds)" "source_candle s ds = Inr k"
    using source_candle_runs [OF ds f] by metis
  have mk: "money_candle k" "valid_candle k"
    using g k(1) ds by (auto simp: generating_def research_dataset_def dest: candle_series_valid)
  note plan = plan_for_signal_runs [OF mk(2,1) p(3), of s]
  have line: "validate_signal_lineage s ds = Inr ()" "direction s \<noteq> SignalNeutral"
    using f by (auto simp: validate_signal_lineage_def raising_Inr_iff signal_from_def)
  show ?thesis
  proof (cases "plan_made pol s k")
    case None
    then have "generate_step pol ex ds s = Inr None"
      using line k(2) plan(1) by (simp add: generate_step_def)
    then show ?thesis by auto
  next
    case (Some q)
    note ok = plan(2) [OF Some]
    obtain c where c: "candidate_from_signal s (experiment_id ex) (experiment_horizon ex) (confidence_prior pol)
        (Aware (generated_at s)) (Aware (generated_at s + duration (dataset_timeframe ds) * experiment_horizon ex))
        (Some q) None None = Inr c" "candidate_of ex ds s c"
      using candidate_from_signal_runs [OF g s p(1,2), of q] ok by blast
    then have "generate_step pol ex ds s = Inr (Some c)"
      using line k(2) plan(1) Some by (simp add: generate_step_def)
    with c(2) show ?thesis by auto
  qed
qed

section \<open>A sample experiment\<close>

text \<open>One long signal on a candle that closed above its low.\<close>

definition sample_signal :: strategy_signal where
  "sample_signal = \<lparr>signal_id = build_signal_id ''s'' ''1'' ''dataset-1'' hour_us SignalLong,
     signal_strategy_name = ''s'', signal_strategy_version = ''1'', signal_dataset_id = ''dataset-1'',
     signal_pair = sample_pair, signal_timeframe = HOUR_1, candle_open_time = 0, candle_close_time = hour_us,
     generated_at = hour_us, direction = SignalLong, signal_score = 1, signal_reason = ''up'', features = []\<rparr>"

definition rising_candle :: candle where
  "rising_candle = (sample_candle (0, 10))\<lparr>low_price := 9\<rparr>"

definition rising_dataset :: dataset where
  "rising_dataset = (sample_dataset [10])\<lparr>candles := [rising_candle]\<rparr>"

definition sample_experiment :: experiment_view where
  "sample_experiment = \<lparr>experiment_id = ''experiment-'' @ replicate 16 (CHR ''0''),
     experiment_dataset_id = ''dataset-1'', experiment_horizon = 4, experiment_signals = [sample_signal]\<rparr>"

lemma sample_generating: "generating sample_experiment rising_dataset"
proof -
  have "on_grid 8 (10 :: rat)" "on_grid 8 (9 :: rat)" using on_grid_of_int [of 8 10] on_grid_of_int [of 8 9] by simp_all
  then have m: "money_candle rising_candle"
    by (simp add: money_candle_def rising_candle_def sample_candle_def)
  have v: "valid_candle rising_candle"
    by (simp add: valid_candle_iff rising_candle_def sample_candle_def sized_def)
  have "StrategySignal sample_signal = Inr sample_signal"
    by (simp add: StrategySignal_Inr_iff signal_fields_def sample_signal_def sized_def)
  then have "signal_from rising_dataset sample_signal"
    by (simp add: signal_from_def) (simp add: sample_signal_def rising_dataset_def rising_candle_def sample_candle_def)
  moreover have "has_id_form ''experiment-'' 16 (''experiment-'' @ replicate 16 (CHR ''0''))"
    unfolding has_id_form_append by (simp add: list_all_iff is_lower_hex_def)
  ultimately show ?thesis
    using m v
    by (simp add: generating_def sample_experiment_def research_dataset_def candle_series_def rising_dataset_def)
      (simp add: sample_signal_def)
qed

lemma sample_policy: "CandidateGenerationPolicy (1 / 2) 2 = Inr \<lparr>confidence_prior = 1 / 2, plan_ratio = 2\<rparr>"
  by (simp add: CandidateGenerationPolicy_def check_fields_def)

definition sample_plan :: trade_plan where
  "sample_plan = \<lparr>plan_zone = \<lparr>lower_price = 10, upper_price = 10\<rparr>, invalidation_price = 9,
     plan_targets = [\<lparr>target_label = ''target-1'', target_price = 12\<rparr>]\<rparr>"

lemma sample_candidate:
  obtains c where "candidate_life c" "candidate_of sample_experiment rising_dataset sample_signal c"
    "cand_action c = ActionLong" "confidence c = 1" "cand_signal_score c = 1" "cand_plan c = Some sample_plan"
    "cand_pair c = sample_pair" "cand_timeframe c = HOUR_1"
proof -
  have "plan_made \<lparr>confidence_prior = 1 / 2, plan_ratio = 2\<rparr> sample_signal rising_candle = Some sample_plan"
    by (simp add: plan_made_def sample_signal_def rising_candle_def sample_candle_def sample_plan_def dec_eval)
  moreover have "valid_candle rising_candle" "money_candle rising_candle"
    using sample_generating
    by (auto simp: generating_def rising_dataset_def research_dataset_def candle_series_def)
  ultimately have p: "plan_ok sample_plan" "plan_geometry (source_action (direction sample_signal)) sample_plan"
    using plan_for_signal_runs(2) [of rising_candle "\<lparr>confidence_prior = 1 / 2, plan_ratio = 2\<rparr>" sample_signal sample_plan]
    by simp_all
  from candidate_from_signal_runs [OF sample_generating, of sample_signal 1 sample_plan] p
  obtain c where c: "candidate_from_signal sample_signal (experiment_id sample_experiment) (experiment_horizon sample_experiment)
      1 (Aware (generated_at sample_signal))
      (Aware (generated_at sample_signal + duration (dataset_timeframe rising_dataset) * experiment_horizon sample_experiment))
      (Some sample_plan) None None = Inr c"
    "candidate_of sample_experiment rising_dataset sample_signal c"
    by (auto simp: sample_experiment_def)
  have "cand_plan c = Some sample_plan" "confidence c = 1" "cand_signal_score c = signal_score sample_signal"
    "cand_pair c = signal_pair sample_signal" "cand_timeframe c = signal_timeframe sample_signal"
    using c(1) by (auto simp: candidate_from_signal_def Let_def bindR_Inr_iff ResearchCandidate_Inr)
  moreover have "cand_action c = ActionLong" "signal_score sample_signal = 1" "signal_pair sample_signal = sample_pair"
    "signal_timeframe sample_signal = HOUR_1"
    using c(2) by (simp_all add: candidate_of_def sample_signal_def)
  ultimately show ?thesis using c by (intro that) (auto intro: built)
qed

section \<open>Properties\<close>

text \<open>
  C22: Whatever operations are applied to a candidate built from a signal, it stays valid under its own
  validator, its action never reverses its signal, a long plan has its invalidation below the entry zone
  and its targets above it in increasing order (a short plan mirrored), and its status was taken at a time
  that allows it: selected within the validity window, stale only after it.
\<close>

theorem candidate_lifecycle_valid:
  assumes "candidate_life c"
  shows "ResearchCandidate c True True = Inr c \<and> status_in_time c
    \<and> (cand_action c = source_action (source_direction c) \<or> cand_action c = NoTrade)
    \<and> (directional (cand_action c) \<longrightarrow> (\<exists>p. cand_plan c = Some p \<and> plan_geometry (cand_action c) p))"
  using candidate_life_valid [OF assms]
  by (auto simp: valid_candidate_def [symmetric] valid_candidate_iff candidate_checks_def)

theorem candidate_lifecycle_valid_witness:
  "\<exists>c c'. cand_status c = CANDIDATE \<and> select (Aware (2 * hour_us)) c = Inr c'
     \<and> ResearchCandidate c' True True = Inr c' \<and> status_in_time c'"
proof -
  obtain c where c: "candidate_life c" "candidate_of sample_experiment rising_dataset sample_signal c"
    by (rule sample_candidate)
  have v: "valid_candidate c" "is_selectable c (2 * hour_us)" "cand_status c = CANDIDATE"
    using c(2) by (auto simp: candidate_of_def is_selectable_def sample_signal_def sample_experiment_def rising_dataset_def)
  then obtain c' where s: "select (Aware (2 * hour_us)) c = Inr c'" using select_Inr [OF v(1)] by blast
  then have "candidate_life c'" using c(1) by (blast intro: stepped selects)
  with candidate_lifecycle_valid [of c'] s v(3) show ?thesis by blast
qed

text \<open>
  The generator never raises on the signals of a dataset with money prices: its candidates come from a
  subsequence of the signals, in their order, each one valid, fresh, directional as its signal, and
  selectable from the moment it is created.
\<close>

theorem generate_candidates_sound:
  assumes "generating ex ds" "CandidateGenerationPolicy conf ratio = Inr pol" "1 / 10 ^ 6 \<le> ratio"
  shows "\<exists>cs ss. generate_candidates pol ex ds = Inr cs \<and> subseq ss (experiment_signals ex)
    \<and> list_all2 (candidate_of ex ds) ss cs"
proof -
  have "returns (generate_step pol ex ds s)" if "s \<in> set (experiment_signals ex)" for s
    using generate_step_runs [OF assms that] by (auto simp: returns_iff)
  moreover have "candidate_of ex ds s c"
    if "s \<in> set (experiment_signals ex)" "generate_step pol ex ds s = Inr (Some c)" for s c
    using generate_step_runs [OF assms that(1)] that(2) by auto
  ultimately have "\<exists>cs ss. collectR (generate_step pol ex ds) (experiment_signals ex) = Inr cs
      \<and> subseq ss (experiment_signals ex) \<and> list_all2 (candidate_of ex ds) ss cs"
    by (rule collectR_subseq)
  then show ?thesis using assms(1) by (simp add: generate_candidates_def generating_def)
qed

theorem generate_candidates_sound_witness:
  "\<exists>cs ss. generate_candidates \<lparr>confidence_prior = 1 / 2, plan_ratio = 2\<rparr> sample_experiment rising_dataset = Inr cs
     \<and> subseq ss [sample_signal] \<and> list_all2 (candidate_of sample_experiment rising_dataset) ss cs"
  using generate_candidates_sound [OF sample_generating sample_policy] by (simp add: sample_experiment_def)

end
