(* ===== verification/Ranking.thy ===== *)
theory Ranking
  imports Candidates "HOL-Library.Multiset" "HOL-Library.Char_ord" "HOL-Library.List_Lexorder"
    "HOL-Library.Product_Lexorder"
begin

text \<open>
  The deterministic candidate ranker (\<open>trd_bot/research/candidate_ranking.py\<close>): the weights, the
  three score components, the ranked entries and the result with its validator. Entries are
  ordered by descending score and then by candidate id; ids are compared as Python compares
  strings, character by character.
\<close>

section \<open>Scores\<close>

definition quantize_score :: "rat \<Rightarrow> rat result" where
  "quantize_score v = quantize round_half_up 6 v"

datatype component_name = CONFIDENCE | SIGNAL_STRENGTH | FRESHNESS

record ranking_policy =
  confidence_weight :: rat
  signal_strength_weight :: rat
  freshness_weight :: rat

definition unit_interval :: "rat \<Rightarrow> bool" where
  "unit_interval x \<longleftrightarrow> 0 \<le> x \<and> x \<le> 1"

definition CandidateRankingPolicy :: "rat \<Rightarrow> rat \<Rightarrow> rat \<Rightarrow> ranking_policy result" where
  "CandidateRankingPolicy cw sw fw =
     bindR (check_fields [(''confidence_weight'', unit_interval cw),
         (''signal_strength_weight'', unit_interval sw), (''freshness_weight'', unit_interval fw)]
       \<lparr>confidence_weight = cw, signal_strength_weight = sw, freshness_weight = fw\<rparr>)
       (raising [(dadd (dadd cw sw) fw \<noteq> 1, ValueError ''candidate ranking weights must sum to one'')])"

record score_component =
  comp_name :: component_name
  raw_value :: rat
  weight :: rat
  weighted_value :: rat

definition CandidateRankingComponent :: "score_component \<Rightarrow> score_component result" where
  "CandidateRankingComponent k =
     bindR (check_fields [(''raw_value'', unit_interval (raw_value k)), (''weight'', unit_interval (weight k)),
         (''weighted_value'', unit_interval (weighted_value k))] k) (\<lambda>_.
     bindR (quantize_score (dmul (raw_value k) (weight k))) (\<lambda>expected.
     raising [(weighted_value k \<noteq> expected, ValueError ''candidate ranking weighted value does not match'')] k))"

definition build_component :: "component_name \<Rightarrow> rat \<Rightarrow> rat \<Rightarrow> score_component result" where
  "build_component name raw w =
     bindR (quantize_score raw) (\<lambda>nr.
     bindR (quantize_score w) (\<lambda>nw.
     bindR (quantize_score (dmul nr nw)) (\<lambda>wv.
     CandidateRankingComponent \<lparr>comp_name = name, raw_value = nr, weight = nw, weighted_value = wv\<rparr>)))"

definition freshness_score :: "candidate \<Rightarrow> int \<Rightarrow> rat result" where
  "freshness_score c at_time =
     (let total_microseconds = valid_until c - cand_created_at c;
          remaining_microseconds = valid_until c - at_time in
      if total_microseconds \<le> 0 then Inl (ValueError ''candidate lifetime must be positive'')
      else if remaining_microseconds \<le> 0 then Inr 0
      else bindR (ddiv (of_int remaining_microseconds) (of_int total_microseconds)) quantize_score)"

definition total_of :: "score_component list \<Rightarrow> rat result" where
  "total_of ks = quantize_score (dsum (map weighted_value ks))"

record scored_candidate =
  scored :: candidate
  scored_total :: rat
  scored_components :: "score_component list"

definition score_candidate :: "ranking_policy \<Rightarrow> int \<Rightarrow> candidate \<Rightarrow> scored_candidate result" where
  "score_candidate pol at_time c =
     bindR (quantize_score (confidence c)) (\<lambda>conf.
     bindR (quantize_score (dabs (cand_signal_score c))) (\<lambda>strength.
     bindR (freshness_score c at_time) (\<lambda>fresh.
     bindR (build_component CONFIDENCE conf (confidence_weight pol)) (\<lambda>k1.
     bindR (build_component SIGNAL_STRENGTH strength (signal_strength_weight pol)) (\<lambda>k2.
     bindR (build_component FRESHNESS fresh (freshness_weight pol)) (\<lambda>k3.
     bindR (total_of [k1, k2, k3]) (\<lambda>total.
     Inr \<lparr>scored = c, scored_total = total, scored_components = [k1, k2, k3]\<rparr>)))))))"

section \<open>Entries and the result\<close>

record ranking_entry =
  entry_rank :: int
  entry_candidate :: candidate
  entry_total :: rat
  entry_components :: "score_component list"

definition CandidateRankingEntry :: "ranking_entry \<Rightarrow> ranking_entry result" where
  "CandidateRankingEntry e =
     bindR (check_fields [(''rank'', 1 \<le> entry_rank e), (''total_score'', unit_interval (entry_total e))] e) (\<lambda>_.
     bindR (raising
       [(\<not> distinct (map comp_name (entry_components e)),
           ValueError ''candidate ranking component names must be unique''),
        (set (map comp_name (entry_components e)) \<noteq> {CONFIDENCE, SIGNAL_STRENGTH, FRESHNESS},
           ValueError ''candidate ranking entry requires every score component'')] ()) (\<lambda>_.
     bindR (total_of (entry_components e)) (\<lambda>expected_total.
     raising [(entry_total e \<noteq> expected_total,
        ValueError ''candidate ranking total does not match its components'')] e)))"

definition entry_key :: "ranking_entry \<Rightarrow> rat \<times> string" where
  "entry_key e = (- entry_total e, candidate_id (entry_candidate e))"

record ranking_result =
  ranked_at :: int
  ranked_policy :: ranking_policy
  total_candidates :: int
  eligible_count :: int
  excluded_count :: int
  ranked_entries :: "ranking_entry list"

definition CandidateRankingResult :: "ranking_result \<Rightarrow> ranking_result result" where
  "CandidateRankingResult r =
     bindR (check_fields [(''total_candidates'', 0 \<le> total_candidates r),
         (''eligible_count'', 0 \<le> eligible_count r), (''excluded_count'', 0 \<le> excluded_count r)] r)
       (raising
         [(eligible_count r + excluded_count r \<noteq> total_candidates r,
             ValueError ''candidate ranking counts do not reconcile''),
          (int (length (ranked_entries r)) \<noteq> eligible_count r,
             ValueError ''candidate ranking entries do not match eligible count''),
          (map entry_rank (ranked_entries r) \<noteq> map int [1..<length (ranked_entries r) + 1],
             ValueError ''candidate ranking ranks must be contiguous''),
          (map entry_total (ranked_entries r) \<noteq> rev (sort (map entry_total (ranked_entries r))),
             ValueError ''candidate ranking entries must be score ordered''),
          (ranked_entries r \<noteq> sort_key entry_key (ranked_entries r),
             ValueError ''candidate ranking ties must use candidate ID ascending'')])"

definition scored_key :: "scored_candidate \<Rightarrow> rat \<times> string" where
  "scored_key s = (- scored_total s, candidate_id (scored s))"

definition entry_of :: "int \<times> scored_candidate \<Rightarrow> ranking_entry result" where
  "entry_of row = (case row of (index, s) \<Rightarrow> CandidateRankingEntry
     \<lparr>entry_rank = index, entry_candidate = scored s, entry_total = scored_total s,
      entry_components = scored_components s\<rparr>)"

definition rank_candidates :: "ranking_policy \<Rightarrow> candidate list \<Rightarrow> timestamp \<Rightarrow> ranking_result result" where
  "rank_candidates pol cands at_time =
     bindR (candidate_timestamp at_time) (\<lambda>t.
     bindR (mapR (score_candidate pol t) (filter (\<lambda>c. is_selectable c t) cands)) (\<lambda>ss.
     bindR (mapR entry_of (enumerate_from 1 (sort_key scored_key ss))) (\<lambda>entries.
     CandidateRankingResult \<lparr>ranked_at = t, ranked_policy = pol, total_candidates = int (length cands),
       eligible_count = int (length entries), excluded_count = int (length cands) - int (length entries),
       ranked_entries = entries\<rparr>)))"

section \<open>Scores in exact arithmetic\<close>

definition to_score :: "rat \<Rightarrow> rat" where
  "to_score x = of_int (round_half_up (x * 10 ^ 6)) / 10 ^ 6"

lemma to_score_grid [simp]: "on_grid 6 (to_score x)"
  unfolding to_score_def by (rule on_grid_frac)

lemma quantize_score_unit:
  assumes "unit_interval x"
  shows "quantize_score x = Inr (to_score x)" "unit_interval (to_score x)"
proof -
  have "\<bar>x\<bar> * 10 ^ 6 \<le> 10 ^ 28 - 2" using assms by (simp add: unit_interval_def)
  then obtain y where y: "quantize round_half_up 6 x = Inr y" by (rule half_up.quantize_returns)
  have "y = to_score x" using half_up.quantize_result(3) [OF y] by (simp add: to_score_def)
  with y show "quantize_score x = Inr (to_score x)" by (simp add: quantize_score_def)
  have "0 \<le> y \<and> y \<le> 1" using half_up.quantize_between [OF y, of 0 1] assms by (simp add: unit_interval_def)
  then show "unit_interval (to_score x)" using \<open>y = to_score x\<close> by (simp add: unit_interval_def)
qed

lemma to_score_le:
  assumes "0 \<le> x" "x \<le> w" "on_grid 6 w" "w \<le> 1" shows "0 \<le> to_score x" "to_score x \<le> w"
proof -
  have u: "unit_interval x" using assms by (simp add: unit_interval_def)
  have q: "quantize round_half_up 6 x = Inr (to_score x)"
    using quantize_score_unit(1) [OF u] by (simp add: quantize_score_def)
  show "0 \<le> to_score x" "to_score x \<le> w"
    using half_up.quantize_between [OF q, of 0 w] assms by simp_all
qed

lemma to_score_fixed: "on_grid 6 x \<Longrightarrow> to_score x = x"
  by (auto simp: on_grid_iff to_score_def round_half_up_of_int)

lemma dmul_unit:
  assumes "unit_interval r" "unit_interval w" "on_grid 6 w" shows "0 \<le> dmul r w" "dmul r w \<le> w"
proof -
  have w: "0 \<le> w" "dround w = w"
    using assms dround_grid [of 6 w] by (auto simp: unit_interval_def)
  have "0 \<le> r * w" "r * w \<le> w" using assms(1) w(1) by (auto simp: unit_interval_def mult_left_le_one_le)
  then show "0 \<le> dmul r w" "dmul r w \<le> w"
    using dc.rnd_nonneg dround_mono [of "r * w" w] w(2) by (simp_all add: dmul_def)
qed

lemma build_component_runs:
  assumes "unit_interval r" "on_grid 6 r" "unit_interval w" "on_grid 6 w"
  shows "build_component name r w =
      Inr \<lparr>comp_name = name, raw_value = r, weight = w, weighted_value = to_score (dmul r w)\<rparr>"
    "0 \<le> to_score (dmul r w)" "to_score (dmul r w) \<le> w"
proof -
  note d = dmul_unit [OF assms(1,3,4)]
  have w: "w \<le> 1" using assms(3) by (simp add: unit_interval_def)
  have u: "unit_interval (dmul r w)" using d w by (simp add: unit_interval_def)
  show "0 \<le> to_score (dmul r w)" "to_score (dmul r w) \<le> w"
    using to_score_le [OF d assms(4) w] by simp_all
  show "build_component name r w =
      Inr \<lparr>comp_name = name, raw_value = r, weight = w, weighted_value = to_score (dmul r w)\<rparr>"
    using quantize_score_unit [OF assms(1)] quantize_score_unit [OF assms(3)] quantize_score_unit [OF u] assms
    by (simp add: build_component_def to_score_fixed CandidateRankingComponent_def check_fields_def raising.simps)
qed

text \<open>The three normalized inputs of a score.\<close>

definition freshness_of :: "candidate \<Rightarrow> int \<Rightarrow> rat" where
  "freshness_of c t = to_score (dquot (of_int (valid_until c - t)) (of_int (valid_until c - cand_created_at c)))"

lemma freshness_runs:
  assumes "is_selectable c t"
  shows "freshness_score c t = Inr (freshness_of c t)" "unit_interval (freshness_of c t)" "on_grid 6 (freshness_of c t)"
proof -
  let ?r = "of_int (valid_until c - t) :: rat" and ?n = "of_int (valid_until c - cand_created_at c) :: rat"
  have "0 < valid_until c - t" "valid_until c - t \<le> valid_until c - cand_created_at c"
    using assms by (auto simp: is_selectable_def)
  then have rn: "0 < ?r" "?r \<le> ?n" by (simp_all only: of_int_0_less_iff of_int_le_iff)
  then have "0 \<le> ?r / ?n" "?r / ?n \<le> 1" by (simp_all add: field_simps)
  then have u: "unit_interval (dquot ?r ?n)"
    using dc.rnd_unit_interval by (simp add: dquot_def unit_interval_def)
  have "ddiv ?r ?n = Inr (dquot ?r ?n)" using rn by (intro ddiv_nonzero) linarith
  then show "freshness_score c t = Inr (freshness_of c t)"
    using assms quantize_score_unit(1) [OF u]
    by (simp add: freshness_score_def freshness_of_def Let_def is_selectable_def)
  show "unit_interval (freshness_of c t)" "on_grid 6 (freshness_of c t)"
    using quantize_score_unit(2) [OF u] by (simp_all add: freshness_of_def)
qed

text \<open>The total a policy gives a candidate.\<close>

definition weighted_of :: "rat \<Rightarrow> rat \<Rightarrow> rat" where
  "weighted_of raw w = to_score (dmul raw w)"

definition score_of :: "ranking_policy \<Rightarrow> int \<Rightarrow> candidate \<Rightarrow> rat" where
  "score_of pol t c =
     weighted_of (to_score (confidence c)) (confidence_weight pol)
     + weighted_of (to_score (dabs (cand_signal_score c))) (signal_strength_weight pol)
     + weighted_of (freshness_of c t) (freshness_weight pol)"

text \<open>Weights with at most six digits, as the score components hold them.\<close>

definition exact_weights :: "ranking_policy \<Rightarrow> bool" where
  "exact_weights pol \<longleftrightarrow>
     unit_interval (confidence_weight pol) \<and> unit_interval (signal_strength_weight pol)
     \<and> unit_interval (freshness_weight pol) \<and> on_grid 6 (confidence_weight pol)
     \<and> on_grid 6 (signal_strength_weight pol) \<and> on_grid 6 (freshness_weight pol)
     \<and> confidence_weight pol + signal_strength_weight pol + freshness_weight pol = 1"

lemma policy_exact:
  assumes "CandidateRankingPolicy cw sw fw = Inr pol" "on_grid 6 cw" "on_grid 6 sw" "on_grid 6 fw"
  shows "exact_weights pol"
proof -
  have u: "unit_interval cw" "unit_interval sw" "unit_interval fw" and sum: "dadd (dadd cw sw) fw = 1"
    and pol: "pol = \<lparr>confidence_weight = cw, signal_strength_weight = sw, freshness_weight = fw\<rparr>"
    using assms(1) by (auto simp: CandidateRankingPolicy_def bindR_Inr_iff check_fields_Inr_iff raising_Inr_iff)
  have "on_grid 6 (cw + sw)" "on_grid 6 (cw + sw + fw)" using assms(2-4) by auto
  moreover have "\<bar>cw + sw\<bar> * 10 ^ 6 \<le> 10 ^ 28" "\<bar>cw + sw + fw\<bar> * 10 ^ 6 \<le> 10 ^ 28"
    using u by (simp_all add: unit_interval_def)
  ultimately have "dround (cw + sw) = cw + sw" "dround (cw + sw + fw) = cw + sw + fw"
    using dround_grid by blast+
  with sum have "cw + sw + fw = 1" by (simp add: dadd_def)
  with u assms(2-4) show ?thesis by (simp add: exact_weights_def pol)
qed

definition components_of :: "ranking_policy \<Rightarrow> int \<Rightarrow> candidate \<Rightarrow> score_component list" where
  "components_of pol t c =
     [\<lparr>comp_name = CONFIDENCE, raw_value = to_score (confidence c), weight = confidence_weight pol,
       weighted_value = weighted_of (to_score (confidence c)) (confidence_weight pol)\<rparr>,
      \<lparr>comp_name = SIGNAL_STRENGTH, raw_value = to_score (dabs (cand_signal_score c)), weight = signal_strength_weight pol,
       weighted_value = weighted_of (to_score (dabs (cand_signal_score c))) (signal_strength_weight pol)\<rparr>,
      \<lparr>comp_name = FRESHNESS, raw_value = freshness_of c t, weight = freshness_weight pol,
       weighted_value = weighted_of (freshness_of c t) (freshness_weight pol)\<rparr>]"

lemma score_candidate_runs:
  assumes pol: "exact_weights pol" and c: "valid_candidate c" "is_selectable c t"
  shows "score_candidate pol t c = Inr \<lparr>scored = c, scored_total = score_of pol t c,
      scored_components = components_of pol t c\<rparr>"
    "unit_interval (score_of pol t c)" "on_grid 6 (score_of pol t c)"
    "total_of (components_of pol t c) = Inr (score_of pol t c)"
proof -
  have cs: "unit_interval (confidence c)" "\<bar>cand_signal_score c\<bar> \<le> 1"
    using c(1) by (auto simp: valid_candidate_iff candidate_fields_def unit_interval_def abs_le_iff)
  then have ds: "unit_interval (dabs (cand_signal_score c))"
    using dc.rnd_unit_interval by (simp add: dabs_def unit_interval_def)
  note q1 = quantize_score_unit [OF cs(1)] and q2 = quantize_score_unit [OF ds] and q3 = freshness_runs [OF c(2)]
  have w: "unit_interval (confidence_weight pol)" "unit_interval (signal_strength_weight pol)"
    "unit_interval (freshness_weight pol)" "on_grid 6 (confidence_weight pol)" "on_grid 6 (signal_strength_weight pol)"
    "on_grid 6 (freshness_weight pol)"
    and sum: "confidence_weight pol + signal_strength_weight pol + freshness_weight pol = 1"
    using pol by (simp_all add: exact_weights_def)
  note b1 = build_component_runs [OF q1(2) to_score_grid w(1,4)]
    and b2 = build_component_runs [OF q2(2) to_score_grid w(2,5)]
    and b3 = build_component_runs [OF q3(2,3) w(3,6)]
  let ?t = "score_of pol t c"
  have range: "0 \<le> ?t" "?t \<le> 1"
    using b1(2,3) b2(2,3) b3(2,3) sum unfolding score_of_def weighted_of_def by linarith+
  then show u: "unit_interval ?t" by (simp add: unit_interval_def)
  show g: "on_grid 6 ?t" unfolding score_of_def weighted_of_def by (intro on_grid_add) simp_all
  have "dsum (map weighted_value (components_of pol t c)) = sum_list (map weighted_value (components_of pol t c))"
  proof (rule dsum_grid)
    show "\<forall>x\<in>set (map weighted_value (components_of pol t c)). on_grid 6 x"
      by (simp add: components_of_def weighted_of_def)
    show "sum_list (map abs (map weighted_value (components_of pol t c))) * 10 ^ 6 \<le> 10 ^ 28"
      using range b1(2) b2(2) b3(2) by (simp add: components_of_def weighted_of_def score_of_def)
  qed
  then have "dsum (map weighted_value (components_of pol t c)) = ?t"
    by (simp add: components_of_def score_of_def)
  then show tot: "total_of (components_of pol t c) = Inr ?t"
    using quantize_score_unit(1) [OF u] g by (simp add: total_of_def to_score_fixed)
  then show "score_candidate pol t c = Inr \<lparr>scored = c, scored_total = ?t, scored_components = components_of pol t c\<rparr>"
    using q1(1) q2(1) q3(1) b1(1) b2(1) b3(1)
    by (simp add: score_candidate_def components_of_def weighted_of_def)
qed

section \<open>The ranking\<close>

lemma sort_key_map: "sort_key k (map g xs) = map g (sort_key (\<lambda>x. k (g x)) xs)"
proof (induction xs)
  case (Cons x xs)
  have "insort_key k (g x) (map g ys) = map g (insort_key (\<lambda>x. k (g x)) x ys)" for ys
    by (induction ys) simp_all
  with Cons show ?case by simp
qed simp

definition rank_key :: "ranking_policy \<Rightarrow> int \<Rightarrow> candidate \<Rightarrow> rat \<times> string" where
  "rank_key pol t c = (- score_of pol t c, candidate_id c)"

definition ranked_order :: "ranking_policy \<Rightarrow> int \<Rightarrow> candidate list \<Rightarrow> candidate list" where
  "ranked_order pol t cands = sort_key (rank_key pol t) (filter (\<lambda>c. is_selectable c t) cands)"

definition entry_for :: "ranking_policy \<Rightarrow> int \<Rightarrow> int \<times> candidate \<Rightarrow> ranking_entry" where
  "entry_for pol t row = \<lparr>entry_rank = fst row, entry_candidate = snd row, entry_total = score_of pol t (snd row),
     entry_components = components_of pol t (snd row)\<rparr>"

lemma enumerate_from_map: "enumerate_from n (map g xs) = map (\<lambda>(i, x). (i, g x)) (enumerate_from n xs)"
  by (induction xs arbitrary: n) simp_all

lemma map_snd_enumerate: "map (\<lambda>r. f (snd r)) (enumerate_from n xs) = map f xs"
  by (induction xs arbitrary: n) simp_all

lemma map_fst_enumerate: "map fst (enumerate_from 1 xs) = map int [1..<length xs + 1]"
proof -
  have "map (\<lambda>i. 1 + int i) [0..<length xs] = map int (map Suc [0..<length xs])" by simp
  then show ?thesis by (simp add: enumerate_from_def map_Suc_upt del: upt_Suc)
qed

lemma enumerate_from_members: "r \<in> set (enumerate_from n xs) \<Longrightarrow> snd r \<in> set xs \<and> n \<le> fst r"
  using enumerate_from_late [of r n xs] by (cases r) (auto simp: enumerate_from_def dest: set_zip_rightD)

lemma entry_accepted:
  assumes "unit_interval (score_of pol t c)" "total_of (components_of pol t c) = Inr (score_of pol t c)" "1 \<le> i"
  shows "CandidateRankingEntry (entry_for pol t (i, c)) = Inr (entry_for pol t (i, c))"
proof -
  have "map comp_name (components_of pol t c) = [CONFIDENCE, SIGNAL_STRENGTH, FRESHNESS]"
    by (simp add: components_of_def)
  then show ?thesis
    using assms by (simp add: CandidateRankingEntry_def entry_for_def check_fields_def raising.simps insert_commute)
qed

lemma rank_runs:
  fixes t :: int
  assumes pol: "exact_weights pol" and cs: "\<forall>c \<in> set cands. valid_candidate c"
  defines "order \<equiv> ranked_order pol t cands"
  shows "rank_candidates pol cands (Aware t) = Inr \<lparr>ranked_at = t, ranked_policy = pol,
      total_candidates = int (length cands), eligible_count = int (length order),
      excluded_count = int (length cands) - int (length order),
      ranked_entries = map (entry_for pol t) (enumerate_from 1 order)\<rparr>"
proof -
  let ?el = "filter (\<lambda>c. is_selectable c t) cands"
  let ?sc = "\<lambda>c. \<lparr>scored = c, scored_total = score_of pol t c, scored_components = components_of pol t c\<rparr>"
  let ?es = "map (entry_for pol t) (enumerate_from 1 order)"
  have members: "c \<in> set order \<Longrightarrow> valid_candidate c \<and> is_selectable c t" for c
    using cs by (auto simp: order_def ranked_order_def)
  have scores: "mapR (score_candidate pol t) ?el = Inr (map ?sc ?el)"
    using cs score_candidate_runs(1) [OF pol] by (intro mapR_total) auto
  have sorted: "sort_key scored_key (map ?sc ?el) = map ?sc order"
    by (simp add: sort_key_map scored_key_def order_def ranked_order_def rank_key_def [abs_def])
  have "entry_of (i, ?sc c) = Inr (entry_for pol t (i, c))" if "c \<in> set order" "1 \<le> i" for i c
    using entry_accepted [of pol t c i] score_candidate_runs(2,4) [OF pol] members [OF that(1)] that(2)
    by (simp add: entry_of_def entry_for_def)
  then have "mapR entry_of (enumerate_from 1 (map ?sc order))
      = Inr (map (\<lambda>r. entry_for pol t r) (enumerate_from 1 order))"
    unfolding mapR_Inr_iff list_all2_map1 list_all2_map2 enumerate_from_map
    by (auto simp: list_all2_same dest!: enumerate_from_members)
  then have entries: "mapR entry_of (enumerate_from 1 (sort_key scored_key (map ?sc ?el))) = Inr ?es"
    by (simp add: sorted)
  have keys: "map entry_key ?es = map (rank_key pol t) order"
    by (simp add: entry_key_def entry_for_def rank_key_def comp_def map_snd_enumerate [of "\<lambda>c. (- score_of pol t c, candidate_id c)"])
  have sk: "sorted (map (rank_key pol t) order)" by (simp add: order_def ranked_order_def)
  then have ties: "sort_key entry_key ?es = ?es" by (intro sort_key_id_if_sorted) (simp only: keys)
  have totals: "map entry_total ?es = map (score_of pol t) order"
    by (simp add: entry_for_def comp_def map_snd_enumerate)
  have "sorted_wrt (\<lambda>x y. score_of pol t y \<le> score_of pol t x) order"
    using sk unfolding sorted_map by (rule sorted_wrt_mono_rel [rotated]) (auto simp: rank_key_def less_eq_prod_def)
  then have "sorted (rev (map (score_of pol t) order))" by (simp add: sorted_wrt_rev sorted_wrt_map)
  then have "sort (map (score_of pol t) order) = rev (map (score_of pol t) order)"
    by (intro properties_for_sort) simp_all
  then have desc: "map entry_total ?es = rev (sort (map entry_total ?es))" by (simp only: totals rev_rev_ident)
  have ranks: "map entry_rank ?es = map int [1..<length ?es + 1]"
    using map_fst_enumerate [of order] by (simp add: entry_for_def comp_def del: upt_Suc)
  have "length order \<le> length cands" by (simp add: order_def ranked_order_def)
  then show ?thesis
    using scores entries ranks desc ties
    by (simp add: rank_candidates_def CandidateRankingResult_def check_fields_def raising_Inr_iff del: upt_Suc map_map)
qed

section \<open>Properties\<close>

text \<open>
  C23: For every policy whose three weights have at most six digits, and valid candidates, ranking returns: it
  ranks exactly the candidates that are selectable at that time, numbers them 1, 2, ..., gives each the
  weighted sum of its three components, a score between 0 and 1, orders them by descending score and then
  ascending id, and counts the others as excluded. With finer weights it can raise, as shown below.
\<close>

theorem ranking_complete_and_ordered:
  assumes "CandidateRankingPolicy cw sw fw = Inr pol" "on_grid 6 cw" "on_grid 6 sw" "on_grid 6 fw"
    and "\<forall>c \<in> set cands. valid_candidate c"
  shows "\<exists>r. rank_candidates pol cands (Aware t) = Inr r
    \<and> mset (map entry_candidate (ranked_entries r)) = mset (filter (\<lambda>c. is_selectable c t) cands)
    \<and> map entry_rank (ranked_entries r) = map int [1..<length (ranked_entries r) + 1]
    \<and> sorted (map entry_key (ranked_entries r))
    \<and> (\<forall>e \<in> set (ranked_entries r). entry_total e = score_of pol t (entry_candidate e) \<and> unit_interval (entry_total e))
    \<and> excluded_count r = int (length (filter (\<lambda>c. \<not> is_selectable c t) cands))"
proof -
  have pol: "exact_weights pol" using assms(1-4) by (rule policy_exact)
  let ?o = "ranked_order pol t cands"
  have len: "length cands = length ?o + length (filter (\<lambda>c. \<not> is_selectable c t) cands)"
    using sum_length_filter_compl [of "\<lambda>c. is_selectable c t" cands] by (simp add: ranked_order_def)
  have cand: "map entry_candidate (map (entry_for pol t) (enumerate_from 1 ?o)) = ?o"
    by (simp add: entry_for_def comp_def map_snd_enumerate [of "\<lambda>x. x", simplified])
  have keys: "map entry_key (map (entry_for pol t) (enumerate_from 1 ?o)) = map (rank_key pol t) ?o"
    by (simp add: entry_key_def entry_for_def rank_key_def comp_def map_snd_enumerate [of "\<lambda>c. (- score_of pol t c, candidate_id c)"])
  have ranks: "map entry_rank (map (entry_for pol t) (enumerate_from 1 ?o)) = map int [1..<length ?o + 1]"
    using map_fst_enumerate [of ?o] by (simp add: entry_for_def comp_def del: upt_Suc)
  have units: "unit_interval (score_of pol t c)" if "c \<in> set ?o" for c
    using that assms(5) score_candidate_runs(2) [OF pol] by (auto simp: ranked_order_def)
  let ?es = "map (entry_for pol t) (enumerate_from 1 ?o)"
  have "mset (map entry_candidate ?es) = mset (filter (\<lambda>c. is_selectable c t) cands)"
    unfolding cand by (simp add: ranked_order_def)
  moreover have "sorted (map entry_key ?es)" unfolding keys by (simp add: ranked_order_def)
  moreover have "map entry_rank ?es = map int [1..<length ?es + 1]" using ranks by (simp only: length_map length_enumerate_from)
  moreover have "\<forall>e \<in> set ?es. entry_total e = score_of pol t (entry_candidate e) \<and> unit_interval (entry_total e)"
    using units by (auto simp: entry_for_def dest!: enumerate_from_members)
  moreover have "int (length cands) - int (length ?o) = int (length (filter (\<lambda>c. \<not> is_selectable c t) cands))"
    using len by simp
  ultimately show ?thesis
    using rank_runs [OF pol assms(5), of t] by (intro exI conjI) (assumption | simp only: ranking_result.simps)+
qed

lemma sample_weights:
  "CandidateRankingPolicy (9 / 20) (7 / 20) (1 / 5) =
     Inr \<lparr>confidence_weight = 9 / 20, signal_strength_weight = 7 / 20, freshness_weight = 1 / 5\<rparr>"
  "on_grid 6 (9 / 20)" "on_grid 6 (7 / 20)" "on_grid 6 (1 / 5)"
  by (simp_all add: CandidateRankingPolicy_def check_fields_def unit_interval_def raising.simps dec_eval)

lemma sample_selectable:
  obtains c where "valid_candidate c" "is_selectable c hour_us" "cand_created_at c = hour_us"
    "confidence c = 1" "cand_signal_score c = 1" "cand_plan c = Some sample_plan" "cand_action c = ActionLong"
    "cand_dataset_id c = ''dataset-1''" "valid_until c = 5 * hour_us" "candidate_life c"
    "cand_pair c = sample_pair" "cand_timeframe c = HOUR_1"
proof -
  obtain c where c: "candidate_life c" "candidate_of sample_experiment rising_dataset sample_signal c"
    "cand_action c = ActionLong" "confidence c = 1" "cand_signal_score c = 1" "cand_plan c = Some sample_plan"
    "cand_pair c = sample_pair" "cand_timeframe c = HOUR_1"
    by (rule sample_candidate)
  then show ?thesis
    by (intro that [of c]) (auto simp: candidate_of_def sample_signal_def rising_dataset_def sample_experiment_def)
qed

theorem ranking_complete_and_ordered_witness:
  "\<exists>c r. rank_candidates \<lparr>confidence_weight = 9 / 20, signal_strength_weight = 7 / 20, freshness_weight = 1 / 5\<rparr>
       [c] (Aware hour_us) = Inr r \<and> mset (map entry_candidate (ranked_entries r)) = {#c#}"
proof -
  obtain c where c: "valid_candidate c" "is_selectable c hour_us" by (rule sample_selectable)
  then show ?thesis
    using ranking_complete_and_ordered [OF sample_weights, of "[c]" hour_us] by auto
qed

text \<open>
  The ranking does not depend on the order in which the candidates arrive, as long as their ids
  are distinct.
\<close>

theorem ranking_order_independent:
  assumes "CandidateRankingPolicy cw sw fw = Inr pol" "on_grid 6 cw" "on_grid 6 sw" "on_grid 6 fw"
    and "\<forall>c \<in> set cands. valid_candidate c" "distinct (map candidate_id cands)" "mset cands' = mset cands"
  shows "rank_candidates pol cands' (Aware t) = rank_candidates pol cands (Aware t)"
proof -
  have pol: "exact_weights pol" using assms(1-4) by (rule policy_exact)
  have set: "set cands' = set cands" using assms(7) by (metis set_mset_mset)
  let ?f = "filter (\<lambda>c. is_selectable c t)"
  have m: "mset (?f cands') = mset (?f cands)" using assms(7) by (simp add: mset_filter)
  have "inj_on candidate_id (set cands)" using assms(6) by (simp add: distinct_map)
  then have "inj_on (rank_key pol t) (set (?f cands))" by (auto simp: inj_on_def rank_key_def)
  then have inj: "inj_on (rank_key pol t) (set (?f cands'))" using set by auto
  have "ranked_order pol t cands' = ranked_order pol t cands"
    unfolding ranked_order_def using inj m by (intro sort_key_inj_key_eq) simp_all
  moreover have "length cands' = length cands" using assms(7) by (metis size_mset)
  ultimately show ?thesis
    using rank_runs [OF pol, of cands t] rank_runs [OF pol, of cands' t] assms(5) set by simp
qed

theorem ranking_order_independent_witness:
  "\<exists>c. is_selectable c hour_us
     \<and> rank_candidates \<lparr>confidence_weight = 9 / 20, signal_strength_weight = 7 / 20, freshness_weight = 1 / 5\<rparr> [c] (Aware hour_us)
       = rank_candidates \<lparr>confidence_weight = 9 / 20, signal_strength_weight = 7 / 20, freshness_weight = 1 / 5\<rparr> (rev [c]) (Aware hour_us)"
proof -
  obtain c where c: "valid_candidate c" "is_selectable c hour_us" by (rule sample_selectable)
  then show ?thesis
    using ranking_order_independent [OF sample_weights, of "rev [c]" "[c]" hour_us] by auto
qed

text \<open>
  Weights are accepted with any number of digits as long as they sum to one, but the ranker rounds each of
  them to six digits: when the rounded weights sum to more than one, ranking a candidate with full
  confidence, score and freshness raises.
\<close>

theorem ranker_rejects_fine_weights:
  assumes "CandidateRankingPolicy cw sw fw = Inr pol" "1 < to_score cw + to_score sw + to_score fw"
    and "valid_candidate c" "is_selectable c (cand_created_at c)" "confidence c = 1" "cand_signal_score c = 1"
  shows "rank_candidates pol [c] (Aware (cand_created_at c)) = Inl (FieldErrors [''total_score''])"
proof -
  let ?t = "cand_created_at c"
  have u: "unit_interval cw" "unit_interval sw" "unit_interval fw"
    and pol: "pol = \<lparr>confidence_weight = cw, signal_strength_weight = sw, freshness_weight = fw\<rparr>"
    using assms(1) by (auto simp: CandidateRankingPolicy_def bindR_Inr_iff check_fields_Inr_iff raising_Inr_iff)
  have one: "unit_interval 1" "to_score 1 = 1" using to_score_fixed [of 1] by (simp_all add: unit_interval_def)
  have q1: "quantize_score 1 = Inr 1" using quantize_score_unit(1) [OF one(1)] one(2) by simp
  have "of_int (valid_until c - ?t) \<noteq> (0 :: rat)" using assms(4) by (simp add: is_selectable_def)
  then have fresh: "freshness_score c ?t = Inr 1"
    using freshness_runs(1) [OF assms(4)] one(2) dc.rnd_one by (simp add: freshness_of_def dquot_def)
  have comp: "build_component name 1 w =
      Inr \<lparr>comp_name = name, raw_value = 1, weight = to_score w, weighted_value = to_score w\<rparr>"
    if w: "unit_interval w" for name w
  proof -
    note q = quantize_score_unit [OF w] and qq = quantize_score_unit [OF quantize_score_unit(2) [OF w]]
    have "\<bar>to_score w\<bar> * 10 ^ 6 \<le> 10 ^ 28" using q(2) by (simp add: unit_interval_def)
    then have "dmul 1 (to_score w) = to_score w" using dround_grid [of 6 "to_score w"] by (simp add: dmul_def)
    then show ?thesis
      using q qq q1 one by (simp add: build_component_def CandidateRankingComponent_def check_fields_def
          raising.simps to_score_fixed)
  qed
  define s where "s = to_score cw + to_score sw + to_score fw"
  let ?ks = "[\<lparr>comp_name = CONFIDENCE, raw_value = 1, weight = to_score cw, weighted_value = to_score cw\<rparr>,
    \<lparr>comp_name = SIGNAL_STRENGTH, raw_value = 1, weight = to_score sw, weighted_value = to_score sw\<rparr>,
    \<lparr>comp_name = FRESHNESS, raw_value = 1, weight = to_score fw, weighted_value = to_score fw\<rparr>]"
  have range: "0 \<le> to_score cw" "to_score cw \<le> 1" "0 \<le> to_score sw" "to_score sw \<le> 1" "0 \<le> to_score fw" "to_score fw \<le> 1"
    using quantize_score_unit(2) [OF u(1)] quantize_score_unit(2) [OF u(2)] quantize_score_unit(2) [OF u(3)]
    by (simp_all add: unit_interval_def)
  have "dsum (map weighted_value ?ks) = sum_list (map weighted_value ?ks)"
    using range by (intro dsum_grid [of _ 6]) simp_all
  moreover have "on_grid 6 s" by (simp add: s_def on_grid_add)
  then have "quantize_score s = Inr s"
    unfolding quantize_score_def using range by (intro half_up.quantize_grid) (simp_all add: s_def)
  ultimately have total: "total_of ?ks = Inr s" by (simp add: total_of_def s_def add.assoc)
  have "score_candidate pol ?t c = Inr \<lparr>scored = c, scored_total = s, scored_components = ?ks\<rparr>"
    using comp [OF u(1), of CONFIDENCE] comp [OF u(2), of SIGNAL_STRENGTH] comp [OF u(3), of FRESHNESS] q1 fresh total
      assms(5,6) dc.rnd_one
    by (simp add: score_candidate_def pol dabs_def)
  then show ?thesis
    using assms(2,4) by (simp add: rank_candidates_def entry_of_def CandidateRankingEntry_def check_fields_def
        unit_interval_def s_def)
qed

theorem ranker_rejects_fine_weights_witness:
  "\<exists>c. valid_candidate c \<and> is_selectable c (cand_created_at c)
     \<and> rank_candidates \<lparr>confidence_weight = 6666670 / 20000000, signal_strength_weight = 6666670 / 20000000,
          freshness_weight = 333333 / 1000000\<rparr> [c] (Aware (cand_created_at c)) = Inl (FieldErrors [''total_score''])"
proof -
  obtain c where c: "valid_candidate c" "is_selectable c hour_us" "cand_created_at c = hour_us"
    "confidence c = 1" "cand_signal_score c = 1"
    by (rule sample_selectable)
  have p: "CandidateRankingPolicy (6666670 / 20000000) (6666670 / 20000000) (333333 / 1000000) =
      Inr \<lparr>confidence_weight = 6666670 / 20000000, signal_strength_weight = 6666670 / 20000000,
          freshness_weight = 333333 / 1000000\<rparr>"
    by (simp add: CandidateRankingPolicy_def check_fields_def unit_interval_def raising.simps dec_eval)
  have "to_score (6666670 / 20000000) = 333334 / 1000000" "to_score (333333 / 1000000) = 333333 / 1000000"
    by (simp_all add: to_score_def round_half_up_def floor_eq_iff)
  then have "1 < to_score (6666670 / 20000000) + to_score (6666670 / 20000000) + to_score (333333 / 1000000)" by simp
  from ranker_rejects_fine_weights [OF p this c(1)] c show ?thesis by (intro exI [of _ c]) simp
qed

end
