(* ===== verification/Risk_Policy.thy ===== *)
theory Risk_Policy imports Ranking Portfolio_Ledger
begin

text \<open>
  The risk policy applied to a ranked candidate before a simulated position is opened
  (\<open>trd_bot/research/risk_policy.py\<close>): budgets, the position size they allow, the eight named checks
  and the assessment. How decimals are written in the texts of the checks is an argument
  (\<open>check_texts\<close>); no decision depends on it.
\<close>

datatype risk_decision = APPROVED | REJECTED

datatype check_name =
  CANDIDATE_SELECTABLE | PORTFOLIO_ACTIVE | DATASET_MATCH | PORTFOLIO_CAPACITY | RANK_LIMIT
| RANKING_SCORE | REWARD_RISK | SIMULATED_BUDGET

definition all_checks :: "check_name list" where
  "all_checks = [CANDIDATE_SELECTABLE, PORTFOLIO_ACTIVE, DATASET_MATCH, PORTFOLIO_CAPACITY, RANK_LIMIT,
     RANKING_SCORE, REWARD_RISK, SIMULATED_BUDGET]"

fun check_reason :: "check_name \<Rightarrow> string" where
  "check_reason CANDIDATE_SELECTABLE =
     ''Candidate must remain fresh, directional, and unselected at evaluation time.''"
| "check_reason PORTFOLIO_ACTIVE = ''Only an active simulated portfolio can accept a candidate.''"
| "check_reason DATASET_MATCH = ''Candidate and simulated portfolio must share dataset lineage.''"
| "check_reason PORTFOLIO_CAPACITY =
     ''Current simulated portfolio contract allows only one open position at a time.''"
| "check_reason RANK_LIMIT = ''Candidate rank must be inside the configured selection band.''"
| "check_reason RANKING_SCORE = ''Candidate ranking score must meet the configured floor.''"
| "check_reason REWARD_RISK =
     ''First target reward-to-risk must meet the configured paper/shadow threshold.''"
| "check_reason SIMULATED_BUDGET =
     ''Risk and notional caps must leave positive simulated quantity capacity.''"

record risk_check =
  check_of :: check_name
  passed :: bool
  actual_value :: string
  limit_value :: "string option"
  reason_text :: string

definition CandidateRiskCheck :: "check_name \<Rightarrow> bool \<Rightarrow> string \<Rightarrow> string \<Rightarrow> risk_check result" where
  "CandidateRiskCheck name ok actual limit =
     check_fields [(''actual_value'', sized 1 100 actual), (''limit_value'', sized 1 100 limit),
         (''reason'', sized 1 500 (check_reason name))]
       \<lparr>check_of = name, passed = ok, actual_value = actual, limit_value = Some limit,
        reason_text = check_reason name\<rparr>"

record risk_policy =
  max_candidate_rank :: int
  min_ranking_score :: rat
  max_risk_fraction :: rat
  max_notional_fraction :: rat
  cash_buffer_fraction :: rat
  min_reward_risk_ratio :: rat

definition CandidateRiskPolicy :: "risk_policy \<Rightarrow> risk_policy result" where
  "CandidateRiskPolicy pol = check_fields
     [(''max_candidate_rank'', 1 \<le> max_candidate_rank pol),
      (''min_ranking_score'', unit_interval (min_ranking_score pol)),
      (''max_risk_fraction'', 0 < max_risk_fraction pol \<and> max_risk_fraction pol \<le> 1),
      (''max_notional_fraction'', 0 < max_notional_fraction pol \<and> max_notional_fraction pol \<le> 1),
      (''cash_buffer_fraction'', 0 \<le> cash_buffer_fraction pol \<and> cash_buffer_fraction pol < 1),
      (''min_reward_risk_ratio'', 0 < min_reward_risk_ratio pol)] pol"

record risk_assessment =
  evaluated_at :: int
  decision :: risk_decision
  assessed_portfolio :: string
  portfolio_updated_at :: int
  assessed_entry :: ranking_entry
  checks :: "risk_check list"
  risk_budget :: rat
  notional_budget :: rat
  worst_entry_price :: rat
  unit_price_risk :: rat
  reward_risk_ratio :: rat
  max_quantity :: rat

definition assessment_fields :: "risk_assessment \<Rightarrow> (string \<times> bool) list" where
  "assessment_fields a =
     [(''portfolio_id'', has_id_form ''portfolio-'' 16 (assessed_portfolio a)),
      (''risk_budget'', 0 \<le> risk_budget a), (''notional_budget'', 0 \<le> notional_budget a),
      (''worst_case_entry_price'', 0 < worst_entry_price a), (''unit_price_risk'', 0 < unit_price_risk a),
      (''reward_risk_ratio'', 0 \<le> reward_risk_ratio a), (''max_simulated_quantity'', 0 \<le> max_quantity a)]"

definition decision_of :: "risk_check list \<Rightarrow> risk_decision" where
  "decision_of cs = (if list_all passed cs then APPROVED else REJECTED)"

definition CandidateRiskAssessment :: "risk_assessment \<Rightarrow> risk_assessment result" where
  "CandidateRiskAssessment a =
     bindR (check_fields (assessment_fields a) a)
       (raising
         [(\<not> distinct (map check_of (checks a)), ValueError ''risk assessment check names must be unique''),
          (map check_of (checks a) \<noteq> all_checks,
             ValueError ''risk assessment checks must be complete and ordered''),
          (decision a \<noteq> decision_of (checks a),
             ValueError ''risk assessment decision does not match checks'')])"

definition worst_case_entry_price :: "candidate \<Rightarrow> rat result" where
  "worst_case_entry_price c =
     (case cand_plan c of
        None \<Rightarrow> Inl (ValueError ''ranked directional candidate requires a trade plan'')
      | Some p \<Rightarrow>
          if cand_action c = ActionLong then Inr (upper_price (plan_zone p))
          else if cand_action c = ActionShort then Inr (lower_price (plan_zone p))
          else Inl (ValueError ''risk policy only accepts directional ranked candidates''))"

definition max_simulated_quantity :: "rat \<Rightarrow> rat \<Rightarrow> rat \<Rightarrow> rat \<Rightarrow> rat result" where
  "max_simulated_quantity risk notional entry unit_risk =
     (if risk \<le> 0 \<or> notional \<le> 0 \<or> entry \<le> 0 \<or> unit_risk \<le> 0 then Inr 0
      else bindR (ddiv risk unit_risk) (\<lambda>risk_limited.
        bindR (ddiv notional entry) (\<lambda>notional_limited.
        quantize round_down 8 (min risk_limited notional_limited))))"

text \<open>The texts of the decimals that appear in the checks.\<close>

record check_texts =
  score_text :: string
  min_score_text :: string
  ratio_text :: string
  min_ratio_text :: string
  quantity_text :: string

fun status_value :: "portfolio_status \<Rightarrow> string" where
  "status_value ACTIVE = ''active''"
| "status_value COMPLETED = ''completed''"

definition risk_checks ::
  "risk_policy \<Rightarrow> check_texts \<Rightarrow> ranking_entry \<Rightarrow> portfolio \<Rightarrow> int \<Rightarrow> rat \<Rightarrow> rat \<Rightarrow> risk_check list result" where
  "risk_checks pol tx e p at_time ratio qty =
     (let c = entry_candidate e; selectable = is_selectable c at_time;
          opens = filter (\<lambda>q. sp_status q = PositionOpen) (pf_positions p) in
      mapR (\<lambda>(name, ok, actual, limit). CandidateRiskCheck name ok actual limit)
        [(CANDIDATE_SELECTABLE, selectable, if selectable then ''true'' else ''false'', ''true''),
         (PORTFOLIO_ACTIVE, pf_status p = ACTIVE, status_value (pf_status p), status_value ACTIVE),
         (DATASET_MATCH, cand_dataset_id c = pf_dataset_id p, cand_dataset_id c, pf_dataset_id p),
         (PORTFOLIO_CAPACITY, \<not> list_ex (\<lambda>q. sp_status q = PositionOpen) (pf_positions p),
            str_int (int (length opens)), ''0''),
         (RANK_LIMIT, entry_rank e \<le> max_candidate_rank pol, str_int (entry_rank e),
            str_int (max_candidate_rank pol)),
         (RANKING_SCORE, min_ranking_score pol \<le> entry_total e, score_text tx, min_score_text tx),
         (REWARD_RISK, min_reward_risk_ratio pol \<le> ratio, ratio_text tx, min_ratio_text tx),
         (SIMULATED_BUDGET, 0 < qty, quantity_text tx, ''> 0'')])"

definition evaluate_risk ::
  "risk_policy \<Rightarrow> check_texts \<Rightarrow> ranking_entry \<Rightarrow> portfolio \<Rightarrow> timestamp \<Rightarrow> risk_assessment result" where
  "evaluate_risk pol tx e p at_time =
     bindR (candidate_timestamp at_time) (\<lambda>t.
     case cand_plan (entry_candidate e) of
       None \<Rightarrow> Inl (ValueError ''ranked directional candidate requires a trade plan'')
     | Some plan \<Rightarrow>
     bindR (worst_case_entry_price (entry_candidate e)) (\<lambda>worst.
     let unit_risk = dabs (dsub worst (invalidation_price plan));
         unit_reward = dabs (dsub (target_price (hd (plan_targets plan))) worst) in
     if unit_risk \<le> 0 then Inl (ValueError ''candidate unit price risk must be greater than zero'')
     else
     bindR (bindR (ddiv unit_reward unit_risk) (quantize round_down 6)) (\<lambda>ratio.
     let equity = max (pf_equity p) 0 in
     bindR (quantize_money (dmul equity (max_risk_fraction pol))) (\<lambda>budget.
     bindR (quantize_money (dmul equity (max_notional_fraction pol))) (\<lambda>equity_cap.
     bindR (quantize_money (dmul (pf_cash p) (dsub 1 (cash_buffer_fraction pol)))) (\<lambda>cash_after_buffer.
     bindR (max_simulated_quantity budget (min equity_cap cash_after_buffer) worst unit_risk) (\<lambda>qty.
     bindR (risk_checks pol tx e p t ratio qty) (\<lambda>cs.
     CandidateRiskAssessment \<lparr>evaluated_at = t, decision = decision_of cs, assessed_portfolio = pf_id p,
       portfolio_updated_at = pf_updated_at p, assessed_entry = e, checks = cs, risk_budget = budget,
       notional_budget = min equity_cap cash_after_buffer, worst_entry_price = worst,
       unit_price_risk = unit_risk, reward_risk_ratio = ratio, max_quantity = qty\<rparr>))))))))"

section \<open>Texts of numbers\<close>

lemma sized_str_int: "0 \<le> n \<Longrightarrow> n < 10 ^ 100 \<Longrightarrow> sized 1 100 (str_int n)"
  using length_nat_digits [of n 100] by (simp add: str_int_def sized_def)

section \<open>Sizes within budgets\<close>

text \<open>
  A quantity that is rounded down from the rounded quotient of a budget and a unit price does not
  exceed the budget: an excess would be at least one unit in the sixteenth digit, more than the
  quotient's rounding error can make up.
\<close>

lemma floored_quotient:
  assumes b: "on_grid 8 b" "0 \<le> b" "b \<le> 10 ^ 10" and u: "on_grid 8 u" "0 < u"
    and q: "on_grid 8 q" "q \<le> dquot b u"
  shows "q * u \<le> b"
proof (rule ccontr)
  assume "\<not> q * u \<le> b"
  obtain B U Q where c: "b = of_int B / 10 ^ 8" "u = of_int U / 10 ^ 8" "q = of_int Q / 10 ^ 8"
    using b(1) u(1) q(1) by (auto simp: on_grid_iff)
  have "of_int B * 10 ^ 8 < (of_int (Q * U) :: rat)"
    using \<open>\<not> q * u \<le> b\<close> by (simp add: c field_simps)
  then have "B * 10 ^ 8 < Q * U" by (metis of_int_less_iff of_int_mult of_int_numeral of_int_power)
  then have "B * 10 ^ 8 + 1 \<le> Q * U" by simp
  then have "(of_int (B * 10 ^ 8 + 1) :: rat) \<le> of_int (Q * U)" by (simp only: of_int_le_iff)
  then have excess: "b + 1 / 10 ^ 16 \<le> q * u" by (simp add: c field_simps)
  have "dquot b u \<le> b / u + \<bar>b / u\<bar> * (1 / (2 * 10 ^ 27))"
    using dround_error [of "b / u"] by (simp add: dquot_def)
  also have "\<dots> = b / u * (1 + 1 / (2 * 10 ^ 27))" using b u by (simp add: algebra_simps)
  finally have "q * u \<le> b / u * (1 + 1 / (2 * 10 ^ 27)) * u" using q(2) u(2) by (intro mult_right_mono) auto
  also have "\<dots> = b * (1 + 1 / (2 * 10 ^ 27))" using u(2) by simp
  also have "\<dots> < b + 1 / 10 ^ 16" using b by (simp add: field_simps)
  finally show False using excess by simp
qed

text \<open>The quantity both budgets allow.\<close>

lemma round_down_result:
  assumes "quantize round_down 8 x = Inr q" "0 \<le> x" shows "on_grid 8 q" "0 \<le> q" "q \<le> x"
proof -
  have q: "q = of_int (round_down (x * 10 ^ 8)) / 10 ^ 8" using down.quantize_result(3) [OF assms(1)] .
  show "on_grid 8 q" using down.quantize_result(1) [OF assms(1)] .
  show "0 \<le> q" using down.quantize_nonneg [OF assms(1,2)] .
  have "of_int (round_down (x * 10 ^ 8)) \<le> x * 10 ^ 8" using assms(2) by (intro round_down_le) simp
  then show "q \<le> x" unfolding q by (simp add: field_simps)
qed

lemma dquot_nonneg: "0 \<le> x \<Longrightarrow> 0 < y \<Longrightarrow> 0 \<le> dquot x y"
  using dc.rnd_nonneg by (simp add: dquot_def)

lemma max_quantity_result:
  assumes "max_simulated_quantity risk notional entry u = Inr q"
    and "on_grid 8 risk" "0 \<le> risk" "risk \<le> 10 ^ 10" "on_grid 8 notional" "0 \<le> notional" "notional \<le> 10 ^ 10"
    and "on_grid 8 entry" "0 < entry" "on_grid 8 u" "0 < u"
  shows "on_grid 8 q" "0 \<le> q" "q * u \<le> risk" "q * entry \<le> notional"
proof -
  have "on_grid 8 q \<and> 0 \<le> q \<and> q * u \<le> risk \<and> q * entry \<le> notional"
  proof (cases "risk \<le> 0 \<or> notional \<le> 0")
    case True
    with assms show ?thesis by (auto simp: max_simulated_quantity_def)
  next
    case False
    with assms have q: "quantize round_down 8 (min (dquot risk u) (dquot notional entry)) = Inr q"
      by (auto simp: max_simulated_quantity_def ddiv_nonzero)
    have "0 \<le> min (dquot risk u) (dquot notional entry)" using False assms dquot_nonneg by auto
    note r = round_down_result [OF q this]
    then show ?thesis
      using floored_quotient [OF assms(2-4) assms(10,11) r(1)] floored_quotient [OF assms(5-7) assms(8,9) r(1)] by simp
  qed
  then show "on_grid 8 q" "0 \<le> q" "q * u \<le> risk" "q * entry \<le> notional" by simp_all
qed

lemma max_quantity_runs:
  assumes "0 \<le> risk" "risk \<le> 10 ^ 10" "0 \<le> notional" "0 < entry" "0 < u" "1 / 10 ^ 8 \<le> u"
  shows "\<exists>q. max_simulated_quantity risk notional entry u = Inr q"
proof (cases "risk \<le> 0 \<or> notional \<le> 0")
  case True
  then show ?thesis by (auto simp: max_simulated_quantity_def)
next
  case False
  let ?m = "min (dquot risk u) (dquot notional entry)"
  have "risk / u \<le> 10 ^ 10 / (1 / 10 ^ 8)" using assms by (intro frac_le) auto
  moreover have "0 \<le> risk / u" using assms by simp
  ultimately have "\<bar>risk / u\<bar> * (1001 / 1000) \<le> 10 ^ 19" by simp
  then have "dquot risk u \<le> 10 ^ 19" using dround_abs_le [of "risk / u"] by (simp add: dquot_def)
  moreover have "0 \<le> ?m" using dquot_nonneg assms by simp
  ultimately have "\<bar>?m\<bar> * 10 ^ 8 \<le> 10 ^ 28 - 2" by simp
  then obtain q where "quantize round_down 8 ?m = Inr q" by (rule down.quantize_returns)
  with False assms show ?thesis by (simp add: max_simulated_quantity_def ddiv_nonzero)
qed

section \<open>Assessing a candidate\<close>

text \<open>Prices with at most eight fractional digits.\<close>

definition money_plan :: "trade_plan \<Rightarrow> bool" where
  "money_plan p \<longleftrightarrow>
     (\<forall>x \<in> {lower_price (plan_zone p), upper_price (plan_zone p), invalidation_price p} \<union>
        target_price ` set (plan_targets p). on_grid 8 x \<and> x \<le> 10 ^ 12)"

definition texts_ok :: "check_texts \<Rightarrow> bool" where
  "texts_ok tx \<longleftrightarrow> sized 1 100 (score_text tx) \<and> sized 1 100 (min_score_text tx) \<and> sized 1 100 (ratio_text tx)
     \<and> sized 1 100 (min_ratio_text tx) \<and> sized 1 100 (quantity_text tx)"

definition assessable :: "risk_policy \<Rightarrow> check_texts \<Rightarrow> ranking_entry \<Rightarrow> portfolio \<Rightarrow> bool" where
  "assessable pol tx e p \<longleftrightarrow>
     CandidateRiskPolicy pol = Inr pol \<and> texts_ok tx \<and> valid_candidate (entry_candidate e)
     \<and> directional (cand_action (entry_candidate e)) \<and> money_plan (the (cand_plan (entry_candidate e)))
     \<and> 1 \<le> entry_rank e \<and> entry_rank e < 10 ^ 100 \<and> max_candidate_rank pol < 10 ^ 100
     \<and> valid_portfolio p \<and> pf_equity p \<le> 10 ^ 9 \<and> pf_cash p \<le> 10 ^ 9"

definition worst_of :: "candidate \<Rightarrow> rat" where
  "worst_of c = (if cand_action c = ActionLong then upper_price (plan_zone (the (cand_plan c)))
                 else lower_price (plan_zone (the (cand_plan c))))"

definition unit_risk_of :: "candidate \<Rightarrow> rat" where
  "unit_risk_of c = \<bar>worst_of c - invalidation_price (the (cand_plan c))\<bar>"

definition reward_ratio_of :: "candidate \<Rightarrow> rat" where
  "reward_ratio_of c =
     of_int (round_down (dquot \<bar>target_price (hd (plan_targets (the (cand_plan c)))) - worst_of c\<bar> (unit_risk_of c) * 10 ^ 6)) / 10 ^ 6"

lemma exact_distance:
  assumes "on_grid 8 x" "on_grid 8 y" "0 < x" "x \<le> 10 ^ 12" "0 < y" "y \<le> 10 ^ 12"
  shows "dabs (dsub x y) = \<bar>x - y\<bar>" "\<bar>x - y\<bar> \<le> 10 ^ 12" "x \<noteq> y \<Longrightarrow> 1 / 10 ^ 8 \<le> \<bar>x - y\<bar>" "on_grid 8 \<bar>x - y\<bar>"
proof -
  have g: "on_grid 8 (x - y)" "on_grid 8 \<bar>x - y\<bar>"
    using on_grid_diff [OF assms(1,2)] on_grid_diff [OF assms(2,1)] by (auto simp: abs_if)
  show le: "\<bar>x - y\<bar> \<le> 10 ^ 12" using assms(3-6) by linarith
  have "(10 :: rat) ^ 12 \<le> 10 ^ 20" by simp
  with le have "\<bar>x - y\<bar> \<le> 10 ^ 20" by linarith
  then show "dabs (dsub x y) = \<bar>x - y\<bar>" using g by (simp add: dabs_def dsub_def dround_money)
  show "on_grid 8 \<bar>x - y\<bar>" by (rule g(2))
  show "x \<noteq> y \<Longrightarrow> 1 / 10 ^ 8 \<le> \<bar>x - y\<bar>"
    using unit_risk(2) [of x y] unit_risk(2) [of y x] assms by (cases "y < x") auto
qed

lemma plan_prices:
  assumes "valid_candidate c" "directional (cand_action c)" "money_plan (the (cand_plan c))"
  obtains plan k ks where "cand_plan c = Some plan" "plan_targets plan = k # ks"
    "on_grid 8 (worst_of c)" "0 < worst_of c" "worst_of c \<le> 10 ^ 12"
    "on_grid 8 (invalidation_price plan)" "0 < invalidation_price plan" "invalidation_price plan \<le> 10 ^ 12"
    "on_grid 8 (target_price k)" "0 < target_price k" "target_price k \<le> 10 ^ 12"
    "worst_of c \<noteq> invalidation_price plan" "worst_case_entry_price c = Inr (worst_of c)"
proof -
  obtain plan k ks where p: "cand_plan c = Some plan" "plan_ok plan" "plan_geometry (cand_action c) plan"
    "plan_targets plan = k # ks"
    by (rule directional_plan [OF assms(1,2)])
  show ?thesis
    using assms(2,3) p
    by (intro that [of plan k ks])
      (auto simp: directional_def worst_of_def money_plan_def plan_ok_iff plan_geometry_def Let_def
        worst_case_entry_price_def)
qed

lemma sized_str_small: "0 \<le> n \<Longrightarrow> n \<le> 1 \<Longrightarrow> sized 1 100 (str_int n)"
proof -
  assume n: "0 \<le> n" "n \<le> 1"
  have "(1 :: int) < 10 ^ 100" by simp
  with n(2) have "n < 10 ^ 100" by (rule le_less_trans)
  with n(1) show ?thesis by (rule sized_str_int)
qed

lemma checks_run:
  assumes "assessable pol tx e p"
  shows "\<exists>cs. risk_checks pol tx e p t ratio qty = Inr cs \<and> map check_of cs = all_checks
    \<and> (list_all passed cs \<longleftrightarrow> is_selectable (entry_candidate e) t \<and> pf_status p = ACTIVE
        \<and> cand_dataset_id (entry_candidate e) = pf_dataset_id p \<and> open_ones (pf_positions p) = []
        \<and> entry_rank e \<le> max_candidate_rank pol \<and> min_ranking_score pol \<le> entry_total e
        \<and> min_reward_risk_ratio pol \<le> ratio \<and> 0 < qty)"
proof -
  note a = assms [unfolded assessable_def]
  have v: "valid_portfolio p" using a by simp
  have texts: "sized 1 100 (str_int (entry_rank e))" "sized 1 100 (str_int (max_candidate_rank pol))"
  proof -
    have "CandidateRiskPolicy pol = Inr pol" "1 \<le> entry_rank e" "entry_rank e < 10 ^ 100" "max_candidate_rank pol < 10 ^ 100"
      using a by blast+
    moreover from this(1) have "1 \<le> max_candidate_rank pol" by (simp add: CandidateRiskPolicy_def check_fields_Inr_iff)
    ultimately show "sized 1 100 (str_int (entry_rank e))" "sized 1 100 (str_int (max_candidate_rank pol))"
      by (blast intro: sized_str_int order_trans [OF zero_le_one])+
  qed
  have "int (length (filter (\<lambda>q. sp_status q = PositionOpen) (pf_positions p))) \<le> 1"
    using valid_portfolio_facts(8) [OF v] by (simp add: open_ones_def)
  then have n: "sized 1 100 (str_int (int (length (filter (\<lambda>q. sp_status q = PositionOpen) (pf_positions p)))))"
    by (intro sized_str_small) auto
  have ids: "sized 1 100 (cand_dataset_id (entry_candidate e))" "sized 1 100 (pf_dataset_id p)"
    using a valid_portfolio_facts [OF v] by (auto simp: valid_candidate_iff candidate_fields_def)
  have "sized 1 100 (status_value s)" for s by (cases s) (simp_all add: sized_def)
  moreover have "sized 1 500 (check_reason m)" for m by (cases m) (simp_all add: sized_def)
  moreover have "sized 1 100 ''true''" "sized 1 100 ''false''" "sized 1 100 ''0''" "sized 1 100 ''> 0''" "sized 1 100 ''active''"
    by (simp_all add: sized_def)
  moreover have "(\<not> list_ex (\<lambda>q. sp_status q = PositionOpen) (pf_positions p)) = (open_ones (pf_positions p) = [])"
    by (auto simp: open_ones_def filter_empty_conv list_ex_iff)
  ultimately show ?thesis
    using a texts n ids
    by (simp add: risk_checks_def Let_def CandidateRiskCheck_def check_fields_def texts_ok_def all_checks_def conj_assoc)
qed

lemma evaluate_runs:
  assumes ok: "assessable pol tx e p"
  defines "c \<equiv> entry_candidate e"
  defines "budget \<equiv> to_money (dmul (max (pf_equity p) 0) (max_risk_fraction pol))"
    and "cap \<equiv> min (to_money (dmul (max (pf_equity p) 0) (max_notional_fraction pol)))
                    (to_money (dmul (pf_cash p) (dsub 1 (cash_buffer_fraction pol))))"
  shows "\<exists>a. evaluate_risk pol tx e p (Aware t) = Inr a \<and> evaluated_at a = t \<and> assessed_entry a = e
    \<and> assessed_portfolio a = pf_id p \<and> portfolio_updated_at a = pf_updated_at p
    \<and> risk_budget a = budget \<and> notional_budget a = cap \<and> worst_entry_price a = worst_of c
    \<and> unit_price_risk a = unit_risk_of c \<and> reward_risk_ratio a = reward_ratio_of c
    \<and> max_simulated_quantity budget cap (worst_of c) (unit_risk_of c) = Inr (max_quantity a)
    \<and> on_grid 8 budget \<and> budget \<le> 10 ^ 10 \<and> on_grid 8 cap \<and> cap \<le> 10 ^ 10
    \<and> on_grid 8 (max_quantity a) \<and> 0 \<le> max_quantity a
    \<and> max_quantity a * unit_risk_of c \<le> budget \<and> max_quantity a * worst_of c \<le> cap
    \<and> (decision a = APPROVED \<longleftrightarrow> is_selectable c t \<and> pf_status p = ACTIVE
        \<and> cand_dataset_id c = pf_dataset_id p \<and> open_ones (pf_positions p) = []
        \<and> entry_rank e \<le> max_candidate_rank pol \<and> min_ranking_score pol \<le> entry_total e
        \<and> min_reward_risk_ratio pol \<le> reward_ratio_of c \<and> 0 < max_quantity a)"
proof -
  note a = ok [unfolded assessable_def, folded c_def]
  have v: "valid_portfolio p" using a by simp
  have pol: "0 < max_risk_fraction pol" "max_risk_fraction pol \<le> 1" "0 < max_notional_fraction pol"
    "max_notional_fraction pol \<le> 1" "0 \<le> cash_buffer_fraction pol" "cash_buffer_fraction pol < 1"
    using a by (auto simp: CandidateRiskPolicy_def check_fields_Inr_iff)
  obtain plan k ks where p: "cand_plan c = Some plan" "plan_targets plan = k # ks"
    "on_grid 8 (worst_of c)" "0 < worst_of c" "worst_of c \<le> 10 ^ 12"
    "on_grid 8 (invalidation_price plan)" "0 < invalidation_price plan" "invalidation_price plan \<le> 10 ^ 12"
    "on_grid 8 (target_price k)" "0 < target_price k" "target_price k \<le> 10 ^ 12"
    "worst_of c \<noteq> invalidation_price plan" "worst_case_entry_price c = Inr (worst_of c)"
    using plan_prices [of c] a by blast
  note risk = exact_distance [OF p(3,6,4,5,7,8)] and reward = exact_distance [OF p(9,3,10,11,4,5)]
  have u: "dabs (dsub (worst_of c) (invalidation_price plan)) = unit_risk_of c" "0 < unit_risk_of c"
    "1 / 10 ^ 8 \<le> unit_risk_of c" "on_grid 8 (unit_risk_of c)"
    using risk p(1,12) by (simp_all add: unit_risk_of_def)
  let ?rw = "\<bar>target_price k - worst_of c\<bar>"
  have "0 \<le> ?rw / unit_risk_of c" using u(2) by simp
  moreover have "?rw / unit_risk_of c \<le> 10 ^ 12 / (1 / 10 ^ 8)"
    using reward(2) u(2,3) by (intro frac_le) auto
  ultimately have "0 \<le> dquot ?rw (unit_risk_of c)" "dquot ?rw (unit_risk_of c) \<le> 10 ^ 21"
    using dround_abs_le [of "?rw / unit_risk_of c"] dc.rnd_nonneg by (auto simp: dquot_def)
  then have "\<bar>dquot ?rw (unit_risk_of c)\<bar> * 10 ^ 6 \<le> 10 ^ 28 - 2" by simp
  then obtain rr where "quantize round_down 6 (dquot ?rw (unit_risk_of c)) = Inr rr" by (rule down.quantize_returns)
  moreover from down.quantize_result(3) [OF this] have rr: "rr = reward_ratio_of c"
    using p(1,2) by (simp add: reward_ratio_of_def)
  ultimately have ratio: "bindR (ddiv ?rw (unit_risk_of c)) (quantize round_down 6) = Inr (reward_ratio_of c)"
    using u(2) by (simp add: ddiv_nonzero)
  have ratio0: "0 \<le> reward_ratio_of c"
    using down.quantize_nonneg [OF \<open>quantize round_down 6 _ = Inr rr\<close>] \<open>0 \<le> dquot ?rw (unit_risk_of c)\<close> rr by simp
  have money: "quantize_money (dmul x f) = Inr (to_money (dmul x f)) \<and> 0 \<le> to_money (dmul x f)
      \<and> to_money (dmul x f) \<le> 10 ^ 10"
    if "0 \<le> x" "x \<le> 10 ^ 9" "0 \<le> f" "f \<le> 1" for x f
  proof -
    have "x * f \<le> 10 ^ 9 * 1" using that by (intro mult_mono) auto
    then have "\<bar>dmul x f\<bar> \<le> 10 ^ 9 * 1 * (1001 / 1000)" using that by (intro dmul_le) simp
    moreover have "10 ^ 9 * 1 * (1001 / 1000) + 1 \<le> (10 :: rat) ^ 10" "(10 :: rat) ^ 10 \<le> 10 ^ 19" by simp_all
    ultimately have "\<bar>dmul x f\<bar> + 1 \<le> 10 ^ 10" "\<bar>dmul x f\<bar> \<le> 10 ^ 19" by linarith+
    moreover have "0 \<le> dmul x f" using that dc.rnd_nonneg by (simp add: dmul_def)
    ultimately show ?thesis using quantize_to_money [of "dmul x f"] by linarith
  qed
  have f: "0 \<le> dsub 1 (cash_buffer_fraction pol)" "dsub 1 (cash_buffer_fraction pol) \<le> 1"
    using dc.rnd_unit_interval [of "1 - cash_buffer_fraction pol"] pol by (simp_all add: dsub_def)
  have eq: "0 \<le> max (pf_equity p) 0" "max (pf_equity p) 0 \<le> 10 ^ 9" using a by auto
  have cash: "0 \<le> pf_cash p" "pf_cash p \<le> 10 ^ 9" using valid_portfolio_facts(2) [OF v] a by auto
  have b: "quantize_money (dmul (max (pf_equity p) 0) (max_risk_fraction pol)) = Inr budget" "0 \<le> budget" "budget \<le> 10 ^ 10"
    using money [OF eq, of "max_risk_fraction pol"] pol by (simp_all add: budget_def)
  have n: "quantize_money (dmul (max (pf_equity p) 0) (max_notional_fraction pol))
      = Inr (to_money (dmul (max (pf_equity p) 0) (max_notional_fraction pol)))"
    "quantize_money (dmul (pf_cash p) (dsub 1 (cash_buffer_fraction pol)))
      = Inr (to_money (dmul (pf_cash p) (dsub 1 (cash_buffer_fraction pol))))" "0 \<le> cap" "cap \<le> 10 ^ 10"
    using money [OF eq, of "max_notional_fraction pol"] money [OF cash f] pol by (auto simp: cap_def)
  have grids: "on_grid 8 budget" "on_grid 8 cap" by (simp_all add: budget_def cap_def min_def)
  have "\<exists>q. max_simulated_quantity budget cap (worst_of c) (unit_risk_of c) = Inr q"
    using max_quantity_runs [OF b(2,3) n(3) p(4) u(2,3)] .
  then obtain q where q: "max_simulated_quantity budget cap (worst_of c) (unit_risk_of c) = Inr q" ..
  note qr = max_quantity_result [OF q grids(1) b(2,3) grids(2) n(3,4) p(3,4) u(4,2)]
  obtain cs where cs: "risk_checks pol tx e p t (reward_ratio_of c) q = Inr cs" "map check_of cs = all_checks"
    "list_all passed cs \<longleftrightarrow> is_selectable c t \<and> pf_status p = ACTIVE
        \<and> cand_dataset_id c = pf_dataset_id p \<and> open_ones (pf_positions p) = []
        \<and> entry_rank e \<le> max_candidate_rank pol \<and> min_ranking_score pol \<le> entry_total e
        \<and> min_reward_risk_ratio pol \<le> reward_ratio_of c \<and> 0 < q"
    using checks_run [OF ok, of t "reward_ratio_of c" q] unfolding c_def by blast
  define a where "a = \<lparr>evaluated_at = t, decision = decision_of cs, assessed_portfolio = pf_id p,
       portfolio_updated_at = pf_updated_at p, assessed_entry = e, checks = cs, risk_budget = budget,
       notional_budget = cap, worst_entry_price = worst_of c,
       unit_price_risk = unit_risk_of c, reward_risk_ratio = reward_ratio_of c, max_quantity = q\<rparr>"
  have "distinct all_checks" by (simp add: all_checks_def)
  then have "CandidateRiskAssessment a = Inr a"
    using cs(2) valid_portfolio_facts(12) [OF v] b(2) n(3) p(4) u(2) ratio0 qr(2)
    by (simp add: CandidateRiskAssessment_def check_fields_def assessment_fields_def raising.simps a_def)
  then have "evaluate_risk pol tx e p (Aware t) = Inr a"
    using p u(1,2) reward(1) ratio b(1) n(1,2) q cs(1)
    by (simp add: evaluate_risk_def c_def [symmetric] Let_def cap_def [symmetric] a_def)
  moreover have "decision a = APPROVED \<longleftrightarrow> list_all passed cs" by (simp add: a_def decision_of_def)
  ultimately show ?thesis
    using q cs(3) qr grids b(3) n(4) by (intro exI [of _ a]) (simp add: a_def)
qed

end
