(* ===== verification/Risk_Properties.thy ===== *)
theory Risk_Properties imports Risk_Policy Portfolio_Properties
begin

text \<open>
  What the risk policy promises: when it approves, and that the size it allows respects both budgets.
\<close>

lemma sample_dataset_portfolio:
  obtains p where "simulated p" "pf_status p = ACTIVE" "pf_positions p = []" "pf_starting_cash p = 100"
    "pf_cash p = 100" "pf_fee_rate p = 1 / 1000" "pf_updated_at p = 0" "pf_dataset_id p = ''dataset-1''" "pf_equity p = 100"
proof -
  have m: "to_money 100 = 100" using to_money_fixed [of 100] on_grid_of_int [of 8 100] by simp
  have "sized 1 100 (strip ''dataset-1'')" by (simp add: strip_def is_space_def sized_def)
  from create_runs [OF this, of 100 "1 / 1000" PAPER "''100''" "''0.001''" 0] m
  show ?thesis by (auto intro: that created simp: strip_def is_space_def)
qed

definition sample_risk_policy :: risk_policy where
  "sample_risk_policy = \<lparr>max_candidate_rank = 3, min_ranking_score = 1 / 2, max_risk_fraction = 1 / 100,
     max_notional_fraction = 1 / 2, cash_buffer_fraction = 1 / 10, min_reward_risk_ratio = 2\<rparr>"

definition sample_texts :: check_texts where
  "sample_texts = \<lparr>score_text = ''1.000000'', min_score_text = ''0.5'', ratio_text = ''2.000000'',
     min_ratio_text = ''2'', quantity_text = ''1.00000000''\<rparr>"

definition sample_entry :: "candidate \<Rightarrow> ranking_entry" where
  "sample_entry c = entry_for \<lparr>confidence_weight = 9 / 20, signal_strength_weight = 7 / 20, freshness_weight = 1 / 5\<rparr>
     hour_us (1, c)"

lemma sample_score:
  assumes "confidence c = 1" "cand_signal_score c = 1" "cand_created_at c = hour_us" "hour_us < valid_until c"
  shows "entry_total (sample_entry c) = 1"
proof -
  have one: "to_score 1 = 1" "to_score (dabs 1) = 1"
    using to_score_fixed [of 1] dc.rnd_one by (simp_all add: dabs_def)
  have "on_grid 6 (9 / 20 :: rat)" "on_grid 6 (7 / 20 :: rat)" "on_grid 6 (1 / 5 :: rat)"
    by (simp_all add: on_grid_def)
  then have w: "to_score (9 / 20) = 9 / 20" "to_score (7 / 20) = 7 / 20" "to_score (1 / 5) = 1 / 5"
    by (simp_all add: to_score_fixed)
  have "freshness_of c hour_us = 1"
    using assms(3,4) one dc.rnd_one by (simp add: freshness_of_def dquot_def)
  then show ?thesis
    using assms(1,2) w one
    by (simp add: sample_entry_def entry_for_def score_of_def weighted_of_def dec_eval)
qed

lemma sample_assessable:
  obtains c p where "candidate_life c" "cand_plan c = Some sample_plan" "cand_action c = ActionLong"
    "is_selectable c hour_us" "entry_candidate (sample_entry c) = c" "entry_total (sample_entry c) = 1" "entry_rank (sample_entry c) = 1"
    "simulated p" "pf_status p = ACTIVE" "pf_positions p = []" "pf_starting_cash p = 100"
    "pf_cash p = 100" "pf_fee_rate p = 1 / 1000" "pf_updated_at p = 0" "pf_equity p = 100"
    "cand_dataset_id c = pf_dataset_id p" "valid_until c = 5 * hour_us"
    "assessable sample_risk_policy sample_texts (sample_entry c) p"
    "cand_dataset_id c = ''dataset-1''" "cand_pair c = sample_pair" "cand_timeframe c = HOUR_1"
proof -
  obtain c where c: "valid_candidate c" "is_selectable c hour_us" "cand_created_at c = hour_us"
    "confidence c = 1" "cand_signal_score c = 1" "cand_plan c = Some sample_plan" "cand_action c = ActionLong"
    "cand_dataset_id c = ''dataset-1''" "valid_until c = 5 * hour_us" "candidate_life c"
    "cand_pair c = sample_pair" "cand_timeframe c = HOUR_1"
    by (rule sample_selectable)
  obtain p where p: "simulated p" "pf_status p = ACTIVE" "pf_positions p = []" "pf_starting_cash p = 100"
    "pf_cash p = 100" "pf_fee_rate p = 1 / 1000" "pf_updated_at p = 0" "pf_dataset_id p = ''dataset-1''" "pf_equity p = 100"
    by (rule sample_dataset_portfolio)
  have s: "entry_total (sample_entry c) = 1" using c by (intro sample_score) simp_all
  have e: "entry_candidate (sample_entry c) = c" "entry_rank (sample_entry c) = 1"
    by (simp_all add: sample_entry_def entry_for_def)
  have v: "valid_portfolio p" using simulated_invariant [OF p(1)] by (simp add: ledger_invariant_def)
  have "on_grid 8 (10 :: rat)" "on_grid 8 (9 :: rat)" "on_grid 8 (12 :: rat)"
    using on_grid_of_int [of 8 10] on_grid_of_int [of 8 9] on_grid_of_int [of 8 12] by simp_all
  then have m: "money_plan sample_plan" by (simp add: money_plan_def sample_plan_def)
  have k: "(1 :: int) < 10 ^ 100" "(3 :: int) < 10 ^ 100" by simp_all
  have "texts_ok sample_texts" by (simp add: texts_ok_def sample_texts_def sized_def)
  moreover have "CandidateRiskPolicy sample_risk_policy = Inr sample_risk_policy" "max_candidate_rank sample_risk_policy = 3"
    by (simp_all add: CandidateRiskPolicy_def sample_risk_policy_def check_fields_def unit_interval_def)
  ultimately have "assessable sample_risk_policy sample_texts (sample_entry c) p"
    unfolding assessable_def e using c(1,6,7) p(5,9) v m k by (intro conjI) (simp_all add: directional_def)
  then show ?thesis using c p s e by (intro that [of c p]) simp_all
qed

text \<open>
  C20: On a valid directional candidate with money prices and a valid portfolio the risk policy always
  returns an assessment; it approves exactly when all eight conditions hold, and it binds the
  assessment to the portfolio snapshot it was made on.
\<close>

theorem risk_assessment_decides:
  assumes "assessable pol tx e p"
  shows "\<exists>a. evaluate_risk pol tx e p (Aware t) = Inr a \<and> evaluated_at a = t
    \<and> assessed_portfolio a = pf_id p \<and> portfolio_updated_at a = pf_updated_at p
    \<and> (decision a = APPROVED \<longleftrightarrow>
         is_selectable (entry_candidate e) t \<and> pf_status p = ACTIVE
         \<and> cand_dataset_id (entry_candidate e) = pf_dataset_id p \<and> open_ones (pf_positions p) = []
         \<and> entry_rank e \<le> max_candidate_rank pol \<and> min_ranking_score pol \<le> entry_total e
         \<and> min_reward_risk_ratio pol \<le> reward_ratio_of (entry_candidate e) \<and> 0 < max_quantity a)"
  using evaluate_runs [OF assms, of t] by blast

lemma sample_amounts:
  assumes "cand_plan c = Some sample_plan" "cand_action c = ActionLong"
  shows "worst_of c = 10" "unit_risk_of c = 1" "reward_ratio_of c = 2"
  using assms by (simp_all add: worst_of_def unit_risk_of_def reward_ratio_of_def sample_plan_def dec_eval round_down_def)

lemma sample_budgets:
  "to_money (dmul (max 100 0) (max_risk_fraction sample_risk_policy)) = 1"
  "min (to_money (dmul (max 100 0) (max_notional_fraction sample_risk_policy)))
     (to_money (dmul 100 (dsub 1 (cash_buffer_fraction sample_risk_policy)))) = 50"
  "max_simulated_quantity 1 50 10 1 = Inr 1"
proof -
  have "to_money 1 = 1" "to_money 50 = 50" "to_money 90 = 90"
    using to_money_fixed on_grid_of_int [of 8 1] on_grid_of_int [of 8 50] on_grid_of_int [of 8 90] by simp_all
  then show "to_money (dmul (max 100 0) (max_risk_fraction sample_risk_policy)) = 1"
    "min (to_money (dmul (max 100 0) (max_notional_fraction sample_risk_policy)))
       (to_money (dmul 100 (dsub 1 (cash_buffer_fraction sample_risk_policy)))) = 50"
    by (simp_all add: sample_risk_policy_def dec_eval)
  have "quantize round_down 8 1 = Inr 1" using down.quantize_grid [of 8 1] on_grid_of_int [of 8 1] by simp
  then show "max_simulated_quantity 1 50 10 1 = Inr 1"
    by (simp add: max_simulated_quantity_def ddiv_def dec_eval)
qed

lemma sample_approved:
  assumes "cand_plan c = Some sample_plan" "cand_action c = ActionLong" "is_selectable c hour_us"
    "entry_candidate (sample_entry c) = c" "entry_total (sample_entry c) = 1" "entry_rank (sample_entry c) = 1"
    "pf_status p = ACTIVE" "pf_positions p = []" "pf_cash p = 100" "pf_equity p = 100"
    "cand_dataset_id c = pf_dataset_id p" "assessable sample_risk_policy sample_texts (sample_entry c) p"
  obtains a where "evaluate_risk sample_risk_policy sample_texts (sample_entry c) p (Aware hour_us) = Inr a"
    "decision a = APPROVED" "max_quantity a = 1" "risk_budget a = 1" "notional_budget a = 50"
    "assessed_entry a = sample_entry c" "assessed_portfolio a = pf_id p" "portfolio_updated_at a = pf_updated_at p"
    "evaluated_at a = hour_us"
  using evaluate_runs [OF assms(12), of hour_us] assms(1-11) sample_amounts [OF assms(1,2)] sample_budgets
  by (auto simp: sample_risk_policy_def open_ones_def)

theorem risk_assessment_decides_witness:
  "\<exists>c p a. evaluate_risk sample_risk_policy sample_texts (sample_entry c) p (Aware (6 * hour_us)) = Inr a
     \<and> decision a = REJECTED"
proof -
  obtain c p where c: "assessable sample_risk_policy sample_texts (sample_entry c) p"
    "entry_candidate (sample_entry c) = c" "valid_until c = 5 * hour_us"
    by (rule sample_assessable)
  have "\<not> is_selectable c (6 * hour_us)" using c(3) by (simp add: is_selectable_def)
  with risk_assessment_decides [OF c(1), of "6 * hour_us"] c(2) obtain a where
    "evaluate_risk sample_risk_policy sample_texts (sample_entry c) p (Aware (6 * hour_us)) = Inr a" "decision a \<noteq> APPROVED"
    by auto
  then show ?thesis by (cases "decision a") blast+
qed

lemma money_budget:
  assumes "0 \<le> x" "x \<le> 10 ^ 9" "0 \<le> f" "f \<le> 1"
  shows "\<bar>to_money (dmul x f) - x * f\<bar> \<le> 1 / 10 ^ 8"
proof -
  have "x * f \<le> 10 ^ 9 * 1" using assms by (intro mult_mono) auto
  then have "\<bar>dmul x f - x * f\<bar> \<le> 10 ^ 9 * (1 / (2 * 10 ^ 27))"
    using dround_error [of "x * f"] assms by (simp add: dmul_def field_simps)
  moreover have "\<bar>to_money (dmul x f) - dmul x f\<bar> \<le> 1 / (2 * 10 ^ 8)"
    using round_half_even_error [of "dmul x f * 10 ^ 8"] by (simp add: to_money_def field_simps)
  moreover have "\<bar>to_money (dmul x f) - x * f\<bar> \<le> \<bar>dmul x f - x * f\<bar> + \<bar>to_money (dmul x f) - dmul x f\<bar>" by linarith
  ultimately show ?thesis by simp
qed

text \<open>The size is the largest quantity on its grid that both budgets allow: rounding the quotients loses nothing.\<close>

lemma quotient_covers:
  assumes "on_grid 8 x" "0 \<le> x" "x * u \<le> b" "b \<le> 10 ^ 10" "1 / 10 ^ 8 \<le> u"
  shows "x \<le> dquot b u"
proof -
  have u: "0 < u" using assms(5) by (rule less_le_trans [rotated]) simp
  have "x * (1 / 10 ^ 8) \<le> x * u" using assms(2,5) by (intro mult_left_mono)
  then have "x \<le> 10 ^ 18" using assms(3,4) by simp
  then have "dround x = x" using assms(1,2) by (intro dround_grid [of 8]) simp_all
  moreover have "x \<le> b / u" using assms(3) u by (simp add: field_simps)
  ultimately show ?thesis using dround_mono [of x "b / u"] by (simp add: dquot_def)
qed

lemma quantity_largest:
  assumes q: "max_simulated_quantity risk notional entry u = Inr q" "0 \<le> q"
    and b: "risk \<le> 10 ^ 10" "notional \<le> 10 ^ 10" "1 / 10 ^ 8 \<le> entry" "1 / 10 ^ 8 \<le> u"
    and x: "on_grid 8 x" "x * u \<le> risk" "x * entry \<le> notional"
  shows "x \<le> q"
proof (cases "0 \<le> x")
  case nonneg: True
  have pos: "0 < entry" "0 < u" using b(3,4) by (auto intro: less_le_trans [rotated])
  show ?thesis
  proof (cases "risk \<le> 0 \<or> notional \<le> 0")
    case True
    then have "x * u \<le> 0 \<or> x * entry \<le> 0" using x(2,3) by linarith
    then have "x \<le> 0" using pos by (auto simp: mult_le_0_iff)
    then show ?thesis using q(2) by linarith
  next
    case False
    with q(1) pos have "quantize round_down 8 (min (dquot risk u) (dquot notional entry)) = Inr q"
      by (auto simp: max_simulated_quantity_def ddiv_nonzero)
    from down.quantize_result(3) [OF this]
    have e: "q = of_int (round_down (min (dquot risk u) (dquot notional entry) * 10 ^ 8)) / 10 ^ 8" .
    obtain k where k: "x = of_int k / 10 ^ 8" using x(1) by (auto simp: on_grid_iff)
    have "x \<le> min (dquot risk u) (dquot notional entry)"
      using quotient_covers [OF x(1) nonneg x(2) b(1,4)] quotient_covers [OF x(1) nonneg x(3) b(2,3)] by simp
    then have "x * 10 ^ 8 \<le> min (dquot risk u) (dquot notional entry) * 10 ^ 8" by (rule mult_right_mono) simp
    moreover have "x * 10 ^ 8 = of_int k" by (simp add: k)
    ultimately have "of_int k \<le> min (dquot risk u) (dquot notional entry) * 10 ^ 8" by (simp only:)
    then have "round_down (of_int k) \<le> round_down (min (dquot risk u) (dquot notional entry) * 10 ^ 8)"
      by (rule round_down_mono)
    then show ?thesis by (simp add: e k round_down_of_int divide_right_mono)
  qed
qed (use q(2) in linarith)

lemma grid_unit: "on_grid 8 x \<Longrightarrow> 0 < x \<Longrightarrow> 1 / 10 ^ 8 \<le> x"
proof -
  assume g: "on_grid 8 x" "0 < x"
  then obtain c where c: "x = of_int c / 10 ^ 8" by (auto simp: on_grid_iff)
  with g(2) have "0 < c" by (simp add: zero_less_divide_iff)
  then have "1 \<le> c" by simp
  then have "(1 :: rat) \<le> of_int c" by simp
  with c show ?thesis by (simp add: field_simps)
qed

lemma risk_units:
  assumes "assessable pol tx e p"
  shows "1 / 10 ^ 8 \<le> worst_of (entry_candidate e)" "1 / 10 ^ 8 \<le> unit_risk_of (entry_candidate e)"
proof -
  obtain plan j js where c: "cand_plan (entry_candidate e) = Some plan" "plan_targets plan = j # js"
    "on_grid 8 (worst_of (entry_candidate e))" "0 < worst_of (entry_candidate e)"
    "on_grid 8 (invalidation_price plan)" "worst_of (entry_candidate e) \<noteq> invalidation_price plan"
    using assms [unfolded assessable_def] plan_prices [of "entry_candidate e"] by blast
  have "on_grid 8 \<bar>worst_of (entry_candidate e) - invalidation_price plan\<bar>"
    using on_grid_diff [OF c(3,5)] on_grid_diff [OF c(5,3)] by (simp add: abs_if)
  then show "1 / 10 ^ 8 \<le> worst_of (entry_candidate e)" "1 / 10 ^ 8 \<le> unit_risk_of (entry_candidate e)"
    using grid_unit c by (simp_all add: unit_risk_of_def)
qed

text \<open>
  C21: The size of an assessment that the policy returns for an assessable candidate and portfolio. It costs
  at most the notional budget at the worst entry price of the zone and loses at most the risk budget between
  that price and the invalidation, both exactly, and it is the largest quantity of eight digits that does.
  The risk budget is within one unit of the eighth digit of its fraction of the equity, and the notional
  budget within one unit of the smaller of its fraction of the equity and the cash outside the buffer.
\<close>

theorem risk_size_within_budgets:
  assumes "assessable pol tx e p" "evaluate_risk pol tx e p (Aware t) = Inr a"
  shows "0 \<le> max_quantity a \<and> max_quantity a * unit_price_risk a \<le> risk_budget a
    \<and> max_quantity a * worst_entry_price a \<le> notional_budget a
    \<and> (\<forall>x. on_grid 8 x \<and> x * unit_price_risk a \<le> risk_budget a \<and> x * worst_entry_price a \<le> notional_budget a
         \<longrightarrow> x \<le> max_quantity a)
    \<and> on_grid 8 (max_quantity a)
    \<and> \<bar>risk_budget a - max (pf_equity p) 0 * max_risk_fraction pol\<bar> \<le> 1 / 10 ^ 8
    \<and> \<bar>notional_budget a - min (max (pf_equity p) 0 * max_notional_fraction pol)
                                (pf_cash p * dsub 1 (cash_buffer_fraction pol))\<bar> \<le> 1 / 10 ^ 8"
proof -
  have a: "pf_equity p \<le> 10 ^ 9" "pf_cash p \<le> 10 ^ 9" "CandidateRiskPolicy pol = Inr pol" "0 \<le> pf_cash p"
    using assms(1) valid_portfolio_facts(2) by (auto simp: assessable_def)
  have pol: "0 \<le> max_risk_fraction pol" "max_risk_fraction pol \<le> 1" "0 \<le> max_notional_fraction pol"
    "max_notional_fraction pol \<le> 1" "0 \<le> dsub 1 (cash_buffer_fraction pol)" "dsub 1 (cash_buffer_fraction pol) \<le> 1"
    using a(3) dc.rnd_unit_interval [of "1 - cash_buffer_fraction pol"]
    by (auto simp: CandidateRiskPolicy_def check_fields_Inr_iff dsub_def)
  have eq: "0 \<le> max (pf_equity p) 0" "max (pf_equity p) 0 \<le> 10 ^ 9" using a(1) by auto
  note b = money_budget [OF eq pol(1,2)] and n = money_budget [OF eq pol(3,4)] and m = money_budget [OF a(4,2) pol(5,6)]
  let ?cap = "min (to_money (dmul (max (pf_equity p) 0) (max_notional_fraction pol)))
    (to_money (dmul (pf_cash p) (dsub 1 (cash_buffer_fraction pol))))"
  have cap: "\<bar>?cap - min (max (pf_equity p) 0 * max_notional_fraction pol)
    (pf_cash p * dsub 1 (cash_buffer_fraction pol))\<bar> \<le> 1 / 10 ^ 8"
    using n m by linarith
  from evaluate_runs [OF assms(1), of t] assms(2)
  have r: "0 \<le> max_quantity a" "max_quantity a * unit_price_risk a \<le> risk_budget a"
    "max_quantity a * worst_entry_price a \<le> notional_budget a" "on_grid 8 (max_quantity a)"
    "risk_budget a = to_money (dmul (max (pf_equity p) 0) (max_risk_fraction pol))" "notional_budget a = ?cap"
    "max_simulated_quantity (risk_budget a) (notional_budget a) (worst_entry_price a) (unit_price_risk a) = Inr (max_quantity a)"
    "risk_budget a \<le> 10 ^ 10" "notional_budget a \<le> 10 ^ 10" "worst_entry_price a = worst_of (entry_candidate e)"
    "unit_price_risk a = unit_risk_of (entry_candidate e)"
    by auto
  note largest = quantity_largest [OF r(7,1,8,9), unfolded r(10,11), OF risk_units [OF assms(1)]]
  show ?thesis using r(1-4) b cap largest unfolding r(5,6,10,11) by blast
qed

theorem risk_size_within_budgets_witness:
  "\<exists>c p a. evaluate_risk sample_risk_policy sample_texts (sample_entry c) p (Aware hour_us) = Inr a
     \<and> max_quantity a = 1 \<and> unit_price_risk a \<le> risk_budget a \<and> worst_entry_price a \<le> notional_budget a"
proof -
  obtain c p where s: "assessable sample_risk_policy sample_texts (sample_entry c) p"
    "cand_plan c = Some sample_plan" "cand_action c = ActionLong" "is_selectable c hour_us"
    "entry_candidate (sample_entry c) = c" "entry_total (sample_entry c) = 1" "entry_rank (sample_entry c) = 1"
    "pf_status p = ACTIVE" "pf_positions p = []" "pf_cash p = 100" "pf_equity p = 100"
    "cand_dataset_id c = pf_dataset_id p"
    by (rule sample_assessable)
  obtain a where a: "evaluate_risk sample_risk_policy sample_texts (sample_entry c) p (Aware hour_us) = Inr a"
    "max_quantity a = 1"
    by (rule sample_approved [OF s(2-12) s(1)])
  from risk_size_within_budgets [OF s(1) a(1)] a show ?thesis by auto
qed

end
