(* ===== verification/Simulation.thy ===== *)
theory Simulation imports Risk_Properties
begin

text \<open>
  From an approved candidate to a closed simulated position: the simulation runner
  (\<open>trd_bot/research/candidate_simulation_runner.py\<close>) opens the position, the position monitor
  (\<open>trd_bot/research/position_monitoring.py\<close>) walks over the later candles, marks the position
  and closes it at the first exit trigger.
\<close>

section \<open>Opening\<close>

record simulation =
  sim_opened_at :: int
  fill_price :: rat
  sim_quantity :: rat
  assessment :: risk_assessment
  selected_candidate :: candidate
  opened :: simulated_position
  sim_portfolio :: portfolio

definition CandidateSimulationResult :: "simulation \<Rightarrow> simulation result" where
  "CandidateSimulationResult s =
     bindR (check_fields [(''fill_price'', 0 < fill_price s), (''quantity'', 0 < sim_quantity s)] s)
       (raising
         [(decision (assessment s) \<noteq> APPROVED,
             ValueError ''simulation result requires an approved risk assessment''),
          (candidate_id (selected_candidate s) \<noteq> candidate_id (entry_candidate (assessed_entry (assessment s))),
             ValueError ''selected candidate does not match risk assessment''),
          (cand_status (selected_candidate s) \<noteq> SELECTED,
             ValueError ''simulation result requires a selected candidate''),
          (status_changed_at (selected_candidate s) \<noteq> Some (sim_opened_at s),
             ValueError ''candidate selection time must match simulated open time''),
          (pf_id (sim_portfolio s) \<noteq> assessed_portfolio (assessment s),
             ValueError ''simulated portfolio does not match risk assessment''),
          (sp_portfolio_id (opened s) \<noteq> pf_id (sim_portfolio s),
             ValueError ''opened position belongs to another simulated portfolio''),
          (sp_status (opened s) \<noteq> PositionOpen,
             ValueError ''simulation result requires an open simulated position''),
          (sp_pair (opened s) \<noteq> cand_pair (selected_candidate s),
             ValueError ''opened position pair does not match selected candidate''),
          (sp_entry_price (opened s) \<noteq> fill_price s,
             ValueError ''opened position price does not match simulation fill''),
          (sp_quantity (opened s) \<noteq> sim_quantity s,
             ValueError ''opened position quantity does not match simulation result''),
          (sp_opened_at (opened s) \<noteq> sim_opened_at s,
             ValueError ''opened position time does not match simulation result''),
          (filter (\<lambda>q. sp_id q = sp_id (opened s)) (pf_positions (sim_portfolio s)) \<noteq> [opened s],
             ValueError ''opened position is not present exactly once in portfolio'')])"

definition simulation_quantity :: "risk_assessment \<Rightarrow> portfolio \<Rightarrow> rat \<Rightarrow> rat result" where
  "simulation_quantity a p fill =
     (case cand_plan (entry_candidate (assessed_entry a)) of
        None \<Rightarrow> Inl (ValueError ''directional candidate requires a trade plan'')
      | Some plan \<Rightarrow>
        (let unit_risk = dabs (dsub fill (invalidation_price plan)) in
         if unit_risk \<le> 0 then Inl (ValueError ''simulation unit price risk must be greater than zero'')
         else bindR (ddiv (risk_budget a) unit_risk) (\<lambda>risk_limited.
           bindR (ddiv (notional_budget a) fill) (\<lambda>notional_limited.
           bindR (ddiv (pf_cash p) (dmul fill (dadd 1 (pf_fee_rate p)))) (\<lambda>cash_limited.
           quantize round_down 8
             (min (min (min (max_quantity a) risk_limited) notional_limited) cash_limited))))))"

fun side_of_action :: "candidate_action \<Rightarrow> position_side result" where
  "side_of_action ActionLong = Inr SideLong"
| "side_of_action ActionShort = Inr SideShort"
| "side_of_action _ = Inl (ValueError ''simulation runner only accepts directional candidates'')"

definition run_simulation ::
  "risk_assessment \<Rightarrow> portfolio \<Rightarrow> rat \<Rightarrow> timestamp \<Rightarrow> simulation result" where
  "run_simulation a p fill occurred =
     bindR (candidate_timestamp occurred) (\<lambda>t.
     let c = entry_candidate (assessed_entry a) in
     bindR (raising
       [(decision a \<noteq> APPROVED, ValueError ''risk assessment must be approved before simulation''),
        (assessed_portfolio a \<noteq> pf_id p, ValueError ''risk assessment belongs to another simulated portfolio''),
        (portfolio_updated_at a \<noteq> pf_updated_at p,
           ValueError ''simulated portfolio changed after risk assessment''),
        (t < evaluated_at a, ValueError ''simulation cannot precede risk assessment''),
        (pf_status p \<noteq> ACTIVE, ValueError ''simulated portfolio must be active''),
        (list_ex (\<lambda>q. sp_status q = PositionOpen) (pf_positions p),
           ValueError ''simulated portfolio already has an open position''),
        (cand_dataset_id c \<noteq> pf_dataset_id p,
           ValueError ''candidate and simulated portfolio dataset must match''),
        (\<not> is_selectable c t, ValueError ''candidate is no longer selectable for simulation'')] ()) (\<lambda>_.
     case cand_plan c of None \<Rightarrow> Inl (ValueError ''directional candidate requires a trade plan'')
     | Some plan \<Rightarrow>
     bindR (raising [(\<not> (lower_price (plan_zone plan) \<le> fill \<and> fill \<le> upper_price (plan_zone plan)),
        ValueError ''simulation fill price must be inside candidate entry zone'')] ()) (\<lambda>_.
     bindR (simulation_quantity a p fill) (\<lambda>qty.
     bindR (raising [(qty \<le> 0,
        ValueError ''approved assessment leaves no executable simulated quantity'')] ()) (\<lambda>_.
     bindR (select (Aware t) c) (\<lambda>sel.
     bindR (side_of_action (cand_action sel)) (\<lambda>side.
     bindR (ledger_open (cand_pair sel) side fill qty (Aware t) p) (\<lambda>p'.
     CandidateSimulationResult \<lparr>sim_opened_at = t, fill_price = fill, sim_quantity = qty, assessment = a,
       selected_candidate = sel, opened = last (pf_positions p'), sim_portfolio = p'\<rparr>))))))))"

section \<open>Monitoring\<close>

datatype candidate_exit_reason =
  INVALIDATION | TARGET | TREND_REVERSAL | PORTFOLIO_RISK | DATA_UNRELIABLE | TIME_EXPIRY | END_OF_DATA

record exit_directive =
  directive_reason :: candidate_exit_reason
  directive_at :: int

definition CandidateExitDirective :: "candidate_exit_reason \<Rightarrow> timestamp \<Rightarrow> exit_directive result" where
  "CandidateExitDirective rsn occurred =
     bindR (check_fields [(''occurred_at'', aware occurred)]
              \<lparr>directive_reason = rsn, directive_at = instant occurred\<rparr>)
       (raising [(rsn \<notin> {TREND_REVERSAL, PORTFOLIO_RISK, DATA_UNRELIABLE},
          ValueError ''exit directive reason must be trend reversal, portfolio risk, or data unreliable'')])"

record exit_trigger =
  trigger_reason :: candidate_exit_reason
  trigger_price :: rat
  trigger_at :: int
  trigger_open :: int
  trigger_close :: int
  trigger_label :: "string option"

definition CandidateExitTrigger :: "exit_trigger \<Rightarrow> exit_trigger result" where
  "CandidateExitTrigger g =
     bindR (check_fields [(''price'', 0 < trigger_price g),
         (''target_label'', case trigger_label g of None \<Rightarrow> True | Some l \<Rightarrow> sized 1 100 l)] g)
       (raising
         [(trigger_close g \<le> trigger_open g, ValueError ''exit trigger candle close must be after open''),
          (trigger_at g \<noteq> trigger_close g, ValueError ''exit trigger time must equal closed candle time''),
          (trigger_reason g = TARGET \<and> trigger_label g = None,
             ValueError ''target exit requires a target label''),
          (trigger_reason g \<noteq> TARGET \<and> trigger_label g \<noteq> None,
             ValueError ''only target exit can contain a target label'')])"

definition trigger_on :: "candle \<Rightarrow> candidate_exit_reason \<Rightarrow> rat \<Rightarrow> string option \<Rightarrow> exit_trigger result" where
  "trigger_on k rsn price lbl = CandidateExitTrigger
     \<lparr>trigger_reason = rsn, trigger_price = price, trigger_at = close_time k,
      trigger_open = open_time k, trigger_close = close_time k, trigger_label = lbl\<rparr>"

record monitoring_result =
  mon_dataset_id :: string
  mon_candidate_id :: string
  mon_position_id :: string
  mon_opened_at :: int
  mon_closed_at :: int
  monitored_candles :: int
  marked_candles :: int
  trigger :: exit_trigger
  closed_one :: simulated_position
  final_portfolio :: portfolio

definition CandidatePositionMonitoringResult :: "monitoring_result \<Rightarrow> monitoring_result result" where
  "CandidatePositionMonitoringResult r =
     bindR (check_fields
         [(''dataset_id'', sized 1 100 (mon_dataset_id r)),
          (''candidate_id'', has_id_form ''candidate-'' 16 (mon_candidate_id r)),
          (''position_id'', has_id_form ''position-'' 16 (mon_position_id r)),
          (''monitored_candles'', 1 \<le> monitored_candles r), (''marked_candles'', 0 \<le> marked_candles r)] r)
       (raising
         [(mon_closed_at r \<le> mon_opened_at r, ValueError ''monitored position must close after opening''),
          (trigger_at (trigger r) \<noteq> mon_closed_at r,
             ValueError ''monitoring close time must match exit trigger''),
          (sp_id (closed_one r) \<noteq> mon_position_id r,
             ValueError ''monitoring position ID does not match closed position''),
          (sp_status (closed_one r) \<noteq> PositionClosed,
             ValueError ''monitoring result requires a closed position''),
          (sp_closed_at (closed_one r) \<noteq> Some (mon_closed_at r),
             ValueError ''closed position time does not match monitoring result''),
          (sp_exit_price (closed_one r) \<noteq> Some (trigger_price (trigger r)),
             ValueError ''closed position price does not match exit trigger''),
          (pf_updated_at (final_portfolio r) \<noteq> mon_closed_at r,
             ValueError ''final portfolio time must match position close''),
          (filter (\<lambda>q. sp_id q = mon_position_id r) (pf_positions (final_portfolio r)) \<noteq> [closed_one r],
             ValueError ''closed position must appear exactly once in final portfolio''),
          (monitored_candles r \<le> marked_candles r,
             ValueError ''final monitored candle must close rather than mark'')])"

definition validate_lineage :: "simulation \<Rightarrow> dataset \<Rightarrow> unit result" where
  "validate_lineage s ds = raising
     [(cand_dataset_id (selected_candidate s) \<noteq> dataset_id ds,
         ValueError ''candidate and monitoring dataset lineage must match''),
      (pf_dataset_id (sim_portfolio s) \<noteq> dataset_id ds,
         ValueError ''portfolio and monitoring dataset lineage must match''),
      (cand_pair (selected_candidate s) \<noteq> dataset_pair ds \<or> sp_pair (opened s) \<noteq> dataset_pair ds,
         ValueError ''position pair does not match monitoring dataset''),
      (cand_timeframe (selected_candidate s) \<noteq> dataset_timeframe ds,
         ValueError ''candidate timeframe does not match monitoring dataset''),
      (sp_status (opened s) \<noteq> PositionOpen,
         ValueError ''position monitor requires an open simulated position''),
      (pf_updated_at (sim_portfolio s) \<noteq> sim_opened_at s,
         ValueError ''simulation portfolio must be the entry snapshot'')] ()"

text \<open>The dictionary of directives by time; its keys are distinct when it is built.\<close>

definition prepare_directives :: "exit_directive list \<Rightarrow> candle list \<Rightarrow> (int \<rightharpoonup> exit_directive) result" where
  "prepare_directives directives future =
     raising
       [(\<not> distinct (map directive_at directives), ValueError ''exit directive times must be unique''),
        (list_ex (\<lambda>d. directive_at d \<notin> set (map close_time future)) directives,
           ValueError ''exit directives must match future closed candle times'')]
       (map_of (map (\<lambda>d. (directive_at d, d)) directives))"

definition price_trigger :: "candidate \<Rightarrow> candle \<Rightarrow> exit_trigger option result" where
  "price_trigger c k =
     (case cand_plan c of
        None \<Rightarrow> Inl (ValueError ''monitored directional candidate requires a trade plan'')
      | Some plan \<Rightarrow>
        (let inval = invalidation_price plan; target = hd (plan_targets plan) in
         if \<not> directional (cand_action c)
         then Inl (ValueError ''position monitor only accepts directional candidates'')
         else
          (let invalidation_hit = (if cand_action c = ActionLong then low_price k \<le> inval else inval \<le> high_price k);
               target_hit = (if cand_action c = ActionLong then target_price target \<le> high_price k
                             else low_price k \<le> target_price target) in
           if invalidation_hit then bindR (trigger_on k INVALIDATION inval None) (\<lambda>g. Inr (Some g))
           else if target_hit
           then bindR (trigger_on k TARGET (target_price target) (Some (target_label target))) (\<lambda>g. Inr (Some g))
           else Inr None)))"

definition directive_trigger :: "exit_directive \<Rightarrow> candle \<Rightarrow> portfolio \<Rightarrow> string \<Rightarrow> exit_trigger option result" where
  "directive_trigger d k p posid =
     bindR (if directive_reason d = DATA_UNRELIABLE
            then bindR (find_open posid 0 (pf_positions p)) (\<lambda>(i, q). Inr (sp_current_price q))
            else Inr (close_price k)) (\<lambda>price.
     bindR (trigger_on k (directive_reason d) price None) (\<lambda>g. Inr (Some g)))"

definition when_none :: "exit_trigger option \<Rightarrow> exit_trigger option result \<Rightarrow> exit_trigger option result" where
  "when_none g m = (case g of Some x \<Rightarrow> Inr (Some x) | None \<Rightarrow> m)"

text \<open>The trigger of one candle, in the code's order of precedence.\<close>

definition candle_trigger ::
  "candidate \<Rightarrow> string \<Rightarrow> exit_directive option \<Rightarrow> portfolio \<Rightarrow> candle \<Rightarrow> bool \<Rightarrow> exit_trigger option result" where
  "candle_trigger c posid d p k final =
     bindR (case d of
         Some dir \<Rightarrow> if directive_reason dir = DATA_UNRELIABLE then directive_trigger dir k p posid
                     else price_trigger c k
       | None \<Rightarrow> price_trigger c k) (\<lambda>g1.
     bindR (when_none g1 (case d of Some dir \<Rightarrow> directive_trigger dir k p posid | None \<Rightarrow> Inr None)) (\<lambda>g2.
     bindR (when_none g2 (if valid_until c \<le> close_time k
         then bindR (trigger_on k TIME_EXPIRY (close_price k) None) (\<lambda>g. Inr (Some g)) else Inr None)) (\<lambda>g3.
     when_none g3 (if final
         then bindR (trigger_on k END_OF_DATA (close_price k) None) (\<lambda>g. Inr (Some g)) else Inr None))))"

definition find_closed :: "portfolio \<Rightarrow> string \<Rightarrow> simulated_position result" where
  "find_closed p posid =
     (case List.find (\<lambda>q. sp_id q = posid \<and> sp_status q = PositionClosed) (pf_positions p) of
        Some q \<Rightarrow> Inr q | None \<Rightarrow> Inl (ValueError ''closed simulated position was not found''))"

fun monitor_loop ::
  "simulation \<Rightarrow> string \<Rightarrow> (int \<rightharpoonup> exit_directive) \<Rightarrow> int \<Rightarrow> portfolio \<Rightarrow> candle list \<Rightarrow> monitoring_result result" where
  "monitor_loop s ds_id directives index p [] =
     Inl (RuntimeError ''position monitoring exhausted candles without closing'')"
| "monitor_loop s ds_id directives index p (k # ks) =
     bindR (candle_trigger (selected_candidate s) (sp_id (opened s)) (directives (close_time k)) p k (ks = [])) (\<lambda>g.
     case g of
       Some g \<Rightarrow>
         bindR (ledger_close (sp_id (opened s)) (trigger_price g) (Aware (trigger_at g)) p) (\<lambda>p'.
         bindR (find_closed p' (sp_id (opened s))) (\<lambda>q.
         CandidatePositionMonitoringResult
           \<lparr>mon_dataset_id = ds_id, mon_candidate_id = candidate_id (selected_candidate s),
            mon_position_id = sp_id (opened s), mon_opened_at = sim_opened_at s,
            mon_closed_at = trigger_at g, monitored_candles = index + 1, marked_candles = index,
            trigger = g, closed_one = q, final_portfolio = p'\<rparr>))
     | None \<Rightarrow>
         bindR (ledger_mark (sp_id (opened s)) (close_price k) (Aware (close_time k)) p) (\<lambda>p'.
         monitor_loop s ds_id directives (index + 1) p' ks))"

definition run_monitor :: "simulation \<Rightarrow> dataset \<Rightarrow> exit_directive list \<Rightarrow> monitoring_result result" where
  "run_monitor s ds directives =
     bindR (validate_lineage s ds) (\<lambda>_.
     let future = filter (\<lambda>k. sim_opened_at s \<le> open_time k) (candles ds) in
     bindR (raising [(future = [], ValueError ''dataset has no closed candle after simulated entry'')] ()) (\<lambda>_.
     bindR (prepare_directives directives future) (\<lambda>by_time.
     monitor_loop s (dataset_id ds) by_time 0 (sim_portfolio s) future)))"

end
