(* ===== verification/Simulation_Runner.thy ===== *)
theory Simulation_Runner imports Simulation
begin

text \<open>
  When the simulation runner opens a position (\<open>run_simulation\<close>): the quantity of a fill, the cash it
  needs, and the effect on the portfolio.
\<close>

section \<open>The quantity of a fill\<close>

definition fill_quantity :: "risk_assessment \<Rightarrow> portfolio \<Rightarrow> rat \<Rightarrow> rat \<Rightarrow> rat" where
  "fill_quantity a p fill stop =
     of_int (round_down (min (min (min (max_quantity a) (dquot (risk_budget a) \<bar>fill - stop\<bar>))
       (dquot (notional_budget a) fill)) (dquot (pf_cash p) (dmul fill (dadd 1 (pf_fee_rate p)))) * 10 ^ 8)) / 10 ^ 8"

lemma simulation_quantity_runs:
  assumes plan: "cand_plan (entry_candidate (assessed_entry a)) = Some plan"
    and fill: "on_grid 8 fill" "0 < fill" "fill \<le> 10 ^ 12"
    and stop: "on_grid 8 (invalidation_price plan)" "0 < invalidation_price plan" "invalidation_price plan \<le> 10 ^ 12"
      "fill \<noteq> invalidation_price plan"
    and a: "on_grid 8 (risk_budget a)" "0 \<le> risk_budget a" "risk_budget a \<le> 10 ^ 10"
      "on_grid 8 (notional_budget a)" "0 \<le> notional_budget a" "notional_budget a \<le> 10 ^ 10"
      "0 \<le> max_quantity a" "max_quantity a \<le> 10 ^ 19"
    and p: "0 \<le> pf_cash p" "0 \<le> pf_fee_rate p"
  defines "q \<equiv> fill_quantity a p fill (invalidation_price plan)"
  shows "simulation_quantity a p fill = Inr q" "on_grid 8 q" "0 \<le> q" "q * \<bar>fill - invalidation_price plan\<bar> \<le> risk_budget a"
    "q * fill \<le> notional_budget a"
proof -
  let ?u = "\<bar>fill - invalidation_price plan\<bar>"
  note u = exact_distance [OF fill(1) stop(1) fill(2,3) stop(2,3)]
  have pos: "0 < ?u" using stop(4) by simp
  have cost: "0 < dmul fill (dadd 1 (pf_fee_rate p))"
    using fill(2) p(2) dc.rnd_positive by (simp add: dmul_def dadd_def)
  let ?m = "min (min (min (max_quantity a) (dquot (risk_budget a) ?u)) (dquot (notional_budget a) fill))
    (dquot (pf_cash p) (dmul fill (dadd 1 (pf_fee_rate p))))"
  have m: "0 \<le> ?m" "?m \<le> 10 ^ 19"
    using a(2,5,7,8) p(1) pos fill(2) cost dquot_nonneg by (simp_all add: min_le_iff_disj)
  then have "\<bar>?m\<bar> * 10 ^ 8 \<le> 10 ^ 28 - 2" by simp
  then obtain r where r: "quantize round_down 8 ?m = Inr r" by (rule down.quantize_returns)
  then have "r = q" using down.quantize_result(3) [OF r] by (simp add: q_def fill_quantity_def)
  with r show "simulation_quantity a p fill = Inr q"
    using u(1) pos fill(2) cost plan by (simp add: simulation_quantity_def ddiv_nonzero Let_def)
  note d = round_down_result [OF r m(1), unfolded \<open>r = q\<close>]
  show "on_grid 8 q" "0 \<le> q" by (rule d(1), rule d(2))
  have "q \<le> dquot (risk_budget a) ?u" "q \<le> dquot (notional_budget a) fill" using d(3) by simp_all
  then show "q * ?u \<le> risk_budget a" "q * fill \<le> notional_budget a"
    using floored_quotient [OF a(1-3) u(4) pos d(1)] floored_quotient [OF a(4-6) fill(1,2) d(1)] by simp_all
qed

section \<open>The cash a fill needs\<close>

lemma to_money_error: "\<bar>to_money x - x\<bar> \<le> 1 / (2 * 10 ^ 8)"
  using round_half_even_error [of "x * 10 ^ 8"] by (simp add: to_money_def field_simps)

lemma near_le: "\<bar>a - b\<bar> \<le> e \<Longrightarrow> a \<le> b + e" for a b e :: rat
  by linarith

lemma to_money_positive: "1 / 10 ^ 8 \<le> x \<Longrightarrow> 0 < to_money x"
proof -
  assume x: "1 / 10 ^ 8 \<le> x"
  then have "of_int 1 \<le> x * 10 ^ 8" by (simp add: field_simps)
  then have "round_half_even (of_int 1) \<le> round_half_even (x * 10 ^ 8)" by (rule round_half_even_mono)
  then show ?thesis by (simp add: to_money_def round_half_even_of_int del: of_int_1)
qed

lemma fill_affordable:
  assumes "0 \<le> x" "x \<le> 10 ^ 10" "0 \<le> fee" "fee < 1"
  shows "to_money (dround x) + to_money (dmul (to_money (dround x)) fee) \<le> x * (1 + fee) + 3 / 10 ^ 8"
proof -
  let ?n = "to_money (dround x)"
  have "\<bar>dround x - x\<bar> \<le> 10 ^ 10 * (1 / (2 * 10 ^ 27))"
    using dround_error [of x] assms(1,2) by (elim order_trans) (intro mult_right_mono, auto)
  then have "\<bar>dround x - x\<bar> \<le> 1 / (4 * 10 ^ 9)" by simp
  then have n: "?n \<le> x + 3 / (4 * 10 ^ 8)" using near_le [OF to_money_error [of "dround x"]] near_le by fastforce
  have n0: "0 \<le> ?n"
  proof -
    have "0 \<le> dround x" using assms(1) dc.rnd_nonneg by simp
    then show ?thesis
      using round_half_even_mono [of 0 "dround x * 10 ^ 8"] round_half_even_of_int [of 0] by (simp add: to_money_def)
  qed
  have "?n * fee \<le> (x + 3 / (4 * 10 ^ 8)) * fee" using n assms(3) by (intro mult_right_mono) auto
  moreover have "(x + 3 / (4 * 10 ^ 8)) * fee \<le> x * fee + 3 / (4 * 10 ^ 8)"
    using assms(3,4) by (simp add: algebra_simps)
  ultimately have nf: "?n * fee \<le> x * fee + 3 / (4 * 10 ^ 8)" by linarith
  have "x * fee \<le> 10 ^ 10 * 1" using assms by (intro mult_mono) auto
  then have "\<bar>?n * fee\<bar> \<le> 2 * 10 ^ 10" using nf n0 assms(3) by simp
  then have "\<bar>dmul ?n fee - ?n * fee\<bar> \<le> 2 * 10 ^ 10 * (1 / (2 * 10 ^ 27))"
    using dround_error [of "?n * fee"] unfolding dmul_def by (elim order_trans) (intro mult_right_mono, auto)
  from near_le [OF this] have "dmul ?n fee \<le> ?n * fee + 1 / 10 ^ 16" by simp
  then have "to_money (dmul ?n fee) \<le> ?n * fee + 51 / (100 * 10 ^ 8)" using near_le [OF to_money_error [of "dmul ?n fee"]] by simp
  with n nf show ?thesis by (simp add: algebra_simps)
qed

lemma buffered_cash:
  assumes "0 \<le> cash" "cash \<le> 10 ^ 9" "0 \<le> b" "b < 1" "0 \<le> fee" "fee < 1"
    and "1 / 10 ^ 7 \<le> cash * (b - fee)" "0 \<le> x" "x \<le> to_money (dmul cash (dsub 1 b))" "x \<le> 10 ^ 10"
  shows "to_money (dround x) + to_money (dmul (to_money (dround x)) fee) \<le> cash"
proof -
  have d: "0 \<le> dsub 1 b" "dsub 1 b \<le> 1" using dc.rnd_unit_interval [of "1 - b"] assms(3,4) by (simp_all add: dsub_def)
  have "\<bar>dsub 1 b - (1 - b)\<bar> \<le> 1 * (1 / (2 * 10 ^ 27))"
    using dround_error [of "1 - b"] assms(3,4) unfolding dsub_def by (elim order_trans) (intro mult_right_mono, auto)
  from near_le [OF this] have "dsub 1 b \<le> (1 - b) + 1 / 10 ^ 27" by simp
  then have "cash * dsub 1 b \<le> cash * ((1 - b) + 1 / 10 ^ 27)" using assms(1) by (intro mult_left_mono) auto
  also have "\<dots> \<le> cash * (1 - b) + 1 / 10 ^ 18" using assms(2) by (simp add: algebra_simps)
  finally have "x \<le> cash * (1 - b) + 1 / 10 ^ 18 + 1 / 10 ^ 8"
    using money_budget [OF assms(1,2) d] assms(9) by linarith
  then have "x \<le> cash * (1 - b) + 2 / 10 ^ 8" by simp
  then have "x * (1 + fee) \<le> (cash * (1 - b) + 2 / 10 ^ 8) * (1 + fee)" using assms(5) by (intro mult_right_mono) auto
  also have "\<dots> = cash - cash * (b - fee) - cash * b * fee + 2 / 10 ^ 8 * (1 + fee)" by (simp add: algebra_simps)
  also have "\<dots> \<le> cash - 1 / 10 ^ 7 + 4 / 10 ^ 8"
  proof -
    have "0 \<le> cash * b * fee" "2 / 10 ^ 8 * (1 + fee) \<le> 2 / 10 ^ 8 * 2"
      using assms by (simp_all add: mult_left_mono)
    moreover have "2 / 10 ^ 8 * 2 = (4 / 10 ^ 8 :: rat)" by simp
    ultimately show ?thesis using assms(7) by linarith
  qed
  finally have "x * (1 + fee) \<le> cash - 6 / 10 ^ 8" by simp
  with fill_affordable [OF assms(8,10,5,6)] show ?thesis by simp
qed


section \<open>Opening an approved candidate\<close>

text \<open>A fill of an approved assessment: later, inside the entry zone, on the money grid.\<close>

definition fill_in_zone :: "ranking_entry \<Rightarrow> risk_assessment \<Rightarrow> portfolio \<Rightarrow> rat \<Rightarrow> int \<Rightarrow> bool" where
  "fill_in_zone e a p fill t \<longleftrightarrow>
     (let plan = the (cand_plan (entry_candidate e)) in
      simulated p \<and> turnover p \<le> 10 ^ 16 \<and> pf_updated_at p < t \<and> evaluated_at a \<le> t
      \<and> is_selectable (entry_candidate e) t
      \<and> on_grid 8 fill \<and> lower_price (plan_zone plan) \<le> fill \<and> fill \<le> upper_price (plan_zone plan)
      \<and> build_position_id (pf_id p) (int (length (pf_positions p)) + 1) t \<notin> sp_id ` set (pf_positions p))"

text \<open>The cash times the excess of the policy's buffer over the fee rate is at least 10^-7: enough for every fill.\<close>

definition buffered :: "risk_policy \<Rightarrow> portfolio \<Rightarrow> bool" where
  "buffered pol p \<longleftrightarrow> 1 / 10 ^ 7 \<le> pf_cash p * (cash_buffer_fraction pol - pf_fee_rate p)"

definition fillable :: "risk_policy \<Rightarrow> ranking_entry \<Rightarrow> risk_assessment \<Rightarrow> portfolio \<Rightarrow> rat \<Rightarrow> int \<Rightarrow> bool" where
  "fillable pol e a p fill t \<longleftrightarrow> fill_in_zone e a p fill t \<and> buffered pol p"

definition filled_quantity :: "ranking_entry \<Rightarrow> risk_assessment \<Rightarrow> portfolio \<Rightarrow> rat \<Rightarrow> rat" where
  "filled_quantity e a p fill = fill_quantity a p fill (invalidation_price (the (cand_plan (entry_candidate e))))"

definition side_taken :: "candidate \<Rightarrow> position_side" where
  "side_taken c = (if cand_action c = ActionLong then SideLong else SideShort)"

lemma filled_quantity_runs:
  assumes ok: "assessable pol tx e p" and a: "evaluate_risk pol tx e p (Aware t0) = Inr a"
    and f: "fill_in_zone e a p fill t"
  defines "q \<equiv> filled_quantity e a p fill" and "stop \<equiv> invalidation_price (the (cand_plan (entry_candidate e)))"
  shows "simulation_quantity a p fill = Inr q" "on_grid 8 q" "0 \<le> q" "q * \<bar>fill - stop\<bar> \<le> risk_budget a"
    "q * fill \<le> notional_budget a" "0 < fill" "fill * q \<le> 10 ^ 10"
    "buffered pol p \<Longrightarrow> notional_of fill q + entry_fee_of p fill q \<le> pf_cash p"
proof -
  let ?c = "entry_candidate e"
  note k = ok [unfolded assessable_def] and g = f [unfolded fill_in_zone_def Let_def]
  have v: "valid_portfolio p" using k by simp
  have pol: "CandidateRiskPolicy pol = Inr pol" using k by blast
  from evaluate_runs [OF ok, of t0] a have r:
    "assessed_entry a = e" "on_grid 8 (risk_budget a)" "risk_budget a \<le> 10 ^ 10" "on_grid 8 (notional_budget a)"
    "notional_budget a \<le> 10 ^ 10" "0 \<le> max_quantity a" "max_quantity a * unit_risk_of ?c \<le> risk_budget a"
    "max_quantity a * worst_of ?c \<le> notional_budget a"
    "notional_budget a \<le> to_money (dmul (pf_cash p) (dsub 1 (cash_buffer_fraction pol)))"
    by auto
  obtain plan j js where c: "cand_plan ?c = Some plan" "plan_targets plan = j # js"
    "on_grid 8 (worst_of ?c)" "0 < worst_of ?c" "worst_of ?c \<le> 10 ^ 12"
    "on_grid 8 (invalidation_price plan)" "0 < invalidation_price plan" "invalidation_price plan \<le> 10 ^ 12"
    "on_grid 8 (target_price j)" "0 < target_price j" "target_price j \<le> 10 ^ 12"
    "worst_of ?c \<noteq> invalidation_price plan" "worst_case_entry_price ?c = Inr (worst_of ?c)"
    using plan_prices [of ?c] k by blast
  have geo: "plan_ok plan" "plan_geometry (cand_action ?c) plan" and act: "directional (cand_action ?c)" and m: "money_plan plan"
    using directional_plan [of ?c] k c(1) by auto
  have fill: "0 < fill" "fill \<le> 10 ^ 12" "on_grid 8 fill" "fill \<noteq> invalidation_price plan"
    using g c(1) geo act m
    by (auto simp: plan_ok_iff plan_geometry_def Let_def directional_def money_plan_def)
  have "0 \<le> max_quantity a * unit_risk_of ?c" "0 \<le> max_quantity a * worst_of ?c"
    using r(6) c(4) by (simp_all add: unit_risk_of_def)
  then have nonneg: "0 \<le> risk_budget a" "0 \<le> notional_budget a" using r(7,8) by linarith+
  have "max_quantity a * (1 / 10 ^ 8) \<le> max_quantity a * worst_of ?c"
    using grid_unit [OF c(3,4)] r(6) by (intro mult_left_mono) auto
  then have "max_quantity a * (1 / 10 ^ 8) \<le> 10 ^ 10" using r(5,8) by linarith
  then have big: "max_quantity a \<le> 10 ^ 19" by simp
  have st: "stop = invalidation_price plan" and q: "q = fill_quantity a p fill (invalidation_price plan)"
    using c(1) by (simp_all add: stop_def q_def filled_quantity_def)
  have plan: "cand_plan (entry_candidate (assessed_entry a)) = Some plan" using r(1) c(1) by simp
  note s = simulation_quantity_runs [OF plan fill(3,1,2) c(6,7,8) fill(4) r(2) nonneg(1) r(3,4) nonneg(2) r(5,6) big
    valid_portfolio_facts(2,4) [OF v], folded q]
  show "simulation_quantity a p fill = Inr q" "on_grid 8 q" "0 \<le> q" "q * \<bar>fill - stop\<bar> \<le> risk_budget a"
    "q * fill \<le> notional_budget a" "0 < fill"
    using s fill(1) st by simp_all
  then show b: "fill * q \<le> 10 ^ 10" using r(5) by (simp add: mult.commute)
  have cash: "pf_cash p \<le> 10 ^ 9" using k by blast
  have bf: "0 \<le> cash_buffer_fraction pol" "cash_buffer_fraction pol < 1"
    using pol by (auto simp: CandidateRiskPolicy_def check_fields_Inr_iff)
  assume "buffered pol p"
  then have "1 / 10 ^ 7 \<le> pf_cash p * (cash_buffer_fraction pol - pf_fee_rate p)" by (simp only: buffered_def)
  moreover have "0 \<le> fill * q" "fill * q \<le> to_money (dmul (pf_cash p) (dsub 1 (cash_buffer_fraction pol)))"
    using s(3,5) fill(1) r(9) by (simp_all add: mult.commute)
  ultimately show "notional_of fill q + entry_fee_of p fill q \<le> pf_cash p"
    using buffered_cash [OF valid_portfolio_facts(2) [OF v] cash bf valid_portfolio_facts(4,5) [OF v]] b
    by (simp add: notional_of_def entry_fee_of_def dmul_def [of fill])
qed

lemma notional_positive: "1 / 10 ^ 8 \<le> fill * q \<Longrightarrow> 0 < notional_of fill q"
proof -
  assume "1 / 10 ^ 8 \<le> fill * q"
  then have "dround (1 / 10 ^ 8) \<le> dround (fill * q)" by (rule dround_mono)
  moreover have "dround (1 / 10 ^ 8) = 1 / 10 ^ 8" using dround_grid [of 8 "1 / 10 ^ 8"] on_grid_frac [of 8 1] by simp
  ultimately have "1 / 10 ^ 8 \<le> dmul fill q" by (simp add: dmul_def)
  then show ?thesis unfolding notional_of_def by (rule to_money_positive)
qed

lemma simulation_outcome:
  assumes ok: "assessable pol tx e p" and a: "evaluate_risk pol tx e p (Aware t0) = Inr a" "decision a = APPROVED"
    and f: "fill_in_zone e a p fill t"
  defines "c \<equiv> entry_candidate e" and "q \<equiv> filled_quantity e a p fill"
  defines "n \<equiv> notional_of fill q" and "fee \<equiv> entry_fee_of p fill q"
  shows "q = 0 \<Longrightarrow> run_simulation a p fill (Aware t)
      = Inl (ValueError ''approved assessment leaves no executable simulated quantity'')"
    "0 < q \<Longrightarrow> pf_cash p < n + fee \<Longrightarrow> run_simulation a p fill (Aware t)
      = Inl (ValueError ''portfolio has insufficient simulated cash'')"
    "n = 0 \<Longrightarrow> \<exists>err. run_simulation a p fill (Aware t) = Inl err"
    "0 < n \<Longrightarrow> n + fee \<le> pf_cash p \<Longrightarrow> \<exists>s. run_simulation a p fill (Aware t) = Inr s \<and> CandidateSimulationResult s = Inr s
       \<and> simulated (sim_portfolio s) \<and> sim_quantity s = q \<and> fill_price s = fill \<and> sim_opened_at s = t
       \<and> selected_candidate s = c\<lparr>cand_status := SELECTED, status_changed_at := Some t\<rparr>
       \<and> opened s = opened_position p (cand_pair c) (side_taken c) fill q t n fee
       \<and> pf_positions (sim_portfolio s) = pf_positions p @ [opened s] \<and> pf_cash (sim_portfolio s) = pf_cash p - (n + fee)
       \<and> pf_fee_rate (sim_portfolio s) = pf_fee_rate p \<and> pf_dataset_id (sim_portfolio s) = pf_dataset_id p
       \<and> pf_updated_at (sim_portfolio s) = t \<and> turnover (sim_portfolio s) = turnover p + n + fee"
proof -
  note k = ok [unfolded assessable_def, folded c_def] and g = f [unfolded fill_in_zone_def Let_def, folded c_def]
  note quantity = filled_quantity_runs [OF ok a(1) f, folded q_def c_def]
  have v: "valid_portfolio p" "valid_candidate c" using k by simp_all
  from evaluate_runs [OF ok, of t0] a have r:
    "assessed_entry a = e" "evaluated_at a = t0" "assessed_portfolio a = pf_id p" "portfolio_updated_at a = pf_updated_at p"
    "pf_status p = ACTIVE" "cand_dataset_id c = pf_dataset_id p" "open_ones (pf_positions p) = []"
    by (auto simp: c_def)
  have none_open: "\<not> list_ex (\<lambda>q. sp_status q = PositionOpen) (pf_positions p)"
    using r(7) by (simp add: open_ones_def filter_empty_conv list_ex_iff)
  obtain plan where plan: "cand_plan c = Some plan" using directional_plan [OF v(2)] k by blast
  have zone: "lower_price (plan_zone plan) \<le> fill" "fill \<le> upper_price (plan_zone plan)" using g plan by simp_all
  have guards: "run_simulation a p fill (Aware t) =
     bindR (raising [(q \<le> 0, ValueError ''approved assessment leaves no executable simulated quantity'')] ()) (\<lambda>_.
     bindR (select (Aware t) c) (\<lambda>sel.
     bindR (side_of_action (cand_action sel)) (\<lambda>side.
     bindR (ledger_open (cand_pair sel) side fill q (Aware t) p) (\<lambda>p'.
     CandidateSimulationResult \<lparr>sim_opened_at = t, fill_price = fill, sim_quantity = q, assessment = a,
       selected_candidate = sel, opened = last (pf_positions p'), sim_portfolio = p'\<rparr>))))"
    using r(1-6) a(2) none_open g plan zone quantity(1)
    by (simp add: run_simulation_def raising.simps Let_def c_def [symmetric])
  show "q = 0 \<Longrightarrow> run_simulation a p fill (Aware t)
      = Inl (ValueError ''approved assessment leaves no executable simulated quantity'')"
    unfolding guards by (simp add: raising.simps)
  let ?sel = "c\<lparr>cand_status := SELECTED, status_changed_at := Some t\<rparr>"
  have sel: "select (Aware t) c = Inr ?sel" using select_Inr [OF v(2)] g by blast
  have side: "side_of_action (cand_action c) = Inr (side_taken c)"
    using k by (auto simp: directional_def side_taken_def)
  have pw: "(10 :: rat) ^ 10 \<le> 10 ^ 16" "(10 :: rat) ^ 16 \<le> 10 ^ 17" by simp_all
  then have sizes: "fill * q \<le> 10 ^ 17" "fill * q \<le> 10 ^ 16" "turnover p \<le> 10 ^ 17" "turnover p \<le> 10 ^ 16"
    using quantity(7) g by linarith+
  have sim: "simulated p" "pf_updated_at p < t"
    "build_position_id (pf_id p) (int (length (pf_positions p)) + 1) t \<notin> sp_id ` set (pf_positions p)"
    using g by blast+
  have ledger: "0 < q \<Longrightarrow> ledger_open (cand_pair c) (side_taken c) fill q (Aware t) p =
     bindR (raising [(n + fee > pf_cash p, ValueError ''portfolio has insufficient simulated cash'')] ()) (\<lambda>_.
     bindR (SimulatedPosition (opened_position p (cand_pair c) (side_taken c) fill q t n fee)) (\<lambda>x.
     bindR (quantize_money (dsub (pf_cash p) (n + fee))) (\<lambda>cash.
     bindR (quantize_money (dadd cash n)) (\<lambda>equity.
     bindR (position_event p PositionOpenedEvent t equity x fill None) (\<lambda>ev.
     bindR (quantize_money (dadd (pf_fees_paid p) fee)) (\<lambda>fees.
     SimulatedPortfolio (p\<lparr>pf_updated_at := t, pf_cash := cash, pf_equity := equity,
       pf_fees_paid := fees, pf_positions := pf_positions p @ [x], pf_timeline := pf_timeline p @ [ev]\<rparr>)))))))"
    using open_amounts(1-3) [OF quantity(6) _ valid_portfolio_facts(4,5) [OF v(1)] sizes(1), folded n_def fee_def]
      r(5) none_open sim(2) quantity(6)
    by (simp add: ledger_open_def require_active_def next_timestamp_def raising.simps)
  have bad: "\<exists>err. SimulatedPosition (opened_position p (cand_pair c) (side_taken c) fill q t 0 fee) = Inl err"
  proof (cases "SimulatedPosition (opened_position p (cand_pair c) (side_taken c) fill q t 0 fee)")
    case (Inr x)
    then show ?thesis by (simp add: SimulatedPosition_Inr position_fields_def opened_position_def)
  qed simp
  show "0 < q \<Longrightarrow> pf_cash p < n + fee \<Longrightarrow> run_simulation a p fill (Aware t)
      = Inl (ValueError ''portfolio has insufficient simulated cash'')"
    unfolding guards using sel side ledger by (simp add: raising.simps)
  show "\<exists>err. run_simulation a p fill (Aware t) = Inl err" if z: "n = 0"
  proof (cases "q = 0")
    case False
    then have q: "0 < q" using quantity(3) by simp
    show ?thesis
      unfolding guards using q sel side ledger [OF q] bad z by (auto simp: raising.simps)
  qed (simp add: guards raising.simps)
  assume npos: "0 < n" and afford: "n + fee \<le> pf_cash p"
  then have qpos: "0 < q"
    using quantity(3) to_money_fixed [of 0] by (cases "q = 0") (auto simp: n_def notional_of_def dmul_def)
  obtain p' where p': "ledger_open (cand_pair c) (side_taken c) fill q (Aware t) p = Inr p'"
    using open_runs [OF simulated_invariant [OF sim(1)] sizes(3) r(5,7) quantity(6) qpos sizes(1) sim(2,3), of "cand_pair c" "side_taken c"]
      npos afford by (auto simp: n_def fee_def)
  note eff = open_effect [OF sim(1) sizes(4,2) p', folded n_def fee_def]
  let ?q = "opened_position p (cand_pair c) (side_taken c) fill q t n fee"
  obtain ext: "extends p PositionOpenedEvent p'" using ledger_open_Inr [OF p'] by metis
  have "simulated p'" using sim(1) p' by (blast intro: stepped opens)
  then have "distinct (map sp_id (pf_positions p'))"
    using simulated_invariant by (auto simp: ledger_invariant_def valid_portfolio_iff well_built_def)
  then have "\<forall>y \<in> set (pf_positions p). sp_id y \<noteq> sp_id ?q" using eff(1) by (auto simp: image_iff)
  then have once: "filter (\<lambda>y. sp_id y = sp_id ?q) (pf_positions p') = [?q]" using eff(1) by (simp add: filter_empty_conv)
  have "0 \<le> fee" using open_amounts(5) [OF quantity(6) qpos valid_portfolio_facts(4,5) [OF v(1)] sizes(1)] by (simp add: fee_def)
  then have turn: "turnover p' = turnover p + n + fee"
    using eff(1) ext npos by (simp add: turnover_def extends_def position_turnover_def opened_position_def)
  let ?s = "\<lparr>sim_opened_at = t, fill_price = fill, sim_quantity = q, assessment = a,
       selected_candidate = ?sel, opened = ?q, sim_portfolio = p'\<rparr>"
  have "CandidateSimulationResult ?s = Inr ?s"
    using a(2) r(1,3) qpos quantity(6) once ext
    by (simp add: CandidateSimulationResult_def check_fields_def raising.simps c_def extends_def)
      (simp add: opened_position_def extends_def)
  moreover from this have "run_simulation a p fill (Aware t) = Inr ?s"
    unfolding guards using qpos sel side p' eff(1) by (simp add: raising.simps)
  ultimately show "\<exists>s. run_simulation a p fill (Aware t) = Inr s \<and> CandidateSimulationResult s = Inr s
       \<and> simulated (sim_portfolio s) \<and> sim_quantity s = q \<and> fill_price s = fill \<and> sim_opened_at s = t
       \<and> selected_candidate s = c\<lparr>cand_status := SELECTED, status_changed_at := Some t\<rparr>
       \<and> opened s = opened_position p (cand_pair c) (side_taken c) fill q t n fee
       \<and> pf_positions (sim_portfolio s) = pf_positions p @ [opened s] \<and> pf_cash (sim_portfolio s) = pf_cash p - (n + fee)
       \<and> pf_fee_rate (sim_portfolio s) = pf_fee_rate p \<and> pf_dataset_id (sim_portfolio s) = pf_dataset_id p
       \<and> pf_updated_at (sim_portfolio s) = t \<and> turnover (sim_portfolio s) = turnover p + n + fee"
    using \<open>simulated p'\<close> eff ext turn valid_portfolio_facts(9) [OF v(1)]
    by (intro exI [of _ ?s]) (simp add: extends_def)
qed

lemma simulation_opens:
  assumes ok: "assessable pol tx e p" and a: "evaluate_risk pol tx e p (Aware t0) = Inr a" "decision a = APPROVED"
    and f: "fillable pol e a p fill t" and big: "1 / 10 ^ 8 \<le> fill * filled_quantity e a p fill"
  defines "c \<equiv> entry_candidate e" and "q \<equiv> filled_quantity e a p fill"
  defines "n \<equiv> notional_of fill q" and "fee \<equiv> entry_fee_of p fill q"
  shows "\<exists>s. run_simulation a p fill (Aware t) = Inr s \<and> CandidateSimulationResult s = Inr s
       \<and> simulated (sim_portfolio s) \<and> sim_quantity s = q \<and> fill_price s = fill \<and> sim_opened_at s = t
       \<and> selected_candidate s = c\<lparr>cand_status := SELECTED, status_changed_at := Some t\<rparr>
       \<and> opened s = opened_position p (cand_pair c) (side_taken c) fill q t n fee
       \<and> pf_positions (sim_portfolio s) = pf_positions p @ [opened s] \<and> pf_cash (sim_portfolio s) = pf_cash p - (n + fee)
       \<and> pf_fee_rate (sim_portfolio s) = pf_fee_rate p \<and> pf_dataset_id (sim_portfolio s) = pf_dataset_id p
       \<and> pf_updated_at (sim_portfolio s) = t \<and> turnover (sim_portfolio s) = turnover p + n + fee"
proof -
  have z: "fill_in_zone e a p fill t" "buffered pol p" using f by (simp_all add: fillable_def)
  show ?thesis
    unfolding c_def n_def fee_def q_def
    using simulation_outcome(4) [OF ok a z(1)] notional_positive [OF big] filled_quantity_runs(8) [OF ok a(1) z] by blast
qed

text \<open>The sample candidate, approved and filled at its entry price.\<close>

lemma sample_fill:
  obtains c p a where "assessable sample_risk_policy sample_texts (sample_entry c) p" "entry_candidate (sample_entry c) = c"
    "candidate_life c" "cand_plan c = Some sample_plan" "cand_action c = ActionLong" "valid_until c = 5 * hour_us"
    "cand_dataset_id c = pf_dataset_id p" "cand_dataset_id c = ''dataset-1''" "cand_pair c = sample_pair" "cand_timeframe c = HOUR_1"
    "evaluate_risk sample_risk_policy sample_texts (sample_entry c) p (Aware hour_us) = Inr a"
    "decision a = APPROVED" "fillable sample_risk_policy (sample_entry c) a p 10 (2 * hour_us)"
    "filled_quantity (sample_entry c) a p 10 = 1" "risk_budget a = 1" "notional_budget a = 50"
    "pf_cash p = 100" "pf_fee_rate p = 1 / 1000" "turnover p = 100" "pf_positions p = []"
proof -
  obtain c p where s: "assessable sample_risk_policy sample_texts (sample_entry c) p"
    "cand_plan c = Some sample_plan" "cand_action c = ActionLong" "is_selectable c hour_us"
    "entry_candidate (sample_entry c) = c" "entry_total (sample_entry c) = 1" "entry_rank (sample_entry c) = 1"
    "pf_status p = ACTIVE" "pf_positions p = []" "pf_cash p = 100" "pf_equity p = 100"
    "cand_dataset_id c = pf_dataset_id p" "candidate_life c" "simulated p" "pf_starting_cash p = 100"
    "pf_fee_rate p = 1 / 1000" "pf_updated_at p = 0" "valid_until c = 5 * hour_us"
    "cand_dataset_id c = ''dataset-1''" "cand_pair c = sample_pair" "cand_timeframe c = HOUR_1"
    by (rule sample_assessable)
  obtain a where a: "evaluate_risk sample_risk_policy sample_texts (sample_entry c) p (Aware hour_us) = Inr a"
    "decision a = APPROVED" "max_quantity a = 1" "risk_budget a = 1" "notional_budget a = 50" "evaluated_at a = hour_us"
    by (rule sample_approved [OF s(2-12) s(1)])
  have "is_selectable c (2 * hour_us)" using s(4,18) by (simp add: is_selectable_def)
  moreover have "turnover p = 100" using s(9,15) by (simp add: turnover_def)
  ultimately have f: "fillable sample_risk_policy (sample_entry c) a p 10 (2 * hour_us)"
    using s a(6) on_grid_of_int [of 8 10]
    by (simp add: fillable_def fill_in_zone_def buffered_def sample_plan_def sample_risk_policy_def)
  have "1 \<le> dquot 100 (dmul 10 (dadd 1 (pf_fee_rate p)))"
    unfolding s(16) using dc.rnd_ge_int [of 1 "100 / (dmul 10 (dadd 1 (1 / 1000)))"] by (simp add: dquot_def dec_eval)
  moreover have "dquot 1 1 = 1" "dquot 50 10 = 5" by (simp_all add: dec_eval)
  ultimately have "filled_quantity (sample_entry c) a p 10 = of_int (round_down (10 ^ 8)) / 10 ^ 8"
    using s(2,5,10) a(3-5)
    by (simp add: filled_quantity_def fill_quantity_def sample_plan_def min_absorb1)
  then have "filled_quantity (sample_entry c) a p 10 = 1" by (simp add: round_down_def)
  with s a f \<open>turnover p = 100\<close> show ?thesis by (intro that) simp_all
qed

section \<open>Properties\<close>

text \<open>
  C19: What the simulation runner does with an approved assessment whose fill comes no earlier than the
  assessment and later than the portfolio's last update, while the candidate is still selectable, at a
  price on the eight-digit grid inside the entry zone, on a reachable portfolio of bounded turnover whose
  next position id is new. The outcome is decided by the computed quantity and by its notional and entry
  fee. A zero quantity raises; a notional with fee above the cash raises the missing cash; a notional that
  rounds to zero raises. In every other case the run returns: one new open position of exactly that
  quantity, the candidate selected at the fill time, and cash reduced by exactly notional and entry fee,
  not negative. The quantity always keeps the loss at the invalidation within the risk budget and the
  notional within the notional budget. The cash suffices whenever the cash times the excess of the policy's
  buffer over the fee rate is at least 10^-7, and the notional is positive when price times quantity is at
  least 10^-8.
\<close>

theorem approved_candidate_opens:
  assumes "assessable pol tx e p" "evaluate_risk pol tx e p (Aware t0) = Inr a" "decision a = APPROVED"
    and "fill_in_zone e a p fill t"
  defines "q \<equiv> filled_quantity e a p fill"
  defines "n \<equiv> notional_of fill q" and "fee \<equiv> entry_fee_of p fill q"
  shows "(if q = 0 then run_simulation a p fill (Aware t)
         = Inl (ValueError ''approved assessment leaves no executable simulated quantity'')
     else if pf_cash p < n + fee then run_simulation a p fill (Aware t)
         = Inl (ValueError ''portfolio has insufficient simulated cash'')
     else if n = 0 then \<exists>err. run_simulation a p fill (Aware t) = Inl err
     else \<exists>s. run_simulation a p fill (Aware t) = Inr s \<and> sim_quantity s = q
       \<and> pf_positions (sim_portfolio s) = pf_positions p @ [opened s] \<and> sp_status (opened s) = PositionOpen
       \<and> sp_entry_price (opened s) = fill \<and> sp_quantity (opened s) = q
       \<and> sp_side (opened s) = side_taken (entry_candidate e)
       \<and> sp_reserved (opened s) = n \<and> sp_entry_fee (opened s) = fee
       \<and> cand_status (selected_candidate s) = SELECTED \<and> status_changed_at (selected_candidate s) = Some t
       \<and> pf_cash (sim_portfolio s) = pf_cash p - (n + fee) \<and> 0 \<le> pf_cash (sim_portfolio s))
    \<and> 0 \<le> q \<and> q * \<bar>fill - invalidation_price (the (cand_plan (entry_candidate e)))\<bar> \<le> risk_budget a
    \<and> q * fill \<le> notional_budget a
    \<and> (buffered pol p \<longrightarrow> n + fee \<le> pf_cash p) \<and> (1 / 10 ^ 8 \<le> fill * q \<longrightarrow> 0 < n)"
proof -
  note q = filled_quantity_runs [OF assms(1,2,4), folded q_def n_def fee_def]
  note outcome = simulation_outcome [OF assms(1-4), folded q_def n_def fee_def]
  have "0 \<le> dround (fill * q)" using q(3,6) dc.rnd_nonneg by simp
  then have n: "0 \<le> n"
    using round_half_even_mono [of 0 "dround (fill * q) * 10 ^ 8"] round_half_even_of_int [of 0]
    by (simp add: n_def notional_of_def to_money_def dmul_def)
  have opens: "0 < n \<Longrightarrow> n + fee \<le> pf_cash p \<Longrightarrow> \<exists>s. run_simulation a p fill (Aware t) = Inr s \<and> sim_quantity s = q
       \<and> pf_positions (sim_portfolio s) = pf_positions p @ [opened s] \<and> sp_status (opened s) = PositionOpen
       \<and> sp_entry_price (opened s) = fill \<and> sp_quantity (opened s) = q
       \<and> sp_side (opened s) = side_taken (entry_candidate e)
       \<and> sp_reserved (opened s) = n \<and> sp_entry_fee (opened s) = fee
       \<and> cand_status (selected_candidate s) = SELECTED \<and> status_changed_at (selected_candidate s) = Some t
       \<and> pf_cash (sim_portfolio s) = pf_cash p - (n + fee) \<and> 0 \<le> pf_cash (sim_portfolio s)"
    by (frule (1) outcome(4)) (auto simp: opened_position_def)
  have "if q = 0 then run_simulation a p fill (Aware t)
         = Inl (ValueError ''approved assessment leaves no executable simulated quantity'')
     else if pf_cash p < n + fee then run_simulation a p fill (Aware t)
         = Inl (ValueError ''portfolio has insufficient simulated cash'')
     else if n = 0 then \<exists>err. run_simulation a p fill (Aware t) = Inl err
     else \<exists>s. run_simulation a p fill (Aware t) = Inr s \<and> sim_quantity s = q
       \<and> pf_positions (sim_portfolio s) = pf_positions p @ [opened s] \<and> sp_status (opened s) = PositionOpen
       \<and> sp_entry_price (opened s) = fill \<and> sp_quantity (opened s) = q
       \<and> sp_side (opened s) = side_taken (entry_candidate e)
       \<and> sp_reserved (opened s) = n \<and> sp_entry_fee (opened s) = fee
       \<and> cand_status (selected_candidate s) = SELECTED \<and> status_changed_at (selected_candidate s) = Some t
       \<and> pf_cash (sim_portfolio s) = pf_cash p - (n + fee) \<and> 0 \<le> pf_cash (sim_portfolio s)"
    using n q(3) by (auto intro!: outcome(1-3) opens)
  moreover have "1 / 10 ^ 8 \<le> fill * q \<longrightarrow> 0 < n" using notional_positive by (simp only: n_def) blast
  ultimately show ?thesis using q by blast
qed

theorem approved_candidate_opens_witness:
  "\<exists>c p a s. evaluate_risk sample_risk_policy sample_texts (sample_entry c) p (Aware hour_us) = Inr a
     \<and> pf_cash p = 100 \<and> run_simulation a p 10 (Aware (2 * hour_us)) = Inr s \<and> sim_quantity s = 1
     \<and> sp_entry_price (opened s) = 10 \<and> sp_reserved (opened s) = 10 \<and> sp_side (opened s) = SideLong
     \<and> cand_status (selected_candidate s) = SELECTED \<and> pf_cash (sim_portfolio s) = 8999 / 100"
proof -
  obtain c p a where s: "assessable sample_risk_policy sample_texts (sample_entry c) p"
    "evaluate_risk sample_risk_policy sample_texts (sample_entry c) p (Aware hour_us) = Inr a"
    "decision a = APPROVED" "fillable sample_risk_policy (sample_entry c) a p 10 (2 * hour_us)"
    "filled_quantity (sample_entry c) a p 10 = 1" "cand_action c = ActionLong" "entry_candidate (sample_entry c) = c"
    "pf_cash p = 100" "pf_fee_rate p = 1 / 1000"
    by (rule sample_fill)
  have z: "fill_in_zone (sample_entry c) a p 10 (2 * hour_us)" "buffered sample_risk_policy p"
    using s(4) by (simp_all add: fillable_def)
  have "to_money 10 = 10" "to_money (1 / 100) = 1 / 100"
    using to_money_fixed on_grid_of_int [of 8 10] by (simp_all add: on_grid_def)
  then have n: "notional_of 10 1 = 10" "entry_fee_of p 10 1 = 1 / 100"
    by (simp_all add: notional_of_def entry_fee_of_def s(9) dec_eval)
  from approved_candidate_opens [OF s(1-3) z(1)] obtain x where "run_simulation a p 10 (Aware (2 * hour_us)) = Inr x"
    "sim_quantity x = 1" "sp_entry_price (opened x) = 10" "sp_reserved (opened x) = 10" "sp_side (opened x) = SideLong"
    "cand_status (selected_candidate x) = SELECTED" "pf_cash (sim_portfolio x) = 8999 / 100"
    by (auto simp: s(5,7,8) n side_taken_def s(6))
  with s(2,8) show ?thesis by blast
qed

text \<open>
  Without a cash buffer the cash limit alone is not enough: it divides by the price with the fee, but
  notional and fee are rounded separately afterwards and can exceed the cash by one unit.
\<close>

lemma cash_limited_fill_overruns:
  fixes cash :: rat
  defines "cash \<equiv> 81222025 / 10 ^ 8" and "q \<equiv> 154708619 / 10 ^ 8"
  shows "of_int (round_down (dquot cash (dmul (1 / 2) (dadd 1 (1 / 20))) * 10 ^ 8)) / 10 ^ 8 = q"
    "cash < to_money (dmul (1 / 2) q) + to_money (dmul (to_money (dmul (1 / 2) q)) (1 / 20))"
proof -
  have d: "dmul (1 / 2) (dadd 1 (1 / 20)) = 21 / 40" by (simp add: dec_eval)
  have e: "\<bar>dquot cash (21 / 40) - 81222025 / 52500000\<bar> \<le> 81222025 / 52500000 * (1 / (2 * 10 ^ 27))"
    using dround_error [of "81222025 / 52500000"] by (simp add: dquot_def cash_def)
  have "dquot cash (21 / 40) \<le> 81222025 / 52500000 + 81222025 / 52500000 * (1 / (2 * 10 ^ 27))"
    "81222025 / 52500000 - 81222025 / 52500000 * (1 / (2 * 10 ^ 27)) \<le> dquot cash (21 / 40)" using e by linarith+
  then have "\<lfloor>dquot cash (21 / 40) * 10 ^ 8\<rfloor> = 154708619" by (simp add: floor_eq_iff)
  moreover have "0 \<le> dquot cash (21 / 40) * 10 ^ 8" using dquot_nonneg by (simp add: cash_def)
  ultimately show "of_int (round_down (dquot cash (dmul (1 / 2) (dadd 1 (1 / 20))) * 10 ^ 8)) / 10 ^ 8 = q"
    by (simp add: d round_down_def q_def)
  have "\<lfloor>154708619 / 2 :: rat\<rfloor> = 77354309" "\<lfloor>7735431 / 2 :: rat\<rfloor> = 3867715"
    by (simp_all add: floor_eq_iff)
  then have h: "round_half_even (154708619 / 2) = 77354310" "round_half_even (7735431 / 2) = 3867716"
    unfolding round_half_even_def Let_def by (simp_all only:) simp_all
  have "dmul (1 / 2) q = 154708619 / 2 / 10 ^ 8" by (simp add: q_def dec_eval)
  then have n: "to_money (dmul (1 / 2) q) = 77354310 / 10 ^ 8" unfolding to_money_def using h(1) by (simp only:) simp
  have "dmul (77354310 / 10 ^ 8) (1 / 20) = 7735431 / 2 / 10 ^ 8" by (simp add: dec_eval)
  then have f: "to_money (dmul (77354310 / 10 ^ 8) (1 / 20)) = 3867716 / 10 ^ 8"
    unfolding to_money_def using h(2) by (simp only:) simp
  show "cash < to_money (dmul (1 / 2) q) + to_money (dmul (to_money (dmul (1 / 2) q)) (1 / 20))"
    unfolding n f by (simp add: cash_def)
qed

end
