(* ===== verification/Position_Monitor.thy ===== *)
theory Position_Monitor imports Simulation_Runner
begin

text \<open>
  The position monitor (\<open>run_monitor\<close>) against a reference rule: the first candle whose exit decision
  is not empty is where the position is closed, and every earlier candle only marks it.
\<close>

section \<open>The exit of one candle\<close>

text \<open>
  The exit rule without the bookkeeping: reason and price for one candle, given the directive of its close
  time and the price the position was last marked at.
\<close>

definition exit_decision ::
  "candidate \<Rightarrow> exit_directive option \<Rightarrow> rat \<Rightarrow> candle \<Rightarrow> bool \<Rightarrow> (candidate_exit_reason \<times> rat) option" where
  "exit_decision c d marked k final =
     (let plan = the (cand_plan c); stop = invalidation_price plan; goal = target_price (hd (plan_targets plan));
          long = (cand_action c = ActionLong) in
      if map_option directive_reason d = Some DATA_UNRELIABLE then Some (DATA_UNRELIABLE, marked)
      else if (if long then low_price k \<le> stop else stop \<le> high_price k) then Some (INVALIDATION, stop)
      else if (if long then goal \<le> high_price k else low_price k \<le> goal) then Some (TARGET, goal)
      else case d of
        Some dir \<Rightarrow> Some (directive_reason dir, close_price k)
      | None \<Rightarrow> if valid_until c \<le> close_time k then Some (TIME_EXPIRY, close_price k)
                else if final then Some (END_OF_DATA, close_price k) else None)"

fun first_exit ::
  "candidate \<Rightarrow> (int \<rightharpoonup> exit_directive) \<Rightarrow> rat \<Rightarrow> candle list \<Rightarrow> (nat \<times> candle \<times> candidate_exit_reason \<times> rat) option" where
  "first_exit c ds marked [] = None"
| "first_exit c ds marked (k # ks) =
     (case exit_decision c (ds (close_time k)) marked k (ks = []) of
        Some (r, x) \<Rightarrow> Some (0, k, r, x)
      | None \<Rightarrow> map_option (\<lambda>(n, rest). (Suc n, rest)) (first_exit c ds (close_price k) ks))"

text \<open>On candles there are, some exit is always found: the last candle forces one.\<close>

lemma first_exit_found: "ks \<noteq> [] \<Longrightarrow> \<exists>n k r x. first_exit c ds marked ks = Some (n, k, r, x)"
proof (induction ks arbitrary: marked)
  case (Cons k ks)
  show ?case
  proof (cases "exit_decision c (ds (close_time k)) marked k (ks = [])")
    case None
    then have "ks \<noteq> []" by (auto simp: exit_decision_def Let_def split: if_splits option.splits)
    from Cons.IH [OF this, of "close_price k"] None show ?thesis by auto
  qed auto
qed simp

definition trigger_label_of :: "candidate \<Rightarrow> candidate_exit_reason \<Rightarrow> string option" where
  "trigger_label_of c r = (if r = TARGET then Some (target_label (hd (plan_targets (the (cand_plan c))))) else None)"

definition trigger_of :: "candidate \<Rightarrow> candle \<Rightarrow> candidate_exit_reason \<Rightarrow> rat \<Rightarrow> exit_trigger" where
  "trigger_of c k r x = \<lparr>trigger_reason = r, trigger_price = x, trigger_at = close_time k,
     trigger_open = open_time k, trigger_close = close_time k, trigger_label = trigger_label_of c r\<rparr>"

definition directive_ok :: "exit_directive \<Rightarrow> bool" where
  "directive_ok d \<longleftrightarrow> directive_reason d \<in> {TREND_REVERSAL, PORTFOLIO_RISK, DATA_UNRELIABLE}"

lemma CandidateExitTrigger_ok:
  assumes "valid_candle k" "0 < x" "case trigger_label_of c r of None \<Rightarrow> True | Some l \<Rightarrow> sized 1 100 l"
  shows "CandidateExitTrigger (trigger_of c k r x) = Inr (trigger_of c k r x)"
  using assms
  by (auto simp: CandidateExitTrigger_def trigger_of_def check_fields_def raising.simps valid_candle_iff
      trigger_label_of_def split: if_splits)

lemma exit_price_positive:
  assumes "valid_candidate c" "directional (cand_action c)" "valid_candle k" "0 < marked"
    "exit_decision c d marked k final = Some (r, x)"
  shows "0 < x"
proof -
  obtain plan t ts where p: "cand_plan c = Some plan" "plan_ok plan" "plan_targets plan = t # ts"
    by (rule directional_plan [OF assms(1,2)])
  have "0 < close_price k" using assms(3) by (auto simp: valid_candle_iff)
  with assms(4,5) p show ?thesis
    by (auto simp: exit_decision_def Let_def plan_ok_iff split: if_splits option.splits)
qed

lemma candle_trigger_decides:
  assumes c: "valid_candidate c" "directional (cand_action c)" and k: "valid_candle k"
    and d: "\<forall>x. d = Some x \<longrightarrow> directive_ok x"
    and q: "find_open posid 0 (pf_positions p) = Inr (i, q)" "0 < sp_current_price q"
  shows "candle_trigger c posid d p k final =
    Inr (map_option (\<lambda>(r, x). trigger_of c k r x) (exit_decision c d (sp_current_price q) k final))"
proof -
  obtain plan t ts where p: "cand_plan c = Some plan" "plan_ok plan" "plan_targets plan = t # ts"
    by (rule directional_plan [OF c])
  have cp: "0 < close_price k" using k by (auto simp: valid_candle_iff)
  have on: "trigger_on k r x None = Inr (trigger_of c k r x)" if "0 < x" "r \<noteq> TARGET" for r x
    using CandidateExitTrigger_ok [OF k that(1), of c r] that(2)
    by (simp add: trigger_on_def trigger_of_def trigger_label_of_def)
  have "sized 1 50 (target_label t)" using p by (auto simp: plan_ok_iff)
  then have goal: "trigger_on k TARGET (target_price t) (Some (target_label t)) = Inr (trigger_of c k TARGET (target_price t))"
    using CandidateExitTrigger_ok [OF k, of "target_price t" c TARGET] p
    by (simp add: trigger_on_def trigger_of_def trigger_label_of_def plan_ok_iff sized_def)
  have stop: "0 < invalidation_price plan" using p by (simp add: plan_ok_iff)
  have dir: "directive_trigger x k p posid = Inr (Some (trigger_of c k (directive_reason x)
      (if directive_reason x = DATA_UNRELIABLE then sp_current_price q else close_price k)))" if "d = Some x" for x
    using d that on cp q by (auto simp: directive_trigger_def directive_ok_def)
  have price: "price_trigger c k = Inr
      (if (if cand_action c = ActionLong then low_price k \<le> invalidation_price plan else invalidation_price plan \<le> high_price k)
       then Some (trigger_of c k INVALIDATION (invalidation_price plan))
       else if (if cand_action c = ActionLong then target_price t \<le> high_price k else low_price k \<le> target_price t)
       then Some (trigger_of c k TARGET (target_price t)) else None)"
    using p c(2) on [OF stop, of INVALIDATION] goal by (simp add: price_trigger_def Let_def)
  show ?thesis
  proof (cases d)
    case None
    then show ?thesis using price p on [OF cp]
      by (simp add: candle_trigger_def exit_decision_def Let_def when_none_def)
  next
    case (Some x)
    then show ?thesis using price p dir [OF Some] d
      by (simp add: candle_trigger_def exit_decision_def Let_def when_none_def)
  qed
qed


section \<open>The monitored position\<close>

text \<open>What stays of a position while it is only marked.\<close>

definition same_terms :: "simulated_position \<Rightarrow> simulated_position \<Rightarrow> bool" where
  "same_terms q r \<longleftrightarrow> sp_id r = sp_id q \<and> sp_side r = sp_side q \<and> sp_quantity r = sp_quantity q
     \<and> sp_entry_price r = sp_entry_price q \<and> sp_reserved r = sp_reserved q \<and> sp_entry_fee r = sp_entry_fee q
     \<and> sp_status r = PositionOpen"

lemma same_terms_result:
  "same_terms q r \<Longrightarrow> result_at r x = result_at q x" "same_terms q r \<Longrightarrow> exit_fee_at p r x = exit_fee_at p q x"
  by (simp_all add: same_terms_def result_at_def exit_fee_at_def)

text \<open>
  A portfolio during monitoring: the position of the entry snapshot with its terms unchanged, marked at
  some price, cash untouched.
\<close>

definition watching :: "portfolio \<Rightarrow> simulated_position \<Rightarrow> portfolio \<Rightarrow> rat \<Rightarrow> bool" where
  "watching p0 q0 p marked \<longleftrightarrow> simulated p \<and> pf_cash p = pf_cash p0 \<and> pf_fee_rate p = pf_fee_rate p0
     \<and> (\<exists>q \<in> set (pf_positions p). same_terms q0 q \<and> sp_current_price q = marked \<and> 0 < marked
          \<and> \<bar>sp_unrealized q\<bar> \<le> 10 ^ 16 \<and> turnover p \<le> 10 ^ 16 + \<bar>sp_unrealized q\<bar>)"

text \<open>Prices at which the position's value stays within the digits of a decimal.\<close>

definition fits :: "simulated_position \<Rightarrow> rat \<Rightarrow> bool" where
  "fits q x \<longleftrightarrow> 0 < x \<and> x * sp_quantity q \<le> 10 ^ 15"

lemma find_append_skip:
  "\<forall>y \<in> set xs. \<not> P y \<Longrightarrow> List.find P (xs @ ys) = List.find P ys"
  by (induction xs) auto

lemma result_small:
  assumes "0 < x" "0 < sp_entry_price q" "0 < sp_quantity q" "x * sp_quantity q \<le> 10 ^ 15"
    "sp_entry_price q * sp_quantity q \<le> 10 ^ 15"
  shows "\<bar>result_at q x\<bar> \<le> 10 ^ 16"
proof -
  let ?raw = "dmul (if sp_side q = SideLong then dsub x (sp_entry_price q)
                     else dsub (sp_entry_price q) x) (sp_quantity q)"
  have "\<bar>?raw\<bar> \<le> 10 ^ 15 * (1001 / 1000) * (1001 / 1000)" 
    using raw_result_le [of x "sp_entry_price q" "sp_quantity q" "10 ^ 15"]
      raw_result_le [of "sp_entry_price q" x "sp_quantity q" "10 ^ 15"] assms by simp
  moreover have "10 ^ 15 * (1001 / 1000) * (1001 / 1000) + 1 \<le> (10 :: rat) ^ 16" "(10 :: rat) ^ 16 \<le> 10 ^ 19"
    by simp_all
  ultimately have "\<bar>?raw\<bar> + 1 \<le> 10 ^ 16" "\<bar>?raw\<bar> \<le> 10 ^ 19" by linarith+
  then show ?thesis using quantize_to_money(2) [of ?raw] by (auto simp: result_at_def)
qed

text \<open>A mark changes the one position and nothing else of the book.\<close>

lemma mark_effect:
  assumes run: "ledger_mark (sp_id q) x (Aware t) p = Inr p'"
    and ps: "pf_positions p = pre @ q # post" "sp_status q = PositionOpen" "distinct (map sp_id (pf_positions p))"
  shows "\<exists>u. gross_pnl q x = Inr u \<and> pf_positions p' = pre @ marked_position q x t u # post
    \<and> pf_updated_at p' = t \<and> pf_cash p' = pf_cash p \<and> pf_fee_rate p' = pf_fee_rate p
    \<and> pf_starting_cash p' = pf_starting_cash p"
proof -
  have "find_open (sp_id q) 0 (pre @ q # post) = Inr (length pre, q)"
    using find_open_split [of pre q post 0] ps by simp
  with run ps(1) show ?thesis
    by (auto simp: ledger_mark_def bindR_Inr_iff Let_def next_timestamp_Inr dest!: returned_snapshot(1))
qed

lemma close_effect:
  assumes run: "ledger_close (sp_id q) x (Aware t) p = Inr p'"
    and ps: "pf_positions p = pre @ q # post" "sp_status q = PositionOpen" "distinct (map sp_id (pf_positions p))"
  shows "\<exists>f g r. pf_positions p' = pre @ closed_position q x t f g r # post \<and> pf_updated_at p' = t"
proof -
  have "find_open (sp_id q) 0 (pre @ q # post) = Inr (length pre, q)"
    using find_open_split [of pre q post 0] ps by simp
  with run ps(1) show ?thesis
    by (auto simp: ledger_close_def bindR_Inr_iff Let_def next_timestamp_Inr dest!: returned_snapshot(1)) blast+
qed

lemma watching_facts:
  assumes "watching p0 q0 p marked"
  obtains q pre post where "ledger_invariant p" "q \<in> set (pf_positions p)" "pf_positions p = pre @ q # post" "same_terms q0 q"
    "sp_status q = PositionOpen" "sp_id q = sp_id q0" "distinct (map sp_id (pf_positions p))"
    "sp_current_price q = marked" "0 < marked" "\<bar>sp_unrealized q\<bar> \<le> 10 ^ 16" "turnover p \<le> 10 ^ 16 + \<bar>sp_unrealized q\<bar>"
    "turnover p \<le> 10 ^ 17" "0 < sp_quantity q0" "0 < sp_entry_price q0" "sp_portfolio_id q = pf_id p"
proof -
  from assms obtain q where q: "simulated p" "q \<in> set (pf_positions p)" "same_terms q0 q" "sp_current_price q = marked"
    "0 < marked" "\<bar>sp_unrealized q\<bar> \<le> 10 ^ 16" "turnover p \<le> 10 ^ 16 + \<bar>sp_unrealized q\<bar>"
    by (auto simp: watching_def)
  note inv = simulated_invariant [OF q(1)]
  obtain pre post where ps: "pf_positions p = pre @ q # post" using q(2) by (meson split_list)
  have "10 ^ 16 + 10 ^ 16 \<le> (10 :: rat) ^ 17" by simp
  then have "turnover p \<le> 10 ^ 17" using q(6,7) by linarith
  with q inv ps open_position_facts [OF inv q(2)] show ?thesis
    by (intro that [of q pre post]) (auto simp: same_terms_def)
qed

lemma watching_mark:
  assumes w: "watching p0 q0 p marked" and x: "fits q0 x" "fits q0 (sp_entry_price q0)" and t: "pf_updated_at p < t"
  shows "\<exists>p'. ledger_mark (sp_id q0) x (Aware t) p = Inr p' \<and> watching p0 q0 p' x \<and> pf_updated_at p' = t"
proof -
  obtain q pre post where q: "ledger_invariant p" "q \<in> set (pf_positions p)" "pf_positions p = pre @ q # post" "same_terms q0 q"
    "sp_status q = PositionOpen" "sp_id q = sp_id q0" "distinct (map sp_id (pf_positions p))"
    "sp_current_price q = marked" "0 < marked" "\<bar>sp_unrealized q\<bar> \<le> 10 ^ 16" "turnover p \<le> 10 ^ 16 + \<bar>sp_unrealized q\<bar>"
    "turnover p \<le> 10 ^ 17" "0 < sp_quantity q0" "0 < sp_entry_price q0" "sp_portfolio_id q = pf_id p"
    by (rule watching_facts [OF w])
  have v: "0 < x" "x * sp_quantity q \<le> 10 ^ 15" "sp_entry_price q * sp_quantity q \<le> 10 ^ 15"
    using x q(4) by (auto simp: fits_def same_terms_def)
  have "(10 :: rat) ^ 15 \<le> 10 ^ 17" by simp
  then have v17: "x * sp_quantity q \<le> 10 ^ 17" "sp_entry_price q * sp_quantity q \<le> 10 ^ 17" using v by linarith+
  obtain p' where run: "ledger_mark (sp_id q) x (Aware t) p = Inr p'"
    using mark_runs [OF q(1,12,2,5) v(1) v17 t] by blast
  have terms: "sp_entry_price q = sp_entry_price q0" "sp_quantity q = sp_quantity q0" using q(4) by (simp_all add: same_terms_def)
  have gr: "gross_pnl q x = Inr (result_at q x)"
    using gross_pnl_result(1) [OF v(1) _ _ v17] q(13,14) terms by simp
  obtain p' where run: "ledger_mark (sp_id q) x (Aware t) p = Inr p'"
    using mark_runs [OF q(1,12,2,5) v(1) v17 t] by blast
  from mark_effect [OF run q(3,5,7)] gr
  have e: "pf_positions p' = pre @ marked_position q x t (result_at q x) # post" "pf_updated_at p' = t"
    "pf_cash p' = pf_cash p" "pf_fee_rate p' = pf_fee_rate p" "pf_starting_cash p' = pf_starting_cash p"
    by auto
  have small: "\<bar>result_at q x\<bar> \<le> 10 ^ 16" using result_small [OF v(1) _ _ v(2,3)] q(13,14) terms by simp
  have "turnover p' = turnover p - \<bar>sp_unrealized q\<bar> + \<bar>result_at q x\<bar>"
    by (simp add: turnover_def e q(3) position_turnover_def marked_position_def)
  then have "turnover p' \<le> 10 ^ 16 + \<bar>result_at q x\<bar>" using q(11) by linarith
  moreover have "simulated p'" using w run by (auto simp: watching_def intro: stepped marks)
  ultimately have "watching p0 q0 p' x"
    using w e small v(1) q(4)
    by (auto simp: watching_def same_terms_def marked_position_def)
  with run e(2) q(6) show ?thesis by auto
qed

lemma watching_close:
  assumes w: "watching p0 q0 p marked" and x: "fits q0 x" "fits q0 (sp_entry_price q0)" and t: "pf_updated_at p < t"
  defines "proceeds \<equiv> pf_cash p0 + sp_reserved q0 + result_at q0 x - exit_fee_at p0 q0 x"
  shows "proceeds < 0 \<Longrightarrow> ledger_close (sp_id q0) x (Aware t) p = Inl (FieldErrors [''cash''])"
    "0 \<le> proceeds \<Longrightarrow> \<exists>p' q. ledger_close (sp_id q0) x (Aware t) p = Inr p' \<and> simulated p'
       \<and> pf_cash p' = proceeds \<and> pf_updated_at p' = t \<and> open_ones (pf_positions p') = []
       \<and> find_closed p' (sp_id q0) = Inr q \<and> filter (\<lambda>r. sp_id r = sp_id q0) (pf_positions p') = [q]
       \<and> sp_id q = sp_id q0 \<and> sp_status q = PositionClosed \<and> sp_closed_at q = Some t \<and> sp_exit_price q = Some x"
proof -
  obtain q pre post where q: "ledger_invariant p" "q \<in> set (pf_positions p)" "pf_positions p = pre @ q # post" "same_terms q0 q"
    "sp_status q = PositionOpen" "sp_id q = sp_id q0" "distinct (map sp_id (pf_positions p))"
    "sp_current_price q = marked" "0 < marked" "\<bar>sp_unrealized q\<bar> \<le> 10 ^ 16" "turnover p \<le> 10 ^ 16 + \<bar>sp_unrealized q\<bar>"
    "turnover p \<le> 10 ^ 17" "0 < sp_quantity q0" "0 < sp_entry_price q0" "sp_portfolio_id q = pf_id p"
    by (rule watching_facts [OF w])
  have v: "0 < x" "x * sp_quantity q \<le> 10 ^ 15" "sp_entry_price q * sp_quantity q \<le> 10 ^ 15"
    using x q(4) by (auto simp: fits_def same_terms_def)
  have "(10 :: rat) ^ 15 \<le> 10 ^ 17" by simp
  then have v17: "x * sp_quantity q \<le> 10 ^ 17" "sp_entry_price q * sp_quantity q \<le> 10 ^ 17" using v by linarith+
  have pr: "pf_cash p + sp_reserved q + result_at q x - exit_fee_at p q x = proceeds"
    using w q(4) same_terms_result [OF q(4)]
    by (simp add: proceeds_def watching_def same_terms_def exit_fee_at_def)
  note run = close_runs [OF q(1,12,2,5) v(1) v17 t, unfolded pr]
  show "proceeds < 0 \<Longrightarrow> ledger_close (sp_id q0) x (Aware t) p = Inl (FieldErrors [''cash''])"
    using run(1) q(6) by simp
  assume nonneg: "0 \<le> proceeds"
  from run(2) [OF this] obtain p' where p': "ledger_close (sp_id q) x (Aware t) p = Inr p'" "pf_cash p' = proceeds"
    "open_ones (pf_positions p') = []" by blast
  from close_effect [OF p'(1) q(3,5,7)] obtain f g r where
    e: "pf_positions p' = pre @ closed_position q x t f g r # post" "pf_updated_at p' = t" by blast
  have others: "\<forall>y \<in> set pre \<union> set post. sp_id y \<noteq> sp_id q0" using q(3,6,7) by (auto simp: image_iff)
  have "find_closed p' (sp_id q0) = Inr (closed_position q x t f g r)"
    using others q(6) by (auto simp: find_closed_def e find_append_skip)
  moreover have "filter (\<lambda>y. sp_id y = sp_id q0) (pf_positions p') = [closed_position q x t f g r]"
    using others q(6) by (auto simp: e filter_empty_conv)
  moreover have "simulated p'" using w p'(1) by (auto simp: watching_def intro: stepped closes_one)
  ultimately show "\<exists>p' q. ledger_close (sp_id q0) x (Aware t) p = Inr p' \<and> simulated p'
       \<and> pf_cash p' = proceeds \<and> pf_updated_at p' = t \<and> open_ones (pf_positions p') = []
       \<and> find_closed p' (sp_id q0) = Inr q \<and> filter (\<lambda>r. sp_id r = sp_id q0) (pf_positions p') = [q]
       \<and> sp_id q = sp_id q0 \<and> sp_status q = PositionClosed \<and> sp_closed_at q = Some t \<and> sp_exit_price q = Some x"
    using p' e(2) q(6) by (intro exI [of _ p'] exI [of _ "closed_position q x t f g r"])
      (simp, simp add: closed_position_def)
qed


section \<open>The loop\<close>

text \<open>
  The outcome of a monitoring run that exits at a candle: when the cash cannot bear the result the
  closing raises, otherwise the run returns with the position closed at the exit price.
\<close>

definition proceeds_of :: "simulation \<Rightarrow> rat \<Rightarrow> rat" where
  "proceeds_of s x = pf_cash (sim_portfolio s) + sp_reserved (opened s) + result_at (opened s) x
     - exit_fee_at (sim_portfolio s) (opened s) x"

definition closes_at :: "simulation \<Rightarrow> int \<Rightarrow> candle \<Rightarrow> candidate_exit_reason \<Rightarrow> rat \<Rightarrow> monitoring_result result \<Rightarrow> bool" where
  "closes_at s n k r x out \<longleftrightarrow>
     (if proceeds_of s x < 0 then out = Inl (FieldErrors [''cash''])
      else (\<exists>res. out = Inr res \<and> marked_candles res = n \<and> monitored_candles res = n + 1
        \<and> trigger res = trigger_of (selected_candidate s) k r x \<and> mon_closed_at res = close_time k
        \<and> sp_status (closed_one res) = PositionClosed \<and> sp_exit_price (closed_one res) = Some x
        \<and> pf_cash (final_portfolio res) = proceeds_of s x \<and> open_ones (pf_positions (final_portfolio res)) = []
        \<and> simulated (final_portfolio res)))"

text \<open>What the loop needs of the candidate, the position and the candles.\<close>

definition watchable :: "simulation \<Rightarrow> string \<Rightarrow> (int \<rightharpoonup> exit_directive) \<Rightarrow> candle list \<Rightarrow> bool" where
  "watchable s dsid ds ks \<longleftrightarrow>
     sized 1 100 dsid \<and> has_id_form ''position-'' 16 (sp_id (opened s))
     \<and> valid_candidate (selected_candidate s) \<and> directional (cand_action (selected_candidate s))
     \<and> (\<forall>t x. ds t = Some x \<longrightarrow> directive_ok x)
     \<and> fits (opened s) (sp_entry_price (opened s))
     \<and> fits (opened s) (invalidation_price (the (cand_plan (selected_candidate s))))
     \<and> fits (opened s) (target_price (hd (plan_targets (the (cand_plan (selected_candidate s))))))
     \<and> 0 < sp_quantity (opened s)
     \<and> (\<forall>k \<in> set ks. valid_candle k \<and> fits (opened s) (high_price k) \<and> sim_opened_at s < close_time k)
     \<and> sorted_wrt (\<lambda>a b. close_time a < close_time b) ks"

lemma watchable_Cons: "watchable s dsid ds (k # ks) \<Longrightarrow> watchable s dsid ds ks"
  by (auto simp: watchable_def)

lemma close_fits:
  assumes "valid_candle k" "fits q (high_price k)" "0 < sp_quantity q" shows "fits q (close_price k)"
proof -
  have le: "0 < close_price k" "close_price k \<le> high_price k" using assms(1) by (auto simp: valid_candle_iff)
  then have "close_price k * sp_quantity q \<le> high_price k * sp_quantity q" using assms(3) by (intro mult_right_mono) auto
  with assms(2) le show ?thesis by (auto simp: fits_def)
qed

lemma exit_fits:
  assumes "watchable s dsid ds (k # ks)" "fits (opened s) marked"
    "exit_decision (selected_candidate s) d marked k final = Some (r, x)"
  shows "fits (opened s) x"
  using assms close_fits [of k "opened s"]
  by (auto simp: watchable_def exit_decision_def Let_def split: if_splits option.splits)

lemma monitor_exit:
  assumes s: "watchable s dsid ds (k # ks)" and w: "watching (sim_portfolio s) (opened s) p marked"
    and t: "pf_updated_at p < close_time k" and x: "fits (opened s) x" and i: "0 \<le> i"
    and g: "candle_trigger (selected_candidate s) (sp_id (opened s)) (ds (close_time k)) p k (ks = [])
      = Inr (Some (trigger_of (selected_candidate s) k r x))"
  shows "closes_at s i k r x (monitor_loop s dsid ds i p (k # ks))"
proof -
  have e: "fits (opened s) (sp_entry_price (opened s))" using s by (simp add: watchable_def)
  note close = watching_close [OF w x e t, folded proceeds_of_def]
  show ?thesis
  proof (cases "proceeds_of s x < 0")
    case True
    with close(1) g show ?thesis by (simp add: closes_at_def trigger_of_def)
  next
    case False
    then have "0 \<le> proceeds_of s x" by simp
    from close(2) [OF this] obtain p' q where
      c: "ledger_close (sp_id (opened s)) x (Aware (close_time k)) p = Inr p'" "simulated p'"
      "pf_cash p' = proceeds_of s x" "pf_updated_at p' = close_time k" "open_ones (pf_positions p') = []"
      "find_closed p' (sp_id (opened s)) = Inr q" "filter (\<lambda>r. sp_id r = sp_id (opened s)) (pf_positions p') = [q]"
      "sp_id q = sp_id (opened s)" "sp_status q = PositionClosed" "sp_closed_at q = Some (close_time k)"
      "sp_exit_price q = Some x" by blast
    let ?res = "\<lparr>mon_dataset_id = dsid, mon_candidate_id = candidate_id (selected_candidate s),
            mon_position_id = sp_id (opened s), mon_opened_at = sim_opened_at s,
            mon_closed_at = close_time k, monitored_candles = i + 1, marked_candles = i,
            trigger = trigger_of (selected_candidate s) k r x, closed_one = q, final_portfolio = p'\<rparr>"
    have "has_id_form ''candidate-'' 16 (candidate_id (selected_candidate s))" "sim_opened_at s < close_time k"
      "sized 1 100 dsid" "has_id_form ''position-'' 16 (sp_id (opened s))"
      using s by (auto simp: watchable_def valid_candidate_iff candidate_fields_def)
    with c i have "CandidatePositionMonitoringResult ?res = Inr ?res"
      by (simp add: CandidatePositionMonitoringResult_def check_fields_def raising.simps trigger_of_def)
    then have "monitor_loop s dsid ds i p (k # ks) = Inr ?res"
      using g c(1,6) by (simp add: trigger_of_def)
    with False c show ?thesis by (simp add: closes_at_def)
  qed
qed

lemma monitor_loop_runs:
  assumes "watchable s dsid ds ks" "ks \<noteq> []" "watching (sim_portfolio s) (opened s) p marked" "fits (opened s) marked"
    "\<forall>k \<in> set ks. pf_updated_at p < close_time k" "0 \<le> i"
  shows "\<exists>n k r x. first_exit (selected_candidate s) ds marked ks = Some (n, k, r, x)
    \<and> closes_at s (i + int n) k r x (monitor_loop s dsid ds i p ks)"
  using assms
proof (induction ks arbitrary: p marked i)
  case (Cons k ks)
  note s = Cons.prems(1) and w = Cons.prems(3)
  let ?c = "selected_candidate s"
  obtain q pre post where q: "ledger_invariant p" "q \<in> set (pf_positions p)" "pf_positions p = pre @ q # post" "same_terms (opened s) q"
    "sp_status q = PositionOpen" "sp_id q = sp_id (opened s)" "distinct (map sp_id (pf_positions p))"
    "sp_current_price q = marked" "0 < marked" "\<bar>sp_unrealized q\<bar> \<le> 10 ^ 16" "turnover p \<le> 10 ^ 16 + \<bar>sp_unrealized q\<bar>"
    "turnover p \<le> 10 ^ 17" "0 < sp_quantity (opened s)" "0 < sp_entry_price (opened s)" "sp_portfolio_id q = pf_id p"
    by (rule watching_facts [OF w])
  have f: "find_open (sp_id (opened s)) 0 (pf_positions p) = Inr (length pre, q)"
    using find_open_split [of pre q post 0] q(3,5,6,7) by simp
  have c: "valid_candidate ?c" "directional (cand_action ?c)" "valid_candle k" "\<forall>x. ds (close_time k) = Some x \<longrightarrow> directive_ok x"
    using s by (auto simp: watchable_def)
  have "0 < sp_current_price q" using q(8,9) by simp
  note decide = candle_trigger_decides [OF c f this, of "ks = []", unfolded q(8)]
  show ?case
  proof (cases "exit_decision ?c (ds (close_time k)) marked k (ks = [])")
    case (Some rx)
    obtain r x where rx: "rx = (r, x)" by (cases rx)
    have "fits (opened s) x" using exit_fits [OF s Cons.prems(4)] Some rx by blast
    then have "closes_at s i k r x (monitor_loop s dsid ds i p (k # ks))"
      using decide Some rx Cons.prems(5,6) by (intro monitor_exit [OF s w]) auto
    with Some rx show ?thesis by (intro exI [of _ 0] exI [of _ k] exI [of _ r] exI [of _ x]) simp
  next
    case None
    then have ne: "ks \<noteq> []" by (auto simp: exit_decision_def Let_def split: if_splits option.splits)
    have cl: "fits (opened s) (close_price k)" using s by (intro close_fits) (auto simp: watchable_def)
    have e: "fits (opened s) (sp_entry_price (opened s))" using s by (simp add: watchable_def)
    have "pf_updated_at p < close_time k" using Cons.prems(5) by simp
    from watching_mark [OF w cl e this] obtain p' where
      p': "ledger_mark (sp_id (opened s)) (close_price k) (Aware (close_time k)) p = Inr p'"
      "watching (sim_portfolio s) (opened s) p' (close_price k)" "pf_updated_at p' = close_time k" by blast
    have "\<forall>y \<in> set ks. pf_updated_at p' < close_time y" using s p'(3) by (auto simp: watchable_def)
    from Cons.IH [OF watchable_Cons [OF s] ne p'(2) cl this, of "i + 1"] Cons.prems(6)
    obtain n y r x where "first_exit ?c ds (close_price k) ks = Some (n, y, r, x)"
      "closes_at s (i + 1 + int n) y r x (monitor_loop s dsid ds (i + 1) p' ks)" by auto
    with None decide p'(1) show ?thesis
      by (intro exI [of _ "Suc n"] exI [of _ y] exI [of _ r] exI [of _ x]) (simp add: ac_simps)
  qed
qed simp

section \<open>Properties\<close>

text \<open>The candles the monitor walks over, and its table of directives.\<close>

definition future_candles :: "simulation \<Rightarrow> dataset \<Rightarrow> candle list" where
  "future_candles s ds = filter (\<lambda>k. sim_opened_at s \<le> open_time k) (candles ds)"

definition directives_at :: "exit_directive list \<Rightarrow> int \<rightharpoonup> exit_directive" where
  "directives_at dirs = map_of (map (\<lambda>d. (directive_at d, d)) dirs)"

text \<open>A simulation and a dataset the monitor accepts, with amounts within the digits of a decimal.\<close>

definition monitorable :: "simulation \<Rightarrow> dataset \<Rightarrow> exit_directive list \<Rightarrow> bool" where
  "monitorable s ds dirs \<longleftrightarrow>
     validate_lineage s ds = Inr () \<and> CandidateSimulationResult s = Inr s \<and> simulated (sim_portfolio s)
     \<and> turnover (sim_portfolio s) \<le> 10 ^ 16
     \<and> valid_candidate (selected_candidate s) \<and> directional (cand_action (selected_candidate s))
     \<and> research_dataset ds \<and> length (dataset_id ds) \<le> 100 \<and> future_candles s ds \<noteq> []
     \<and> distinct (map directive_at dirs)
     \<and> (\<forall>d \<in> set dirs. directive_ok d \<and> directive_at d \<in> close_time ` set (future_candles s ds))
     \<and> fits (opened s) (sp_entry_price (opened s)) \<and> fits (opened s) (sp_current_price (opened s))
     \<and> fits (opened s) (invalidation_price (the (cand_plan (selected_candidate s))))
     \<and> fits (opened s) (target_price (hd (plan_targets (the (cand_plan (selected_candidate s))))))
     \<and> (\<forall>k \<in> set (future_candles s ds). fits (opened s) (high_price k))"

lemma run_monitor_loop:
  assumes "run_monitor s ds dirs = Inr r \<or> monitorable s ds dirs"
  shows "run_monitor s ds dirs = monitor_loop s (dataset_id ds) (directives_at dirs) 0 (sim_portfolio s) (future_candles s ds)"
  using assms
proof
  assume "run_monitor s ds dirs = Inr r"
  then show ?thesis
    by (auto simp: run_monitor_def bindR_Inr_iff raising_Inr_iff prepare_directives_def Let_def future_candles_def directives_at_def)
next
  assume m: "monitorable s ds dirs"
  then have "list_ex (\<lambda>d. directive_at d \<notin> set (map close_time (future_candles s ds))) dirs \<longleftrightarrow> False"
    by (auto simp: monitorable_def list_ex_iff)
  with m show ?thesis
    by (simp add: monitorable_def run_monitor_def prepare_directives_def raising.simps Let_def
        future_candles_def [symmetric] directives_at_def)
qed

lemma monitorable_start:
  assumes "monitorable s ds dirs"
  shows "watchable s (dataset_id ds) (directives_at dirs) (future_candles s ds)"
    "watching (sim_portfolio s) (opened s) (sim_portfolio s) (sp_current_price (opened s))"
    "\<forall>k \<in> set (future_candles s ds). pf_updated_at (sim_portfolio s) < close_time k"
proof -
  note m = assms [unfolded monitorable_def]
  let ?p = "sim_portfolio s" and ?q = "opened s"
  have lineage: "sp_status ?q = PositionOpen" "pf_updated_at ?p = sim_opened_at s"
    using m by (auto simp: validate_lineage_def raising_Inr_iff)
  have "filter (\<lambda>y. sp_id y = sp_id ?q) (pf_positions ?p) = [?q]"
    using m by (auto simp: CandidateSimulationResult_def bindR_Inr_iff raising_Inr_iff)
  then have q: "?q \<in> set (pf_positions ?p)"
    by (metis (no_types, lifting) filter_is_subset list.set_intros(1) subsetD)
  have inv: "ledger_invariant ?p" using m simulated_invariant by blast
  note facts = open_position_facts [OF inv q]
  have series: "candle_series (candles ds)" using m by (simp add: research_dataset_def)
  have later: "\<forall>k \<in> set (future_candles s ds). valid_candle k \<and> sim_opened_at s < close_time k"
    using candle_series_valid [OF series] by (fastforce simp: future_candles_def valid_candle_iff)
  with lineage(2) show "\<forall>k \<in> set (future_candles s ds). pf_updated_at ?p < close_time k" by simp
  have "sorted_wrt (\<lambda>a b. close_time a < close_time b) (future_candles s ds)"
    unfolding future_candles_def by (intro sorted_wrt_filter candle_series_closes [OF series])
  moreover have "\<forall>t d. directives_at dirs t = Some d \<longrightarrow> directive_ok d"
    using m by (auto simp: directives_at_def dest!: map_of_SomeD)
  moreover have "sized 1 100 (dataset_id ds)" using m by (simp add: research_dataset_def sized_def)
  ultimately show "watchable s (dataset_id ds) (directives_at dirs) (future_candles s ds)"
    using m later facts(1,5) by (simp add: watchable_def)
  have "sp_id ?q = sp_id ?q" and u: "\<bar>sp_unrealized ?q\<bar> \<le> position_turnover ?q" by (simp_all add: position_turnover_def)
  have "position_turnover ?q \<le> turnover ?p"
  proof -
    obtain pre post where "pf_positions ?p = pre @ ?q # post" using q by (meson split_list)
    moreover have "0 \<le> sum_list (map position_turnover (pre @ post))" by (rule sum_list_nonneg) auto
    ultimately show ?thesis using turnover_split [of ?p pre ?q post] by linarith
  qed
  with u m have "\<bar>sp_unrealized ?q\<bar> \<le> 10 ^ 16" "turnover ?p \<le> 10 ^ 16 + \<bar>sp_unrealized ?q\<bar>" by linarith+
  then show "watching ?p ?q ?p (sp_current_price ?q)"
    using m q lineage(1) by (auto simp: watching_def same_terms_def fits_def)
qed

text \<open>
  C17: Monitoring a valid open position always ends, at the first candle with a non-empty exit decision (the
  last candle forces one): all candles before it are marked, the position is closed at the decided price,
  and the cash is what the exit leaves. Only a result the cash cannot bear makes it raise instead.
\<close>

theorem monitor_closes_at_first_exit:
  assumes "monitorable s ds dirs"
  shows "\<exists>n k r x. first_exit (selected_candidate s) (directives_at dirs) (sp_current_price (opened s)) (future_candles s ds)
      = Some (n, k, r, x) \<and> closes_at s (int n) k r x (run_monitor s ds dirs)"
proof -
  have ne: "future_candles s ds \<noteq> []" "fits (opened s) (sp_current_price (opened s))"
    using assms by (simp_all add: monitorable_def)
  note start = monitorable_start [OF assms]
  from monitor_loop_runs [OF start(1) ne(1) start(2) ne(2) start(3), of 0] show ?thesis
    using run_monitor_loop [of s ds dirs] assms by auto
qed

text \<open>Where a candle touches the invalidation and the first target.\<close>

definition stop_hit :: "candidate \<Rightarrow> candle \<Rightarrow> bool" where
  "stop_hit c k \<longleftrightarrow>
     (let stop = invalidation_price (the (cand_plan c)) in
      if cand_action c = ActionLong then low_price k \<le> stop else stop \<le> high_price k)"

definition goal_hit :: "candidate \<Rightarrow> candle \<Rightarrow> bool" where
  "goal_hit c k \<longleftrightarrow>
     (let goal = target_price (hd (plan_targets (the (cand_plan c)))) in
      if cand_action c = ActionLong then goal \<le> high_price k else low_price k \<le> goal)"

lemma price_trigger_Inr:
  assumes "price_trigger c k = Inr g"
  shows "(stop_hit c k \<longrightarrow> (\<exists>y. g = Some y \<and> trigger_reason y = INVALIDATION \<and> trigger_price y = invalidation_price (the (cand_plan c))))
    \<and> (\<not> stop_hit c k \<and> goal_hit c k \<longrightarrow> (\<exists>y. g = Some y \<and> trigger_reason y = TARGET
         \<and> trigger_price y = target_price (hd (plan_targets (the (cand_plan c))))))
    \<and> (\<not> stop_hit c k \<and> \<not> goal_hit c k \<longrightarrow> g = None)"
  using assms
  by (auto simp: price_trigger_def Let_def bindR_Inr_iff trigger_on_def CandidateExitTrigger_def raising_Inr_iff
      check_fields_Inr_iff stop_hit_def goal_hit_def split: option.splits if_splits)


lemma trigger_on_Inr:
  "trigger_on k r x l = Inr g \<Longrightarrow> trigger_reason g = r \<and> trigger_price g = x \<and> trigger_at g = close_time k
     \<and> trigger_label g = l \<and> (r = TARGET \<longleftrightarrow> l \<noteq> None)"
  by (auto simp: trigger_on_def CandidateExitTrigger_def bindR_Inr_iff raising_Inr_iff check_fields_Inr_iff)

text \<open>An exit that is neither missed nor optimistic.\<close>

definition honest_exit :: "candidate \<Rightarrow> exit_directive option \<Rightarrow> candle \<Rightarrow> exit_trigger \<Rightarrow> bool" where
  "honest_exit c d k g \<longleftrightarrow> trigger_at g = close_time k
     \<and> (stop_hit c k \<and> map_option directive_reason d \<noteq> Some DATA_UNRELIABLE \<longrightarrow>
          trigger_reason g = INVALIDATION \<and> trigger_price g = invalidation_price (the (cand_plan c)))
     \<and> (trigger_reason g = TARGET \<longrightarrow> goal_hit c k \<and> \<not> stop_hit c k
          \<and> trigger_price g = target_price (hd (plan_targets (the (cand_plan c)))))"

lemma price_trigger_honest:
  assumes "price_trigger c k = Inr (Some g)" shows "honest_exit c d k g"
  using assms
  by (auto simp: price_trigger_def Let_def bindR_Inr_iff honest_exit_def stop_hit_def goal_hit_def
      split: option.splits if_splits dest!: trigger_on_Inr)

lemma plain_exit_honest:
  assumes "trigger_on k r x None = Inr g"
    and "stop_hit c k \<Longrightarrow> map_option directive_reason d = Some DATA_UNRELIABLE"
  shows "honest_exit c d k g"
  using assms trigger_on_Inr [OF assms(1)] by (auto simp: honest_exit_def)

lemma directive_trigger_honest:
  assumes "directive_trigger x k p posid = Inr g'" "g' = Some g"
    and "stop_hit c k \<Longrightarrow> map_option directive_reason d = Some DATA_UNRELIABLE"
  shows "honest_exit c d k g"
  using assms(1,2) plain_exit_honest [OF _ assms(3)]
  by (auto simp: directive_trigger_def bindR_Inr_iff split: if_splits)

lemma when_none_simps: "when_none (Some x) m = Inr (Some x)" "when_none None m = m"
  by (simp_all add: when_none_def)

lemma candle_trigger_Some:
  assumes "candle_trigger c posid d p k final = Inr (Some g)" shows "honest_exit c d k g"
proof -
  from assms obtain g1 g2 g3 where
    g1: "(case d of Some dir \<Rightarrow> if directive_reason dir = DATA_UNRELIABLE then directive_trigger dir k p posid
                     else price_trigger c k | None \<Rightarrow> price_trigger c k) = Inr g1"
    and g2: "when_none g1 (case d of Some dir \<Rightarrow> directive_trigger dir k p posid | None \<Rightarrow> Inr None) = Inr g2"
    and g3: "when_none g2 (if valid_until c \<le> close_time k
         then bindR (trigger_on k TIME_EXPIRY (close_price k) None) (\<lambda>g. Inr (Some g)) else Inr None) = Inr g3"
    and g4: "when_none g3 (if final
         then bindR (trigger_on k END_OF_DATA (close_price k) None) (\<lambda>g. Inr (Some g)) else Inr None) = Inr (Some g)"
    by (auto simp: candle_trigger_def bindR_Inr_iff)
  have first: "honest_exit c d k y" if "g1 = Some y" for y
    using g1 that price_trigger_honest directive_trigger_honest
    by (auto split: option.splits if_splits)
  have none: "\<not> stop_hit c k \<or> map_option directive_reason d = Some DATA_UNRELIABLE" if "g1 = None"
    using g1 that price_trigger_Inr [of c k g1] by (auto split: option.splits if_splits)
  show ?thesis
  proof (cases g1)
    case (Some y)
    with g2 g3 g4 have "g = y" by (auto simp: when_none_simps)
    with Some first show ?thesis by simp
  next
    case None
    note n = none [OF None]
    show ?thesis
    proof (cases g2)
      case (Some y)
      with None g2 have "honest_exit c d k y"
        using directive_trigger_honest [of _ k p posid g2 y c d] n by (auto simp: when_none_simps split: option.splits)
      moreover from Some g3 g4 have "g = y" by (auto simp: when_none_simps)
      ultimately show ?thesis by simp
    next
      case n2: None
      show ?thesis
      proof (cases g3)
        case (Some y)
        with n2 g3 have "honest_exit c d k y"
          using plain_exit_honest [of k TIME_EXPIRY "close_price k" y c d] n by (auto simp: when_none_simps bindR_Inr_iff split: if_splits)
        moreover from Some g4 have "g = y" by (auto simp: when_none_simps)
        ultimately show ?thesis by simp
      next
        case n3: None
        with g4 show ?thesis
          using plain_exit_honest [of k END_OF_DATA "close_price k" g c d] n by (auto simp: when_none_simps bindR_Inr_iff split: if_splits)
      qed
    qed
  qed
qed

text \<open>A candle that is only marked gave no reason to exit.\<close>

definition quiet :: "candidate \<Rightarrow> (int \<rightharpoonup> exit_directive) \<Rightarrow> candle \<Rightarrow> bool" where
  "quiet c ds k \<longleftrightarrow> \<not> stop_hit c k \<and> \<not> goal_hit c k \<and> ds (close_time k) = None \<and> close_time k < valid_until c"

lemma candle_trigger_None:
  assumes "candle_trigger c posid (ds (close_time k)) p k final = Inr None" shows "quiet c ds k"
  using assms price_trigger_Inr [of c k None]
  by (auto simp: candle_trigger_def bindR_Inr_iff when_none_def quiet_def directive_trigger_def
      split: option.splits if_splits)

lemma monitor_loop_honest:
  assumes "monitor_loop s dsid ds i p ks = Inr r"
  shows "\<exists>pre k post. ks = pre @ k # post \<and> marked_candles r = i + int (length pre)
    \<and> mon_closed_at r = close_time k \<and> (\<forall>y \<in> set pre. quiet (selected_candidate s) ds y)
    \<and> honest_exit (selected_candidate s) (ds (close_time k)) k (trigger r)"
  using assms
proof (induction ks arbitrary: i p)
  case (Cons k ks)
  let ?c = "selected_candidate s"
  from Cons.prems obtain g where g: "candle_trigger ?c (sp_id (opened s)) (ds (close_time k)) p k (ks = []) = Inr g"
    by (auto simp: bindR_Inr_iff)
  show ?case
  proof (cases g)
    case (Some y)
    have h: "honest_exit ?c (ds (close_time k)) k y" using candle_trigger_Some g Some by blast
    from Cons.prems g Some have "marked_candles r = i" "mon_closed_at r = trigger_at y" "trigger r = y"
      by (auto simp: bindR_Inr_iff CandidatePositionMonitoringResult_def check_fields_Inr_iff raising_Inr_iff)
    with h show ?thesis by (intro exI [of _ "[]"] exI [of _ k] exI [of _ ks]) (simp add: honest_exit_def)
  next
    case None
    then have q: "quiet ?c ds k" using candle_trigger_None g by blast
    from Cons.prems g None obtain p' where "monitor_loop s dsid ds (i + 1) p' ks = Inr r" by (auto simp: bindR_Inr_iff)
    from Cons.IH [OF this] obtain pre z post where
      h: "ks = pre @ z # post" "marked_candles r = i + 1 + int (length pre)" "mon_closed_at r = close_time z"
      "\<forall>y \<in> set pre. quiet ?c ds y" "honest_exit ?c (ds (close_time z)) z (trigger r)" by blast
    with q show ?thesis by (intro exI [of _ "k # pre"] exI [of _ z] exI [of _ post]) simp
  qed
qed simp

text \<open>
  C18: A monitoring result never skips an exit and never takes an optimistic one: no candle before the closing
  one touched the invalidation or the first target, carried a directive or reached the validity end;
  unless the data was declared unreliable, a closing candle that touched the invalidation exits there even
  when it also touched the target, and a target exit happens only at the target's price on a candle that
  reached it.
\<close>

theorem monitor_exit_is_honest:
  assumes "run_monitor s ds dirs = Inr r"
  shows "\<exists>pre k post. future_candles s ds = pre @ k # post \<and> marked_candles r = int (length pre)
    \<and> mon_closed_at r = close_time k \<and> (\<forall>y \<in> set pre. quiet (selected_candidate s) (directives_at dirs) y)
    \<and> honest_exit (selected_candidate s) (directives_at dirs (close_time k)) k (trigger r)"
  using monitor_loop_honest [of s "dataset_id ds" "directives_at dirs" 0 "sim_portfolio s" "future_candles s ds" r]
    assms run_monitor_loop [of s ds dirs r] by simp


text \<open>The sample fill, monitored over two more candles of which the second reaches the target.\<close>

definition later_dataset :: dataset where
  "later_dataset = sample_dataset [10, 10, 10, 13]"

lemma later_candles:
  "sim_opened_at s = 2 * hour_us \<Longrightarrow> future_candles s later_dataset = [sample_candle (2, 10), sample_candle (3, 13)]"
  by (simp add: future_candles_def later_dataset_def sample_candles enumerate_from_def)

lemma sample_monitored:
  obtains s where "monitorable s later_dataset []" "sim_opened_at s = 2 * hour_us" "cand_action (selected_candidate s) = ActionLong"
    "cand_plan (selected_candidate s) = Some sample_plan" "valid_until (selected_candidate s) = 5 * hour_us"
    "proceeds_of s 12 = 101978 / 1000"
proof -
  obtain c p a where f: "assessable sample_risk_policy sample_texts (sample_entry c) p" "entry_candidate (sample_entry c) = c"
    "candidate_life c" "cand_plan c = Some sample_plan" "cand_action c = ActionLong" "valid_until c = 5 * hour_us"
    "cand_dataset_id c = pf_dataset_id p" "cand_dataset_id c = ''dataset-1''" "cand_pair c = sample_pair" "cand_timeframe c = HOUR_1"
    "evaluate_risk sample_risk_policy sample_texts (sample_entry c) p (Aware hour_us) = Inr a"
    "decision a = APPROVED" "fillable sample_risk_policy (sample_entry c) a p 10 (2 * hour_us)"
    "filled_quantity (sample_entry c) a p 10 = 1" "risk_budget a = 1" "notional_budget a = 50"
    "pf_cash p = 100" "pf_fee_rate p = 1 / 1000" "turnover p = 100" "pf_positions p = []"
    by (rule sample_fill)
  have grid: "on_grid 8 (1 / 100 :: rat)" "on_grid 8 (12 / 1000 :: rat)" by (simp_all add: on_grid_def)
  then have m: "to_money 10 = 10" "to_money (1 / 100) = 1 / 100" "to_money (12 / 1000) = 12 / 1000" "to_money 2 = 2"
    using to_money_fixed on_grid_of_int [of 8 10] on_grid_of_int [of 8 2] by simp_all
  have n: "notional_of 10 1 = 10" "entry_fee_of p 10 1 = 1 / 100"
    using m by (simp_all add: notional_of_def entry_fee_of_def f(18) dec_eval)
  obtain s where s: "CandidateSimulationResult s = Inr s" "simulated (sim_portfolio s)" "sim_opened_at s = 2 * hour_us"
    "selected_candidate s = c\<lparr>cand_status := SELECTED, status_changed_at := Some (2 * hour_us)\<rparr>"
    "opened s = opened_position p sample_pair SideLong 10 1 (2 * hour_us) 10 (1 / 100)"
    "pf_positions (sim_portfolio s) = [opened s]" "pf_cash (sim_portfolio s) = 8999 / 100"
    "pf_fee_rate (sim_portfolio s) = 1 / 1000" "pf_dataset_id (sim_portfolio s) = ''dataset-1''"
    "pf_updated_at (sim_portfolio s) = 2 * hour_us" "turnover (sim_portfolio s) = 11001 / 100"
    using simulation_opens [OF f(1,11-13), unfolded f(2,14)] f(5,7,8,9,17-20) n
    by (auto simp: side_taken_def)
  have "candidate_life (selected_candidate s)"
  proof -
    have "valid_candidate c" using candidate_life_valid [OF f(3)] by simp
    moreover have "is_selectable c (2 * hour_us)" using f(2,13) by (simp add: fillable_def fill_in_zone_def Let_def)
    ultimately have "select (Aware (2 * hour_us)) c = Inr (selected_candidate s)" using select_Inr s(4) by blast
    with f(3) show ?thesis by (blast intro: candidate_life.stepped candidate_step.selects)
  qed
  then have valid: "valid_candidate (selected_candidate s)" using candidate_life_valid by blast
  have fields: "sp_status (opened s) = PositionOpen" "sp_quantity (opened s) = 1" "sp_entry_price (opened s) = 10"
    "sp_current_price (opened s) = 10" "sp_pair (opened s) = sample_pair" "sp_reserved (opened s) = 10" "sp_side (opened s) = SideLong"
    by (simp_all add: s(5) opened_position_def)
  have "validate_lineage s later_dataset = Inr ()"
    using s f(8-10) fields by (simp add: validate_lineage_def raising.simps later_dataset_def)
  moreover have "research_dataset later_dataset" by (simp add: research_dataset_def later_dataset_def)
  ultimately have "monitorable s later_dataset []"
    using s valid f(4,5) fields later_candles [OF s(3)]
    by (simp add: monitorable_def directional_def fits_def sample_plan_def sample_candle_def later_dataset_def)
  moreover have "exit_fee_at (sim_portfolio s) (opened s) 12 = 12 / 1000"
    unfolding exit_fee_at_def s(8) using fields(2) m(3) by (simp add: dec_eval)
  moreover have "result_at (opened s) 12 = 2" using fields m by (simp add: result_at_def dec_eval)
  ultimately have "monitorable s later_dataset []" "proceeds_of s 12 = 101978 / 1000"
    using s(7) fields by (simp_all add: proceeds_of_def)
  then show ?thesis using s f(4-6) by (intro that) simp_all
qed

lemma sample_first_exit:
  assumes "sim_opened_at s = 2 * hour_us" "cand_action (selected_candidate s) = ActionLong"
    "cand_plan (selected_candidate s) = Some sample_plan" "valid_until (selected_candidate s) = 5 * hour_us"
  shows "first_exit (selected_candidate s) (directives_at []) x (future_candles s later_dataset)
    = Some (1, sample_candle (3, 13), TARGET, 12)"
  using assms later_candles [OF assms(1)]
  by (simp add: exit_decision_def directives_at_def sample_plan_def sample_candle_def)

theorem monitor_closes_at_first_exit_witness:
  "\<exists>s r. run_monitor s later_dataset [] = Inr r \<and> marked_candles r = 1 \<and> trigger_reason (trigger r) = TARGET
     \<and> sp_exit_price (closed_one r) = Some 12 \<and> pf_cash (final_portfolio r) = 101978 / 1000"
proof -
  obtain s where s: "monitorable s later_dataset []" "sim_opened_at s = 2 * hour_us" "cand_action (selected_candidate s) = ActionLong"
    "cand_plan (selected_candidate s) = Some sample_plan" "valid_until (selected_candidate s) = 5 * hour_us"
    "proceeds_of s 12 = 101978 / 1000"
    by (rule sample_monitored)
  from monitor_closes_at_first_exit [OF s(1)] sample_first_exit [OF s(2-5)]
  have "closes_at s 1 (sample_candle (3, 13)) TARGET 12 (run_monitor s later_dataset [])" by simp
  then obtain r where "run_monitor s later_dataset [] = Inr r" "marked_candles r = 1"
    "trigger r = trigger_of (selected_candidate s) (sample_candle (3, 13)) TARGET 12"
    "sp_exit_price (closed_one r) = Some 12" "pf_cash (final_portfolio r) = 101978 / 1000"
    using s(6) by (auto simp: closes_at_def)
  then show ?thesis by (intro exI [of _ s] exI [of _ r]) (simp add: trigger_of_def)
qed

lemma sample_run:
  obtains s r where "run_monitor s later_dataset [] = Inr r" "sim_opened_at s = 2 * hour_us"
    "cand_action (selected_candidate s) = ActionLong" "cand_plan (selected_candidate s) = Some sample_plan"
    "trigger_reason (trigger r) = TARGET"
proof -
  obtain s where s: "monitorable s later_dataset []" "sim_opened_at s = 2 * hour_us" "cand_action (selected_candidate s) = ActionLong"
    "cand_plan (selected_candidate s) = Some sample_plan" "valid_until (selected_candidate s) = 5 * hour_us"
    "proceeds_of s 12 = 101978 / 1000"
    by (rule sample_monitored)
  have ne: "future_candles s later_dataset \<noteq> []" "fits (opened s) (sp_current_price (opened s))"
    using s(1) by (simp_all add: monitorable_def)
  note start = monitorable_start [OF s(1)]
  from monitor_loop_runs [OF start(1) ne(1) start(2) ne(2) start(3), of 0] sample_first_exit [OF s(2-5)] s(6)
  obtain r where "run_monitor s later_dataset [] = Inr r" "trigger_reason (trigger r) = TARGET"
    using run_monitor_loop [of s later_dataset "[]"] s(1) by (auto simp: closes_at_def trigger_of_def)
  then show ?thesis using s(2-4) by (intro that)
qed

theorem monitor_exit_is_honest_witness:
  "\<exists>s r. run_monitor s later_dataset [] = Inr r
     \<and> trigger_reason (trigger r) = TARGET \<and> trigger_price (trigger r) = 12"
proof -
  obtain s r where s: "run_monitor s later_dataset [] = Inr r" "cand_plan (selected_candidate s) = Some sample_plan"
    "trigger_reason (trigger r) = TARGET"
    by (rule sample_run)
  from monitor_exit_is_honest [OF s(1)] s show ?thesis
    by (auto simp: honest_exit_def sample_plan_def)
qed

end
