(* ===== verification/Evaluation.thy ===== *)
theory Evaluation imports Performance
begin

text \<open>
  Signal evaluation (\<open>trd_bot/research/evaluation.py\<close>) and its statistical summary
  (\<open>trd_bot/research/reporting.py\<close>): how a signal's direction compares with the move from the open
  of the next candle to the close of the candle \<open>horizon\<close> candles after the signal's.
\<close>

section \<open>Evaluations\<close>

datatype signal_outcome = CORRECT | INCORRECT | FLAT

record signal_evaluation =
  evaluated_signal_id :: string
  evaluated_direction :: signal_direction
  evaluated_horizon :: int
  reference_time :: int
  reference_price :: rat
  evaluation_time :: int
  evaluation_price :: rat
  directional_return :: rat
  signal_outcome :: signal_outcome

definition evaluation_fields :: "signal_evaluation \<Rightarrow> (string \<times> bool) list" where
  "evaluation_fields e =
     [(''horizon_candles'', 1 \<le> evaluated_horizon e), (''reference_price'', 0 < reference_price e),
      (''evaluation_price'', 0 < evaluation_price e)]"

definition SignalEvaluation :: "signal_evaluation \<Rightarrow> signal_evaluation result" where
  "SignalEvaluation e = bindR (check_fields (evaluation_fields e) e)
     (raising [(evaluation_time e \<le> reference_time e,
        ValueError ''evaluation time must be after reference time'')])"

record evaluation_report =
  evaluated_dataset_id :: string
  report_horizon :: int
  total_signals :: int
  resolved_signals :: int
  unresolved_signals :: int
  ignored_neutral_signals :: int
  correct_signals :: int
  incorrect_signals :: int
  flat_signals :: int
  report_hit_rate :: "rat option"
  evaluations :: "signal_evaluation list"

definition hit_rate_ok :: "rat option \<Rightarrow> bool" where
  "hit_rate_ok h \<longleftrightarrow> (case h of None \<Rightarrow> True | Some x \<Rightarrow> 0 \<le> x \<and> x \<le> 1)"

definition SignalEvaluationReport :: "evaluation_report \<Rightarrow> evaluation_report result" where
  "SignalEvaluationReport r = check_fields
     [(''horizon_candles'', 1 \<le> report_horizon r), (''total_signals'', 0 \<le> total_signals r),
      (''resolved_signals'', 0 \<le> resolved_signals r), (''unresolved_signals'', 0 \<le> unresolved_signals r),
      (''ignored_neutral_signals'', 0 \<le> ignored_neutral_signals r),
      (''correct_signals'', 0 \<le> correct_signals r), (''incorrect_signals'', 0 \<le> incorrect_signals r),
      (''flat_signals'', 0 \<le> flat_signals r), (''hit_rate'', hit_rate_ok (report_hit_rate r))] r"

section \<open>The evaluator\<close>

definition validate_signal_source :: "dataset \<Rightarrow> strategy_signal \<Rightarrow> unit result" where
  "validate_signal_source ds s = raising
     [(signal_dataset_id s \<noteq> dataset_id ds, ValueError ''signal does not belong to the dataset''),
      (signal_pair s \<noteq> dataset_pair ds, ValueError ''signal pair does not match the dataset''),
      (signal_timeframe s \<noteq> dataset_timeframe ds,
         ValueError ''signal timeframe does not match the dataset'')] ()"

definition directional_return_of :: "signal_direction \<Rightarrow> rat \<Rightarrow> rat \<Rightarrow> rat result" where
  "directional_return_of dir ref ev =
     bindR (ddiv (dsub ev ref) ref)
       (\<lambda>raw. Inr (case dir of SignalLong \<Rightarrow> raw | SignalShort \<Rightarrow> dneg raw | SignalNeutral \<Rightarrow> 0))"

definition outcome_from_return :: "rat \<Rightarrow> signal_outcome" where
  "outcome_from_return r = (if r > 0 then CORRECT else if r < 0 then INCORRECT else FLAT)"

text \<open>The dict from candle windows to positions: of candles with the same window the last one stays.\<close>

definition candle_indices :: "candle list \<Rightarrow> int \<times> int \<rightharpoonup> int" where
  "candle_indices cs =
     map_of (rev (map (\<lambda>(i, c). ((open_time c, close_time c), i)) (enumerate_from 0 cs)))"

record evaluation_state =
  evaluated :: "signal_evaluation list"
  unresolved :: int
  ignored_neutral :: int

definition evaluate_step ::
  "dataset \<Rightarrow> int \<Rightarrow> evaluation_state \<Rightarrow> strategy_signal \<Rightarrow> evaluation_state result" where
  "evaluate_step ds horizon st s =
     bindR (validate_signal_source ds s) (\<lambda>_.
       if direction s = SignalNeutral then Inr (st\<lparr>ignored_neutral := ignored_neutral st + 1\<rparr>)
       else case candle_indices (candles ds) (candle_open_time s, candle_close_time s) of
           None \<Rightarrow> Inl (ValueError ''signal candle does not exist in the dataset'')
         | Some signal_index \<Rightarrow>
             let reference_index = signal_index + 1; evaluation_index = signal_index + horizon
             in if reference_index \<ge> int (length (candles ds)) \<or> evaluation_index \<ge> int (length (candles ds))
                then Inr (st\<lparr>unresolved := unresolved st + 1\<rparr>)
                else let reference_candle = candles ds ! nat reference_index;
                         evaluation_candle = candles ds ! nat evaluation_index
                  in bindR (directional_return_of (direction s) (open_price reference_candle)
                              (close_price evaluation_candle)) (\<lambda>ret.
                     bindR (SignalEvaluation
                        \<lparr>evaluated_signal_id = signal_id s, evaluated_direction = direction s,
                         evaluated_horizon = horizon, reference_time = open_time reference_candle,
                         reference_price = open_price reference_candle,
                         evaluation_time = close_time evaluation_candle,
                         evaluation_price = close_price evaluation_candle,
                         directional_return = ret, signal_outcome = outcome_from_return ret\<rparr>) (\<lambda>e.
                     Inr (st\<lparr>evaluated := evaluated st @ [e]\<rparr>))))"

definition count_outcome :: "signal_outcome \<Rightarrow> signal_evaluation list \<Rightarrow> int" where
  "count_outcome k es = int (length (filter (\<lambda>e. signal_outcome e = k) es))"

definition evaluate_signals ::
  "dataset \<Rightarrow> strategy_signal list \<Rightarrow> int \<Rightarrow> evaluation_report result" where
  "evaluate_signals ds sigs horizon =
     (if horizon < 1 then Inl (ValueError ''evaluation horizon must be at least 1'')
      else bindR (foldR (evaluate_step ds horizon) \<lparr>evaluated = [], unresolved = 0, ignored_neutral = 0\<rparr> sigs)
        (\<lambda>st. let es = evaluated st; correct = count_outcome CORRECT es; resolved = int (length es)
          in bindR (if resolved \<noteq> 0
                    then bindR (ddiv (of_int correct) (of_int resolved)) (\<lambda>h. Inr (Some h)) else Inr None)
               (\<lambda>hit. SignalEvaluationReport
                 \<lparr>evaluated_dataset_id = dataset_id ds, report_horizon = horizon,
                  total_signals = int (length sigs), resolved_signals = resolved,
                  unresolved_signals = unresolved st, ignored_neutral_signals = ignored_neutral st,
                  correct_signals = correct, incorrect_signals = count_outcome INCORRECT es,
                  flat_signals = count_outcome FLAT es, report_hit_rate = hit, evaluations = es\<rparr>)))"

section \<open>The summary\<close>

record direction_metrics =
  metrics_direction :: signal_direction
  evaluated_count :: int
  correct_count :: int
  incorrect_count :: int
  flat_count :: int
  hit_rate :: "rat option"
  average_return :: "rat option"
  median_return :: "rat option"
  best_return :: "rat option"
  worst_return :: "rat option"

definition metrics_fields :: "direction_metrics \<Rightarrow> (string \<times> bool) list" where
  "metrics_fields m =
     [(''evaluated_signals'', 0 \<le> evaluated_count m), (''correct_signals'', 0 \<le> correct_count m),
      (''incorrect_signals'', 0 \<le> incorrect_count m), (''flat_signals'', 0 \<le> flat_count m),
      (''hit_rate'', hit_rate_ok (hit_rate m))]"

definition DirectionMetrics :: "direction_metrics \<Rightarrow> direction_metrics result" where
  "DirectionMetrics m = bindR (check_fields (metrics_fields m) m) (raising
     [(correct_count m + incorrect_count m + flat_count m \<noteq> evaluated_count m,
         ValueError ''direction outcome counts must equal evaluated signals''),
      (evaluated_count m = 0 \<and> hit_rate m \<noteq> None,
         ValueError ''empty direction metrics cannot have a hit rate''),
      (evaluated_count m > 0 \<and> hit_rate m = None,
         ValueError ''non-empty direction metrics require a hit rate'')])"

definition hit_rate_of :: "signal_evaluation list \<Rightarrow> rat option result" where
  "hit_rate_of es =
     (if es = [] then Inr None
      else bindR (ddiv (of_int (count_outcome CORRECT es)) (of_nat (length es))) (\<lambda>h. Inr (Some h)))"

definition average_of :: "rat list \<Rightarrow> rat option result" where
  "average_of xs =
     (if xs = [] then Inr None else bindR (ddiv (dsum xs) (of_nat (length xs))) (\<lambda>a. Inr (Some a)))"

definition median_of :: "rat list \<Rightarrow> rat option result" where
  "median_of xs =
     (if xs = [] then Inr None
      else let ordered = sort xs; middle = length ordered div 2
        in if length ordered mod 2 = 1 then Inr (Some (ordered ! middle))
           else bindR (ddiv (dadd (ordered ! (middle - 1)) (ordered ! middle)) 2) (\<lambda>m. Inr (Some m)))"

text \<open>\<open>max(values) if values else None\<close>, and the same for \<open>min\<close>.\<close>

fun extreme :: "(rat \<Rightarrow> rat \<Rightarrow> rat) \<Rightarrow> rat list \<Rightarrow> rat option" where
  "extreme pick [] = None"
| "extreme pick (x # xs) = Some (foldl pick x xs)"

definition direction_metrics_of ::
  "signal_evaluation list \<Rightarrow> signal_direction \<Rightarrow> direction_metrics result" where
  "direction_metrics_of es dir =
     (let selected = filter (\<lambda>e. evaluated_direction e = dir) es;
          rets = map directional_return selected
      in bindR (hit_rate_of selected) (\<lambda>hit. bindR (average_of rets) (\<lambda>avg. bindR (median_of rets) (\<lambda>med.
         DirectionMetrics
           \<lparr>metrics_direction = dir, evaluated_count = int (length selected),
            correct_count = count_outcome CORRECT selected,
            incorrect_count = count_outcome INCORRECT selected,
            flat_count = count_outcome FLAT selected, hit_rate = hit, average_return = avg,
            median_return = med, best_return = extreme max rets, worst_return = extreme min rets\<rparr>))))"

record evaluation_summary =
  summary_dataset_id :: string
  summary_horizon :: int
  summary_total :: int
  summary_resolved :: int
  summary_unresolved :: int
  summary_ignored_neutral :: int
  overall_hit_rate :: "rat option"
  overall_average :: "rat option"
  overall_median :: "rat option"
  overall_best :: "rat option"
  overall_worst :: "rat option"
  long_metrics :: direction_metrics
  short_metrics :: direction_metrics

definition StrategyEvaluationSummary :: "evaluation_summary \<Rightarrow> evaluation_summary result" where
  "StrategyEvaluationSummary s = check_fields
     [(''horizon_candles'', 1 \<le> summary_horizon s), (''total_signals'', 0 \<le> summary_total s),
      (''resolved_signals'', 0 \<le> summary_resolved s), (''unresolved_signals'', 0 \<le> summary_unresolved s),
      (''ignored_neutral_signals'', 0 \<le> summary_ignored_neutral s),
      (''overall_hit_rate'', hit_rate_ok (overall_hit_rate s))] s"

definition build_summary :: "evaluation_report \<Rightarrow> evaluation_summary result" where
  "build_summary r =
     (let es = evaluations r; rets = map directional_return es
      in bindR (direction_metrics_of es SignalLong) (\<lambda>longs.
         bindR (direction_metrics_of es SignalShort) (\<lambda>shorts.
         bindR (hit_rate_of es) (\<lambda>hit. bindR (average_of rets) (\<lambda>avg. bindR (median_of rets) (\<lambda>med.
         StrategyEvaluationSummary
           \<lparr>summary_dataset_id = evaluated_dataset_id r, summary_horizon = report_horizon r,
            summary_total = total_signals r, summary_resolved = resolved_signals r,
            summary_unresolved = unresolved_signals r,
            summary_ignored_neutral = ignored_neutral_signals r,
            overall_hit_rate = hit, overall_average = avg, overall_median = med,
            overall_best = extreme max rets, overall_worst = extreme min rets,
            long_metrics = longs, short_metrics = shorts\<rparr>))))))"

section \<open>Counting outcomes\<close>

lemma outcome_counts:
  "count_outcome CORRECT es + count_outcome INCORRECT es + count_outcome FLAT es = int (length es)"
proof (induction es)
  case (Cons e es)
  then show ?case by (cases "signal_outcome e") (simp_all add: count_outcome_def)
qed (simp add: count_outcome_def)

lemma count_outcome_nonneg [simp]: "0 \<le> count_outcome k es"
  by (simp add: count_outcome_def)

lemma count_outcome_le: "count_outcome k es \<le> int (length es)"
  by (simp add: count_outcome_def)

lemma correct_rate_ok:
  assumes "es \<noteq> []" shows "hit_rate_ok (Some (dquot (of_int (count_outcome k es)) (of_nat (length es))))"
proof -
  have "(of_int (count_outcome k es) :: rat) \<le> of_int (int (length es))"
    using count_outcome_le by (simp only: of_int_le_iff)
  then show ?thesis using assms dc.rnd_unit_interval by (simp add: hit_rate_ok_def dquot_def)
qed

lemma hit_rate_of_runs:
  "\<exists>h. hit_rate_of es = Inr h \<and> hit_rate_ok h \<and> (h = None \<longleftrightarrow> es = [])"
  using correct_rate_ok [of es CORRECT] by (auto simp: hit_rate_of_def ddiv_nonzero hit_rate_ok_def)

section \<open>What an evaluation says\<close>

text \<open>The candle of a signal, by its window; in a series of candles there is at most one.\<close>

definition candle_at :: "dataset \<Rightarrow> strategy_signal \<Rightarrow> nat \<Rightarrow> bool" where
  "candle_at ds s i \<longleftrightarrow> i < length (candles ds)
     \<and> open_time (candles ds ! i) = candle_open_time s \<and> close_time (candles ds ! i) = candle_close_time s"

definition evaluable :: "dataset \<Rightarrow> strategy_signal \<Rightarrow> bool" where
  "evaluable ds s \<longleftrightarrow> signal_dataset_id s = dataset_id ds \<and> signal_pair s = dataset_pair ds
     \<and> signal_timeframe s = dataset_timeframe ds
     \<and> (direction s = SignalNeutral
        \<or> list_ex (\<lambda>c. open_time c = candle_open_time s \<and> close_time c = candle_close_time s) (candles ds))"

definition resolvable :: "dataset \<Rightarrow> int \<Rightarrow> strategy_signal \<Rightarrow> bool" where
  "resolvable ds horizon s \<longleftrightarrow> direction s \<noteq> SignalNeutral
     \<and> list_ex (\<lambda>i. candle_at ds s i \<and> i + nat horizon < length (candles ds)) [0..<length (candles ds)]"

text \<open>The exact price move in the direction of the signal.\<close>

definition favourable_move :: "signal_evaluation \<Rightarrow> rat" where
  "favourable_move e = (if evaluated_direction e = SignalLong then evaluation_price e - reference_price e
     else reference_price e - evaluation_price e)"

text \<open>The return in that direction: the move as a decimal, divided by the reference price.\<close>

definition return_on_move :: "signal_evaluation \<Rightarrow> rat" where
  "return_on_move e =
     (let long = dround (dround (evaluation_price e - reference_price e) / reference_price e)
      in if evaluated_direction e = SignalLong then long else - long)"

definition evaluates :: "dataset \<Rightarrow> int \<Rightarrow> strategy_signal \<Rightarrow> signal_evaluation \<Rightarrow> bool" where
  "evaluates ds horizon s e \<longleftrightarrow>
     SignalEvaluation e = Inr e \<and> evaluated_signal_id e = signal_id s \<and> evaluated_direction e = direction s
     \<and> (\<exists>i. candle_at ds s i \<and> i + nat horizon < length (candles ds)
          \<and> reference_time e = open_time (candles ds ! Suc i) \<and> reference_price e = open_price (candles ds ! Suc i)
          \<and> evaluation_time e = close_time (candles ds ! (i + nat horizon))
          \<and> evaluation_price e = close_price (candles ds ! (i + nat horizon)))
     \<and> directional_return e = return_on_move e
     \<and> signal_outcome e = outcome_from_return (favourable_move e)"

lemma evaluable_iff:
  "evaluable ds s \<longleftrightarrow> signal_dataset_id s = dataset_id ds \<and> signal_pair s = dataset_pair ds
     \<and> signal_timeframe s = dataset_timeframe ds \<and> (direction s = SignalNeutral \<or> (\<exists>i. candle_at ds s i))"
  by (auto simp: evaluable_def candle_at_def list_ex_length)

lemma resolvable_iff:
  "resolvable ds h s \<longleftrightarrow>
     direction s \<noteq> SignalNeutral \<and> (\<exists>i. candle_at ds s i \<and> i + nat h < length (candles ds))"
  by (auto simp: resolvable_def list_ex_iff)

lemma candle_at_unique:
  assumes "candle_series (candles ds)" "candle_at ds s i" "candle_at ds s j" shows "i = j"
proof (rule ccontr)
  assume "i \<noteq> j"
  then have "i < j \<or> j < i" by auto
  then show False
    using sorted_wrt_nth_less [OF candle_series_opens [OF assms(1)]] assms(2,3)
    by (auto simp: candle_at_def) (metis less_irrefl)+
qed

lemma enumerate_seconds: "map snd (enumerate_from n xs) = xs"
  by (simp add: enumerate_from_def)

lemma candle_indices_Some:
  assumes "candle_series (candles ds)" "candle_at ds s i"
  shows "candle_indices (candles ds) (candle_open_time s, candle_close_time s) = Some (int i)"
proof -
  define ws where "ws = map (\<lambda>(i, c). ((open_time c, close_time c), i)) (enumerate_from 0 (candles ds))"
  have "distinct (map open_time (candles ds))"
    using candle_series_opens [OF assms(1)] by (simp add: distinct_conv_nth sorted_wrt_iff_nth_less)
      (metis less_irrefl nat_neq_iff)
  moreover have "map (\<lambda>w. fst (fst w)) ws = map open_time (map snd (enumerate_from 0 (candles ds)))"
    by (simp add: split_def ws_def)
  then have "map fst (map fst ws) = map open_time (candles ds)" by (simp add: enumerate_seconds comp_def)
  ultimately have "distinct (map fst ws)" by (metis distinct_map)
  then have "distinct (map fst (rev ws))" by (metis distinct_rev rev_map)
  moreover have "((candle_open_time s, candle_close_time s), int i) \<in> set (rev ws)"
  proof -
    have "(int i, candles ds ! i) \<in> set (enumerate_from 0 (candles ds))"
      using assms(2) by (auto simp: candle_at_def enumerate_from_def in_set_zip intro!: exI [of _ i])
    then show ?thesis using assms(2) unfolding ws_def by (force simp: candle_at_def)
  qed
  ultimately show ?thesis unfolding candle_indices_def ws_def by (rule map_of_is_SomeI)
qed

lemma candle_indices_None:
  assumes "\<nexists>i. candle_at ds s i"
  shows "candle_indices (candles ds) (candle_open_time s, candle_close_time s) = None"
  using assms
  by (auto simp: candle_indices_def map_of_eq_None_iff enumerate_from_def in_set_zip candle_at_def)

lemma outcome_of_sgn: "outcome_from_return x = (if sgn x = 1 then CORRECT else if sgn x = - 1 then INCORRECT else FLAT)"
  by (simp add: outcome_from_return_def sgn_if)

lemma evaluation_sign:
  assumes "0 < ref" "dir \<noteq> SignalNeutral"
  obtains ret where "directional_return_of dir ref ev = Inr ret"
    "outcome_from_return ret = outcome_from_return (if dir = SignalLong then ev - ref else ref - ev)"
    "ret = (if dir = SignalLong then 1 else - 1) * dround (dround (ev - ref) / ref)"
proof -
  let ?raw = "dquot (dsub ev ref) ref"
  have sgn: "sgn ?raw = sgn (ev - ref)"
    using assms(1) by (simp add: dquot_def dsub_def dc.rnd_sign sgn_divide)
  have "sgn (ref - ev) = - sgn (ev - ref)" using idom_abs_sgn_class.sgn_minus [of "ev - ref"] by (simp only: minus_diff_eq)
  then have "sgn (dneg ?raw) = sgn (ref - ev)" by (simp add: dneg_def dc.rnd_sign sgn)
  then have "outcome_from_return (dneg ?raw) = outcome_from_return (ref - ev)"
    "outcome_from_return ?raw = outcome_from_return (ev - ref)"
    using sgn by (simp_all only: outcome_of_sgn)
  moreover have "ddiv (dsub ev ref) ref = Inr ?raw" using assms(1) by (simp add: ddiv_nonzero)
  ultimately show ?thesis
    using that [of ?raw] that [of "dneg ?raw"] assms(2)
    by (cases dir) (simp_all add: directional_return_of_def dneg_def dquot_def dsub_def dround_minus)
qed

lemma evaluate_step_runs:
  assumes "candle_series (candles ds)" "1 \<le> h" "evaluable ds s"
  shows "\<exists>es. list_all2 (evaluates ds h) (filter (resolvable ds h) [s]) es
    \<and> evaluate_step ds h st s = Inr \<lparr>evaluated = evaluated st @ es,
        unresolved = unresolved st + (if direction s \<noteq> SignalNeutral \<and> \<not> resolvable ds h s then 1 else 0),
        ignored_neutral = ignored_neutral st + (if direction s = SignalNeutral then 1 else 0)\<rparr>"
proof -
  have src: "validate_signal_source ds s = Inr ()"
    using assms(3) by (simp add: evaluable_iff validate_signal_source_def raising_Inr_iff)
  show ?thesis
  proof (cases "direction s = SignalNeutral")
    case True
    then show ?thesis by (cases st) (simp add: evaluate_step_def src resolvable_iff)
  next
    case False
    then obtain i where i: "candle_at ds s i" using assms(3) by (auto simp: evaluable_iff)
    have res: "resolvable ds h s \<longleftrightarrow> i + nat h < length (candles ds)"
      using False i candle_at_unique [OF assms(1)] by (auto simp: resolvable_iff)
    note idx = candle_indices_Some [OF assms(1) i]
    have bound: "int i + 1 \<ge> int (length (candles ds)) \<or> int i + h \<ge> int (length (candles ds))
        \<longleftrightarrow> \<not> resolvable ds h s"
      using assms(2) by (auto simp: res)
    show ?thesis
    proof (cases "resolvable ds h s")
      case False
      then show ?thesis using \<open>direction s \<noteq> SignalNeutral\<close> bound
        by (cases st) (simp add: evaluate_step_def src idx Let_def)
    next
      case True
      let ?r = "candles ds ! Suc i" and ?e = "candles ds ! (i + nat h)"
      have at: "nat (int i + 1) = Suc i" "nat (int i + h) = i + nat h" using assms(2) by auto
      have len: "Suc i < length (candles ds)" "i + nat h < length (candles ds)" "Suc i \<le> i + nat h"
        using True assms(2) by (auto simp: res)
      then have valid: "valid_candle ?r" "valid_candle ?e"
        using candle_series_valid [OF assms(1)] by auto
      then have prices: "0 < open_price ?r" "0 < close_price ?e" by (auto simp: valid_candle_iff)
      have "open_time ?r \<le> open_time ?e"
      proof (cases "Suc i = i + nat h")
        case False
        then show ?thesis
          using sorted_wrt_nth_less [OF candle_series_opens [OF assms(1)] _ len(2), of "Suc i"] len(3) by linarith
      qed (metis order_refl)
      then have times: "open_time ?r < close_time ?e" using valid(2) by (simp add: valid_candle_iff)
      obtain ret where ret: "directional_return_of (direction s) (open_price ?r) (close_price ?e) = Inr ret"
        "outcome_from_return ret = outcome_from_return (if direction s = SignalLong
           then close_price ?e - open_price ?r else open_price ?r - close_price ?e)"
        "ret = (if direction s = SignalLong then 1 else - 1)
           * dround (dround (close_price ?e - open_price ?r) / open_price ?r)"
        using evaluation_sign [OF prices(1) \<open>direction s \<noteq> SignalNeutral\<close>] by blast
      define e where "e = \<lparr>evaluated_signal_id = signal_id s, evaluated_direction = direction s,
        evaluated_horizon = h, reference_time = open_time ?r, reference_price = open_price ?r,
        evaluation_time = close_time ?e, evaluation_price = close_price ?e, directional_return = ret,
        signal_outcome = outcome_from_return ret\<rparr>"
      have "SignalEvaluation e = Inr e"
        using assms(2) prices times
        by (simp add: e_def SignalEvaluation_def evaluation_fields_def check_fields_pass raising_Inr_iff)
      moreover from this have "evaluates ds h s e"
        unfolding evaluates_def using i len(2) ret(2,3)
        by (auto simp: e_def favourable_move_def return_on_move_def)
      ultimately show ?thesis
        using True \<open>direction s \<noteq> SignalNeutral\<close> bound
        by (intro exI [of _ "[e]"])
          (cases st, simp add: evaluate_step_def src idx Let_def at ret(1) e_def [symmetric])
    qed
  qed
qed

lemma evaluate_loop:
  assumes "candle_series (candles ds)" "1 \<le> h" "list_all (evaluable ds) sigs"
  shows "\<exists>es. list_all2 (evaluates ds h) (filter (resolvable ds h) sigs) es
    \<and> foldR (evaluate_step ds h) st sigs = Inr \<lparr>evaluated = evaluated st @ es,
        unresolved = unresolved st
          + int (length (filter (\<lambda>s. direction s \<noteq> SignalNeutral \<and> \<not> resolvable ds h s) sigs)),
        ignored_neutral = ignored_neutral st + int (length (filter (\<lambda>s. direction s = SignalNeutral) sigs))\<rparr>"
  using assms(3)
proof (induction sigs arbitrary: st)
  case (Cons s sigs)
  then obtain es where es: "list_all2 (evaluates ds h) (filter (resolvable ds h) [s]) es"
    "evaluate_step ds h st s = Inr \<lparr>evaluated = evaluated st @ es,
        unresolved = unresolved st + (if direction s \<noteq> SignalNeutral \<and> \<not> resolvable ds h s then 1 else 0),
        ignored_neutral = ignored_neutral st + (if direction s = SignalNeutral then 1 else 0)\<rparr>"
    using evaluate_step_runs [OF assms(1,2), of s st] by auto
  define st1 where "st1 = \<lparr>evaluated = evaluated st @ es,
        unresolved = unresolved st + (if direction s \<noteq> SignalNeutral \<and> \<not> resolvable ds h s then 1 else 0),
        ignored_neutral = ignored_neutral st + (if direction s = SignalNeutral then 1 else 0)\<rparr>"
  obtain fs where fs: "list_all2 (evaluates ds h) (filter (resolvable ds h) sigs) fs"
    "foldR (evaluate_step ds h) st1 sigs = Inr \<lparr>evaluated = evaluated st1 @ fs,
        unresolved = unresolved st1
          + int (length (filter (\<lambda>s. direction s \<noteq> SignalNeutral \<and> \<not> resolvable ds h s) sigs)),
        ignored_neutral = ignored_neutral st1 + int (length (filter (\<lambda>s. direction s = SignalNeutral) sigs))\<rparr>"
    using Cons.IH [of st1] Cons.prems by auto
  have "list_all2 (evaluates ds h) (filter (resolvable ds h) (s # sigs)) (es @ fs)"
    using list_all2_appendI [OF es(1) fs(1)] by (simp split: if_splits)
  then show ?case
    using es(2) fs(2) by (intro exI [of _ "es @ fs"]) (auto simp: st1_def)
qed simp

lemma evaluate_step_source:
  assumes "evaluate_step ds h st s = Inr st'" shows "evaluable ds s"
  using assms candle_indices_None [of ds s]
  by (auto simp: evaluate_step_def bindR_Inr_iff validate_signal_source_def raising_Inr_iff evaluable_iff
      split: if_splits option.splits)

section \<open>The report\<close>

text \<open>
  What a report says of its signals: every signal is resolved, unresolved or neutral, each resolved
  one has its evaluation, and the hit rate is the rounded share of correct ones.
\<close>

definition evaluation_of :: "dataset \<Rightarrow> strategy_signal list \<Rightarrow> int \<Rightarrow> evaluation_report \<Rightarrow> bool" where
  "evaluation_of ds sigs h r \<longleftrightarrow>
     SignalEvaluationReport r = Inr r \<and> evaluated_dataset_id r = dataset_id ds \<and> report_horizon r = h
     \<and> list_all2 (evaluates ds h) (filter (resolvable ds h) sigs) (evaluations r)
     \<and> total_signals r = int (length sigs) \<and> resolved_signals r = int (length (evaluations r))
     \<and> resolved_signals r + unresolved_signals r + ignored_neutral_signals r = total_signals r
     \<and> ignored_neutral_signals r = int (length (filter (\<lambda>s. direction s = SignalNeutral) sigs))
     \<and> correct_signals r = count_outcome CORRECT (evaluations r)
     \<and> correct_signals r + incorrect_signals r + flat_signals r = resolved_signals r
     \<and> report_hit_rate r = (if evaluations r = [] then None
          else Some (dquot (of_int (correct_signals r)) (of_int (resolved_signals r))))"

lemma signals_split:
  "length (filter (resolvable ds h) sigs)
   + length (filter (\<lambda>s. direction s \<noteq> SignalNeutral \<and> \<not> resolvable ds h s) sigs)
   + length (filter (\<lambda>s. direction s = SignalNeutral) sigs) = length sigs"
  by (induction sigs) (auto simp: resolvable_iff)

lemma evaluation_runs:
  assumes "candle_series (candles ds)" "1 \<le> h" "list_all (evaluable ds) sigs"
  shows "\<exists>r. evaluate_signals ds sigs h = Inr r \<and> evaluation_of ds sigs h r"
proof -
  obtain es where es: "list_all2 (evaluates ds h) (filter (resolvable ds h) sigs) es"
    and run: "foldR (evaluate_step ds h) \<lparr>evaluated = [], unresolved = 0, ignored_neutral = 0\<rparr> sigs
      = Inr \<lparr>evaluated = es,
        unresolved = int (length (filter (\<lambda>s. direction s \<noteq> SignalNeutral \<and> \<not> resolvable ds h s) sigs)),
        ignored_neutral = int (length (filter (\<lambda>s. direction s = SignalNeutral) sigs))\<rparr>"
    using evaluate_loop [OF assms, of "\<lparr>evaluated = [], unresolved = 0, ignored_neutral = 0\<rparr>"] by auto
  have len: "length es = length (filter (resolvable ds h) sigs)" using es by (simp add: list_all2_lengthD)
  define hit where "hit = (if es = [] then None
    else Some (dquot (of_int (count_outcome CORRECT es)) (of_int (int (length es)))))"
  define r where "r = \<lparr>evaluated_dataset_id = dataset_id ds, report_horizon = h,
    total_signals = int (length sigs), resolved_signals = int (length es),
    unresolved_signals = int (length (filter (\<lambda>s. direction s \<noteq> SignalNeutral \<and> \<not> resolvable ds h s) sigs)),
    ignored_neutral_signals = int (length (filter (\<lambda>s. direction s = SignalNeutral) sigs)),
    correct_signals = count_outcome CORRECT es, incorrect_signals = count_outcome INCORRECT es,
    flat_signals = count_outcome FLAT es, report_hit_rate = hit, evaluations = es\<rparr>"
  have "hit_rate_ok hit" using correct_rate_ok [of es CORRECT] by (auto simp: hit_def hit_rate_ok_def)
  then have "SignalEvaluationReport r = Inr r"
    using assms(2) by (simp add: r_def SignalEvaluationReport_def check_fields_pass)
  moreover have "evaluate_signals ds sigs h = SignalEvaluationReport r"
    using assms(2) by (cases "es = []") (simp_all add: evaluate_signals_def run Let_def r_def hit_def ddiv_nonzero)
  ultimately show ?thesis
    using es signals_split [of ds h sigs] outcome_counts [of es]
    by (intro exI [of _ r] conjI) (simp_all add: evaluation_of_def r_def len hit_def)
qed

lemma evaluate_loop_source:
  "foldR (evaluate_step ds h) st sigs = Inr st' \<Longrightarrow> list_all (evaluable ds) sigs"
  by (induction sigs arbitrary: st) (auto simp: bindR_Inr_iff dest: evaluate_step_source)

lemma evaluated_source:
  "evaluate_signals ds sigs h = Inr r \<Longrightarrow> 1 \<le> h \<and> list_all (evaluable ds) sigs"
  by (auto simp: evaluate_signals_def bindR_Inr_iff dest: evaluate_loop_source split: if_splits)

section \<open>The summary\<close>

lemma foldl_min: "foldl min x xs = Min (insert x (set (xs :: rat list)))"
proof (induction xs arbitrary: x)
  case (Cons y ys)
  then show ?case by (cases "ys = []") (simp_all add: Min_insert min.assoc)
qed simp

lemma extreme_max: "extreme max xs = (if xs = [] then None else Some (Max (set xs)))"
  by (cases xs) (simp_all add: foldl_max)

lemma extreme_min: "extreme min xs = (if xs = [] then None else Some (Min (set xs)))"
  by (cases xs) (simp_all add: foldl_min)

lemma average_of_runs: "average_of xs = Inr (if xs = [] then None else Some (dquot (dsum xs) (of_nat (length xs))))"
  by (simp add: average_of_def ddiv_nonzero)

text \<open>The middle value of the sorted list, or the mean of the two in the middle.\<close>

definition middle_value :: "rat list \<Rightarrow> rat" where
  "middle_value xs =
     (let ys = sort xs; m = length xs div 2
      in if odd (length xs) then ys ! m else dround (dround (ys ! (m - 1) + ys ! m) / 2))"

lemma median_of_runs: "median_of xs = Inr (if xs = [] then None else Some (middle_value xs))"
  by (simp add: median_of_def ddiv_nonzero middle_value_def dquot_def dadd_def Let_def odd_iff_mod_2_eq_one)

text \<open>
  What the statistics of some evaluations say: the share of correct ones, and the mean, the middle value and
  the extremes of their returns; nothing where there are none.
\<close>

definition statistics_of ::
  "signal_evaluation list \<Rightarrow> rat option \<Rightarrow> rat option \<Rightarrow> rat option \<Rightarrow> rat option \<Rightarrow> rat option \<Rightarrow> bool" where
  "statistics_of es hits mean middle best worst \<longleftrightarrow>
     (let rets = map directional_return es; n = of_nat (length es)
      in if es = [] then hits = None \<and> mean = None \<and> middle = None \<and> best = None \<and> worst = None
         else hits = Some (dround (of_int (count_outcome CORRECT es) / n)) \<and> mean = Some (dround (dsum rets / n))
           \<and> middle = Some (middle_value rets) \<and> best = Some (Max (set rets)) \<and> worst = Some (Min (set rets)))"

lemma statistics_run:
  "\<exists>hits mean middle. hit_rate_of es = Inr hits \<and> hit_rate_ok hits \<and> (hits = None \<longleftrightarrow> es = [])
    \<and> average_of (map directional_return es) = Inr mean \<and> median_of (map directional_return es) = Inr middle
    \<and> statistics_of es hits mean middle (extreme max (map directional_return es)) (extreme min (map directional_return es))"
proof -
  obtain h where h: "hit_rate_of es = Inr h" "hit_rate_ok h" "h = None \<longleftrightarrow> es = []" using hit_rate_of_runs by blast
  then have "es \<noteq> [] \<Longrightarrow> h = Some (dround (of_int (count_outcome CORRECT es) / of_nat (length es)))"
    by (simp add: hit_rate_of_def ddiv_nonzero dquot_def)
  then show ?thesis
    using h by (auto simp: average_of_runs median_of_runs statistics_of_def extreme_max extreme_min dquot_def Let_def)
qed

text \<open>The metrics of one direction describe the evaluations of that direction.\<close>

definition metrics_of :: "signal_evaluation list \<Rightarrow> signal_direction \<Rightarrow> direction_metrics \<Rightarrow> bool" where
  "metrics_of es dir m \<longleftrightarrow>
     (let sel = filter (\<lambda>e. evaluated_direction e = dir) es
      in metrics_direction m = dir \<and> evaluated_count m = int (length sel)
         \<and> correct_count m = count_outcome CORRECT sel \<and> incorrect_count m = count_outcome INCORRECT sel
         \<and> flat_count m = count_outcome FLAT sel
         \<and> statistics_of sel (hit_rate m) (average_return m) (median_return m) (best_return m) (worst_return m))"

lemma direction_metrics_runs: "\<exists>m. direction_metrics_of es dir = Inr m \<and> metrics_of es dir m"
proof -
  define sel where "sel = filter (\<lambda>e. evaluated_direction e = dir) es"
  obtain h a m where "hit_rate_of sel = Inr h" "hit_rate_ok h" "h = None \<longleftrightarrow> sel = []"
    "average_of (map directional_return sel) = Inr a" "median_of (map directional_return sel) = Inr m"
    "statistics_of sel h a m (extreme max (map directional_return sel)) (extreme min (map directional_return sel))"
    using statistics_run by blast
  then show ?thesis
    using outcome_counts [of sel]
    by (simp add: direction_metrics_of_def sel_def [symmetric] Let_def DirectionMetrics_def
        metrics_fields_def check_fields_pass raising_Inr_iff bindR_Inr_iff check_fields_Inr_iff metrics_of_def)
qed

text \<open>The summary of a report: its counts, the statistics over all evaluations, and those of each direction.\<close>

definition summary_of :: "evaluation_report \<Rightarrow> evaluation_summary \<Rightarrow> bool" where
  "summary_of r s \<longleftrightarrow>
     summary_dataset_id s = evaluated_dataset_id r \<and> summary_horizon s = report_horizon r
     \<and> summary_total s = total_signals r \<and> summary_resolved s = resolved_signals r
     \<and> summary_unresolved s = unresolved_signals r \<and> summary_ignored_neutral s = ignored_neutral_signals r
     \<and> statistics_of (evaluations r) (overall_hit_rate s) (overall_average s) (overall_median s) (overall_best s)
         (overall_worst s)
     \<and> metrics_of (evaluations r) SignalLong (long_metrics s)
     \<and> metrics_of (evaluations r) SignalShort (short_metrics s)"

lemma summary_runs:
  assumes "SignalEvaluationReport r = Inr r" shows "\<exists>s. build_summary r = Inr s \<and> summary_of r s"
proof -
  obtain l where l: "direction_metrics_of (evaluations r) SignalLong = Inr l" "metrics_of (evaluations r) SignalLong l"
    using direction_metrics_runs by blast
  obtain t where t: "direction_metrics_of (evaluations r) SignalShort = Inr t" "metrics_of (evaluations r) SignalShort t"
    using direction_metrics_runs by blast
  obtain h a m where stats: "hit_rate_of (evaluations r) = Inr h" "hit_rate_ok h"
    "average_of (map directional_return (evaluations r)) = Inr a" "median_of (map directional_return (evaluations r)) = Inr m"
    "statistics_of (evaluations r) h a m (extreme max (map directional_return (evaluations r)))
       (extreme min (map directional_return (evaluations r)))"
    using statistics_run by blast
  show ?thesis
    using assms l t stats
    by (simp add: build_summary_def Let_def StrategyEvaluationSummary_def SignalEvaluationReport_def check_fields_Inr_iff
        check_fields_pass summary_of_def)
qed

section \<open>Properties\<close>

text \<open>
  evaluating signals on a dataset succeeds exactly when the horizon is at least one candle and
  every signal belongs to the dataset (a non-neutral one also to one of its candles). Then each signal
  is counted once, as resolved, unresolved (its horizon ends after the data) or neutral; a resolved one
  is judged from the open of the candle after its own to the close of the candle \<open>horizon\<close> later, as
  correct exactly when the price moved in its direction, whatever the rounding of the return; and the
  summary of the report splits the evaluations by direction, with their extreme returns.
\<close>

theorem evaluation_exact:
  assumes "research_dataset ds"
  shows "(returns (evaluate_signals ds sigs h) \<longleftrightarrow> 1 \<le> h \<and> list_all (evaluable ds) sigs)
    \<and> (\<forall>r. evaluate_signals ds sigs h = Inr r \<longrightarrow> evaluation_of ds sigs h r
         \<and> (\<exists>s. build_summary r = Inr s \<and> summary_of r s))"
proof -
  have series: "candle_series (candles ds)" using assms by (simp add: research_dataset_def)
  then have "returns (evaluate_signals ds sigs h) \<longleftrightarrow> 1 \<le> h \<and> list_all (evaluable ds) sigs"
    using evaluation_runs evaluated_source by (metis returns_iff)
  moreover have "evaluation_of ds sigs h r" if "evaluate_signals ds sigs h = Inr r" for r
    using evaluation_runs [OF series] evaluated_source [OF that] that by fastforce
  ultimately show ?thesis using summary_runs by (metis evaluation_of_def)
qed

theorem evaluation_exact_witness:
  "\<exists>r. evaluate_signals (sample_dataset [10, 9, 12]) [sample_signal SignalLong 0, sample_signal SignalShort 2] 2 = Inr r
     \<and> evaluation_of (sample_dataset [10, 9, 12]) [sample_signal SignalLong 0, sample_signal SignalShort 2] 2 r
     \<and> resolved_signals r = 1"
proof -
  let ?ds = "sample_dataset [10, 9, 12]" and ?sigs = "[sample_signal SignalLong 0, sample_signal SignalShort 2]"
  have ds: "research_dataset ?ds" by (simp add: research_dataset_def)
  have "list_all (evaluable ?ds) ?sigs" by (simp add: evaluable_def sample_signal_def sample_candles)
  then obtain r where r: "evaluate_signals ?ds ?sigs 2 = Inr r" "evaluation_of ?ds ?sigs 2 r"
    using evaluation_exact [OF ds, of ?sigs 2] by (auto simp: returns_iff)
  moreover have "map (resolvable ?ds 2) ?sigs = [True, False]"
    by (simp add: resolvable_def sample_signal_def sample_candles candle_at_def upt_rec nth_Cons')
  then have "length (filter (resolvable ?ds 2) ?sigs) = 1" by simp
  ultimately show ?thesis
    by (auto simp: evaluation_of_def dest!: list_all2_lengthD)
qed

end
