(* ===== verification/Pipeline.thy ===== *)
theory Pipeline imports Evaluation
begin

text \<open>
  The offline research pipeline of \<open>trd_bot/research/pipeline.py\<close>: evaluate the signals, backtest
  them, analyse the events and compare the result with buy and hold, as one record whose validator
  cross-checks the parts. The JSON text of the backtest configuration, which enters the identifiers,
  is an argument as in \<open>build_benchmark_run_id\<close>.
\<close>

section \<open>The pipeline\<close>

definition DEFAULT_RESEARCH_BACKTEST_CONFIG :: backtest_config where
  "DEFAULT_RESEARCH_BACKTEST_CONFIG =
     \<lparr>starting_balance = 10000, allocation_fraction = 1 / 10, fee_rate = 1 / 1000, slippage_rate = 5 / 10000\<rparr>"

definition build_research_backtest_run_id ::
  "string \<Rightarrow> string \<Rightarrow> string \<Rightarrow> string \<Rightarrow> string list \<Rightarrow> string" where
  "build_research_backtest_run_id ds_id name version config_payload signal_ids =
     ''backtest-'' @ digest16 (join ''::'' [ds_id, name, version, config_payload, join ''::'' signal_ids])"

record pipeline_result =
  pipeline_dataset_id :: string
  pipeline_strategy_name :: string
  pipeline_strategy_version :: string
  generated_signals :: int
  pipeline_signals :: "strategy_signal list"
  pipeline_evaluation :: evaluation_report
  pipeline_summary :: evaluation_summary
  backtest_run_id :: string
  pipeline_config :: backtest_config
  backtest_events :: "backtest_event list"
  pipeline_performance :: performance_report
  pipeline_benchmark :: benchmark_result
  pipeline_comparison :: benchmark_comparison

definition validate_pipeline_result :: "pipeline_result \<Rightarrow> pipeline_result result" where
  "validate_pipeline_result r = raising
     [(generated_signals r \<noteq> int (length (pipeline_signals r)),
         ValueError ''generated signal count does not match signals''),
      (evaluated_dataset_id (pipeline_evaluation r) \<noteq> pipeline_dataset_id r,
         ValueError ''evaluation report dataset does not match''),
      (summary_dataset_id (pipeline_summary r) \<noteq> pipeline_dataset_id r,
         ValueError ''summary dataset does not match''),
      (total_signals (pipeline_evaluation r) \<noteq> generated_signals r,
         ValueError ''evaluation signal count does not match''),
      (report_run_id (pipeline_performance r) \<noteq> backtest_run_id r,
         ValueError ''performance report run does not match''),
      (report_dataset_id (pipeline_performance r) \<noteq> pipeline_dataset_id r,
         ValueError ''performance report dataset does not match''),
      (report_starting_balance (pipeline_performance r) \<noteq> starting_balance (pipeline_config r),
         ValueError ''performance report balance does not match backtest config''),
      (benchmark_dataset_id (pipeline_benchmark r) \<noteq> pipeline_dataset_id r,
         ValueError ''benchmark dataset does not match pipeline dataset''),
      (benchmark_config (pipeline_benchmark r) \<noteq> pipeline_config r,
         ValueError ''benchmark config does not match backtest config''),
      (compared_dataset_id (pipeline_comparison r) \<noteq> pipeline_dataset_id r,
         ValueError ''benchmark comparison dataset does not match''),
      (strategy_run_id (pipeline_comparison r) \<noteq> backtest_run_id r,
         ValueError ''benchmark comparison strategy run does not match''),
      (compared_run_id (pipeline_comparison r) \<noteq> benchmark_run_id (pipeline_benchmark r),
         ValueError ''benchmark comparison benchmark run does not match''),
      (strategy_return (pipeline_comparison r) \<noteq> total_return (pipeline_performance r),
         ValueError ''benchmark comparison strategy return does not match''),
      (benchmark_return (pipeline_comparison r) \<noteq> total_return (benchmark_report (pipeline_benchmark r)),
         ValueError ''benchmark comparison benchmark return does not match'')] r"

definition ResearchPipelineResult :: "pipeline_result \<Rightarrow> pipeline_result result" where
  "ResearchPipelineResult r =
     bindR (check_fields [(''generated_signals'', 0 \<le> generated_signals r),
                          (''backtest_run_id'', has_id_form ''backtest-'' 16 (backtest_run_id r))] r)
       validate_pipeline_result"

text \<open>The loop keeps the identifiers seen so far and the close time of the previous signal.\<close>

definition precomputed_step ::
  "string \<Rightarrow> string \<Rightarrow> string set \<times> int option \<Rightarrow> strategy_signal \<Rightarrow> (string set \<times> int option) result" where
  "precomputed_step name version acc s =
     (case acc of (signal_ids, previous_close_time) \<Rightarrow> raising
        [(signal_strategy_name s \<noteq> name, ValueError ''signal strategy name does not match''),
         (signal_strategy_version s \<noteq> version, ValueError ''signal strategy version does not match''),
         (signal_id s \<in> signal_ids, ValueError ''precomputed signals cannot contain duplicates''),
         (case previous_close_time of None \<Rightarrow> False | Some t \<Rightarrow> candle_close_time s < t,
            ValueError ''precomputed signals must be chronological'')]
        (insert (signal_id s) signal_ids, Some (candle_close_time s)))"

definition validate_precomputed_signals :: "strategy_signal list \<Rightarrow> string \<Rightarrow> string \<Rightarrow> unit result" where
  "validate_precomputed_signals sigs name version =
     (if strip name = [] then Inl (ValueError ''strategy name cannot be empty'')
      else if strip version = [] then Inl (ValueError ''strategy version cannot be empty'')
      else bindR (foldR (precomputed_step name version) ({}, None) sigs) (\<lambda>_. Inr ()))"

text \<open>\<open>backtest_config or DEFAULT_RESEARCH_BACKTEST_CONFIG\<close>\<close>

definition effective_config :: "backtest_config option \<Rightarrow> backtest_config" where
  "effective_config config = (case config of None \<Rightarrow> DEFAULT_RESEARCH_BACKTEST_CONFIG | Some c \<Rightarrow> c)"

definition run_with_signals ::
  "string \<Rightarrow> dataset \<Rightarrow> string \<Rightarrow> string \<Rightarrow> strategy_signal list \<Rightarrow> int \<Rightarrow> backtest_config option
   \<Rightarrow> pipeline_result result" where
  "run_with_signals config_payload ds name version sigs horizon config =
     (let cfg = effective_config config
      in bindR (validate_precomputed_signals sigs name version) (\<lambda>_.
         bindR (evaluate_signals ds sigs horizon) (\<lambda>ev.
         bindR (build_summary ev) (\<lambda>summary.
         let run_id = build_research_backtest_run_id (dataset_id ds) name version config_payload
                        (map signal_id sigs)
         in bindR (run_backtest run_id ds sigs cfg) (\<lambda>es.
            bindR (analyze run_id (dataset_id ds) es cfg) (\<lambda>performance.
            bindR (run_buy_and_hold config_payload ds cfg) (\<lambda>benchmark.
            bindR (compare_performance performance benchmark) (\<lambda>comparison.
              ResearchPipelineResult
                \<lparr>pipeline_dataset_id = dataset_id ds, pipeline_strategy_name = name,
                 pipeline_strategy_version = version, generated_signals = int (length sigs),
                 pipeline_signals = sigs, pipeline_evaluation = ev, pipeline_summary = summary,
                 backtest_run_id = run_id, pipeline_config = cfg, backtest_events = es,
                 pipeline_performance = performance, pipeline_benchmark = benchmark,
                 pipeline_comparison = comparison\<rparr>))))))))"

text \<open>\<open>run\<close>: the strategy generates the signals first.\<close>

definition run_pipeline ::
  "string \<Rightarrow> dataset \<Rightarrow> signal_text \<Rightarrow> (dataset \<Rightarrow> strategy_signal list result) \<Rightarrow> int
   \<Rightarrow> backtest_config option \<Rightarrow> pipeline_result result" where
  "run_pipeline config_payload ds lbl generate horizon config =
     bindR (generate ds) (\<lambda>sigs.
       run_with_signals config_payload ds (strategy_name lbl) (strategy_version lbl) sigs horizon config)"

section \<open>Precomputed signals\<close>

definition labelled :: "string \<Rightarrow> string \<Rightarrow> strategy_signal \<Rightarrow> bool" where
  "labelled name version s \<longleftrightarrow> signal_strategy_name s = name \<and> signal_strategy_version s = version"

lemma precomputed_step_Inr_iff:
  "precomputed_step name version (ids, prev) s = Inr acc \<longleftrightarrow>
     labelled name version s \<and> signal_id s \<notin> ids
     \<and> (case prev of None \<Rightarrow> True | Some t \<Rightarrow> t \<le> candle_close_time s)
     \<and> acc = (insert (signal_id s) ids, Some (candle_close_time s))"
  by (auto simp: precomputed_step_def raising_Inr_iff labelled_def split: option.splits)

lemma precomputed_loop:
  "(\<exists>acc. foldR (precomputed_step name version) (ids, prev) sigs = Inr acc) \<longleftrightarrow>
     list_all (\<lambda>s. labelled name version s \<and> signal_id s \<notin> ids
        \<and> (case prev of None \<Rightarrow> True | Some t \<Rightarrow> t \<le> candle_close_time s)) sigs
     \<and> distinct (map signal_id sigs)
     \<and> sorted_wrt (\<lambda>s t. candle_close_time s \<le> candle_close_time t) sigs"
proof (induction sigs arbitrary: ids prev)
  case (Cons s sigs)
  have "(\<exists>acc. foldR (precomputed_step name version) (ids, prev) (s # sigs) = Inr acc) \<longleftrightarrow>
      labelled name version s \<and> signal_id s \<notin> ids
      \<and> (case prev of None \<Rightarrow> True | Some t \<Rightarrow> t \<le> candle_close_time s)
      \<and> (\<exists>acc. foldR (precomputed_step name version) (insert (signal_id s) ids, Some (candle_close_time s)) sigs = Inr acc)"
    by (auto simp: bindR_Inr_iff precomputed_step_Inr_iff)
  moreover have "(\<forall>t \<in> set sigs. signal_id t \<noteq> signal_id s) \<longleftrightarrow> signal_id s \<notin> signal_id ` set sigs" by (metis (no_types, lifting) image_iff)
  ultimately show ?case
    unfolding Cons.IH by (cases prev) (simp add: list_all_iff ball_conj_distrib; auto intro: order_trans)+
qed simp

lemma precomputed_iff:
  "returns (validate_precomputed_signals sigs name version) \<longleftrightarrow>
     strip name \<noteq> [] \<and> strip version \<noteq> []
     \<and> list_all (labelled name version) sigs
     \<and> distinct (map signal_id sigs) \<and> sorted_wrt (\<lambda>s t. candle_close_time s \<le> candle_close_time t) sigs"
proof -
  have "returns (validate_precomputed_signals sigs name version) \<longleftrightarrow>
      strip name \<noteq> [] \<and> strip version \<noteq> []
      \<and> (\<exists>acc. foldR (precomputed_step name version) ({}, None) sigs = Inr acc)"
    by (auto simp: validate_precomputed_signals_def returns_iff bindR_Inr_iff)
  then show ?thesis unfolding precomputed_loop by simp
qed

section \<open>The whole run\<close>

text \<open>
  Signals the pipeline accepts: those of a strategy, with the strategy's name and version and without
  colliding identifiers (an identifier is a truncated digest).
\<close>

definition pipeline_input :: "dataset \<Rightarrow> string \<Rightarrow> string \<Rightarrow> strategy_signal list \<Rightarrow> bool" where
  "pipeline_input ds name version sigs \<longleftrightarrow>
     signals_for ds sigs \<and> strip name \<noteq> [] \<and> strip version \<noteq> []
     \<and> list_all (labelled name version) sigs
     \<and> distinct (map signal_id sigs)"

lemma pipeline_input_checks:
  assumes "pipeline_input ds name version sigs"
  shows "validate_precomputed_signals sigs name version = Inr ()" "list_all (evaluable ds) sigs"
proof -
  have "sorted_wrt (\<lambda>s t. candle_close_time s < candle_close_time t) sigs"
    using assms by (simp add: pipeline_input_def signals_for_def)
  then have "sorted_wrt (\<lambda>s t. candle_close_time s \<le> candle_close_time t) sigs"
    by (rule sorted_wrt_mono_rel [rotated]) simp
  then have "returns (validate_precomputed_signals sigs name version)"
    unfolding precomputed_iff using assms by (simp add: pipeline_input_def)
  then show "validate_precomputed_signals sigs name version = Inr ()" by (auto simp: returns_iff)
  show "list_all (evaluable ds) sigs"
    using assms
    by (fastforce simp: pipeline_input_def signals_for_def signal_from_def evaluable_def list_all_iff list_ex_iff)
qed

text \<open>What a finished run says of its input.\<close>

definition research_of ::
  "dataset \<Rightarrow> strategy_signal list \<Rightarrow> int \<Rightarrow> backtest_config \<Rightarrow> pipeline_result \<Rightarrow> bool" where
  "research_of ds sigs h cfg r \<longleftrightarrow>
     ResearchPipelineResult r = Inr r \<and> pipeline_dataset_id r = dataset_id ds \<and> pipeline_signals r = sigs
     \<and> pipeline_config r = cfg
     \<and> evaluation_of ds sigs h (pipeline_evaluation r) \<and> summary_of (pipeline_evaluation r) (pipeline_summary r)
     \<and> event_log (backtest_events r) \<and> list_all (executed ds sigs cfg) (backtest_events r)
     \<and> 2 * length (trades (pipeline_performance r)) = length (backtest_events r)
     \<and> exact_report (starting_balance cfg) (pipeline_performance r)
     \<and> length (trades (benchmark_report (pipeline_benchmark r))) = 1
     \<and> exact_report (starting_balance cfg) (benchmark_report (pipeline_benchmark r))
     \<and> outcome (pipeline_comparison r)
       = (let x = total_return (pipeline_performance r);
              y = total_return (benchmark_report (pipeline_benchmark r))
          in if y < x then OUTCOME_STRATEGY else if x < y then OUTCOME_BENCHMARK else OUTCOME_TIE)
     \<and> deltas_of (pipeline_performance r) (benchmark_report (pipeline_benchmark r)) (pipeline_comparison r)"

lemma research_run_id:
  fixes ds_id name version payload ids
  defines "rid \<equiv> build_research_backtest_run_id ds_id name version payload ids"
  shows "has_id_form ''backtest-'' 16 rid" "strip rid \<noteq> []" "length rid \<le> 200" "1 \<le> length rid"
proof -
  show "has_id_form ''backtest-'' 16 rid"
    unfolding rid_def build_research_backtest_run_id_def has_id_form_append by simp
  show "length rid \<le> 200" "1 \<le> length rid" by (simp_all add: rid_def build_research_backtest_run_id_def)
  have "CHR ''b'' \<in> set rid" "\<not> is_space (CHR ''b'')"
    by (simp_all add: rid_def build_research_backtest_run_id_def is_space_def)
  then show "strip rid \<noteq> []" unfolding strip_Nil_iff by blast
qed

lemma pipeline_runs:
  fixes config
  defines "cfg \<equiv> effective_config config"
  assumes ds: "research_dataset ds" "strip (dataset_id ds) \<noteq> []" and h: "1 \<le> h"
    and sigs: "pipeline_input ds name version sigs"
    and cfg: "valid_config cfg"
    and run: "run_backtest (build_research_backtest_run_id (dataset_id ds) name version payload
        (map signal_id sigs)) ds sigs cfg = Inr es" and fits: "money_fits v cfg es"
    and hold: "buy_and_hold_events (build_benchmark_run_id (dataset_id ds) payload) ds cfg = Inr bs"
      "money_fits w cfg bs"
  shows "\<exists>r. run_with_signals payload ds name version sigs h config = Inr r
    \<and> research_of ds sigs h cfg r \<and> backtest_events r = es"
proof -
  let ?id = "build_research_backtest_run_id (dataset_id ds) name version payload (map signal_id sigs)"
  note id = research_run_id [of "dataset_id ds" name version payload "map signal_id sigs"]
  note checks = pipeline_input_checks [OF sigs]
  have series: "candle_series (candles ds)" and ne: "1 \<le> length (dataset_id ds)"
    using ds by (simp_all add: research_dataset_def)
  obtain ev where ev: "evaluate_signals ds sigs h = Inr ev" "evaluation_of ds sigs h ev"
    using evaluation_runs [OF series h checks(2)] by blast
  obtain s where s: "build_summary ev = Inr s" "summary_of ev s" "summary_dataset_id s = dataset_id ds"
    using summary_runs ev(2) by (metis evaluation_of_def summary_of_def)
  have log: "event_log es" "list_all (executed ds sigs cfg) es"
    using backtest_runs [OF id(2) cfg ds(1), of sigs] sigs run by (simp_all add: pipeline_input_def)
  obtain p where p: "analyze ?id (dataset_id ds) es cfg = Inr p" "exact_report (starting_balance cfg) p"
      "2 * length (trades p) = length es" "report_starting_balance p = starting_balance cfg"
      "report_run_id p = ?id" "report_dataset_id p = dataset_id ds"
    using analyze_log [OF id(2,3) ds(2) cfg log(1) fits] by blast
  obtain b where b: "run_buy_and_hold payload ds cfg = Inr b" "BenchmarkResult b = Inr b"
      "benchmark_dataset_id b = dataset_id ds" "benchmark_config b = cfg"
      "report_starting_balance (benchmark_report b) = starting_balance cfg"
      "length (trades (benchmark_report b)) = 1" "exact_report (starting_balance cfg) (benchmark_report b)"
    using buy_and_hold_runs [OF ds cfg hold] by blast
  obtain c where c: "compare_performance p b = Inr c" "strategy_run_id c = ?id"
      "compared_run_id c = benchmark_run_id b" "compared_dataset_id c = dataset_id ds"
      "strategy_return c = total_return p" "benchmark_return c = total_return (benchmark_report b)"
      "outcome c = (if total_return (benchmark_report b) < total_return p then OUTCOME_STRATEGY
                   else if total_return p < total_return (benchmark_report b) then OUTCOME_BENCHMARK
                   else OUTCOME_TIE)" "deltas_of p (benchmark_report b) c"
    using comparison_runs [of p b] p(4-6) b id(4) by auto
  define r where "r = \<lparr>pipeline_dataset_id = dataset_id ds, pipeline_strategy_name = name,
    pipeline_strategy_version = version, generated_signals = int (length sigs), pipeline_signals = sigs,
    pipeline_evaluation = ev, pipeline_summary = s, backtest_run_id = ?id, pipeline_config = cfg,
    backtest_events = es, pipeline_performance = p, pipeline_benchmark = b, pipeline_comparison = c\<rparr>"
  have "evaluated_dataset_id ev = dataset_id ds" "total_signals ev = int (length sigs)"
    using ev(2) by (simp_all add: evaluation_of_def)
  then have "ResearchPipelineResult r = Inr r"
    using s p b c id(1)
    by (simp add: ResearchPipelineResult_def validate_pipeline_result_def raising_Inr_iff check_fields_pass r_def)
  moreover have "run_with_signals payload ds name version sigs h config = ResearchPipelineResult r"
    using checks(1) ev(1) s(1) run p(1) b(1) c(1) by (simp add: run_with_signals_def Let_def r_def cfg_def [symmetric])
  ultimately show ?thesis
    using ev(2) s(2) log p b c by (intro exI [of _ r]) (simp add: research_of_def r_def Let_def)
qed

section \<open>Running a strategy\<close>

lemma emit_signal_labelled:
  "emit_signal lbl ds c dir sc feats = Inr (Some s) \<Longrightarrow> labelled (strategy_name lbl) (strategy_version lbl) s"
  by (auto simp: emit_signal_def bindR_Inr_iff StrategySignal_Inr_iff labelled_def)

lemma crossover_labelled:
  assumes "crossover_generate lbl names avg st ds = Inr sigs"
  shows "list_all (labelled (strategy_name lbl) (strategy_version lbl)) sigs"
proof -
  obtain rows where "collectR (crossover_step lbl names ds) rows = Inr sigs"
    using assms by (auto simp: crossover_generate_def bindR_Inr_iff Let_def)
  moreover have "labelled (strategy_name lbl) (strategy_version lbl) s"
    if "crossover_step lbl names ds row = Inr (Some s)" for row s
    using that by (cases "(lbl, names, ds, row)" rule: crossover_step.cases)
      (auto simp: bindR_Inr_iff emit_signal_labelled split: option.splits)
  ultimately show ?thesis by (auto simp: list_all_iff dest!: collectR_set)
qed

lemma rsi_labelled:
  assumes "rsi_generate st ds = Inr sigs"
  shows "list_all (labelled (strategy_name rsi_text) (strategy_version rsi_text)) sigs"
proof -
  obtain rows where "collectR (rsi_step st ds) rows = Inr sigs"
    using assms by (auto simp: rsi_generate_def bindR_Inr_iff)
  moreover have "labelled (strategy_name rsi_text) (strategy_version rsi_text) s"
    if "rsi_step st ds row = Inr (Some s)" for row s
    using that by (cases "(st, ds, row)" rule: rsi_step.cases)
      (auto simp: emit_signal_labelled split: option.splits prod.splits)
  ultimately show ?thesis by (auto simp: list_all_iff dest!: collectR_set)
qed

text \<open>The contract of a strategy, extended by the name and version it signs with.\<close>

locale named_strategy = research_strategy configured generate
  for configured :: "'c \<Rightarrow> bool" and generate :: "'c \<Rightarrow> dataset \<Rightarrow> strategy_signal list result" +
  fixes lbl :: signal_text
  assumes generate_labelled:
      "generate st ds = Inr sigs \<Longrightarrow> list_all (labelled (strategy_name lbl) (strategy_version lbl)) sigs"
    and lbl_texts: "strip (strategy_name lbl) \<noteq> []" "strip (strategy_version lbl) \<noteq> []"
begin

lemma generated_input:
  assumes "configured st" "research_dataset ds" "generate st ds = Inr sigs" "distinct (map signal_id sigs)"
  shows "pipeline_input ds (strategy_name lbl) (strategy_version lbl) sigs"
  using assms lbl_texts generate_labelled generated_signals by (simp add: pipeline_input_def)

lemma strategy_pipeline:
  assumes "configured st" "research_dataset ds" "strip (dataset_id ds) \<noteq> []" "1 \<le> h"
    and "generate st ds = Inr sigs" "distinct (map signal_id sigs)" "valid_config (effective_config config)"
    and "run_backtest (build_research_backtest_run_id (dataset_id ds) (strategy_name lbl) (strategy_version lbl)
        payload (map signal_id sigs)) ds sigs (effective_config config) = Inr es"
    and "money_fits v (effective_config config) es"
    and "buy_and_hold_events (build_benchmark_run_id (dataset_id ds) payload) ds (effective_config config) = Inr bs"
    and "money_fits w (effective_config config) bs"
  shows "\<exists>r. run_pipeline payload ds lbl (generate st) h config = Inr r
    \<and> research_of ds sigs h (effective_config config) r"
  using pipeline_runs [OF assms(2-4) generated_input [OF assms(1,2,5,6)] assms(7-)] assms(5)
  by (auto simp: run_pipeline_def)

end

interpretation sma_run: named_strategy crossover_configured sma_generate sma_text
  by unfold_locales (auto simp: sma_generate_def sma_text_def strip_Nil_iff is_space_def
      dest: crossover_labelled [of sma_text, unfolded sma_text_def, simplified])

interpretation ema_run: named_strategy crossover_configured ema_generate ema_text
  by unfold_locales (auto simp: ema_generate_def ema_text_def strip_Nil_iff is_space_def
      dest: crossover_labelled [of ema_text, unfolded ema_text_def, simplified])

interpretation rsi_run: named_strategy rsi_configured rsi_generate rsi_text
  by unfold_locales (auto simp: rsi_text_def strip_Nil_iff is_space_def
      dest: rsi_labelled [unfolded rsi_text_def, simplified])

section \<open>Properties\<close>



end
