(* ===== verification/Quality.thy ===== *)
theory Quality imports Domain
begin

text \<open>
  The market-data quality checker of \<open>trd_bot/market_data/quality.py\<close>: the issues of a candle
  collection, its coverage of a requested range, the quality score and the acceptance decision that
  lets a collection become a dataset. Percentages are Python floats: every operation on them is the
  exact one rounded to 53 binary digits (their exponents stay far inside the float range).
\<close>

section \<open>Floats\<close>

definition float_of :: "rat \<Rightarrow> rat" where
  "float_of x = rounded_to 2 53 x"

text \<open>\<open>round(x, 2)\<close>: the float next to the two-digit decimal closest to the value of \<open>x\<close>.\<close>

definition round2 :: "rat \<Rightarrow> rat" where
  "round2 x = float_of (of_int (round_half_even (x * 100)) / 100)"

text \<open>\<open>round((part / whole) * 100, 2)\<close> on ints\<close>

definition percentage :: "int \<Rightarrow> int \<Rightarrow> rat" where
  "percentage part whole = round2 (float_of (float_of (of_int part / of_int whole) * 100))"

text \<open>A quotient of two durations is a float; \<open>int(...)\<close> truncates it.\<close>

definition duration_ratio :: "int \<Rightarrow> int \<Rightarrow> rat" where
  "duration_ratio d interval = float_of (of_int d / of_int interval)"

section \<open>Issues\<close>

datatype issue_code =
    EMPTY_DATA | MIXED_SERIES | DUPLICATE_TIMESTAMP | OUT_OF_ORDER | MISSING_CANDLE | OPEN_CANDLE
  | INCOMPLETE_START | INCOMPLETE_END | OUTSIDE_REQUESTED_RANGE | UNALIGNED_CANDLE

record quality_issue =
  code_of :: issue_code
  issue_message :: string
  issue_timestamp :: "int option"

definition integrity_codes :: "issue_code list" where
  "integrity_codes = [EMPTY_DATA, MIXED_SERIES, DUPLICATE_TIMESTAMP, OUT_OF_ORDER, OPEN_CANDLE,
     OUTSIDE_REQUESTED_RANGE, UNALIGNED_CANDLE]"

definition issue_at :: "issue_code \<Rightarrow> string \<Rightarrow> int \<Rightarrow> quality_issue" where
  "issue_at k message t = \<lparr>code_of = k, issue_message = message, issue_timestamp = Some t\<rparr>"

text \<open>\<open>tuple(dict.fromkeys(xs))\<close>: without duplicates, in the order of first occurrence.\<close>

definition distinct_in_order :: "'a list \<Rightarrow> 'a list" where
  "distinct_in_order xs = rev (remdups (rev xs))"

section \<open>Coverage of a requested range\<close>

record coverage_report =
  requested_start :: int
  requested_end :: int
  expected_first_open :: "int option"
  expected_last_open :: "int option"
  actual_first_open :: "int option"
  actual_last_close :: "int option"
  expected_candles :: int
  received_candles :: int
  missing_candles :: int
  coverage_percent :: rat
  coverage_complete :: bool

definition coverage_fields :: "coverage_report \<Rightarrow> (string \<times> bool) list" where
  "coverage_fields r =
     [(''expected_candles'', 0 \<le> expected_candles r), (''received_candles'', 0 \<le> received_candles r),
      (''missing_candles'', 0 \<le> missing_candles r),
      (''coverage_percent'', 0 \<le> coverage_percent r \<and> coverage_percent r \<le> 100)]"

definition validate_coverage :: "coverage_report \<Rightarrow> coverage_report result" where
  "validate_coverage r = raising
     [(requested_end r \<le> requested_start r, ValueError ''coverage end time must be after start time''),
      (received_candles r > expected_candles r,
         ValueError ''received candle count cannot exceed expected candle count''),
      (missing_candles r \<noteq> expected_candles r - received_candles r,
         ValueError ''coverage missing candle count is inconsistent''),
      (coverage_percent r \<noteq> (if expected_candles r \<noteq> 0
                              then percentage (received_candles r) (expected_candles r) else 0),
         ValueError ''coverage percentage is inconsistent''),
      (coverage_complete r \<noteq> (expected_candles r > 0 \<and> missing_candles r = 0),
         ValueError ''coverage completeness is inconsistent'')] r"

definition DataCoverageReport :: "coverage_report \<Rightarrow> coverage_report result" where
  "DataCoverageReport r = bindR (check_fields (coverage_fields r) r) validate_coverage"

definition ceil_div :: "int \<Rightarrow> int \<Rightarrow> int" where
  "ceil_div v d = - ((- v) div d)"

text \<open>First and last expected open time, number of candles, index of the first, interval.\<close>

definition expected_open_range ::
  "timestamp \<Rightarrow> timestamp \<Rightarrow> timeframe \<Rightarrow> (int option \<times> int option \<times> int \<times> int \<times> int) result" where
  "expected_open_range start_at end_at tf =
     bindR (to_utc ''coverage timestamps must include timezone information'' start_at) (\<lambda>s.
     bindR (to_utc ''coverage timestamps must include timezone information'' end_at) (\<lambda>e.
     if e \<le> s then Inl (ValueError ''coverage end time must be after start time'')
     else let interval = duration tf; first_index = ceil_div s interval; end_index = ceil_div e interval;
              expected = max 0 (end_index - first_index)
       in if expected = 0 then Inr (None, None, 0, first_index, interval)
          else Inr (Some (first_index * interval), Some ((end_index - 1) * interval), expected,
                    first_index, interval)))"

text \<open>
  \<open>sorted({c.open_time: c for c in candles}.values(), key=...)\<close>: one candle per open time, the last
  one given for it, in the order of open times.
\<close>

definition by_open_time :: "candle list \<Rightarrow> candle list" where
  "by_open_time cs =
     map (\<lambda>t. last (filter (\<lambda>c. open_time c = t) cs)) (sort (remdups (map open_time cs)))"

definition build_coverage ::
  "candle list \<Rightarrow> timestamp \<Rightarrow> timestamp \<Rightarrow> timeframe \<Rightarrow> coverage_report result" where
  "build_coverage cs start_at end_at tf =
     bindR (expected_open_range start_at end_at tf)
       (\<lambda>(expected_first, expected_last, expected, first_index, interval).
          let end_index = first_index + expected;
              ordered = by_open_time (filter (\<lambda>c. candle_timeframe c = tf \<and> open_time c mod interval = 0
                 \<and> first_index \<le> open_time c div interval \<and> open_time c div interval < end_index) cs);
              received = int (length ordered);
              missing = expected - received
          in DataCoverageReport
               \<lparr>requested_start = instant start_at, requested_end = instant end_at,
                expected_first_open = expected_first, expected_last_open = expected_last,
                actual_first_open = (if ordered \<noteq> [] then Some (open_time (hd ordered)) else None),
                actual_last_close = (if ordered \<noteq> [] then Some (close_time (last ordered)) else None),
                expected_candles = expected, received_candles = received, missing_candles = missing,
                coverage_percent = (if expected \<noteq> 0 then percentage received expected else 0),
                coverage_complete = (expected > 0 \<and> missing = 0)\<rparr>)"

section \<open>Score, acceptance and report\<close>

record quality_score =
  score_percent :: rat
  score_coverage_percent :: rat
  score_integrity_percent :: rat

definition DataQualityScore :: "rat \<Rightarrow> rat \<Rightarrow> rat \<Rightarrow> quality_score result" where
  "DataQualityScore score cov integ =
     (let s = \<lparr>score_percent = score, score_coverage_percent = cov, score_integrity_percent = integ\<rparr>
      in bindR (check_fields [(''score_percent'', 0 \<le> score \<and> score \<le> 100),
                              (''coverage_percent'', 0 \<le> cov \<and> cov \<le> 100),
                              (''integrity_percent'', 0 \<le> integ \<and> integ \<le> 100)] s)
           (raising [(score \<noteq> round2 (float_of (float_of (cov * integ) / 100)),
              ValueError ''quality score does not match its versioned formula'')]))"

record quality_acceptance =
  accepted :: bool
  minimum_score_percent :: rat
  blocking_issue_codes :: "issue_code list"

record quality_report =
  candles_checked :: int
  quality_issues :: "quality_issue list"
  quality_coverage :: "coverage_report option"
  quality_score :: "quality_score option"
  quality_acceptance :: "quality_acceptance option"

definition DataQualityReport :: "quality_report \<Rightarrow> quality_report result" where
  "DataQualityReport r =
     (case (quality_score r, quality_acceptance r) of
        (None, None) \<Rightarrow> Inr r
      | (Some s, Some a) \<Rightarrow>
          let blocking = distinct_in_order (map code_of (quality_issues r))
          in raising
             [(blocking_issue_codes a \<noteq> blocking, ValueError ''quality acceptance does not match report issues''),
              (accepted a \<noteq> (blocking = [] \<and> score_percent s \<ge> minimum_score_percent a),
                 ValueError ''quality acceptance decision is inconsistent'')] r
      | _ \<Rightarrow> Inl (ValueError ''quality score and acceptance must be recorded together''))"

definition is_valid :: "quality_report \<Rightarrow> bool" where
  "is_valid r = (case quality_acceptance r of Some a \<Rightarrow> accepted a | None \<Rightarrow> quality_issues r = [])"

definition score_coverage :: "candle list \<Rightarrow> coverage_report option \<Rightarrow> rat" where
  "score_coverage cs coverage =
     (case coverage of
        Some r \<Rightarrow> coverage_percent r
      | None \<Rightarrow>
          if cs = [] then 0
          else let tf = candle_timeframe (hd cs);
                   opens = sort (remdups (map open_time (filter (\<lambda>c. candle_timeframe c = tf) cs)));
                   expected = 1 + sum_list (map (\<lambda>(p, c). max 1 \<lceil>duration_ratio (c - p) (duration tf)\<rceil>) (adjacent opens))
            in if opens = [] then 0 else percentage (int (length opens)) expected)"

definition score_integrity :: "candle list \<Rightarrow> quality_issue list \<Rightarrow> rat" where
  "score_integrity cs issues =
     (if cs = [] then 0
      else let integrity_issues = filter (\<lambda>i. code_of i \<in> set integrity_codes) issues
        in if list_ex (\<lambda>i. issue_timestamp i = None) integrity_issues then 0
           else let affected = List.map_filter issue_timestamp integrity_issues;
                    affected_candles = int (length (filter (\<lambda>c. open_time c \<in> set affected) cs))
             in percentage (max 0 (int (length cs) - affected_candles)) (int (length cs)))"

definition build_report ::
  "candle list \<Rightarrow> quality_issue list \<Rightarrow> coverage_report option \<Rightarrow> quality_report result" where
  "build_report cs issues coverage =
     (let cov = score_coverage cs coverage; integ = score_integrity cs issues
      in bindR (DataQualityScore (round2 (float_of (float_of (cov * integ) / 100))) cov integ) (\<lambda>score.
         let blocking = distinct_in_order (map code_of issues);
             acceptance = \<lparr>accepted = (blocking = [] \<and> score_percent score = 100),
                           minimum_score_percent = 100, blocking_issue_codes = blocking\<rparr>
         in DataQualityReport \<lparr>candles_checked = int (length cs), quality_issues = issues,
              quality_coverage = coverage, quality_score = Some score,
              quality_acceptance = Some acceptance\<rparr>))"

section \<open>The checker\<close>

definition mixed_series :: "candle list \<Rightarrow> bool" where
  "mixed_series cs \<longleftrightarrow>
     list_ex (\<lambda>c. candle_source c \<noteq> candle_source (hd cs) \<or> candle_pair c \<noteq> candle_pair (hd cs)
                \<or> candle_timeframe c \<noteq> candle_timeframe (hd cs)) (tl cs)"

text \<open>The loop over the candles, with the open times seen before.\<close>

fun candle_issues :: "int set \<Rightarrow> candle list \<Rightarrow> quality_issue list" where
  "candle_issues seen [] = []"
| "candle_issues seen (c # cs) =
     (if open_time c \<in> seen
      then [issue_at DUPLICATE_TIMESTAMP ''Duplicate candle open time detected.'' (open_time c)] else []) @
     (if \<not> is_closed c then [issue_at OPEN_CANDLE ''An unclosed candle was detected.'' (open_time c)] else []) @
     candle_issues (insert (open_time c) seen) cs"

definition order_issues :: "candle list \<Rightarrow> quality_issue list" where
  "order_issues cs =
     map (\<lambda>(p, c). issue_at OUT_OF_ORDER ''Candles are not in chronological order.'' (open_time c))
       (filter (\<lambda>(p, c). open_time c < open_time p) (adjacent cs))"

definition gap_issues :: "candle list \<Rightarrow> quality_issue list" where
  "gap_issues cs =
     (let interval = duration (candle_timeframe (hd cs))
      in map (\<lambda>(p, c). issue_at MISSING_CANDLE
             (str_int (round_down (duration_ratio (open_time c - open_time p) interval) - 1) @
              '' missing candle(s) detected after '' @ isoformat (open_time p) @ ''.'')
             (open_time p + interval))
           (filter (\<lambda>(p, c). open_time c - open_time p > interval) (adjacent (by_open_time cs))))"

definition series_issues :: "candle list \<Rightarrow> quality_issue list" where
  "series_issues cs =
     (if mixed_series cs
      then [\<lparr>code_of = MIXED_SERIES,
             issue_message = ''All candles must have the same source, pair, and timeframe.'',
             issue_timestamp = None\<rparr>] else []) @
     candle_issues {} cs @ order_issues cs @ (if mixed_series cs then [] else gap_issues cs)"

definition boundary_issue :: "issue_code \<Rightarrow> string \<Rightarrow> int \<Rightarrow> int \<Rightarrow> quality_issue" where
  "boundary_issue k side missing t =
     issue_at k (str_int missing @ '' candle(s) are missing at the '' @ side @ '' of the requested range.'') t"

definition actual_opens :: "candle list \<Rightarrow> int \<Rightarrow> int \<Rightarrow> timeframe \<Rightarrow> int list" where
  "actual_opens cs range_start range_end tf =
     map open_time (filter (\<lambda>c. candle_timeframe c = tf \<and> open_time c mod duration tf = 0
       \<and> range_start \<le> open_time c \<and> open_time c < range_end) cs)"

definition start_issues :: "coverage_report \<Rightarrow> int list \<Rightarrow> timeframe \<Rightarrow> quality_issue list" where
  "start_issues coverage opens tf =
     (case expected_first_open coverage of
        Some first \<Rightarrow>
          if first \<notin> set opens
          then [boundary_issue INCOMPLETE_START ''start''
                  (case actual_first_open coverage of
                     None \<Rightarrow> expected_candles coverage
                   | Some actual \<Rightarrow> round_down (duration_ratio (actual - first) (duration tf))) first]
          else []
      | None \<Rightarrow> [])"

definition end_issues :: "coverage_report \<Rightarrow> int list \<Rightarrow> timeframe \<Rightarrow> quality_issue list" where
  "end_issues coverage opens tf =
     (case expected_last_open coverage of
        Some lst \<Rightarrow>
          if lst \<notin> set opens
          then let before = filter (\<lambda>t. t \<le> lst) opens
            in [boundary_issue INCOMPLETE_END ''end''
                  (if before = [] then expected_candles coverage
                   else round_down (duration_ratio (lst - Max (set before)) (duration tf))) lst]
          else []
      | None \<Rightarrow> [])"

definition position_issues :: "int \<Rightarrow> int \<Rightarrow> timeframe \<Rightarrow> candle \<Rightarrow> quality_issue list" where
  "position_issues range_start range_end tf c =
     (if \<not> (range_start \<le> open_time c \<and> open_time c < range_end)
      then [issue_at OUTSIDE_REQUESTED_RANGE ''A candle is outside the requested half-open range.''
              (open_time c)] else []) @
     (if open_time c mod duration tf \<noteq> 0
      then [issue_at UNALIGNED_CANDLE ''A candle is not aligned to its UTC timeframe boundary.''
              (open_time c)] else [])"

definition range_issues ::
  "coverage_report \<Rightarrow> candle list \<Rightarrow> int \<Rightarrow> int \<Rightarrow> timeframe \<Rightarrow> quality_issue list" where
  "range_issues coverage cs range_start range_end tf =
     (let opens = actual_opens cs range_start range_end tf
      in start_issues coverage opens tf @ end_issues coverage opens tf @
         concat (map (position_issues range_start range_end tf) cs))"

fun requested_range ::
  "timestamp option \<Rightarrow> timestamp option \<Rightarrow> timeframe option \<Rightarrow> (timestamp \<times> timestamp \<times> timeframe) option result" where
  "requested_range None None None = Inr None"
| "requested_range (Some s) (Some e) (Some tf) = Inr (Some (s, e, tf))"
| "requested_range _ _ _ = Inl (ValueError ''coverage checking requires start, end, and timeframe'')"

definition check_quality ::
  "candle list \<Rightarrow> timestamp option \<Rightarrow> timestamp option \<Rightarrow> timeframe option \<Rightarrow> quality_report result" where
  "check_quality cs start_at end_at tf_opt =
     bindR (requested_range start_at end_at tf_opt) (\<lambda>range.
       let issues = (if cs = [] then [\<lparr>code_of = EMPTY_DATA,
                       issue_message = ''The candle collection is empty.'', issue_timestamp = None\<rparr>]
                     else series_issues cs)
       in case range of
            None \<Rightarrow> build_report cs issues None
          | Some (s, e, tf) \<Rightarrow>
              bindR (build_coverage cs s e tf) (\<lambda>coverage.
                build_report cs
                  (if cs = [] then issues else issues @ range_issues coverage cs (instant s) (instant e) tf)
                  (Some coverage)))"

section \<open>Percentages stay in range\<close>

lemma float_of_between:
  assumes "of_int m \<le> x" "x \<le> of_int n" "\<bar>m\<bar> \<le> 2 ^ 53" "\<bar>n\<bar> \<le> 2 ^ 53"
  shows "of_int m \<le> float_of x" "float_of x \<le> of_int n"
  using binary_digits.rounded_mono [OF assms(1)] binary_digits.rounded_mono [OF assms(2)]
    binary_digits.rounded_int assms(3,4) by (simp_all add: float_of_def)

lemma float_of_int: "\<bar>n\<bar> \<le> 2 ^ 53 \<Longrightarrow> float_of (of_int n) = of_int n"
  using binary_digits.rounded_int by (simp add: float_of_def)

lemma float_of_percent: "0 \<le> x \<Longrightarrow> x \<le> 100 \<Longrightarrow> 0 \<le> float_of x \<and> float_of x \<le> 100"
  using float_of_between [of 0 x 100] by simp

lemma round2_percent:
  assumes "0 \<le> x" "x \<le> 100" shows "0 \<le> round2 x \<and> round2 x \<le> 100"
proof -
  have "0 \<le> round_half_even (x * 100)" "round_half_even (x * 100) \<le> 10000"
    using round_half_even_mono [of 0 "x * 100"] round_half_even_mono [of "x * 100" 10000]
      round_half_even_of_int [of 0] round_half_even_of_int [of 10000] assms by simp_all
  then have "0 \<le> (of_int (round_half_even (x * 100)) :: rat)" "of_int (round_half_even (x * 100)) \<le> (10000 :: rat)"
    by simp_all
  then show ?thesis unfolding round2_def by (intro float_of_percent) simp_all
qed

lemma round2_100: "round2 100 = 100"
  using round_half_even_of_int [of 10000] float_of_int [of 100] by (simp add: round2_def)

lemma percentage_range:
  assumes "0 \<le> a" "a \<le> b" "0 < b" shows "0 \<le> percentage a b \<and> percentage a b \<le> 100"
proof -
  have "0 \<le> (of_int a / of_int b :: rat)" "(of_int a / of_int b :: rat) \<le> 1"
    using assms by simp_all
  then have "0 \<le> float_of (of_int a / of_int b)" "float_of (of_int a / of_int b) \<le> 1"
    using float_of_between [of 0 "of_int a / of_int b" 1] by simp_all
  then show ?thesis unfolding percentage_def by (intro round2_percent float_of_percent [THEN conjunct1] float_of_percent [THEN conjunct2]) simp_all
qed

lemma percentage_full: "n \<noteq> 0 \<Longrightarrow> percentage n n = 100"
  using float_of_int [of 1] float_of_int [of 100] round2_100 by (simp add: percentage_def)

section \<open>The report\<close>

lemma distinct_in_order_Nil [simp]: "distinct_in_order xs = [] \<longleftrightarrow> xs = []"
  by (simp add: distinct_in_order_def)

definition percent :: "rat \<Rightarrow> bool" where "percent x \<longleftrightarrow> 0 \<le> x \<and> x \<le> 100"

lemma score_range:
  assumes "percent x" "percent y" shows "percent (round2 (float_of (float_of (x * y) / 100)))"
proof -
  have "0 \<le> x * y" "x * y \<le> 10000"
    using assms mult_mono [of x 100 y 100] by (simp_all add: percent_def)
  then have "0 \<le> float_of (x * y)" "float_of (x * y) \<le> 10000"
    using float_of_between [of 0 "x * y" 10000] by simp_all
  then have "0 \<le> float_of (float_of (x * y) / 100) \<and> float_of (float_of (x * y) / 100) \<le> 100"
    by (intro float_of_percent) simp_all
  then show ?thesis using round2_percent by (simp add: percent_def)
qed

lemma score_full: "round2 (float_of (float_of (100 * 100) / 100)) = 100"
  using float_of_int [of 10000] float_of_int [of 100] by (simp add: round2_100)

lemma score_zero: "round2 (float_of (float_of (0 * y) / 100)) = 0"
  using float_of_int [of 0] round_half_even_of_int [of 0] by (simp add: round2_def)

lemma score_integrity_range: "percent (score_integrity cs issues)"
proof -
  have "percent (percentage (int (length cs) - int (length (filter P cs))) (int (length cs)))" if "cs \<noteq> []" for P
    unfolding percent_def using that by (intro percentage_range) simp_all
  then show ?thesis by (auto simp: score_integrity_def Let_def percent_def)
qed

lemma score_integrity_clean: "cs \<noteq> [] \<Longrightarrow> score_integrity cs [] = 100"
  by (simp add: score_integrity_def List.map_filter_def percentage_full)

lemma adjacent_length: "length (adjacent xs) = length xs - 1"
  by (simp add: adjacent_def)

lemma sum_list_ge_length: "(\<And>x. x \<in> set xs \<Longrightarrow> 1 \<le> f x) \<Longrightarrow> int (length xs) \<le> sum_list (map f xs)"
  by (induction xs) fastforce+

lemma score_coverage_range: "percent (score_coverage cs None)"
proof (cases "cs = []")
  case False
  define opens where "opens = sort (remdups (map open_time (filter (\<lambda>c. candle_timeframe c = candle_timeframe (hd cs)) cs)))"
  define f where "f = (\<lambda>(p, c). max 1 \<lceil>duration_ratio (c - p) (duration (candle_timeframe (hd cs)))\<rceil>)"
  have "int (length (adjacent opens)) \<le> sum_list (map f (adjacent opens))"
    by (rule sum_list_ge_length) (auto simp: f_def)
  then have "int (length opens) \<le> 1 + sum_list (map f (adjacent opens))" if "opens \<noteq> []"
    using that by (cases opens) (simp_all add: adjacent_length)
  then have "opens \<noteq> [] \<Longrightarrow> percent (percentage (int (length opens)) (1 + sum_list (map f (adjacent opens))))"
    unfolding percent_def by (intro percentage_range) (cases opens; force)+
  with False show ?thesis
    by (auto simp: score_coverage_def Let_def opens_def [symmetric] f_def [symmetric] percent_def)
qed (simp add: score_coverage_def percent_def)

text \<open>A report is always built, and it accepts exactly a full score without issues.\<close>

lemma build_report_runs:
  assumes "percent (score_coverage cs cov)"
  shows "\<exists>r. build_report cs issues cov = Inr r \<and> quality_issues r = issues \<and> quality_coverage r = cov
    \<and> (is_valid r \<longleftrightarrow> issues = [] \<and> round2 (float_of (float_of
         (score_coverage cs cov * score_integrity cs issues) / 100)) = 100)"
  using assms score_integrity_range [of cs issues] score_range [OF assms score_integrity_range [of cs issues]]
  by (auto simp: build_report_def Let_def DataQualityScore_def check_fields_pass percent_def raising_Inr_iff
      bindR_Inr_iff DataQualityReport_def is_valid_def)

section \<open>Series without issues\<close>

text \<open>
  What the checker accepts: candles of one series, all closed, with strictly increasing open times no
  further apart than the timeframe.
\<close>

definition clean_series :: "candle list \<Rightarrow> bool" where
  "clean_series cs \<longleftrightarrow>
     cs \<noteq> [] \<and> \<not> mixed_series cs \<and> list_all is_closed cs
     \<and> sorted_wrt (\<lambda>a b. open_time a < open_time b) cs
     \<and> list_all (\<lambda>(p, c). open_time c - open_time p \<le> duration (candle_timeframe (hd cs))) (adjacent cs)"

lemma candle_issues_Nil:
  "candle_issues seen cs = [] \<longleftrightarrow>
     list_all is_closed cs \<and> distinct (map open_time cs) \<and> open_time ` set cs \<inter> seen = {}"
  by (induction cs arbitrary: seen) auto

lemma order_issues_Nil: "order_issues cs = [] \<longleftrightarrow> sorted (map open_time cs)"
proof -
  have "order_issues cs = [] \<longleftrightarrow> (\<forall>(p, c) \<in> set (adjacent cs). open_time p \<le> open_time c)"
    by (auto simp: order_issues_def filter_empty_conv)
  also have "\<dots> \<longleftrightarrow> sorted_wrt (\<lambda>p c. open_time p \<le> open_time c) cs"
    by (rule adjacent_sorted_wrt) (auto simp: transp_def)
  finally show ?thesis by (simp add: sorted_map)
qed

lemma strict_opens:
  "sorted_wrt (\<lambda>a b. open_time a < open_time b) cs \<longleftrightarrow> sorted (map open_time cs) \<and> distinct (map open_time cs)"
  using strict_sorted_iff [of "map open_time cs"] by (simp add: sorted_wrt_map)

lemma by_open_time_sorted:
  assumes "sorted_wrt (\<lambda>a b. open_time a < open_time b) cs" shows "by_open_time cs = cs"
proof -
  have st: "sorted (map open_time cs)" "distinct (map open_time cs)" using assms by (simp_all add: strict_opens)
  have "last (filter (\<lambda>d. open_time d = open_time c) cs) = c" if "c \<in> set cs" for c
  proof -
    have "d = c" if "d \<in> set (filter (\<lambda>d. open_time d = open_time c) cs)" for d
      using that \<open>c \<in> set cs\<close> st(2) by (auto simp: distinct_map inj_on_def)
    moreover have "filter (\<lambda>d. open_time d = open_time c) cs \<noteq> []" using \<open>c \<in> set cs\<close> by (auto simp: filter_empty_conv)
    ultimately show ?thesis using last_in_set by blast
  qed
  then show ?thesis using st by (simp add: by_open_time_def distinct_remdups_id sorted_sort_id map_idI)
qed

lemma series_issues_Nil:
  assumes "cs \<noteq> []" shows "series_issues cs = [] \<longleftrightarrow> clean_series cs"
proof (cases "\<not> mixed_series cs \<and> candle_issues {} cs = [] \<and> order_issues cs = []")
  case True
  then have st: "sorted_wrt (\<lambda>a b. open_time a < open_time b) cs"
    by (simp add: candle_issues_Nil order_issues_Nil strict_opens)
  have "gap_issues cs = [] \<longleftrightarrow> list_all (\<lambda>(p, c). open_time c - open_time p \<le> duration (candle_timeframe (hd cs))) (adjacent cs)"
    by (auto simp: gap_issues_def Let_def by_open_time_sorted [OF st] filter_empty_conv list_all_iff not_less)
  with True st assms show ?thesis by (simp add: series_issues_def clean_series_def candle_issues_Nil)
next
  case False
  then show ?thesis
    by (auto simp: series_issues_def clean_series_def candle_issues_Nil order_issues_Nil strict_opens)
qed

lemma clean_series_timeframe:
  "clean_series cs \<Longrightarrow> c \<in> set cs \<Longrightarrow> candle_timeframe c = candle_timeframe (hd cs)
     \<and> candle_source c = candle_source (hd cs) \<and> candle_pair c = candle_pair (hd cs)"
  by (cases cs) (auto simp: clean_series_def mixed_series_def list_ex_iff)

declare duration_pos [simp]

lemma score_coverage_clean:
  assumes "clean_series cs" shows "score_coverage cs None = 100"
proof -
  let ?tf = "candle_timeframe (hd cs)" and ?opens = "map open_time cs"
  have "filter (\<lambda>c. candle_timeframe c = ?tf) cs = cs"
    using clean_series_timeframe [OF assms] by (simp add: filter_id_conv)
  moreover have st: "sorted ?opens" "distinct ?opens" and ne: "cs \<noteq> []"
    using assms by (simp_all add: clean_series_def strict_opens)
  ultimately have opens: "sort (remdups (map open_time (filter (\<lambda>c. candle_timeframe c = ?tf) cs))) = ?opens"
    by (simp add: distinct_remdups_id sorted_sort_id)
  have one: "max 1 \<lceil>duration_ratio (c - p) (duration ?tf)\<rceil> = 1" if pc: "(p, c) \<in> set (adjacent ?opens)" for p c
  proof -
    obtain p' c' where "(p', c') \<in> set (adjacent cs)" "p = open_time p'" "c = open_time c'"
      using pc by (auto simp: adjacent_def zip_map_map simp flip: map_tl)
    then have "c - p \<le> duration ?tf" using assms by (auto simp: clean_series_def list_all_iff)
    then have "(of_int (c - p) / of_int (duration ?tf) :: rat) \<le> 1"
      by (simp add: pos_divide_le_eq flip: of_int_diff)
    then have "duration_ratio (c - p) (duration ?tf) \<le> 1"
      using binary_digits.rounded_mono [of _ 1] binary_digits.rounded_int [of 1]
      by (simp add: duration_ratio_def float_of_def)
    then show ?thesis by (simp add: ceiling_le_iff)
  qed
  have "map (\<lambda>(p, c). max 1 \<lceil>duration_ratio (c - p) (duration ?tf)\<rceil>) (adjacent ?opens) = map (\<lambda>_. 1) (adjacent ?opens)"
    using one by auto
  then have "sum_list (map (\<lambda>(p, c). max 1 \<lceil>duration_ratio (c - p) (duration ?tf)\<rceil>) (adjacent ?opens))
      = int (length (adjacent ?opens))" by (simp only: sum_list_triv)
  moreover have "1 + int (length (adjacent ?opens)) = int (length cs)"
    using ne by (cases cs) (simp_all add: adjacent_length)
  ultimately show ?thesis
    using ne percentage_full by (simp add: score_coverage_def Let_def opens)
qed

text \<open>Without a requested range.\<close>

lemma check_unranged:
  "\<exists>r. check_quality cs None None None = Inr r \<and> quality_coverage r = None
     \<and> (is_valid r \<longleftrightarrow> clean_series cs)"
proof -
  define issues where "issues = (if cs = [] then [\<lparr>code_of = EMPTY_DATA,
      issue_message = ''The candle collection is empty.'', issue_timestamp = None\<rparr>] else series_issues cs)"
  obtain r where r: "build_report cs issues None = Inr r" "quality_coverage r = None"
    "is_valid r \<longleftrightarrow> issues = [] \<and> round2 (float_of (float_of
         (score_coverage cs None * score_integrity cs issues) / 100)) = 100"
    using build_report_runs [OF score_coverage_range] by blast
  have "issues = [] \<longleftrightarrow> clean_series cs" using series_issues_Nil by (auto simp: issues_def clean_series_def)
  moreover have "round2 (float_of (float_of (score_coverage cs None * score_integrity cs issues) / 100)) = 100"
    if "issues = []" "clean_series cs"
    using that score_coverage_clean score_integrity_clean score_full by (simp add: clean_series_def)
  ultimately show ?thesis using r by (auto simp: check_quality_def issues_def [symmetric])
qed

section \<open>With a requested range\<close>

lemma le_div_iff: "0 < d \<Longrightarrow> k \<le> v div d \<longleftrightarrow> k * d \<le> (v :: int)"
proof
  assume d: "0 < d"
  show "k * d \<le> v" if "k \<le> v div d"
  proof -
    have "k * d \<le> v div d * d" using that d by (simp add: mult_right_mono)
    then show ?thesis using pos_mod_sign [OF d, of v] div_mult_mod_eq [of v d] by linarith
  qed
  show "k \<le> v div d" if "k * d \<le> v"
    using zdiv_mono1 [OF that d] d by simp
qed

lemma ceil_div_le: "0 < d \<Longrightarrow> ceil_div v d \<le> q \<longleftrightarrow> v \<le> q * d"
  using le_div_iff [of d "- q" "- v"] by (simp add: ceil_div_def) linarith

text \<open>The timeframe boundaries of a range: the open times a complete import has.\<close>

definition boundaries :: "int \<Rightarrow> int \<Rightarrow> timeframe \<Rightarrow> int list" where
  "boundaries range_start range_end tf =
     map (\<lambda>k. k * duration tf) [ceil_div range_start (duration tf)..ceil_div range_end (duration tf) - 1]"

lemma duration_nonzero [simp]: "duration tf \<noteq> 0"
  by (cases tf) simp_all

lemma boundary_index:
  assumes "t = q * duration tf"
  shows "s \<le> t \<and> t < e \<longleftrightarrow> ceil_div s (duration tf) \<le> q \<and> q < ceil_div e (duration tf)"
  using ceil_div_le [OF duration_pos, of s tf q] ceil_div_le [OF duration_pos, of e tf q] assms
  by (auto simp flip: not_le)

lemma set_boundaries: "t \<in> set (boundaries s e tf) \<longleftrightarrow> t mod duration tf = 0 \<and> s \<le> t \<and> t < e"
proof
  assume "t \<in> set (boundaries s e tf)"
  then obtain q where "t = q * duration tf" "ceil_div s (duration tf) \<le> q" "q < ceil_div e (duration tf)"
    by (auto simp: boundaries_def)
  then show "t mod duration tf = 0 \<and> s \<le> t \<and> t < e" using boundary_index [of t q tf s e] by simp
next
  assume t: "t mod duration tf = 0 \<and> s \<le> t \<and> t < e"
  then have "t = t div duration tf * duration tf" by (metis add.right_neutral div_mult_mod_eq)
  then show "t \<in> set (boundaries s e tf)"
    using boundary_index [of t "t div duration tf" tf s e] t unfolding boundaries_def
    by (metis (no_types, lifting) atLeastAtMost_iff image_eqI list.set_map set_upto zle_diff1_eq)
qed

text \<open>A strictly increasing list of integers without gaps is an interval.\<close>

lemma gapless_upto:
  assumes "xs \<noteq> []" "sorted_wrt (<) xs" "\<forall>(p, c) \<in> set (adjacent xs). c - p \<le> (1 :: int)"
  shows "xs = [hd xs..hd xs + int (length xs) - 1]"
  using assms
proof (induction xs rule: induct_list012)
  case (3 x y zs)
  have "y - x \<le> 1" "x < y" using "3.prems" by simp_all
  then have "y = x + 1" by simp
  moreover have "y # zs = [y..y + int (length (y # zs)) - 1]" using "3.IH"(2) "3.prems" by simp
  ultimately show ?case by (simp add: upto_rec1 [of x])
qed simp_all

lemma gapless_range:
  assumes "sorted_wrt (<) xs" "\<forall>(p, c) \<in> set (adjacent xs). c - p \<le> (1 :: int)"
    and "a \<in> set xs" "b - 1 \<in> set xs" "\<forall>x \<in> set xs. a \<le> x \<and> x < b"
  shows "xs = [a..b - 1]"
proof -
  have ne: "xs \<noteq> []" using assms(3) by auto
  note xs = gapless_upto [OF ne assms(1,2)]
  then have "set xs = {hd xs..hd xs + int (length xs) - 1}" by (metis set_upto)
  moreover from this have "hd xs \<in> set xs" "hd xs + int (length xs) - 1 \<in> set xs" using ne by simp_all
  ultimately have "a \<le> hd xs" "hd xs \<le> a" "hd xs + int (length xs) - 1 < b" "b - 1 \<le> hd xs + int (length xs) - 1"
    using assms(3-5) by auto
  then have "hd xs = a" "hd xs + int (length xs) - 1 = b - 1" by linarith+
  with xs show ?thesis by simp
qed

lemma boundaries_strict: "sorted_wrt (<) (boundaries s e tf)"
  by (simp add: boundaries_def sorted_wrt_map)

lemma length_boundaries:
  "int (length (boundaries s e tf)) = max 0 (ceil_div e (duration tf) - ceil_div s (duration tf))"
  by (simp add: boundaries_def)

lemma boundaries_ends:
  assumes "boundaries s e tf \<noteq> []"
  shows "hd (boundaries s e tf) = ceil_div s (duration tf) * duration tf"
    "last (boundaries s e tf) = (ceil_div e (duration tf) - 1) * duration tf"
proof -
  let ?a = "ceil_div s (duration tf)" and ?b = "ceil_div e (duration tf)"
  have "?a \<le> ?b - 1" using assms by (auto simp: boundaries_def)
  then have "[?a..?b - 1] = ?a # [?a + 1..?b - 1]" "[?a..?b - 1] = [?a..?b - 2] @ [?b - 1]"
    using upto_rec1 [of ?a "?b - 1"] upto_rec2 [of ?a "?b - 1"] by simp_all
  then have "hd [?a..?b - 1] = ?a" "last [?a..?b - 1] = ?b - 1" "[?a..?b - 1] \<noteq> []"
    by (metis list.sel(1), metis last_snoc, metis list.distinct(1))
  then show "hd (boundaries s e tf) = ?a * duration tf" "last (boundaries s e tf) = (?b - 1) * duration tf"
    unfolding boundaries_def by (metis hd_map, metis last_map)
qed

definition within_range :: "candle list \<Rightarrow> int \<Rightarrow> int \<Rightarrow> timeframe \<Rightarrow> candle list" where
  "within_range cs s e tf =
     filter (\<lambda>c. candle_timeframe c = tf \<and> open_time c \<in> set (boundaries s e tf)) cs"

lemma length_by_open_time: "length (by_open_time cs) = card (open_time ` set cs)"
  by (simp add: by_open_time_def length_remdups_card_conv)

lemma build_coverage_runs:
  fixes s e tf
  assumes "s < e"
  defines "B \<equiv> boundaries s e tf"
  shows "\<exists>r. build_coverage cs (Aware s) (Aware e) tf = Inr r
    \<and> expected_first_open r = (if B = [] then None else Some (hd B))
    \<and> expected_last_open r = (if B = [] then None else Some (last B))
    \<and> coverage_percent r = (if B = [] then 0
         else percentage (int (card (open_time ` set (within_range cs s e tf)))) (int (length B)))
    \<and> percent (coverage_percent r)"
proof -
  let ?I = "duration tf" and ?a = "ceil_div s (duration tf)" and ?n = "int (length B)"
  define k where "k = int (card (open_time ` set (within_range cs s e tf)))"
  have n: "max 0 (ceil_div e ?I - ?a) = ?n" by (simp add: B_def length_boundaries)
  then have empty: "max 0 (ceil_div e ?I - ?a) = 0 \<longleftrightarrow> B = []" by simp
  have range: "expected_open_range (Aware s) (Aware e) tf =
      Inr (if B = [] then None else Some (hd B), if B = [] then None else Some (last B), ?n, ?a, ?I)"
    using assms(1) n empty boundaries_ends [of s e tf]
    by (cases "B = []") (simp_all add: expected_open_range_def Let_def B_def)
  have pred: "t mod ?I = 0 \<and> ?a \<le> t div ?I \<and> t div ?I < ?a + ?n \<longleftrightarrow> t \<in> set B" for t
  proof (cases "t mod ?I = 0")
    case True
    then have "t = t div ?I * ?I" by (metis add.right_neutral div_mult_mod_eq)
    then show ?thesis
      using boundary_index [of t "t div ?I" tf s e] True n by (auto simp: B_def set_boundaries)
  qed (simp add: B_def set_boundaries)
  have filt: "filter (\<lambda>c. candle_timeframe c = tf \<and> open_time c mod ?I = 0 \<and> ?a \<le> open_time c div ?I
      \<and> open_time c div ?I < ?a + ?n) cs = within_range cs s e tf"
    unfolding within_range_def B_def [symmetric] by (rule filter_cong) (use pred in auto)
  have "open_time ` set (within_range cs s e tf) \<subseteq> set B" by (auto simp: within_range_def B_def)
  then have "card (open_time ` set (within_range cs s e tf)) \<le> length B"
    by (meson List.finite_set card_length card_mono order_trans)
  then have k: "0 \<le> k" "k \<le> ?n" by (simp_all add: k_def)
  have pct: "percent (if B = [] then 0 else percentage k ?n)"
    using percentage_range [OF k] by (auto simp: percent_def)
  show ?thesis
    unfolding build_coverage_def range bindR.simps prod.case Let_def filt
    using assms(1) k pct
    by (simp add: length_by_open_time k_def [symmetric] DataCoverageReport_def coverage_fields_def
        check_fields_pass validate_coverage_def raising_Inr_iff bindR_Inr_iff check_fields_Inr_iff percent_def
        split: if_splits)
qed

text \<open>What is accepted for a requested range: one closed candle at every boundary in it.\<close>

definition covers :: "candle list \<Rightarrow> int \<Rightarrow> int \<Rightarrow> timeframe \<Rightarrow> bool" where
  "covers cs s e tf \<longleftrightarrow> cs \<noteq> [] \<and> \<not> mixed_series cs \<and> list_all is_closed cs \<and> candle_timeframe (hd cs) = tf
     \<and> map open_time cs = boundaries s e tf"

lemma range_issues_Nil:
  assumes "expected_first_open r = (if B = [] then None else Some (hd B))"
    and "expected_last_open r = (if B = [] then None else Some (last B))" and B: "B = boundaries s e tf"
  shows "range_issues r cs s e tf = [] \<longleftrightarrow> open_time ` set cs \<subseteq> set B
    \<and> (B \<noteq> [] \<longrightarrow> hd B \<in> open_time ` set (within_range cs s e tf)
                  \<and> last B \<in> open_time ` set (within_range cs s e tf))"
proof -
  have "set (actual_opens cs s e tf) = open_time ` set (within_range cs s e tf)"
    by (auto simp: actual_opens_def within_range_def set_boundaries)
  then have "start_issues r (actual_opens cs s e tf) tf = [] \<longleftrightarrow>
        (B \<noteq> [] \<longrightarrow> hd B \<in> open_time ` set (within_range cs s e tf))"
    "end_issues r (actual_opens cs s e tf) tf = [] \<longleftrightarrow>
        (B \<noteq> [] \<longrightarrow> last B \<in> open_time ` set (within_range cs s e tf))"
    by (simp_all only: start_issues_def end_issues_def assms(1,2) Let_def) (simp_all split: if_splits)
  moreover have "concat (map (position_issues s e tf) cs) = [] \<longleftrightarrow> open_time ` set cs \<subseteq> set B"
    by (auto simp: B set_boundaries position_issues_def split: if_splits)
  ultimately show ?thesis by (simp add: range_issues_def Let_def) blast
qed

lemma adjacent_map: "adjacent (map f xs) = map (\<lambda>(p, c). (f p, f c)) (adjacent xs)"
  by (simp add: adjacent_def zip_map_map flip: map_tl)

lemma adjacent_upto: "(p, c) \<in> set (adjacent [a..b]) \<Longrightarrow> c = p + (1 :: int)"
proof (induction a b rule: upto.induct)
  case (1 a b)
  then show ?case
    by (cases "a + 1 \<le> b") (auto simp: upto.simps [of a b] upto.simps [of "a + 1" b] split: if_splits)
qed

lemma covers_clean:
  assumes "covers cs s e tf"
  shows "clean_series cs" "within_range cs s e tf = cs"
proof -
  have opens: "map open_time cs = boundaries s e tf" and tf: "candle_timeframe (hd cs) = tf" and ne: "cs \<noteq> []"
    using assms by (simp_all add: covers_def)
  have "sorted_wrt (<) (map open_time cs)" using boundaries_strict by (simp add: opens)
  moreover have "open_time c - open_time p \<le> duration tf" if "(p, c) \<in> set (adjacent cs)" for p c
  proof -
    have "(open_time p, open_time c) \<in> set (adjacent (boundaries s e tf))"
      unfolding opens [symmetric] adjacent_map using that by force
    then show ?thesis by (auto simp: boundaries_def adjacent_map algebra_simps dest!: adjacent_upto)
  qed
  ultimately show "clean_series cs"
    using assms tf by (auto simp: clean_series_def covers_def sorted_wrt_map list_all_iff)
  then show "within_range cs s e tf = cs"
    using clean_series_timeframe tf by (auto simp: within_range_def filter_id_conv simp flip: opens)
qed

lemma clean_covers:
  assumes "clean_series cs" "open_time ` set cs \<subseteq> set (boundaries s e tf)" "boundaries s e tf \<noteq> []"
    and "hd (boundaries s e tf) \<in> open_time ` set (within_range cs s e tf)"
    and "last (boundaries s e tf) \<in> open_time ` set (within_range cs s e tf)"
  shows "covers cs s e tf"
proof -
  let ?I = "duration tf" and ?a = "ceil_div s (duration tf)" and ?b = "ceil_div e (duration tf)"
  define ks where "ks = map (\<lambda>c. open_time c div ?I) cs"
  have tf: "candle_timeframe (hd cs) = tf"
    using assms(4) clean_series_timeframe [OF assms(1)] by (auto simp: within_range_def)
  have aligned: "open_time c = open_time c div ?I * ?I" if "c \<in> set cs" for c
  proof -
    have "open_time c mod ?I = 0" using assms(2) that by (auto simp: set_boundaries)
    then show ?thesis by (metis add.right_neutral div_mult_mod_eq)
  qed
  have opens: "map open_time cs = map (\<lambda>k. k * ?I) ks" using aligned by (simp add: ks_def)
  have "sorted_wrt (<) (map (\<lambda>k. k * ?I) ks)"
    using assms(1) by (simp add: clean_series_def sorted_wrt_map flip: opens)
  then have "sorted_wrt (<) ks" by (simp add: sorted_wrt_map)
  moreover have "c - p \<le> 1" if pc: "(p, c) \<in> set (adjacent ks)" for p c
  proof -
    obtain p' c' where pc': "(p', c') \<in> set (adjacent cs)" "p = open_time p' div ?I" "c = open_time c' div ?I"
      using pc by (auto simp: ks_def adjacent_map)
    have "open_time c' - open_time p' \<le> ?I" using assms(1) pc'(1) tf by (auto simp: clean_series_def list_all_iff)
    moreover have "open_time c' = c * ?I" "open_time p' = p * ?I"
      using aligned set_adjacent [OF pc'(1)] pc' by auto
    ultimately have "(c - p) * ?I \<le> 1 * ?I" by (simp add: left_diff_distrib)
    then show ?thesis by (simp only: mult_le_cancel_right) simp
  qed
  then have "\<forall>(p, c) \<in> set (adjacent ks). c - p \<le> 1" by blast
  moreover have mem: "q \<in> set ks" if q: "q * ?I \<in> open_time ` set (within_range cs s e tf)" for q
  proof -
    obtain c where c: "c \<in> set cs" "q * ?I = open_time c" using q by (auto simp: within_range_def)
    have "q = q * ?I div ?I" by simp
    also have "\<dots> \<in> set ks" unfolding c(2) ks_def using c(1) by simp
    finally show ?thesis .
  qed
  then have "?a \<in> set ks" "?b - 1 \<in> set ks"
    using assms(4,5) boundaries_ends [OF assms(3)] by simp_all
  moreover have "\<forall>q \<in> set ks. ?a \<le> q \<and> q < ?b"
  proof
    fix q assume "q \<in> set ks"
    then obtain c where c: "c \<in> set cs" "q = open_time c div ?I" by (auto simp: ks_def)
    then have "s \<le> open_time c \<and> open_time c < e" using assms(2) by (auto simp: set_boundaries)
    then show "?a \<le> q \<and> q < ?b" using boundary_index [of "open_time c" q tf s e] aligned [OF c(1)] c(2) by simp
  qed
  ultimately have "ks = [?a..?b - 1]" by (rule gapless_range)
  then show ?thesis using assms(1) tf opens by (simp add: covers_def clean_series_def boundaries_def)
qed

lemma check_ranged:
  assumes "s < e"
  shows "\<exists>r. check_quality cs (Some (Aware s)) (Some (Aware e)) (Some tf) = Inr r
    \<and> (is_valid r \<longleftrightarrow> covers cs s e tf)"
proof -
  let ?B = "boundaries s e tf"
  obtain cov where cov: "build_coverage cs (Aware s) (Aware e) tf = Inr cov"
    "expected_first_open cov = (if ?B = [] then None else Some (hd ?B))"
    "expected_last_open cov = (if ?B = [] then None else Some (last ?B))"
    "coverage_percent cov = (if ?B = [] then 0
       else percentage (int (card (open_time ` set (within_range cs s e tf)))) (int (length ?B)))"
    "percent (coverage_percent cov)"
    using build_coverage_runs [OF assms, of cs tf] by blast
  define issues where "issues = (if cs = [] then [\<lparr>code_of = EMPTY_DATA,
      issue_message = ''The candle collection is empty.'', issue_timestamp = None\<rparr>]
      else series_issues cs @ range_issues cov cs s e tf)"
  have sc: "score_coverage cs (Some cov) = coverage_percent cov" by (simp add: score_coverage_def)
  obtain r where r: "build_report cs issues (Some cov) = Inr r"
    "is_valid r \<longleftrightarrow> issues = [] \<and> round2 (float_of (float_of
         (coverage_percent cov * score_integrity cs issues) / 100)) = 100"
    using build_report_runs [of cs "Some cov" issues] cov(5) unfolding sc by blast
  have "check_quality cs (Some (Aware s)) (Some (Aware e)) (Some tf) = Inr r"
    using r(1) cov(1) by (auto simp: check_quality_def issues_def split: if_splits)
  moreover have "covers cs s e tf" if "is_valid r"
  proof -
    have full: "issues = []" "coverage_percent cov \<noteq> 0" using that r(2) score_zero by auto
    then have "?B \<noteq> []" "cs \<noteq> []" "series_issues cs = []" "range_issues cov cs s e tf = []"
      using cov(4) by (auto simp: issues_def split: if_splits)
    then have "clean_series cs" "open_time ` set cs \<subseteq> set ?B" "hd ?B \<in> open_time ` set (within_range cs s e tf)"
      "last ?B \<in> open_time ` set (within_range cs s e tf)"
      using series_issues_Nil [of cs] range_issues_Nil [OF cov(2,3) refl, of cs] by simp_all
    then show ?thesis using clean_covers \<open>?B \<noteq> []\<close> by simp
  qed
  moreover have "is_valid r" if co: "covers cs s e tf"
  proof -
    have "cs \<noteq> []" and opens: "map open_time cs = ?B" using co by (simp_all add: covers_def)
    then have ne: "?B \<noteq> []" by auto
    have set: "open_time ` set cs = set ?B" using opens by (metis list.set_map)
    have "distinct ?B" using boundaries_strict strict_sorted_iff by blast
    then have "coverage_percent cov = 100"
      using cov(4) ne percentage_full by (simp add: covers_clean(2) [OF co] set distinct_card)
    moreover have "issues = []"
      using series_issues_Nil [OF \<open>cs \<noteq> []\<close>] covers_clean [OF co] range_issues_Nil [OF cov(2,3) refl, of cs] set
        \<open>cs \<noteq> []\<close> ne by (simp add: issues_def)
    ultimately show ?thesis using r(2) score_integrity_clean [OF \<open>cs \<noteq> []\<close>] score_full by simp
  qed
  ultimately show ?thesis by blast
qed

text \<open>The checker raises exactly for a range that is incomplete, naive or empty.\<close>

fun valid_range :: "timestamp option \<Rightarrow> timestamp option \<Rightarrow> timeframe option \<Rightarrow> bool" where
  "valid_range None None None \<longleftrightarrow> True"
| "valid_range (Some (Aware s)) (Some (Aware e)) (Some tf) \<longleftrightarrow> s < e"
| "valid_range _ _ _ \<longleftrightarrow> False"

lemma build_coverage_rejects:
  "\<not> valid_range (Some s) (Some e) (Some tf) \<Longrightarrow> \<not> returns (build_coverage cs s e tf)"
  by (cases s; cases e) (auto simp: build_coverage_def expected_open_range_def returns_iff bindR_Inr_iff)

lemma check_returns_range:
  "returns (check_quality cs (Some s) (Some e) (Some tf)) \<longleftrightarrow> valid_range (Some s) (Some e) (Some tf)"
proof (cases "valid_range (Some s) (Some e) (Some tf)")
  case True
  then obtain a b where ab: "s = Aware a" "e = Aware b" "a < b" by (cases s; cases e) simp_all
  show ?thesis using check_ranged [OF ab(3), of cs tf] True ab by (auto simp: returns_iff)
next
  case False
  then show ?thesis
    using build_coverage_rejects [OF False, of cs] by (auto simp: check_quality_def returns_iff bindR_Inr_iff)
qed

lemma check_returns: "returns (check_quality cs st en tfo) \<longleftrightarrow> valid_range st en tfo"
proof -
  have "returns (check_quality cs None None None)" using check_unranged [of cs] by (auto simp: returns_iff)
  then show ?thesis
    by (cases st; cases en; cases tfo) (simp_all only: check_returns_range valid_range.simps(1),
        simp_all add: check_quality_def)
qed

section \<open>What the checker does not see\<close>

text \<open>
  Only open times are compared: a candle that is still running when the next one opens is accepted, so
  the candles of an accepted dataset need not be a \<open>candle_series\<close>.
\<close>

definition overlapping_candles :: "candle list" where
  "overlapping_candles = [(sample_candle (0, 10))\<lparr>close_time := 2 * hour_us\<rparr>, sample_candle (1, 10)]"

lemma overlapping_candles_accepted:
  "list_all valid_candle overlapping_candles" "clean_series overlapping_candles"
  "\<not> candle_series overlapping_candles"
  by (simp_all add: overlapping_candles_def valid_candle_iff sample_candle_def sized_def clean_series_def
      mixed_series_def candle_series_def)

section \<open>Properties\<close>

text \<open>
  C30: the quality checker raises exactly for a requested range that is incomplete, naive or empty, and
  never because its own report is inconsistent. Without a requested range it accepts exactly the
  non-empty collections of closed candles of one source, pair and timeframe whose open times increase
  strictly by at most the timeframe: the score's float arithmetic never turns a clean collection away,
  nor a faulty one into a full score.
\<close>

theorem quality_accepts_clean_series:
  "(returns (check_quality cs st en tfo) \<longleftrightarrow> valid_range st en tfo)
   \<and> (\<exists>r. check_quality cs None None None = Inr r \<and> (is_valid r \<longleftrightarrow> clean_series cs))"
  using check_returns check_unranged by blast

text \<open>
  with a requested range the checker accepts exactly a complete import: closed candles of one series
  in the requested timeframe, one at every timeframe boundary of the half-open range, in order, and
  nothing else.
\<close>

theorem quality_accepts_complete_range:
  assumes "s < e"
  shows "\<exists>r. check_quality cs (Some (Aware s)) (Some (Aware e)) (Some tf) = Inr r
    \<and> (is_valid r \<longleftrightarrow> covers cs s e tf)"
  using check_ranged [OF assms] .

theorem quality_accepts_complete_range_witness:
  "(\<exists>r. check_quality (candles (sample_dataset [10, 9])) (Some (Aware (- 5))) (Some (Aware (hour_us + 1)))
      (Some HOUR_1) = Inr r \<and> is_valid r)
   \<and> (\<exists>r. check_quality (candles (sample_dataset [10, 9])) (Some (Aware (- 5))) (Some (Aware (2 * hour_us + 1)))
      (Some HOUR_1) = Inr r \<and> \<not> is_valid r)"
proof
  have "covers (candles (sample_dataset [10, 9])) (- 5) (hour_us + 1) HOUR_1"
    by (simp add: covers_def sample_candles mixed_series_def boundaries_def ceil_div_def upto.simps)
      (simp add: sample_candle_def)
  then show "\<exists>r. check_quality (candles (sample_dataset [10, 9])) (Some (Aware (- 5))) (Some (Aware (hour_us + 1)))
      (Some HOUR_1) = Inr r \<and> is_valid r"
    using quality_accepts_complete_range [of "- 5" "hour_us + 1" "candles (sample_dataset [10, 9])" HOUR_1] by auto
  have "\<not> covers (candles (sample_dataset [10, 9])) (- 5) (2 * hour_us + 1) HOUR_1"
    by (simp add: covers_def sample_candles boundaries_def ceil_div_def upto.simps)
  then show "\<exists>r. check_quality (candles (sample_dataset [10, 9])) (Some (Aware (- 5))) (Some (Aware (2 * hour_us + 1)))
      (Some HOUR_1) = Inr r \<and> \<not> is_valid r"
    using quality_accepts_complete_range [of "- 5" "2 * hour_us + 1" "candles (sample_dataset [10, 9])" HOUR_1] by auto
qed

end
