(* ===== verification/Catalog.thy ===== *)
theory Catalog
  imports Prelude "HOL-Library.Multiset" "HOL-Library.Char_ord" "HOL-Library.List_Lexorder"
    "HOL-Library.Product_Lexorder"
begin

text \<open>
  What the in-memory stores of datasets, experiments and walk-forward runs share
  (\<open>trd_bot/research/datasets.py\<close>, \<open>experiments.py\<close>, \<open>walk_forward_runs.py\<close>): saving keeps the first
  record of an identifier, the catalogue is filtered, sorted and cut into pages. The contract of such a
  store is the locale \<open>first_write_store\<close>.
\<close>

section \<open>Saving, sorting and paging\<close>

text \<open>A dictionary in insertion order; a second record with the same key must have the same content.\<close>

definition keep_first ::
  "('v \<Rightarrow> string) \<Rightarrow> ('v \<Rightarrow> 'v \<Rightarrow> bool) \<Rightarrow> string \<Rightarrow> (string \<times> 'v) list \<Rightarrow> 'v \<Rightarrow> ((string \<times> 'v) list \<times> 'v) result" where
  "keep_first key same message repo d =
     (case map_of repo (key d) of
        Some existing \<Rightarrow> if \<not> same existing d then Inl (ValueError message) else Inr (repo, existing)
      | None \<Rightarrow> Inr (repo @ [(key d, d)], d))"

text \<open>\<open>sorted(..., key=..., reverse=...)\<close>: reversing keeps the order of equal keys.\<close>

definition py_sorted :: "bool \<Rightarrow> ('a \<Rightarrow> 'k :: linorder) \<Rightarrow> 'a list \<Rightarrow> 'a list" where
  "py_sorted reversed key xs = (if reversed then rev (sort_key key (rev xs)) else sort_key key xs)"

definition page_slice :: "int \<Rightarrow> int \<Rightarrow> 'a list \<Rightarrow> 'a list result" where
  "page_slice limit offset xs =
     (if limit \<le> 0 then Inl (ValueError ''limit must be greater than zero'')
      else if offset < 0 then Inl (ValueError ''offset cannot be negative'')
      else Inr (take (nat limit) (drop (nat offset) xs)))"

text \<open>A filter of a catalogue query: absent, or the value asked for.\<close>

definition wants :: "'a option \<Rightarrow> 'a \<Rightarrow> bool" where
  "wants v x = (case v of None \<Rightarrow> True | Some y \<Rightarrow> x = y)"

definition created_between :: "int option \<Rightarrow> int option \<Rightarrow> int \<Rightarrow> bool" where
  "created_between lo hi t \<longleftrightarrow>
     (case lo of None \<Rightarrow> True | Some a \<Rightarrow> t \<ge> a) \<and> (case hi of None \<Rightarrow> True | Some b \<Rightarrow> t \<le> b)"

definition range_reversed :: "int option \<Rightarrow> int option \<Rightarrow> bool" where
  "range_reversed lo hi = (case (lo, hi) of (Some a, Some b) \<Rightarrow> b < a | _ \<Rightarrow> False)"

section \<open>The contract of a store\<close>

locale first_write_store =
  fixes ok :: "'r \<Rightarrow> bool" and key :: "'v \<Rightarrow> string" and same :: "'v \<Rightarrow> 'v \<Rightarrow> bool"
    and store :: "'r \<Rightarrow> 'v \<Rightarrow> ('r \<times> 'v) result"
    and fetch :: "'r \<Rightarrow> string \<Rightarrow> 'v option"
  assumes store_known: "ok r \<Longrightarrow> fetch r (key d) = Some x \<Longrightarrow>
       (same x d \<longrightarrow> store r d = Inr (r, x)) \<and> (\<not> same x d \<longrightarrow> \<not> returns (store r d))"
    and store_new: "ok r \<Longrightarrow> fetch r (key d) = None \<Longrightarrow>
       \<exists>r'. store r d = Inr (r', d) \<and> ok r' \<and> fetch r' (key d) = Some d
         \<and> (\<forall>i. i \<noteq> key d \<longrightarrow> fetch r' i = fetch r i)"
begin

lemma stored:
  assumes "ok r" "store r d = Inr (r', x)"
  shows "ok r'" "fetch r' (key d) = Some x" "fetch r i = Some y \<Longrightarrow> fetch r' i = Some y"
    "i \<noteq> key d \<Longrightarrow> fetch r' i = fetch r i" "x = d \<or> fetch r (key d) = Some x \<and> same x d"
proof -
  consider "fetch r (key d) = Some x" "same x d" "r' = r"
    | "fetch r (key d) = None" "x = d" "ok r'" "fetch r' (key d) = Some d"
      "\<forall>i. i \<noteq> key d \<longrightarrow> fetch r' i = fetch r i"
    using store_known [OF assms(1), of d] store_new [OF assms(1), of d] assms(2)
    by (cases "fetch r (key d)") auto
  then have "ok r' \<and> fetch r' (key d) = Some x \<and> (fetch r i = Some y \<longrightarrow> fetch r' i = Some y)
      \<and> (i \<noteq> key d \<longrightarrow> fetch r' i = fetch r i) \<and> (x = d \<or> fetch r (key d) = Some x \<and> same x d)"
    using assms(1) by cases (auto, cases "i = key d", auto)
  then show "ok r'" "fetch r' (key d) = Some x" "fetch r i = Some y \<Longrightarrow> fetch r' i = Some y"
    "i \<noteq> key d \<Longrightarrow> fetch r' i = fetch r i" "x = d \<or> fetch r (key d) = Some x \<and> same x d" by blast+
qed

lemma store_again:
  assumes "ok r" "store r d = Inr (r', x)" "same x e" "key e = key d"
  shows "store r' e = Inr (r', x)"
  using store_known [of r' e x] stored [OF assms(1,2)] assms(3,4) by simp

text \<open>Saving a list of records keeps the first one of each identifier.\<close>

lemma stored_all:
  assumes "ok r" "foldR (\<lambda>r d. bindR (store r d) (\<lambda>p. Inr (fst p))) r ds = Inr r'"
  shows "ok r' \<and> (\<forall>i. fetch r' i = (case fetch r i of Some x \<Rightarrow> Some x | None \<Rightarrow> find (\<lambda>d. key d = i) ds))
    \<and> (\<forall>d \<in> set ds. \<exists>x. fetch r' (key d) = Some x \<and> (x = d \<or> same x d))"
  using assms
proof (induction ds arbitrary: r)
  case Nil
  then show ?case by (simp split: option.splits)
next
  case (Cons d ds)
  then obtain r1 x where r1: "store r d = Inr (r1, x)"
    and rest: "foldR (\<lambda>r d. bindR (store r d) (\<lambda>p. Inr (fst p))) r1 ds = Inr r'"
    by (auto simp: bindR_Inr_iff)
  note st = stored [OF Cons.prems(1) r1]
  have IH: "ok r'" "\<And>i. fetch r' i = (case fetch r1 i of Some x \<Rightarrow> Some x | None \<Rightarrow> find (\<lambda>d. key d = i) ds)"
    "\<forall>d \<in> set ds. \<exists>x. fetch r' (key d) = Some x \<and> (x = d \<or> same x d)"
    using Cons.IH [OF st(1) rest] by blast+
  have "fetch r1 (key d) = (case fetch r (key d) of Some y \<Rightarrow> Some y | None \<Rightarrow> Some d)"
    using st(2,3,5) by (fastforce split: option.splits)
  then have "fetch r' i = (case fetch r i of Some y \<Rightarrow> Some y | None \<Rightarrow> find (\<lambda>d. key d = i) (d # ds))" for i
    using IH(2) [of i] st(4) [of i] by (cases "i = key d") (auto split: option.splits)
  moreover have "fetch r' (key d) = Some x" "x = d \<or> same x d"
    using IH(2) st(2,5) by auto
  ultimately show ?case using IH(1,3) by auto
qed

end

definition keyed :: "('v \<Rightarrow> string) \<Rightarrow> (string \<times> 'v) list \<Rightarrow> bool" where
  "keyed key repo \<longleftrightarrow> distinct (map fst repo) \<and> list_all (\<lambda>(i, d). i = key d) repo"

lemma keep_first_store: "first_write_store (keyed key) key same (keep_first key same message) map_of"
proof unfold_locales
  fix r :: "(string \<times> 'a) list" and d
  assume ok: "keyed key r" and new: "map_of r (key d) = None"
  then have "key d \<notin> fst ` set r" by (simp add: map_of_eq_None_iff)
  with ok new show "\<exists>r'. keep_first key same message r d = Inr (r', d) \<and> keyed key r' \<and> map_of r' (key d) = Some d
      \<and> (\<forall>i. i \<noteq> key d \<longrightarrow> map_of r' i = map_of r i)"
    by (auto simp: keep_first_def keyed_def map_add_def split: option.splits)
qed (simp add: keep_first_def)

lemma length_keyed:
  assumes "keyed key repo" shows "length repo = card (key ` set (map snd repo))"
proof -
  have "map fst repo = map key (map snd repo)" using assms by (auto simp: keyed_def list_all_iff)
  then have "distinct (map key (map snd repo))" using assms by (metis keyed_def)
  then have "card (set (map key (map snd repo))) = length repo" by (simp only: distinct_card) simp
  then show ?thesis by (simp only: set_map)
qed

lemma kept_first:
  assumes "foldR (\<lambda>r d. bindR (keep_first key same message r d) (\<lambda>p. Inr (fst p))) [] ds = Inr repo"
  shows "(\<forall>i. map_of repo i = find (\<lambda>d. key d = i) ds)
    \<and> (\<forall>d \<in> set ds. \<exists>x. map_of repo (key d) = Some x \<and> (x = d \<or> same x d)) \<and> length repo = card (key ` set ds)"
proof -
  have "keyed key []" by (simp add: keyed_def)
  note all = first_write_store.stored_all [OF keep_first_store this assms]
  then have ok: "keyed key repo" and get: "\<forall>i. map_of repo i = find (\<lambda>d. key d = i) ds"
    and same: "\<forall>d \<in> set ds. \<exists>x. map_of repo (key d) = Some x \<and> (x = d \<or> same x d)"
    by auto
  have "i \<in> set (map fst repo) \<longleftrightarrow> i \<in> key ` set ds" for i
  proof -
    have "i \<in> set (map fst repo) \<longleftrightarrow> map_of repo i \<noteq> None" by (simp add: map_of_eq_None_iff)
    also have "\<dots> \<longleftrightarrow> i \<in> key ` set ds" using get by (auto simp: find_None_iff)
    finally show ?thesis .
  qed
  then have "set (map fst repo) = key ` set ds" by blast
  moreover have "map fst repo = map key (map snd repo)"
    using ok by (auto simp: keyed_def list_all_iff)
  ultimately show ?thesis using get same length_keyed [OF ok] by (metis list.set_map)
qed

section \<open>Pages\<close>

lemma concat_pages:
  "length xs \<le> n * l \<Longrightarrow> concat (map (\<lambda>k. take l (drop (k * l) xs)) [0..<n]) = xs"
proof (induction n arbitrary: xs)
  case (Suc n)
  have "concat (map (\<lambda>k. take l (drop (k * l) xs)) [0..<Suc n])
      = take l xs @ concat (map (\<lambda>k. take l (drop (k * l) (drop l xs))) [0..<n])"
    by (simp add: upt_conv_Cons map_Suc_upt [symmetric] comp_def add.commute del: upt_Suc map_Suc_upt)
  also have "\<dots> = take l xs @ drop l xs" using Suc.IH [of "drop l xs"] Suc.prems by simp
  finally show ?case by simp
qed simp

lemma pages_complete:
  assumes "0 < limit" "int (length xs) \<le> int n * limit"
  shows "\<exists>pages. mapR (\<lambda>k. page_slice limit (int k * limit) xs) [0..<n] = Inr pages \<and> concat pages = xs"
proof -
  have "mapR (\<lambda>k. page_slice limit (int k * limit) xs) [0..<n]
      = Inr (map (\<lambda>k. take (nat limit) (drop (k * nat limit) xs)) [0..<n])"
    using assms(1) by (intro mapR_total) (simp add: page_slice_def nat_mult_distrib zero_le_mult_iff flip: not_le)
  moreover have "concat (map (\<lambda>k. take (nat limit) (drop (k * nat limit) xs)) [0..<n]) = xs"
  proof (rule concat_pages)
    have "int (length xs) \<le> int (n * nat limit)" using assms by simp
    then show "length xs \<le> n * nat limit" by (simp only: of_nat_le_iff)
  qed
  ultimately show ?thesis by blast
qed

lemma mset_py_sorted [simp]: "mset (py_sorted r key xs) = mset xs"
  by (simp add: py_sorted_def)

lemma length_py_sorted [simp]: "length (py_sorted r key xs) = length xs"
  by (simp add: py_sorted_def)

lemma py_sorted_ordered: "sorted (map key (if r then rev (py_sorted r key xs) else py_sorted r key xs))"
  by (simp add: py_sorted_def)


section \<open>Rankings\<close>

text \<open>A sort by a key that tells the elements apart does not depend on the order they come in.\<close>

lemma sort_key_perm: "mset xs = mset ys \<Longrightarrow> inj_on key (set ys) \<Longrightarrow> sort_key key xs = sort_key key ys"
  by (intro sort_key_inj_key_eq) (auto dest: mset_eq_setD)

lemma sort_key_Nil_iff [simp]: "sort_key key xs = [] \<longleftrightarrow> xs = []"
  by (metis length_0_conv length_sort)

lemma sort_key_first:
  assumes "xs \<noteq> []" shows "hd (sort_key key xs) \<in> set xs" "x \<in> set xs \<Longrightarrow> key (hd (sort_key key xs)) \<le> key x"
proof -
  have ne: "sort_key key xs \<noteq> []" using assms by simp
  then show "hd (sort_key key xs) \<in> set xs" by (metis hd_in_set set_sort)
  obtain y ys where ys: "sort_key key xs = y # ys" using ne by (cases "sort_key key xs") auto
  have "sorted (map key (y # ys))" using sorted_sort_key [of key xs] by (simp add: ys)
  moreover have "x \<in> set xs \<Longrightarrow> x \<in> set (y # ys)" by (metis set_sort ys)
  ultimately show "x \<in> set xs \<Longrightarrow> key (hd (sort_key key xs)) \<le> key x" by (auto simp: ys)
qed

lemma card_map_eq_length: "card (set (map f xs)) = length xs \<longleftrightarrow> distinct (map f xs)"
  by (metis card_distinct distinct_card length_map)

lemma card_map_eq_one: "card (set (map f xs)) = 1 \<longleftrightarrow> xs \<noteq> [] \<and> (\<forall>x \<in> set xs. f x = f (hd xs))"
proof (cases xs)
  case (Cons y ys)
  have "card (set (map f xs)) = 1 \<longleftrightarrow> set (map f xs) = {f y}"
    using Cons by (auto simp: card_1_singleton_iff)
  then show ?thesis using Cons by auto
qed simp

end
