(* ===== verification/Datasets.thy ===== *)
theory Datasets
  imports Quality Strategies Catalog
begin

text \<open>
  Dataset snapshots of \<open>trd_bot/research/datasets.py\<close>: their provenance, the builder that runs the
  quality checker and derives the content identity, summaries, catalogue queries and the in-memory
  repository. The JSON text of a candle (without \<open>received_at\<close>) depends on how its decimals are
  written, not only on their values, so a candle comes with its text here: the texts are arguments of
  the builder and a snapshot keeps them.
\<close>

section \<open>Provenance\<close>

datatype provenance_kind = LEGACY | GENERATED | MANUAL_UPLOAD | MARKET_DATA_IMPORT

datatype file_format = CSV | JSON | PARQUET

record provenance =
  provenance_kind :: provenance_kind
  connection_id :: "string option"
  provider_id :: "string option"
  import_id :: "string option"
  requested_start_time :: "int option"
  requested_end_time :: "int option"
  normalization_version :: "string option"
  original_filename :: "string option"
  original_file_format :: "file_format option"
  original_file_checksum :: "string option"
  column_mapping :: "(string \<times> string) list option"

text \<open>An optional text: its declared length, then its validator strips it and refuses an empty one.\<close>

definition text_ok :: "nat \<Rightarrow> string option \<Rightarrow> bool" where
  "text_ok n v = (case v of None \<Rightarrow> True | Some s \<Rightarrow> sized 1 n s \<and> strip s \<noteq> [])"

definition time_ok :: "timestamp option \<Rightarrow> bool" where
  "time_ok v = (case v of None \<Rightarrow> True | Some t \<Rightarrow> aware t)"

definition import_details_missing :: "provenance \<Rightarrow> bool" where
  "import_details_missing p \<longleftrightarrow> connection_id p = None \<or> provider_id p = None \<or> import_id p = None
     \<or> requested_start_time p = None \<or> requested_end_time p = None"

definition import_details_given :: "provenance \<Rightarrow> bool" where
  "import_details_given p \<longleftrightarrow> connection_id p \<noteq> None \<or> provider_id p \<noteq> None \<or> import_id p \<noteq> None
     \<or> requested_start_time p \<noteq> None \<or> requested_end_time p \<noteq> None"

definition file_details :: "provenance \<Rightarrow> bool list" where
  "file_details p = [original_filename p \<noteq> None, original_file_format p \<noteq> None,
     original_file_checksum p \<noteq> None, column_mapping p \<noteq> None]"

definition validate_origin_details :: "provenance \<Rightarrow> provenance result" where
  "validate_origin_details p =
     (let imported = (provenance_kind p = MARKET_DATA_IMPORT); uploaded = (provenance_kind p = MANUAL_UPLOAD);
          files = file_details p
      in raising
        [(imported \<and> import_details_missing p,
            ValueError ''market-data import provenance requires complete import details''),
         (imported \<and> the (requested_end_time p) \<le> the (requested_start_time p),
            ValueError ''dataset provenance requested end time must be after start time''),
         (\<not> imported \<and> (import_details_given p \<or> normalization_version p \<noteq> None),
            ValueError ''non-import dataset provenance cannot contain import details''),
         (uploaded \<and> list_ex id files \<and> \<not> list_all id files,
            ValueError ''manual-upload file provenance requires complete file details''),
         (uploaded \<and> column_mapping p = Some [],
            ValueError ''manual-upload column mapping cannot be empty''),
         (uploaded \<and> (case column_mapping p of None \<Rightarrow> False
            | Some m \<Rightarrow> list_ex (\<lambda>(k, v). strip k = [] \<or> strip v = []) m),
            ValueError ''manual-upload column mapping cannot contain empty text''),
         (\<not> uploaded \<and> list_ex id files,
            ValueError ''non-manual dataset provenance cannot contain file details'')] p)"

definition DatasetProvenance ::
  "provenance_kind \<Rightarrow> string option \<Rightarrow> string option \<Rightarrow> string option \<Rightarrow> timestamp option
   \<Rightarrow> timestamp option \<Rightarrow> string option \<Rightarrow> string option \<Rightarrow> file_format option \<Rightarrow> string option
   \<Rightarrow> (string \<times> string) list option \<Rightarrow> provenance result" where
  "DatasetProvenance kind conn prov imp start_at end_at nver fname ffmt fsum cols =
     (let p = \<lparr>provenance_kind = kind, connection_id = map_option strip conn,
               provider_id = map_option strip prov, import_id = map_option strip imp,
               requested_start_time = map_option instant start_at,
               requested_end_time = map_option instant end_at,
               normalization_version = map_option strip nver, original_filename = map_option strip fname,
               original_file_format = ffmt, original_file_checksum = fsum, column_mapping = cols\<rparr>
      in bindR (check_fields
           [(''connection_id'', text_ok 100 conn), (''provider_id'', text_ok 100 prov),
            (''import_id'', text_ok 100 imp), (''requested_start_time'', time_ok start_at),
            (''requested_end_time'', time_ok end_at), (''normalization_version'', text_ok 100 nver),
            (''original_filename'', text_ok 255 fname),
            (''original_file_checksum'', case fsum of None \<Rightarrow> True | Some s \<Rightarrow> has_id_form [] 64 s)] p)
           validate_origin_details)"

definition generated_provenance :: provenance where
  "generated_provenance =
     \<lparr>provenance_kind = GENERATED, connection_id = None, provider_id = None, import_id = None,
      requested_start_time = None, requested_end_time = None, normalization_version = None,
      original_filename = None, original_file_format = None, original_file_checksum = None,
      column_mapping = None\<rparr>"

section \<open>Snapshots\<close>

record snapshot = dataset +
  snapshot_provenance :: provenance
  snapshot_quality :: "quality_report option"
  candle_texts :: "string list"

definition DatasetSnapshot :: "snapshot \<Rightarrow> snapshot result" where
  "DatasetSnapshot d = check_fields
     [(''name'', sized 1 100 (dataset_name d)), (''candle_count'', 0 < candle_count d),
      (''checksum'', length (checksum d) = 64)] d"

text \<open>The candles are compared by their JSON texts, \<open>zip\<close> stops nowhere as the lengths agree.\<close>

definition has_same_content :: "snapshot \<Rightarrow> snapshot \<Rightarrow> bool" where
  "has_same_content a b \<longleftrightarrow>
     checksum a = checksum b \<and> length (candles a) = length (candles b)
     \<and> list_all (\<lambda>(x, y). x = y) (zip (candle_texts a) (candle_texts b))"

record dataset_summary =
  summary_id :: string
  summary_schema_version :: int
  summary_name :: string
  summary_source :: string
  summary_pair :: trading_pair
  summary_timeframe :: timeframe
  summary_start_time :: int
  summary_end_time :: int
  summary_created_at :: int
  summary_candle_count :: int
  summary_checksum :: string

definition DatasetSummary :: "'a dataset_summary_scheme \<Rightarrow> 'a dataset_summary_scheme result" where
  "DatasetSummary s = check_fields
     [(''schema_version'', 1 \<le> summary_schema_version s), (''name'', sized 1 100 (summary_name s)),
      (''candle_count'', 0 < summary_candle_count s), (''checksum'', length (summary_checksum s) = 64)] s"

definition summary_from_dataset :: "snapshot \<Rightarrow> dataset_summary result" where
  "summary_from_dataset d = DatasetSummary
     \<lparr>summary_id = dataset_id d, summary_schema_version = schema_version d, summary_name = dataset_name d,
      summary_source = dataset_source d, summary_pair = dataset_pair d,
      summary_timeframe = dataset_timeframe d, summary_start_time = start_time d,
      summary_end_time = end_time d, summary_created_at = dataset_created_at d,
      summary_candle_count = candle_count d, summary_checksum = checksum d\<rparr>"

record detail_summary = dataset_summary +
  detail_provenance :: provenance
  detail_quality :: "quality_report option"

definition detail_from_dataset :: "snapshot \<Rightarrow> detail_summary result" where
  "detail_from_dataset d = DatasetSummary
     \<lparr>summary_id = dataset_id d, summary_schema_version = schema_version d, summary_name = dataset_name d,
      summary_source = dataset_source d, summary_pair = dataset_pair d,
      summary_timeframe = dataset_timeframe d, summary_start_time = start_time d,
      summary_end_time = end_time d, summary_created_at = dataset_created_at d,
      summary_candle_count = candle_count d, summary_checksum = checksum d,
      detail_provenance = snapshot_provenance d, detail_quality = snapshot_quality d\<rparr>"

text \<open>Both summaries exist for the same snapshots, and agree on the fields they share.\<close>

lemma summaries_agree:
  "summary_from_dataset d = map_sum id dataset_summary.truncate (detail_from_dataset d)"
  by (simp add: summary_from_dataset_def detail_from_dataset_def DatasetSummary_def check_fields_def
      dataset_summary.defs split: option.splits)

lemma summarized:
  "detail_from_dataset d = Inr x \<longleftrightarrow> DatasetSnapshot d = Inr d \<and> 1 \<le> schema_version d \<and>
     x = \<lparr>summary_id = dataset_id d, summary_schema_version = schema_version d, summary_name = dataset_name d,
      summary_source = dataset_source d, summary_pair = dataset_pair d,
      summary_timeframe = dataset_timeframe d, summary_start_time = start_time d,
      summary_end_time = end_time d, summary_created_at = dataset_created_at d,
      summary_candle_count = candle_count d, summary_checksum = checksum d,
      detail_provenance = snapshot_provenance d, detail_quality = snapshot_quality d\<rparr>"
  by (auto simp: detail_from_dataset_def DatasetSummary_def DatasetSnapshot_def check_fields_Inr_iff)

section \<open>The builder\<close>

text \<open>The digest is fed text by text, with a line feed after each.\<close>

definition calculate_dataset_checksum :: "string list \<Rightarrow> string" where
  "calculate_dataset_checksum texts = sha256_hexdigest (concat (map (\<lambda>t. t @ [CHR 0x0A]) texts))"

fun issue_code_value :: "issue_code \<Rightarrow> string" where
  "issue_code_value EMPTY_DATA = ''empty_data''"
| "issue_code_value MIXED_SERIES = ''mixed_series''"
| "issue_code_value DUPLICATE_TIMESTAMP = ''duplicate_timestamp''"
| "issue_code_value OUT_OF_ORDER = ''out_of_order''"
| "issue_code_value MISSING_CANDLE = ''missing_candle''"
| "issue_code_value OPEN_CANDLE = ''open_candle''"
| "issue_code_value INCOMPLETE_START = ''incomplete_start''"
| "issue_code_value INCOMPLETE_END = ''incomplete_end''"
| "issue_code_value OUTSIDE_REQUESTED_RANGE = ''outside_requested_range''"
| "issue_code_value UNALIGNED_CANDLE = ''unaligned_candle''"

definition InvalidDatasetError :: "quality_report \<Rightarrow> exn" where
  "InvalidDatasetError r = ValueError
     (''Dataset failed quality checks: '' @ join '', '' (map (issue_code_value \<circ> code_of) (quality_issues r)))"

text \<open>\<open>clock\<close> is \<open>datetime.now(UTC)\<close>, read when no creation time is given.\<close>

definition build_dataset ::
  "string \<Rightarrow> candle list \<Rightarrow> string list \<Rightarrow> timestamp option \<Rightarrow> int \<Rightarrow> provenance option
   \<Rightarrow> timestamp option \<Rightarrow> timestamp option \<Rightarrow> timeframe option \<Rightarrow> snapshot result" where
  "build_dataset name cs texts created_at clock prov range_start range_end tf =
     (if (case created_at of Some t \<Rightarrow> \<not> aware t | None \<Rightarrow> False)
      then Inl (ValueError ''created time must include timezone information'')
      else bindR (check_quality cs range_start range_end tf) (\<lambda>report.
        if \<not> is_valid report then Inl (InvalidDatasetError report)
        else let content = calculate_dataset_checksum texts
          in DatasetSnapshot
             \<lparr>dataset_id = ''dataset-'' @ take 16 content, schema_version = 3, dataset_name = name,
              dataset_source = candle_source (hd cs), dataset_pair = candle_pair (hd cs),
              dataset_timeframe = candle_timeframe (hd cs), start_time = open_time (hd cs),
              end_time = close_time (last cs),
              dataset_created_at = (case created_at of Some t \<Rightarrow> instant t | None \<Rightarrow> clock),
              candle_count = int (length cs), checksum = content, candles = cs,
              snapshot_provenance = (case prov of Some p \<Rightarrow> p | None \<Rightarrow> generated_provenance),
              snapshot_quality = Some report, candle_texts = texts\<rparr>))"

section \<open>Catalogue queries\<close>

datatype sort_field = BY_CREATED_AT | BY_START_TIME | BY_CANDLE_COUNT

datatype sort_direction = ASCENDING | DESCENDING

record catalog_query =
  query_source :: "string option"
  query_base_asset :: "string option"
  query_quote_asset :: "string option"
  query_timeframe :: "timeframe option"
  created_at_from :: "int option"
  created_at_to :: "int option"
  sort_by :: sort_field
  sort_direction :: sort_direction

definition DatasetCatalogQuery ::
  "string option \<Rightarrow> string option \<Rightarrow> string option \<Rightarrow> timeframe option \<Rightarrow> timestamp option
   \<Rightarrow> timestamp option \<Rightarrow> sort_field \<Rightarrow> sort_direction \<Rightarrow> catalog_query result" where
  "DatasetCatalogQuery src base quoted tf created_from created_to field dir =
     (let q = \<lparr>query_source = map_option strip src, query_base_asset = map_option normalize_asset base,
               query_quote_asset = map_option normalize_asset quoted, query_timeframe = tf,
               created_at_from = map_option instant created_from, created_at_to = map_option instant created_to,
               sort_by = field, sort_direction = dir\<rparr>;
          asset = (\<lambda>a. case a of None \<Rightarrow> True | Some s \<Rightarrow> asset_ok s)
      in bindR (check_fields
           [(''source'', case query_source q of None \<Rightarrow> True | Some s \<Rightarrow> sized 1 50 s),
            (''base_asset'', asset (query_base_asset q)), (''quote_asset'', asset (query_quote_asset q)),
            (''created_at_from'', time_ok created_from), (''created_at_to'', time_ok created_to)] q)
           (raising [(range_reversed (created_at_from q) (created_at_to q),
              ValueError ''created_at_to must be on or after created_at_from'')]))"

definition default_query :: catalog_query where
  "default_query =
     \<lparr>query_source = None, query_base_asset = None, query_quote_asset = None, query_timeframe = None,
      created_at_from = None, created_at_to = None, sort_by = BY_CREATED_AT, sort_direction = ASCENDING\<rparr>"

definition matches :: "catalog_query \<Rightarrow> snapshot \<Rightarrow> bool" where
  "matches q d \<longleftrightarrow>
     wants (query_source q) (dataset_source d) \<and> wants (query_base_asset q) (base_asset (dataset_pair d))
     \<and> wants (query_quote_asset q) (quote_asset (dataset_pair d))
     \<and> wants (query_timeframe q) (dataset_timeframe d)
     \<and> created_between (created_at_from q) (created_at_to q) (dataset_created_at d)"

section \<open>The in-memory repository\<close>

text \<open>The dict from identifiers to snapshots, in insertion order.\<close>

type_synonym dataset_store = "(string \<times> snapshot) list"

definition repo_save :: "dataset_store \<Rightarrow> snapshot \<Rightarrow> (dataset_store \<times> snapshot) result" where
  "repo_save = keep_first dataset_id has_same_content ''dataset ID already exists with different content''"

definition repo_get :: "dataset_store \<Rightarrow> string \<Rightarrow> snapshot option" where
  "repo_get repo ds_id = map_of repo ds_id"

definition repo_count :: "dataset_store \<Rightarrow> int" where
  "repo_count repo = int (length repo)"

definition repo_filter :: "dataset_store \<Rightarrow> catalog_query \<Rightarrow> snapshot list" where
  "repo_filter repo q = filter (matches q) (map snd repo)"

definition catalog_key :: "sort_field \<Rightarrow> snapshot \<Rightarrow> int \<times> string" where
  "catalog_key f d =
     ((case f of BY_CREATED_AT \<Rightarrow> dataset_created_at d | BY_START_TIME \<Rightarrow> start_time d
       | BY_CANDLE_COUNT \<Rightarrow> candle_count d), dataset_id d)"

definition repo_sort :: "snapshot list \<Rightarrow> catalog_query \<Rightarrow> snapshot list" where
  "repo_sort ds q = py_sorted (sort_direction q = DESCENDING) (catalog_key (sort_by q)) ds"

definition repo_count_matching :: "dataset_store \<Rightarrow> catalog_query \<Rightarrow> int" where
  "repo_count_matching repo q = int (length (repo_filter repo q))"

definition repo_search_page :: "dataset_store \<Rightarrow> catalog_query \<Rightarrow> int \<Rightarrow> int \<Rightarrow> snapshot list result" where
  "repo_search_page repo q limit offset = page_slice limit offset (repo_sort (repo_filter repo q) q)"

definition repo_list_page :: "dataset_store \<Rightarrow> int \<Rightarrow> int \<Rightarrow> snapshot list result" where
  "repo_list_page repo limit offset = repo_search_page repo default_query limit offset"

section \<open>What the builder guarantees\<close>

definition accepts ::
  "candle list \<Rightarrow> timestamp option \<Rightarrow> timestamp option \<Rightarrow> timeframe option \<Rightarrow> bool" where
  "accepts cs range_start range_end tf \<longleftrightarrow> valid_range range_start range_end tf
     \<and> (case (range_start, range_end, tf) of
          (Some s, Some e, Some f) \<Rightarrow> covers cs (instant s) (instant e) f | _ \<Rightarrow> clean_series cs)"

lemma accepts_cases:
  assumes "valid_range rs re tf"
  shows "\<exists>r. check_quality cs rs re tf = Inr r \<and> (is_valid r \<longleftrightarrow> accepts cs rs re tf)"
  using assms
proof (cases "(rs, re, tf)" rule: valid_range.cases)
  case 1
  then show ?thesis using check_unranged [of cs] by (auto simp: accepts_def)
next
  case (2 s e f)
  then show ?thesis using check_ranged [of s e cs f] assms by (auto simp: accepts_def)
qed simp_all

lemma accepts_clean: "accepts cs rs re tf \<Longrightarrow> clean_series cs"
  by (auto simp: accepts_def intro: covers_clean split: option.splits)

text \<open>The snapshot of the candles: its identity depends on their texts only.\<close>

definition snapshot_of :: "candle list \<Rightarrow> string list \<Rightarrow> snapshot \<Rightarrow> bool" where
  "snapshot_of cs texts d \<longleftrightarrow>
     candles d = cs \<and> candle_texts d = texts \<and> candle_count d = int (length cs)
     \<and> checksum d = calculate_dataset_checksum texts
     \<and> dataset_id d = ''dataset-'' @ take 16 (calculate_dataset_checksum texts)
     \<and> start_time d = open_time (hd cs) \<and> end_time d = close_time (last cs)
     \<and> (\<forall>c \<in> set cs. candle_source c = dataset_source d \<and> candle_pair c = dataset_pair d
          \<and> candle_timeframe c = dataset_timeframe d)
     \<and> (\<exists>r. snapshot_quality d = Some r \<and> is_valid r)"

lemma length_checksum [simp]: "length (calculate_dataset_checksum texts) = 64"
  by (simp add: calculate_dataset_checksum_def hexdigest_form)

lemma build_dataset_runs:
  assumes "accepts cs rs re tf" "sized 1 100 name" "time_ok created"
  shows "\<exists>d. build_dataset name cs texts created clock prov rs re tf = Inr d \<and> snapshot_of cs texts d
    \<and> dataset_name d = name"
proof -
  have clean: "clean_series cs" using assms(1) by (rule accepts_clean)
  then have ne: "cs \<noteq> []" by (simp add: clean_series_def)
  have "valid_range rs re tf" using assms(1) by (simp add: accepts_def)
  then obtain r where r: "check_quality cs rs re tf = Inr r" "is_valid r"
    using accepts_cases assms(1) by blast
  have "\<not> (case created of Some t \<Rightarrow> \<not> aware t | None \<Rightarrow> False)"
    using assms(3) by (simp add: time_ok_def split: option.splits)
  moreover define d where "d = \<lparr>dataset_id = ''dataset-'' @ take 16 (calculate_dataset_checksum texts),
    schema_version = 3, dataset_name = name, dataset_source = candle_source (hd cs),
    dataset_pair = candle_pair (hd cs), dataset_timeframe = candle_timeframe (hd cs),
    start_time = open_time (hd cs), end_time = close_time (last cs),
    dataset_created_at = (case created of Some t \<Rightarrow> instant t | None \<Rightarrow> clock),
    candle_count = int (length cs), checksum = calculate_dataset_checksum texts, candles = cs,
    snapshot_provenance = (case prov of Some p \<Rightarrow> p | None \<Rightarrow> generated_provenance),
    snapshot_quality = Some r, candle_texts = texts\<rparr>"
  ultimately have "build_dataset name cs texts created clock prov rs re tf = Inr d"
    using r ne assms(2) by (simp add: build_dataset_def Let_def DatasetSnapshot_def check_fields_pass)
  moreover have "\<forall>c \<in> set cs. candle_source c = dataset_source d \<and> candle_pair c = dataset_pair d
      \<and> candle_timeframe c = dataset_timeframe d"
    unfolding d_def dataset.simps snapshot.simps using clean_series_timeframe [OF clean] by blast
  ultimately show ?thesis
    using r(2) unfolding snapshot_of_def by (intro exI [of _ d] conjI; simp?) (simp_all add: d_def)
qed

lemma build_dataset_iff:
  "returns (build_dataset name cs texts created clock prov rs re tf) \<longleftrightarrow>
     time_ok created \<and> accepts cs rs re tf \<and> sized 1 100 name"
proof
  assume ret: "returns (build_dataset name cs texts created clock prov rs re tf)"
  then have "returns (check_quality cs rs re tf)"
    by (auto simp: build_dataset_def returns_iff bindR_Inr_iff split: if_splits)
  then have "valid_range rs re tf" by (simp only: check_returns)
  then obtain r where "check_quality cs rs re tf = Inr r" "is_valid r \<longleftrightarrow> accepts cs rs re tf"
    using accepts_cases by blast
  with ret show "time_ok created \<and> accepts cs rs re tf \<and> sized 1 100 name"
    by (auto simp: build_dataset_def returns_iff bindR_Inr_iff Let_def DatasetSnapshot_def check_fields_Inr_iff
        time_ok_def split: if_splits option.splits)
next
  assume "time_ok created \<and> accepts cs rs re tf \<and> sized 1 100 name"
  then show "returns (build_dataset name cs texts created clock prov rs re tf)"
    using build_dataset_runs [of cs rs re tf name created texts clock prov] by (auto simp: returns_iff)
qed

lemma same_texts_same_content:
  assumes "snapshot_of cs texts d" "snapshot_of cs' texts e" "length cs = length cs'"
  shows "dataset_id d = dataset_id e" "has_same_content d e"
proof -
  show "dataset_id d = dataset_id e" using assms by (simp add: snapshot_of_def)
  have "list_all (\<lambda>(x, y). x = y) (zip texts texts)" by (auto simp: list_all_iff set_zip)
  then show "has_same_content d e" using assms by (simp add: snapshot_of_def has_same_content_def)
qed

interpretation in_memory: first_write_store "keyed dataset_id" dataset_id has_same_content repo_save map_of
  unfolding repo_save_def by (rule keep_first_store)

section \<open>Properties\<close>

text \<open>
  C31: a dataset is built exactly from candles the quality checker accepts (with an aware creation time
  and a name of 1 to 100 characters). The snapshot holds those candles, spans them, records an accepting
  quality report, and gets the same identity, and the same content, as any other snapshot of the same
  candle texts, whatever its name, creation time, provenance and requested range.
\<close>

theorem dataset_build_exact:
  "(returns (build_dataset name cs texts created clock prov rs re tf)
      \<longleftrightarrow> time_ok created \<and> accepts cs rs re tf \<and> sized 1 100 name)
   \<and> (\<forall>d. build_dataset name cs texts created clock prov rs re tf = Inr d \<longrightarrow> snapshot_of cs texts d
        \<and> (\<forall>name' created' clock' prov' rs' re' tf' e.
             build_dataset name' cs texts created' clock' prov' rs' re' tf' = Inr e
             \<longrightarrow> dataset_id e = dataset_id d \<and> has_same_content d e))"
proof -
  have built: "snapshot_of cs texts d" if "build_dataset n cs texts c k p rs re tf = Inr d" for n c k p rs re tf d
    using build_dataset_iff [of n cs texts c k p rs re tf] build_dataset_runs [of cs rs re tf n c texts k p] that
    by auto
  then show ?thesis using build_dataset_iff same_texts_same_content by metis
qed

theorem dataset_build_exact_witness:
  "\<exists>d e. build_dataset ''a'' (candles (sample_dataset [10, 9])) [''x'', ''y''] None 7 None None None None = Inr d
     \<and> build_dataset ''b'' (candles (sample_dataset [10, 9])) [''x'', ''y''] (Some (Aware 9)) 8 None None None None = Inr e
     \<and> dataset_id e = dataset_id d \<and> dataset_name e \<noteq> dataset_name d"
proof -
  let ?cs = "candles (sample_dataset [10, 9])" and ?ts = "[''x'', ''y'']"
  have "clean_series ?cs"
    by (simp add: clean_series_def mixed_series_def sample_candles) (simp add: sample_candle_def)
  then have ok: "accepts ?cs None None None" by (simp add: accepts_def)
  obtain d where d: "build_dataset ''a'' ?cs ?ts None 7 None None None None = Inr d" "dataset_name d = ''a''"
    using build_dataset_runs [OF ok, of "''a''" None ?ts 7 None] by (auto simp: sized_def time_ok_def)
  obtain e where e: "build_dataset ''b'' ?cs ?ts (Some (Aware 9)) 8 None None None None = Inr e" "dataset_name e = ''b''"
    using build_dataset_runs [OF ok, of "''b''" "Some (Aware 9)" ?ts 8 None] by (auto simp: sized_def time_ok_def)
  have "dataset_id e = dataset_id d" using dataset_build_exact d(1) e(1) by metis
  with d e show ?thesis by auto
qed

text \<open>
  C32: the in-memory repository never replaces a snapshot. After any successful sequence of saves, looking
  up the identifier of any saved snapshot returns the first one saved under it, which has the same
  content; the count is the number of distinct identifiers.
\<close>

theorem repository_keeps_first:
  assumes "foldR (\<lambda>r d. bindR (repo_save r d) (\<lambda>p. Inr (fst p))) [] ds = Inr repo"
  shows "(\<forall>i. repo_get repo i = find (\<lambda>d. dataset_id d = i) ds)
    \<and> (\<forall>d \<in> set ds. \<exists>x. repo_get repo (dataset_id d) = Some x \<and> (x = d \<or> has_same_content x d))
    \<and> repo_count repo = int (card (dataset_id ` set ds))"
  unfolding repo_get_def repo_count_def
  using kept_first [OF assms [unfolded repo_save_def]] by (intro conjI) (blast, blast, simp)

theorem repository_keeps_first_witness:
  "\<exists>d e repo. foldR (\<lambda>r d. bindR (repo_save r d) (\<lambda>p. Inr (fst p))) [] [d, e] = Inr repo
     \<and> repo_get repo (dataset_id e) = Some d \<and> e \<noteq> d"
proof -
  define d :: snapshot where "d = dataset.extend (sample_dataset [10, 9])
    \<lparr>snapshot_provenance = generated_provenance, snapshot_quality = None, candle_texts = [''x'', ''y'']\<rparr>"
  define e where "e = d\<lparr>dataset_name := ''other''\<rparr>"
  have "has_same_content d e" "dataset_id e = dataset_id d" by (simp_all add: has_same_content_def e_def d_def dataset.defs)
  then have run: "foldR (\<lambda>r d. bindR (repo_save r d) (\<lambda>p. Inr (fst p))) [] [d, e] = Inr [(dataset_id d, d)]"
    by (simp add: repo_save_def keep_first_def)
  have "repo_get [(dataset_id d, d)] (dataset_id e) = Some d"
    using repository_keeps_first [OF run] \<open>dataset_id e = dataset_id d\<close> by simp
  moreover have "e \<noteq> d" by (simp add: e_def d_def dataset.defs sample_dataset_def)
  ultimately show ?thesis using run by blast
qed

text \<open>
  Paging through the catalogue shows every matching dataset exactly once, in the requested order:
  the pages of any positive size, concatenated until they cover the matching count, are the matching
  datasets sorted by the requested field, ties broken by identifier.
\<close>

theorem catalog_pages_complete:
  assumes "0 < limit" "repo_count_matching repo q \<le> int n * limit"
  shows "\<exists>pages. mapR (\<lambda>k. repo_search_page repo q limit (int k * limit)) [0..<n] = Inr pages
    \<and> mset (concat pages) = mset (filter (matches q) (map snd repo))
    \<and> sorted (map (catalog_key (sort_by q)) (if sort_direction q = DESCENDING then rev (concat pages) else concat pages))"
proof -
  obtain pages where pages: "mapR (\<lambda>k. repo_search_page repo q limit (int k * limit)) [0..<n] = Inr pages"
      "concat pages = repo_sort (repo_filter repo q) q"
    using pages_complete [OF assms(1), of "repo_sort (repo_filter repo q) q" n] assms(2)
    by (auto simp: repo_search_page_def repo_count_matching_def repo_sort_def)
  then show ?thesis
    using py_sorted_ordered [of "catalog_key (sort_by q)" "sort_direction q = DESCENDING" "repo_filter repo q"]
    by (auto simp: repo_sort_def repo_filter_def)
qed

theorem catalog_pages_complete_witness:
  "\<exists>d pages. mapR (\<lambda>k. repo_search_page [(dataset_id d, d)] default_query 2 (int k * 2)) [0..<1] = Inr pages
     \<and> mset (concat pages) = {#d#}"
proof -
  define d :: snapshot where "d = dataset.extend (sample_dataset [10, 9])
    \<lparr>snapshot_provenance = generated_provenance, snapshot_quality = None, candle_texts = [''x'', ''y'']\<rparr>"
  have m: "filter (matches default_query) (map snd [(dataset_id d, d)]) = [d]"
    by (simp add: matches_def default_query_def wants_def created_between_def)
  obtain pages where "mapR (\<lambda>k. repo_search_page [(dataset_id d, d)] default_query 2 (int k * 2)) [0..<1] = Inr pages"
      "mset (concat pages) = mset (filter (matches default_query) (map snd [(dataset_id d, d)]))"
    using catalog_pages_complete [of 2 "[(dataset_id d, d)]" default_query 1] m
    by (auto simp: repo_count_matching_def repo_filter_def)
  with m show ?thesis by (auto intro!: exI [of _ d])
qed

end
