(* ===== verification/Walk_Forward.thy ===== *)
theory Walk_Forward imports Pipeline Datasets
begin

text \<open>
  Walk-forward validation (\<open>trd_bot/research/walk_forward.py\<close>), first half: the planner cuts a dataset
  into chronological train and test folds, and the materializer builds their datasets. The loop of the
  planner is a partial function, whose value \<open>None\<close> means that it never ends.
\<close>

section \<open>Configuration and folds\<close>

datatype wf_mode = ROLLING | EXPANDING

fun wf_mode_value :: "wf_mode \<Rightarrow> string" where
  "wf_mode_value ROLLING = ''rolling''"
| "wf_mode_value EXPANDING = ''expanding''"

record wf_config =
  train_candles :: int
  test_candles :: int
  step_candles :: int
  gap_candles :: int
  wf_mode :: wf_mode

definition WalkForwardConfig :: "int \<Rightarrow> int \<Rightarrow> int \<Rightarrow> int \<Rightarrow> wf_mode \<Rightarrow> wf_config result" where
  "WalkForwardConfig train test step gap mode =
     bindR (check_fields [(''train_candles'', 2 \<le> train), (''test_candles'', 1 \<le> test),
                          (''step_candles'', 1 \<le> step), (''gap_candles'', 0 \<le> gap)]
              \<lparr>train_candles = train, test_candles = test, step_candles = step, gap_candles = gap,
               wf_mode = mode\<rparr>)
       (raising [(step < test, ValueError ''step candles must be at least test candles'')])"

record wf_fold =
  fold_number :: int
  train_start_index :: int
  train_end_index :: int
  test_start_index :: int
  test_end_index :: int
  train_start_time :: int
  train_end_time :: int
  test_start_time :: int
  test_end_time :: int

definition validate_chronology :: "wf_fold \<Rightarrow> wf_fold result" where
  "validate_chronology f = raising
     [(train_start_index f \<ge> train_end_index f, ValueError ''training window must contain at least one candle''),
      (train_end_index f > test_start_index f, ValueError ''training window cannot overlap test window''),
      (test_start_index f \<ge> test_end_index f, ValueError ''test window must contain at least one candle''),
      (train_start_time f \<ge> train_end_time f, ValueError ''training timestamps must be chronological''),
      (train_end_time f > test_start_time f, ValueError ''training time cannot extend into test time''),
      (test_start_time f \<ge> test_end_time f, ValueError ''test timestamps must be chronological'')] f"

definition WalkForwardFold :: "wf_fold \<Rightarrow> wf_fold result" where
  "WalkForwardFold f = bindR (check_fields
     [(''fold_number'', 1 \<le> fold_number f), (''train_start_index'', 0 \<le> train_start_index f),
      (''train_end_index'', 1 \<le> train_end_index f), (''test_start_index'', 1 \<le> test_start_index f),
      (''test_end_index'', 1 \<le> test_end_index f)] f) validate_chronology"

text \<open>
  \<open>json.dumps(config.model_dump(mode="json"), sort_keys=True, separators=(",", ":"))\<close>: integers and the
  name of the mode, so the text is determined.
\<close>

definition config_payload :: "wf_config \<Rightarrow> string" where
  "config_payload cfg =
     ''{\"gap_candles\":'' @ str_int (gap_candles cfg) @ '',\"mode\":\"'' @ wf_mode_value (wf_mode cfg) @
     ''\",\"step_candles\":'' @ str_int (step_candles cfg) @ '',\"test_candles\":'' @ str_int (test_candles cfg) @
     '',\"train_candles\":'' @ str_int (train_candles cfg) @ ''}''"

definition build_walk_forward_plan_id :: "string \<Rightarrow> wf_config \<Rightarrow> string" where
  "build_walk_forward_plan_id ds_id cfg = ''walk-forward-'' @ digest16 (join ''::'' [ds_id, config_payload cfg])"

definition build_walk_forward_split_id :: "string \<Rightarrow> string \<Rightarrow> int \<Rightarrow> string \<Rightarrow> string \<Rightarrow> string" where
  "build_walk_forward_split_id source_id plan n train_id test_id =
     ''walk-forward-split-'' @ digest16 (join ''::'' [source_id, plan, str_int n, train_id, test_id])"

section \<open>Plans\<close>

record wf_plan =
  plan_id :: string
  plan_dataset_id :: string
  plan_candle_count :: int
  plan_config :: wf_config
  folds :: "wf_fold list"

text \<open>The checks of one fold, with its expected number and the test start of the fold before.\<close>

definition fold_checks :: "wf_plan \<Rightarrow> int \<Rightarrow> int option \<Rightarrow> wf_fold \<Rightarrow> (bool \<times> exn) list" where
  "fold_checks p n previous f =
     (let cfg = plan_config p; train_size = train_end_index f - train_start_index f
      in [(fold_number f \<noteq> n, ValueError ''walk-forward fold numbers must be continuous''),
          (test_end_index f > plan_candle_count p, ValueError ''walk-forward fold exceeds dataset size''),
          (test_end_index f - test_start_index f \<noteq> test_candles cfg,
             ValueError ''test window size does not match config''),
          (test_start_index f - train_end_index f \<noteq> gap_candles cfg,
             ValueError ''fold gap does not match config''),
          (wf_mode cfg = ROLLING \<and> train_size \<noteq> train_candles cfg,
             ValueError ''rolling training window size does not match config''),
          (wf_mode cfg = EXPANDING \<and> train_start_index f \<noteq> 0,
             ValueError ''expanding training window must start at index zero''),
          (wf_mode cfg = EXPANDING \<and> train_size < train_candles cfg,
             ValueError ''expanding training window is smaller than config''),
          (case previous of None \<Rightarrow> False | Some t \<Rightarrow> test_start_index f - t \<noteq> step_candles cfg,
             ValueError ''fold step does not match config'')])"

fun check_folds :: "wf_plan \<Rightarrow> int \<Rightarrow> int option \<Rightarrow> wf_fold list \<Rightarrow> unit result" where
  "check_folds p n previous [] = Inr ()"
| "check_folds p n previous (f # fs) =
     bindR (raising (fold_checks p n previous f) ()) (\<lambda>_. check_folds p (n + 1) (Some (test_start_index f)) fs)"

definition WalkForwardPlan :: "wf_plan \<Rightarrow> wf_plan result" where
  "WalkForwardPlan p =
     bindR (check_fields
        [(''plan_id'', has_id_form ''walk-forward-'' 16 (plan_id p)), (''dataset_id'', 1 \<le> length (plan_dataset_id p)),
         (''candle_count'', 0 < plan_candle_count p), (''folds'', 1 \<le> length (folds p))] p) (\<lambda>p.
     bindR (raising [(plan_id p \<noteq> build_walk_forward_plan_id (plan_dataset_id p) (plan_config p),
        ValueError ''walk-forward plan ID is inconsistent'')] ()) (\<lambda>_.
     bindR (check_folds p 1 None (folds p)) (\<lambda>_. Inr p)))"

text \<open>Indexing a Python sequence: negative indices count from the end.\<close>

definition py_nth :: "'a list \<Rightarrow> int \<Rightarrow> 'a result" where
  "py_nth xs i =
     (if 0 \<le> i \<and> i < int (length xs) then Inr (xs ! nat i)
      else if i < 0 \<and> - int (length xs) \<le> i then Inr (xs ! nat (int (length xs) + i)) else Inl OutOfRange)"

definition planned_fold :: "candle list \<Rightarrow> wf_config \<Rightarrow> int \<Rightarrow> int \<Rightarrow> wf_fold result" where
  "planned_fold cs cfg n test_start =
     (let train_end = test_start - gap_candles cfg;
          train_start = (if wf_mode cfg = EXPANDING then 0 else train_end - train_candles cfg);
          test_end = test_start + test_candles cfg
      in bindR (py_nth cs train_start) (\<lambda>train_first. bindR (py_nth cs (train_end - 1)) (\<lambda>train_last.
         bindR (py_nth cs test_start) (\<lambda>test_first. bindR (py_nth cs (test_end - 1)) (\<lambda>test_last.
           WalkForwardFold
             \<lparr>fold_number = n, train_start_index = train_start, train_end_index = train_end,
              test_start_index = test_start, test_end_index = test_end,
              train_start_time = open_time train_first, train_end_time = close_time train_last,
              test_start_time = open_time test_first, test_end_time = close_time test_last\<rparr>)))))"

text \<open>The loop of the planner; \<open>None\<close> is a loop that never ends.\<close>

partial_function (option) plan_loop ::
  "('a dataset_scheme) \<Rightarrow> wf_config \<Rightarrow> int \<Rightarrow> wf_fold list \<Rightarrow> wf_fold list result option" where
  "plan_loop ds cfg test_start fs =
     (if test_start + test_candles cfg \<le> candle_count ds
      then (case planned_fold (candles ds) cfg (int (length fs) + 1) test_start of
              Inl e \<Rightarrow> Some (Inl e)
            | Inr f \<Rightarrow> plan_loop ds cfg (test_start + step_candles cfg) (fs @ [f]))
      else Some (Inr fs))"

definition finish_plan :: "('a dataset_scheme) \<Rightarrow> wf_config \<Rightarrow> wf_fold list \<Rightarrow> wf_plan result" where
  "finish_plan ds cfg fs =
     (if fs = [] then Inl (ValueError (''dataset requires at least '' @
           str_int (train_candles cfg + gap_candles cfg + test_candles cfg) @ '' candles for one fold''))
      else WalkForwardPlan
        \<lparr>plan_id = build_walk_forward_plan_id (dataset_id ds) cfg, plan_dataset_id = dataset_id ds,
         plan_candle_count = candle_count ds, plan_config = cfg, folds = fs\<rparr>)"

definition plan_walk_forward :: "('a dataset_scheme) \<Rightarrow> wf_config \<Rightarrow> wf_plan result option" where
  "plan_walk_forward ds cfg =
     map_option (\<lambda>r. bindR r (finish_plan ds cfg)) (plan_loop ds cfg (train_candles cfg + gap_candles cfg) [])"

section \<open>Materialized folds\<close>

record wf_split =
  split_id :: string
  source_dataset_id :: string
  split_plan_id :: string
  split_fold :: wf_fold
  train_dataset :: snapshot
  test_dataset :: snapshot

definition validate_split :: "wf_split \<Rightarrow> wf_split result" where
  "validate_split s =
     (let f = split_fold s; train = train_dataset s; test = test_dataset s
      in raising
        [(split_id s \<noteq> build_walk_forward_split_id (source_dataset_id s) (split_plan_id s) (fold_number f)
            (dataset_id train) (dataset_id test), ValueError ''walk-forward split ID is inconsistent''),
         (candle_count train \<noteq> train_end_index f - train_start_index f,
            ValueError ''training dataset size does not match fold''),
         (candle_count test \<noteq> test_end_index f - test_start_index f,
            ValueError ''test dataset size does not match fold''),
         (start_time train \<noteq> train_start_time f, ValueError ''training dataset start time does not match fold''),
         (end_time train \<noteq> train_end_time f, ValueError ''training dataset end time does not match fold''),
         (start_time test \<noteq> test_start_time f, ValueError ''test dataset start time does not match fold''),
         (end_time test \<noteq> test_end_time f, ValueError ''test dataset end time does not match fold''),
         (end_time train > start_time test, ValueError ''training dataset cannot overlap test dataset''),
         (dataset_source train \<noteq> dataset_source test,
            ValueError ''training and test datasets must use the same source''),
         (dataset_pair train \<noteq> dataset_pair test,
            ValueError ''training and test datasets must use the same pair''),
         (dataset_timeframe train \<noteq> dataset_timeframe test,
            ValueError ''training and test datasets must use the same timeframe'')] s)"

definition WalkForwardDatasetSplit :: "wf_split \<Rightarrow> wf_split result" where
  "WalkForwardDatasetSplit s = bindR (check_fields
     [(''split_id'', has_id_form ''walk-forward-split-'' 16 (split_id s)),
      (''source_dataset_id'', 1 \<le> length (source_dataset_id s)),
      (''plan_id'', has_id_form ''walk-forward-'' 16 (split_plan_id s))] s) validate_split"

record wf_materialization =
  materialized_source_id :: string
  materialized_plan :: wf_plan
  splits :: "wf_split list"

definition check_split :: "wf_materialization \<Rightarrow> wf_fold \<times> wf_split \<Rightarrow> unit result" where
  "check_split m = (\<lambda>(f, s). raising
     [(source_dataset_id s \<noteq> materialized_source_id m,
         ValueError ''split source dataset does not match materialization''),
      (split_plan_id s \<noteq> plan_id (materialized_plan m),
         ValueError ''split plan ID does not match materialization''),
      (split_fold s \<noteq> f, ValueError ''materialized split does not match plan fold'')] ())"

definition WalkForwardMaterialization :: "wf_materialization \<Rightarrow> wf_materialization result" where
  "WalkForwardMaterialization m =
     bindR (check_fields [(''source_dataset_id'', 1 \<le> length (materialized_source_id m)),
                          (''splits'', 1 \<le> length (splits m))] m) (\<lambda>m.
     bindR (raising
        [(materialized_source_id m \<noteq> plan_dataset_id (materialized_plan m),
            ValueError ''source dataset does not match walk-forward plan''),
         (length (splits m) \<noteq> length (folds (materialized_plan m)),
            ValueError ''materialized split count does not match plan'')] ()) (\<lambda>_.
     bindR (foldR (\<lambda>_. check_split m) () (zip (folds (materialized_plan m)) (splits m))) (\<lambda>_. Inr m)))"

text \<open>\<open>xs[a:b]\<close> for bounds that are not negative\<close>

definition py_slice :: "int \<Rightarrow> int \<Rightarrow> 'a list \<Rightarrow> 'a list" where
  "py_slice a b xs = take (nat (b - a)) (drop (nat a) xs)"

text \<open>
  \<open>self._dataset_builder.build(name=..., candles=dataset.candles[a:b], created_at=dataset.created_at)\<close>;
  as a creation time is given, the clock is not read.
\<close>

definition build_slice :: "snapshot \<Rightarrow> string \<Rightarrow> int \<Rightarrow> int \<Rightarrow> snapshot result" where
  "build_slice ds name a b =
     build_dataset name (py_slice a b (candles ds)) (py_slice a b (candle_texts ds))
       (Some (Aware (dataset_created_at ds))) 0 None None None None"

definition materialize_fold :: "snapshot \<Rightarrow> wf_plan \<Rightarrow> wf_fold \<Rightarrow> wf_split result" where
  "materialize_fold ds p f =
     (let prefix = ''walk-forward fold '' @ str_int (fold_number f)
      in bindR (build_slice ds (prefix @ '' train'') (train_start_index f) (train_end_index f)) (\<lambda>train.
         bindR (build_slice ds (prefix @ '' test'') (test_start_index f) (test_end_index f)) (\<lambda>test.
           WalkForwardDatasetSplit
             \<lparr>split_id = build_walk_forward_split_id (dataset_id ds) (plan_id p) (fold_number f)
                (dataset_id train) (dataset_id test),
              source_dataset_id = dataset_id ds, split_plan_id = plan_id p, split_fold = f,
              train_dataset = train, test_dataset = test\<rparr>)))"

definition materialize :: "snapshot \<Rightarrow> wf_plan \<Rightarrow> wf_materialization result" where
  "materialize ds p =
     bindR (raising
        [(plan_dataset_id p \<noteq> dataset_id ds, ValueError ''walk-forward plan does not belong to dataset''),
         (plan_candle_count p \<noteq> candle_count ds,
            ValueError ''walk-forward plan candle count does not match dataset'')] ()) (\<lambda>_.
     bindR (mapR (materialize_fold ds p) (folds p)) (\<lambda>ss.
       WalkForwardMaterialization
         \<lparr>materialized_source_id = dataset_id ds, materialized_plan = p, splits = ss\<rparr>))"

section \<open>The folds of a plan\<close>

definition valid_wf_config :: "wf_config \<Rightarrow> bool" where
  "valid_wf_config cfg \<longleftrightarrow> 2 \<le> train_candles cfg \<and> 1 \<le> test_candles cfg \<and> test_candles cfg \<le> step_candles cfg
     \<and> 0 \<le> gap_candles cfg"

lemma WalkForwardConfig_valid: "WalkForwardConfig tr te st g m = Inr cfg \<Longrightarrow> valid_wf_config cfg"
  by (auto simp: WalkForwardConfig_def bindR_Inr_iff check_fields_Inr_iff raising_Inr_iff valid_wf_config_def)

text \<open>A dataset as the builder makes it from a series of candles.\<close>

definition wf_source :: "'a dataset_scheme \<Rightarrow> bool" where
  "wf_source ds \<longleftrightarrow> candle_series (candles ds) \<and> candle_count ds = int (length (candles ds))
     \<and> 1 \<le> length (dataset_id ds)"

definition required_candles :: "wf_config \<Rightarrow> int" where
  "required_candles cfg = train_candles cfg + gap_candles cfg + test_candles cfg"

definition fold_total :: "wf_config \<Rightarrow> int \<Rightarrow> nat" where
  "fold_total cfg sz =
     (if sz < required_candles cfg then 0
      else nat ((sz - required_candles cfg) div step_candles cfg) + 1)"

definition fold_start :: "wf_config \<Rightarrow> nat \<Rightarrow> int" where
  "fold_start cfg k = train_candles cfg + gap_candles cfg + int k * step_candles cfg"

text \<open>The fold with number \<open>k + 1\<close>, in closed form.\<close>

definition expected_fold :: "candle list \<Rightarrow> wf_config \<Rightarrow> nat \<Rightarrow> wf_fold" where
  "expected_fold cs cfg k =
     (let test_start = fold_start cfg k; test_end = test_start + test_candles cfg;
          train_end = train_candles cfg + int k * step_candles cfg;
          train_start = (if wf_mode cfg = EXPANDING then 0 else int k * step_candles cfg)
      in \<lparr>fold_number = int k + 1, train_start_index = train_start, train_end_index = train_end,
          test_start_index = test_start, test_end_index = test_end,
          train_start_time = open_time (cs ! nat train_start),
          train_end_time = close_time (cs ! nat (train_end - 1)),
          test_start_time = open_time (cs ! nat test_start),
          test_end_time = close_time (cs ! nat (test_end - 1))\<rparr>)"

lemma fold_total_iff:
  assumes "valid_wf_config cfg"
  shows "k < fold_total cfg sz \<longleftrightarrow> fold_start cfg k + test_candles cfg \<le> sz"
proof (cases "sz < required_candles cfg")
  case True
  have "0 \<le> int k * step_candles cfg" using assms by (simp add: valid_wf_config_def)
  with True show ?thesis by (simp add: fold_total_def fold_start_def required_candles_def)
next
  case False
  have "int k \<le> (sz - required_candles cfg) div step_candles cfg
      \<longleftrightarrow> int k * step_candles cfg \<le> sz - required_candles cfg"
    using assms by (intro le_div_iff) (simp add: valid_wf_config_def)
  moreover have "0 \<le> (sz - required_candles cfg) div step_candles cfg"
    using False assms by (simp add: pos_imp_zdiv_nonneg_iff valid_wf_config_def)
  then have "k < fold_total cfg sz \<longleftrightarrow> int k \<le> (sz - required_candles cfg) div step_candles cfg"
    using False by (auto simp: fold_total_def)
  ultimately show ?thesis by (auto simp: fold_start_def required_candles_def)
qed

lemma py_nth_inside: "0 \<le> i \<Longrightarrow> i < int (length xs) \<Longrightarrow> py_nth xs i = Inr (xs ! nat i)"
  by (simp add: py_nth_def)

lemma candle_series_apart:
  assumes "candle_series cs" "i < j" "j < length cs" shows "close_time (cs ! i) \<le> open_time (cs ! j)"
  using sorted_wrt_nth_less [of "\<lambda>a b. close_time a \<le> open_time b" cs i j] assms by (simp add: candle_series_def)

lemma candle_series_span:
  assumes "candle_series cs" "i \<le> j" "j < length cs" shows "open_time (cs ! i) < close_time (cs ! j)"
proof -
  have open_close: "open_time (cs ! k) < close_time (cs ! k)" if "k < length cs" for k
    using candle_series_valid [OF assms(1)] that by (simp add: valid_candle_iff)
  show ?thesis
  proof (cases "i = j")
    case True
    then show ?thesis using open_close assms(3) by simp
  next
    case False
    then show ?thesis
      using candle_series_apart [OF assms(1), of i j] open_close [of i] open_close [of j] assms by force
  qed
qed

lemma expected_fold_sizes:
  assumes "valid_wf_config cfg"
  shows "fold_number (expected_fold cs cfg k) = int k + 1"
    "test_start_index (expected_fold cs cfg k) = fold_start cfg k"
    "test_end_index (expected_fold cs cfg k) = fold_start cfg k + test_candles cfg"
    "train_end_index (expected_fold cs cfg k) = fold_start cfg k - gap_candles cfg"
    "0 \<le> train_start_index (expected_fold cs cfg k)"
    "train_start_index (expected_fold cs cfg k) + train_candles cfg \<le> train_end_index (expected_fold cs cfg k)"
    "wf_mode cfg = EXPANDING \<Longrightarrow> train_start_index (expected_fold cs cfg k) = 0"
    "wf_mode cfg = ROLLING \<Longrightarrow>
       train_start_index (expected_fold cs cfg k) = train_end_index (expected_fold cs cfg k) - train_candles cfg"
  using assms by (simp_all add: expected_fold_def Let_def fold_start_def valid_wf_config_def)

lemma expected_fold_times:
  fixes cs cfg k
  defines "F \<equiv> expected_fold cs cfg k"
  shows "train_start_time F = open_time (cs ! nat (train_start_index F))"
    "train_end_time F = close_time (cs ! nat (train_end_index F - 1))"
    "test_start_time F = open_time (cs ! nat (test_start_index F))"
    "test_end_time F = close_time (cs ! nat (test_end_index F - 1))"
  by (simp_all add: F_def expected_fold_def Let_def)

lemma expected_fold_valid:
  assumes cfg: "valid_wf_config cfg" and cs: "candle_series cs"
    and k: "fold_start cfg k + test_candles cfg \<le> int (length cs)"
  shows "WalkForwardFold (expected_fold cs cfg k) = Inr (expected_fold cs cfg k)"
proof -
  let ?f = "expected_fold cs cfg k"
  note sz = expected_fold_sizes [OF cfg, of cs k]
  have c: "2 \<le> train_candles cfg" "1 \<le> test_candles cfg" "0 \<le> gap_candles cfg"
    using cfg by (simp_all add: valid_wf_config_def)
  have "train_start_time ?f < train_end_time ?f"
    unfolding expected_fold_times by (rule candle_series_span [OF cs]) (use sz k c in linarith)+
  moreover have "train_end_time ?f \<le> test_start_time ?f"
    unfolding expected_fold_times by (rule candle_series_apart [OF cs]) (use sz k c in linarith)+
  moreover have "test_start_time ?f < test_end_time ?f"
    unfolding expected_fold_times by (rule candle_series_span [OF cs]) (use sz k c in linarith)+
  moreover have "1 \<le> fold_number ?f" "1 \<le> train_end_index ?f" "1 \<le> test_start_index ?f" "1 \<le> test_end_index ?f"
    "train_start_index ?f < train_end_index ?f" "train_end_index ?f \<le> test_start_index ?f"
    "test_start_index ?f < test_end_index ?f"
    using sz c by linarith+
  ultimately show ?thesis
    using sz(5) by (simp add: WalkForwardFold_def check_fields_pass validate_chronology_def raising_Inr_iff)
qed

lemma planned_fold_runs:
  assumes cfg: "valid_wf_config cfg" and cs: "candle_series cs"
    and k: "fold_start cfg k + test_candles cfg \<le> int (length cs)"
  shows "planned_fold cs cfg (int k + 1) (fold_start cfg k) = Inr (expected_fold cs cfg k)"
proof -
  let ?f = "expected_fold cs cfg k"
  note sz = expected_fold_sizes [OF cfg, of cs k]
  have c: "2 \<le> train_candles cfg" "1 \<le> test_candles cfg" "0 \<le> gap_candles cfg"
    using cfg by (simp_all add: valid_wf_config_def)
  have train_start: "(if wf_mode cfg = EXPANDING then 0 else fold_start cfg k - gap_candles cfg - train_candles cfg)
      = train_start_index ?f"
    using sz by (cases "wf_mode cfg") simp_all
  have "py_nth cs (train_start_index ?f) = Inr (cs ! nat (train_start_index ?f))"
    "py_nth cs (fold_start cfg k - gap_candles cfg - 1) = Inr (cs ! nat (fold_start cfg k - gap_candles cfg - 1))"
    "py_nth cs (fold_start cfg k) = Inr (cs ! nat (fold_start cfg k))"
    "py_nth cs (fold_start cfg k + test_candles cfg - 1) = Inr (cs ! nat (fold_start cfg k + test_candles cfg - 1))"
    by (rule py_nth_inside; use sz k c in linarith)+
  moreover have "\<lparr>fold_number = int k + 1, train_start_index = train_start_index ?f,
      train_end_index = fold_start cfg k - gap_candles cfg, test_start_index = fold_start cfg k,
      test_end_index = fold_start cfg k + test_candles cfg,
      train_start_time = open_time (cs ! nat (train_start_index ?f)),
      train_end_time = close_time (cs ! nat (fold_start cfg k - gap_candles cfg - 1)),
      test_start_time = open_time (cs ! nat (fold_start cfg k)),
      test_end_time = close_time (cs ! nat (fold_start cfg k + test_candles cfg - 1))\<rparr> = ?f"
    using sz expected_fold_times [of cs cfg k] by simp
  ultimately show ?thesis
    using expected_fold_valid [OF assms] by (simp add: planned_fold_def Let_def train_start)
qed

lemma plan_loop_runs:
  assumes cfg: "valid_wf_config cfg" and ds: "wf_source ds"
  defines "n \<equiv> fold_total cfg (candle_count ds)"
  shows "k \<le> n \<Longrightarrow> plan_loop ds cfg (fold_start cfg k) (map (expected_fold (candles ds) cfg) [0..<k])
    = Some (Inr (map (expected_fold (candles ds) cfg) [0..<n]))"
proof (induction rule: inc_induct)
  case base
  have "\<not> fold_start cfg n + test_candles cfg \<le> candle_count ds"
    using fold_total_iff [OF cfg, of n "candle_count ds"] by (simp add: n_def)
  then show ?case by (simp add: plan_loop.simps)
next
  case (step k)
  then have fits: "fold_start cfg k + test_candles cfg \<le> candle_count ds"
    using fold_total_iff [OF cfg, of k "candle_count ds"] by (simp add: n_def)
  then have "planned_fold (candles ds) cfg (int k + 1) (fold_start cfg k) = Inr (expected_fold (candles ds) cfg k)"
    using ds by (intro planned_fold_runs [OF cfg]) (simp_all add: wf_source_def)
  moreover have "fold_start cfg k + step_candles cfg = fold_start cfg (Suc k)"
    by (simp add: fold_start_def algebra_simps)
  ultimately show ?case
    using step.IH fits by (subst plan_loop.simps) simp
qed

lemma check_expected_folds:
  assumes cfg: "valid_wf_config (plan_config p)"
    and cs: "\<forall>k \<in> {j..<m}. fold_start (plan_config p) k + test_candles (plan_config p) \<le> plan_candle_count p"
    and prev: "\<forall>t. previous = Some t \<longrightarrow> fold_start (plan_config p) j - t = step_candles (plan_config p)"
  shows "check_folds p (int j + 1) previous (map (expected_fold cs (plan_config p)) [j..<m]) = Inr ()"
  using cs prev
proof (induction "m - j" arbitrary: j previous)
  case (Suc x)
  then have j: "j < m" "m - Suc j = x" by linarith+
  let ?f = "expected_fold cs (plan_config p) j"
  note sz = expected_fold_sizes [OF cfg, of cs j]
  have "fold_start (plan_config p) j + test_candles (plan_config p) \<le> plan_candle_count p"
    using Suc.prems(1) j(1) by simp
  then have "raising (fold_checks p (int j + 1) previous ?f) () = Inr ()"
    using Suc.prems(2) sz by (cases "wf_mode (plan_config p)")
      (auto simp: fold_checks_def Let_def raising_Inr_iff split: option.splits)
  moreover have "check_folds p (int (Suc j) + 1) (Some (fold_start (plan_config p) j))
      (map (expected_fold cs (plan_config p)) [Suc j..<m]) = Inr ()"
    using Suc.prems(1) j by (intro Suc.hyps(1)) (auto simp: fold_start_def algebra_simps)
  ultimately show ?case using j by (simp add: upt_conv_Cons sz(2) add.commute del: upt_Suc)
qed simp

lemma plan_runs:
  assumes cfg: "valid_wf_config cfg" and ds: "wf_source ds"
  shows "if required_candles cfg \<le> candle_count ds
    then \<exists>p. plan_walk_forward ds cfg = Some (Inr p) \<and> WalkForwardPlan p = Inr p
         \<and> plan_dataset_id p = dataset_id ds \<and> plan_candle_count p = candle_count ds \<and> plan_config p = cfg
         \<and> folds p = map (expected_fold (candles ds) cfg) [0..<fold_total cfg (candle_count ds)]
    else \<exists>e. plan_walk_forward ds cfg = Some (Inl e)"
proof -
  let ?n = "fold_total cfg (candle_count ds)" and ?F = "expected_fold (candles ds) cfg"
  have loop: "plan_loop ds cfg (train_candles cfg + gap_candles cfg) [] = Some (Inr (map ?F [0..<?n]))"
    using plan_loop_runs [OF cfg ds, of 0] by (simp add: fold_start_def)
  show ?thesis
  proof (cases "required_candles cfg \<le> candle_count ds")
    case False
    then have "?n = 0" by (simp add: fold_total_def)
    with False loop show ?thesis by (simp add: plan_walk_forward_def finish_plan_def)
  next
    case True
    define p where "p = \<lparr>plan_id = build_walk_forward_plan_id (dataset_id ds) cfg, plan_dataset_id = dataset_id ds,
      plan_candle_count = candle_count ds, plan_config = cfg, folds = map ?F [0..<?n]\<rparr>"
    have "0 < ?n" using True by (simp add: fold_total_def)
    have "check_folds p 1 None (map ?F [0..<?n]) = Inr ()"
      using check_expected_folds [of p 0 ?n None "candles ds"] cfg fold_total_iff [OF cfg] by (simp add: p_def)
    moreover have "has_id_form ''walk-forward-'' 16 (plan_id p)"
      unfolding p_def wf_plan.simps build_walk_forward_plan_id_def has_id_form_append by simp
    moreover have "0 < candle_count ds" using ds by (simp add: wf_source_def candle_series_def)
    ultimately have "WalkForwardPlan p = Inr p"
      using ds \<open>0 < ?n\<close>
      by (simp add: WalkForwardPlan_def check_fields_pass raising.simps p_def wf_source_def Suc_le_eq)
    moreover have "plan_walk_forward ds cfg = Some (WalkForwardPlan p)"
      using loop \<open>0 < ?n\<close> by (simp add: plan_walk_forward_def finish_plan_def p_def)
    ultimately show ?thesis using True by (auto simp: p_def)
  qed
qed

section \<open>The datasets of a fold\<close>

lemma length_str_int:
  assumes "0 \<le> n" "n < 10 ^ k" "1 \<le> k" shows "length (str_int n) \<le> k"
proof -
  have "length (nat_digits m) \<le> j" if "0 \<le> m" "m < 10 ^ j" "1 \<le> j" for m j
    using that
  proof (induction j arbitrary: m)
    case (Suc j)
    show ?case
    proof (cases "m < 10")
      case False
      then have "1 \<le> j" using Suc.prems(2) by (cases j) simp_all
      moreover have "m div 10 < 10 ^ j" using Suc.prems by (simp add: div_less_iff_less_mult)
      ultimately show ?thesis using Suc.IH [of "m div 10"] Suc.prems False by (simp add: nat_digits.simps [of m])
    qed (simp add: nat_digits.simps)
  qed simp
  then show ?thesis using assms by (simp add: str_int_def)
qed

lemma slice_facts:
  assumes "0 \<le> a" "a < b" "b \<le> int (length xs)"
  shows "length (py_slice a b xs) = nat (b - a)" "py_slice a b xs \<noteq> []" "hd (py_slice a b xs) = xs ! nat a"
    "last (py_slice a b xs) = xs ! nat (b - 1)" "set (py_slice a b xs) \<subseteq> set xs"
proof -
  show len: "length (py_slice a b xs) = nat (b - a)" using assms by (simp add: py_slice_def)
  then show ne: "py_slice a b xs \<noteq> []" using assms by (metis length_0_conv nat_0_iff not_le diff_le_0_iff_le)
  show "hd (py_slice a b xs) = xs ! nat a"
    unfolding hd_conv_nth [OF ne] using assms by (simp add: py_slice_def)
  have "nat a + (nat (b - a) - 1) = nat (b - 1)" using assms by linarith
  then show "last (py_slice a b xs) = xs ! nat (b - 1)"
    unfolding last_conv_nth [OF ne] len using assms by (simp add: py_slice_def)
  show "set (py_slice a b xs) \<subseteq> set xs" by (auto simp: py_slice_def dest: in_set_takeD in_set_dropD)
qed

lemma adjacent_drop: "adjacent (drop n xs) = drop n (adjacent xs)"
  by (simp add: adjacent_def drop_zip tl_drop drop_Suc [symmetric] flip: drop_Suc)

lemma adjacent_slice: "set (adjacent (py_slice a b xs)) \<subseteq> set (adjacent xs)"
  by (auto simp: py_slice_def adjacent_take adjacent_drop dest!: in_set_takeD in_set_dropD)

lemma sorted_wrt_slice: "sorted_wrt P xs \<Longrightarrow> sorted_wrt P (py_slice a b xs)"
  by (simp add: py_slice_def sorted_wrt_take sorted_wrt_drop)

lemma clean_slice:
  assumes "clean_series cs" "0 \<le> a" "a < b" "b \<le> int (length cs)" shows "clean_series (py_slice a b cs)"
proof -
  note sl = slice_facts [OF assms(2-4)]
  have hd: "hd (py_slice a b cs) \<in> set cs" using sl(2,5) hd_in_set by blast
  have "\<not> mixed_series (py_slice a b cs)"
    using clean_series_timeframe [OF assms(1)] hd sl(5)
    by (auto simp: mixed_series_def list_ex_iff dest!: list.set_sel(2) [OF sl(2)])
  then show ?thesis
    using assms(1) sl(2,5) adjacent_slice [of a b cs] clean_series_timeframe [OF assms(1) hd]
    by (auto simp: clean_series_def list_all_iff sorted_wrt_slice)
qed

lemma candle_series_slice:
  assumes "candle_series cs" "0 \<le> a" "a < b" "b \<le> int (length cs)" shows "candle_series (py_slice a b cs)"
  using assms slice_facts [OF assms(2-4)] by (auto simp: candle_series_def list_all_iff sorted_wrt_slice)

text \<open>What the materializer and the executor need of their dataset: it passed the quality check.\<close>

definition wf_dataset :: "snapshot \<Rightarrow> bool" where
  "wf_dataset ds \<longleftrightarrow> wf_source ds \<and> clean_series (candles ds) \<and> candle_count ds < 10 ^ 30"

lemma build_slice_runs:
  assumes "wf_dataset ds" "0 \<le> a" "a < b" "b \<le> candle_count ds" "sized 1 100 name"
  shows "\<exists>d. build_slice ds name a b = Inr d \<and> snapshot_of (py_slice a b (candles ds)) (py_slice a b (candle_texts ds)) d"
proof -
  have "accepts (py_slice a b (candles ds)) None None None"
    using assms by (simp add: accepts_def clean_slice wf_dataset_def wf_source_def)
  then show ?thesis
    using build_dataset_runs [of "py_slice a b (candles ds)" None None None name "Some (Aware (dataset_created_at ds))"
        "py_slice a b (candle_texts ds)" 0 None] assms(5)
    by (auto simp: build_slice_def time_ok_def)
qed

lemma sized_name:
  assumes "0 \<le> n" "n < 10 ^ 30" "length s \<le> 40"
  shows "sized 1 100 (''walk-forward fold '' @ str_int n @ s)"
  using length_str_int [OF assms(1,2)] assms(3) by (simp add: sized_def)

text \<open>The datasets of a split are the candles of its fold, test after train.\<close>

definition split_of :: "snapshot \<Rightarrow> wf_plan \<Rightarrow> wf_fold \<Rightarrow> wf_split \<Rightarrow> bool" where
  "split_of ds p f s \<longleftrightarrow> WalkForwardDatasetSplit s = Inr s \<and> split_fold s = f
     \<and> source_dataset_id s = dataset_id ds \<and> split_plan_id s = plan_id p
     \<and> snapshot_of (py_slice (train_start_index f) (train_end_index f) (candles ds))
         (py_slice (train_start_index f) (train_end_index f) (candle_texts ds)) (train_dataset s)
     \<and> snapshot_of (py_slice (test_start_index f) (test_end_index f) (candles ds))
         (py_slice (test_start_index f) (test_end_index f) (candle_texts ds)) (test_dataset s)"

lemma materialize_fold_runs:
  assumes ds: "wf_dataset ds" and cfg: "valid_wf_config cfg" and plan: "WalkForwardPlan p = Inr p"
    and k: "k < fold_total cfg (candle_count ds)"
  defines "f \<equiv> expected_fold (candles ds) cfg k"
  shows "\<exists>s. materialize_fold ds p f = Inr s \<and> split_of ds p f s"
proof -
  have cs: "candle_series (candles ds)" "clean_series (candles ds)" "candle_count ds = int (length (candles ds))"
    "candle_count ds < 10 ^ 30" "1 \<le> length (dataset_id ds)"
    using ds by (simp_all add: wf_dataset_def wf_source_def)
  have fits: "fold_start cfg k + test_candles cfg \<le> candle_count ds" using k fold_total_iff [OF cfg] by simp
  note sz = expected_fold_sizes [OF cfg, of "candles ds" k, folded f_def]
  note tm = expected_fold_times [of "candles ds" cfg k, folded f_def]
  have c: "2 \<le> train_candles cfg" "1 \<le> test_candles cfg" "0 \<le> gap_candles cfg" "1 \<le> step_candles cfg"
    using cfg by (simp_all add: valid_wf_config_def)
  have "int k * 1 \<le> int k * step_candles cfg" using c(4) by (intro mult_left_mono) simp_all
  then have "int k + 1 \<le> fold_start cfg k" using c by (simp add: fold_start_def)
  then have num: "0 \<le> fold_number f" "fold_number f < 10 ^ 30" using sz(1) fits cs(4) c by linarith+
  have train: "0 \<le> train_start_index f" "train_start_index f < train_end_index f" "train_end_index f \<le> candle_count ds"
    and test: "0 \<le> test_start_index f" "test_start_index f < test_end_index f" "test_end_index f \<le> candle_count ds"
    and order: "train_end_index f \<le> test_start_index f"
    using sz fits c by linarith+
  let ?name = "\<lambda>s. (''walk-forward fold '' @ str_int (fold_number f)) @ s"
  have names: "sized 1 100 (?name '' train'')" "sized 1 100 (?name '' test'')"
    using sized_name [OF num] by simp_all
  obtain tr where tr: "build_slice ds (?name '' train'') (train_start_index f) (train_end_index f) = Inr tr"
    "snapshot_of (py_slice (train_start_index f) (train_end_index f) (candles ds))
         (py_slice (train_start_index f) (train_end_index f) (candle_texts ds)) tr"
    using build_slice_runs [OF ds train names(1)] by blast
  obtain te where te: "build_slice ds (?name '' test'') (test_start_index f) (test_end_index f) = Inr te"
    "snapshot_of (py_slice (test_start_index f) (test_end_index f) (candles ds))
         (py_slice (test_start_index f) (test_end_index f) (candle_texts ds)) te"
    using build_slice_runs [OF ds test names(2)] by blast
  note str = slice_facts [OF train [unfolded cs(3)]] and ste = slice_facts [OF test [unfolded cs(3)]]
  define s where "s = \<lparr>split_id = build_walk_forward_split_id (dataset_id ds) (plan_id p) (fold_number f)
      (dataset_id tr) (dataset_id te), source_dataset_id = dataset_id ds, split_plan_id = plan_id p,
    split_fold = f, train_dataset = tr, test_dataset = te\<rparr>"
  have same: "dataset_source tr = dataset_source te" "dataset_pair tr = dataset_pair te"
    "dataset_timeframe tr = dataset_timeframe te"
  proof -
    let ?a = "hd (py_slice (train_start_index f) (train_end_index f) (candles ds))"
      and ?b = "hd (py_slice (test_start_index f) (test_end_index f) (candles ds))"
    have a: "?a \<in> set (py_slice (train_start_index f) (train_end_index f) (candles ds))"
      and b: "?b \<in> set (py_slice (test_start_index f) (test_end_index f) (candles ds))"
      using hd_in_set [OF str(2)] hd_in_set [OF ste(2)] .
    have "candle_source ?a = dataset_source tr \<and> candle_pair ?a = dataset_pair tr \<and> candle_timeframe ?a = dataset_timeframe tr"
      using tr(2) a unfolding snapshot_of_def by blast
    moreover have "candle_source ?b = dataset_source te \<and> candle_pair ?b = dataset_pair te \<and> candle_timeframe ?b = dataset_timeframe te"
      using te(2) b unfolding snapshot_of_def by blast
    ultimately show "dataset_source tr = dataset_source te" "dataset_pair tr = dataset_pair te"
      "dataset_timeframe tr = dataset_timeframe te"
      using clean_series_timeframe [OF cs(2)] a b str(5) ste(5) by (metis subsetD)+
  qed
  have times: "start_time tr = train_start_time f" "end_time tr = train_end_time f"
    "start_time te = test_start_time f" "end_time te = test_end_time f"
    "candle_count tr = train_end_index f - train_start_index f" "candle_count te = test_end_index f - test_start_index f"
    using tr(2) te(2) str ste tm train test by (simp_all add: snapshot_of_def)
  have "train_end_time f \<le> test_start_time f"
    unfolding tm using order train test cs(3) by (intro candle_series_apart [OF cs(1)]) linarith+
  moreover have "has_id_form ''walk-forward-split-'' 16 (split_id s)"
    unfolding s_def wf_split.simps build_walk_forward_split_id_def has_id_form_append by simp
  moreover have "has_id_form ''walk-forward-'' 16 (plan_id p)"
    using plan by (simp add: WalkForwardPlan_def bindR_Inr_iff check_fields_Inr_iff)
  ultimately have "WalkForwardDatasetSplit s = Inr s"
    using same times cs(5)
    by (simp add: WalkForwardDatasetSplit_def check_fields_pass validate_split_def raising_Inr_iff s_def)
  moreover from this have "materialize_fold ds p f = Inr s" using tr(1) te(1) by (simp add: materialize_fold_def s_def)
  ultimately show ?thesis using tr(2) te(2) by (intro exI [of _ s]) (simp add: split_of_def s_def)
qed

lemma materialize_runs:
  assumes ds: "wf_dataset ds" and cfg: "valid_wf_config cfg" and fits: "required_candles cfg \<le> candle_count ds"
  shows "\<exists>p m. plan_walk_forward ds cfg = Some (Inr p) \<and> materialize ds p = Inr m
    \<and> WalkForwardMaterialization m = Inr m \<and> materialized_plan m = p \<and> materialized_source_id m = dataset_id ds
    \<and> folds p = map (expected_fold (candles ds) cfg) [0..<fold_total cfg (candle_count ds)]
    \<and> list_all2 (split_of ds p) (folds p) (splits m)"
proof -
  have src: "wf_source ds" using ds by (simp add: wf_dataset_def)
  obtain p where p: "plan_walk_forward ds cfg = Some (Inr p)" "WalkForwardPlan p = Inr p"
      "plan_dataset_id p = dataset_id ds" "plan_candle_count p = candle_count ds"
      "folds p = map (expected_fold (candles ds) cfg) [0..<fold_total cfg (candle_count ds)]"
    using plan_runs [OF cfg src] fits by auto
  have each: "\<exists>s. materialize_fold ds p f = Inr s \<and> split_of ds p f s" if "f \<in> set (folds p)" for f
    using that materialize_fold_runs [OF ds cfg p(2)] by (auto simp: p(5))
  then have "\<And>f. f \<in> set (folds p) \<Longrightarrow> returns (materialize_fold ds p f)" by (auto simp: returns_iff)
  then obtain ss where ss: "mapR (materialize_fold ds p) (folds p) = Inr ss" using mapR_returns by blast
  then have "list_all2 (\<lambda>f s. materialize_fold ds p f = Inr s) (folds p) ss" by (simp add: mapR_Inr_iff)
  then have splits: "list_all2 (split_of ds p) (folds p) ss"
    using each by (auto simp: list_all2_conv_all_nth) (metis Inr_inject nth_mem)
  define m where "m = \<lparr>materialized_source_id = dataset_id ds, materialized_plan = p, splits = ss\<rparr>"
  have mf: "materialized_source_id m = dataset_id ds" "materialized_plan m = p" "splits m = ss"
    by (simp_all add: m_def)
  have "foldR (\<lambda>_. check_split m) () (zip (folds p) ss) = Inr ()"
    using splits by (intro foldR_checks)
      (auto simp: check_split_def raising_Inr_iff list_all2_iff split_of_def m_def split: prod.splits dest!: bspec)
  moreover have "1 \<le> length (dataset_id ds)" "1 \<le> length ss" "length ss = length (folds p)"
    using src splits p(2) by (auto simp: wf_source_def WalkForwardPlan_def bindR_Inr_iff check_fields_Inr_iff
        dest: list_all2_lengthD)
  ultimately have "WalkForwardMaterialization m = Inr m"
    using p(3) by (simp add: WalkForwardMaterialization_def check_fields_pass raising.simps mf)
  moreover have "materialize ds p = WalkForwardMaterialization m"
    using p(3,4) ss by (simp add: materialize_def raising.simps m_def)
  ultimately show ?thesis using p splits by (auto simp: m_def)
qed

lemma folds_apart:
  assumes cfg: "valid_wf_config cfg" and ds: "wf_source ds"
  shows "sorted_wrt (\<lambda>f g. test_end_index f \<le> test_start_index g \<and> test_end_time f \<le> test_start_time g)
    (map (expected_fold (candles ds) cfg) [0..<fold_total cfg (candle_count ds)])"
proof -
  let ?F = "expected_fold (candles ds) cfg"
  have cs: "candle_series (candles ds)" "candle_count ds = int (length (candles ds))"
    using ds by (simp_all add: wf_source_def)
  have c: "2 \<le> train_candles cfg" "1 \<le> test_candles cfg" "0 \<le> gap_candles cfg" "test_candles cfg \<le> step_candles cfg"
    using cfg by (simp_all add: valid_wf_config_def)
  have "test_end_index (?F i) \<le> test_start_index (?F j) \<and> test_end_time (?F i) \<le> test_start_time (?F j)"
    if ij: "i < j" "j < fold_total cfg (candle_count ds)" for i j
  proof -
    have fits: "fold_start cfg j + test_candles cfg \<le> candle_count ds" using ij(2) fold_total_iff [OF cfg] by simp
    have "(int i + 1) * step_candles cfg \<le> int j * step_candles cfg" using ij(1) c by (intro mult_right_mono) simp_all
    then have "fold_start cfg i + step_candles cfg \<le> fold_start cfg j" by (simp add: fold_start_def algebra_simps)
    then have idx: "test_end_index (?F i) \<le> test_start_index (?F j)" using expected_fold_sizes [OF cfg] c by simp
    have "0 \<le> int i * step_candles cfg" using c by simp
    then have "1 \<le> test_end_index (?F i)"
      unfolding expected_fold_sizes(3) [OF cfg] fold_start_def using c by linarith
    moreover have "test_start_index (?F j) < int (length (candles ds))"
      using fits cs(2) c expected_fold_sizes [OF cfg] by simp
    ultimately have "test_end_time (?F i) \<le> test_start_time (?F j)"
      unfolding expected_fold_times using idx by (intro candle_series_apart [OF cs(1)]) linarith+
    with idx show ?thesis by blast
  qed
  then show ?thesis by (auto simp: sorted_wrt_map sorted_wrt_iff_nth_less)
qed

section \<open>Properties\<close>

definition sample_wf_config :: wf_config where
  "sample_wf_config = \<lparr>train_candles = 2, test_candles = 1, step_candles = 2, gap_candles = 1, wf_mode = ROLLING\<rparr>"

lemma sample_wf_config: "WalkForwardConfig 2 1 2 1 ROLLING = Inr sample_wf_config"
  by (simp add: WalkForwardConfig_def check_fields_def raising.simps sample_wf_config_def)


lemma sample_wf_source: "wf_source (sample_dataset [10, 9, 8, 7, 6, 5])"
  by (simp add: wf_source_def) (simp add: sample_dataset_def)


text \<open>
  Materializing a plan of a quality-checked dataset never fails: every fold gets a train and a test
  dataset that pass the quality check, hold exactly the candles of their windows, and pass the split's
  and the materialization's cross-checks.
\<close>

theorem materialization_never_fails:
  assumes "WalkForwardConfig train test step gap mode = Inr cfg" "wf_dataset ds"
    and "plan_walk_forward ds cfg = Some (Inr p)"
  shows "\<exists>m. materialize ds p = Inr m \<and> WalkForwardMaterialization m = Inr m \<and> materialized_plan m = p
    \<and> list_all2 (split_of ds p) (folds p) (splits m)"
proof -
  have cfg: "valid_wf_config cfg" using WalkForwardConfig_valid [OF assms(1)] .
  then have "required_candles cfg \<le> candle_count ds"
    using plan_runs [OF cfg, of ds] assms(2,3) by (force simp: wf_dataset_def split: if_splits)
  then show ?thesis using materialize_runs [OF assms(2) cfg] assms(3) by force
qed

definition sample_snapshot :: "rat list \<Rightarrow> snapshot" where
  "sample_snapshot ps = dataset.extend (sample_dataset ps)
     \<lparr>snapshot_provenance = generated_provenance, snapshot_quality = None,
      candle_texts = map (\<lambda>p. str_int \<lfloor>p\<rfloor>) ps\<rparr>"

lemma sample_wf_dataset: "wf_dataset (sample_snapshot [10, 9, 8, 7, 6, 5])"
proof -
  have "wf_source (sample_snapshot [10, 9, 8, 7, 6, 5])"
    using sample_wf_source by (simp add: wf_source_def sample_snapshot_def dataset.defs)
  moreover have "clean_series (candles (sample_dataset [10, 9, 8, 7, 6, 5]))"
    by (simp add: clean_series_def mixed_series_def sample_candles) (simp add: sample_candle_def)
  ultimately show ?thesis
    by (simp add: wf_dataset_def sample_snapshot_def dataset.defs) (simp add: sample_dataset_def)
qed

theorem materialization_never_fails_witness:
  "\<exists>p m. plan_walk_forward (sample_snapshot [10, 9, 8, 7, 6, 5]) sample_wf_config = Some (Inr p)
     \<and> materialize (sample_snapshot [10, 9, 8, 7, 6, 5]) p = Inr m \<and> length (splits m) = 2"
proof -
  let ?ds = "sample_snapshot [10, 9, 8, 7, 6, 5]"
  have cfg: "valid_wf_config sample_wf_config" by (rule WalkForwardConfig_valid [OF sample_wf_config])
  have n: "required_candles sample_wf_config \<le> candle_count ?ds" "fold_total sample_wf_config (candle_count ?ds) = 2"
    by (simp_all add: fold_total_def required_candles_def sample_wf_config_def sample_snapshot_def dataset.defs
        sample_dataset_def)
  then obtain p where p: "plan_walk_forward ?ds sample_wf_config = Some (Inr p)" "length (folds p) = 2"
    using plan_runs [OF cfg, of ?ds] sample_wf_dataset by (auto simp: wf_dataset_def)
  obtain m where m: "materialize ?ds p = Inr m" "list_all2 (split_of ?ds p) (folds p) (splits m)"
    using materialization_never_fails [OF sample_wf_config sample_wf_dataset p(1)] by blast
  have "length (splits m) = 2" using list_all2_lengthD [OF m(2)] p(2) by simp
  with p(1) m(1) show ?thesis by (intro exI [of _ p] exI [of _ m] conjI)
qed

end
