(* ===== verification/Strategy_Registry.thy ===== *)
theory Strategy_Registry imports Strategies Catalog
begin

text \<open>
  The versioned strategies (\<open>trd_bot/strategies/registry.py\<close>, \<open>metadata.py\<close>): metadata with its behaviour
  fingerprint, the registry and its three default definitions. A factory is a function from named
  parameters to a strategy; a strategy is one of the three classes of \<open>Strategies\<close>.
\<close>

section \<open>Text\<close>

text \<open>\<open>repr\<close> of an ASCII string, as \<open>!r\<close> writes it into messages.\<close>

definition hex_escape :: "char \<Rightarrow> string" where
  "hex_escape c = [hex_char (of_char c div 16), hex_char (of_char c)]"

definition repr_char :: "char \<Rightarrow> char \<Rightarrow> string" where
  "repr_char q c =
     (let n = (of_char c :: nat)
      in if c = CHR 0x5C \<or> c = q then [CHR 0x5C, c]
         else if n = 10 then [CHR 0x5C, CHR ''n''] else if n = 13 then [CHR 0x5C, CHR ''r'']
         else if n = 9 then [CHR 0x5C, CHR ''t'']
         else if n < 32 \<or> n = 127 then [CHR 0x5C, CHR ''x''] @ hex_escape c else [c])"

definition py_repr :: "string \<Rightarrow> string" where
  "py_repr s =
     (let q = (if CHR 0x27 \<in> set s \<and> CHR 0x22 \<notin> set s then CHR 0x22 else CHR 0x27)
      in [q] @ concat (map (repr_char q) s) @ [q])"

text \<open>\<open>json.dumps\<close> of an ASCII string.\<close>

definition json_char :: "char \<Rightarrow> string" where
  "json_char c =
     (let n = (of_char c :: nat)
      in if n = 34 \<or> n = 92 then [CHR 0x5C, c]
         else if n = 8 then [CHR 0x5C, CHR ''b''] else if n = 9 then [CHR 0x5C, CHR ''t'']
         else if n = 10 then [CHR 0x5C, CHR ''n''] else if n = 12 then [CHR 0x5C, CHR ''f'']
         else if n = 13 then [CHR 0x5C, CHR ''r'']
         else if n < 32 \<or> n = 127 then [CHR 0x5C, CHR ''u'', CHR ''0'', CHR ''0''] @ hex_escape c else [c])"

definition json_string :: "string \<Rightarrow> string" where
  "json_string s = [CHR 0x22] @ concat (map json_char s) @ [CHR 0x22]"

definition json_object :: "(string \<times> string) list \<Rightarrow> string" where
  "json_object fs = ''{'' @ join '','' (map (\<lambda>(k, v). json_string k @ '':'' @ v) fs) @ ''}''"

definition json_bool :: "bool \<Rightarrow> string" where
  "json_bool b = (if b then ''true'' else ''false'')"

definition json_optional :: "string option \<Rightarrow> string" where
  "json_optional v = (case v of None \<Rightarrow> ''null'' | Some s \<Rightarrow> json_string s)"

section \<open>Metadata\<close>

datatype parameter_kind = INTEGER_PARAMETER | DECIMAL_PARAMETER

definition parameter_kind_value :: "parameter_kind \<Rightarrow> string" where
  "parameter_kind_value k = (case k of INTEGER_PARAMETER \<Rightarrow> ''integer'' | DECIMAL_PARAMETER \<Rightarrow> ''decimal'')"

datatype lifecycle_status = ACTIVE_VERSION | DEPRECATED_VERSION

record parameter_metadata =
  meta_name :: string
  meta_kind :: parameter_kind
  default_value :: string
  minimum :: "string option"
  maximum :: "string option"
  minimum_exclusive :: bool
  maximum_exclusive :: bool

definition StrategyParameterMetadata :: "parameter_metadata \<Rightarrow> parameter_metadata result" where
  "StrategyParameterMetadata m = check_fields
     [(''name'', sized 1 100 (meta_name m)), (''default_value'', sized 1 100 (default_value m))] m"

record strategy_metadata =
  metadata_name :: string
  metadata_version :: string
  display_name :: string
  description :: string
  metadata_parameters :: "parameter_metadata list"
  version_status :: lifecycle_status
  supersedes_version :: "string option"
  behavior_fingerprint :: string

definition StrategyMetadata :: "strategy_metadata \<Rightarrow> strategy_metadata result" where
  "StrategyMetadata m = bindR (check_fields
     [(''name'', sized 1 100 (metadata_name m)), (''version'', sized 1 50 (metadata_version m)),
      (''display_name'', sized 1 100 (display_name m)), (''description'', sized 1 500 (description m)),
      (''supersedes_version'', case supersedes_version m of None \<Rightarrow> True | Some v \<Rightarrow> sized 1 50 v),
      (''behavior_fingerprint'', has_id_form ''sha256:'' 64 (behavior_fingerprint m))] m)
     (raising
       [(\<not> distinct (map meta_name (metadata_parameters m)),
           ValueError ''strategy parameter names must be unique''),
        (supersedes_version m = Some (metadata_version m),
           ValueError ''strategy version cannot supersede itself'')])"

text \<open>\<open>json.dumps\<close> sorts the keys.\<close>

definition parameter_json :: "parameter_metadata \<Rightarrow> string" where
  "parameter_json m = json_object
     [(''default_value'', json_string (default_value m)), (''kind'', json_string (parameter_kind_value (meta_kind m))),
      (''maximum'', json_optional (maximum m)), (''maximum_exclusive'', json_bool (maximum_exclusive m)),
      (''minimum'', json_optional (minimum m)), (''minimum_exclusive'', json_bool (minimum_exclusive m)),
      (''name'', json_string (meta_name m))]"

definition build_strategy_behavior_fingerprint ::
  "string \<Rightarrow> string \<Rightarrow> string \<Rightarrow> parameter_metadata list \<Rightarrow> string result" where
  "build_strategy_behavior_fingerprint name version contract ps =
     (if strip contract = [] then Inl (ValueError ''strategy implementation contract cannot be empty'')
      else Inr (''sha256:'' @ sha256_hexdigest (json_object
        [(''implementation_contract'', json_string contract), (''name'', json_string name),
         (''parameters'', ''['' @ join '','' (map parameter_json ps) @ '']''), (''version'', json_string version)])))"

section \<open>Definitions and the registry\<close>

datatype parameter_value = TextValue string | IntValue int | DecimalValue rat | BoolValue bool

type_synonym parameters = "(string \<times> parameter_value) list"

datatype strategy = SmaStrategy crossover_strategy | EmaStrategy crossover_strategy | RsiStrategy rsi_strategy

definition text_of :: "strategy \<Rightarrow> signal_text" where
  "text_of s = (case s of SmaStrategy _ \<Rightarrow> sma_text | EmaStrategy _ \<Rightarrow> ema_text | RsiStrategy _ \<Rightarrow> rsi_text)"

definition strategy_generate :: "strategy \<Rightarrow> dataset \<Rightarrow> strategy_signal list result" where
  "strategy_generate s = (case s of SmaStrategy st \<Rightarrow> sma_generate st | EmaStrategy st \<Rightarrow> ema_generate st
     | RsiStrategy st \<Rightarrow> rsi_generate st)"

record strategy_definition =
  definition_name :: string
  definition_version :: string
  factory :: "parameters \<Rightarrow> strategy result"
  definition_metadata :: "strategy_metadata option"

definition StrategyDefinition :: "strategy_definition \<Rightarrow> strategy_definition result" where
  "StrategyDefinition d = raising
     [(strip (definition_name d) = [], ValueError ''strategy definition name cannot be empty''),
      (strip (definition_version d) = [], ValueError ''strategy definition version cannot be empty''),
      (case definition_metadata d of None \<Rightarrow> False | Some m \<Rightarrow> metadata_name m \<noteq> definition_name d,
         ValueError ''strategy metadata name does not match the definition''),
      (case definition_metadata d of None \<Rightarrow> False | Some m \<Rightarrow> metadata_version m \<noteq> definition_version d,
         ValueError ''strategy metadata version does not match the definition'')] d"

definition create_strategy :: "strategy_definition \<Rightarrow> parameters \<Rightarrow> strategy result" where
  "create_strategy d params = bindR (factory d params) (\<lambda>s. raising
     [(strategy_name (text_of s) \<noteq> definition_name d,
         ValueError ''strategy factory returned an unexpected strategy name''),
      (strategy_version (text_of s) \<noteq> definition_version d,
         ValueError ''strategy factory returned an unexpected strategy version'')] s)"

text \<open>A registry maps name and version to a definition, in the order of registration.\<close>

type_synonym strategy_registry = "((string \<times> string) \<times> strategy_definition) list"

definition register_strategy :: "strategy_registry \<Rightarrow> strategy_definition \<Rightarrow> strategy_registry result" where
  "register_strategy reg d =
     (let k = (definition_name d, definition_version d)
      in if map_of reg k \<noteq> None
         then Inl (ValueError (''strategy '' @ py_repr (definition_name d) @ '' version '' @
                py_repr (definition_version d) @ '' is already registered''))
         else Inr (reg @ [(k, d)]))"

definition get_strategy :: "strategy_registry \<Rightarrow> string \<Rightarrow> string \<Rightarrow> strategy_definition option" where
  "get_strategy reg name version = map_of reg (name, version)"

definition require_strategy :: "strategy_registry \<Rightarrow> string \<Rightarrow> string \<Rightarrow> strategy_definition result" where
  "require_strategy reg name version =
     (case get_strategy reg name version of
        None \<Rightarrow> Inl (ValueError (''unknown strategy '' @ py_repr name @ '' version '' @ py_repr version))
      | Some d \<Rightarrow> Inr d)"

definition registry_create :: "strategy_registry \<Rightarrow> string \<Rightarrow> string \<Rightarrow> parameters \<Rightarrow> strategy result" where
  "registry_create reg name version params =
     bindR (require_strategy reg name version) (\<lambda>d. create_strategy d params)"

definition list_definitions :: "strategy_registry \<Rightarrow> strategy_definition list" where
  "list_definitions reg = map (\<lambda>k. the (map_of reg k)) (sort (map fst reg))"

definition list_metadata :: "strategy_registry \<Rightarrow> strategy_metadata list" where
  "list_metadata reg = List.map_filter definition_metadata (list_definitions reg)"

definition get_metadata :: "strategy_registry \<Rightarrow> string \<Rightarrow> string \<Rightarrow> strategy_metadata option" where
  "get_metadata reg name version =
     (case get_strategy reg name version of None \<Rightarrow> None | Some d \<Rightarrow> definition_metadata d)"

definition list_versions :: "strategy_registry \<Rightarrow> string \<Rightarrow> strategy_metadata list" where
  "list_versions reg name = filter (\<lambda>m. metadata_name m = name) (list_metadata reg)"

section \<open>Factories\<close>

text \<open>Names that differ between what is expected and what is received, the smallest first.\<close>

definition require_exact_parameters :: "parameters \<Rightarrow> string list \<Rightarrow> unit result" where
  "require_exact_parameters params expected =
     (let received = map fst params;
          missing = sort (filter (\<lambda>n. n \<notin> set received) expected);
          unexpected = sort (filter (\<lambda>n. n \<notin> set expected) received)
      in raising
           [(missing \<noteq> [], ValueError (''missing strategy parameter: '' @ hd missing)),
            (unexpected \<noteq> [], ValueError (''unexpected strategy parameter: '' @ hd unexpected))] ())"

definition parameter_of :: "parameters \<Rightarrow> string \<Rightarrow> parameter_value result" where
  "parameter_of params n = (case map_of params n of None \<Rightarrow> Inl (MissingKey n) | Some v \<Rightarrow> Inr v)"

definition require_int_parameter :: "parameters \<Rightarrow> string \<Rightarrow> int result" where
  "require_int_parameter params n = bindR (parameter_of params n) (\<lambda>v.
     case v of IntValue k \<Rightarrow> Inr k
     | _ \<Rightarrow> Inl (ValueError (''strategy parameter '' @ py_repr n @ '' must be an integer'')))"

definition require_decimal_parameter :: "parameters \<Rightarrow> string \<Rightarrow> rat result" where
  "require_decimal_parameter params n = bindR (parameter_of params n) (\<lambda>v.
     case v of DecimalValue x \<Rightarrow> Inr x | IntValue k \<Rightarrow> Inr (of_int k)
     | _ \<Rightarrow> Inl (ValueError (''strategy parameter '' @ py_repr n @ '' must be a decimal'')))"

definition build_ema_crossover :: "parameters \<Rightarrow> strategy result" where
  "build_ema_crossover params =
     bindR (require_exact_parameters params [''fast_period'', ''slow_period'']) (\<lambda>_.
     bindR (require_int_parameter params ''fast_period'') (\<lambda>fast.
     bindR (require_int_parameter params ''slow_period'') (\<lambda>slow.
     bindR (EMACrossoverStrategy fast slow) (\<lambda>st. Inr (EmaStrategy st)))))"

definition build_sma_crossover :: "parameters \<Rightarrow> strategy result" where
  "build_sma_crossover params =
     bindR (require_exact_parameters params [''fast_period'', ''slow_period'']) (\<lambda>_.
     bindR (require_int_parameter params ''fast_period'') (\<lambda>fast.
     bindR (require_int_parameter params ''slow_period'') (\<lambda>slow.
     bindR (SMACrossoverStrategy fast slow) (\<lambda>st. Inr (SmaStrategy st)))))"

definition build_rsi_threshold :: "parameters \<Rightarrow> strategy result" where
  "build_rsi_threshold params =
     bindR (require_exact_parameters params [''period'', ''oversold_threshold'', ''overbought_threshold'']) (\<lambda>_.
     bindR (require_int_parameter params ''period'') (\<lambda>period.
     bindR (require_decimal_parameter params ''oversold_threshold'') (\<lambda>oversold.
     bindR (require_decimal_parameter params ''overbought_threshold'') (\<lambda>overbought.
     bindR (RSIThresholdStrategy period oversold overbought) (\<lambda>st. Inr (RsiStrategy st))))))"

section \<open>The default registry\<close>

definition period_parameter :: "string \<Rightarrow> string \<Rightarrow> string \<Rightarrow> parameter_metadata" where
  "period_parameter name def_text least =
     \<lparr>meta_name = name, meta_kind = INTEGER_PARAMETER, default_value = def_text, minimum = Some least,
      maximum = None, minimum_exclusive = False, maximum_exclusive = False\<rparr>"

definition threshold_parameter :: "string \<Rightarrow> string \<Rightarrow> string \<Rightarrow> string \<Rightarrow> parameter_metadata" where
  "threshold_parameter name def_text lo hi =
     \<lparr>meta_name = name, meta_kind = DECIMAL_PARAMETER, default_value = def_text, minimum = Some lo,
      maximum = Some hi, minimum_exclusive = True, maximum_exclusive = True\<rparr>"

definition crossover_parameters :: "parameter_metadata list" where
  "crossover_parameters = [period_parameter ''fast_period'' ''9'' ''2'', period_parameter ''slow_period'' ''21'' ''3'']"

definition rsi_parameters :: "parameter_metadata list" where
  "rsi_parameters =
     [period_parameter ''period'' ''14'' ''2'', threshold_parameter ''oversold_threshold'' ''30'' ''0'' ''50'',
      threshold_parameter ''overbought_threshold'' ''70'' ''50'' ''100'']"

definition build_metadata ::
  "string \<Rightarrow> string \<Rightarrow> string \<Rightarrow> string \<Rightarrow> string \<Rightarrow> parameter_metadata list \<Rightarrow> strategy_metadata result" where
  "build_metadata name version display about contract ps =
     bindR (build_strategy_behavior_fingerprint name version contract ps) (\<lambda>fingerprint. StrategyMetadata
       \<lparr>metadata_name = name, metadata_version = version, display_name = display, description = about,
        metadata_parameters = ps, version_status = ACTIVE_VERSION, supersedes_version = None,
        behavior_fingerprint = fingerprint\<rparr>)"

text \<open>One call of \<open>registry.register\<close>, its arguments evaluated first.\<close>

definition register_default ::
  "strategy_registry \<Rightarrow> string \<times> (parameters \<Rightarrow> strategy result) \<times> string \<times> string \<times> string \<times> parameter_metadata list
   \<Rightarrow> strategy_registry result" where
  "register_default reg = (\<lambda>(name, make, display, about, contract, ps).
     bindR (mapR StrategyParameterMetadata ps) (\<lambda>ps.
     bindR (build_metadata name ''1.0.0'' display about contract ps) (\<lambda>m.
     bindR (StrategyDefinition \<lparr>definition_name = name, definition_version = ''1.0.0'', factory = make,
              definition_metadata = Some m\<rparr>) (register_strategy reg))))"

definition default_strategies ::
  "(string \<times> (parameters \<Rightarrow> strategy result) \<times> string \<times> string \<times> string \<times> parameter_metadata list) list" where
  "default_strategies =
     [(''ema-crossover'', build_ema_crossover, ''EMA Crossover'',
       ''Generate historical directional signals from fast and slow '' @
       ''exponential moving-average crossovers.'',
       ''ema-close-crossover-v1: close prices; fast EMA crosses above/below '' @
       ''slow EMA; emit directional signal at the crossing candle'', crossover_parameters),
      (''rsi-threshold'', build_rsi_threshold, ''RSI Threshold'',
       ''Generate historical mean-reversion signals when RSI enters '' @ ''configured extreme regions.'',
       ''rsi-close-threshold-v1: Wilder RSI over close prices; emit long below '' @
       ''oversold and short above overbought'', rsi_parameters),
      (''sma-crossover'', build_sma_crossover, ''SMA Crossover'',
       ''Generate historical directional signals from fast and slow '' @
       ''simple moving-average crossovers.'',
       ''sma-close-crossover-v1: close prices; fast SMA crosses above/below '' @
       ''slow SMA; emit directional signal at the crossing candle'', crossover_parameters)]"

definition build_default_strategy_registry :: "strategy_registry result" where
  "build_default_strategy_registry = foldR register_default [] default_strategies"

section \<open>Registering and looking up\<close>

lemma register_strategy_Inr_iff:
  "register_strategy reg d = Inr reg' \<longleftrightarrow>
     get_strategy reg (definition_name d) (definition_version d) = None
     \<and> reg' = reg @ [((definition_name d, definition_version d), d)]"
  by (auto simp: register_strategy_def get_strategy_def Let_def)

text \<open>A registered definition stays what it is, and listing shows each version once, in order.\<close>

definition registry_ok :: "strategy_registry \<Rightarrow> bool" where
  "registry_ok reg \<longleftrightarrow> distinct (map fst reg)
     \<and> list_all (\<lambda>(k, d). k = (definition_name d, definition_version d)) reg"

lemma registered:
  assumes "registry_ok reg" "register_strategy reg d = Inr reg'"
  shows "registry_ok reg'" "get_strategy reg' (definition_name d) (definition_version d) = Some d"
    "get_strategy reg n v = Some x \<Longrightarrow> get_strategy reg' n v = Some x"
proof -
  have reg': "reg' = reg @ [((definition_name d, definition_version d), d)]"
    and new: "map_of reg (definition_name d, definition_version d) = None"
    using assms(2) by (simp_all add: register_strategy_Inr_iff get_strategy_def)
  show "registry_ok reg'" using assms(1) new by (auto simp: registry_ok_def reg' map_of_eq_None_iff)
  show "get_strategy reg' (definition_name d) (definition_version d) = Some d"
    using new by (simp add: get_strategy_def reg' map_add_def)
  show "get_strategy reg n v = Some x \<Longrightarrow> get_strategy reg' n v = Some x"
    by (simp add: get_strategy_def reg' map_add_def split: option.splits)
qed

lemma listed_definitions:
  assumes "registry_ok reg"
  shows "mset (list_definitions reg) = mset (map snd reg)"
    "sorted (map (\<lambda>d. (definition_name d, definition_version d)) (list_definitions reg))"
proof -
  have same: "the (map_of reg k) = d" if "(k, d) \<in> set reg" for k d
    using assms that by (simp add: registry_ok_def)
  have "mset (list_definitions reg) = image_mset (\<lambda>k. the (map_of reg k)) (mset (map fst reg))"
    by (simp add: list_definitions_def)
  also have "\<dots> = mset (map (\<lambda>(k, d). the (map_of reg k)) reg)" by (simp add: case_prod_unfold image_mset.compositionality comp_def)
  also have "\<dots> = mset (map snd reg)" using same by (intro arg_cong [of _ _ mset] map_cong) auto
  finally show "mset (list_definitions reg) = mset (map snd reg)" .
  have "(definition_name (the (map_of reg k)), definition_version (the (map_of reg k))) = k" if k: "k \<in> set (map fst reg)" for k
  proof -
    obtain d where "(k, d) \<in> set reg" using k by auto
    then show ?thesis using same assms by (fastforce simp: registry_ok_def list_all_iff)
  qed
  then have "map (\<lambda>d. (definition_name d, definition_version d)) (list_definitions reg) = sort (map fst reg)"
    unfolding list_definitions_def map_map by (intro map_idI) simp
  then show "sorted (map (\<lambda>d. (definition_name d, definition_version d)) (list_definitions reg))" by simp
qed

section \<open>The default registry\<close>

lemma fingerprint_form: "has_id_form ''sha256:'' 64 (''sha256:'' @ sha256_hexdigest s)"
  unfolding has_id_form_append using hexdigest_form by simp

text \<open>What a default definition needs to be accepted, and what it then is.\<close>

definition described ::
  "string \<times> (parameters \<Rightarrow> strategy result) \<times> string \<times> string \<times> string \<times> parameter_metadata list \<Rightarrow> bool" where
  "described = (\<lambda>(name, mk, display, about, contract, ps).
     sized 1 100 name \<and> strip name \<noteq> [] \<and> sized 1 100 display \<and> sized 1 500 about \<and> strip contract \<noteq> []
     \<and> distinct (map meta_name ps)
     \<and> list_all (\<lambda>m. sized 1 100 (meta_name m) \<and> sized 1 100 (default_value m)) ps)"

definition made_by ::
  "string \<times> (parameters \<Rightarrow> strategy result) \<times> string \<times> string \<times> string \<times> parameter_metadata list
   \<Rightarrow> strategy_definition \<Rightarrow> bool" where
  "made_by = (\<lambda>(name, mk, display, about, contract, ps) d.
     definition_name d = name \<and> definition_version d = ''1.0.0'' \<and> factory d = mk
     \<and> (case definition_metadata d of None \<Rightarrow> False | Some m \<Rightarrow> metadata_name m = name
          \<and> metadata_version m = ''1.0.0'' \<and> metadata_parameters m = ps
          \<and> has_id_form ''sha256:'' 64 (behavior_fingerprint m)))"

lemma register_default_runs:
  assumes "described x" "map_of reg (fst x, ''1.0.0'') = None"
  shows "\<exists>d. register_default reg x = Inr (reg @ [((fst x, ''1.0.0''), d)]) \<and> made_by x d"
proof -
  obtain name mk display about contract ps where x: "x = (name, mk, display, about, contract, ps)" by (cases x) auto
  have ok: "sized 1 100 name" "strip name \<noteq> []" "sized 1 100 display" "sized 1 500 about" "strip contract \<noteq> []"
    "distinct (map meta_name ps)" "list_all (\<lambda>m. sized 1 100 (meta_name m) \<and> sized 1 100 (default_value m)) ps"
    using assms(1) by (simp_all add: described_def x)
  define m where "m = \<lparr>metadata_name = name, metadata_version = ''1.0.0'', display_name = display, description = about,
    metadata_parameters = ps, version_status = ACTIVE_VERSION, supersedes_version = None,
    behavior_fingerprint = ''sha256:'' @ sha256_hexdigest (json_object
        [(''implementation_contract'', json_string contract), (''name'', json_string name),
         (''parameters'', ''['' @ join '','' (map parameter_json ps) @ '']''), (''version'', json_string ''1.0.0'')])\<rparr>"
  have m: "metadata_name m = name" "metadata_version m = ''1.0.0''" "display_name m = display" "description m = about"
    "metadata_parameters m = ps" "supersedes_version m = None" "has_id_form ''sha256:'' 64 (behavior_fingerprint m)"
    unfolding m_def using fingerprint_form by simp_all
  have "mapR StrategyParameterMetadata ps = Inr ps"
    using ok(7) by (induction ps) (simp_all add: StrategyParameterMetadata_def check_fields_pass)
  moreover have "StrategyMetadata m = Inr m"
    using ok m by (simp add: StrategyMetadata_def check_fields_pass raising.simps sized_def [of _ _ "''1.0.0''"])
  then have "build_metadata name ''1.0.0'' display about contract ps = Inr m"
    unfolding build_metadata_def build_strategy_behavior_fingerprint_def if_not_P [OF ok(5)] bindR.simps m_def .
  ultimately show ?thesis
    using assms(2) ok(2) m
    by (simp add: register_default_def StrategyDefinition_def raising.simps register_strategy_def x made_by_def
        strip_Nil_iff [of "''1.0.0''"] is_space_def)
qed

lemma register_all:
  assumes "list_all described xs" "distinct (map fst xs)" "\<forall>x \<in> set xs. map_of reg (fst x, ''1.0.0'') = None"
  shows "\<exists>ds. foldR register_default reg xs = Inr (reg @ map (\<lambda>d. ((definition_name d, definition_version d), d)) ds)
    \<and> list_all2 made_by xs ds"
  using assms
proof (induction xs arbitrary: reg)
  case (Cons x xs)
  obtain d where d: "register_default reg x = Inr (reg @ [((fst x, ''1.0.0''), d)])" "made_by x d"
    using register_default_runs [of x reg] Cons.prems by auto
  have name: "definition_name d = fst x" "definition_version d = ''1.0.0''" using d(2) by (auto simp: made_by_def)
  have "\<forall>y \<in> set xs. map_of (reg @ [((fst x, ''1.0.0''), d)]) (fst y, ''1.0.0'') = None"
    using Cons.prems(2,3) by (fastforce simp: map_add_def image_iff)
  then obtain ds where "foldR register_default (reg @ [((fst x, ''1.0.0''), d)]) xs
      = Inr ((reg @ [((fst x, ''1.0.0''), d)]) @ map (\<lambda>d. ((definition_name d, definition_version d), d)) ds)"
      "list_all2 made_by xs ds"
    using Cons.IH [of "reg @ [((fst x, ''1.0.0''), d)]"] Cons.prems(1,2) by auto
  then show ?case using d name by (intro exI [of _ "d # ds"]) simp
qed simp

lemma default_described: "list_all described default_strategies" "distinct (map fst default_strategies)"
  by (simp_all add: default_strategies_def described_def sized_def strip_Nil_iff is_space_def crossover_parameters_def
      rsi_parameters_def period_parameter_def threshold_parameter_def)

lemma default_registry:
  "\<exists>ds. build_default_strategy_registry = Inr (map (\<lambda>d. ((definition_name d, definition_version d), d)) ds)
    \<and> list_all2 made_by default_strategies ds"
  using register_all [OF default_described, of "[]"] by (simp add: build_default_strategy_registry_def)

text \<open>Which definitions the default registry has, by name and version.\<close>

lemma default_require:
  assumes "build_default_strategy_registry = Inr reg"
  shows "require_strategy reg name version = Inr d \<Longrightarrow>
      \<exists>x \<in> set default_strategies. made_by x d \<and> name = fst x \<and> version = ''1.0.0''"
    "x \<in> set default_strategies \<Longrightarrow> \<exists>d. require_strategy reg (fst x) ''1.0.0'' = Inr d \<and> made_by x d"
proof -
  obtain ds where made: "build_default_strategy_registry = Inr (map (\<lambda>d. ((definition_name d, definition_version d), d)) ds)"
      "list_all2 made_by default_strategies ds"
    using default_registry by blast
  then have ds: "reg = map (\<lambda>d. ((definition_name d, definition_version d), d)) ds"
      "list_all2 made_by default_strategies ds"
    using assms by (metis sum.inject(2))+
  have each: "\<exists>x \<in> set default_strategies. made_by x d" if "d \<in> set ds" for d
    using ds(2) that by (metis in_set_conv_nth list_all2_conv_all_nth)
  show "\<exists>x \<in> set default_strategies. made_by x d \<and> name = fst x \<and> version = ''1.0.0''"
    if req: "require_strategy reg name version = Inr d"
  proof -
    have "((name, version), d) \<in> set reg"
      using req by (auto simp: require_strategy_def get_strategy_def split: option.splits dest: map_of_SomeD)
    then have "d \<in> set ds" "name = definition_name d" "version = definition_version d" by (auto simp: ds(1))
    then show ?thesis using each by (fastforce simp: made_by_def)
  qed
  have "map fst reg = map (\<lambda>x. (fst x, ''1.0.0'')) default_strategies"
    using ds(2) unfolding ds(1) by (auto simp: list_all2_conv_all_nth made_by_def intro!: nth_equalityI)
  then have dist: "distinct (map fst reg)"
    using default_described(2) by (simp add: distinct_map inj_on_def)
  show "\<exists>d. require_strategy reg (fst x) ''1.0.0'' = Inr d \<and> made_by x d" if x: "x \<in> set default_strategies" for x
  proof -
    obtain d where d: "d \<in> set ds" "made_by x d"
      using ds(2) x by (metis in_set_conv_nth list_all2_conv_all_nth)
    then have "((fst x, ''1.0.0''), d) \<in> set reg" by (auto simp: ds(1) made_by_def)
    then show ?thesis using d(2) map_of_is_SomeI [OF dist] by (auto simp: require_strategy_def get_strategy_def)
  qed
qed

section \<open>Registered strategies\<close>

text \<open>A strategy that its class accepted.\<close>

definition configured_strategy :: "strategy \<Rightarrow> bool" where
  "configured_strategy s = (case s of SmaStrategy st \<Rightarrow> crossover_configured st
     | EmaStrategy st \<Rightarrow> crossover_configured st | RsiStrategy st \<Rightarrow> rsi_configured st)"

lemma created_configured:
  assumes "build_default_strategy_registry = Inr reg" "registry_create reg name version params = Inr s"
  shows "configured_strategy s" "strategy_name (text_of s) = name" "strategy_version (text_of s) = version"
proof -
  obtain d where d: "require_strategy reg name version = Inr d" "create_strategy d params = Inr s"
    using assms(2) by (auto simp: registry_create_def bindR_Inr_iff)
  obtain x where x: "x \<in> set default_strategies" "made_by x d" "name = fst x" "version = ''1.0.0''"
    using default_require(1) [OF assms(1) d(1)] by blast
  have "factory d params = Inr s" "strategy_name (text_of s) = definition_name d"
    "strategy_version (text_of s) = definition_version d"
    using d(2) by (auto simp: create_strategy_def bindR_Inr_iff raising_Inr_iff)
  then show "strategy_name (text_of s) = name" "strategy_version (text_of s) = version"
    using x by (auto simp: made_by_def)
  have "factory d \<in> {build_ema_crossover, build_rsi_threshold, build_sma_crossover}"
    using x(1,2) by (auto simp: default_strategies_def made_by_def)
  then show "configured_strategy s"
    using \<open>factory d params = Inr s\<close>
    by (auto simp: build_ema_crossover_def build_rsi_threshold_def build_sma_crossover_def bindR_Inr_iff
        configured_strategy_def) (metis constructor_configured)+
qed

interpretation registered: research_strategy configured_strategy strategy_generate
proof
  fix st :: strategy and ds :: dataset
  assume st: "configured_strategy st" and ds: "research_dataset ds"
  show "\<exists>sigs. strategy_generate st ds = Inr sigs \<and> signals_for ds sigs"
    using st ds sma_strategy.generate_sound ema_strategy.generate_sound rsi_threshold.generate_sound
    by (cases st) (simp_all add: configured_strategy_def strategy_generate_def)
  show "\<exists>us vs. strategy_generate st (ds\<lparr>candles := take n (candles ds)\<rparr>) = Inr us \<and> sigs = us @ vs
      \<and> (\<forall>s \<in> set vs. \<exists>c \<in> set (drop n (candles ds)). candle_close_time s = close_time c)"
    if "strategy_generate st ds = Inr sigs" for sigs n
    using st ds that sma_strategy.generate_prefix ema_strategy.generate_prefix rsi_threshold.generate_prefix
    by (cases st) (simp_all add: configured_strategy_def strategy_generate_def)
qed

end
