(* ===== verification/Experiments.thy ===== *)
theory Experiments imports Pipeline Datasets Strategy_Registry
begin

text \<open>
  Research experiments (\<open>trd_bot/research/experiments.py\<close>) and their comparison
  (\<open>trd_bot/research/comparisons.py\<close>): the immutable record of one pipeline result, its summary, the
  builder, the in-memory registry and the comparator. The registry meets the contract of
  \<open>first_write_store\<close>.
\<close>

section \<open>Records\<close>

record experiment_parameter =
  parameter_name :: string
  parameter_value :: string

definition ExperimentParameter :: "experiment_parameter \<Rightarrow> experiment_parameter result" where
  "ExperimentParameter q = check_fields
     [(''name'', sized 1 100 (parameter_name q)), (''value'', sized 1 200 (parameter_value q))] q"

definition ordered_parameters :: "experiment_parameter list \<Rightarrow> experiment_parameter list" where
  "ordered_parameters = sort_key (\<lambda>q. (parameter_name q, parameter_value q))"

record research_experiment =
  experiment_id :: string
  experiment_created_at :: int
  experiment_dataset_id :: string
  experiment_strategy_name :: string
  experiment_strategy_version :: string
  strategy_fingerprint :: "string option"
  experiment_horizon :: int
  experiment_parameters :: "experiment_parameter list"
  experiment_result :: pipeline_result

definition fingerprint_ok :: "string option \<Rightarrow> bool" where
  "fingerprint_ok v = (case v of None \<Rightarrow> True | Some f \<Rightarrow> has_id_form ''sha256:'' 64 f)"

definition ResearchExperiment :: "timestamp \<Rightarrow> research_experiment \<Rightarrow> research_experiment result" where
  "ResearchExperiment created x = bindR (check_fields
     [(''experiment_id'', has_id_form ''experiment-'' 16 (experiment_id x)), (''created_at'', aware created),
      (''strategy_fingerprint'', fingerprint_ok (strategy_fingerprint x)),
      (''horizon_candles'', 1 \<le> experiment_horizon x)] x)
     (raising
       [(\<not> distinct (map parameter_name (experiment_parameters x)),
           ValueError ''experiment parameter names must be unique''),
        (pipeline_dataset_id (experiment_result x) \<noteq> experiment_dataset_id x,
           ValueError ''experiment dataset does not match result''),
        (pipeline_strategy_name (experiment_result x) \<noteq> experiment_strategy_name x,
           ValueError ''experiment strategy does not match result''),
        (pipeline_strategy_version (experiment_result x) \<noteq> experiment_strategy_version x,
           ValueError ''experiment strategy version does not match result''),
        (report_horizon (pipeline_evaluation (experiment_result x)) \<noteq> experiment_horizon x,
           ValueError ''experiment horizon does not match result'')])"

record experiment_summary =
  summarized_id :: string
  summarized_created_at :: int
  summarized_dataset_id :: string
  summarized_strategy_name :: string
  summarized_strategy_version :: string
  summarized_fingerprint :: "string option"
  summarized_horizon :: int
  summarized_parameters :: "experiment_parameter list"
  summarized_signals :: int
  summarized_trades :: int
  summarized_net_pnl :: rat
  summarized_return :: rat
  summarized_win_rate :: "rat option"
  summarized_drawdown :: rat
  summarized_profit_factor :: "rat option"
  summarized_benchmark :: benchmark_type
  summarized_benchmark_return :: rat
  excess_return :: rat
  benchmark_drawdown :: rat
  drawdown_delta :: rat
  lower_drawdown :: bool
  summarized_outcome :: comparison_outcome

definition ExperimentSummary :: "experiment_summary \<Rightarrow> experiment_summary result" where
  "ExperimentSummary s = check_fields
     [(''strategy_fingerprint'', fingerprint_ok (summarized_fingerprint s)),
      (''horizon_candles'', 1 \<le> summarized_horizon s), (''generated_signals'', 0 \<le> summarized_signals s),
      (''total_trades'', 0 \<le> summarized_trades s),
      (''win_rate'', case summarized_win_rate s of None \<Rightarrow> True | Some x \<Rightarrow> 0 \<le> x \<and> x \<le> 1),
      (''max_drawdown_fraction'', 0 \<le> summarized_drawdown s),
      (''profit_factor'', case summarized_profit_factor s of None \<Rightarrow> True | Some x \<Rightarrow> 0 \<le> x),
      (''benchmark_max_drawdown_fraction'', 0 \<le> benchmark_drawdown s)] s"

definition summary_from_experiment :: "research_experiment \<Rightarrow> experiment_summary result" where
  "summary_from_experiment x =
     (let r = experiment_result x; p = pipeline_performance r; b = pipeline_benchmark r; c = pipeline_comparison r
      in ExperimentSummary
        \<lparr>summarized_id = experiment_id x, summarized_created_at = experiment_created_at x,
         summarized_dataset_id = experiment_dataset_id x, summarized_strategy_name = experiment_strategy_name x,
         summarized_strategy_version = experiment_strategy_version x,
         summarized_fingerprint = strategy_fingerprint x, summarized_horizon = experiment_horizon x,
         summarized_parameters = experiment_parameters x, summarized_signals = generated_signals r,
         summarized_trades = total_trades p, summarized_net_pnl = report_net_pnl p,
         summarized_return = total_return p, summarized_win_rate = win_rate p,
         summarized_drawdown = max_drawdown_fraction p, summarized_profit_factor = profit_factor p,
         summarized_benchmark = benchmark_kind b, summarized_benchmark_return = total_return (benchmark_report b),
         excess_return = return_delta c, benchmark_drawdown = max_drawdown_fraction (benchmark_report b),
         drawdown_delta = max_drawdown_fraction_delta c, lower_drawdown = strategy_has_lower_drawdown c,
         summarized_outcome = outcome c\<rparr>)"

section \<open>The builder\<close>

definition build_experiment_id ::
  "string \<Rightarrow> string \<Rightarrow> string \<Rightarrow> string option \<Rightarrow> int \<Rightarrow> experiment_parameter list \<Rightarrow> string" where
  "build_experiment_id ds_id name version fingerprint horizon params =
     ''experiment-'' @ digest16 (join ''::''
       [ds_id, name, version,
        (case fingerprint of None \<Rightarrow> ''legacy-unfingerprinted''
         | Some f \<Rightarrow> if f = [] then ''legacy-unfingerprinted'' else f),
        str_int horizon,
        join ''::'' (map (\<lambda>q. parameter_name q @ ''='' @ parameter_value q) (ordered_parameters params))])"

text \<open>\<open>clock\<close> is \<open>datetime.now(UTC)\<close>, read when no creation time is given.\<close>

definition build_experiment ::
  "strategy_registry \<Rightarrow> pipeline_result \<Rightarrow> experiment_parameter list \<Rightarrow> timestamp option \<Rightarrow> int \<Rightarrow> research_experiment result" where
  "build_experiment reg r params created_at clock =
     (let ordered = ordered_parameters params; horizon = report_horizon (pipeline_evaluation r);
          created = (case created_at of Some t \<Rightarrow> t | None \<Rightarrow> Aware clock)
      in bindR (require_strategy reg (pipeline_strategy_name r) (pipeline_strategy_version r)) (\<lambda>d.
         case definition_metadata d of
           None \<Rightarrow> Inl (ValueError ''strategy definition does not publish version metadata'')
         | Some m \<Rightarrow> ResearchExperiment created
             \<lparr>experiment_id = build_experiment_id (pipeline_dataset_id r) (pipeline_strategy_name r)
                (pipeline_strategy_version r) (Some (behavior_fingerprint m)) horizon ordered,
              experiment_created_at = instant created, experiment_dataset_id = pipeline_dataset_id r,
              experiment_strategy_name = pipeline_strategy_name r,
              experiment_strategy_version = pipeline_strategy_version r,
              strategy_fingerprint = Some (behavior_fingerprint m), experiment_horizon = horizon,
              experiment_parameters = ordered, experiment_result = r\<rparr>))"

section \<open>Catalogue queries and the registry\<close>

datatype experiment_sort_field = SORT_CREATED_AT | SORT_HORIZON_CANDLES

record experiment_query =
  wanted_dataset :: "string option"
  wanted_strategy :: "string option"
  wanted_version :: "string option"
  wanted_horizon :: "int option"
  experiments_from :: "int option"
  experiments_to :: "int option"
  experiment_sort :: experiment_sort_field
  experiment_direction :: sort_direction

definition optional_sized :: "nat \<Rightarrow> string option \<Rightarrow> bool" where
  "optional_sized n v = (case v of None \<Rightarrow> True | Some s \<Rightarrow> sized 1 n s)"

definition ExperimentCatalogQuery ::
  "string option \<Rightarrow> string option \<Rightarrow> string option \<Rightarrow> int option \<Rightarrow> timestamp option \<Rightarrow> timestamp option
   \<Rightarrow> experiment_sort_field \<Rightarrow> sort_direction \<Rightarrow> experiment_query result" where
  "ExperimentCatalogQuery ds name version horizon created_from created_to field dir =
     (let q = \<lparr>wanted_dataset = map_option strip ds, wanted_strategy = map_option strip name,
               wanted_version = map_option strip version, wanted_horizon = horizon,
               experiments_from = map_option instant created_from, experiments_to = map_option instant created_to,
               experiment_sort = field, experiment_direction = dir\<rparr>
      in bindR (check_fields
           [(''dataset_id'', optional_sized 100 (wanted_dataset q)),
            (''strategy_name'', optional_sized 100 (wanted_strategy q)),
            (''strategy_version'', optional_sized 30 (wanted_version q)),
            (''horizon_candles'', case horizon of None \<Rightarrow> True | Some h \<Rightarrow> 1 \<le> h),
            (''created_at_from'', time_ok created_from), (''created_at_to'', time_ok created_to)] q)
           (raising [(range_reversed (experiments_from q) (experiments_to q),
              ValueError ''created_at_to must be on or after created_at_from'')]))"

definition default_experiment_query :: experiment_query where
  "default_experiment_query =
     \<lparr>wanted_dataset = None, wanted_strategy = None, wanted_version = None, wanted_horizon = None,
      experiments_from = None, experiments_to = None, experiment_sort = SORT_CREATED_AT,
      experiment_direction = ASCENDING\<rparr>"

definition experiment_matches :: "experiment_query \<Rightarrow> research_experiment \<Rightarrow> bool" where
  "experiment_matches q x \<longleftrightarrow>
     wants (wanted_dataset q) (experiment_dataset_id x) \<and> wants (wanted_strategy q) (experiment_strategy_name x)
     \<and> wants (wanted_version q) (experiment_strategy_version x) \<and> wants (wanted_horizon q) (experiment_horizon x)
     \<and> created_between (experiments_from q) (experiments_to q) (experiment_created_at x)"

type_synonym experiment_store = "(string \<times> research_experiment) list"

definition same_experiment :: "research_experiment \<Rightarrow> research_experiment \<Rightarrow> bool" where
  "same_experiment x y \<longleftrightarrow>
     experiment_dataset_id x = experiment_dataset_id y \<and> experiment_strategy_name x = experiment_strategy_name y
     \<and> experiment_strategy_version x = experiment_strategy_version y
     \<and> strategy_fingerprint x = strategy_fingerprint y \<and> experiment_horizon x = experiment_horizon y
     \<and> experiment_parameters x = experiment_parameters y \<and> experiment_result x = experiment_result y"

definition experiment_save :: "experiment_store \<Rightarrow> research_experiment \<Rightarrow> (experiment_store \<times> research_experiment) result" where
  "experiment_save = keep_first experiment_id same_experiment ''experiment ID already exists with different content''"

definition experiment_get :: "experiment_store \<Rightarrow> string \<Rightarrow> research_experiment option" where
  "experiment_get reg i = map_of reg i"

definition experiment_count :: "experiment_store \<Rightarrow> int" where
  "experiment_count reg = int (length reg)"

definition list_all_experiments :: "experiment_store \<Rightarrow> research_experiment list" where
  "list_all_experiments reg = sort_key (\<lambda>x. (experiment_created_at x, experiment_id x)) (map snd reg)"

definition experiment_filter :: "experiment_store \<Rightarrow> experiment_query \<Rightarrow> research_experiment list" where
  "experiment_filter reg q = filter (experiment_matches q) (map snd reg)"

definition experiment_key :: "experiment_sort_field \<Rightarrow> research_experiment \<Rightarrow> int \<times> string" where
  "experiment_key f x =
     ((case f of SORT_CREATED_AT \<Rightarrow> experiment_created_at x | SORT_HORIZON_CANDLES \<Rightarrow> experiment_horizon x),
      experiment_id x)"

definition experiment_count_matching :: "experiment_store \<Rightarrow> experiment_query \<Rightarrow> int" where
  "experiment_count_matching reg q = int (length (experiment_filter reg q))"

definition experiment_search_page :: "experiment_store \<Rightarrow> experiment_query \<Rightarrow> int \<Rightarrow> int \<Rightarrow> research_experiment list result" where
  "experiment_search_page reg q limit offset = page_slice limit offset
     (py_sorted (experiment_direction q = DESCENDING) (experiment_key (experiment_sort q)) (experiment_filter reg q))"

definition experiment_list_page :: "experiment_store \<Rightarrow> int \<Rightarrow> int \<Rightarrow> research_experiment list result" where
  "experiment_list_page reg limit offset = experiment_search_page reg default_experiment_query limit offset"

section \<open>Comparison\<close>

datatype comparison_metric = EXCESS_RETURN | TOTAL_RETURN | MAX_DRAWDOWN_FRACTION

datatype ranking_direction = HIGHER_IS_BETTER | LOWER_IS_BETTER

definition ExperimentComparisonRequest :: "string list \<Rightarrow> comparison_metric \<Rightarrow> (string list \<times> comparison_metric) result" where
  "ExperimentComparisonRequest ids m = bindR (check_fields
     [(''experiment_ids'', 2 \<le> length ids \<and> length ids \<le> 10 \<and> list_all (has_id_form ''experiment-'' 16) ids)] (ids, m))
     (raising [(\<not> distinct ids, ValueError ''experiment IDs must be unique'')])"

definition metric_value :: "comparison_metric \<Rightarrow> experiment_summary \<Rightarrow> rat" where
  "metric_value m s = (case m of TOTAL_RETURN \<Rightarrow> summarized_return s | MAX_DRAWDOWN_FRACTION \<Rightarrow> summarized_drawdown s
     | EXCESS_RETURN \<Rightarrow> excess_return s)"

definition metric_direction :: "comparison_metric \<Rightarrow> ranking_direction" where
  "metric_direction m = (if m = MAX_DRAWDOWN_FRACTION then LOWER_IS_BETTER else HIGHER_IS_BETTER)"

text \<open>The sign change of a decimal rounds to the context.\<close>

definition metric_key :: "comparison_metric \<Rightarrow> experiment_summary \<Rightarrow> rat \<times> string" where
  "metric_key m s = ((if m = MAX_DRAWDOWN_FRACTION then metric_value m s else dneg (metric_value m s)), summarized_id s)"

record comparison_entry =
  entry_position :: int
  entry_metric :: rat
  entry_experiment :: experiment_summary

definition ExperimentComparisonEntry :: "comparison_entry \<Rightarrow> comparison_entry result" where
  "ExperimentComparisonEntry e = check_fields [(''position'', 1 \<le> entry_position e)] e"

record comparison_result =
  result_dataset_id :: string
  result_horizon :: int
  result_metric :: comparison_metric
  result_direction :: ranking_direction
  compared_experiments :: int
  best_experiment_id :: string
  comparison_entries :: "comparison_entry list"

definition ExperimentComparisonResult :: "comparison_result \<Rightarrow> comparison_result result" where
  "ExperimentComparisonResult r = check_fields
     [(''horizon_candles'', 1 \<le> result_horizon r),
      (''compared_experiments'', 2 \<le> compared_experiments r \<and> compared_experiments r \<le> 10)] r"

definition validate_comparable :: "experiment_summary list \<Rightarrow> unit result" where
  "validate_comparable xs = raising
     [(length xs < 2, ValueError ''at least two experiments are required''),
      (length xs > 10, ValueError ''at most ten experiments can be compared''),
      (card (set (map summarized_id xs)) \<noteq> length xs, ValueError ''experiment IDs must be unique''),
      (card (set (map summarized_dataset_id xs)) \<noteq> 1, ValueError ''experiments must use the same dataset''),
      (card (set (map summarized_horizon xs)) \<noteq> 1,
         ValueError ''experiments must use the same evaluation horizon'')] ()"

definition compare_experiments :: "experiment_summary list \<Rightarrow> comparison_metric \<Rightarrow> comparison_result result" where
  "compare_experiments xs m =
     bindR (validate_comparable xs) (\<lambda>_.
     let ordered = sort_key (metric_key m) xs
     in bindR (mapR (\<lambda>(n, x). ExperimentComparisonEntry
             \<lparr>entry_position = n, entry_metric = metric_value m x, entry_experiment = x\<rparr>)
           (enumerate_from 1 ordered)) (\<lambda>entries.
        if ordered = [] then Inl OutOfRange
        else ExperimentComparisonResult
          \<lparr>result_dataset_id = summarized_dataset_id (hd ordered), result_horizon = summarized_horizon (hd ordered),
           result_metric = m, result_direction = metric_direction m, compared_experiments = int (length ordered),
           best_experiment_id = summarized_id (hd ordered), comparison_entries = entries\<rparr>))"


section \<open>What a pipeline result gives an experiment\<close>

lemma ordered_parameters_idem [simp]: "ordered_parameters (ordered_parameters ps) = ordered_parameters ps"
  by (simp add: ordered_parameters_def sort_key_id_if_sorted)

lemma distinct_ordered: "distinct (map parameter_name (ordered_parameters ps)) \<longleftrightarrow> distinct (map parameter_name ps)"
  by (intro mset_eq_imp_distinct_iff) (simp add: ordered_parameters_def)

lemma ordered_parameters_perm: "mset ps = mset qs \<Longrightarrow> ordered_parameters ps = ordered_parameters qs"
  unfolding ordered_parameters_def by (intro sort_key_perm) (auto simp: inj_on_def)

lemma analyze_fields: "analyze i d es cfg = Inr p \<Longrightarrow> \<forall>(n, ok) \<in> set (report_fields p). ok"
  unfolding analyze_def Let_def
  by (auto simp: bindR_Inr_iff BacktestPerformanceReport_def check_fields_Inr_iff validate_report_def raising_Inr_iff
      split: if_splits)

lemma pipeline_facts:
  assumes "run_with_signals payload ds name version sigs h config = Inr r"
  shows "pipeline_dataset_id r = dataset_id ds" "pipeline_strategy_name r = name" "pipeline_strategy_version r = version"
    "report_horizon (pipeline_evaluation r) = h" "1 \<le> h" "0 \<le> generated_signals r"
    "\<forall>(n, ok) \<in> set (report_fields (pipeline_performance r)). ok"
    "\<forall>(n, ok) \<in> set (report_fields (benchmark_report (pipeline_benchmark r))). ok"
    "pipeline_config r = effective_config config"
proof -
  obtain ev es p b c where ev: "evaluate_signals ds sigs h = Inr ev"
      and p: "analyze (build_research_backtest_run_id (dataset_id ds) name version payload (map signal_id sigs))
          (dataset_id ds) es (effective_config config) = Inr p"
      and b: "run_buy_and_hold payload ds (effective_config config) = Inr b"
      and fields: "pipeline_dataset_id r = dataset_id ds" "pipeline_strategy_name r = name"
        "pipeline_strategy_version r = version" "pipeline_evaluation r = ev" "pipeline_performance r = p"
        "pipeline_benchmark r = b" "generated_signals r = int (length sigs)"
        "pipeline_config r = effective_config config"
    using assms unfolding run_with_signals_def Let_def
    by (auto simp: bindR_Inr_iff ResearchPipelineResult_def check_fields_Inr_iff validate_pipeline_result_def
        raising_Inr_iff)
  show "pipeline_dataset_id r = dataset_id ds" "pipeline_strategy_name r = name" "pipeline_strategy_version r = version"
    "0 \<le> generated_signals r" "pipeline_config r = effective_config config" using fields by simp_all
  show "report_horizon (pipeline_evaluation r) = h" "1 \<le> h"
    using ev fields unfolding evaluate_signals_def
    by (auto simp: bindR_Inr_iff Let_def SignalEvaluationReport_def check_fields_Inr_iff raising_Inr_iff
        split: if_splits)
  show "\<forall>(n, ok) \<in> set (report_fields (pipeline_performance r)). ok" using analyze_fields [OF p] fields by simp
  obtain es' where "analyze (build_benchmark_run_id (dataset_id ds) payload) (dataset_id ds) es' (effective_config config)
      = Inr (benchmark_report b)"
    using b by (auto simp: run_buy_and_hold_def Let_def bindR_Inr_iff BenchmarkResult_def check_fields_Inr_iff
        validate_benchmark_def raising_Inr_iff)
  then show "\<forall>(n, ok) \<in> set (report_fields (benchmark_report (pipeline_benchmark r))). ok"
    using analyze_fields fields by simp
qed


lemma default_require_fingerprint:
  assumes "build_default_strategy_registry = Inr reg" "require_strategy reg name version = Inr d"
  obtains m where "definition_metadata d = Some m" "has_id_form ''sha256:'' 64 (behavior_fingerprint m)"
  using default_require(1) [OF assms] by (auto simp: made_by_def split: option.splits)

text \<open>Any result of the pipeline for a strategy of the default registry can be recorded and summarized.\<close>

definition recorded_as ::
  "strategy_registry \<Rightarrow> pipeline_result \<Rightarrow> experiment_parameter list \<Rightarrow> timestamp option \<Rightarrow> int \<Rightarrow> string
   \<Rightarrow> research_experiment" where
  "recorded_as reg r params created_at clock f =
     \<lparr>experiment_id = build_experiment_id (pipeline_dataset_id r) (pipeline_strategy_name r)
        (pipeline_strategy_version r) (Some f) (report_horizon (pipeline_evaluation r)) (ordered_parameters params),
      experiment_created_at = instant (case created_at of Some t \<Rightarrow> t | None \<Rightarrow> Aware clock),
      experiment_dataset_id = pipeline_dataset_id r, experiment_strategy_name = pipeline_strategy_name r,
      experiment_strategy_version = pipeline_strategy_version r, strategy_fingerprint = Some f,
      experiment_horizon = report_horizon (pipeline_evaluation r), experiment_parameters = ordered_parameters params,
      experiment_result = r\<rparr>"

lemma experiment_built:
  assumes "build_default_strategy_registry = Inr reg" "require_strategy reg name version = Inr d"
    and "run_with_signals payload ds name version sigs h config = Inr r" "distinct (map parameter_name params)"
  obtains f where "fingerprint_ok (Some f)"
    "\<And>created_at clock. created_at = None \<or> aware (the created_at) \<Longrightarrow>
      build_experiment reg r params created_at clock = Inr (recorded_as reg r params created_at clock f)"
proof -
  obtain m where m: "definition_metadata d = Some m" "has_id_form ''sha256:'' 64 (behavior_fingerprint m)"
    using default_require_fingerprint [OF assms(1,2)] .
  note r = pipeline_facts [OF assms(3)]
  have id: "has_id_form ''experiment-'' 16 (build_experiment_id a b c e n ps)" for a b c e n ps
    unfolding build_experiment_id_def has_id_form_append by simp
  have "build_experiment reg r params created_at clock
      = Inr (recorded_as reg r params created_at clock (behavior_fingerprint m))"
    if "created_at = None \<or> aware (the created_at)" for created_at clock
    using that m r(1-5) id assms(2,4)
    by (auto simp: build_experiment_def recorded_as_def ResearchExperiment_def check_fields_Inr_iff raising_Inr_iff
        bindR_Inr_iff Let_def fingerprint_ok_def distinct_ordered split: option.splits)
  with that [of "behavior_fingerprint m"] m(2) show thesis by (simp add: fingerprint_ok_def)
qed

lemma summary_exists:
  assumes "run_with_signals payload ds name version sigs h config = Inr r" "fingerprint_ok (Some f)"
  shows "\<exists>s. summary_from_experiment (recorded_as reg r params created_at clock f) = Inr s
    \<and> ExperimentSummary s = Inr s \<and> summarized_id s = experiment_id (recorded_as reg r params created_at clock f)
    \<and> summarized_return s = total_return (pipeline_performance r)
    \<and> summarized_outcome s = outcome (pipeline_comparison r)"
  using pipeline_facts [OF assms(1)] assms(2)
  by (simp add: summary_from_experiment_def Let_def ExperimentSummary_def check_fields_Inr_iff recorded_as_def
      report_fields_def)

section \<open>The registry\<close>

interpretation experiments: first_write_store "keyed experiment_id" experiment_id same_experiment experiment_save map_of
  unfolding experiment_save_def by (rule keep_first_store)

section \<open>Comparing\<close>

definition comparable :: "experiment_summary list \<Rightarrow> bool" where
  "comparable xs \<longleftrightarrow> distinct (map summarized_id xs)
     \<and> (\<forall>x \<in> set xs. summarized_dataset_id x = summarized_dataset_id (hd xs)
          \<and> summarized_horizon x = summarized_horizon (hd xs))"

lemma validate_comparable_iff:
  "validate_comparable xs = Inr () \<longleftrightarrow> 2 \<le> length xs \<and> length xs \<le> 10 \<and> comparable xs"
proof (cases "xs = []")
  case False
  then show ?thesis
    unfolding validate_comparable_def raising_Inr_iff comparable_def
    by (simp only: list.set ball_simps prod.case card_map_eq_length card_map_eq_one) (simp add: not_less, blast)
qed (simp add: validate_comparable_def raising.simps)

lemma metric_key_inj: "distinct (map summarized_id xs) \<Longrightarrow> inj_on (metric_key m) (set xs)"
  by (auto simp: metric_key_def distinct_map inj_on_def)

text \<open>The summaries in the order of the metric, ties by identifier.\<close>

lemma compare_experiments_Inr_iff:
  "compare_experiments xs m = Inr c \<longleftrightarrow> 2 \<le> length xs \<and> length xs \<le> 10 \<and> comparable xs
     \<and> 1 \<le> summarized_horizon (hd xs)
     \<and> c = (let ordered = sort_key (metric_key m) xs in
         \<lparr>result_dataset_id = summarized_dataset_id (hd ordered), result_horizon = summarized_horizon (hd ordered),
          result_metric = m, result_direction = metric_direction m, compared_experiments = int (length ordered),
          best_experiment_id = summarized_id (hd ordered),
          comparison_entries = map (\<lambda>(n, x). \<lparr>entry_position = n, entry_metric = metric_value m x,
            entry_experiment = x\<rparr>) (enumerate_from 1 ordered)\<rparr>)"
proof (cases "2 \<le> length xs \<and> length xs \<le> 10 \<and> comparable xs")
  case True
  define ordered where "ordered = sort_key (metric_key m) xs"
  have ne: "xs \<noteq> []" "ordered \<noteq> []" and len: "length ordered = length xs"
    using True by (auto simp: ordered_def simp flip: length_0_conv)
  have "mapR (\<lambda>(n, x). ExperimentComparisonEntry
      \<lparr>entry_position = n, entry_metric = metric_value m x, entry_experiment = x\<rparr>) (enumerate_from 1 ordered)
    = Inr (map (\<lambda>(n, x). \<lparr>entry_position = n, entry_metric = metric_value m x, entry_experiment = x\<rparr>)
        (enumerate_from 1 ordered))"
    by (rule mapR_total) (auto simp: ExperimentComparisonEntry_def check_fields_Inr_iff dest: enumerate_from_late)
  moreover have "summarized_horizon (hd ordered) = summarized_horizon (hd xs)"
    using True sort_key_first(1) [OF ne(1), of "metric_key m"] by (auto simp: comparable_def ordered_def)
  ultimately show ?thesis
    using True validate_comparable_iff [of xs] ne(2) len
    by (auto simp: compare_experiments_def Let_def ordered_def [symmetric] ExperimentComparisonResult_def
        check_fields_Inr_iff)
qed (use validate_comparable_iff [of xs] in \<open>auto simp: compare_experiments_def bindR_Inr_iff\<close>)

lemma comparable_perm:
  assumes "mset ys = mset xs" shows "comparable ys \<longleftrightarrow> comparable xs"
proof -
  have set: "set ys = set xs" using assms by (rule mset_eq_setD)
  have "mset (map summarized_id ys) = mset (map summarized_id xs)" using assms by simp
  then have ids: "distinct (map summarized_id ys) \<longleftrightarrow> distinct (map summarized_id xs)"
    by (rule mset_eq_imp_distinct_iff)
  show ?thesis
  proof (cases "xs = []")
    case False
    then have hd: "hd xs \<in> set xs" "hd ys \<in> set xs" using assms by (simp, metis hd_in_set mset_zero_iff set)
    have same: "(\<forall>x \<in> set xs. k x = k (hd ys)) \<longleftrightarrow> (\<forall>x \<in> set xs. k x = k (hd xs))" for k :: "experiment_summary \<Rightarrow> 'k"
    proof
      show "\<forall>x \<in> set xs. k x = k (hd xs)" if "\<forall>x \<in> set xs. k x = k (hd ys)" using bspec [OF that hd(1)] that by simp
      show "\<forall>x \<in> set xs. k x = k (hd ys)" if "\<forall>x \<in> set xs. k x = k (hd xs)" using bspec [OF that hd(2)] that by simp
    qed
    show ?thesis
      unfolding comparable_def ids set ball_conj_distrib same [of summarized_dataset_id] same [of summarized_horizon] ..
  qed (use assms in simp)
qed

section \<open>Properties\<close>

text \<open>
  C33: every result of the research pipeline for a strategy of the default registry, with distinct parameter
  names, can be recorded as an experiment and summarized, and the record holds that result and its
  parameters in order. Recording the same result again, at another time and with the parameters in another
  order, finds the stored record again and changes nothing.
\<close>

theorem experiment_recorded:
  assumes "build_default_strategy_registry = Inr reg" "require_strategy reg name version = Inr d"
    and "run_with_signals payload ds name version sigs h config = Inr r"
    and "distinct (map parameter_name params)" "mset params' = mset params"
  shows "\<exists>x s x'. build_experiment reg r params (Some (Aware t)) clock = Inr x
    \<and> experiment_result x = r \<and> experiment_parameters x = ordered_parameters params \<and> experiment_created_at x = t
    \<and> summary_from_experiment x = Inr s \<and> summarized_return s = total_return (pipeline_performance r)
    \<and> build_experiment reg r params' None clock' = Inr x'
    \<and> (\<forall>store store' y. keyed experiment_id store \<longrightarrow> experiment_save store x = Inr (store', y) \<longrightarrow>
         experiment_get store' (experiment_id x) = Some y \<and> experiment_save store' x' = Inr (store', y))"
proof -
  obtain f where f: "fingerprint_ok (Some f)" and built: "\<And>created_at clock. created_at = None \<or> aware (the created_at) \<Longrightarrow>
      build_experiment reg r params created_at clock = Inr (recorded_as reg r params created_at clock f)"
    using experiment_built [OF assms(1-4)] by blast
  let ?x = "recorded_as reg r params (Some (Aware t)) clock f" and ?x' = "recorded_as reg r params None clock' f"
  have x': "build_experiment reg r params' None clock' = Inr ?x'"
    using built [of None clock'] by (simp add: build_experiment_def ordered_parameters_perm [OF assms(5)])
  have "same_experiment y ?x'" if "y = ?x \<or> same_experiment y ?x" for y
    using that by (auto simp: same_experiment_def recorded_as_def)
  moreover have "experiment_id ?x' = experiment_id ?x" by (simp add: recorded_as_def)
  ultimately have "experiment_get store' (experiment_id ?x) = Some y \<and> experiment_save store' ?x' = Inr (store', y)"
    if "keyed experiment_id store" "experiment_save store ?x = Inr (store', y)" for store store' y
    using experiments.stored [OF that] experiments.store_again [OF that] by (auto simp: experiment_get_def)
  moreover obtain s where "summary_from_experiment ?x = Inr s" "summarized_return s = total_return (pipeline_performance r)"
    using summary_exists [OF assms(3) f] by blast
  moreover have "experiment_result ?x = r" "experiment_parameters ?x = ordered_parameters params"
    "experiment_created_at ?x = t" by (simp_all add: recorded_as_def)
  ultimately show ?thesis using built [of "Some (Aware t)" clock] x' by (intro exI [of _ ?x] exI [of _ s] exI [of _ ?x']) simp
qed

text \<open>A run of the pipeline on three candles, without signals.\<close>

lemma sample_research:
  "\<exists>r. run_with_signals ''{}'' (sample_dataset [10, 10, 12]) ''ema-crossover'' ''1.0.0'' [] 1
     (Some \<lparr>starting_balance = 1000, allocation_fraction = 1 / 2, fee_rate = 1 / 1000, slippage_rate = 0\<rparr>) = Inr r"
proof -
  let ?ds = "sample_dataset [10, 10, 12]"
  let ?cfg = "\<lparr>starting_balance = 1000, allocation_fraction = 1 / 2, fee_rate = 1 / 1000, slippage_rate = 0\<rparr> :: backtest_config"
  have ds: "research_dataset ?ds" "strip (dataset_id ?ds) \<noteq> []"
    by (simp_all add: research_dataset_def strip_Nil_iff is_space_def)
  have cfg: "valid_config ?cfg" by (simp add: valid_config_def config_fields_def)
  have eff: "effective_config (Some ?cfg) = ?cfg" by (simp add: effective_config_def)
  have sigs: "pipeline_input ?ds ''ema-crossover'' ''1.0.0'' []"
    by (simp add: pipeline_input_def signals_for_def strip_Nil_iff is_space_def)
  obtain bs where bs: "buy_and_hold_events (build_benchmark_run_id (dataset_id ?ds) ''{}'') ?ds ?cfg = Inr bs"
      "map event_price bs = [10, 12]" "map event_quantity bs = [50, 50]"
    using buy_and_hold_log [OF ds(1) cfg, of "build_benchmark_run_id (dataset_id ?ds) ''{}''"]
    by (auto simp: sample_candles dec_eval)
  then have "money_fits 1000 ?cfg bs" by (auto simp: money_fits_def traded_value_def on_grid_def)
  moreover have "money_fits 1000 ?cfg []" by (simp add: money_fits_def on_grid_def)
  moreover have "run_backtest (build_research_backtest_run_id (dataset_id ?ds) ''ema-crossover'' ''1.0.0'' ''{}''
      (map signal_id [])) ?ds [] ?cfg = Inr []"
    using research_run_id(2)
    by (simp add: run_backtest_def validate_signals_def schedule_signals_def raising.simps initial_run_def run_step_def
        sample_candles Let_def)
  ultimately show ?thesis
    using pipeline_runs [where config = "Some ?cfg", unfolded eff, OF ds order_refl sigs cfg _ _ bs(1)] by blast
qed

theorem experiment_recorded_witness:
  "\<exists>reg r x store. build_default_strategy_registry = Inr reg
     \<and> build_experiment reg r [\<lparr>parameter_name = ''b'', parameter_value = ''2''\<rparr>, \<lparr>parameter_name = ''a'', parameter_value = ''1''\<rparr>]
         (Some (Aware 5)) 9 = Inr x
     \<and> experiment_save [] x = Inr (store, x) \<and> length store = 1
     \<and> map parameter_name (experiment_parameters x) = [''a'', ''b'']"
proof -
  let ?a = "\<lparr>parameter_name = ''a'', parameter_value = ''1''\<rparr> :: experiment_parameter"
  let ?b = "\<lparr>parameter_name = ''b'', parameter_value = ''2''\<rparr> :: experiment_parameter"
  obtain r where r: "run_with_signals ''{}'' (sample_dataset [10, 10, 12]) ''ema-crossover'' ''1.0.0'' [] 1
     (Some \<lparr>starting_balance = 1000, allocation_fraction = 1 / 2, fee_rate = 1 / 1000, slippage_rate = 0\<rparr>) = Inr r"
    using sample_research ..
  obtain reg where reg: "build_default_strategy_registry = Inr reg" using default_registry by blast
  have "default_strategies ! 0 \<in> set default_strategies" "fst (default_strategies ! 0) = ''ema-crossover''"
    by (simp_all add: default_strategies_def)
  then obtain d where d: "require_strategy reg ''ema-crossover'' ''1.0.0'' = Inr d"
    using default_require(2) [OF reg] by metis
  have "mset [?a, ?b] = mset [?b, ?a]" by simp
  then obtain x where x: "build_experiment reg r [?b, ?a] (Some (Aware 5)) 9 = Inr x"
      "experiment_parameters x = ordered_parameters [?b, ?a]"
    using experiment_recorded [OF reg d r, of "[?b, ?a]" "[?a, ?b]" 5 9 10] by auto
  moreover have "experiment_save [] x = Inr ([(experiment_id x, x)], x)"
    by (simp add: experiment_save_def keep_first_def)
  moreover have "map parameter_name (ordered_parameters [?b, ?a]) = [''a'', ''b'']" by code_simp
  ultimately show ?thesis using reg by fastforce
qed

text \<open>
  C34: comparing experiments of one dataset and horizon ranks exactly the experiments it was given, numbered
  from one: by falling total or excess return, or by growing drawdown. The named best experiment is the
  first, and the result does not depend on the order in which the experiments are given.
\<close>

theorem comparison_ranks:
  assumes "compare_experiments xs m = Inr c" "\<forall>x \<in> set xs. dround (metric_value m x) = metric_value m x"
  shows "mset (map entry_experiment (comparison_entries c)) = mset xs
    \<and> map entry_position (comparison_entries c) = map fst (enumerate_from 1 xs)
    \<and> (\<forall>e \<in> set (comparison_entries c). entry_metric e = metric_value m (entry_experiment e))
    \<and> sorted_wrt (\<lambda>e f. if m = MAX_DRAWDOWN_FRACTION then entry_metric e \<le> entry_metric f else entry_metric f \<le> entry_metric e)
        (comparison_entries c)
    \<and> best_experiment_id c = summarized_id (entry_experiment (hd (comparison_entries c)))
    \<and> (\<forall>ys. mset ys = mset xs \<longrightarrow> compare_experiments ys m = Inr c)"
proof -
  define ordered where "ordered = sort_key (metric_key m) xs"
  define entry where "entry = (\<lambda>(n, x). \<lparr>entry_position = n, entry_metric = metric_value m x, entry_experiment = x\<rparr>)"
  have ok: "2 \<le> length xs" "length xs \<le> 10" "comparable xs" "1 \<le> summarized_horizon (hd xs)"
    and c: "comparison_entries c = map entry (enumerate_from 1 ordered)"
      "best_experiment_id c = summarized_id (hd ordered)"
    using assms(1) by (simp_all add: compare_experiments_Inr_iff Let_def ordered_def entry_def)
  have shape: "length ordered = length xs" "set ordered = set xs" "ordered \<noteq> []"
    using ok(1) by (auto simp: ordered_def simp flip: length_0_conv)
  have exps: "map entry_experiment (comparison_entries c) = ordered"
    unfolding c by (simp add: entry_def comp_def case_prod_unfold enumerate_seconds)
  have pos: "map entry_position (comparison_entries c) = map fst (enumerate_from 1 xs)"
    unfolding c by (simp add: entry_def comp_def case_prod_unfold enumerate_from_def shape(1))
  have metric: "entry_metric e = metric_value m (entry_experiment e)" if "e \<in> set (comparison_entries c)" for e
    using that by (auto simp: c entry_def)
  have "sorted (map (metric_key m \<circ> entry_experiment) (comparison_entries c))"
    using sorted_sort_key [of "metric_key m" xs] exps by (simp add: ordered_def flip: map_map)
  then have "sorted_wrt (\<lambda>e f. metric_key m (entry_experiment e) \<le> metric_key m (entry_experiment f)) (comparison_entries c)"
    by (simp add: sorted_map comp_def)
  then have sorted: "sorted_wrt (\<lambda>e f. if m = MAX_DRAWDOWN_FRACTION then entry_metric e \<le> entry_metric f
      else entry_metric f \<le> entry_metric e) (comparison_entries c)"
  proof (rule sorted_wrt_mono_rel [rotated])
    fix e f assume e: "e \<in> set (comparison_entries c)" and f: "f \<in> set (comparison_entries c)"
      and le: "metric_key m (entry_experiment e) \<le> metric_key m (entry_experiment f)"
    have "entry_experiment e \<in> set xs" "entry_experiment f \<in> set xs"
      using e f exps shape(2) by (metis image_eqI list.set_map)+
    then show "if m = MAX_DRAWDOWN_FRACTION then entry_metric e \<le> entry_metric f else entry_metric f \<le> entry_metric e"
      using le metric [OF e] metric [OF f] assms(2)
      by (auto simp: metric_key_def dneg_def dround_minus less_eq_prod_def split: if_splits)
  qed
  have "hd ordered = entry_experiment (hd (comparison_entries c))"
    using exps shape(3) by (metis hd_map list.map_disc_iff)
  moreover have "compare_experiments ys m = Inr c" if "mset ys = mset xs" for ys
  proof -
    have ys: "set ys = set xs" "length ys = length xs" using that by (auto dest: mset_eq_setD mset_eq_length)
    have "inj_on (metric_key m) (set xs)" using ok(3) metric_key_inj by (simp add: comparable_def)
    then have "sort_key (metric_key m) ys = ordered" using sort_key_perm [OF that] by (simp add: ordered_def)
    moreover have "hd ys \<in> set xs" using ys ok(1) by (metis hd_in_set length_0_conv not_numeral_le_zero)
    then have "summarized_horizon (hd ys) = summarized_horizon (hd xs)" using ok(3) by (simp add: comparable_def)
    ultimately show ?thesis
      using assms(1) ok comparable_perm [OF that] ys(2)
      by (simp add: compare_experiments_Inr_iff [of ys] compare_experiments_Inr_iff [of xs] ordered_def Let_def)
  qed
  ultimately show ?thesis using exps pos metric sorted c(2) by (simp add: ordered_def)
qed

definition sample_summary :: "string \<Rightarrow> rat \<Rightarrow> experiment_summary" where
  "sample_summary i v =
     \<lparr>summarized_id = i, summarized_created_at = 0, summarized_dataset_id = ''d'', summarized_strategy_name = ''s'',
      summarized_strategy_version = ''1'', summarized_fingerprint = None, summarized_horizon = 1,
      summarized_parameters = [], summarized_signals = 0, summarized_trades = 0, summarized_net_pnl = 0,
      summarized_return = v, summarized_win_rate = None, summarized_drawdown = 0, summarized_profit_factor = None,
      summarized_benchmark = BUY_AND_HOLD, summarized_benchmark_return = 0, excess_return = v,
      benchmark_drawdown = 0, drawdown_delta = 0, lower_drawdown = False, summarized_outcome = OUTCOME_TIE\<rparr>"

lemma sample_comparison:
  "\<exists>c. compare_experiments [sample_summary ''a'' 1, sample_summary ''b'' 2] TOTAL_RETURN = Inr c"
  by (simp add: compare_experiments_Inr_iff comparable_def sample_summary_def)

theorem comparison_ranks_witness:
  "\<exists>c. compare_experiments [sample_summary ''a'' 1, sample_summary ''b'' 2] TOTAL_RETURN = Inr c
     \<and> compare_experiments [sample_summary ''b'' 2, sample_summary ''a'' 1] TOTAL_RETURN = Inr c
     \<and> map entry_metric (comparison_entries c) = [2, 1]"
proof -
  let ?xs = "[sample_summary ''a'' 1, sample_summary ''b'' 2]"
  obtain c where c: "compare_experiments ?xs TOTAL_RETURN = Inr c" using sample_comparison ..
  have "\<forall>x \<in> set ?xs. dround (metric_value TOTAL_RETURN x) = metric_value TOTAL_RETURN x"
    using dc.rnd_int [of 2] dc.rnd_one by (simp add: metric_value_def sample_summary_def)
  then have ms: "mset (map entry_experiment (comparison_entries c)) = mset ?xs"
    and vals: "\<forall>e \<in> set (comparison_entries c). entry_metric e = metric_value TOTAL_RETURN (entry_experiment e)"
    and desc: "sorted_wrt (\<lambda>e f. entry_metric f \<le> entry_metric e) (comparison_entries c)"
    and perm: "mset ys = mset ?xs \<Longrightarrow> compare_experiments ys TOTAL_RETURN = Inr c" for ys
    using comparison_ranks [OF c] by simp_all
  have "map entry_metric (comparison_entries c) = map (metric_value TOTAL_RETURN) (map entry_experiment (comparison_entries c))"
    using vals by simp
  then have "mset (map entry_metric (comparison_entries c)) = image_mset (metric_value TOTAL_RETURN) (mset ?xs)"
    by (metis ms mset_map)
  then have two: "mset (map entry_metric (comparison_entries c)) = {#1, 2#}"
    by (simp add: metric_value_def sample_summary_def)
  obtain a b where ab: "map entry_metric (comparison_entries c) = [a, b]"
  proof -
    have "length (map entry_metric (comparison_entries c)) = size {#1, 2 :: rat#}" using two by (metis size_mset)
    then show thesis using that by (auto simp: length_Suc_conv eval_nat_numeral)
  qed
  have "sorted_wrt (\<lambda>x y. y \<le> x) (map entry_metric (comparison_entries c))" using desc by (simp add: sorted_wrt_map)
  then have "b \<le> a" "{#a, b#} = {#1, 2#}" using two unfolding ab by simp_all
  then have "a = 2 \<and> b = 1" by (auto simp: add_eq_conv_diff split: if_splits)
  then show ?thesis using c ab perm [of "[sample_summary ''b'' 2, sample_summary ''a'' 1]"] by simp
qed

end
