(* ===== verification/Walk_Forward_Execution.thy ===== *)
theory Walk_Forward_Execution imports Walk_Forward Experiments
begin

text \<open>
  Walk-forward validation (\<open>trd_bot/research/walk_forward.py\<close>), second half: the executor runs a
  strategy on each test fold candle by candle, always with the candles up to the current one only, and
  sends the signals through the research pipeline; a run can resume from completed folds. The JSON text
  of a backtest configuration is an argument, as in the pipeline.
\<close>

section \<open>Executing a strategy on the folds\<close>

record fold_execution =
  executed_split_id :: string
  executed_fold_number :: int
  executed_dataset_id :: string
  executed_result :: pipeline_result

definition WalkForwardFoldExecution :: "fold_execution \<Rightarrow> fold_execution result" where
  "WalkForwardFoldExecution x = bindR (check_fields
     [(''split_id'', has_id_form ''walk-forward-split-'' 16 (executed_split_id x)),
      (''fold_number'', 1 \<le> executed_fold_number x), (''test_dataset_id'', 1 \<le> length (executed_dataset_id x))] x)
     (raising [(pipeline_dataset_id (executed_result x) \<noteq> executed_dataset_id x,
        ValueError ''fold result dataset does not match test dataset'')])"

definition rebase_signal :: "strategy_signal \<Rightarrow> snapshot \<Rightarrow> strategy_signal result" where
  "rebase_signal s test = StrategySignal
     (s\<lparr>signal_id := build_signal_id (signal_strategy_name s) (signal_strategy_version s) (dataset_id test)
                       (candle_close_time s) (direction s),
        signal_dataset_id := dataset_id test\<rparr>)"

definition single_test_signal :: "snapshot \<Rightarrow> strategy_signal list \<Rightarrow> strategy_signal option result" where
  "single_test_signal test current_signals =
     (case current_signals of
        [] \<Rightarrow> Inr None
      | [s] \<Rightarrow> bindR (rebase_signal s test) (\<lambda>s'. Inr (Some s'))
      | _ \<Rightarrow> Inl (ValueError ''strategy produced multiple signals for one test candle''))"

text \<open>The loop body: the strategy sees the candles from the start of training to the current one.\<close>

definition test_signal ::
  "snapshot \<Rightarrow> wf_split \<Rightarrow> (dataset \<Rightarrow> strategy_signal list result) \<Rightarrow> int \<Rightarrow> strategy_signal option result" where
  "test_signal ds split generate i =
     bindR (py_nth (candles ds) i) (\<lambda>current.
     bindR (build_slice ds (''walk-forward fold '' @ str_int (fold_number (split_fold split)) @ '' context '' @ str_int i)
              (train_start_index (split_fold split)) (i + 1)) (\<lambda>context.
     bindR (generate (dataset.truncate context)) (\<lambda>sigs.
       single_test_signal (test_dataset split)
         (filter (\<lambda>s. candle_open_time s = open_time current \<and> candle_close_time s = close_time current) sigs))))"

definition generate_test_signals ::
  "snapshot \<Rightarrow> wf_split \<Rightarrow> (dataset \<Rightarrow> strategy_signal list result) \<Rightarrow> strategy_signal list result" where
  "generate_test_signals ds split generate =
     collectR (test_signal ds split generate)
       [test_start_index (split_fold split)..test_end_index (split_fold split) - 1]"

definition execute_fold ::
  "string \<Rightarrow> snapshot \<Rightarrow> signal_text \<Rightarrow> (dataset \<Rightarrow> strategy_signal list result) \<Rightarrow> int \<Rightarrow> backtest_config
   \<Rightarrow> wf_split \<Rightarrow> fold_execution result" where
  "execute_fold payload ds lbl generate horizon cfg split =
     bindR (generate_test_signals ds split generate) (\<lambda>sigs.
     bindR (run_with_signals payload (dataset.truncate (test_dataset split)) (strategy_name lbl)
              (strategy_version lbl) sigs horizon (Some cfg)) (\<lambda>r.
     WalkForwardFoldExecution
       \<lparr>executed_split_id = split_id split, executed_fold_number = fold_number (split_fold split),
        executed_dataset_id = dataset_id (test_dataset split), executed_result = r\<rparr>))"

record execution_summary =
  total_folds :: int
  total_fold_signals :: int
  folds_with_trades :: int
  strategy_wins :: int
  benchmark_wins :: int
  ties :: int
  average_strategy_return :: rat
  average_benchmark_return :: rat
  average_excess_return :: rat
  worst_max_drawdown_fraction :: rat

definition WalkForwardExecutionSummary :: "execution_summary \<Rightarrow> execution_summary result" where
  "WalkForwardExecutionSummary s = bindR (check_fields
     [(''total_folds'', 1 \<le> total_folds s), (''total_signals'', 0 \<le> total_fold_signals s),
      (''folds_with_trades'', 0 \<le> folds_with_trades s), (''strategy_wins'', 0 \<le> strategy_wins s),
      (''benchmark_wins'', 0 \<le> benchmark_wins s), (''ties'', 0 \<le> ties s),
      (''worst_max_drawdown_fraction'', 0 \<le> worst_max_drawdown_fraction s)] s)
     (raising
       [(folds_with_trades s > total_folds s, ValueError ''folds with trades cannot exceed total folds''),
        (strategy_wins s + benchmark_wins s + ties s \<noteq> total_folds s,
           ValueError ''comparison outcomes must equal total folds''),
        (average_excess_return s \<noteq> dsub (average_strategy_return s) (average_benchmark_return s),
           ValueError ''average excess return is inconsistent'')])"

definition count_folds :: "(pipeline_result \<Rightarrow> bool) \<Rightarrow> fold_execution list \<Rightarrow> int" where
  "count_folds P xs = int (length (filter (\<lambda>x. P (executed_result x)) xs))"

definition summarize_folds :: "fold_execution list \<Rightarrow> execution_summary result" where
  "summarize_folds xs =
     (let strategy_returns = map (\<lambda>x. total_return (pipeline_performance (executed_result x))) xs;
          benchmark_returns = map (\<lambda>x. total_return (benchmark_report (pipeline_benchmark (executed_result x)))) xs
      in bindR (ddiv (dsum strategy_returns) (of_nat (length xs))) (\<lambda>avg_strategy.
         bindR (ddiv (dsum benchmark_returns) (of_nat (length xs))) (\<lambda>avg_benchmark.
         WalkForwardExecutionSummary
           \<lparr>total_folds = int (length xs),
            total_fold_signals = sum_list (map (\<lambda>x. generated_signals (executed_result x)) xs),
            folds_with_trades = count_folds (\<lambda>r. total_trades (pipeline_performance r) > 0) xs,
            strategy_wins = count_folds (\<lambda>r. outcome (pipeline_comparison r) = OUTCOME_STRATEGY) xs,
            benchmark_wins = count_folds (\<lambda>r. outcome (pipeline_comparison r) = OUTCOME_BENCHMARK) xs,
            ties = count_folds (\<lambda>r. outcome (pipeline_comparison r) = OUTCOME_TIE) xs,
            average_strategy_return = avg_strategy, average_benchmark_return = avg_benchmark,
            average_excess_return = dsub avg_strategy avg_benchmark,
            worst_max_drawdown_fraction =
              max_default 0 (map (\<lambda>x. max_drawdown_fraction (pipeline_performance (executed_result x))) xs)\<rparr>)))"

record wf_execution =
  execution_id :: string
  execution_source_id :: string
  execution_plan_id :: string
  execution_strategy_name :: string
  execution_strategy_version :: string
  strategy_parameters :: "experiment_parameter list"
  execution_horizon :: int
  execution_config :: backtest_config
  fold_results :: "fold_execution list"
  execution_summary :: execution_summary

definition build_walk_forward_execution_id ::
  "string \<Rightarrow> string \<Rightarrow> string \<Rightarrow> experiment_parameter list \<Rightarrow> int \<Rightarrow> string \<Rightarrow> string list \<Rightarrow> string" where
  "build_walk_forward_execution_id plan name version params horizon payload run_ids =
     ''walk-forward-execution-'' @ digest16 (join ''::''
       [plan, name, version,
        join ''::'' (map (\<lambda>q. parameter_name q @ ''='' @ parameter_value q) (ordered_parameters params)),
        str_int horizon, payload, join ''::'' run_ids])"

definition run_ids_of :: "fold_execution list \<Rightarrow> string list" where
  "run_ids_of xs = map (\<lambda>x. backtest_run_id (executed_result x)) xs"

fun check_fold_results :: "wf_execution \<Rightarrow> int \<Rightarrow> fold_execution list \<Rightarrow> unit result" where
  "check_fold_results r n [] = Inr ()"
| "check_fold_results r n (x # xs) =
     bindR (raising
       [(executed_fold_number x \<noteq> n, ValueError ''executed fold numbers must be continuous''),
        (pipeline_strategy_name (executed_result x) \<noteq> execution_strategy_name r,
           ValueError ''fold strategy name does not match execution''),
        (pipeline_strategy_version (executed_result x) \<noteq> execution_strategy_version r,
           ValueError ''fold strategy version does not match execution''),
        (pipeline_config (executed_result x) \<noteq> execution_config r,
           ValueError ''fold backtest config does not match execution'')] ())
       (\<lambda>_. check_fold_results r (n + 1) xs)"

definition WalkForwardExecutionResult :: "string \<Rightarrow> wf_execution \<Rightarrow> wf_execution result" where
  "WalkForwardExecutionResult payload r =
     bindR (check_fields
        [(''execution_id'', has_id_form ''walk-forward-execution-'' 16 (execution_id r)),
         (''source_dataset_id'', 1 \<le> length (execution_source_id r)),
         (''plan_id'', has_id_form ''walk-forward-'' 16 (execution_plan_id r)),
         (''strategy_name'', sized 1 100 (execution_strategy_name r)),
         (''strategy_version'', sized 1 30 (execution_strategy_version r)),
         (''horizon_candles'', 1 \<le> execution_horizon r), (''fold_results'', 1 \<le> length (fold_results r))] r) (\<lambda>r.
     bindR (raising
        [(execution_id r \<noteq> build_walk_forward_execution_id (execution_plan_id r) (execution_strategy_name r)
            (execution_strategy_version r) (strategy_parameters r) (execution_horizon r) payload
            (run_ids_of (fold_results r)), ValueError ''walk-forward execution ID is inconsistent''),
         (int (length (fold_results r)) \<noteq> total_folds (execution_summary r),
            ValueError ''fold result count does not match summary''),
         (strategy_parameters r \<noteq> ordered_parameters (strategy_parameters r),
            ValueError ''strategy parameters must be ordered''),
         (\<not> distinct (map parameter_name (strategy_parameters r)),
            ValueError ''strategy parameter names must be unique'')] ()) (\<lambda>_.
     bindR (check_fold_results r 1 (fold_results r)) (\<lambda>_. Inr r)))"

definition validate_completed :: "fold_execution list \<Rightarrow> wf_split list \<Rightarrow> unit result" where
  "validate_completed xs ss =
     (if length xs > length ss
      then Inl (ValueError ''completed fold results exceed the walk-forward plan'')
      else foldR (\<lambda>_ (x, s). raising
        [(executed_fold_number x \<noteq> fold_number (split_fold s) \<or> executed_split_id x \<noteq> split_id s
            \<or> executed_dataset_id x \<noteq> dataset_id (test_dataset s),
          ValueError ''completed fold result does not match the walk-forward plan'')] ()) () (zip xs ss))"

text \<open>
  One round of the loop: execute the fold, append it, and call the two callbacks with the progress so
  far. What the callbacks do is the caller's; here they are one function that may raise, which ends the
  run.
\<close>

definition execution_step ::
  "(wf_split \<Rightarrow> fold_execution result) \<Rightarrow> (fold_execution \<Rightarrow> int \<Rightarrow> int \<Rightarrow> unit result) \<Rightarrow> int
   \<Rightarrow> fold_execution list \<Rightarrow> wf_split \<Rightarrow> fold_execution list result" where
  "execution_step run notify total_splits xs s =
     bindR (run s) (\<lambda>x. bindR (notify x (int (length xs) + 1) total_splits) (\<lambda>_. Inr (xs @ [x])))"

definition execute_walk_forward ::
  "string \<Rightarrow> snapshot \<Rightarrow> wf_materialization \<Rightarrow> signal_text \<Rightarrow> (dataset \<Rightarrow> strategy_signal list result)
   \<Rightarrow> experiment_parameter list \<Rightarrow> int \<Rightarrow> backtest_config option
   \<Rightarrow> (fold_execution \<Rightarrow> int \<Rightarrow> int \<Rightarrow> unit result) \<Rightarrow> fold_execution list \<Rightarrow> wf_execution result" where
  "execute_walk_forward payload ds m lbl generate params horizon config notify completed =
     bindR (raising
        [(materialized_source_id m \<noteq> dataset_id ds,
            ValueError ''walk-forward materialization does not belong to dataset''),
         (horizon < 1, ValueError ''horizon candles must be greater than zero'')] ()) (\<lambda>_.
     let cfg = effective_config config; ordered = ordered_parameters params
     in bindR (validate_completed completed (splits m)) (\<lambda>_.
        bindR (foldR (execution_step (execute_fold payload ds lbl generate horizon cfg) notify
                        (int (length (splits m)))) completed (drop (length completed) (splits m))) (\<lambda>xs.
        bindR (summarize_folds xs) (\<lambda>summary.
        WalkForwardExecutionResult payload
          \<lparr>execution_id = build_walk_forward_execution_id (plan_id (materialized_plan m)) (strategy_name lbl)
             (strategy_version lbl) ordered horizon payload (run_ids_of xs),
           execution_source_id = dataset_id ds, execution_plan_id = plan_id (materialized_plan m),
           execution_strategy_name = strategy_name lbl, execution_strategy_version = strategy_version lbl,
           strategy_parameters = ordered, execution_horizon = horizon, execution_config = cfg,
           fold_results = xs, execution_summary = summary\<rparr>))))"

section \<open>What a test candle's signal depends on\<close>

text \<open>The datasets agree on their first \<open>n\<close> candles, as written.\<close>

definition agree_upto :: "nat \<Rightarrow> snapshot \<Rightarrow> snapshot \<Rightarrow> bool" where
  "agree_upto n a b \<longleftrightarrow> take n (candles a) = take n (candles b) \<and> take n (candle_texts a) = take n (candle_texts b)
     \<and> dataset_created_at a = dataset_created_at b"

lemma take_shorter: "m \<le> n \<Longrightarrow> take n xs = take n ys \<Longrightarrow> take m xs = take m ys"
  by (metis min.absorb1 take_take)

lemma agree_upto_less: "agree_upto n a b \<Longrightarrow> m \<le> n \<Longrightarrow> agree_upto m a b"
  unfolding agree_upto_def by (metis take_shorter)

lemma py_slice_take:
  assumes "0 \<le> a" "take (nat b) xs = take (nat b) ys" shows "py_slice a b xs = py_slice a b ys"
proof (cases "a \<le> b")
  case True
  then have "nat (b - a) + nat a = nat b" using assms(1) by linarith
  then show ?thesis using assms(2) by (simp add: py_slice_def take_drop add.commute)
qed (simp add: py_slice_def)

lemma build_slice_local:
  assumes "0 \<le> a" "agree_upto (nat b) ds ds'" shows "build_slice ds name a b = build_slice ds' name a b"
proof -
  have "py_slice a b (candles ds) = py_slice a b (candles ds')"
    "py_slice a b (candle_texts ds) = py_slice a b (candle_texts ds')"
    using assms(2) by (auto simp: agree_upto_def intro!: py_slice_take [OF assms(1)])
  then show ?thesis using assms(2) by (simp add: build_slice_def agree_upto_def)
qed

lemma py_nth_local:
  assumes "0 \<le> i" "take (nat (i + 1)) xs = take (nat (i + 1)) ys" shows "py_nth xs i = py_nth ys i"
proof -
  have "min (length xs) (nat (i + 1)) = min (length ys) (nat (i + 1))" using assms(2) by (metis length_take)
  then have "i < int (length xs) \<longleftrightarrow> i < int (length ys)" using assms(1) by linarith
  moreover have "xs ! nat i = ys ! nat i" if "i < int (length xs)"
    using assms by (metis nth_take zless_add1_eq nat_less_eq_zless order_refl)
  ultimately show ?thesis using assms(1) by (simp add: py_nth_def)
qed

lemma test_signal_local:
  assumes "0 \<le> train_start_index (split_fold split)" "0 \<le> i" "agree_upto (nat (i + 1)) ds ds'"
  shows "test_signal ds split generate i = test_signal ds' split generate i"
proof -
  have "py_nth (candles ds) i = py_nth (candles ds') i"
    using assms(3) by (intro py_nth_local [OF assms(2)]) (simp add: agree_upto_def)
  then show ?thesis unfolding test_signal_def using build_slice_local [OF assms(1,3)] by simp
qed

lemma rebased:
  "rebase_signal s test = Inr t \<Longrightarrow> candle_open_time t = candle_open_time s \<and> candle_close_time t = candle_close_time s"
  by (auto simp: rebase_signal_def StrategySignal_Inr_iff)

lemma single_test_signal_Some:
  "single_test_signal test sigs = Inr (Some s) \<Longrightarrow> \<exists>u. sigs = [u] \<and> rebase_signal u test = Inr s"
  by (auto simp: single_test_signal_def bindR_Inr_iff split: list.splits)

lemma test_signal_candle:
  assumes "test_signal ds split generate i = Inr (Some s)" "0 \<le> i"
  shows "nat i < length (candles ds) \<and> candle_open_time s = open_time (candles ds ! nat i)
    \<and> candle_close_time s = close_time (candles ds ! nat i)"
proof -
  obtain c sigs u where c: "py_nth (candles ds) i = Inr c"
    and u: "filter (\<lambda>s. candle_open_time s = open_time c \<and> candle_close_time s = close_time c) sigs = [u]"
      "rebase_signal u (test_dataset split) = Inr s"
    using assms(1) by (auto simp: test_signal_def bindR_Inr_iff dest!: single_test_signal_Some)
  have "candle_open_time u = open_time c \<and> candle_close_time u = close_time c"
    using arg_cong [OF u(1), of set] by auto
  then show ?thesis using c assms(2) rebased [OF u(2)] by (auto simp: py_nth_def split: if_splits)
qed

lemma collectR_cong: "(\<And>x. x \<in> set xs \<Longrightarrow> f x = g x) \<Longrightarrow> collectR f xs = collectR g xs"
  by (induction xs) simp_all

text \<open>The signals at candles from \<open>a\<close> to before \<open>b\<close>.\<close>

definition signals_within :: "snapshot \<Rightarrow> int \<Rightarrow> int \<Rightarrow> strategy_signal list \<Rightarrow> bool" where
  "signals_within ds a b sigs \<longleftrightarrow> list_all (\<lambda>s. list_ex (\<lambda>i. nat i < length (candles ds)
     \<and> candle_open_time s = open_time (candles ds ! nat i)
     \<and> candle_close_time s = close_time (candles ds ! nat i)) [a..b - 1]) sigs"

lemma collected_within:
  assumes "collectR (test_signal ds split generate) [a..b - 1] = Inr sigs" "0 \<le> a"
  shows "signals_within ds a b sigs"
proof -
  have "\<exists>i \<in> set [a..b - 1]. nat i < length (candles ds) \<and> candle_open_time s = open_time (candles ds ! nat i)
      \<and> candle_close_time s = close_time (candles ds ! nat i)" if s: "s \<in> set sigs" for s
  proof -
    obtain i where "i \<in> set [a..b - 1]" "test_signal ds split generate i = Inr (Some s)"
      using collectR_set [OF assms(1) s] by blast
    then show ?thesis using test_signal_candle assms(2) by (intro bexI [of _ i]) auto
  qed
  then show ?thesis by (simp add: signals_within_def list_all_iff list_ex_iff)
qed

lemma test_signals_local:
  assumes "0 \<le> train_start_index (split_fold split)" "0 \<le> a" "agree_upto (nat b) ds ds'"
  shows "collectR (test_signal ds split generate) [a..b - 1] = collectR (test_signal ds' split generate) [a..b - 1]"
proof -
  show ?thesis by (rule collectR_cong) (use assms in \<open>auto intro!: test_signal_local intro: agree_upto_less\<close>)
qed

text \<open>A signal without the two fields that name its dataset.\<close>

definition signal_content :: "strategy_signal \<Rightarrow> strategy_signal" where
  "signal_content s = s\<lparr>signal_id := [], signal_dataset_id := []\<rparr>"

lemma rebased_content: "rebase_signal s test = Inr t \<Longrightarrow> signal_content t = signal_content s"
  by (auto simp: rebase_signal_def StrategySignal_Inr_iff signal_content_def)

lemma single_test_signal_content:
  "single_test_signal test sigs = Inr r \<Longrightarrow> single_test_signal test' sigs = Inr r' \<Longrightarrow>
   map_option signal_content r = map_option signal_content r'"
  by (auto simp: single_test_signal_def bindR_Inr_iff split: list.splits dest!: rebased_content)

lemma test_signal_content:
  assumes "split_fold split' = split_fold split" "0 \<le> train_start_index (split_fold split)" "0 \<le> i"
    and "agree_upto (nat (i + 1)) ds ds'"
    and "test_signal ds split generate i = Inr r" "test_signal ds' split' generate i = Inr r'"
  shows "map_option signal_content r = map_option signal_content r'"
proof -
  have "test_signal ds split' generate i = Inr r'" using test_signal_local [OF _ assms(3,4)] assms(1,2,6) by simp
  then show ?thesis
    using assms(1,5) by (auto simp: test_signal_def bindR_Inr_iff intro: single_test_signal_content)
qed

lemma collected_content:
  assumes "\<And>i r r'. i \<in> set xs \<Longrightarrow> f i = Inr r \<Longrightarrow> g i = Inr r' \<Longrightarrow> map_option c r = map_option c r'"
    and "collectR f xs = Inr ys" "collectR g xs = Inr zs"
  shows "map c ys = map c zs"
  using assms
proof (induction xs arbitrary: ys zs)
  case (Cons x xs)
  obtain r us r' vs where r: "f x = Inr r" "collectR f xs = Inr us" "ys = (case r of None \<Rightarrow> us | Some y \<Rightarrow> y # us)"
    "g x = Inr r'" "collectR g xs = Inr vs" "zs = (case r' of None \<Rightarrow> vs | Some y \<Rightarrow> y # vs)"
    using Cons.prems(2,3) by (auto simp: bindR_Inr_iff)
  have "map c us = map c vs" by (rule Cons.IH [OF _ r(2,5)]) (rule Cons.prems(1), auto)
  moreover have "map_option c r = map_option c r'" using Cons.prems(1) [OF _ r(1,4)] by simp
  ultimately show ?case unfolding r(3,6) by (cases r; cases r') simp_all
qed simp

lemma test_signals_split:
  assumes "generate_test_signals ds split generate = Inr sigs"
    and "test_start_index (split_fold split) \<le> k" "k \<le> test_end_index (split_fold split)"
  shows "\<exists>us vs. sigs = us @ vs
    \<and> collectR (test_signal ds split generate) [test_start_index (split_fold split)..k - 1] = Inr us
    \<and> collectR (test_signal ds split generate) [k..test_end_index (split_fold split) - 1] = Inr vs"
proof -
  let ?a = "test_start_index (split_fold split)" and ?b = "test_end_index (split_fold split)"
  have "[?a..?b - 1] = [?a..k - 1] @ [k..?b - 1]" using upto_split1 [of ?a "k" "?b - 1"] assms(2,3)
    by (cases "k = ?b") simp_all
  then show ?thesis using assms(1) by (auto simp: generate_test_signals_def collectR_append bindR_Inr_iff)
qed

section \<open>The signals of a research strategy on a fold\<close>

text \<open>The windows of a fold inside its dataset.\<close>

definition fold_inside :: "snapshot \<Rightarrow> wf_fold \<Rightarrow> bool" where
  "fold_inside ds f \<longleftrightarrow> 0 \<le> train_start_index f \<and> train_start_index f < train_end_index f
     \<and> train_end_index f \<le> test_start_index f \<and> test_start_index f < test_end_index f
     \<and> test_end_index f \<le> candle_count ds \<and> 1 \<le> fold_number f \<and> fold_number f \<le> candle_count ds"

lemma expected_fold_inside:
  assumes "valid_wf_config cfg" "k < fold_total cfg (candle_count ds)"
  shows "fold_inside ds (expected_fold (candles ds) cfg k)"
proof -
  have fits: "fold_start cfg k + test_candles cfg \<le> candle_count ds" using assms fold_total_iff by simp
  note sz = expected_fold_sizes [OF assms(1), of "candles ds" k]
  have c: "2 \<le> train_candles cfg" "1 \<le> test_candles cfg" "0 \<le> gap_candles cfg" "1 \<le> step_candles cfg"
    using assms(1) by (simp_all add: valid_wf_config_def)
  have "int k * 1 \<le> int k * step_candles cfg" using c(4) by (intro mult_left_mono) simp_all
  then have "int k + 1 \<le> fold_start cfg k" using c by (simp add: fold_start_def)
  then show ?thesis unfolding fold_inside_def using sz fits c by (intro conjI; linarith)
qed

lemma snapshot_research:
  assumes "snapshot_of cs texts d" "candle_series cs" shows "research_dataset (dataset.truncate d)"
  using assms by (simp add: research_dataset_def snapshot_of_def dataset.defs)

lemma filter_same_key:
  assumes "sorted_wrt (\<lambda>s t. f s < (f t :: int)) xs" shows "length (filter (\<lambda>x. P x \<and> f x = k) xs) \<le> 1"
  using assms
proof (induction xs)
  case (Cons x xs)
  then show ?case by (auto simp: filter_empty_conv)
qed simp

text \<open>What the strategy is shown for one test candle: the context of its candles, which always exists.\<close>

lemma test_signal_context:
  assumes ds: "wf_dataset ds" and split: "split_of ds p f s" and f: "fold_inside ds f"
    and i: "test_start_index f \<le> i" "i < test_end_index f"
  shows "\<exists>ctx. snapshot_of (py_slice (train_start_index f) (i + 1) (candles ds))
        (py_slice (train_start_index f) (i + 1) (candle_texts ds)) ctx
    \<and> research_dataset (dataset.truncate ctx)
    \<and> test_signal ds s generate i = bindR (generate (dataset.truncate ctx)) (\<lambda>sigs.
        single_test_signal (test_dataset s) (filter (\<lambda>u. candle_open_time u = open_time (candles ds ! nat i)
          \<and> candle_close_time u = close_time (candles ds ! nat i)) sigs))"
proof -
  have cs: "candle_series (candles ds)" "candle_count ds = int (length (candles ds))" "candle_count ds < 10 ^ 30"
    using ds by (simp_all add: wf_dataset_def wf_source_def)
  have b: "0 \<le> train_start_index f" "train_start_index f < i + 1" "i + 1 \<le> candle_count ds" "0 \<le> i" "i < 10 ^ 30"
    "0 \<le> fold_number f" "fold_number f < 10 ^ 30"
    using f i cs(3) by (simp_all add: fold_inside_def)
  have cur: "py_nth (candles ds) i = Inr (candles ds ! nat i)" using b cs(2) by (intro py_nth_inside) simp_all
  have "length ('' context '' @ str_int i) \<le> 40" using length_str_int [of i 30] b by simp
  then obtain ctx where ctx: "build_slice ds (''walk-forward fold '' @ str_int (fold_number f) @ '' context '' @ str_int i)
      (train_start_index f) (i + 1) = Inr ctx"
    "snapshot_of (py_slice (train_start_index f) (i + 1) (candles ds))
       (py_slice (train_start_index f) (i + 1) (candle_texts ds)) ctx"
    using build_slice_runs [OF ds b(1-3) sized_name [OF b(6,7)]] by blast
  have "research_dataset (dataset.truncate ctx)"
    using snapshot_research [OF ctx(2)] candle_series_slice [OF cs(1) b(1,2)] b(3) cs(2) by simp
  with ctx show ?thesis using split cur by (intro exI [of _ ctx]) (simp add: test_signal_def split_of_def)
qed

context research_strategy
begin

lemma test_signal_sound:
  assumes st: "configured st" and ds: "wf_dataset ds" and split: "split_of ds p f s" and f: "fold_inside ds f"
    and i: "test_start_index f \<le> i" "i < test_end_index f"
  shows "\<exists>r. test_signal ds s (generate st) i = Inr r
    \<and> (\<forall>t. r = Some t \<longrightarrow> signal_from (dataset.truncate (test_dataset s)) t
         \<and> candle_close_time t = close_time (candles ds ! nat i))"
proof -
  let ?test = "dataset.truncate (test_dataset s)" and ?c = "candles ds ! nat i"
  have cs: "candle_count ds = int (length (candles ds))" using ds by (simp add: wf_dataset_def wf_source_def)
  have b: "0 \<le> train_start_index f" "train_start_index f < i + 1" "i + 1 \<le> candle_count ds" "0 \<le> i"
    using f i by (simp_all add: fold_inside_def)
  obtain ctx where ctx: "snapshot_of (py_slice (train_start_index f) (i + 1) (candles ds))
       (py_slice (train_start_index f) (i + 1) (candle_texts ds)) ctx" "research_dataset (dataset.truncate ctx)"
    and seen: "test_signal ds s (generate st) i = bindR (generate st (dataset.truncate ctx)) (\<lambda>sigs.
        single_test_signal (test_dataset s) (filter (\<lambda>u. candle_open_time u = open_time ?c
          \<and> candle_close_time u = close_time ?c) sigs))"
    using test_signal_context [OF ds split f i, of "generate st"] by blast
  obtain sigs where sigs: "generate st (dataset.truncate ctx) = Inr sigs" "signals_for (dataset.truncate ctx) sigs"
    using generate_sound [OF st ctx(2)] by blast
  let ?now = "filter (\<lambda>u. candle_open_time u = open_time ?c \<and> candle_close_time u = close_time ?c) sigs"
  have run: "test_signal ds s (generate st) i = single_test_signal (test_dataset s) ?now"
    using seen sigs(1) by simp
  have one: "length ?now \<le> 1" using sigs(2) by (intro filter_same_key) (simp add: signals_for_def)
  show ?thesis
  proof (cases ?now)
    case Nil
    then show ?thesis unfolding run by (simp add: single_test_signal_def)
  next
    case (Cons u us)
    then have now: "?now = [u]" using one by simp
    have "u \<in> set ?now" unfolding now by simp
    then have u: "u \<in> set sigs" "candle_open_time u = open_time ?c" "candle_close_time u = close_time ?c"
      by simp_all
    then have from_ctx: "signal_from (dataset.truncate ctx) u" using sigs(2) by (auto simp: signals_for_def list_all_iff)
    have test: "snapshot_of (py_slice (test_start_index f) (test_end_index f) (candles ds))
         (py_slice (test_start_index f) (test_end_index f) (candle_texts ds)) (test_dataset s)"
      using split by (simp add: split_of_def)
    have "?c \<in> set (py_slice (train_start_index f) (i + 1) (candles ds))"
      using b cs by (auto simp: py_slice_def in_set_conv_nth intro!: exI [of _ "nat i - nat (train_start_index f)"])
    moreover have c_test: "?c \<in> set (py_slice (test_start_index f) (test_end_index f) (candles ds))"
      using f i b cs by (auto simp: fold_inside_def py_slice_def in_set_conv_nth
          intro!: exI [of _ "nat i - nat (test_start_index f)"])
    ultimately have same: "dataset_pair ctx = dataset_pair (test_dataset s)"
      "dataset_timeframe ctx = dataset_timeframe (test_dataset s)"
      using ctx(1) test unfolding snapshot_of_def by metis+
    define t where "t = u\<lparr>signal_id := build_signal_id (signal_strategy_name u) (signal_strategy_version u)
        (dataset_id (test_dataset s)) (candle_close_time u) (direction u), signal_dataset_id := dataset_id (test_dataset s)\<rparr>"
    have "1 \<le> length (dataset_id (test_dataset s))" using test by (simp add: snapshot_of_def)
    then have valid: "StrategySignal t = Inr t"
      using from_ctx
      by (auto simp: signal_from_def StrategySignal_Inr_iff signal_fields_def t_def split: signal_direction.splits)
    then have "single_test_signal (test_dataset s) ?now = Inr (Some t)"
      unfolding now by (simp add: single_test_signal_def rebase_signal_def t_def [symmetric])
    moreover have "\<exists>c \<in> set (candles ?test). candle_open_time t = open_time c \<and> candle_close_time t = close_time c"
      using c_test test u by (intro bexI [of _ ?c]) (simp_all add: t_def snapshot_of_def dataset.defs)
    then have "signal_from ?test t"
      using valid from_ctx same by (simp add: signal_from_def t_def dataset.defs)
    ultimately show ?thesis unfolding run using u(3) by (simp add: t_def)
  qed
qed

lemma fold_signals_sound:
  assumes st: "configured st" and ds: "wf_dataset ds" and split: "split_of ds p f s" and f: "fold_inside ds f"
  shows "\<exists>sigs. generate_test_signals ds s (generate st) = Inr sigs
    \<and> signals_for (dataset.truncate (test_dataset s)) sigs"
proof -
  let ?xs = "[test_start_index f..test_end_index f - 1]" and ?test = "dataset.truncate (test_dataset s)"
  have each: "\<exists>r. test_signal ds s (generate st) i = Inr r
    \<and> (\<forall>t. r = Some t \<longrightarrow> signal_from ?test t \<and> candle_close_time t = close_time (candles ds ! nat i))"
    if "i \<in> set ?xs" for i using test_signal_sound [OF assms] that by simp
  then have "\<And>i. i \<in> set ?xs \<Longrightarrow> returns (test_signal ds s (generate st) i)" unfolding returns_iff by blast
  then obtain sigs where sigs: "collectR (test_signal ds s (generate st)) ?xs = Inr sigs"
    using collectR_returns by blast
  have out: "signal_from ?test t \<and> candle_close_time t = close_time (candles ds ! nat i)"
    if "i \<in> set ?xs" "test_signal ds s (generate st) i = Inr (Some t)" for i t
    using each [OF that(1)] that(2) by auto
  have cs: "candle_series (candles ds)" "candle_count ds = int (length (candles ds))"
    using ds by (simp_all add: wf_dataset_def wf_source_def)
  have "sorted_wrt (\<lambda>i j. 0 \<le> i \<and> i < j \<and> j < int (length (candles ds))) ?xs"
    using f cs(2) by (auto simp: fold_inside_def intro: sorted_wrt_mono_rel [OF _ sorted_wrt_upto])
  then have "sorted_wrt (\<lambda>t t'. candle_close_time t < candle_close_time t') sigs"
  proof (rule collectR_sorted [OF sigs, where key = candle_close_time and k = "\<lambda>i. close_time (candles ds ! nat i)"])
    show "candle_close_time t = close_time (candles ds ! nat i)"
      if "i \<in> set ?xs" "test_signal ds s (generate st) i = Inr (Some t)" for i t using out that by blast
    show "close_time (candles ds ! nat i) < close_time (candles ds ! nat j)"
      if "0 \<le> i \<and> i < j \<and> j < int (length (candles ds))" for i j
      using sorted_wrt_nth_less [OF candle_series_closes [OF cs(1)], of "nat i" "nat j"] that by auto
  qed
  moreover have "list_all (signal_from ?test) sigs"
    using collectR_set [OF sigs] out unfolding list_all_iff by blast
  ultimately show ?thesis
    using sigs split by (auto simp: generate_test_signals_def split_of_def signals_for_def)
qed

end

context research_strategy
begin

lemma walk_forward_signals:
  assumes st: "configured st" and ds: "wf_dataset ds" and cfg: "valid_wf_config cfg"
    and fits: "required_candles cfg \<le> candle_count ds"
  shows "\<exists>p m. plan_walk_forward ds cfg = Some (Inr p) \<and> materialize ds p = Inr m
    \<and> length (splits m) = fold_total cfg (candle_count ds)
    \<and> (\<forall>s \<in> set (splits m). \<exists>sigs. generate_test_signals ds s (generate st) = Inr sigs
         \<and> signals_for (dataset.truncate (test_dataset s)) sigs)"
proof -
  obtain p m where m: "plan_walk_forward ds cfg = Some (Inr p)" "materialize ds p = Inr m"
      "folds p = map (expected_fold (candles ds) cfg) [0..<fold_total cfg (candle_count ds)]"
      "list_all2 (split_of ds p) (folds p) (splits m)"
    using materialize_runs [OF ds cfg fits] by blast
  have "\<exists>sigs. generate_test_signals ds s (generate st) = Inr sigs
      \<and> signals_for (dataset.truncate (test_dataset s)) sigs" if s: "s \<in> set (splits m)" for s
  proof -
    obtain f where f: "f \<in> set (folds p)" "split_of ds p f s"
      using m(4) s by (metis in_set_conv_nth list_all2_conv_all_nth)
    then obtain k where "k < fold_total cfg (candle_count ds)" "f = expected_fold (candles ds) cfg k"
      unfolding m(3) by auto
    then show ?thesis using fold_signals_sound [OF st ds f(2)] expected_fold_inside [OF cfg] by simp
  qed
  moreover have "length (splits m) = fold_total cfg (candle_count ds)" using list_all2_lengthD [OF m(4)] m(3) by simp
  ultimately show ?thesis using m(1,2) by blast
qed

end

section \<open>Completed runs\<close>

lemma foldR_unit: "foldR (\<lambda>_. g) () xs = Inr () \<longleftrightarrow> (\<forall>x \<in> set xs. g x = Inr ())"
  by (induction xs) (auto simp: bindR_Inr_iff)

lemma materialization_folds:
  assumes "WalkForwardMaterialization m = Inr m"
  shows "map split_fold (splits m) = folds (materialized_plan m)" "splits m \<noteq> []" "1 \<le> length (materialized_source_id m)"
proof -
  have len: "length (splits m) = length (folds (materialized_plan m))"
    and each: "\<forall>x \<in> set (zip (folds (materialized_plan m)) (splits m)). check_split m x = Inr ()"
    and ne: "splits m \<noteq> []" "1 \<le> length (materialized_source_id m)"
    using assms foldR_unit [of "check_split m"]
    by (auto simp: WalkForwardMaterialization_def bindR_Inr_iff check_fields_Inr_iff raising_Inr_iff)
  have "split_fold (splits m ! i) = folds (materialized_plan m) ! i" if "i < length (splits m)" for i
  proof -
    have "(folds (materialized_plan m) ! i, splits m ! i) \<in> set (zip (folds (materialized_plan m)) (splits m))"
      using that len by (auto simp: in_set_zip)
    then show ?thesis using each by (auto simp: check_split_def raising_Inr_iff dest!: bspec)
  qed
  then show "map split_fold (splits m) = folds (materialized_plan m)" using len by (intro nth_equalityI) auto
  show "splits m \<noteq> []" "1 \<le> length (materialized_source_id m)" using ne .
qed

lemma checked_numbers:
  "check_folds p n previous fs = Inr () \<Longrightarrow> map fold_number fs = [n..n + int (length fs) - 1]"
  by (induction p n previous fs rule: check_folds.induct)
    (auto simp: bindR_Inr_iff fold_checks_def Let_def raising_Inr_iff upto_rec1 algebra_simps)

lemma plan_numbers:
  assumes "WalkForwardPlan p = Inr p"
  shows "map fold_number (folds p) = [1..int (length (folds p))]" "has_id_form ''walk-forward-'' 16 (plan_id p)"
  using assms checked_numbers [of p 1 None "folds p"]
  by (auto simp: WalkForwardPlan_def bindR_Inr_iff check_fields_Inr_iff)

text \<open>A fold execution belongs to its split, its strategy and its configuration.\<close>

definition execution_of :: "signal_text \<Rightarrow> backtest_config \<Rightarrow> wf_split \<Rightarrow> fold_execution \<Rightarrow> bool" where
  "execution_of lbl cfg s x \<longleftrightarrow> executed_split_id x = split_id s \<and> executed_fold_number x = fold_number (split_fold s)
     \<and> executed_dataset_id x = dataset_id (test_dataset s)
     \<and> pipeline_dataset_id (executed_result x) = dataset_id (test_dataset s)
     \<and> pipeline_strategy_name (executed_result x) = strategy_name lbl
     \<and> pipeline_strategy_version (executed_result x) = strategy_version lbl
     \<and> pipeline_config (executed_result x) = cfg \<and> 0 \<le> generated_signals (executed_result x)
     \<and> (\<forall>(n, ok) \<in> set (report_fields (pipeline_performance (executed_result x))). ok)
     \<and> (\<forall>(n, ok) \<in> set (report_fields (benchmark_report (pipeline_benchmark (executed_result x)))). ok)"

lemma executed_fold:
  assumes "execute_fold payload ds lbl generate h cfg s = Inr x" shows "execution_of lbl cfg s x"
proof -
  obtain sigs r where r: "run_with_signals payload (dataset.truncate (test_dataset s)) (strategy_name lbl)
      (strategy_version lbl) sigs h (Some cfg) = Inr r"
    and x: "x = \<lparr>executed_split_id = split_id s, executed_fold_number = fold_number (split_fold s),
        executed_dataset_id = dataset_id (test_dataset s), executed_result = r\<rparr>"
    using assms by (auto simp: execute_fold_def bindR_Inr_iff WalkForwardFoldExecution_def check_fields_Inr_iff raising_Inr_iff)
  show ?thesis
    using pipeline_facts [OF r] by (simp add: execution_of_def x effective_config_def dataset.defs)
qed

lemma executed_folds:
  "mapR (execute_fold payload ds lbl generate h cfg) ss = Inr xs \<Longrightarrow> list_all2 (execution_of lbl cfg) ss xs"
  by (auto simp: mapR_Inr_iff elim!: list_all2_mono intro: executed_fold)

lemma rounds_mapR:
  "foldR (execution_step run notify n) acc ss = Inr ys \<Longrightarrow> \<exists>xs. ys = acc @ xs \<and> mapR run ss = Inr xs"
proof (induction ss arbitrary: acc)
  case (Cons s ss)
  then obtain acc' where acc: "execution_step run notify n acc s = Inr acc'" "foldR (execution_step run notify n) acc' ss = Inr ys"
    by (auto simp: bindR_Inr_iff)
  then obtain x where x: "run s = Inr x" "foldR (execution_step run notify n) (acc @ [x]) ss = Inr ys"
    using acc by (auto simp: execution_step_def bindR_Inr_iff)
  with Cons.IH [OF x(2)] show ?case by auto
qed simp

lemma completed_valid:
  assumes "list_all2 (execution_of lbl cfg) (take (length xs) ss) xs" shows "validate_completed xs ss = Inr ()"
proof -
  have le: "length xs \<le> length ss" using list_all2_lengthD [OF assms] by simp
  have "execution_of lbl cfg s x" if "(x, s) \<in> set (zip xs ss)" for x s
  proof -
    obtain i where i: "i < length xs" "x = xs ! i" "s = ss ! i" using \<open>(x, s) \<in> set (zip xs ss)\<close> by (auto simp: in_set_zip)
    then have "execution_of lbl cfg (take (length xs) ss ! i) (xs ! i)"
      using list_all2_nthD2 [OF assms, of i] by simp
    with i show ?thesis by simp
  qed
  then have "foldR (\<lambda>_ (x, s). raising
        [(executed_fold_number x \<noteq> fold_number (split_fold s) \<or> executed_split_id x \<noteq> split_id s
            \<or> executed_dataset_id x \<noteq> dataset_id (test_dataset s),
          ValueError ''completed fold result does not match the walk-forward plan'')] ()) () (zip xs ss) = Inr ()"
    by (intro foldR_checks) (auto simp: raising_Inr_iff execution_of_def)
  with le show ?thesis by (simp add: validate_completed_def)
qed

lemma resumed:
  assumes "foldR (execution_step (execute_fold payload ds lbl generate h (effective_config config)) notify
      (int (length (splits m)))) [] (take k (splits m)) = Inr xs" and "k \<le> length (splits m)"
  shows "execute_walk_forward payload ds m lbl generate params h config notify xs
    = execute_walk_forward payload ds m lbl generate params h config notify []"
proof -
  let ?run = "execute_fold payload ds lbl generate h (effective_config config)"
  let ?step = "execution_step ?run notify (int (length (splits m)))"
  have xs: "mapR ?run (take k (splits m)) = Inr xs" using rounds_mapR [OF assms(1)] by simp
  have k: "length xs = k" using mapR_length [OF xs] assms(2) by simp
  have "list_all2 (execution_of lbl (effective_config config)) (take (length xs) (splits m)) xs"
    using executed_folds [OF xs] k by simp
  then have "validate_completed xs (splits m) = Inr ()" by (rule completed_valid)
  moreover have "validate_completed [] (splits m) = Inr ()" by (simp add: validate_completed_def)
  moreover have "foldR ?step [] (splits m) = foldR ?step xs (drop (length xs) (splits m))"
    using foldR_append [of ?step "[]" "take k (splits m)" "drop k (splits m)"] assms(1) k by simp
  ultimately show ?thesis unfolding execute_walk_forward_def Let_def by simp
qed

lemma check_fold_results_runs:
  "map executed_fold_number xs = [n..n + int (length xs) - 1] \<Longrightarrow>
   list_all (\<lambda>x. pipeline_strategy_name (executed_result x) = execution_strategy_name r
     \<and> pipeline_strategy_version (executed_result x) = execution_strategy_version r
     \<and> pipeline_config (executed_result x) = execution_config r) xs \<Longrightarrow>
   check_fold_results r n xs = Inr ()"
proof (induction xs arbitrary: n)
  case (Cons x xs)
  have "[n..n + int (length (x # xs)) - 1] = n # [n + 1..n + 1 + int (length xs) - 1]"
    by (simp add: upto_rec1)
  then show ?case using Cons by (simp add: raising.simps)
qed simp

lemma outcomes_partition:
  "count_folds (\<lambda>r. outcome (pipeline_comparison r) = OUTCOME_STRATEGY) xs
   + count_folds (\<lambda>r. outcome (pipeline_comparison r) = OUTCOME_BENCHMARK) xs
   + count_folds (\<lambda>r. outcome (pipeline_comparison r) = OUTCOME_TIE) xs = int (length xs)"
proof (induction xs)
  case (Cons x xs)
  then show ?case
    by (cases "outcome (pipeline_comparison (executed_result x))") (simp_all add: count_folds_def)
qed (simp add: count_folds_def)

lemma summarize_runs:
  assumes "xs \<noteq> []" "list_all (\<lambda>x. 0 \<le> generated_signals (executed_result x)
      \<and> 0 \<le> max_drawdown_fraction (pipeline_performance (executed_result x))) xs"
  shows "\<exists>s. summarize_folds xs = Inr s \<and> total_folds s = int (length xs)
    \<and> strategy_wins s + benchmark_wins s + ties s = int (length xs)
    \<and> average_strategy_return s
      = dquot (dsum (map (\<lambda>x. total_return (pipeline_performance (executed_result x))) xs)) (of_nat (length xs))"
proof -
  have "0 \<le> sum_list (map (\<lambda>x. generated_signals (executed_result x)) xs)"
    using assms(2) by (intro sum_list_nonneg) (auto simp: list_all_iff)
  moreover have "0 \<le> max_default 0 (map (\<lambda>x. max_drawdown_fraction (pipeline_performance (executed_result x))) xs)"
    using max_default_cases [of 0 "map (\<lambda>x. max_drawdown_fraction (pipeline_performance (executed_result x))) xs"]
      assms(2) by (auto simp: list_all_iff)
  moreover have "0 \<le> count_folds P xs" "count_folds P xs \<le> int (length xs)" for P by (simp_all add: count_folds_def)
  moreover have "1 \<le> int (length xs)" using assms(1) by (cases xs) simp_all
  ultimately show ?thesis
    using assms(1) outcomes_partition [of xs]
    by (simp add: summarize_folds_def Let_def ddiv_nonzero WalkForwardExecutionSummary_def check_fields_pass
        raising.simps not_less)
qed

lemma execution_completes:
  assumes m: "WalkForwardMaterialization m = Inr m" "WalkForwardPlan (materialized_plan m) = Inr (materialized_plan m)"
      "materialized_source_id m = dataset_id ds"
    and h: "1 \<le> h" and lbl: "sized 1 100 (strategy_name lbl)" "sized 1 30 (strategy_version lbl)"
    and params: "distinct (map parameter_name params)"
    and run: "foldR (execution_step (execute_fold payload ds lbl generate h (effective_config config)) notify
      (int (length (splits m)))) [] (splits m) = Inr xs"
  shows "\<exists>r. execute_walk_forward payload ds m lbl generate params h config notify [] = Inr r
    \<and> fold_results r = xs \<and> summarize_folds xs = Inr (execution_summary r)
    \<and> strategy_wins (execution_summary r) + benchmark_wins (execution_summary r) + ties (execution_summary r)
      = int (length (splits m))"
proof -
  have each: "mapR (execute_fold payload ds lbl generate h (effective_config config)) (splits m) = Inr xs"
    using rounds_mapR [OF run] by simp
  note ex = executed_folds [OF each]
  have len: "length xs = length (splits m)" using mapR_length [OF each] .
  have ne: "xs \<noteq> []" using len materialization_folds(2) [OF m(1)] by auto
  have facts: "list_all (\<lambda>x. pipeline_strategy_name (executed_result x) = strategy_name lbl
      \<and> pipeline_strategy_version (executed_result x) = strategy_version lbl
      \<and> pipeline_config (executed_result x) = effective_config config) xs"
    "list_all (\<lambda>x. 0 \<le> generated_signals (executed_result x)
      \<and> 0 \<le> max_drawdown_fraction (pipeline_performance (executed_result x))) xs"
    using ex by (auto simp: execution_of_def list_all2_conv_all_nth list_all_length report_fields_def)
  have "map executed_fold_number xs = map fold_number (map split_fold (splits m))"
    using ex by (auto simp: execution_of_def list_all2_conv_all_nth intro!: nth_equalityI)
  also have "\<dots> = [1..int (length xs)]"
    using plan_numbers(1) [OF m(2)] materialization_folds(1) [OF m(1)] len by (metis length_map)
  finally have numbers: "map executed_fold_number xs = [1..1 + int (length xs) - 1]" by simp
  obtain s where s: "summarize_folds xs = Inr s" "total_folds s = int (length xs)"
      "strategy_wins s + benchmark_wins s + ties s = int (length xs)"
    using summarize_runs [OF ne facts(2)] by blast
  define r where "r = \<lparr>execution_id = build_walk_forward_execution_id (plan_id (materialized_plan m))
      (strategy_name lbl) (strategy_version lbl) (ordered_parameters params) h payload (run_ids_of xs),
    execution_source_id = dataset_id ds, execution_plan_id = plan_id (materialized_plan m),
    execution_strategy_name = strategy_name lbl, execution_strategy_version = strategy_version lbl,
    strategy_parameters = ordered_parameters params, execution_horizon = h,
    execution_config = effective_config config, fold_results = xs, execution_summary = s\<rparr>"
  have "check_fold_results r 1 xs = Inr ()"
    using check_fold_results_runs [OF numbers] facts(1) by (simp add: r_def)
  moreover have "has_id_form ''walk-forward-execution-'' 16 (execution_id r)"
    unfolding r_def wf_execution.simps build_walk_forward_execution_id_def has_id_form_append by simp
  moreover have rf: "execution_source_id r = dataset_id ds" "execution_plan_id r = plan_id (materialized_plan m)"
    "execution_strategy_name r = strategy_name lbl" "execution_strategy_version r = strategy_version lbl"
    "strategy_parameters r = ordered_parameters params" "execution_horizon r = h" "fold_results r = xs"
    "execution_summary r = s" "execution_id r = build_walk_forward_execution_id (plan_id (materialized_plan m))
      (strategy_name lbl) (strategy_version lbl) (ordered_parameters params) h payload (run_ids_of xs)"
    by (simp_all add: r_def)
  moreover have "1 \<le> length xs" using ne by (cases xs) simp_all
  ultimately have "WalkForwardExecutionResult payload r = Inr r"
    using plan_numbers(2) [OF m(2)] materialization_folds(3) [OF m(1)] m(3) h lbl params s(2)
    by (simp add: WalkForwardExecutionResult_def check_fields_pass raising.simps distinct_ordered)
  moreover have "execute_walk_forward payload ds m lbl generate params h config notify [] = WalkForwardExecutionResult payload r"
    unfolding execute_walk_forward_def Let_def
    using m(3) h run s(1) by (simp add: raising.simps validate_completed_def r_def)
  ultimately show ?thesis using s len rf by (intro exI [of _ r]) simp
qed

section \<open>Properties\<close>

text \<open>
  C24: walk-forward testing does not look ahead. Take two datasets that agree on their first \<open>k\<close> candles
  and splits of them with the same fold, and any strategy function. Where both runs return, the signals
  they give to the test candles before the \<open>k\<close>-th differ only in the name of the test dataset; every
  other signal belongs to a test candle from the \<open>k\<close>-th on.
\<close>

theorem wf_no_lookahead:
  assumes "WalkForwardFold (split_fold split) = Inr (split_fold split)" "split_fold split' = split_fold split"
    and "test_start_index (split_fold split) \<le> k" "k \<le> test_end_index (split_fold split)"
    and "agree_upto (nat k) ds ds'"
    and "generate_test_signals ds split generate = Inr sigs" "generate_test_signals ds' split' generate = Inr sigs'"
  shows "\<exists>us us' vs vs'. sigs = us @ vs \<and> sigs' = us' @ vs' \<and> map signal_content us = map signal_content us'
    \<and> signals_within ds (test_start_index (split_fold split)) k us
    \<and> signals_within ds k (test_end_index (split_fold split)) vs
    \<and> signals_within ds' k (test_end_index (split_fold split)) vs'"
proof -
  let ?f = "split_fold split"
  have pos: "0 \<le> train_start_index ?f" "0 \<le> test_start_index ?f"
    using assms(1) by (simp_all add: WalkForwardFold_def bindR_Inr_iff check_fields_Inr_iff)
  obtain us vs where us: "sigs = us @ vs"
      "collectR (test_signal ds split generate) [test_start_index ?f..k - 1] = Inr us"
      "collectR (test_signal ds split generate) [k..test_end_index ?f - 1] = Inr vs"
    using test_signals_split [OF assms(6,3,4)] by blast
  obtain us' vs' where us': "sigs' = us' @ vs'"
      "collectR (test_signal ds' split' generate) [test_start_index ?f..k - 1] = Inr us'"
      "collectR (test_signal ds' split' generate) [k..test_end_index ?f - 1] = Inr vs'"
    using test_signals_split [OF assms(7), unfolded assms(2), OF assms(3,4)] by blast
  have "map signal_content us = map signal_content us'"
    using us(2) us'(2)
  proof (rule collected_content [rotated])
    show "map_option signal_content r = map_option signal_content r'"
      if "i \<in> set [test_start_index ?f..k - 1]" "test_signal ds split generate i = Inr r"
        "test_signal ds' split' generate i = Inr r'" for i r r'
    proof (rule test_signal_content [OF assms(2) pos(1) _ agree_upto_less [OF assms(5)] that(2,3)])
      show "0 \<le> i" using that(1) pos(2) by simp
      show "nat (i + 1) \<le> nat k" using that(1) by (intro nat_mono) simp
    qed
  qed
  moreover have "signals_within ds (test_start_index ?f) k us" "signals_within ds k (test_end_index ?f) vs"
    "signals_within ds' k (test_end_index ?f) vs'"
    using collected_within [OF us(2)] collected_within [OF us(3)] collected_within [OF us'(3)] pos(2) assms(3) by simp_all
  ultimately show ?thesis using us(1) us'(1) by blast
qed

lemma split_exists:
  assumes ds: "wf_dataset ds" and cfg: "valid_wf_config cfg" and k: "k < fold_total cfg (candle_count ds)"
  shows "\<exists>p s. split_of ds p (expected_fold (candles ds) cfg k) s"
proof -
  have "required_candles cfg \<le> candle_count ds" using k by (auto simp: fold_total_def split: if_splits)
  from materialize_runs [OF ds cfg this]
  obtain p and m :: wf_materialization where m: "folds p = map (expected_fold (candles ds) cfg) [0..<fold_total cfg (candle_count ds)]"
      "list_all2 (split_of ds p) (folds p) (splits m)"
    by (elim exE conjE) (rule that)
  have "split_of ds p (folds p ! k) (splits m ! k)" by (rule list_all2_nthD [OF m(2)]) (simp add: m(1) k)
  then show ?thesis using k by (auto simp: m(1))
qed

lemma sample_snapshot_clean:
  assumes "length ps = 6" "list_all (\<lambda>p. 0 < p) ps" shows "wf_dataset (sample_snapshot ps)"
proof -
  obtain a b c d e f where ps: "ps = [a, b, c, d, e, f]"
    using assms(1) by (auto simp: length_Suc_conv eval_nat_numeral)
  have "candle_series (candles (sample_dataset ps))"
    using assms by (intro sample_candle_series) (auto simp: list_all_iff)
  then have "wf_source (sample_snapshot ps)"
    by (simp add: wf_source_def sample_snapshot_def dataset.defs) (simp add: sample_dataset_def enumerate_from_def)
  moreover have "clean_series (candles (sample_dataset ps))"
    unfolding ps by (simp add: clean_series_def mixed_series_def sample_candles) (simp add: sample_candle_def)
  ultimately show ?thesis
    using assms(1) by (simp add: wf_dataset_def sample_snapshot_def dataset.defs) (simp add: sample_dataset_def)
qed

theorem wf_no_lookahead_witness:
  "\<exists>split split' us us' vs vs'.
     generate_test_signals (sample_snapshot [10, 9, 8, 7, 6, 5]) split
       (ema_generate \<lparr>fast_period = 2, slow_period = 3\<rparr>) = Inr (us @ vs)
     \<and> generate_test_signals (sample_snapshot [10, 9, 8, 7, 6, 12]) split'
       (ema_generate \<lparr>fast_period = 2, slow_period = 3\<rparr>) = Inr (us' @ vs')
     \<and> map signal_content us = map signal_content us'
     \<and> signals_within (sample_snapshot [10, 9, 8, 7, 6, 12]) 5 6 vs'"
proof -
  let ?cfg = "\<lparr>train_candles = 2, test_candles = 3, step_candles = 3, gap_candles = 1, wf_mode = ROLLING\<rparr>"
  let ?a = "sample_snapshot [10, 9, 8, 7, 6, 5]" and ?b = "sample_snapshot [10, 9, 8, 7, 6, 12]"
  let ?gen = "ema_generate \<lparr>fast_period = 2, slow_period = 3\<rparr>"
  have cfg: "valid_wf_config ?cfg" by (simp add: valid_wf_config_def)
  have ds: "wf_dataset ?a" "wf_dataset ?b" by (simp_all add: sample_snapshot_clean)
  have n: "0 < fold_total ?cfg (candle_count ?a)" "0 < fold_total ?cfg (candle_count ?b)"
    by (simp_all add: fold_total_def required_candles_def sample_snapshot_def dataset.defs sample_dataset_def)
  let ?f = "expected_fold (candles ?a) ?cfg 0"
  have same: "expected_fold (candles ?b) ?cfg 0 = ?f"
    by (simp add: expected_fold_def Let_def fold_start_def sample_snapshot_def dataset.defs sample_candles)
  have f: "test_start_index ?f = 3" "test_end_index ?f = 6"
    by (simp_all add: expected_fold_def Let_def fold_start_def)
  obtain p s where s: "split_of ?a p ?f s" using split_exists [OF ds(1) cfg n(1)] by blast
  obtain p' s' where s': "split_of ?b p' ?f s'" using split_exists [OF ds(2) cfg n(2)] same by auto
  have inside: "fold_inside ?a ?f" "fold_inside ?b ?f"
    using expected_fold_inside [OF cfg n(1)] expected_fold_inside [OF cfg n(2)] same by simp_all
  have st: "crossover_configured \<lparr>fast_period = 2, slow_period = 3\<rparr>" by (simp add: crossover_configured_def)
  obtain sigs where sigs: "generate_test_signals ?a s ?gen = Inr sigs"
    using ema_strategy.fold_signals_sound [OF st ds(1) s inside(1)] by blast
  obtain sigs' where sigs': "generate_test_signals ?b s' ?gen = Inr sigs'"
    using ema_strategy.fold_signals_sound [OF st ds(2) s' inside(2)] by blast
  have fs: "split_fold s = ?f" "split_fold s' = split_fold s" using s s' by (simp_all add: split_of_def)
  have "WalkForwardFold ?f = Inr ?f"
  proof (rule expected_fold_valid [OF cfg])
    show "candle_series (candles ?a)" using ds(1) by (simp add: wf_dataset_def wf_source_def)
    show "fold_start ?cfg 0 + test_candles ?cfg \<le> int (length (candles ?a))"
      by (simp add: fold_start_def sample_snapshot_def dataset.defs sample_candles)
  qed
  then have valid: "WalkForwardFold (split_fold s) = Inr (split_fold s)" by (simp add: fs)
  have "agree_upto (nat 5) ?a ?b"
    by (simp add: agree_upto_def sample_snapshot_def dataset.defs sample_candles) (simp add: sample_dataset_def)
  then obtain us us' vs vs' where "sigs = us @ vs" "sigs' = us' @ vs'"
      "map signal_content us = map signal_content us'" "signals_within ?b 5 6 vs'"
    using wf_no_lookahead [OF valid fs(2) _ _ _ sigs sigs', of 5] by (auto simp: fs(1) f)
  then show ?thesis using sigs sigs'
    by (intro exI [of _ s] exI [of _ s'] exI [of _ us] exI [of _ us'] exI [of _ vs] exI [of _ vs'] conjI) simp_all
qed



text \<open>A strategy that stays silent, on the test candle of a one-candle fold.\<close>

lemma silent_test_signal:
  assumes ds: "wf_dataset ds" and split: "split_of ds p f s" and f: "fold_inside ds f"
    and i: "test_start_index f \<le> i" "i < test_end_index f"
  shows "test_signal ds s (\<lambda>_. Inr []) i = Inr None"
proof -
  obtain ctx where "test_signal ds s (\<lambda>_. Inr []) i = bindR (Inr []) (\<lambda>sigs. single_test_signal (test_dataset s)
      (filter (\<lambda>u. candle_open_time u = open_time (candles ds ! nat i)
        \<and> candle_close_time u = close_time (candles ds ! nat i)) sigs))"
    using test_signal_context [OF assms, of "\<lambda>_. Inr []"] by blast
  then show ?thesis by (simp add: single_test_signal_def)
qed

definition sample_label :: signal_text where
  "sample_label = \<lparr>strategy_name = ''s'', strategy_version = ''1'', long_reason = ''l'', short_reason = ''s''\<rparr>"

definition sample_wf_backtest :: backtest_config where
  "sample_wf_backtest = \<lparr>starting_balance = 1000, allocation_fraction = 1 / 2, fee_rate = 1 / 1000, slippage_rate = 0\<rparr>"

lemma sample_fold_runs:
  assumes ds: "wf_dataset ds" and split: "split_of ds p f s" and f: "fold_inside ds f"
    and one: "py_slice (test_start_index f) (test_end_index f) (candles ds) = [sample_candle (n, price)]"
    and price: "price \<in> {8, 10}"
  shows "\<exists>x. execute_fold payload ds sample_label (\<lambda>_. Inr []) 1 sample_wf_backtest s = Inr x"
proof -
  let ?test = "dataset.truncate (test_dataset s)" and ?cfg = sample_wf_backtest
  let ?rid = "build_research_backtest_run_id (dataset_id ?test) ''s'' ''1'' payload []"
  let ?bid = "build_benchmark_run_id (dataset_id ?test) payload"
  have silent: "generate_test_signals ds s (\<lambda>_. Inr []) = Inr []"
  proof -
    have "collectR (test_signal ds s (\<lambda>_. Inr [])) xs = Inr []"
      if "set xs \<subseteq> {test_start_index f..<test_end_index f}" for xs
      using that silent_test_signal [OF ds split f] by (induction xs) auto
    then show ?thesis using split by (simp add: generate_test_signals_def split_of_def atLeastLessThan_def
          atLeastAtMost_def subset_iff)
  qed
  have test: "snapshot_of [sample_candle (n, price)]
      (py_slice (test_start_index f) (test_end_index f) (candle_texts ds)) (test_dataset s)"
    using split one by (simp add: split_of_def)
  then have cs: "candles ?test = [sample_candle (n, price)]" by (simp add: snapshot_of_def dataset.defs)
  have "candle_series [sample_candle (n, price)]"
    using price by (auto simp: candle_series_def valid_candle_iff sample_candle_def sized_def)
  then have rds: "research_dataset ?test" using snapshot_research [OF test] by simp
  have id: "strip (dataset_id ?test) \<noteq> []"
    using test by (simp add: snapshot_of_def dataset.defs strip_Nil_iff is_space_def)
  have cfg: "valid_config ?cfg" by (simp add: valid_config_def config_fields_def sample_wf_backtest_def)
  have input: "pipeline_input ?test ''s'' ''1'' []"
    by (simp add: pipeline_input_def signals_for_def strip_Nil_iff is_space_def)
  have bt: "run_backtest ?rid ?test [] ?cfg = Inr []"
    using research_run_id(2)
    by (simp add: run_backtest_def validate_signals_def raising_Inr_iff schedule_signals_def cs initial_run_def
        run_step_def raising.simps Let_def)
  obtain bs where bs: "buy_and_hold_events ?bid ?test ?cfg = Inr bs" "map event_price bs = [price, price]"
      "map event_quantity bs = [500 / price, 500 / price]"
    using buy_and_hold_log [OF rds cfg, of ?bid] price by (auto simp: cs sample_wf_backtest_def dec_eval)
  then have fits: "money_fits 1000 ?cfg bs" "money_fits 1000 ?cfg []"
    using price by (auto simp: money_fits_def traded_value_def on_grid_def sample_wf_backtest_def)
  obtain r where r: "run_with_signals payload ?test ''s'' ''1'' [] 1 (Some ?cfg) = Inr r"
    using pipeline_runs [where config = "Some ?cfg" and payload = payload and sigs = "[]", unfolded effective_config_def option.case list.map,
        OF rds id order_refl input cfg bt fits(2) bs(1) fits(1)] by blast
  have "pipeline_dataset_id r = dataset_id (test_dataset s)"
    using pipeline_facts(1) [OF r] by (simp add: dataset.defs)
  moreover have "has_id_form ''walk-forward-split-'' 16 (split_id s)" "1 \<le> fold_number f"
    "1 \<le> length (dataset_id (test_dataset s))" "split_fold s = f"
    using split f test
    by (auto simp: split_of_def WalkForwardDatasetSplit_def bindR_Inr_iff check_fields_Inr_iff fold_inside_def
        snapshot_of_def)
  ultimately show ?thesis
    by (simp add: execute_fold_def silent r sample_label_def WalkForwardFoldExecution_def check_fields_pass raising.simps)
qed


lemma silent_rounds:
  "mapR run ss = Inr xs \<Longrightarrow> foldR (execution_step run (\<lambda>_ _ _. Inr ()) n) acc ss = Inr (acc @ xs)"
  by (induction ss arbitrary: acc xs) (auto simp: bindR_Inr_iff execution_step_def)

lemma sample_rounds:
  "\<exists>p m xs. plan_walk_forward (sample_snapshot [10, 9, 8, 10, 6, 8]) sample_wf_config = Some (Inr p)
     \<and> materialize (sample_snapshot [10, 9, 8, 10, 6, 8]) p = Inr m \<and> length (splits m) = 2
     \<and> mapR (execute_fold ''{}'' (sample_snapshot [10, 9, 8, 10, 6, 8]) sample_label (\<lambda>_. Inr []) 1 sample_wf_backtest)
         (splits m) = Inr xs"
proof -
  let ?ds = "sample_snapshot [10, 9, 8, 10, 6, 8]" and ?cfg = sample_wf_config
  have ds: "wf_dataset ?ds" by (simp add: sample_snapshot_clean)
  have cfg: "valid_wf_config ?cfg" by (rule WalkForwardConfig_valid [OF sample_wf_config])
  have n: "required_candles ?cfg \<le> candle_count ?ds" "fold_total ?cfg (candle_count ?ds) = 2"
    by (simp_all add: fold_total_def required_candles_def sample_wf_config_def sample_snapshot_def dataset.defs
        sample_dataset_def)
  obtain p m where m: "plan_walk_forward ?ds ?cfg = Some (Inr p)" "materialize ?ds p = Inr m"
      "folds p = map (expected_fold (candles ?ds) ?cfg) [0..<2]" "list_all2 (split_of ?ds p) (folds p) (splits m)"
    using materialize_runs [OF ds cfg n(1), unfolded n(2)] by blast
  have each: "\<exists>x. execute_fold ''{}'' ?ds sample_label (\<lambda>_. Inr []) 1 sample_wf_backtest s = Inr x"
    if s: "s \<in> set (splits m)" for s
  proof -
    obtain f where f: "f \<in> set (folds p)" "split_of ?ds p f s"
      using m(4) s by (metis in_set_conv_nth list_all2_conv_all_nth)
    then obtain k where k: "k < 2" "f = expected_fold (candles ?ds) ?cfg k" unfolding m(3) by auto
    have "py_slice (test_start_index f) (test_end_index f) (candles ?ds)
        = [sample_candle (3 + 2 * int k, if k = 0 then 10 else 8)]"
      using k by (auto simp: less_2_cases_iff expected_fold_def Let_def fold_start_def sample_wf_config_def
          sample_snapshot_def dataset.defs sample_candles py_slice_def)
    then show ?thesis
      using sample_fold_runs [OF ds f(2)] expected_fold_inside [OF cfg, of k ?ds] k n(2) by auto
  qed
  then have "\<And>s. s \<in> set (splits m) \<Longrightarrow>
      returns (execute_fold ''{}'' ?ds sample_label (\<lambda>_. Inr []) 1 sample_wf_backtest s)"
    unfolding returns_iff by blast
  then obtain xs where "mapR (execute_fold ''{}'' ?ds sample_label (\<lambda>_. Inr []) 1 sample_wf_backtest) (splits m) = Inr xs"
    using mapR_returns by blast
  moreover have "length (splits m) = 2" using list_all2_lengthD [OF m(4)] m(3) by simp
  ultimately show ?thesis using m(1,2) by blast
qed

text \<open>
  C26: a walk-forward run whose rounds all succeed ends with a result, whatever the strategy and the
  callbacks do. The result has exactly the folds of the rounds, passes the validators of the summary and
  of the whole execution (fold numbers, strategy, configuration, identifiers), and its wins, losses and
  ties add up to the number of folds.
\<close>

theorem walk_forward_completes:
  assumes "WalkForwardConfig train test step gap mode = Inr cfg" "wf_dataset ds"
    and "plan_walk_forward ds cfg = Some (Inr p)" "materialize ds p = Inr m"
    and "1 \<le> h" "sized 1 100 (strategy_name lbl)" "sized 1 30 (strategy_version lbl)"
    and "distinct (map parameter_name params)"
    and "foldR (execution_step (execute_fold payload ds lbl generate h (effective_config config)) notify
      (int (length (splits m)))) [] (splits m) = Inr xs"
  shows "\<exists>r. execute_walk_forward payload ds m lbl generate params h config notify [] = Inr r
    \<and> fold_results r = xs \<and> summarize_folds xs = Inr (execution_summary r)
    \<and> strategy_wins (execution_summary r) + benchmark_wins (execution_summary r) + ties (execution_summary r)
      = int (fold_total cfg (candle_count ds))"
proof -
  have cfg: "valid_wf_config cfg" using WalkForwardConfig_valid [OF assms(1)] .
  then have fits: "required_candles cfg \<le> candle_count ds"
    using plan_runs [OF cfg, of ds] assms(2,3) by (force simp: wf_dataset_def split: if_splits)
  have m: "WalkForwardMaterialization m = Inr m" "materialized_plan m = p" "materialized_source_id m = dataset_id ds"
    "list_all2 (split_of ds p) (folds p) (splits m)"
    "folds p = map (expected_fold (candles ds) cfg) [0..<fold_total cfg (candle_count ds)]"
    using materialize_runs [OF assms(2) cfg fits] assms(3,4) by auto
  have "WalkForwardPlan p = Inr p"
    using plan_runs [OF cfg, of ds] assms(2,3) fits by (auto simp: wf_dataset_def)
  moreover have "length (splits m) = fold_total cfg (candle_count ds)" using list_all2_lengthD [OF m(4)] m(5) by simp
  ultimately show ?thesis
    using execution_completes [OF m(1) _ m(3) assms(5-9)] by (simp add: m(2))
qed

theorem walk_forward_completes_witness:
  "\<exists>m r. execute_walk_forward ''{}'' (sample_snapshot [10, 9, 8, 10, 6, 8]) m sample_label (\<lambda>_. Inr []) [] 1
        (Some sample_wf_backtest) (\<lambda>_ _ _. Inr ()) [] = Inr r
     \<and> strategy_wins (execution_summary r) + benchmark_wins (execution_summary r) + ties (execution_summary r) = 2"
proof -
  let ?ds = "sample_snapshot [10, 9, 8, 10, 6, 8]"
  obtain p m xs where m: "plan_walk_forward ?ds sample_wf_config = Some (Inr p)" "materialize ?ds p = Inr m"
      "mapR (execute_fold ''{}'' ?ds sample_label (\<lambda>_. Inr []) 1 sample_wf_backtest) (splits m) = Inr xs"
    using sample_rounds by blast
  have eff: "effective_config (Some sample_wf_backtest) = sample_wf_backtest" by (simp add: effective_config_def)
  have rounds: "foldR (execution_step (execute_fold ''{}'' ?ds sample_label (\<lambda>_. Inr []) 1
      (effective_config (Some sample_wf_backtest))) (\<lambda>_ _ _. Inr ()) (int (length (splits m)))) [] (splits m) = Inr xs"
    unfolding eff using silent_rounds [OF m(3), where acc = "[]"] by simp
  have n: "fold_total sample_wf_config (candle_count ?ds) = 2"
    by (simp add: fold_total_def required_candles_def sample_wf_config_def sample_snapshot_def dataset.defs
        sample_dataset_def)
  have ds: "wf_dataset ?ds" by (simp add: sample_snapshot_clean)
  have lbl: "sized 1 100 (strategy_name sample_label)" "sized 1 30 (strategy_version sample_label)"
    by (simp_all add: sample_label_def sized_def)
  show ?thesis
    using walk_forward_completes [OF sample_wf_config ds m(1,2) order_refl lbl _ rounds, where params = "[]"]
    by (auto simp: n)
qed

text \<open>
  C25: resuming is equivalent to starting over. If the first \<open>k\<close> rounds of a run executed and reported
  their folds, a run that starts from those \<open>k\<close> completed folds accepts them and returns exactly what
  the uninterrupted run returns: the same result, or the same error.
\<close>

theorem walk_forward_resumes:
  assumes "foldR (execution_step (execute_fold payload ds lbl generate h (effective_config config)) notify
      (int (length (splits m)))) [] (take k (splits m)) = Inr xs" and "k \<le> length (splits m)"
  shows "execute_walk_forward payload ds m lbl generate params h config notify xs
    = execute_walk_forward payload ds m lbl generate params h config notify []"
  using resumed [OF assms] .

theorem walk_forward_resumes_witness:
  "\<exists>m x. execute_walk_forward ''{}'' (sample_snapshot [10, 9, 8, 10, 6, 8]) m sample_label (\<lambda>_. Inr []) [] 1
        (Some sample_wf_backtest) (\<lambda>_ _ _. Inr ()) [x]
      = execute_walk_forward ''{}'' (sample_snapshot [10, 9, 8, 10, 6, 8]) m sample_label (\<lambda>_. Inr []) [] 1
          (Some sample_wf_backtest) (\<lambda>_ _ _. Inr ()) [] \<and> length (splits m) = 2"
proof -
  let ?ds = "sample_snapshot [10, 9, 8, 10, 6, 8]"
  let ?run = "execute_fold ''{}'' ?ds sample_label (\<lambda>_. Inr []) 1 sample_wf_backtest"
  obtain m :: wf_materialization and xs where m: "length (splits m) = 2" "mapR ?run (splits m) = Inr xs" using sample_rounds by blast
  obtain s t where st: "splits m = [s, t]" using m(1) by (auto simp: length_Suc_conv eval_nat_numeral)
  then obtain x where "?run s = Inr x" using m(2) by (auto simp: bindR_Inr_iff)
  then have "foldR (execution_step (execute_fold ''{}'' ?ds sample_label (\<lambda>_. Inr []) 1
      (effective_config (Some sample_wf_backtest))) (\<lambda>_ _ _. Inr ()) (int (length (splits m)))) [] (take 1 (splits m))
    = Inr [x]"
    by (simp add: st execution_step_def effective_config_def)
  then show ?thesis using walk_forward_resumes [where k = 1] m(1) by (intro exI [of _ m] exI [of _ x]) simp
qed

end
