(* ===== verification/Walk_Forward_Runs.thy ===== *)
theory Walk_Forward_Runs imports Walk_Forward_Execution
begin

text \<open>
  Stored walk-forward runs (\<open>trd_bot/research/walk_forward_runs.py\<close>) and the stability report of one run
  (\<open>trd_bot/research/walk_forward_reporting.py\<close>). The registry meets the contract of
  \<open>first_write_store\<close>, and the report of a run that the executor produced always exists.
\<close>

section \<open>Stored runs\<close>

record wf_run =
  run_execution_id :: string
  run_created_at :: int
  run_walk_forward_config :: wf_config
  run_result :: wf_execution

definition WalkForwardResearchRun :: "timestamp \<Rightarrow> wf_run \<Rightarrow> wf_run result" where
  "WalkForwardResearchRun created x = bindR (check_fields
     [(''execution_id'', has_id_form ''walk-forward-execution-'' 16 (run_execution_id x)),
      (''created_at'', aware created)] x)
     (raising
       [(run_execution_id x \<noteq> execution_id (run_result x),
           ValueError ''stored execution ID does not match result''),
        (execution_plan_id (run_result x)
           \<noteq> build_walk_forward_plan_id (execution_source_id (run_result x)) (run_walk_forward_config x),
           ValueError ''walk-forward config does not match result plan'')])"

record wf_run_summary =
  listed_execution_id :: string
  listed_created_at :: int
  listed_source_id :: string
  listed_plan_id :: string
  listed_strategy_name :: string
  listed_strategy_version :: string
  listed_horizon :: int
  listed_parameters :: "experiment_parameter list"
  listed_walk_forward_config :: wf_config
  listed_backtest_config :: backtest_config
  listed_total_folds :: int
  listed_total_signals :: int
  listed_folds_with_trades :: int
  listed_strategy_wins :: int
  listed_benchmark_wins :: int
  listed_ties :: int
  listed_strategy_return :: rat
  listed_benchmark_return :: rat
  listed_excess_return :: rat
  listed_worst_drawdown :: rat

definition WalkForwardRunSummary :: "wf_run_summary \<Rightarrow> wf_run_summary result" where
  "WalkForwardRunSummary s = check_fields
     [(''execution_id'', has_id_form ''walk-forward-execution-'' 16 (listed_execution_id s)),
      (''source_dataset_id'', 1 \<le> length (listed_source_id s)),
      (''plan_id'', has_id_form ''walk-forward-'' 16 (listed_plan_id s)),
      (''strategy_name'', sized 1 100 (listed_strategy_name s)),
      (''strategy_version'', sized 1 30 (listed_strategy_version s)),
      (''horizon_candles'', 1 \<le> listed_horizon s), (''total_folds'', 1 \<le> listed_total_folds s),
      (''total_signals'', 0 \<le> listed_total_signals s), (''folds_with_trades'', 0 \<le> listed_folds_with_trades s),
      (''strategy_wins'', 0 \<le> listed_strategy_wins s), (''benchmark_wins'', 0 \<le> listed_benchmark_wins s),
      (''ties'', 0 \<le> listed_ties s), (''worst_max_drawdown_fraction'', 0 \<le> listed_worst_drawdown s)] s"

definition summary_from_run :: "wf_run \<Rightarrow> wf_run_summary result" where
  "summary_from_run x =
     (let r = run_result x; s = execution_summary r
      in WalkForwardRunSummary
        \<lparr>listed_execution_id = run_execution_id x, listed_created_at = run_created_at x,
         listed_source_id = execution_source_id r, listed_plan_id = execution_plan_id r,
         listed_strategy_name = execution_strategy_name r, listed_strategy_version = execution_strategy_version r,
         listed_horizon = execution_horizon r, listed_parameters = strategy_parameters r,
         listed_walk_forward_config = run_walk_forward_config x, listed_backtest_config = execution_config r,
         listed_total_folds = total_folds s, listed_total_signals = total_fold_signals s,
         listed_folds_with_trades = folds_with_trades s, listed_strategy_wins = strategy_wins s,
         listed_benchmark_wins = benchmark_wins s, listed_ties = ties s,
         listed_strategy_return = average_strategy_return s, listed_benchmark_return = average_benchmark_return s,
         listed_excess_return = average_excess_return s, listed_worst_drawdown = worst_max_drawdown_fraction s\<rparr>)"

text \<open>\<open>clock\<close> is \<open>datetime.now(UTC)\<close>.\<close>

definition build_wf_run :: "wf_execution \<Rightarrow> wf_config \<Rightarrow> timestamp option \<Rightarrow> int \<Rightarrow> wf_run result" where
  "build_wf_run r cfg created_at clock =
     (let created = (case created_at of Some t \<Rightarrow> t | None \<Rightarrow> Aware clock)
      in WalkForwardResearchRun created
        \<lparr>run_execution_id = execution_id r, run_created_at = instant created, run_walk_forward_config = cfg,
         run_result = r\<rparr>)"

section \<open>Catalogue queries and the registry\<close>

datatype wf_sort_field = RUN_CREATED_AT | RUN_HORIZON_CANDLES

record wf_run_query =
  wanted_source :: "string option"
  wanted_plan :: "string option"
  wanted_run_strategy :: "string option"
  wanted_run_version :: "string option"
  wanted_run_horizon :: "int option"
  runs_from :: "int option"
  runs_to :: "int option"
  run_sort :: wf_sort_field
  run_direction :: sort_direction

definition WalkForwardRunCatalogQuery ::
  "string option \<Rightarrow> string option \<Rightarrow> string option \<Rightarrow> string option \<Rightarrow> int option \<Rightarrow> timestamp option
   \<Rightarrow> timestamp option \<Rightarrow> wf_sort_field \<Rightarrow> sort_direction \<Rightarrow> wf_run_query result" where
  "WalkForwardRunCatalogQuery source plan name version horizon created_from created_to field dir =
     (let q = \<lparr>wanted_source = map_option strip source, wanted_plan = map_option strip plan,
               wanted_run_strategy = map_option strip name, wanted_run_version = map_option strip version,
               wanted_run_horizon = horizon, runs_from = map_option instant created_from,
               runs_to = map_option instant created_to, run_sort = field, run_direction = dir\<rparr>
      in bindR (check_fields
           [(''source_dataset_id'', optional_sized 100 (wanted_source q)), (''plan_id'', optional_sized 100 (wanted_plan q)),
            (''strategy_name'', optional_sized 100 (wanted_run_strategy q)),
            (''strategy_version'', optional_sized 30 (wanted_run_version q)),
            (''horizon_candles'', case horizon of None \<Rightarrow> True | Some h \<Rightarrow> 1 \<le> h),
            (''created_at_from'', time_ok created_from), (''created_at_to'', time_ok created_to)] q)
           (raising [(range_reversed (runs_from q) (runs_to q),
              ValueError ''created_at_to must be on or after created_at_from'')]))"

definition default_run_query :: wf_run_query where
  "default_run_query =
     \<lparr>wanted_source = None, wanted_plan = None, wanted_run_strategy = None, wanted_run_version = None,
      wanted_run_horizon = None, runs_from = None, runs_to = None, run_sort = RUN_CREATED_AT,
      run_direction = ASCENDING\<rparr>"

definition run_matches :: "wf_run_query \<Rightarrow> wf_run \<Rightarrow> bool" where
  "run_matches q x \<longleftrightarrow>
     wants (wanted_source q) (execution_source_id (run_result x))
     \<and> wants (wanted_plan q) (execution_plan_id (run_result x))
     \<and> wants (wanted_run_strategy q) (execution_strategy_name (run_result x))
     \<and> wants (wanted_run_version q) (execution_strategy_version (run_result x))
     \<and> wants (wanted_run_horizon q) (execution_horizon (run_result x))
     \<and> created_between (runs_from q) (runs_to q) (run_created_at x)"

type_synonym run_store = "(string \<times> wf_run) list"

definition same_run :: "wf_run \<Rightarrow> wf_run \<Rightarrow> bool" where
  "same_run x y \<longleftrightarrow> run_walk_forward_config x = run_walk_forward_config y \<and> run_result x = run_result y"

definition run_save :: "run_store \<Rightarrow> wf_run \<Rightarrow> (run_store \<times> wf_run) result" where
  "run_save = keep_first run_execution_id same_run ''walk-forward execution ID already has different content''"

definition run_get :: "run_store \<Rightarrow> string \<Rightarrow> wf_run option" where
  "run_get reg i = map_of reg i"

definition run_count :: "run_store \<Rightarrow> int" where
  "run_count reg = int (length reg)"

definition list_all_runs :: "run_store \<Rightarrow> wf_run list" where
  "list_all_runs reg = sort_key (\<lambda>x. (run_created_at x, run_execution_id x)) (map snd reg)"

definition run_filter :: "run_store \<Rightarrow> wf_run_query \<Rightarrow> wf_run list" where
  "run_filter reg q = filter (run_matches q) (map snd reg)"

definition run_key :: "wf_sort_field \<Rightarrow> wf_run \<Rightarrow> int \<times> string" where
  "run_key f x =
     ((case f of RUN_CREATED_AT \<Rightarrow> run_created_at x | RUN_HORIZON_CANDLES \<Rightarrow> execution_horizon (run_result x)),
      run_execution_id x)"

definition run_count_matching :: "run_store \<Rightarrow> wf_run_query \<Rightarrow> int" where
  "run_count_matching reg q = int (length (run_filter reg q))"

definition run_search_page :: "run_store \<Rightarrow> wf_run_query \<Rightarrow> int \<Rightarrow> int \<Rightarrow> wf_run list result" where
  "run_search_page reg q limit offset = page_slice limit offset
     (py_sorted (run_direction q = DESCENDING) (run_key (run_sort q)) (run_filter reg q))"

definition run_list_page :: "run_store \<Rightarrow> int \<Rightarrow> int \<Rightarrow> wf_run list result" where
  "run_list_page reg limit offset = run_search_page reg default_run_query limit offset"

interpretation runs: first_write_store "keyed run_execution_id" run_execution_id same_run run_save map_of
  unfolding run_save_def by (rule keep_first_store)

section \<open>Fold statistics\<close>

datatype return_direction = POSITIVE_RETURN | NEGATIVE_RETURN | FLAT_RETURN

record fold_statistics =
  stat_fold_number :: int
  stat_trades :: int
  stat_return :: rat
  stat_benchmark_return :: rat
  stat_excess_return :: rat
  stat_drawdown :: rat
  stat_benchmark_drawdown :: rat
  stat_direction :: return_direction

definition WalkForwardFoldStatistics :: "fold_statistics \<Rightarrow> fold_statistics result" where
  "WalkForwardFoldStatistics f = check_fields
     [(''fold_number'', 1 \<le> stat_fold_number f), (''total_trades'', 0 \<le> stat_trades f),
      (''max_drawdown_fraction'', 0 \<le> stat_drawdown f),
      (''benchmark_max_drawdown_fraction'', 0 \<le> stat_benchmark_drawdown f)] f"

definition has_trades :: "fold_statistics \<Rightarrow> bool" where
  "has_trades f \<longleftrightarrow> stat_trades f > 0"

definition return_direction_of :: "rat \<Rightarrow> return_direction" where
  "return_direction_of v = (if v > 0 then POSITIVE_RETURN else if v < 0 then NEGATIVE_RETURN else FLAT_RETURN)"

definition fold_statistics_of :: "fold_execution \<Rightarrow> fold_statistics result" where
  "fold_statistics_of x =
     (let p = pipeline_performance (executed_result x);
          b = benchmark_report (pipeline_benchmark (executed_result x))
      in WalkForwardFoldStatistics
        \<lparr>stat_fold_number = executed_fold_number x, stat_trades = total_trades p, stat_return = total_return p,
         stat_benchmark_return = total_return b, stat_excess_return = dsub (total_return p) (total_return b),
         stat_drawdown = max_drawdown_fraction p, stat_benchmark_drawdown = max_drawdown_fraction b,
         stat_direction = return_direction_of (total_return p)\<rparr>)"

section \<open>The stability report\<close>

record stability_report =
  stability_execution_id :: string
  stability_folds :: int
  positive_folds :: int
  negative_folds :: int
  flat_folds :: int
  positive_fraction :: rat
  outperforming_folds :: int
  underperforming_folds :: int
  benchmark_ties :: int
  stability_average :: rat
  stability_median :: rat
  stability_best :: rat
  stability_worst :: rat
  stability_range :: rat
  absolute_deviation :: rat
  excess_average :: rat
  excess_median :: rat
  stability_drawdown :: rat
  stability_details :: "fold_statistics list"

definition validate_stability :: "stability_report \<Rightarrow> stability_report result" where
  "validate_stability r =
     bindR (raising
       [(int (length (stability_details r)) \<noteq> stability_folds r,
           ValueError ''stability fold count does not match fold details''),
        (positive_folds r + negative_folds r + flat_folds r \<noteq> stability_folds r,
           ValueError ''return outcome counts must equal total folds''),
        (outperforming_folds r + underperforming_folds r + benchmark_ties r \<noteq> stability_folds r,
           ValueError ''benchmark outcome counts must equal total folds'')] ()) (\<lambda>_.
     bindR (ddiv (of_int (positive_folds r)) (of_int (stability_folds r))) (\<lambda>expected.
       raising [(positive_fraction r \<noteq> expected, ValueError ''positive return fraction is inconsistent'')] r))"

definition WalkForwardStabilityReport :: "stability_report \<Rightarrow> stability_report result" where
  "WalkForwardStabilityReport r = bindR (check_fields
     [(''execution_id'', has_id_form ''walk-forward-execution-'' 16 (stability_execution_id r)),
      (''total_folds'', 1 \<le> stability_folds r), (''positive_return_folds'', 0 \<le> positive_folds r),
      (''negative_return_folds'', 0 \<le> negative_folds r), (''flat_return_folds'', 0 \<le> flat_folds r),
      (''positive_return_fraction'', 0 \<le> positive_fraction r \<and> positive_fraction r \<le> 1),
      (''outperforming_benchmark_folds'', 0 \<le> outperforming_folds r),
      (''underperforming_benchmark_folds'', 0 \<le> underperforming_folds r), (''benchmark_ties'', 0 \<le> benchmark_ties r),
      (''strategy_return_range'', 0 \<le> stability_range r),
      (''strategy_return_mean_absolute_deviation'', 0 \<le> absolute_deviation r),
      (''worst_max_drawdown_fraction'', 0 \<le> stability_drawdown r),
      (''folds'', 1 \<le> length (stability_details r))] r) validate_stability"

text \<open>The properties the report computes from its fields; \<open>min\<close> takes the first least element.\<close>

definition stability_traded_folds :: "stability_report \<Rightarrow> int" where
  "stability_traded_folds r = int (length (filter has_trades (stability_details r)))"

definition stability_untraded_folds :: "stability_report \<Rightarrow> int" where
  "stability_untraded_folds r = stability_folds r - stability_traded_folds r"

definition traded_fold_fraction :: "stability_report \<Rightarrow> rat result" where
  "traded_fold_fraction r = ddiv (of_int (stability_traded_folds r)) (of_int (stability_folds r))"

definition return_consistency :: "stability_report \<Rightarrow> rat result" where
  "return_consistency r =
     (if stability_range r = 0 then Inr 1
      else bindR (ddiv (absolute_deviation r) (stability_range r)) (\<lambda>d. Inr (dsub 1 (min 1 d))))"

definition worst_return_fold :: "stability_report \<Rightarrow> int result" where
  "worst_return_fold r =
     (case sort_key (\<lambda>f. (stat_return f, stat_fold_number f)) (stability_details r) of
        [] \<Rightarrow> Inl (ValueError ''min() iterable argument is empty'') | f # fs \<Rightarrow> Inr (stat_fold_number f))"

definition worst_drawdown_fold :: "stability_report \<Rightarrow> int option" where
  "worst_drawdown_fold r = map_option stat_fold_number
     (find (\<lambda>f. stat_drawdown f = max_default 0 (map stat_drawdown (stability_details r))) (stability_details r))"

section \<open>The analyzer\<close>

definition dec_average :: "rat list \<Rightarrow> rat result" where
  "dec_average xs = ddiv (dsum xs) (of_nat (length xs))"

text \<open>For values given; the analyzer has divided by their number before.\<close>

definition dec_median :: "rat list \<Rightarrow> rat result" where
  "dec_median xs =
     (let ordered = sort xs; middle = length ordered div 2
      in if ordered = [] then Inl OutOfRange
         else if length ordered mod 2 = 1 then Inr (ordered ! middle)
         else ddiv (dadd (ordered ! (middle - 1)) (ordered ! middle)) 2)"

definition mean_absolute_deviation :: "rat list \<Rightarrow> rat \<Rightarrow> rat result" where
  "mean_absolute_deviation xs avg = dec_average (map (\<lambda>x. dabs (dsub x avg)) xs)"

fun min_default :: "rat \<Rightarrow> rat list \<Rightarrow> rat" where
  "min_default d [] = d"
| "min_default d (x # xs) = foldl min x xs"

definition count_where :: "('a \<Rightarrow> bool) \<Rightarrow> 'a list \<Rightarrow> int" where
  "count_where P xs = int (length (filter P xs))"

definition analyze_stability :: "wf_run \<Rightarrow> stability_report result" where
  "analyze_stability run =
     bindR (mapR fold_statistics_of (fold_results (run_result run))) (\<lambda>fs.
     let rets = map stat_return fs; excess = map stat_excess_return fs;
         positive = count_where (\<lambda>f. stat_direction f = POSITIVE_RETURN) fs
     in bindR (dec_average rets) (\<lambda>avg.
        bindR (ddiv (of_int positive) (of_nat (length fs))) (\<lambda>fraction.
        bindR (dec_median rets) (\<lambda>med.
        bindR (mean_absolute_deviation rets avg) (\<lambda>mad.
        bindR (dec_average excess) (\<lambda>excess_avg.
        bindR (dec_median excess) (\<lambda>excess_med.
        WalkForwardStabilityReport
          \<lparr>stability_execution_id = run_execution_id run, stability_folds = int (length fs),
           positive_folds = positive, negative_folds = count_where (\<lambda>f. stat_direction f = NEGATIVE_RETURN) fs,
           flat_folds = count_where (\<lambda>f. stat_direction f = FLAT_RETURN) fs, positive_fraction = fraction,
           outperforming_folds = count_where (\<lambda>f. stat_excess_return f > 0) fs,
           underperforming_folds = count_where (\<lambda>f. stat_excess_return f < 0) fs,
           benchmark_ties = count_where (\<lambda>f. stat_excess_return f = 0) fs,
           stability_average = avg, stability_median = med,
           stability_best = max_default 0 rets, stability_worst = min_default 0 rets,
           stability_range = dsub (max_default 0 rets) (min_default 0 rets), absolute_deviation = mad,
           excess_average = excess_avg, excess_median = excess_med,
           stability_drawdown = max_default 0 (map stat_drawdown fs), stability_details = fs\<rparr>)))))))"


section \<open>What an execution gives a stored run\<close>

lemma planned_id:
  assumes "plan_walk_forward ds cfg = Some (Inr p)" shows "plan_id p = build_walk_forward_plan_id (dataset_id ds) cfg"
proof -
  obtain fs where "finish_plan ds cfg fs = Inr p"
    using assms by (auto simp: plan_walk_forward_def bindR_Inr_iff)
  then show ?thesis
    by (auto simp: finish_plan_def WalkForwardPlan_def bindR_Inr_iff check_fields_Inr_iff split: if_splits)
qed

lemma materialized_from: "materialize ds p = Inr m \<Longrightarrow> materialized_plan m = p \<and> materialized_source_id m = dataset_id ds"
  by (auto simp: materialize_def WalkForwardMaterialization_def bindR_Inr_iff check_fields_Inr_iff)

lemma executed_number:
  "execute_fold payload ds lbl generate h cfg s = Inr x \<Longrightarrow> 1 \<le> executed_fold_number x"
  by (auto simp: execute_fold_def bindR_Inr_iff WalkForwardFoldExecution_def check_fields_Inr_iff raising_Inr_iff)

lemma executed_facts:
  assumes "execute_walk_forward payload ds m lbl generate params h config notify [] = Inr r"
  shows "list_all2 (execution_of lbl (effective_config config)) (splits m) (fold_results r)"
    "\<forall>x \<in> set (fold_results r). 1 \<le> executed_fold_number x"
    "summarize_folds (fold_results r) = Inr (execution_summary r)"
    "WalkForwardExecutionResult payload r = Inr r"
    "execution_plan_id r = plan_id (materialized_plan m)" "execution_source_id r = dataset_id ds"
proof -
  let ?run = "execute_fold payload ds lbl generate h (effective_config config)"
  obtain xs s where xs: "foldR (execution_step ?run notify (int (length (splits m)))) [] (splits m) = Inr xs"
      and s: "summarize_folds xs = Inr s"
      and r: "WalkForwardExecutionResult payload
        \<lparr>execution_id = build_walk_forward_execution_id (plan_id (materialized_plan m)) (strategy_name lbl)
             (strategy_version lbl) (ordered_parameters params) h payload (run_ids_of xs),
           execution_source_id = dataset_id ds, execution_plan_id = plan_id (materialized_plan m),
           execution_strategy_name = strategy_name lbl, execution_strategy_version = strategy_version lbl,
           strategy_parameters = ordered_parameters params, execution_horizon = h,
           execution_config = effective_config config, fold_results = xs, execution_summary = s\<rparr> = Inr r"
        (is "WalkForwardExecutionResult payload ?r = _")
    using assms unfolding execute_walk_forward_def Let_def by (auto simp: bindR_Inr_iff)
  have same: "?r = r" using r by (auto simp: WalkForwardExecutionResult_def bindR_Inr_iff check_fields_Inr_iff)
  then show "WalkForwardExecutionResult payload r = Inr r" using r by metis
  have each: "mapR ?run (splits m) = Inr xs" using rounds_mapR [OF xs] by simp
  show "list_all2 (execution_of lbl (effective_config config)) (splits m) (fold_results r)"
    using executed_folds [OF each] by (simp flip: same)
  show "\<forall>x \<in> set (fold_results r). 1 \<le> executed_fold_number x"
    using each executed_number by (auto simp flip: same elim!: mapR_set)
  show "summarize_folds (fold_results r) = Inr (execution_summary r)"
    "execution_plan_id r = plan_id (materialized_plan m)" "execution_source_id r = dataset_id ds"
    using s by (simp_all flip: same)
qed

lemma summarized_fields: "summarize_folds xs = Inr s \<Longrightarrow>
  1 \<le> total_folds s \<and> 0 \<le> total_fold_signals s \<and> 0 \<le> folds_with_trades s \<and> 0 \<le> strategy_wins s
  \<and> 0 \<le> benchmark_wins s \<and> 0 \<le> ties s \<and> 0 \<le> worst_max_drawdown_fraction s"
  unfolding summarize_folds_def Let_def
  by (auto simp: bindR_Inr_iff WalkForwardExecutionSummary_def check_fields_Inr_iff raising_Inr_iff)

lemma run_built:
  assumes "plan_walk_forward ds cfg = Some (Inr p)" "materialize ds p = Inr m"
    and "execute_walk_forward payload ds m lbl generate params h config notify [] = Inr r"
    and "created_at = None \<or> aware (the created_at)"
  shows "\<exists>x. build_wf_run r cfg created_at clock = Inr x \<and> run_result x = r \<and> run_execution_id x = execution_id r
    \<and> (\<exists>s. summary_from_run x = Inr s)"
proof -
  note ex = executed_facts [OF assms(3)]
  have ids: "execution_plan_id r = build_walk_forward_plan_id (execution_source_id r) cfg"
    using ex(5,6) planned_id [OF assms(1)] materialized_from [OF assms(2)] by simp
  have fields: "has_id_form ''walk-forward-execution-'' 16 (execution_id r)" "1 \<le> length (execution_source_id r)"
    "has_id_form ''walk-forward-'' 16 (execution_plan_id r)" "sized 1 100 (execution_strategy_name r)"
    "sized 1 30 (execution_strategy_version r)" "1 \<le> execution_horizon r"
    using ex(4) by (auto simp: WalkForwardExecutionResult_def bindR_Inr_iff check_fields_Inr_iff)
  define x where "x = \<lparr>run_execution_id = execution_id r,
    run_created_at = instant (case created_at of Some t \<Rightarrow> t | None \<Rightarrow> Aware clock), run_walk_forward_config = cfg,
    run_result = r\<rparr>"
  have "build_wf_run r cfg created_at clock = Inr x"
    using ids fields(1) assms(4)
    by (auto simp: build_wf_run_def Let_def WalkForwardResearchRun_def check_fields_Inr_iff raising_Inr_iff x_def
        bindR_Inr_iff split: option.splits)
  moreover have "\<exists>s. summary_from_run x = Inr s"
    using fields summarized_fields [OF ex(3)]
    by (simp add: summary_from_run_def Let_def WalkForwardRunSummary_def check_fields_Inr_iff x_def)
  ultimately show ?thesis by (intro exI [of _ x]) (simp add: x_def)
qed

section \<open>The report of a run\<close>

text \<open>The statistics of a fold, as they are.\<close>

definition statistics_as :: "fold_execution \<Rightarrow> fold_statistics" where
  "statistics_as x =
     (let p = pipeline_performance (executed_result x);
          b = benchmark_report (pipeline_benchmark (executed_result x))
      in \<lparr>stat_fold_number = executed_fold_number x, stat_trades = total_trades p, stat_return = total_return p,
         stat_benchmark_return = total_return b, stat_excess_return = dsub (total_return p) (total_return b),
         stat_drawdown = max_drawdown_fraction p, stat_benchmark_drawdown = max_drawdown_fraction b,
         stat_direction = return_direction_of (total_return p)\<rparr>)"

lemma fold_statistics_run:
  assumes "execution_of lbl cfg s x" "1 \<le> executed_fold_number x"
  shows "fold_statistics_of x = Inr (statistics_as x)" "0 \<le> stat_drawdown (statistics_as x)"
  using assms by (auto simp: fold_statistics_of_def statistics_as_def Let_def WalkForwardFoldStatistics_def
      check_fields_Inr_iff execution_of_def report_fields_def)

lemma min_default_bound: "x \<in> set xs \<Longrightarrow> min_default d xs \<le> x"
  and min_default_in: "xs \<noteq> [] \<Longrightarrow> min_default d xs \<in> set xs"
proof -
  have eq: "min_default d (y # ys) = Min (set (y # ys))" for y ys
    using extreme_min [of "y # ys"] by simp
  show "x \<in> set xs \<Longrightarrow> min_default d xs \<le> x"
    by (cases xs) (auto simp only: eq list.set intro!: Min_le)
  show "xs \<noteq> [] \<Longrightarrow> min_default d xs \<in> set xs"
    by (cases xs) (metis, metis Min_in eq finite_set list.simps(3) set_empty)
qed

lemma dec_median_returns: "xs \<noteq> [] \<Longrightarrow> \<exists>m. dec_median xs = Inr m"
  by (cases "sort xs") (simp_all add: dec_median_def Let_def ddiv_nonzero)

lemma counted_thirds:
  "count_where (\<lambda>f. g f = POSITIVE_RETURN) xs + count_where (\<lambda>f. g f = NEGATIVE_RETURN) xs
    + count_where (\<lambda>f. g f = FLAT_RETURN) xs = int (length xs)"
  "count_where (\<lambda>f. k f > (0 :: rat)) xs + count_where (\<lambda>f. k f < 0) xs + count_where (\<lambda>f. k f = 0) xs = int (length xs)"
proof (induction xs)
  case (Cons x xs)
  { case 1 show ?case using Cons(1) by (cases "g x") (simp_all add: count_where_def) }
  { case 2 show ?case using Cons(2) by (cases "k x" "0 :: rat" rule: linorder_cases) (simp_all add: count_where_def) }
qed (simp_all add: count_where_def)

lemma count_where_bounds [simp]: "0 \<le> count_where P xs" "count_where P xs \<le> int (length xs)"
  by (simp_all add: count_where_def)

lemma unit_quotient:
  assumes "0 \<le> a" "a \<le> n" "0 < n" shows "0 \<le> dquot (of_int a) (of_int n) \<and> dquot (of_int a) (of_int n) \<le> 1"
  unfolding dquot_def using assms by (intro dc.rnd_unit_interval) simp_all

text \<open>A report whose fields and counts the analyzer derives from the folds passes its validators.\<close>

definition stability_of :: "fold_execution list \<Rightarrow> stability_report \<Rightarrow> bool" where
  "stability_of xs rep \<longleftrightarrow> stability_details rep = map statistics_as xs \<and> stability_folds rep = int (length xs)
     \<and> stability_worst rep = min_default 0 (map (\<lambda>x. total_return (pipeline_performance (executed_result x))) xs)
     \<and> stability_drawdown rep = max_default 0 (map stat_drawdown (map statistics_as xs))
     \<and> 0 \<le> absolute_deviation rep \<and> 0 \<le> stability_range rep"

lemma stability_runs:
  assumes "has_id_form ''walk-forward-execution-'' 16 (run_execution_id run)" "fold_results (run_result run) \<noteq> []"
    and "\<forall>x \<in> set (fold_results (run_result run)).
      fold_statistics_of x = Inr (statistics_as x) \<and> 0 \<le> stat_drawdown (statistics_as x)"
  shows "\<exists>rep. analyze_stability run = Inr rep \<and> stability_of (fold_results (run_result run)) rep"
proof -
  define xs where "xs = fold_results (run_result run)"
  define fs where "fs = map statistics_as xs"
  define rets where "rets = map stat_return fs"
  have fs: "mapR fold_statistics_of xs = Inr fs" unfolding fs_def using assms(3) by (intro mapR_total) (simp add: xs_def)
  have ne: "fs \<noteq> []" "rets \<noteq> []" "0 < length fs" using assms(2) by (simp_all add: fs_def xs_def rets_def)
  let ?avg = "dquot (dsum rets) (of_nat (length fs))"
  obtain med emed where med: "dec_median rets = Inr med" "dec_median (map stat_excess_return fs) = Inr emed"
    using dec_median_returns ne by (metis list.map_disc_iff)
  have dd: "0 \<le> max_default 0 (map stat_drawdown fs)"
    using max_default_cases [of 0 "map stat_drawdown fs"] assms(3) by (auto simp: fs_def xs_def)
  have "min_default 0 rets \<le> max_default 0 rets"
    using min_default_in [OF ne(2)] max_default_bound by blast
  then have range: "0 \<le> dsub (max_default 0 rets) (min_default 0 rets)" by (simp add: dsub_def dc.rnd_nonneg)
  have mad: "0 \<le> dquot (dsum (map (\<lambda>x. dabs (dsub x ?avg)) rets)) (of_nat (length fs))"
    unfolding dquot_def by (intro dc.rnd_nonneg divide_nonneg_nonneg dsum_nonneg) (auto simp: dabs_def dc.rnd_nonneg)
  have ret: "stat_direction f = return_direction_of (stat_return f)" if "f \<in> set fs" for f
    using that by (auto simp: fs_def statistics_as_def Let_def)
  let ?c = "\<lambda>P. count_where P fs"
  have frac: "0 \<le> dquot (of_int (?c P)) (of_nat (length fs)) \<and> dquot (of_int (?c P)) (of_nat (length fs)) \<le> 1" for P
    using unit_quotient [of "?c P" "int (length fs)"] count_where_bounds [of P fs] ne(3) by simp
  define rep where "rep = \<lparr>stability_execution_id = run_execution_id run, stability_folds = int (length fs),
    positive_folds = ?c (\<lambda>f. stat_direction f = POSITIVE_RETURN),
    negative_folds = ?c (\<lambda>f. stat_direction f = NEGATIVE_RETURN), flat_folds = ?c (\<lambda>f. stat_direction f = FLAT_RETURN),
    positive_fraction = dquot (of_int (?c (\<lambda>f. stat_direction f = POSITIVE_RETURN))) (of_nat (length fs)),
    outperforming_folds = ?c (\<lambda>f. stat_excess_return f > 0), underperforming_folds = ?c (\<lambda>f. stat_excess_return f < 0),
    benchmark_ties = ?c (\<lambda>f. stat_excess_return f = 0), stability_average = ?avg, stability_median = med,
    stability_best = max_default 0 rets, stability_worst = min_default 0 rets,
    stability_range = dsub (max_default 0 rets) (min_default 0 rets),
    absolute_deviation = dquot (dsum (map (\<lambda>x. dabs (dsub x ?avg)) rets)) (of_nat (length fs)),
    excess_average = dquot (dsum (map stat_excess_return fs)) (of_nat (length fs)), excess_median = emed,
    stability_drawdown = max_default 0 (map stat_drawdown fs), stability_details = fs\<rparr>"
  have "WalkForwardStabilityReport rep = Inr rep"
    using assms(1) range mad dd frac counted_thirds(1) [of stat_direction fs]
      counted_thirds(2) [of stat_excess_return fs] ne(3)
    by (simp add: WalkForwardStabilityReport_def check_fields_Inr_iff validate_stability_def raising_Inr_iff rep_def
        ddiv_nonzero Suc_le_eq bindR_Inr_iff)
  moreover have "analyze_stability run = WalkForwardStabilityReport rep"
    unfolding analyze_stability_def xs_def [symmetric] fs bindR.simps Let_def
    using ne med by (simp add: dec_average_def ddiv_nonzero mean_absolute_deviation_def rets_def rep_def)
  moreover have "stability_of xs rep"
    using range mad by (simp add: stability_of_def rep_def fs_def rets_def comp_def statistics_as_def Let_def)
  ultimately show ?thesis by (simp add: xs_def)
qed

text \<open>What the computed properties of such a report say.\<close>

lemma stability_computed:
  assumes "stability_of xs rep" "xs \<noteq> []"
  shows "\<exists>t. traded_fold_fraction rep = Inr t \<and> 0 \<le> t \<and> t \<le> 1"
    "\<exists>c. return_consistency rep = Inr c \<and> 0 \<le> c \<and> c \<le> 1"
    "\<exists>f \<in> set (stability_details rep). worst_return_fold rep = Inr (stat_fold_number f)
       \<and> stat_return f = stability_worst rep"
    "\<exists>f \<in> set (stability_details rep). worst_drawdown_fold rep = Some (stat_fold_number f)
       \<and> stat_drawdown f = stability_drawdown rep"
proof -
  define fs where "fs = stability_details rep"
  have rep: "fs = map statistics_as xs" "stability_folds rep = int (length fs)" "fs \<noteq> []"
      "stability_worst rep = min_default 0 (map stat_return fs)"
      "stability_drawdown rep = max_default 0 (map stat_drawdown fs)"
      "0 \<le> absolute_deviation rep" "0 \<le> stability_range rep"
    using assms by (auto simp: stability_of_def fs_def comp_def statistics_as_def Let_def)
  have "0 \<le> stability_traded_folds rep" "stability_traded_folds rep \<le> stability_folds rep" "0 < stability_folds rep"
    using rep(2,3) by (simp_all add: stability_traded_folds_def fs_def)
  then show "\<exists>t. traded_fold_fraction rep = Inr t \<and> 0 \<le> t \<and> t \<le> 1"
    using unit_quotient [of "stability_traded_folds rep" "stability_folds rep"]
    by (simp add: traded_fold_fraction_def ddiv_nonzero)
  have "0 \<le> dsub 1 (min 1 q) \<and> dsub 1 (min 1 q) \<le> 1" if "0 \<le> q" for q
    unfolding dsub_def using that by (intro dc.rnd_unit_interval) auto
  moreover have "0 \<le> dquot (absolute_deviation rep) (stability_range rep)"
    unfolding dquot_def using rep(6,7) by (intro dc.rnd_nonneg divide_nonneg_nonneg)
  ultimately show "\<exists>c. return_consistency rep = Inr c \<and> 0 \<le> c \<and> c \<le> 1"
    by (simp add: return_consistency_def ddiv_nonzero)
  let ?k = "\<lambda>f :: fold_statistics. (stat_return f, stat_fold_number f)"
  obtain f gs where f: "sort_key (\<lambda>f. (stat_return f, stat_fold_number f)) fs = f # gs" using rep(3) by (cases "sort_key ?k fs") simp_all
  have "f \<in> set fs" "\<And>g. g \<in> set fs \<Longrightarrow> ?k f \<le> ?k g"
    using sort_key_first [OF rep(3), where key = ?k] by (simp_all add: f)
  then have least: "f \<in> set fs" "\<And>g. g \<in> set fs \<Longrightarrow> stat_return f \<le> stat_return g"
    by (blast, force simp: less_eq_prod_def)
  obtain g where "g \<in> set fs" "stat_return g = min_default 0 (map stat_return fs)"
    using min_default_in [of "map stat_return fs" 0] rep(3) by auto
  then have "stat_return f = stability_worst rep"
    using least min_default_bound [of "stat_return f" "map stat_return fs" 0] rep(4) by force
  then show "\<exists>f \<in> set (stability_details rep). worst_return_fold rep = Inr (stat_fold_number f)
       \<and> stat_return f = stability_worst rep"
    using least(1) f by (auto simp: worst_return_fold_def fs_def)
  let ?P = "\<lambda>f. stat_drawdown f = max_default 0 (map stat_drawdown fs)"
  obtain g where "g \<in> set fs" "?P g" using max_default_cases [of 0 "map stat_drawdown fs"] rep(3) by auto
  then obtain g' where g': "find ?P fs = Some g'" by (cases "find ?P fs") (auto simp: find_None_iff)
  then have "g' \<in> set fs" "?P g'" by (auto simp: find_Some_iff)
  then show "\<exists>f \<in> set (stability_details rep). worst_drawdown_fold rep = Some (stat_fold_number f)
       \<and> stat_drawdown f = stability_drawdown rep"
    using g' rep(5) by (auto simp: worst_drawdown_fold_def fs_def)
qed


section \<open>Properties\<close>

text \<open>
  C35: every result of the walk-forward executor for a planned and materialized dataset can be stored, listed
  and reported on, whatever the strategy and the callbacks did. The stability report counts every fold of
  the plan; its traded fraction and return consistency lie between zero and one; and the folds it names
  as worst have its least return and its largest drawdown. Storing the result again, at another time,
  finds the stored record and changes nothing.
\<close>

theorem stability_report_exists:
  assumes "plan_walk_forward ds cfg = Some (Inr p)" "materialize ds p = Inr m"
    and "execute_walk_forward payload ds m lbl generate params h config notify [] = Inr r"
  shows "\<exists>x s rep x'. build_wf_run r cfg (Some (Aware t)) clock = Inr x \<and> summary_from_run x = Inr s
    \<and> analyze_stability x = Inr rep \<and> length (stability_details rep) = length (splits m)
    \<and> (\<exists>v c. traded_fold_fraction rep = Inr v \<and> 0 \<le> v \<and> v \<le> 1 \<and> return_consistency rep = Inr c \<and> 0 \<le> c \<and> c \<le> 1)
    \<and> (\<exists>f \<in> set (stability_details rep). worst_return_fold rep = Inr (stat_fold_number f)
         \<and> (\<forall>g \<in> set (stability_details rep). stat_return f \<le> stat_return g))
    \<and> (\<exists>f \<in> set (stability_details rep). worst_drawdown_fold rep = Some (stat_fold_number f)
         \<and> (\<forall>g \<in> set (stability_details rep). stat_drawdown g \<le> stat_drawdown f))
    \<and> build_wf_run r cfg None clock' = Inr x'
    \<and> (\<forall>store store' y. keyed run_execution_id store \<longrightarrow> run_save store x = Inr (store', y) \<longrightarrow>
         run_get store' (execution_id r) = Some y \<and> run_save store' x' = Inr (store', y))"
proof -
  note ex = executed_facts [OF assms(3)] and built = run_built [OF assms]
  obtain x s where x: "build_wf_run r cfg (Some (Aware t)) clock = Inr x" "run_result x = r"
      "run_execution_id x = execution_id r" "summary_from_run x = Inr s"
    using built [of "Some (Aware t)" clock] by auto
  obtain x' where x': "build_wf_run r cfg None clock' = Inr x'" "run_result x' = r" "run_execution_id x' = execution_id r"
    using built [of None clock'] by auto
  have "execution_of lbl (effective_config config) (splits m ! i) (fold_results r ! i)" if "i < length (fold_results r)" for i
    using list_all2_nthD2 [OF ex(1) that] .
  then have stats: "\<forall>y \<in> set (fold_results r). fold_statistics_of y = Inr (statistics_as y) \<and> 0 \<le> stat_drawdown (statistics_as y)"
    using ex(2) fold_statistics_run by (metis in_set_conv_nth)
  have ne: "has_id_form ''walk-forward-execution-'' 16 (execution_id r)" "fold_results r \<noteq> []"
    using ex(4) by (auto simp: WalkForwardExecutionResult_def bindR_Inr_iff check_fields_Inr_iff)
  obtain rep where rep: "analyze_stability x = Inr rep" "stability_of (fold_results r) rep"
    using stability_runs [of x] ne stats x(2,3) by auto
  note says = stability_computed [OF rep(2) ne(2)]
  have extremes: "stability_worst rep \<le> stat_return g" "stat_drawdown g \<le> stability_drawdown rep"
    if "g \<in> set (stability_details rep)" for g
    using rep(2) that min_default_bound max_default_bound
    by (auto simp: stability_of_def statistics_as_def Let_def)
  have len: "length (stability_details rep) = length (splits m)"
    using rep(2) list_all2_lengthD [OF ex(1)] by (simp add: stability_of_def)
  have cfgs: "run_walk_forward_config x = cfg" "run_walk_forward_config x' = cfg"
    using x(1) x'(1) by (auto simp: build_wf_run_def Let_def WalkForwardResearchRun_def bindR_Inr_iff
        check_fields_Inr_iff raising_Inr_iff)
  have "run_get store' (execution_id r) = Some y \<and> run_save store' x' = Inr (store', y)"
    if "keyed run_execution_id store" "run_save store x = Inr (store', y)" for store store' y
  proof -
    have "same_run y x'" using runs.stored(5) [OF that] x(2) x'(2) cfgs by (auto simp: same_run_def)
    then show ?thesis using runs.stored(2) [OF that] runs.store_again [OF that] x(3) x'(3) by (simp add: run_get_def)
  qed
  moreover have "\<exists>f \<in> set (stability_details rep). worst_return_fold rep = Inr (stat_fold_number f)
      \<and> (\<forall>g \<in> set (stability_details rep). stat_return f \<le> stat_return g)"
    using says(3) extremes(1) by metis
  moreover have "\<exists>f \<in> set (stability_details rep). worst_drawdown_fold rep = Some (stat_fold_number f)
      \<and> (\<forall>g \<in> set (stability_details rep). stat_drawdown g \<le> stat_drawdown f)"
    using says(4) extremes(2) by metis
  moreover have "\<exists>v c. traded_fold_fraction rep = Inr v \<and> 0 \<le> v \<and> v \<le> 1 \<and> return_consistency rep = Inr c \<and> 0 \<le> c \<and> c \<le> 1"
    using says(1,2) by blast
  ultimately show ?thesis
    using x(1,4) x'(1) rep(1) len by blast
qed

lemma sample_execution:
  "\<exists>p m r. plan_walk_forward (sample_snapshot [10, 9, 8, 10, 6, 8]) sample_wf_config = Some (Inr p)
     \<and> materialize (sample_snapshot [10, 9, 8, 10, 6, 8]) p = Inr m \<and> length (splits m) = 2
     \<and> execute_walk_forward ''{}'' (sample_snapshot [10, 9, 8, 10, 6, 8]) m sample_label (\<lambda>_. Inr []) [] 1
         (Some sample_wf_backtest) (\<lambda>_ _ _. Inr ()) [] = Inr r"
proof -
  let ?ds = "sample_snapshot [10, 9, 8, 10, 6, 8]"
  obtain p m xs where m: "plan_walk_forward ?ds sample_wf_config = Some (Inr p)" "materialize ?ds p = Inr m"
      "length (splits m) = 2"
      "mapR (execute_fold ''{}'' ?ds sample_label (\<lambda>_. Inr []) 1 sample_wf_backtest) (splits m) = Inr xs"
    using sample_rounds by blast
  have eff: "effective_config (Some sample_wf_backtest) = sample_wf_backtest" by (simp add: effective_config_def)
  have rounds: "foldR (execution_step (execute_fold ''{}'' ?ds sample_label (\<lambda>_. Inr []) 1
      (effective_config (Some sample_wf_backtest))) (\<lambda>_ _ _. Inr ()) (int (length (splits m)))) [] (splits m) = Inr xs"
    unfolding eff using silent_rounds [OF m(4), where acc = "[]"] by simp
  have "WalkForwardPlan p = Inr p"
  proof -
    obtain fs where "finish_plan ?ds sample_wf_config fs = Inr p"
      using m(1) by (auto simp: plan_walk_forward_def bindR_Inr_iff)
    then show ?thesis
      by (auto simp: finish_plan_def WalkForwardPlan_def bindR_Inr_iff check_fields_Inr_iff split: if_splits)
  qed
  moreover have "WalkForwardMaterialization m = Inr m"
    using m(2) by (auto simp: materialize_def WalkForwardMaterialization_def bindR_Inr_iff check_fields_Inr_iff)
  moreover have "sized 1 100 (strategy_name sample_label)" "sized 1 30 (strategy_version sample_label)"
    by (simp_all add: sample_label_def sized_def)
  ultimately show ?thesis
    using execution_completes [OF _ _ _ order_refl _ _ _ rounds, where params = "[]"] materialized_from [OF m(2)] m(1-3)
    by auto
qed

theorem stability_report_exists_witness:
  "\<exists>r x rep store. build_wf_run r sample_wf_config (Some (Aware 5)) 9 = Inr x \<and> analyze_stability x = Inr rep
     \<and> length (stability_details rep) = 2 \<and> run_save [] x = Inr (store, x) \<and> run_get store (execution_id r) = Some x"
proof -
  obtain p m r where m: "plan_walk_forward (sample_snapshot [10, 9, 8, 10, 6, 8]) sample_wf_config = Some (Inr p)"
      "materialize (sample_snapshot [10, 9, 8, 10, 6, 8]) p = Inr m" "length (splits m) = 2"
      "execute_walk_forward ''{}'' (sample_snapshot [10, 9, 8, 10, 6, 8]) m sample_label (\<lambda>_. Inr []) [] 1
         (Some sample_wf_backtest) (\<lambda>_ _ _. Inr ()) [] = Inr r"
    using sample_execution by blast
  obtain x rep where x: "build_wf_run r sample_wf_config (Some (Aware 5)) 9 = Inr x" "analyze_stability x = Inr rep"
      "length (stability_details rep) = 2"
      "\<forall>store store' y. keyed run_execution_id store \<longrightarrow> run_save store x = Inr (store', y) \<longrightarrow>
         run_get store' (execution_id r) = Some y"
    using stability_report_exists [OF m(1,2,4), of 5 9] m(3) by metis
  have "run_save [] x = Inr ([(run_execution_id x, x)], x)" by (simp add: run_save_def keep_first_def)
  moreover have "keyed run_execution_id []" by (simp add: keyed_def)
  ultimately show ?thesis using x by blast
qed

end
