(* ===== verification/Number_Text.thy ===== *)
theory Number_Text imports Digests Rounding
begin

text \<open>
  Numbers as text, as the parameter grids of the optimizer use them: \<open>int(str)\<close>, \<open>Decimal(str)\<close>, and
  \<open>format(value.normalize(), "f")\<close>. A decimal is its sign, coefficient and exponent, since the
  text depends on them; zero keeps its sign. Strings are ASCII.
\<close>

section \<open>Digits\<close>

definition is_digit :: "char \<Rightarrow> bool" where
  "is_digit c \<longleftrightarrow> (let n = (of_char c :: nat) in 48 \<le> n \<and> n \<le> 57)"

definition digit_value :: "char \<Rightarrow> int" where
  "digit_value c = int (of_char c) - 48"

definition digits_value :: "string \<Rightarrow> int" where
  "digits_value ds = foldl (\<lambda>n c. 10 * n + digit_value c) 0 ds"

text \<open>An optional sign, and the rest.\<close>

fun split_sign :: "string \<Rightarrow> bool \<times> string" where
  "split_sign [] = (False, [])"
| "split_sign (c # s) =
     (if c = CHR ''-'' then (True, s) else if c = CHR ''+'' then (False, s) else (False, c # s))"

section \<open>Integers\<close>

text \<open>
  Digits with single underscores between them; \<open>sys.get_int_max_str_digits()\<close> is 4300. \<open>None\<close> is the
  \<open>ValueError\<close> of \<open>int\<close>.
\<close>

definition grouped_digits :: "string \<Rightarrow> bool" where
  "grouped_digits s \<longleftrightarrow> s \<noteq> [] \<and> list_all (\<lambda>c. is_digit c \<or> c = CHR ''_'') s
     \<and> is_digit (hd s) \<and> is_digit (last s)
     \<and> list_all (\<lambda>(a, b). \<not> (a = CHR ''_'' \<and> b = CHR ''_'')) (adjacent s)"

definition parse_int :: "string \<Rightarrow> int option" where
  "parse_int s =
     (let (neg, body) = split_sign (strip s); ds = filter is_digit body
      in if grouped_digits body \<and> length ds \<le> 4300
         then Some (if neg then - digits_value ds else digits_value ds) else None)"

section \<open>Decimals\<close>

datatype decimal_literal = Finite bool int int | Infinite bool | NotANumber

definition lower_char :: "char \<Rightarrow> char" where
  "lower_char c = (let n = (of_char c :: nat) in if 65 \<le> n \<and> n \<le> 90 then char_of (n + 32) else c)"

text \<open>The exponent field: nothing, or \<open>e\<close>, a sign and digits to the end.\<close>

definition parse_exponent :: "string \<Rightarrow> int option" where
  "parse_exponent s =
     (case s of
        [] \<Rightarrow> Some 0
      | c # t \<Rightarrow>
          (let (neg, ds) = split_sign t
           in if lower_char c = CHR ''e'' \<and> ds \<noteq> [] \<and> list_all is_digit ds
              then Some (if neg then - digits_value ds else digits_value ds) else None))"

text \<open>The constructor is exact: a number outside the widest context is an invalid operation.\<close>

definition literal_in_range :: "int \<Rightarrow> int \<Rightarrow> bool" where
  "literal_in_range c e \<longleftrightarrow>
     - 1999999999999999997 \<le> e \<and> e + int (length (nat_digits c)) - 1 \<le> 999999999999999999"

definition parse_number :: "bool \<Rightarrow> string \<Rightarrow> decimal_literal option" where
  "parse_number neg s =
     (let whole = takeWhile is_digit s; rest = dropWhile is_digit s;
          pointed = (rest \<noteq> [] \<and> hd rest = CHR ''.'');
          frac = (if pointed then takeWhile is_digit (tl rest) else []);
          rest' = (if pointed then dropWhile is_digit (tl rest) else rest);
          c = digits_value (whole @ frac)
      in if whole @ frac = [] then None
         else case parse_exponent rest' of
                None \<Rightarrow> None
              | Some x \<Rightarrow> let e = x - int (length frac)
                  in if literal_in_range c e then Some (Finite neg c e) else None)"

definition parse_decimal :: "string \<Rightarrow> decimal_literal option" where
  "parse_decimal s =
     (let (neg, body) = split_sign (filter (\<lambda>c. c \<noteq> CHR ''_'') (strip s)); word = map lower_char body
      in if word = ''inf'' \<or> word = ''infinity'' then Some (Infinite neg)
         else if take 3 word = ''nan'' \<and> list_all is_digit (drop 3 word)
              \<or> take 4 word = ''snan'' \<and> list_all is_digit (drop 4 word) then Some NotANumber
         else parse_number neg body)"

text \<open>The exact value of a finite literal.\<close>

definition power_of_ten :: "int \<Rightarrow> rat" where
  "power_of_ten e = (if 0 \<le> e then 10 ^ nat e else 1 / 10 ^ nat (- e))"

definition finite_value :: "bool \<Rightarrow> int \<Rightarrow> int \<Rightarrow> rat" where
  "finite_value neg c e = (if neg then -1 else 1) * of_int c * power_of_ten e"

section \<open>The canonical text\<close>

function strip_zeros :: "int \<Rightarrow> int \<Rightarrow> int \<times> int" where
  "strip_zeros c e = (if 0 < c \<and> c mod 10 = 0 then strip_zeros (c div 10) (e + 1) else (c, e))"
  by pat_completeness auto
termination
  by (relation "measure (\<lambda>(c, e). nat c)") auto

declare strip_zeros.simps [simp del]

text \<open>
  \<open>Decimal.normalize\<close> in the default context: round to 28 digits (and to the exponent -1000026, below
  which there are only zeros), half even, then strip trailing zeros; an exponent above 999999 overflows.
\<close>

definition surplus_digits :: "int \<Rightarrow> int \<Rightarrow> int" where
  "surplus_digits c e = max (int (length (nat_digits c)) - 28) (- 1000026 - e)"

definition kept_coefficient :: "int \<Rightarrow> int \<Rightarrow> int" where
  "kept_coefficient c e =
     (let surplus = surplus_digits c e
      in if surplus \<le> 0 then c else round_half_even (of_int c / 10 ^ nat surplus))"

definition normalize_decimal :: "int \<Rightarrow> int \<Rightarrow> (int \<times> int) result" where
  "normalize_decimal c e =
     (let (c', e') = strip_zeros (kept_coefficient c e) (e + max 0 (surplus_digits c e))
      in if c = 0 \<or> kept_coefficient c e = 0 then Inr (0, 0)
         else if e' + int (length (nat_digits c')) - 1 > 999999 then Inl Overflow
         else Inr (c', e'))"

definition plain_text :: "bool \<Rightarrow> int \<Rightarrow> int \<Rightarrow> string" where
  "plain_text neg c e =
     (let ds = nat_digits c; places = nat (- e)
      in (if neg then ''-'' else []) @
         (if 0 \<le> e then ds @ replicate (nat e) (CHR ''0'')
          else if places < length ds
          then take (length ds - places) ds @ ''.'' @ drop (length ds - places) ds
          else ''0.'' @ replicate (places - length ds) (CHR ''0'') @ ds))"

definition canonical_decimal :: "bool \<Rightarrow> int \<Rightarrow> int \<Rightarrow> string result" where
  "canonical_decimal neg c e = bindR (normalize_decimal c e) (\<lambda>(c', e'). Inr (plain_text neg c' e'))"

section \<open>Reading back what was printed\<close>

lemma digit_char_facts:
  assumes "0 \<le> d" "d < 10" shows "is_digit (digit_char d)" "digit_value (digit_char d) = d"
proof -
  have "d = 0 \<or> d = 1 \<or> d = 2 \<or> d = 3 \<or> d = 4 \<or> d = 5 \<or> d = 6 \<or> d = 7 \<or> d = 8 \<or> d = 9"
    using assms by presburger
  then show "is_digit (digit_char d)" "digit_value (digit_char d) = d"
    by (auto simp: digit_char_def is_digit_def digit_value_def)
qed

lemma is_digit_facts:
  assumes "is_digit c"
  shows "\<not> is_space c" "c \<noteq> CHR ''_''" "c \<noteq> CHR ''-''" "c \<noteq> CHR ''+''" "c \<noteq> CHR ''.''" "lower_char c = c"
    "c \<noteq> CHR ''i''" "c \<noteq> CHR ''n''" "c \<noteq> CHR ''s''"
  using assms by (auto simp: is_digit_def is_space_def lower_char_def Let_def)

lemma nat_digits_facts:
  assumes "0 \<le> n"
  shows "digits_value (nat_digits n) = n \<and> list_all is_digit (nat_digits n) \<and> nat_digits n \<noteq> []"
  using assms
proof (induction n rule: nat_digits.induct)
  case (1 n)
  show ?case
  proof (cases "n < 10")
    case True
    then show ?thesis using 1(2) digit_char_facts [of n] by (simp add: nat_digits.simps [of n] digits_value_def)
  next
    case False
    then have IH: "digits_value (nat_digits (n div 10)) = n div 10 \<and> list_all is_digit (nat_digits (n div 10))"
      using 1 by simp
    have "digit_value (digit_char (n mod 10)) = n mod 10" "is_digit (digit_char (n mod 10))"
      by (simp_all add: digit_char_facts)
    then show ?thesis using False IH by (simp add: nat_digits.simps [of n] digits_value_def)
  qed
qed

lemmas nat_digits_parts = nat_digits_facts [THEN conjunct1] nat_digits_facts [THEN conjunct2, THEN conjunct1]
  nat_digits_facts [THEN conjunct2, THEN conjunct2]

lemma digits_value_append: "digits_value (xs @ ys) = digits_value xs * 10 ^ length ys + digits_value ys"
proof (induction ys rule: rev_induct)
  case (snoc y ys)
  have "digits_value (zs @ [y]) = 10 * digits_value zs + digit_value y" for zs by (simp add: digits_value_def)
  then show ?case using snoc by (simp add: algebra_simps flip: append_assoc)
qed (simp add: digits_value_def)

lemma digits_value_zeros [simp]: "digits_value (replicate n (CHR ''0'')) = 0"
  by (induction n) (simp_all add: digits_value_append digits_value_def digit_value_def flip: replicate_append_same)

lemma digit_zero [simp]: "is_digit (CHR ''0'')" by (simp add: is_digit_def)

lemma strip_digits: "s \<noteq> [] \<Longrightarrow> \<not> is_space (hd s) \<Longrightarrow> \<not> is_space (last s) \<Longrightarrow> strip s = s"
proof -
  assume s: "s \<noteq> []" "\<not> is_space (hd s)" "\<not> is_space (last s)"
  have "dropWhile is_space s = s" using s(1,2) by (cases s) simp_all
  moreover have "dropWhile is_space (rev s) = rev s" using s(1,3) by (cases s rule: rev_cases) simp_all
  ultimately show "strip s = s" by (simp add: strip_def)
qed

lemma parse_str_int:
  assumes "length (nat_digits \<bar>n\<bar>) \<le> 4300" shows "parse_int (str_int n) = Some n"
proof -
  let ?ds = "nat_digits \<bar>n\<bar>"
  note ds = nat_digits_parts [of "\<bar>n\<bar>", simplified]
  have shown: "str_int n = (if n < 0 then CHR ''-'' # ?ds else ?ds)" by (simp add: str_int_def)
  have ends: "is_digit (hd ?ds)" "is_digit (last ?ds)" using ds by (auto simp: list_all_iff)
  have strip: "strip (str_int n) = str_int n"
    using ends ds(3) is_digit_facts(1) by (intro strip_digits) (auto simp: shown is_space_def)
  have "split_sign (str_int n) = (n < 0, ?ds)"
    using ends(1) ds(3) is_digit_facts(3,4) by (cases ?ds) (auto simp: shown)
  moreover have "grouped_digits ?ds"
    using ds ends is_digit_facts(2) by (auto simp: grouped_digits_def list_all_iff adjacent_def dest!: set_zip_leftD)
  moreover have "filter is_digit ?ds = ?ds" using ds(2) by (simp add: list_all_iff)
  ultimately show ?thesis using ds(1) assms by (cases "n < 0") (simp_all add: parse_int_def strip Let_def)
qed

text \<open>What normalizing gives: zero, or a coefficient of at most 28 digits without trailing zeros.\<close>

definition normal_form :: "int \<Rightarrow> int \<Rightarrow> bool" where
  "normal_form c e \<longleftrightarrow> c = 0 \<and> e = 0 \<or> 0 < c \<and> c mod 10 \<noteq> 0 \<and> length (nat_digits c) \<le> 28 \<and> - 1000026 \<le> e
     \<and> e + int (length (nat_digits c)) - 1 \<le> 999999"

lemma strip_zeros_scale: "0 < c \<Longrightarrow> strip_zeros (c * 10 ^ k) e = strip_zeros c (e + int k)"
proof (induction k arbitrary: e)
  case (Suc k)
  have "strip_zeros (c * 10 ^ Suc k) e = strip_zeros (c * 10 ^ k) (e + 1)"
    using Suc.prems by (subst strip_zeros.simps) (simp add: mult.commute mult.left_commute)
  then show ?case using Suc by (simp add: add.commute add.left_commute)
qed simp

lemma strip_zeros_facts:
  "0 < c \<Longrightarrow> strip_zeros c e = (c', e') \<Longrightarrow> \<exists>k. c = c' * 10 ^ k \<and> e' = e + int k \<and> 0 < c' \<and> c' mod 10 \<noteq> 0"
proof (induction c e rule: strip_zeros.induct)
  case (1 c e)
  show ?case
  proof (cases "c mod 10 = 0")
    case True
    then have rec: "strip_zeros (c div 10) (e + 1) = (c', e')" using 1(2,3) by (simp add: strip_zeros.simps [of c])
    have pos: "0 < c div 10" "c = c div 10 * 10" using 1(2) True by presburger+
    then obtain k where k: "c div 10 = c' * 10 ^ k" "e' = e + 1 + int k" "0 < c'" "c' mod 10 \<noteq> 0"
      using 1(1) [OF _ pos(1) rec] 1(2) True by blast
    have "c = c' * 10 ^ Suc k" using pos(2) k(1) by simp
    with k show ?thesis by (intro exI [of _ "Suc k"]) simp
  next
    case False
    then show ?thesis using 1(2,3) by (intro exI [of _ 0]) (simp add: strip_zeros.simps [of c])
  qed
qed

lemma strip_zeros_fixed: "c mod 10 \<noteq> 0 \<Longrightarrow> strip_zeros c e = (c, e)"
  by (simp add: strip_zeros.simps [of c])

lemma nat_digits_less: "0 \<le> n \<Longrightarrow> n < 10 ^ length (nat_digits n)"
proof (induction n rule: nat_digits.induct)
  case (1 n)
  show ?case
  proof (cases "n < 10")
    case False
    then have "n div 10 < 10 ^ length (nat_digits (n div 10))" using 1 by simp
    then have "n < 10 * 10 ^ length (nat_digits (n div 10))" by linarith
    with False show ?thesis by (simp add: nat_digits.simps [of n])
  qed (simp add: nat_digits.simps [of n])
qed

lemma digit_char_0: "digit_char 0 = CHR ''0''"
  unfolding digit_char_def by code_simp

lemma nat_digits_scale: "0 < c \<Longrightarrow> nat_digits (c * 10 ^ k) = nat_digits c @ replicate k (CHR ''0'')"
proof (induction k)
  case (Suc k)
  have "1 \<le> c * 10 ^ k" using Suc.prems by (simp add: int_one_le_iff_zero_less)
  then have "\<not> c * 10 ^ Suc k < 10" by simp
  moreover have "c * 10 ^ Suc k div 10 = c * 10 ^ k" "c * 10 ^ Suc k mod 10 = 0" by simp_all
  ultimately show ?case
    using Suc by (subst nat_digits.simps) (simp add: digit_char_0 flip: replicate_append_same)
qed simp

lemma round_half_even_int [simp]: "round_half_even (of_int n) = n"
  using round_half_even_of_int .

lemma kept_range:
  assumes "0 \<le> c" shows "0 \<le> kept_coefficient c e \<and> kept_coefficient c e \<le> 10 ^ 28"
proof (cases "surplus_digits c e \<le> 0")
  case True
  then have "length (nat_digits c) \<le> 28" by (simp add: surplus_digits_def)
  then have "(10 :: int) ^ length (nat_digits c) \<le> 10 ^ 28" by (intro power_increasing) simp_all
  then show ?thesis using nat_digits_less [OF assms] assms True by (simp add: kept_coefficient_def)
next
  case False
  let ?q = "of_int c / (10 :: rat) ^ nat (surplus_digits c e)"
  have "c < 10 ^ length (nat_digits c)" using nat_digits_less [OF assms] .
  also have "\<dots> \<le> 10 ^ (28 + nat (surplus_digits c e))"
    using False by (intro power_increasing) (auto simp: surplus_digits_def nat_le_iff le_nat_iff)
  finally have "of_int c \<le> (10 :: rat) ^ (28 + nat (surplus_digits c e))"
    by (metis less_imp_le of_int_le_iff of_int_numeral of_int_power)
  then have "?q \<le> of_int (10 ^ 28)" by (simp add: power_add divide_le_eq)
  then have "round_half_even ?q \<le> 10 ^ 28" using round_half_even_mono round_half_even_int by metis
  moreover have "0 \<le> round_half_even ?q"
    using round_half_even_mono [of "of_int 0" ?q] assms unfolding round_half_even_int by simp
  ultimately show ?thesis using False by (simp add: kept_coefficient_def)
qed

lemma normalize_form:
  assumes "0 \<le> c" "normalize_decimal c e = Inr (c', e')" shows "normal_form c' e'"
proof -
  let ?kept = "kept_coefficient c e" and ?sur = "surplus_digits c e"
  obtain d x where dx: "strip_zeros ?kept (e + max 0 ?sur) = (d, x)" by (cases "strip_zeros ?kept (e + max 0 ?sur)")
  note le = kept_range [OF assms(1), of e]
  show ?thesis
  proof (cases "c = 0 \<or> ?kept = 0")
    case True
    then show ?thesis using assms(2) dx by (auto simp: normalize_decimal_def normal_form_def)
  next
    case False
    then have out: "c' = d" "e' = x" "x + int (length (nat_digits d)) - 1 \<le> 999999"
      using assms(2) dx by (auto simp: normalize_decimal_def split: if_splits)
    have "0 < ?kept" using le False by auto
    then obtain k where k: "?kept = d * 10 ^ k" "x = e + max 0 ?sur + int k" "0 < d" "d mod 10 \<noteq> 0"
      using strip_zeros_facts [OF _ dx] by blast
    have "d < 10 ^ 28"
    proof (cases k)
      case 0
      then have "d \<le> 10 ^ 28" "d \<noteq> 10 ^ 28" using k le by auto
      then show ?thesis by simp
    next
      case (Suc m)
      have "1 \<le> (10 :: int) ^ m" by simp
      then have "d * 1 \<le> d * 10 ^ m" using k(3) by (intro mult_left_mono) simp_all
      then have "d * 10 \<le> ?kept" by (simp add: k(1) Suc)
      with le show ?thesis by simp
    qed
    then have "length (nat_digits d) \<le> 28" using length_nat_digits [of d 28] k(3) by simp
    moreover have "- 1000026 \<le> x" unfolding k(2) surplus_digits_def by simp
    ultimately show ?thesis using out k(3,4) by (simp add: normal_form_def)
  qed
qed

lemma normalize_fixed:
  assumes "normal_form c e" shows "normalize_decimal c e = Inr (c, e)"
proof (cases "c = 0")
  case True
  then show ?thesis using assms by (simp add: normalize_decimal_def normal_form_def split: prod.split)
next
  case False
  then have c: "0 < c" "c mod 10 \<noteq> 0" "length (nat_digits c) \<le> 28" "- 1000026 \<le> e"
    "e + int (length (nat_digits c)) - 1 \<le> 999999"
    using assms by (auto simp: normal_form_def)
  then have "surplus_digits c e \<le> 0" by (simp add: surplus_digits_def)
  then show ?thesis using c by (simp add: normalize_decimal_def kept_coefficient_def strip_zeros_fixed max_def)
qed

lemma normalize_scaled:
  assumes "normal_form c e" "0 < c" "0 \<le> e" shows "normalize_decimal (c * 10 ^ nat e) 0 = Inr (c, e)"
proof -
  have c: "c mod 10 \<noteq> 0" "length (nat_digits c) \<le> 28" "e + int (length (nat_digits c)) - 1 \<le> 999999"
    using assms by (auto simp: normal_form_def)
  let ?n = "c * 10 ^ nat e" and ?sur = "int (length (nat_digits c)) + e - 28"
  have "int (length (nat_digits ?n)) = int (length (nat_digits c)) + e"
    using assms(2,3) by (simp add: nat_digits_scale)
  then have sur: "surplus_digits ?n 0 = max ?sur (- 1000026)" by (simp add: surplus_digits_def)
  have "strip_zeros (kept_coefficient ?n 0) (max 0 (surplus_digits ?n 0)) = (c, e) \<and> kept_coefficient ?n 0 \<noteq> 0"
  proof (cases "?sur \<le> 0")
    case True
    then have "surplus_digits ?n 0 \<le> 0" using sur by simp
    then show ?thesis using assms(2,3) c(1) by (simp add: kept_coefficient_def strip_zeros_scale strip_zeros_fixed max_def)
  next
    case False
    then have sur': "surplus_digits ?n 0 = ?sur" using sur by simp
    have split: "nat e = nat (e - ?sur) + nat ?sur" using c(2) False by simp
    have "of_int ?n / (10 :: rat) ^ nat ?sur = of_int (c * 10 ^ nat (e - ?sur))"
      by (subst split) (simp add: power_add)
    then have kept: "kept_coefficient ?n 0 = c * 10 ^ nat (e - ?sur)"
      unfolding kept_coefficient_def Let_def sur' using False by (simp only: round_half_even_int if_False)
    have "max 0 ?sur + int (nat (e - ?sur)) = e" using c(2) False by simp
    then show ?thesis
      unfolding kept sur' strip_zeros_scale [OF assms(2)] using assms(2) c(1) by (simp add: strip_zeros_fixed)
  qed
  then show ?thesis using assms(2) c(3) by (simp add: normalize_decimal_def)
qed

text \<open>The body of a plain text: digits, and at most one point between digits.\<close>

lemma parse_body:
  assumes "list_all is_digit xs" "list_all is_digit ys" "xs \<noteq> []" "literal_in_range (digits_value (xs @ ys)) (- int (length ys))"
  shows "parse_decimal ((if neg then ''-'' else []) @ xs @ (if ys = [] then [] else ''.'' @ ys))
    = Some (Finite neg (digits_value (xs @ ys)) (- int (length ys)))"
proof -
  let ?body = "xs @ (if ys = [] then [] else ''.'' @ ys)" let ?s = "(if neg then ''-'' else []) @ ?body"
  obtain d ds where d: "xs = d # ds" "is_digit d" using assms(1,3) by (cases xs) auto
  have chars: "c \<in> set ?body \<Longrightarrow> is_digit c \<or> c = CHR ''.''" for c
    using assms(1,2) by (auto simp: list_all_iff split: if_splits)
  have last: "is_digit (last ?body)" using assms by (auto simp: list_all_iff)
  have "strip ?s = ?s"
    using last d is_digit_facts(1) by (intro strip_digits) (auto simp: is_space_def)
  moreover have "filter (\<lambda>c. c \<noteq> CHR ''_'') ?s = ?s"
    using chars [of "CHR ''_''"] is_digit_facts(2) [of "CHR ''_''"] by (intro filter_True) auto
  moreover have "split_sign ?s = (neg, ?body)" using d is_digit_facts(3,4) by auto
  moreover have "map lower_char ?body = ?body"
  proof (rule map_idI)
    show "lower_char c = c" if "c \<in> set ?body" for c
      using chars [OF that] is_digit_facts(6) by (auto simp: lower_char_def [of "CHR ''.''"])
  qed
  moreover have "parse_number neg ?body = Some (Finite neg (digits_value (xs @ ys)) (- int (length ys)))"
  proof -
    have all: "takeWhile is_digit zs = zs" "dropWhile is_digit zs = []" if "list_all is_digit zs" for zs
      using that by (auto simp: list_all_iff takeWhile_eq_all_conv)
    have point: "\<not> is_digit (CHR ''.'')" by (simp add: is_digit_def)
    have "takeWhile is_digit (xs @ ''.'' @ zs) = xs" "dropWhile is_digit (xs @ ''.'' @ zs) = ''.'' @ zs" for zs
      using assms(1) point by (auto simp: list_all_iff takeWhile_append2 dropWhile_append2)
    then show ?thesis
      using assms(3,4)
      by (cases "ys = []") (simp_all add: parse_number_def parse_exponent_def Let_def all [OF assms(1)] all [OF assms(2)])
  qed
  moreover have "hd ?body = d" using d by simp
  ultimately show ?thesis
    using d is_digit_facts(7-9) by (auto simp: parse_decimal_def Let_def)
qed

text \<open>Reading a plain text gives the same number back.\<close>

lemma plain_text_reads:
  assumes nf: "normal_form d x"
  shows "\<exists>c e. parse_decimal (plain_text neg d x) = Some (Finite neg c e) \<and> normalize_decimal c e = Inr (d, x)
    \<and> of_int c * power_of_ten e = of_int d * power_of_ten x"
proof -
  have d: "0 \<le> d" "d = 0 \<longrightarrow> x = 0" "length (nat_digits d) \<le> 28" "- 1000026 \<le> x" "x \<le> 999999"
    using nf nat_digits_parts(3) [of d] by (auto simp: normal_form_def nat_digits.simps [of 0]) (cases "nat_digits d"; simp)
  note dig = nat_digits_parts [OF d(1)]
  show ?thesis
  proof (cases "0 \<le> x")
    case True
    let ?xs = "nat_digits d @ replicate (nat x) (CHR ''0'')"
    have "literal_in_range (digits_value (?xs @ [])) 0"
      using d dig True nat_digits_scale [of d "nat x"] by (cases "d = 0") (auto simp: literal_in_range_def digits_value_append)
    moreover have "list_all is_digit ?xs" using dig by (auto simp: list_all_iff)
    ultimately have "parse_decimal (plain_text neg d x) = Some (Finite neg (digits_value (?xs @ [])) 0)"
      using parse_body [of ?xs "[]" neg] dig True by (auto simp: plain_text_def Let_def)
    moreover have "digits_value (?xs @ []) = d * 10 ^ nat x" using dig by (simp add: digits_value_append)
    moreover have "normalize_decimal (d * 10 ^ nat x) 0 = Inr (d, x)"
      using normalize_scaled [OF nf _ True] normalize_fixed [OF nf] d(1,2) by (cases "d = 0") auto
    moreover have "of_int (d * 10 ^ nat x) * power_of_ten 0 = of_int d * power_of_ten x"
      using True by (simp add: power_of_ten_def)
    ultimately show ?thesis using d(1) by (intro exI [of _ "d * 10 ^ nat x"] exI [of _ 0]) simp
  next
    case False
    let ?p = "nat (- x)" let ?n = "length (nat_digits d)"
    define z where "z = replicate (Suc ?p - ?n) (CHR ''0'') @ nat_digits d"
    define us vs where "us = take (length z - ?p) z" and "vs = drop (length z - ?p) z"
    have len: "?p < length z" "0 < ?p" using False by (auto simp: z_def)
    have z: "us @ vs = z" "length vs = ?p" "us \<noteq> []" "vs \<noteq> []" using len by (auto simp: us_def vs_def)
    have val: "digits_value (us @ vs) = d" using dig by (simp add: z(1) z_def digits_value_append)
    have "list_all is_digit z" using dig by (auto simp: list_all_iff z_def)
    then have digits: "list_all is_digit us" "list_all is_digit vs" using z(1) by (metis list_all_append)+
    have "literal_in_range d x" using d by (simp add: literal_in_range_def)
    moreover have "plain_text neg d x = (if neg then ''-'' else []) @ us @ ''.'' @ vs"
    proof (cases "?p < ?n")
      case True
      then have "z = nat_digits d" by (simp add: z_def)
      then show ?thesis using False True by (simp add: plain_text_def Let_def us_def vs_def)
    next
      case short: False
      then have "z = CHR ''0'' # replicate (?p - ?n) (CHR ''0'') @ nat_digits d" by (simp add: z_def Suc_diff_le)
      then show ?thesis using False short by (simp add: plain_text_def Let_def us_def vs_def)
    qed
    ultimately have "parse_decimal (plain_text neg d x) = Some (Finite neg d x)"
      using parse_body [OF digits z(3), of neg] z(4) False unfolding val z(2) by simp
    then show ?thesis using normalize_fixed [OF nf] by blast
  qed
qed


section \<open>Normalizing rounds to 28 digits\<close>

lemma power_of_ten_powi: "power_of_ten e = 10 powi e"
  unfolding power_of_ten_def power_int_def by (simp only: power_inverse divide_inverse mult_1)

lemma power_of_ten_pos: "0 < power_of_ten e"
  by (simp add: power_of_ten_def)

lemma power_of_ten_add: "power_of_ten (d + e) = power_of_ten d * power_of_ten e"
  unfolding power_of_ten_powi by (rule power_int_add) simp

lemma power_of_ten_nat: "power_of_ten (int n) = 10 ^ n"
  by (simp add: power_of_ten_def)

lemma power_of_ten_less: "power_of_ten d < power_of_ten e \<Longrightarrow> d < e"
  using decimal_digits.power_less_iff [of d e] by (simp add: power_of_ten_powi)

lemma nat_digits_least: "0 < n \<Longrightarrow> 10 ^ (length (nat_digits n) - 1) \<le> n"
proof (induction n rule: nat_digits.induct)
  case (1 n)
  show ?case
  proof (cases "n < 10")
    case False
    let ?m = "nat_digits (n div 10)"
    have m: "0 < n div 10" using False by simp
    then have "10 ^ (length ?m - 1) \<le> n div 10" using 1(1) False by simp
    then have "10 * 10 ^ (length ?m - 1) \<le> n" by linarith
    moreover have "1 \<le> length ?m" using nat_digits_facts [of "n div 10"] m by (cases ?m) auto
    then have "10 ^ length ?m = (10 :: int) * 10 ^ (length ?m - 1)" by (cases "length ?m") simp_all
    ultimately show ?thesis using False by (simp add: nat_digits.simps [of n])
  qed (use 1(2) in \<open>simp add: nat_digits.simps [of n]\<close>)
qed

text \<open>The decimals that normalizing does not push below the smallest exponent of the context.\<close>

definition in_decimal_range :: "rat \<Rightarrow> bool" where
  "in_decimal_range x \<longleftrightarrow> x = 0 \<or> power_of_ten (- 999999) \<le> \<bar>x\<bar>"

lemma in_range_surplus:
  assumes "0 < c" "in_decimal_range (of_int c * power_of_ten e)"
  shows "surplus_digits c e = int (length (nat_digits c)) - 28"
proof -
  let ?n = "length (nat_digits c)"
  have "(of_int c :: rat) < 10 ^ ?n"
    using nat_digits_less [of c] assms(1) by (metis less_imp_le of_int_less_iff of_int_numeral of_int_power)
  then have "of_int c * power_of_ten e < power_of_ten (int ?n + e)"
    unfolding power_of_ten_add power_of_ten_nat by (rule mult_strict_right_mono [OF _ power_of_ten_pos])
  moreover have "0 < of_int c * power_of_ten e" using assms(1) power_of_ten_pos by simp
  then have "power_of_ten (- 999999) \<le> of_int c * power_of_ten e"
    using assms(2) unfolding in_decimal_range_def by (simp only: abs_of_pos less_irrefl) auto
  ultimately have "power_of_ten (- 999999) < power_of_ten (int ?n + e)" by (rule le_less_trans [rotated])
  then have "- 999999 < int ?n + e" by (rule power_of_ten_less)
  then show ?thesis by (simp add: surplus_digits_def)
qed

lemma kept_value:
  assumes "0 < c" "surplus_digits c e = int (length (nat_digits c)) - 28"
  shows "of_int (kept_coefficient c e) * power_of_ten (e + max 0 (surplus_digits c e))
    = rounded_to 10 28 (of_int c * power_of_ten e)"
proof (cases "surplus_digits c e \<le> 0")
  case True
  have "c \<le> 10 ^ 28" using kept_range [of c e] assms(1) True by (simp add: kept_coefficient_def)
  then show ?thesis
    using assms(1) True decimal_digits.rounded_exact [of c e] by (simp add: kept_coefficient_def power_of_ten_powi)
next
  case False
  let ?n = "length (nat_digits c)" and ?x = "of_int c * power_of_ten e"
  have n: "28 < ?n" using False assms(2) by simp
  have lo: "(10 :: rat) ^ (?n - 1) \<le> of_int c"
    using nat_digits_least [OF assms(1)] by (metis of_int_le_iff of_int_numeral of_int_power)
  have hi: "(of_int c :: rat) < 10 ^ ?n"
    using nat_digits_less [of c] assms(1) by (metis less_imp_le of_int_less_iff of_int_numeral of_int_power)
  have pos: "0 < power_of_ten e" by (rule power_of_ten_pos)
  have split: "(of_int 10 :: rat) powi (int ?n - 1 + e) = 10 ^ (?n - 1) * power_of_ten e"
    "(of_int 10 :: rat) powi (int ?n - 1 + e + 1) = 10 ^ ?n * power_of_ten e"
    using n power_of_ten_add [of "int (?n - 1)" e] power_of_ten_add [of "int ?n" e]
    by (simp_all only: power_of_ten_nat) (simp_all add: power_of_ten_powi of_nat_diff)
  have "leading 10 ?x = int ?n - 1 + e"
  proof (rule decimal_digits.leading_eq)
    show "of_int 10 powi (int ?n - 1 + e) \<le> ?x" unfolding split(1) using lo pos by (intro mult_right_mono) simp_all
    show "?x < of_int 10 powi (int ?n - 1 + e + 1)" unfolding split(2) using hi pos by (intro mult_strict_right_mono)
  qed
  moreover have x: "0 < ?x" using assms(1) pos by simp
  moreover have sur: "int ?n - 1 + e + 1 - int 28 = e + surplus_digits c e" using assms(2) by simp
  ultimately have lead: "leading 10 \<bar>?x\<bar> + 1 - int 28 = e + surplus_digits c e" by (simp only: abs_of_pos)
  have r: "rounded_to 10 28 ?x
      = of_int (round_half_even (?x / power_of_ten (e + surplus_digits c e))) * power_of_ten (e + surplus_digits c e)"
    unfolding rounded_to_def lead Let_def using x by (simp only: power_of_ten_powi of_int_numeral if_False less_irrefl) auto
  have "power_of_ten (e + surplus_digits c e) = power_of_ten e * 10 ^ nat (surplus_digits c e)"
    using False power_of_ten_nat [of "nat (surplus_digits c e)"] by (simp only: power_of_ten_add) simp
  then have "?x / power_of_ten (e + surplus_digits c e) = of_int c / 10 ^ nat (surplus_digits c e)" using pos by simp
  then show ?thesis using False unfolding r by (simp add: kept_coefficient_def)
qed

lemma normalized_value:
  assumes "0 \<le> c" "normalize_decimal c e = Inr (d, x)" "in_decimal_range (of_int c * power_of_ten e)"
  shows "of_int d * power_of_ten x = rounded_to 10 28 (of_int c * power_of_ten e)"
proof (cases "c = 0")
  case True
  then show ?thesis using assms(2) by (simp add: normalize_decimal_def split: prod.splits)
next
  case False
  then have c: "0 < c" using assms(1) by simp
  note v = kept_value [OF c in_range_surplus [OF c assms(3)]]
  let ?kept = "kept_coefficient c e" and ?e = "e + max 0 (surplus_digits c e)"
  have "0 < of_int c * power_of_ten e" using c by (simp add: power_of_ten_def)
  then have "0 < rounded_to 10 28 (of_int c * power_of_ten e)" by (rule decimal_digits.rounded_pos)
  then have "0 < of_int ?kept * power_of_ten ?e" unfolding v .
  then have kept: "0 < ?kept" using power_of_ten_pos [of ?e] by (simp add: zero_less_mult_iff)
  obtain d' x' where dx: "strip_zeros ?kept ?e = (d', x')" by (cases "strip_zeros ?kept ?e")
  then have out: "d = d'" "x = x'" using assms(2) kept False by (auto simp: normalize_decimal_def split: if_splits)
  obtain k where "?kept = d' * 10 ^ k" "x' = ?e + int k" using strip_zeros_facts [OF kept dx] by blast
  then have "of_int d * power_of_ten x = of_int ?kept * power_of_ten ?e"
    by (simp only: out power_of_ten_add power_of_ten_nat of_int_mult of_int_power of_int_numeral mult.assoc mult.commute mult.left_commute)
  then show ?thesis unfolding v .
qed

text \<open>The coefficient of a literal is not negative.\<close>

lemma parse_decimal_coefficient: "parse_decimal v = Some (Finite neg c e) \<Longrightarrow> 0 \<le> c"
proof -
  have step: "list_all is_digit ds \<Longrightarrow> 0 \<le> n \<Longrightarrow> 0 \<le> foldl (\<lambda>n c. 10 * n + digit_value c) n ds" for ds n
  proof (induction ds arbitrary: n)
    case (Cons d ds)
    have "0 \<le> digit_value d" using Cons.prems(1) by (simp add: is_digit_def digit_value_def Let_def)
    then show ?case using Cons by simp
  qed simp
  have "list_all is_digit (takeWhile is_digit s)" for s by (auto simp: list_all_iff dest: set_takeWhileD)
  then have "0 \<le> digits_value (takeWhile is_digit s)" "0 \<le> digits_value (takeWhile is_digit s @ takeWhile is_digit t)" for s t
    by (auto simp: digits_value_def intro!: step)
  then show "parse_decimal v = Some (Finite neg c e) \<Longrightarrow> 0 \<le> c"
    by (auto simp: parse_decimal_def parse_number_def Let_def split: prod.splits if_splits option.splits)
qed

section \<open>Properties\<close>

text \<open>
  C39: the canonical text of a decimal is a fixed point of reading and printing. Whatever decimal literal is
  normalized and printed (at most 28 digits kept), reading the text gives a decimal of the same sign whose
  canonical text is that text again.
\<close>

theorem canonical_text_reads_back:
  assumes "0 \<le> c" "canonical_decimal neg c e = Inr t"
  shows "\<exists>c' e'. parse_decimal t = Some (Finite neg c' e') \<and> canonical_decimal neg c' e' = Inr t"
proof -
  obtain d x where n: "normalize_decimal c e = Inr (d, x)" "t = plain_text neg d x"
    using assms(2) by (auto simp: canonical_decimal_def bindR_Inr_iff)
  obtain c' e' where r: "parse_decimal t = Some (Finite neg c' e')" "normalize_decimal c' e' = Inr (d, x)"
    using plain_text_reads [OF normalize_form [OF assms(1) n(1)], of neg] n(2) by blast
  then have "canonical_decimal neg c' e' = Inr t" by (simp add: canonical_decimal_def n(2))
  with r(1) show ?thesis by blast
qed

theorem canonical_text_reads_back_witness:
  "canonical_decimal False 5000 (-2) = Inr ''50''
   \<and> (\<exists>c e. parse_decimal ''50'' = Some (Finite False c e) \<and> canonical_decimal False c e = Inr ''50'')"
proof -
  have "canonical_decimal False 5000 (-2) = Inr ''50''" by code_simp
  then show ?thesis using canonical_text_reads_back [of 5000 False "-2" "''50''"] by simp
qed

end
