(* ===== verification/Optimization.thy ===== *)
theory Optimization imports Number_Text Experiments
begin

text \<open>
  Parameter optimization (\<open>trd_bot/research/optimization.py\<close>): the planner expands a grid of parameter
  texts into numbered trials of one registered strategy, and the scorer ranks the experiments that the
  trials gave.
\<close>

section \<open>Grids, trials and plans\<close>

definition MAX_OPTIMIZATION_TRIALS :: int where "MAX_OPTIMIZATION_TRIALS = 100"

record parameter_grid =
  grid_name :: string
  grid_values :: "string list"

text \<open>The validators of a field run once its declared constraints hold, and give the stripped texts.\<close>

definition OptimizationParameterGrid :: "string \<Rightarrow> string list \<Rightarrow> parameter_grid result" where
  "OptimizationParameterGrid name vs = check_fields
     [(''name'', sized 1 100 name \<and> strip name \<noteq> []),
      (''values'', 1 \<le> length vs \<and> length vs \<le> 20 \<and> list_all (\<lambda>v. strip v \<noteq> []) vs)]
     \<lparr>grid_name = strip name, grid_values = map strip vs\<rparr>"

record optimization_trial =
  trial_number :: int
  trial_parameters :: "experiment_parameter list"

definition OptimizationTrial :: "optimization_trial \<Rightarrow> optimization_trial result" where
  "OptimizationTrial t = bindR (check_fields
     [(''trial_number'', 1 \<le> trial_number t), (''parameters'', 1 \<le> length (trial_parameters t))] t)
     (raising [(\<not> distinct (map parameter_name (trial_parameters t)),
        ValueError ''optimization trial parameter names must be unique'')])"

record optimization_plan =
  plan_strategy_name :: string
  plan_strategy_version :: string
  plan_objective :: comparison_metric
  requested_combinations :: int
  skipped_combinations :: int
  total_trials :: int
  trials :: "optimization_trial list"

definition OptimizationPlan :: "optimization_plan \<Rightarrow> optimization_plan result" where
  "OptimizationPlan q = bindR (check_fields
     [(''strategy_name'', sized 1 100 (plan_strategy_name q)), (''strategy_version'', sized 1 50 (plan_strategy_version q)),
      (''requested_combinations'', 1 \<le> requested_combinations q),
      (''skipped_combinations'', 0 \<le> skipped_combinations q),
      (''total_trials'', 1 \<le> total_trials q \<and> total_trials q \<le> MAX_OPTIMIZATION_TRIALS),
      (''trials'', 1 \<le> length (trials q))] q)
     (raising
       [(total_trials q \<noteq> int (length (trials q)), ValueError ''optimization trial count does not match trials''),
        (requested_combinations q \<noteq> total_trials q + skipped_combinations q,
           ValueError ''optimization combination counts are inconsistent''),
        (list_ex (\<lambda>(n, t). trial_number t \<noteq> n) (enumerate_from 1 (trials q)),
           ValueError ''optimization trial numbers must be continuous'')])"

section \<open>Parameter texts\<close>

definition grid_error :: "parameter_metadata \<Rightarrow> string \<Rightarrow> exn" where
  "grid_error p message = ValueError (''optimization parameter '' @ py_repr (meta_name p) @ message)"

text \<open>
  \<open>value <= bound\<close> or \<open>value < bound\<close> for a bound that \<open>Decimal\<close> reads from its text: comparing with an
  infinity decides, comparing with a NaN raises.
\<close>

definition compare_bound :: "(rat \<Rightarrow> bool) \<Rightarrow> (bool \<Rightarrow> bool) \<Rightarrow> string \<Rightarrow> bool result" where
  "compare_bound finite_case infinite_case bound =
     (case parse_decimal bound of
        None \<Rightarrow> Inl InvalidOperation
      | Some (Finite neg c e) \<Rightarrow> Inr (finite_case (finite_value neg c e))
      | Some (Infinite neg) \<Rightarrow> Inr (infinite_case neg)
      | Some NotANumber \<Rightarrow> Inl InvalidOperation)"

definition validate_bounds :: "parameter_metadata \<Rightarrow> rat \<Rightarrow> unit result" where
  "validate_bounds p v =
     bindR (case minimum p of None \<Rightarrow> Inr False
            | Some b \<Rightarrow> compare_bound (\<lambda>m. if minimum_exclusive p then v \<le> m else v < m) (\<lambda>neg. \<not> neg) b) (\<lambda>low.
     bindR (raising [(low, grid_error p '' is below its minimum'')] ()) (\<lambda>_.
     bindR (case maximum p of None \<Rightarrow> Inr False
            | Some b \<Rightarrow> compare_bound (\<lambda>m. if maximum_exclusive p then v \<ge> m else v > m) (\<lambda>neg. neg) b) (\<lambda>high.
       raising [(high, grid_error p '' is above its maximum'')] ())))"

definition parse_parameter_value :: "parameter_metadata \<Rightarrow> string \<Rightarrow> (string \<times> parameter_value) result" where
  "parse_parameter_value p v =
     (if meta_kind p = INTEGER_PARAMETER
      then (case parse_int v of
              None \<Rightarrow> Inl (grid_error p '' must contain integer values'')
            | Some n \<Rightarrow> bindR (validate_bounds p (of_int n)) (\<lambda>_. Inr (str_int n, IntValue n)))
      else (case parse_decimal v of
              None \<Rightarrow> Inl (grid_error p '' must contain decimal values'')
            | Some (Finite neg c e) \<Rightarrow>
                bindR (canonical_decimal neg c e) (\<lambda>t.
                bindR (validate_bounds p (finite_value neg c e)) (\<lambda>_. Inr (t, DecimalValue (finite_value neg c e))))
            | Some _ \<Rightarrow> Inl (grid_error p '' must contain finite values'')))"

definition parse_grid_values :: "parameter_metadata \<Rightarrow> string list \<Rightarrow> (string \<times> parameter_value) list result" where
  "parse_grid_values p vs =
     bindR (mapR (parse_parameter_value p) vs) (\<lambda>parsed.
       raising [(\<not> distinct (map fst parsed), grid_error p '' contains duplicate values'')] parsed)"

section \<open>The planner\<close>

definition require_exact_names :: "strategy_metadata \<Rightarrow> parameter_grid list \<Rightarrow> unit result" where
  "require_exact_names m grids =
     (let names = map grid_name grids; expected = map meta_name (metadata_parameters m);
          missing = sort (filter (\<lambda>n. n \<notin> set names) expected);
          unexpected = sort (filter (\<lambda>n. n \<notin> set expected) names)
      in raising
           [(\<not> distinct names, ValueError ''optimization parameter names must be unique''),
            (missing \<noteq> [], ValueError (''missing optimization parameter: '' @ hd missing)),
            (unexpected \<noteq> [], ValueError (''unexpected optimization parameter: '' @ hd unexpected))] ())"

text \<open>One round of the loop over the strategy's parameters: the value groups and the product so far.\<close>

definition group_step ::
  "int \<Rightarrow> parameter_grid list \<Rightarrow> (string \<times> parameter_value) list list \<times> int \<Rightarrow> parameter_metadata
   \<Rightarrow> ((string \<times> parameter_value) list list \<times> int) result" where
  "group_step max_trials grids acc p =
     (case map_of (map (\<lambda>g. (grid_name g, g)) grids) (meta_name p) of
        None \<Rightarrow> Inl (MissingKey (meta_name p))
      | Some g \<Rightarrow> bindR (parse_grid_values p (grid_values g)) (\<lambda>vs.
          let requested = snd acc * int (length vs)
          in raising [(requested > max_trials, ValueError (''optimization parameter grid exceeds maximum of '' @
                str_int max_trials @ '' trials''))] (fst acc @ [vs], requested)))"

text \<open>The parameters of a combination: as texts for the record, as values for the strategy.\<close>

definition texts_of :: "parameter_metadata list \<Rightarrow> (string \<times> parameter_value) list \<Rightarrow> experiment_parameter list" where
  "texts_of ps c = map (\<lambda>(p, t, v). \<lparr>parameter_name = meta_name p, parameter_value = t\<rparr>) (zip ps c)"

definition typed_of :: "parameter_metadata list \<Rightarrow> (string \<times> parameter_value) list \<Rightarrow> parameters" where
  "typed_of ps c = map (\<lambda>(p, t, v). (meta_name p, v)) (zip ps c)"

text \<open>What \<open>except ValueError\<close> catches: pydantic's validation errors are value errors.\<close>

fun is_value_error :: "exn \<Rightarrow> bool" where
  "is_value_error (ValueError m) = True"
| "is_value_error (FieldErrors ns) = True"
| "is_value_error _ = False"

definition combination_step ::
  "strategy_registry \<Rightarrow> string \<Rightarrow> string \<Rightarrow> parameter_metadata list \<Rightarrow> optimization_trial list \<times> int
   \<Rightarrow> (string \<times> parameter_value) list \<Rightarrow> (optimization_trial list \<times> int) result" where
  "combination_step reg name version ps acc c =
     bindR (mapR ExperimentParameter (texts_of ps c)) (\<lambda>texts.
     case registry_create reg name version (typed_of ps c) of
       Inl e \<Rightarrow> if is_value_error e then Inr (fst acc, snd acc + 1) else Inl e
     | Inr s \<Rightarrow> bindR (OptimizationTrial \<lparr>trial_number = int (length (fst acc)) + 1, trial_parameters = texts\<rparr>)
                  (\<lambda>t. Inr (fst acc @ [t], snd acc)))"

definition plan_optimization ::
  "strategy_registry \<Rightarrow> int \<Rightarrow> string \<Rightarrow> string \<Rightarrow> parameter_grid list \<Rightarrow> comparison_metric \<Rightarrow> optimization_plan result" where
  "plan_optimization reg max_trials name version grids objective =
     bindR (raising [(max_trials \<le> 0, ValueError ''optimization max trials must be greater than zero'')] ()) (\<lambda>_.
     bindR (require_strategy reg name version) (\<lambda>d.
     case definition_metadata d of
       None \<Rightarrow> Inl (ValueError ''strategy does not expose optimization metadata'')
     | Some m \<Rightarrow>
         bindR (require_exact_names m grids) (\<lambda>_.
         bindR (foldR (group_step max_trials grids) ([], 1) (metadata_parameters m)) (\<lambda>(groups, requested).
         bindR (foldR (combination_step reg name version (metadata_parameters m)) ([], 0) (product_lists groups))
           (\<lambda>(ts, skipped).
         if ts = [] then Inl (ValueError ''optimization parameter grid contains no valid strategy trials'')
         else OptimizationPlan
           \<lparr>plan_strategy_name = name, plan_strategy_version = version, plan_objective = objective,
            requested_combinations = requested, skipped_combinations = skipped, total_trials = int (length ts),
            trials = ts\<rparr>)))))"

section \<open>The scorer\<close>

record optimization_entry =
  ranked_position :: int
  ranked_metric :: rat
  ranked_experiment :: experiment_summary

definition OptimizationRankingEntry :: "optimization_entry \<Rightarrow> optimization_entry result" where
  "OptimizationRankingEntry e = check_fields [(''position'', 1 \<le> ranked_position e)] e"

record optimization_ranking =
  ranking_dataset_id :: string
  ranking_strategy_name :: string
  ranking_strategy_version :: string
  ranking_horizon :: int
  ranking_objective :: comparison_metric
  ranking_direction_of :: ranking_direction
  ranked_experiments :: int
  ranking_best_id :: string
  ranking_entries :: "optimization_entry list"

definition OptimizationRankingResult :: "optimization_ranking \<Rightarrow> optimization_ranking result" where
  "OptimizationRankingResult r = check_fields
     [(''horizon_candles'', 1 \<le> ranking_horizon r), (''ranked_experiments'', 1 \<le> ranked_experiments r),
      (''entries'', 1 \<le> length (ranking_entries r))] r"

definition experiment_identity :: "experiment_summary \<Rightarrow> string \<times> string \<times> string \<times> int" where
  "experiment_identity x = (summarized_dataset_id x, summarized_strategy_name x, summarized_strategy_version x,
     summarized_horizon x)"

definition validate_rankable :: "experiment_summary list \<Rightarrow> unit result" where
  "validate_rankable xs = raising
     [(xs = [], ValueError ''at least one optimization experiment is required''),
      (card (set (map summarized_id xs)) \<noteq> length xs, ValueError ''optimization experiment IDs must be unique''),
      (card (set (map experiment_identity xs)) \<noteq> 1,
         ValueError ''optimization experiments must share dataset, strategy version, and horizon'')] ()"

definition rank_experiments :: "experiment_summary list \<Rightarrow> comparison_metric \<Rightarrow> optimization_ranking result" where
  "rank_experiments xs m =
     bindR (validate_rankable xs) (\<lambda>_.
     let ordered = sort_key (metric_key m) xs
     in bindR (mapR (\<lambda>(n, x). OptimizationRankingEntry
             \<lparr>ranked_position = n, ranked_metric = metric_value m x, ranked_experiment = x\<rparr>)
           (enumerate_from 1 ordered)) (\<lambda>entries.
        if ordered = [] then Inl OutOfRange
        else OptimizationRankingResult
          \<lparr>ranking_dataset_id = summarized_dataset_id (hd ordered),
           ranking_strategy_name = summarized_strategy_name (hd ordered),
           ranking_strategy_version = summarized_strategy_version (hd ordered),
           ranking_horizon = summarized_horizon (hd ordered), ranking_objective = m,
           ranking_direction_of = metric_direction m, ranked_experiments = int (length ordered),
           ranking_best_id = summarized_id (hd ordered), ranking_entries = entries\<rparr>))"


section \<open>The loops of the planner\<close>

lemma length_product_Cons: "length (product_lists (xs # xss)) = length xs * length (product_lists xss)"
  by (simp add: length_concat comp_def sum_list_triv)

text \<open>The value group of a parameter comes from the grid of its name.\<close>

definition group_of :: "parameter_grid list \<Rightarrow> parameter_metadata \<Rightarrow> (string \<times> parameter_value) list \<Rightarrow> bool" where
  "group_of grids p vs \<longleftrightarrow>
     (\<exists>g \<in> set grids. grid_name g = meta_name p \<and> parse_grid_values p (grid_values g) = Inr vs)"

lemma group_loop:
  "foldR (group_step max_trials grids) acc ps = Inr (gs, r) \<Longrightarrow>
   \<exists>gs'. gs = fst acc @ gs' \<and> list_all2 (group_of grids) ps gs' \<and> r = snd acc * int (length (product_lists gs'))
     \<and> (snd acc \<le> max_trials \<longrightarrow> r \<le> max_trials)"
proof (induction ps arbitrary: acc)
  case (Cons p ps)
  then obtain acc' where "group_step max_trials grids acc p = Inr acc'" and rest: "foldR (group_step max_trials grids) acc' ps = Inr (gs, r)"
    by (auto simp: bindR_Inr_iff)
  then obtain g vs where g: "map_of (map (\<lambda>g. (grid_name g, g)) grids) (meta_name p) = Some g"
      "parse_grid_values p (grid_values g) = Inr vs" "snd acc * int (length vs) \<le> max_trials"
      "acc' = (fst acc @ [vs], snd acc * int (length vs))"
    by (auto simp: group_step_def bindR_Inr_iff Let_def raising_Inr_iff not_less split: option.splits)
  have "group_of grids p vs" using g(1,2) by (fastforce simp: group_of_def dest!: map_of_SomeD)
  moreover obtain gs' where "gs = (fst acc @ [vs]) @ gs'" "list_all2 (group_of grids) ps gs'"
      "r = snd acc * int (length vs) * int (length (product_lists gs'))" "r \<le> max_trials"
    using Cons.IH [OF rest] g(3,4) by auto
  ultimately show ?case by (intro exI [of _ "vs # gs'"]) (simp add: length_product_Cons del: product_lists.simps(2))
qed simp

text \<open>A combination the strategy's factory accepts.\<close>

definition accepted ::
  "strategy_registry \<Rightarrow> string \<Rightarrow> string \<Rightarrow> parameter_metadata list \<Rightarrow> (string \<times> parameter_value) list \<Rightarrow> bool" where
  "accepted reg name version ps c = returns (registry_create reg name version (typed_of ps c))"

lemma checked_texts: "mapR ExperimentParameter (texts_of ps c) = Inr ts \<Longrightarrow> ts = texts_of ps c"
proof -
  have "mapR ExperimentParameter us = Inr ts \<Longrightarrow> ts = us" for us
    by (induction us arbitrary: ts) (auto simp: bindR_Inr_iff ExperimentParameter_def check_fields_Inr_iff)
  then show "mapR ExperimentParameter (texts_of ps c) = Inr ts \<Longrightarrow> ts = texts_of ps c" .
qed

lemma combination_loop:
  "foldR (combination_step reg name version ps) acc cs = Inr (ts, k) \<Longrightarrow>
   map trial_number (fst acc) = [1..int (length (fst acc))] \<Longrightarrow>
   map trial_parameters ts = map trial_parameters (fst acc) @ map (texts_of ps) (filter (accepted reg name version ps) cs)
     \<and> k + int (length ts) = snd acc + int (length (fst acc)) + int (length cs)
     \<and> map trial_number ts = [1..int (length ts)]"
proof (induction cs arbitrary: acc)
  case (Cons c cs)
  then obtain acc' where step: "combination_step reg name version ps acc c = Inr acc'"
      and rest: "foldR (combination_step reg name version ps) acc' cs = Inr (ts, k)"
    by (auto simp: bindR_Inr_iff)
  have "if accepted reg name version ps c
      then \<exists>t. acc' = (fst acc @ [t], snd acc) \<and> trial_parameters t = texts_of ps c \<and> trial_number t = int (length (fst acc)) + 1
      else acc' = (fst acc, snd acc + 1)"
    using step
    by (cases "registry_create reg name version (typed_of ps c)")
      (auto simp: combination_step_def accepted_def bindR_Inr_iff OptimizationTrial_def check_fields_Inr_iff
        raising_Inr_iff split: if_splits dest!: checked_texts)
  moreover from this have "map trial_number (fst acc') = [1..int (length (fst acc'))]"
    using Cons.prems(2) by (auto simp: upto_rec2 split: if_splits)
  ultimately show ?case using Cons.IH [OF rest] by (auto split: if_splits)
qed simp

lemma distinct_texts:
  assumes "list_all2 (group_of grids) ps gs" shows "distinct (map (texts_of ps) (product_lists gs))"
proof -
  have keys: "\<forall>vs \<in> set gs. distinct (map fst vs)"
    using assms by (auto simp: list_all2_conv_all_nth group_of_def parse_grid_values_def bindR_Inr_iff raising_Inr_iff
        in_set_conv_nth)
  have "c = c'" if c: "c \<in> set (product_lists gs)" "c' \<in> set (product_lists gs)" and eq: "texts_of ps c = texts_of ps c'" for c c'
  proof (rule nth_equalityI)
    have len: "length c = length gs" "length c' = length gs" "length ps = length gs"
      using c assms by (auto dest: in_set_product_lists_length list_all2_lengthD)
    then show "length c = length c'" by simp
    fix i assume i: "i < length c"
    have mem: "c ! i \<in> set (gs ! i)" "c' ! i \<in> set (gs ! i)"
      using c i len by (auto simp: product_lists_set list_all2_conv_all_nth)
    have "texts_of ps c ! i = texts_of ps c' ! i" using eq by simp
    then have "fst (c ! i) = fst (c' ! i)" using i len by (simp add: texts_of_def case_prod_unfold)
    then show "c ! i = c' ! i" using mem keys i len by (metis eq_key_imp_eq_value nth_mem prod.collapse)
  qed
  moreover have "distinct (product_lists gs)" using keys by (intro distinct_product_lists) (auto simp: distinct_map)
  ultimately show ?thesis by (simp add: distinct_map inj_on_def)
qed

section \<open>What a plan is\<close>

lemma planned_optimization:
  assumes "plan_optimization reg max_trials name version grids objective = Inr q"
  shows "\<exists>m gs. get_metadata reg name version = Some m \<and> list_all2 (group_of grids) (metadata_parameters m) gs
    \<and> map trial_parameters (trials q)
        = map (texts_of (metadata_parameters m))
            (filter (accepted reg name version (metadata_parameters m)) (product_lists gs))
    \<and> requested_combinations q = int (length (product_lists gs)) \<and> requested_combinations q \<le> max_trials
    \<and> skipped_combinations q = requested_combinations q - int (length (trials q))
    \<and> map trial_number (trials q) = [1..int (length (trials q))] \<and> trials q \<noteq> [] \<and> plan_objective q = objective"
proof -
  obtain d m gs r ts k where d: "require_strategy reg name version = Inr d" "definition_metadata d = Some m" "0 < max_trials"
      and groups: "foldR (group_step max_trials grids) ([], 1) (metadata_parameters m) = Inr (gs, r)"
      and combos: "foldR (combination_step reg name version (metadata_parameters m)) ([], 0) (product_lists gs) = Inr (ts, k)"
      and q: "ts \<noteq> []" "q = \<lparr>plan_strategy_name = name, plan_strategy_version = version, plan_objective = objective,
            requested_combinations = r, skipped_combinations = k, total_trials = int (length ts), trials = ts\<rparr>"
    using assms unfolding plan_optimization_def
    by (auto simp: bindR_Inr_iff raising_Inr_iff OptimizationPlan_def check_fields_Inr_iff not_le
        split: option.splits if_splits prod.splits)
  have "get_metadata reg name version = Some m"
    using d(1,2) by (simp add: get_metadata_def require_strategy_def split: option.splits)
  moreover have "list_all2 (group_of grids) (metadata_parameters m) gs" "r = int (length (product_lists gs))" "r \<le> max_trials"
    using group_loop [OF groups] d(3) by auto
  moreover have "map trial_parameters ts = map (texts_of (metadata_parameters m))
        (filter (accepted reg name version (metadata_parameters m)) (product_lists gs))"
      "k + int (length ts) = int (length (product_lists gs))" "map trial_number ts = [1..int (length ts)]"
    using combination_loop [OF combos] by simp_all
  ultimately show ?thesis using q by (intro exI [of _ m] exI [of _ gs]) simp
qed

lemma rank_experiments_Inr_iff:
  "rank_experiments xs m = Inr r \<longleftrightarrow> xs \<noteq> [] \<and> distinct (map summarized_id xs)
     \<and> (\<forall>x \<in> set xs. experiment_identity x = experiment_identity (hd xs)) \<and> 1 \<le> summarized_horizon (hd xs)
     \<and> r = (let ordered = sort_key (metric_key m) xs in
         \<lparr>ranking_dataset_id = summarized_dataset_id (hd ordered),
          ranking_strategy_name = summarized_strategy_name (hd ordered),
          ranking_strategy_version = summarized_strategy_version (hd ordered),
          ranking_horizon = summarized_horizon (hd ordered), ranking_objective = m,
          ranking_direction_of = metric_direction m, ranked_experiments = int (length ordered),
          ranking_best_id = summarized_id (hd ordered),
          ranking_entries = map (\<lambda>(n, x). \<lparr>ranked_position = n, ranked_metric = metric_value m x,
            ranked_experiment = x\<rparr>) (enumerate_from 1 ordered)\<rparr>)"
    (is "_ = Inr r \<longleftrightarrow> ?ne \<and> ?ids \<and> ?same \<and> ?h \<and> r = ?r")
proof (cases "?ne \<and> ?ids \<and> ?same")
  case True
  have ok: "validate_rankable xs = Inr ()"
    unfolding validate_rankable_def raising_Inr_iff
    by (simp only: list.set ball_simps prod.case card_map_eq_length card_map_eq_one) (use True in blast)
  define ordered where "ordered = sort_key (metric_key m) xs"
  have ne: "xs \<noteq> []" "ordered \<noteq> []" and len: "length ordered = length xs" "1 \<le> length xs"
    using True by (auto simp: ordered_def Suc_le_eq)
  have "mapR (\<lambda>(n, x). OptimizationRankingEntry
      \<lparr>ranked_position = n, ranked_metric = metric_value m x, ranked_experiment = x\<rparr>) (enumerate_from 1 ordered)
    = Inr (map (\<lambda>(n, x). \<lparr>ranked_position = n, ranked_metric = metric_value m x, ranked_experiment = x\<rparr>)
        (enumerate_from 1 ordered))"
    by (rule mapR_total) (auto simp: OptimizationRankingEntry_def check_fields_Inr_iff dest: enumerate_from_late)
  then have run: "rank_experiments xs m = OptimizationRankingResult ?r"
    using ok ne(2) by (simp add: rank_experiments_def Let_def ordered_def)
  have checked: "OptimizationRankingResult ?r = Inr r \<longleftrightarrow> 1 \<le> summarized_horizon (hd ordered) \<and> r = ?r"
    using len by (auto simp: OptimizationRankingResult_def check_fields_Inr_iff Let_def ordered_def)
  have "hd ordered \<in> set xs" using sort_key_first(1) [OF ne(1)] by (simp add: ordered_def)
  then have "experiment_identity (hd ordered) = experiment_identity (hd xs)" using True by blast
  then have "summarized_horizon (hd ordered) = summarized_horizon (hd xs)" by (simp add: experiment_identity_def)
  then have "rank_experiments xs m = Inr r \<longleftrightarrow> ?h \<and> r = ?r" by (simp only: run checked)
  then show ?thesis using True by blast
next
  case False
  then have "validate_rankable xs \<noteq> Inr ()"
    unfolding validate_rankable_def raising_Inr_iff
    by (simp only: list.set ball_simps prod.case card_map_eq_length card_map_eq_one) blast
  then have "rank_experiments xs m \<noteq> Inr r" unfolding rank_experiments_def bindR_Inr_iff by simp
  then show ?thesis using False by blast
qed


section \<open>Properties\<close>

text \<open>
  C36: an optimization plan for a strategy of the default registry has exactly the combinations of the grid
  values that the strategy's constructor accepts, in the order of the grid (the last parameter varies
  fastest), numbered from one and none twice; the others are counted as skipped. At most the allowed
  number of combinations is requested, and every trial's values make a configured strategy.
\<close>

theorem optimization_plan_exact:
  assumes "build_default_strategy_registry = Inr reg"
    and "plan_optimization reg max_trials name version grids objective = Inr q"
  shows "\<exists>m gs cs. get_metadata reg name version = Some m \<and> list_all2 (group_of grids) (metadata_parameters m) gs
    \<and> subseq cs (product_lists gs)
    \<and> (\<forall>c \<in> set (product_lists gs). c \<in> set cs \<longleftrightarrow> (\<exists>s. registry_create reg name version
          (typed_of (metadata_parameters m) c) = Inr s \<and> configured_strategy s \<and> strategy_name (text_of s) = name))
    \<and> map trial_parameters (trials q) = map (texts_of (metadata_parameters m)) cs
    \<and> distinct (map trial_parameters (trials q)) \<and> map trial_number (trials q) = [1..int (length cs)]
    \<and> requested_combinations q = int (length (product_lists gs)) \<and> requested_combinations q \<le> max_trials
    \<and> skipped_combinations q = requested_combinations q - int (length cs) \<and> cs \<noteq> []"
proof -
  obtain m gs where m: "get_metadata reg name version = Some m" "list_all2 (group_of grids) (metadata_parameters m) gs"
      "map trial_parameters (trials q) = map (texts_of (metadata_parameters m))
         (filter (accepted reg name version (metadata_parameters m)) (product_lists gs))"
      "requested_combinations q = int (length (product_lists gs))" "requested_combinations q \<le> max_trials"
      "skipped_combinations q = requested_combinations q - int (length (trials q))"
      "map trial_number (trials q) = [1..int (length (trials q))]" "trials q \<noteq> []"
    using planned_optimization [OF assms(2)] by blast
  define cs where "cs = filter (accepted reg name version (metadata_parameters m)) (product_lists gs)"
  have len: "length (trials q) = length cs" using m(3) by (metis cs_def length_map)
  have "distinct (map trial_parameters (trials q))"
    unfolding m(3) using distinct_texts [OF m(2)] by (simp add: distinct_map_filter)
  moreover have "accepted reg name version (metadata_parameters m) c \<longleftrightarrow> (\<exists>s. registry_create reg name version
          (typed_of (metadata_parameters m) c) = Inr s \<and> configured_strategy s \<and> strategy_name (text_of s) = name)" for c
    using created_configured [OF assms(1)] by (auto simp: accepted_def returns_iff)
  moreover have "subseq cs (product_lists gs)" by (simp add: cs_def subseq_filter_left)
  moreover have "cs \<noteq> []" using len m(8) by auto
  ultimately show ?thesis
    using m len by (intro exI [of _ m] exI [of _ gs] exI [of _ cs]) (simp add: cs_def)
qed

lemma sample_groups:
  "parse_grid_values (period_parameter ''fast_period'' ''9'' ''2'') [''5'', '' 9''] = Inr [(''5'', IntValue 5), (''9'', IntValue 9)]"
  "parse_grid_values (period_parameter ''slow_period'' ''21'' ''3'') [''9'', ''21''] = Inr [(''9'', IntValue 9), (''21'', IntValue 21)]"
  by code_simp+

lemma sample_build:
  "build_ema_crossover [(''fast_period'', IntValue 5), (''slow_period'', IntValue 9)]
    = Inr (EmaStrategy \<lparr>fast_period = 5, slow_period = 9\<rparr>)"
  "build_ema_crossover [(''fast_period'', IntValue 5), (''slow_period'', IntValue 21)]
    = Inr (EmaStrategy \<lparr>fast_period = 5, slow_period = 21\<rparr>)"
  "case build_ema_crossover [(''fast_period'', IntValue 9), (''slow_period'', IntValue 9)] of Inl e \<Rightarrow> is_value_error e | Inr s \<Rightarrow> False"
  "build_ema_crossover [(''fast_period'', IntValue 9), (''slow_period'', IntValue 21)]
    = Inr (EmaStrategy \<lparr>fast_period = 9, slow_period = 21\<rparr>)"
  by code_simp+

definition sample_grids :: "parameter_grid list" where
  "sample_grids = [\<lparr>grid_name = ''slow_period'', grid_values = [''9'', ''21'']\<rparr>,
     \<lparr>grid_name = ''fast_period'', grid_values = [''5'', '' 9'']\<rparr>]"

lemma sample_plan:
  assumes "build_default_strategy_registry = Inr reg"
  shows "\<exists>q. plan_optimization reg 100 ''ema-crossover'' ''1.0.0'' sample_grids TOTAL_RETURN = Inr q
    \<and> map (\<lambda>t. map parameter_value (trial_parameters t)) (trials q) = [[''5'', ''9''], [''5'', ''21''], [''9'', ''21'']]
    \<and> skipped_combinations q = 1"
proof -
  have "default_strategies ! 0 \<in> set default_strategies" "fst (default_strategies ! 0) = ''ema-crossover''"
    by (simp_all add: default_strategies_def)
  then obtain d where d: "require_strategy reg ''ema-crossover'' ''1.0.0'' = Inr d" "made_by (default_strategies ! 0) d"
    using default_require(2) [OF assms] by metis
  then obtain m where m: "definition_metadata d = Some m" "metadata_parameters m = crossover_parameters"
      "factory d = build_ema_crossover" "definition_name d = ''ema-crossover''" "definition_version d = ''1.0.0''"
    by (auto simp: made_by_def default_strategies_def split: option.splits)
  have make: "registry_create reg ''ema-crossover'' ''1.0.0'' ps
      = bindR (build_ema_crossover ps) (\<lambda>s. raising
     [(strategy_name (text_of s) \<noteq> ''ema-crossover'',
         ValueError ''strategy factory returned an unexpected strategy name''),
      (strategy_version (text_of s) \<noteq> ''1.0.0'',
         ValueError ''strategy factory returned an unexpected strategy version'')] s)" for ps
    by (simp add: registry_create_def d(1) create_strategy_def m)
  obtain e where e: "build_ema_crossover [(''fast_period'', IntValue 9), (''slow_period'', IntValue 9)] = Inl e" "is_value_error e"
    using sample_build(3) by (auto split: sum.splits)
  have groups: "foldR (group_step 100 sample_grids) ([], 1) crossover_parameters
      = Inr ([[(''5'', IntValue 5), (''9'', IntValue 9)], [(''9'', IntValue 9), (''21'', IntValue 21)]], 4)"
    by (simp add: crossover_parameters_def group_step_def sample_grids_def sample_groups raising.simps)
      (simp add: period_parameter_def sample_groups [unfolded period_parameter_def] raising.simps)
  have names: "require_exact_names m sample_grids = Inr ()"
    by (simp add: require_exact_names_def m crossover_parameters_def period_parameter_def sample_grids_def raising.simps)
  define pair where "pair = (\<lambda>a b. [\<lparr>parameter_name = ''fast_period'', parameter_value = a\<rparr>,
      \<lparr>parameter_name = ''slow_period'', parameter_value = b\<rparr> :: experiment_parameter])"
  have texts: "texts_of crossover_parameters [(a, x), (b, y)] = pair a b"
      "typed_of crossover_parameters [(a, x), (b, y)] = [(''fast_period'', x), (''slow_period'', y)]" for a b x y
    by (simp_all add: texts_of_def typed_of_def crossover_parameters_def period_parameter_def pair_def)
  have ok: "mapR ExperimentParameter (pair a b) = Inr (pair a b)" "distinct (map parameter_name (pair a b))"
      "1 \<le> length (pair a b)" if "sized 1 200 a" "sized 1 200 b" for a b
    using that by (simp_all add: pair_def ExperimentParameter_def check_fields_def sized_def)
  have short: "sized 1 200 ''5''" "sized 1 200 ''9''" "sized 1 200 ''21''" by (simp_all add: sized_def)
  note oks = ok(1) [OF short(1) short(2)] ok(1) [OF short(1) short(3)] ok(1) [OF short(2) short(2)] ok(1) [OF short(2) short(3)]
  have named: "strategy_name (text_of (EmaStrategy st)) = ''ema-crossover''"
      "strategy_version (text_of (EmaStrategy st)) = ''1.0.0''" for st
    by (simp_all add: text_of_def ema_text_def)
  have trial: "OptimizationTrial \<lparr>trial_number = n, trial_parameters = pair a b\<rparr>
      = Inr \<lparr>trial_number = n, trial_parameters = pair a b\<rparr>" if "1 \<le> n" "sized 1 200 a" "sized 1 200 b" for n a b
    using that ok [of a b] by (simp add: OptimizationTrial_def check_fields_Inr_iff raising_Inr_iff bindR_Inr_iff)
  have combos: "foldR (combination_step reg ''ema-crossover'' ''1.0.0'' crossover_parameters) ([], 0)
      (product_lists [[(''5'', IntValue 5), (''9'', IntValue 9)], [(''9'', IntValue 9), (''21'', IntValue 21)]])
    = Inr ([\<lparr>trial_number = 1, trial_parameters = pair ''5'' ''9''\<rparr>, \<lparr>trial_number = 2, trial_parameters = pair ''5'' ''21''\<rparr>,
        \<lparr>trial_number = 3, trial_parameters = pair ''9'' ''21''\<rparr>], 1)"
    by (simp add: combination_step_def texts oks make sample_build e named raising.simps
        trial [OF _ short(1) short(2)] trial [OF _ short(1) short(3)] trial [OF _ short(2) short(3)])
  show ?thesis
    unfolding plan_optimization_def d(1) bindR.simps m option.case names groups raising.simps prod.case combos
    by (simp add: raising.simps OptimizationPlan_def check_fields_def sized_def MAX_OPTIMIZATION_TRIALS_def pair_def)
qed

theorem optimization_plan_exact_witness:
  "\<exists>reg q. build_default_strategy_registry = Inr reg
     \<and> plan_optimization reg 100 ''ema-crossover'' ''1.0.0'' sample_grids TOTAL_RETURN = Inr q
     \<and> map (\<lambda>t. map parameter_value (trial_parameters t)) (trials q) = [[''5'', ''9''], [''5'', ''21''], [''9'', ''21'']]
     \<and> map trial_number (trials q) = [1..3]"
proof -
  obtain reg where reg: "build_default_strategy_registry = Inr reg" using default_registry by blast
  obtain q where q: "plan_optimization reg 100 ''ema-crossover'' ''1.0.0'' sample_grids TOTAL_RETURN = Inr q"
      "map (\<lambda>t. map parameter_value (trial_parameters t)) (trials q) = [[''5'', ''9''], [''5'', ''21''], [''9'', ''21'']]"
    using sample_plan [OF reg] by (elim exE conjE) (rule that, assumption+)
  obtain m :: strategy_metadata and cs where m: "map trial_parameters (trials q) = map (texts_of (metadata_parameters m)) cs"
      "map trial_number (trials q) = [1..int (length cs)]"
    using optimization_plan_exact [OF reg q(1)] by (elim exE conjE) blast
  have "length (trials q) = 3" using arg_cong [OF q(2), of length] by simp
  then have "length cs = 3" using m(1) by (metis length_map)
  then show ?thesis using reg q m(2) by auto
qed

text \<open>
  The optimization scorer and the comparison of experiments agree. Where both accept a set of experiments,
  they give it the same order, positions and metric values and name the same best experiment.
\<close>

theorem scorer_agrees_with_comparison:
  assumes "rank_experiments xs m = Inr r" "compare_experiments xs m = Inr c"
  shows "map (\<lambda>e. (ranked_position e, ranked_metric e, ranked_experiment e)) (ranking_entries r)
      = map (\<lambda>e. (entry_position e, entry_metric e, entry_experiment e)) (comparison_entries c)
    \<and> ranking_best_id r = best_experiment_id c \<and> ranking_direction_of r = result_direction c
    \<and> ranked_experiments r = compared_experiments c"
  using assms by (auto simp: rank_experiments_Inr_iff compare_experiments_Inr_iff Let_def case_prod_unfold)

theorem scorer_agrees_with_comparison_witness:
  "\<exists>r c. rank_experiments [sample_summary ''a'' 1, sample_summary ''b'' 2] TOTAL_RETURN = Inr r
     \<and> compare_experiments [sample_summary ''a'' 1, sample_summary ''b'' 2] TOTAL_RETURN = Inr c
     \<and> ranking_best_id r = best_experiment_id c"
proof -
  obtain c where c: "compare_experiments [sample_summary ''a'' 1, sample_summary ''b'' 2] TOTAL_RETURN = Inr c"
    using sample_comparison ..
  obtain r where r: "rank_experiments [sample_summary ''a'' 1, sample_summary ''b'' 2] TOTAL_RETURN = Inr r"
    by (simp add: rank_experiments_Inr_iff experiment_identity_def sample_summary_def)
  show ?thesis using r c scorer_agrees_with_comparison [OF r c] by blast
qed

lemma close_to_fifty:
  "parse_decimal ''49.99999999999999999999999999999'' = Some (Finite False 4999999999999999999999999999999 (-29))"
  by code_simp

lemma close_to_fifty_text: "canonical_decimal False 4999999999999999999999999999999 (-29) = Inr ''50''"
  by code_simp

lemma bounds_read: "parse_decimal ''0'' = Some (Finite False 0 0)" "parse_decimal ''50'' = Some (Finite False 50 0)"
    "canonical_decimal False 50 0 = Inr ''50''"
  by code_simp+

text \<open>A value accepted by exclusive bounds whose rounding reaches the maximum.\<close>

lemma parsed_decimal:
  assumes "parse_parameter_value p v = Inr (t, DecimalValue x)"
  obtains neg c e where "meta_kind p \<noteq> INTEGER_PARAMETER" "parse_decimal v = Some (Finite neg c e)"
    "canonical_decimal neg c e = Inr t" "validate_bounds p x = Inr ()" "x = finite_value neg c e"
proof -
  have kind: "meta_kind p \<noteq> INTEGER_PARAMETER"
    using assms by (auto simp: parse_parameter_value_def bindR_Inr_iff split: option.splits)
  then obtain l where l: "parse_decimal v = Some l"
    using assms by (cases "parse_decimal v") (simp_all add: parse_parameter_value_def)
  with kind assms obtain neg c e where "l = Finite neg c e"
    by (cases l) (simp_all add: parse_parameter_value_def)
  with kind assms l show ?thesis
    by (intro that [of neg c e]) (simp_all add: parse_parameter_value_def bindR_Inr_iff, auto)
qed

lemma recorded_text:
  assumes "parse_decimal v = Some (Finite neg c e)" "canonical_decimal neg c e = Inr t"
    and "in_decimal_range (finite_value neg c e)"
  shows "\<exists>c' e'. parse_decimal t = Some (Finite neg c' e') \<and> canonical_decimal neg c' e' = Inr t
    \<and> finite_value neg c' e' = dround (finite_value neg c e)"
proof -
  have c: "0 \<le> c" using assms(1) by (rule parse_decimal_coefficient)
  obtain d x where n: "normalize_decimal c e = Inr (d, x)" "t = plain_text neg d x"
    using assms(2) by (auto simp: canonical_decimal_def bindR_Inr_iff)
  have "in_decimal_range (of_int c * power_of_ten e)"
    using assms(3) by (auto simp: in_decimal_range_def finite_value_def abs_mult split: if_splits)
  note v = normalized_value [OF c n(1) this]
  obtain c' e' where r: "parse_decimal t = Some (Finite neg c' e')" "normalize_decimal c' e' = Inr (d, x)"
    "of_int c' * power_of_ten e' = of_int d * power_of_ten x"
    using plain_text_reads [OF normalize_form [OF c n(1)], of neg] n(2) by blast
  have "finite_value neg c' e' = dround (finite_value neg c e)"
    using r(3) v dround_minus [of "of_int c * power_of_ten e"] by (simp add: finite_value_def dround_def)
  with r(1,2) show ?thesis by (auto simp: canonical_decimal_def n(2))
qed

lemma above_maximum:
  assumes "validate_bounds p x = Inr ()" "maximum p = Some b" "maximum_exclusive p"
    and "parse_decimal b = Some (Finite nb cb eb)" "finite_value nb cb eb \<le> y"
  shows "x < finite_value nb cb eb \<and> validate_bounds p y = Inl (grid_error p '' is above its maximum'')"
proof -
  have x: "x < finite_value nb cb eb"
    using assms by (auto simp: validate_bounds_def compare_bound_def bindR_Inr_iff raising_Inr_iff)
  have low: "(case minimum p of None \<Rightarrow> Inr False
      | Some b \<Rightarrow> compare_bound (\<lambda>m. if minimum_exclusive p then y \<le> m else y < m) (\<lambda>neg. \<not> neg) b) = Inr False"
    using assms(1,5) x
    by (auto simp: validate_bounds_def compare_bound_def bindR_Inr_iff raising_Inr_iff
        split: option.splits decimal_literal.splits if_splits)
  show ?thesis
    using x assms(2-5) unfolding validate_bounds_def low by (simp add: compare_bound_def raising.simps)
qed

lemma in_range_large: "1 \<le> \<bar>x\<bar> \<Longrightarrow> in_decimal_range x"
proof -
  have small: "power_of_ten e \<le> 1" if "e \<le> 0" for e
    using that by (simp add: power_of_ten_def divide_le_eq_1)
  have "power_of_ten (- 999999) \<le> 1" by (rule small) simp
  then show "1 \<le> \<bar>x\<bar> \<Longrightarrow> in_decimal_range x" by (simp only: in_decimal_range_def) linarith
qed

lemma near_fifty: "dround (50 - 1 / 10 ^ 29) = 50"
proof -
  have x: "finite_value False 4999999999999999999999999999999 (-29) = 50 - 1 / 10 ^ 29"
    by (simp add: finite_value_def power_of_ten_def)
  have "in_decimal_range (50 - 1 / 10 ^ 29)" by (rule in_range_large) simp
  then show ?thesis
    using recorded_text [OF close_to_fifty close_to_fifty_text] by (simp add: x bounds_read(2)) (simp add: finite_value_def power_of_ten_def)
qed

text \<open>
  C40: Whenever the planner accepts the text of a decimal parameter, reading the text that it records is
  reading the value rounded to 28 digits: the same bounds are checked on the rounded value, and the same text
  is recorded again. A value of at most 28 digits is therefore accepted again unchanged, so the recorded
  parameters reproduce the trial. A longer value need not be: when it rounds to a value at or above an
  exclusive maximum, the recorded text is itself refused as above the maximum, although the trial ran. The
  value is zero or not below the smallest exponent of the decimal context.
\<close>

theorem rounded_value_recorded:
  assumes "parse_parameter_value p v = Inr (t, DecimalValue x)" "in_decimal_range x"
  shows "parse_parameter_value p t = bindR (validate_bounds p (dround x)) (\<lambda>_. Inr (t, DecimalValue (dround x)))
    \<and> (dround x = x \<longrightarrow> parse_parameter_value p t = Inr (t, DecimalValue x))
    \<and> (\<forall>b nb cb eb. maximum p = Some b \<and> maximum_exclusive p \<and> parse_decimal b = Some (Finite nb cb eb)
         \<and> finite_value nb cb eb \<le> dround x
         \<longrightarrow> x < finite_value nb cb eb \<and> parse_parameter_value p t = Inl (grid_error p '' is above its maximum''))"
proof -
  obtain neg c e where r: "meta_kind p \<noteq> INTEGER_PARAMETER" "parse_decimal v = Some (Finite neg c e)"
    "canonical_decimal neg c e = Inr t" "validate_bounds p x = Inr ()" "x = finite_value neg c e"
    using assms(1) by (rule parsed_decimal)
  have again: "parse_parameter_value p t = bindR (validate_bounds p (dround x)) (\<lambda>_. Inr (t, DecimalValue (dround x)))"
  proof -
    obtain c' e' where "parse_decimal t = Some (Finite neg c' e')" "canonical_decimal neg c' e' = Inr t"
      "finite_value neg c' e' = dround x"
      using recorded_text [OF r(2,3)] assms(2) r(5) by blast
    then show ?thesis using r(1) by (simp add: parse_parameter_value_def)
  qed
  moreover have "parse_parameter_value p t = Inr (t, DecimalValue x)" if "dround x = x"
    using again r(4) that by simp
  moreover have "x < finite_value nb cb eb \<and> parse_parameter_value p t = Inl (grid_error p '' is above its maximum'')"
    if "maximum p = Some b" "maximum_exclusive p" "parse_decimal b = Some (Finite nb cb eb)" "finite_value nb cb eb \<le> dround x"
    for b nb cb eb
    using above_maximum [OF r(4) that] again by simp
  ultimately show ?thesis by blast
qed

theorem rounded_value_recorded_witness:
  "parse_parameter_value (threshold_parameter ''oversold_threshold'' ''30'' ''0'' ''50'')
      ''49.99999999999999999999999999999'' = Inr (''50'', DecimalValue (50 - 1 / 10 ^ 29))
   \<and> parse_parameter_value (threshold_parameter ''oversold_threshold'' ''30'' ''0'' ''50'') ''50''
    = Inl (grid_error (threshold_parameter ''oversold_threshold'' ''30'' ''0'' ''50'') '' is above its maximum'')"
proof -
  let ?p = "threshold_parameter ''oversold_threshold'' ''30'' ''0'' ''50''" and ?x = "50 - 1 / 10 ^ 29 :: rat"
  have v: "parse_parameter_value ?p ''49.99999999999999999999999999999'' = Inr (''50'', DecimalValue ?x)"
    by (simp add: parse_parameter_value_def threshold_parameter_def close_to_fifty close_to_fifty_text
        bounds_read validate_bounds_def compare_bound_def raising.simps finite_value_def power_of_ten_def)
  have "in_decimal_range ?x" by (rule in_range_large) simp
  moreover have "maximum ?p = Some ''50''" "maximum_exclusive ?p" by (simp_all add: threshold_parameter_def)
  moreover have "finite_value False 50 0 \<le> dround ?x"
    unfolding near_fifty by (simp add: finite_value_def power_of_ten_def)
  ultimately have "parse_parameter_value ?p ''50'' = Inl (grid_error ?p '' is above its maximum'')"
    using rounded_value_recorded [OF v] bounds_read(2) by blast
  with v show ?thesis ..
qed

end
