(* ===== verification/Robustness.thy ===== *)
theory Robustness imports Walk_Forward_Runs Optimization
begin

text \<open>
  Robustness of an optimization (\<open>trd_bot/research/optimization_robustness.py\<close>): the bounded walk-forward
  policy, the score of one trial from its in-sample experiment and its out-of-sample stability report,
  and the ranking of the eligible trials.
\<close>

section \<open>The policy\<close>

definition MIN_OPTIMIZATION_FOLDS :: int where "MIN_OPTIMIZATION_FOLDS = 3"
definition MAX_OPTIMIZATION_FOLDS :: int where "MAX_OPTIMIZATION_FOLDS = 12"
definition MAX_OPTIMIZATION_VALIDATION_RUNS :: int where "MAX_OPTIMIZATION_VALIDATION_RUNS = 300"

record robustness_weights =
  objective_weight :: rat
  median_weight :: rat
  positive_weight :: rat
  traded_weight :: rat
  dispersion_weight :: rat
  drawdown_weight :: rat
  gap_weight :: rat

definition default_weights :: robustness_weights where
  "default_weights =
     \<lparr>objective_weight = 45 / 100, median_weight = 15 / 100, positive_weight = 10 / 100, traded_weight = 10 / 100,
      dispersion_weight = 5 / 100, drawdown_weight = 5 / 100, gap_weight = 10 / 100\<rparr>"

definition OptimizationRobustnessWeights :: "robustness_weights \<Rightarrow> robustness_weights result" where
  "OptimizationRobustnessWeights w =
     (let actual = [objective_weight w, median_weight w, positive_weight w, traded_weight w, dispersion_weight w,
                    drawdown_weight w, gap_weight w]
      in raising
        [(actual \<noteq> [45 / 100, 15 / 100, 10 / 100, 10 / 100, 5 / 100, 5 / 100, 10 / 100],
            ValueError ''optimization robustness v1 weights are immutable''),
         (dsum actual \<noteq> 1, ValueError ''optimization robustness weights must sum to one'')] w)"

record robustness_plan =
  robust_config :: wf_config
  robust_plan_id :: string
  robust_folds :: int
  minimum_traded_folds :: int
  validation_runs :: int
  robust_weights :: robustness_weights

definition OptimizationRobustnessPlan :: "robustness_plan \<Rightarrow> robustness_plan result" where
  "OptimizationRobustnessPlan q = bindR (check_fields
     [(''walk_forward_plan_id'', has_id_form ''walk-forward-'' 16 (robust_plan_id q)),
      (''total_folds'', MIN_OPTIMIZATION_FOLDS \<le> robust_folds q \<and> robust_folds q \<le> MAX_OPTIMIZATION_FOLDS),
      (''minimum_traded_folds'', 1 \<le> minimum_traded_folds q),
      (''validation_runs'', 1 \<le> validation_runs q \<and> validation_runs q \<le> MAX_OPTIMIZATION_VALIDATION_RUNS)] q)
     (raising
       [(minimum_traded_folds q \<noteq> 1,
           ValueError ''optimization robustness v1 minimum traded folds is immutable''),
        (minimum_traded_folds q > robust_folds q, ValueError ''minimum traded folds cannot exceed total folds'')])"

text \<open>\<open>None\<close> is a walk-forward planner that never returns.\<close>

definition plan_robustness :: "'a dataset_scheme \<Rightarrow> wf_config \<Rightarrow> int \<Rightarrow> robustness_plan result option" where
  "plan_robustness ds cfg optimization_trials =
     map_option (\<lambda>planned. bindR planned (\<lambda>p.
       let total = int (length (folds p)); runs = total * optimization_trials
       in bindR (raising
            [(total < MIN_OPTIMIZATION_FOLDS, ValueError (''optimization robustness requires at least '' @
                str_int MIN_OPTIMIZATION_FOLDS @ '' folds'')),
             (total > MAX_OPTIMIZATION_FOLDS, ValueError (''optimization robustness allows at most '' @
                str_int MAX_OPTIMIZATION_FOLDS @ '' folds'')),
             (runs > MAX_OPTIMIZATION_VALIDATION_RUNS, ValueError (''optimization robustness exceeds the maximum of '' @
                str_int MAX_OPTIMIZATION_VALIDATION_RUNS @ '' trial-fold runs''))] ())
          (\<lambda>_. OptimizationRobustnessPlan
            \<lparr>robust_config = cfg, robust_plan_id = plan_id p, robust_folds = total, minimum_traded_folds = 1,
             validation_runs = runs, robust_weights = default_weights\<rparr>)))
       (plan_walk_forward ds cfg)"

section \<open>Scores\<close>

datatype rejection_reason = INSUFFICIENT_TRADED_FOLDS

record score_breakdown =
  objective_part :: rat
  median_part :: rat
  positive_part :: rat
  traded_part :: rat
  dispersion_penalty :: rat
  drawdown_penalty :: rat
  gap_penalty :: rat
  total_score :: rat

text \<open>The decimal sum of the parts, left to right.\<close>

definition score_of_parts :: "rat \<Rightarrow> rat \<Rightarrow> rat \<Rightarrow> rat \<Rightarrow> rat \<Rightarrow> rat \<Rightarrow> rat \<Rightarrow> rat" where
  "score_of_parts a b c d e f g = dsub (dsub (dsub (dadd (dadd (dadd a b) c) d) e) f) g"

definition OptimizationRobustnessBreakdown :: "score_breakdown \<Rightarrow> score_breakdown result" where
  "OptimizationRobustnessBreakdown b = bindR (check_fields
     [(''return_dispersion_penalty'', 0 \<le> dispersion_penalty b), (''drawdown_penalty'', 0 \<le> drawdown_penalty b),
      (''generalization_gap_penalty'', 0 \<le> gap_penalty b)] b)
     (raising [(total_score b \<noteq> score_of_parts (objective_part b) (median_part b) (positive_part b) (traded_part b)
          (dispersion_penalty b) (drawdown_penalty b) (gap_penalty b),
        ValueError ''optimization robustness score breakdown is inconsistent'')])"

record trial_evaluation =
  evaluated_trial :: int
  evaluated_experiment :: string
  evaluated_run :: string
  evaluation_objective :: comparison_metric
  evaluation_folds :: int
  evaluation_traded :: int
  in_sample_objective :: rat
  out_of_sample_objective :: rat
  evaluation_median :: rat
  evaluation_positive :: rat
  evaluation_traded_fraction :: rat
  evaluation_dispersion :: rat
  evaluation_drawdown :: rat
  generalization_gap :: rat
  eligible :: bool
  rejection_reasons :: "rejection_reason list"
  breakdown :: score_breakdown

definition OptimizationTrialEvaluation :: "trial_evaluation \<Rightarrow> trial_evaluation result" where
  "OptimizationTrialEvaluation e =
     bindR (check_fields
       [(''trial_number'', 1 \<le> evaluated_trial e), (''experiment_id'', sized 1 100 (evaluated_experiment e)),
        (''walk_forward_run_id'', has_id_form ''walk-forward-execution-'' 16 (evaluated_run e)),
        (''total_folds'', 1 \<le> evaluation_folds e), (''traded_folds'', 0 \<le> evaluation_traded e),
        (''positive_return_fraction'', 0 \<le> evaluation_positive e \<and> evaluation_positive e \<le> 1),
        (''traded_fold_fraction'', 0 \<le> evaluation_traded_fraction e \<and> evaluation_traded_fraction e \<le> 1),
        (''return_mean_absolute_deviation'', 0 \<le> evaluation_dispersion e),
        (''worst_max_drawdown_fraction'', 0 \<le> evaluation_drawdown e),
        (''generalization_gap'', 0 \<le> generalization_gap e)] e) (\<lambda>e.
     bindR (raising [(evaluation_traded e > evaluation_folds e, ValueError ''traded folds cannot exceed total folds'')] ())
       (\<lambda>_.
     bindR (ddiv (of_int (evaluation_traded e)) (of_int (evaluation_folds e))) (\<lambda>expected. raising
       [(evaluation_traded_fraction e \<noteq> expected, ValueError ''traded fold fraction is inconsistent''),
        (eligible e = (rejection_reasons e \<noteq> []), ValueError ''optimization trial eligibility is inconsistent'')] e)))"

definition out_of_sample_value :: "comparison_metric \<Rightarrow> stability_report \<Rightarrow> rat" where
  "out_of_sample_value m r = (case m of TOTAL_RETURN \<Rightarrow> stability_average r
     | MAX_DRAWDOWN_FRACTION \<Rightarrow> stability_drawdown r | EXCESS_RETURN \<Rightarrow> excess_average r)"

definition oriented_value :: "comparison_metric \<Rightarrow> rat \<Rightarrow> rat" where
  "oriented_value m v = (if m = MAX_DRAWDOWN_FRACTION then dneg v else v)"

definition evaluate_trial ::
  "int \<Rightarrow> experiment_summary \<Rightarrow> stability_report \<Rightarrow> robustness_plan \<Rightarrow> comparison_metric \<Rightarrow> trial_evaluation result" where
  "evaluate_trial n x r policy m =
     (if stability_folds r \<noteq> robust_folds policy
      then Inl (ValueError ''walk-forward evidence does not match robustness plan'')
      else let traded = count_where (\<lambda>f. stat_trades f > 0) (stability_details r)
      in bindR (ddiv (of_int traded) (of_int (stability_folds r))) (\<lambda>fraction.
         let oos = out_of_sample_value m r;
             inside = oriented_value m (metric_value m x); outside = oriented_value m oos;
             gap = max 0 (dsub inside outside);
             w = robust_weights policy;
             a = dmul outside (objective_weight w); b = dmul (excess_median r) (median_weight w);
             c = dmul (positive_fraction r) (positive_weight w); d = dmul fraction (traded_weight w);
             e = dmul (absolute_deviation r) (dispersion_weight w); f = dmul (stability_drawdown r) (drawdown_weight w);
             g = dmul gap (gap_weight w)
         in bindR (OptimizationRobustnessBreakdown
              \<lparr>objective_part = a, median_part = b, positive_part = c, traded_part = d, dispersion_penalty = e,
               drawdown_penalty = f, gap_penalty = g, total_score = score_of_parts a b c d e f g\<rparr>) (\<lambda>parts.
            let reasons = (if traded < minimum_traded_folds policy then [INSUFFICIENT_TRADED_FOLDS] else [])
            in OptimizationTrialEvaluation
              \<lparr>evaluated_trial = n, evaluated_experiment = summarized_id x, evaluated_run = stability_execution_id r,
               evaluation_objective = m, evaluation_folds = stability_folds r, evaluation_traded = traded,
               in_sample_objective = metric_value m x, out_of_sample_objective = oos,
               evaluation_median = excess_median r, evaluation_positive = positive_fraction r,
               evaluation_traded_fraction = fraction, evaluation_dispersion = absolute_deviation r,
               evaluation_drawdown = stability_drawdown r, generalization_gap = gap, eligible = (reasons = []),
               rejection_reasons = reasons, breakdown = parts\<rparr>)))"

section \<open>The ranking\<close>

record robustness_entry =
  robust_position :: int
  robust_evaluation :: trial_evaluation

definition OptimizationRobustnessRankingEntry :: "robustness_entry \<Rightarrow> robustness_entry result" where
  "OptimizationRobustnessRankingEntry e = bindR (check_fields [(''position'', 1 \<le> robust_position e)] e)
     (raising [(\<not> eligible (robust_evaluation e),
        ValueError ''robustness ranking cannot contain an ineligible trial'')])"

record robustness_ranking =
  robust_objective :: comparison_metric
  evaluated_trials :: int
  eligible_trials :: int
  rejected_trials :: int
  robust_best_id :: string
  robust_entries :: "robustness_entry list"

definition OptimizationRobustnessRankingResult :: "robustness_ranking \<Rightarrow> robustness_ranking result" where
  "OptimizationRobustnessRankingResult r = bindR (check_fields
     [(''evaluated_trials'', 1 \<le> evaluated_trials r), (''eligible_trials'', 1 \<le> eligible_trials r),
      (''rejected_trials'', 0 \<le> rejected_trials r), (''best_experiment_id'', sized 1 100 (robust_best_id r)),
      (''entries'', 1 \<le> length (robust_entries r))] r)
     (raising
       [(evaluated_trials r \<noteq> eligible_trials r + rejected_trials r,
           ValueError ''robustness ranking trial counts are inconsistent''),
        (eligible_trials r \<noteq> int (length (robust_entries r)),
           ValueError ''robustness ranking entry count is inconsistent''),
        (list_ex (\<lambda>(n, e). robust_position e \<noteq> n) (enumerate_from 1 (robust_entries r)),
           ValueError ''robustness ranking positions must be continuous''),
        (evaluated_experiment (robust_evaluation (hd (robust_entries r))) \<noteq> robust_best_id r,
           ValueError ''robustness ranking best experiment is inconsistent'')])"

definition robustness_key :: "trial_evaluation \<Rightarrow> rat \<times> rat \<times> rat \<times> rat \<times> string" where
  "robustness_key e =
     (dneg (total_score (breakdown e)), dneg (oriented_value (evaluation_objective e) (out_of_sample_objective e)),
      dneg (evaluation_median e), evaluation_drawdown e, evaluated_experiment e)"

definition rank_trials :: "trial_evaluation list \<Rightarrow> comparison_metric \<Rightarrow> robustness_ranking result" where
  "rank_trials es m =
     bindR (raising
       [(es = [], ValueError ''at least one robustness evaluation is required''),
        (card (set (map evaluated_experiment es)) \<noteq> length es,
           ValueError ''robustness evaluation experiment IDs must be unique''),
        (list_ex (\<lambda>e. evaluation_objective e \<noteq> m) es,
           ValueError ''robustness evaluations must share the selected objective''),
        (filter eligible es = [], ValueError ''optimization contains no robustness-eligible trial'')] ()) (\<lambda>_.
     let ordered = sort_key robustness_key (filter eligible es)
     in bindR (mapR (\<lambda>(n, e). OptimizationRobustnessRankingEntry \<lparr>robust_position = n, robust_evaluation = e\<rparr>)
          (enumerate_from 1 ordered)) (\<lambda>entries.
        OptimizationRobustnessRankingResult
          \<lparr>robust_objective = m, evaluated_trials = int (length es),
           eligible_trials = int (length (filter eligible es)),
           rejected_trials = int (length es) - int (length (filter eligible es)),
           robust_best_id = evaluated_experiment (hd ordered), robust_entries = entries\<rparr>))"


section \<open>Evaluating a trial\<close>

lemma planned_policy:
  assumes "plan_robustness ds cfg t = Some (Inr q)"
  shows "robust_weights q = default_weights" "minimum_traded_folds q = 1" "3 \<le> robust_folds q" "robust_folds q \<le> 12"
    "validation_runs q = robust_folds q * t" "validation_runs q \<le> 300"
proof -
  obtain p where "plan_walk_forward ds cfg = Some (Inr p)" "OptimizationRobustnessPlan
      \<lparr>robust_config = cfg, robust_plan_id = plan_id p, robust_folds = int (length (folds p)), minimum_traded_folds = 1,
       validation_runs = int (length (folds p)) * t, robust_weights = default_weights\<rparr> = Inr q"
    using assms by (auto simp: plan_robustness_def bindR_Inr_iff Let_def)
  then show "robust_weights q = default_weights" "minimum_traded_folds q = 1" "3 \<le> robust_folds q" "robust_folds q \<le> 12"
    "validation_runs q = robust_folds q * t" "validation_runs q \<le> 300"
    by (auto simp: OptimizationRobustnessPlan_def bindR_Inr_iff check_fields_Inr_iff raising_Inr_iff
        MIN_OPTIMIZATION_FOLDS_def MAX_OPTIMIZATION_FOLDS_def MAX_OPTIMIZATION_VALIDATION_RUNS_def)
qed

lemma stability_fields:
  assumes "analyze_stability run = Inr r"
  shows "has_id_form ''walk-forward-execution-'' 16 (stability_execution_id r)" "1 \<le> stability_folds r"
    "0 \<le> positive_fraction r" "positive_fraction r \<le> 1" "0 \<le> absolute_deviation r" "0 \<le> stability_drawdown r"
    "stability_folds r = int (length (stability_details r))"
proof -
  obtain r' where r': "WalkForwardStabilityReport r' = Inr r"
    using assms unfolding analyze_stability_def Let_def by (auto simp: bindR_Inr_iff)
  then have "r' = r"
    by (auto simp: WalkForwardStabilityReport_def validate_stability_def bindR_Inr_iff check_fields_Inr_iff raising_Inr_iff)
  with r' show "has_id_form ''walk-forward-execution-'' 16 (stability_execution_id r)" "1 \<le> stability_folds r"
    "0 \<le> positive_fraction r" "positive_fraction r \<le> 1" "0 \<le> absolute_deviation r" "0 \<le> stability_drawdown r"
    "stability_folds r = int (length (stability_details r))"
    by (auto simp: WalkForwardStabilityReport_def validate_stability_def bindR_Inr_iff check_fields_Inr_iff raising_Inr_iff)
qed

lemma dmul_nonneg: "0 \<le> x \<Longrightarrow> 0 \<le> y \<Longrightarrow> 0 \<le> dmul x y"
  by (simp add: dmul_def dc.rnd_nonneg)

lemma evaluation_runs_on:
  assumes "analyze_stability run = Inr r" "plan_robustness ds cfg t = Some (Inr policy)"
    and "stability_folds r = robust_folds policy" "1 \<le> n" "sized 1 100 (summarized_id x)"
  shows "\<exists>e. evaluate_trial n x r policy m = Inr e \<and> OptimizationTrialEvaluation e = Inr e
    \<and> OptimizationRobustnessBreakdown (breakdown e) = Inr (breakdown e) \<and> evaluation_objective e = m
    \<and> evaluated_experiment e = summarized_id x \<and> (eligible e \<longleftrightarrow> 1 \<le> stability_traded_folds r)
    \<and> generalization_gap e = max 0 (dsub (oriented_value m (metric_value m x)) (oriented_value m (out_of_sample_value m r)))
    \<and> gap_penalty (breakdown e) = dmul (generalization_gap e) (10 / 100)
    \<and> objective_part (breakdown e) = dmul (oriented_value m (out_of_sample_value m r)) (45 / 100)"
proof -
  note pol = planned_policy [OF assms(2)] and rep = stability_fields [OF assms(1)]
  let ?n = "count_where (\<lambda>f. stat_trades f > 0) (stability_details r)"
  have n: "0 \<le> ?n" "?n \<le> stability_folds r" "?n = stability_traded_folds r"
    unfolding rep(7) by (simp_all add: stability_traded_folds_def count_where_def has_trades_def [abs_def])
  have frac: "0 \<le> dquot (of_int ?n) (of_int (stability_folds r)) \<and> dquot (of_int ?n) (of_int (stability_folds r)) \<le> 1"
    using unit_quotient [OF n(1,2)] rep(2) by simp
  have w: "0 \<le> dispersion_weight default_weights" "0 \<le> drawdown_weight default_weights" "0 \<le> gap_weight default_weights"
    by (simp_all add: default_weights_def)
  have d: "ddiv (of_int ?n) (of_int (stability_folds r)) = Inr (dquot (of_int ?n) (of_int (stability_folds r)))"
    using rep(2) by (simp add: ddiv_nonzero)
  show ?thesis
    unfolding evaluate_trial_def Let_def pol(1,2) d bindR.simps
    using assms(3-5) n frac rep w
    by (simp add: OptimizationRobustnessBreakdown_def OptimizationTrialEvaluation_def check_fields_pass raising_Inr_iff
        bindR_Inr_iff dmul_nonneg check_fields_Inr_iff ddiv_nonzero not_less) (auto simp: default_weights_def)
qed

section \<open>Ranking\<close>

lemma rank_trials_Inr_iff:
  "rank_trials es m = Inr r \<longleftrightarrow> distinct (map evaluated_experiment es) \<and> (\<forall>e \<in> set es. evaluation_objective e = m)
     \<and> filter eligible es \<noteq> [] \<and> sized 1 100 (evaluated_experiment (hd (sort_key robustness_key (filter eligible es))))
     \<and> r = (let ordered = sort_key robustness_key (filter eligible es) in
         \<lparr>robust_objective = m, evaluated_trials = int (length es), eligible_trials = int (length (filter eligible es)),
          rejected_trials = int (length es) - int (length (filter eligible es)),
          robust_best_id = evaluated_experiment (hd ordered),
          robust_entries = map (\<lambda>(n, e). \<lparr>robust_position = n, robust_evaluation = e\<rparr>) (enumerate_from 1 ordered)\<rparr>)"
    (is "_ = Inr r \<longleftrightarrow> ?ids \<and> ?obj \<and> ?ne \<and> ?sized \<and> r = ?r")
proof (cases "?ids \<and> ?obj \<and> ?ne")
  case True
  define ordered where "ordered = sort_key robustness_key (filter eligible es)"
  have set: "set ordered = set (filter eligible es)" "length ordered = length (filter eligible es)" "ordered \<noteq> []"
    using True by (auto simp: ordered_def)
  have len: "1 \<le> length ordered" "length (filter eligible es) \<le> length es" using set(3) by (simp_all add: Suc_le_eq)
  then have some: "1 \<le> length es" using set(2) by linarith
  have "mapR (\<lambda>(n, e). OptimizationRobustnessRankingEntry \<lparr>robust_position = n, robust_evaluation = e\<rparr>) (enumerate_from 1 ordered)
      = Inr (map (\<lambda>(n, e). \<lparr>robust_position = n, robust_evaluation = e\<rparr>) (enumerate_from 1 ordered))"
  proof (rule mapR_total)
    show "(case y of (n, e) \<Rightarrow> OptimizationRobustnessRankingEntry \<lparr>robust_position = n, robust_evaluation = e\<rparr>)
        = Inr (case y of (n, e) \<Rightarrow> \<lparr>robust_position = n, robust_evaluation = e\<rparr>)" if y: "y \<in> set (enumerate_from 1 ordered)" for y
    proof -
      obtain n e where ne: "y = (n, e)" by (cases y)
      have "e \<in> set (map snd (enumerate_from 1 ordered))" using y ne by force
      then have "eligible e" unfolding enumerate_seconds set by simp
      moreover have "1 \<le> n" using enumerate_from_late [OF y] ne by simp
      ultimately show ?thesis
        by (simp add: ne OptimizationRobustnessRankingEntry_def check_fields_pass raising.simps)
    qed
  qed
  moreover have "raising
       [(es = [], ValueError ''at least one robustness evaluation is required''),
        (card (set (map evaluated_experiment es)) \<noteq> length es,
           ValueError ''robustness evaluation experiment IDs must be unique''),
        (list_ex (\<lambda>e. evaluation_objective e \<noteq> m) es,
           ValueError ''robustness evaluations must share the selected objective''),
        (filter eligible es = [], ValueError ''optimization contains no robustness-eligible trial'')] () = Inr ()"
    unfolding raising_Inr_iff list_ex_iff
    by (simp only: list.set ball_simps prod.case card_map_eq_length) (use True in auto)
  ultimately have run: "rank_trials es m = OptimizationRobustnessRankingResult ?r"
    by (simp only: rank_trials_def bindR.simps Let_def ordered_def)
  have pos: "\<not> list_ex (\<lambda>(n, e). robust_position e \<noteq> n)
      (enumerate_from k (map (\<lambda>(n, e). \<lparr>robust_position = n, robust_evaluation = e\<rparr>) (enumerate_from k ys)))" for k and ys :: "trial_evaluation list"
    by (induction ys arbitrary: k) simp_all
  have "OptimizationRobustnessRankingResult ?r = Inr r \<longleftrightarrow> ?sized \<and> r = ?r"
    using len some set(2,3) pos [of 1 ordered]
    by (cases ordered) (auto simp: OptimizationRobustnessRankingResult_def check_fields_Inr_iff raising_Inr_iff bindR_Inr_iff
        Let_def ordered_def [symmetric])
  then show ?thesis using True run by simp
next
  case False
  then have "rank_trials es m \<noteq> Inr r"
    unfolding rank_trials_def bindR_Inr_iff raising_Inr_iff card_map_eq_length by (auto simp: list_ex_iff)
  then show ?thesis using False by blast
qed


lemma policy_runs:
  assumes cfg: "valid_wf_config cfg" and ds: "wf_source ds" "required_candles cfg \<le> candle_count ds"
  shows "\<exists>r. plan_robustness ds cfg t = Some r
    \<and> (returns r \<longleftrightarrow> 3 \<le> fold_total cfg (candle_count ds) \<and> fold_total cfg (candle_count ds) \<le> 12
         \<and> 1 \<le> t \<and> int (fold_total cfg (candle_count ds)) * t \<le> 300)
    \<and> (\<forall>q. r = Inr q \<longrightarrow> robust_folds q = int (fold_total cfg (candle_count ds))
         \<and> validation_runs q = robust_folds q * t \<and> OptimizationRobustnessWeights (robust_weights q) = Inr default_weights)"
proof -
  obtain p where p: "plan_walk_forward ds cfg = Some (Inr p)" "WalkForwardPlan p = Inr p"
      "folds p = map (expected_fold (candles ds) cfg) [0..<fold_total cfg (candle_count ds)]"
    using plan_runs [OF cfg ds(1)] ds(2) by auto
  let ?n = "int (fold_total cfg (candle_count ds))"
  have id: "has_id_form ''walk-forward-'' 16 (plan_id p)"
    using p(2) by (auto simp: WalkForwardPlan_def bindR_Inr_iff check_fields_Inr_iff)
  define q where "q = \<lparr>robust_config = cfg, robust_plan_id = plan_id p, robust_folds = ?n, minimum_traded_folds = 1,
       validation_runs = ?n * t, robust_weights = default_weights\<rparr>"
  have weights: "OptimizationRobustnessWeights default_weights = Inr default_weights"
  proof -
    have "dsum [45 / 100, 15 / 100, 10 / 100, 10 / 100, 5 / 100, 5 / 100, 10 / 100 :: rat] = 1"
      by (simp add: dsum_def dec_eval)
    then show ?thesis by (simp add: OptimizationRobustnessWeights_def default_weights_def raising.simps)
  qed
  have run: "plan_robustness ds cfg t = Some (bindR (raising
            [(?n < 3, ValueError (''optimization robustness requires at least '' @ str_int 3 @ '' folds'')),
             (?n > 12, ValueError (''optimization robustness allows at most '' @ str_int 12 @ '' folds'')),
             (?n * t > 300, ValueError (''optimization robustness exceeds the maximum of '' @ str_int 300 @
                '' trial-fold runs''))] ()) (\<lambda>_. OptimizationRobustnessPlan q))" (is "_ = Some ?r")
    by (simp add: plan_robustness_def p(1,3) Let_def q_def MIN_OPTIMIZATION_FOLDS_def
        MAX_OPTIMIZATION_FOLDS_def MAX_OPTIMIZATION_VALIDATION_RUNS_def)
  have made: "OptimizationRobustnessPlan q = Inr q' \<longleftrightarrow> q' = q \<and> 3 \<le> ?n \<and> ?n \<le> 12 \<and> 1 \<le> ?n * t \<and> ?n * t \<le> 300" for q'
    using id by (auto simp: OptimizationRobustnessPlan_def bindR_Inr_iff check_fields_Inr_iff raising_Inr_iff q_def
        MIN_OPTIMIZATION_FOLDS_def MAX_OPTIMIZATION_FOLDS_def MAX_OPTIMIZATION_VALIDATION_RUNS_def)
  have r: "?r = Inr q' \<longleftrightarrow> q' = q \<and> 3 \<le> ?n \<and> ?n \<le> 12 \<and> 1 \<le> ?n * t \<and> ?n * t \<le> 300" for q'
    unfolding bindR_Inr_iff raising_Inr_iff made by auto
  have "1 \<le> ?n * t \<longleftrightarrow> 1 \<le> t" if "3 \<le> ?n"
    using that zero_less_mult_iff [of ?n t] by linarith
  then have "returns ?r \<longleftrightarrow> 3 \<le> ?n \<and> ?n \<le> 12 \<and> 1 \<le> t \<and> ?n * t \<le> 300"
    unfolding returns_iff r by auto
  moreover have "robust_folds q = ?n" "validation_runs q = ?n * t" "robust_weights q = default_weights"
    by (simp_all add: q_def)
  ultimately show ?thesis
    using r weights unfolding run by (intro exI [of _ ?r] conjI) (simp_all del: bindR.simps)
qed

section \<open>Properties\<close>

text \<open>
  C37: the robustness policy of a dataset and a walk-forward configuration its constructor accepts. The
  planner always ends; it gives a policy exactly when the dataset has between three and twelve folds
  and the trials times the folds are between 1 and 300, and the policy then has these numbers.
\<close>

theorem robustness_policy_exact:
  assumes "WalkForwardConfig train test step gap mode = Inr cfg" "wf_source ds" "required_candles cfg \<le> candle_count ds"
  shows "\<exists>r. plan_robustness ds cfg t = Some r
    \<and> (returns r \<longleftrightarrow> 3 \<le> fold_total cfg (candle_count ds) \<and> fold_total cfg (candle_count ds) \<le> 12
         \<and> 1 \<le> t \<and> int (fold_total cfg (candle_count ds)) * t \<le> 300)
    \<and> (\<forall>q. r = Inr q \<longrightarrow> robust_folds q = int (fold_total cfg (candle_count ds))
         \<and> validation_runs q = robust_folds q * t \<and> OptimizationRobustnessWeights (robust_weights q) = Inr default_weights)"
  using policy_runs [OF WalkForwardConfig_valid [OF assms(1)] assms(2,3)] .

lemma sample_windows:
  "wf_source (sample_dataset [10, 9, 8, 7, 6, 5, 4, 3])"
  "required_candles sample_wf_config \<le> candle_count (sample_dataset [10, 9, 8, 7, 6, 5, 4, 3])"
  "fold_total sample_wf_config (candle_count (sample_dataset [10, 9, 8, 7, 6, 5, 4, 3])) = 3"
  by (simp add: wf_source_def, simp add: sample_dataset_def)
    (simp_all add: fold_total_def required_candles_def sample_wf_config_def sample_dataset_def)

theorem robustness_policy_exact_witness:
  "\<exists>q. plan_robustness (sample_dataset [10, 9, 8, 7, 6, 5, 4, 3]) sample_wf_config 100 = Some (Inr q)
     \<and> validation_runs q = 300
     \<and> (\<exists>e. plan_robustness (sample_dataset [10, 9, 8, 7, 6, 5, 4, 3]) sample_wf_config 101 = Some (Inl e))"
proof -
  let ?ds = "sample_dataset [10, 9, 8, 7, 6, 5, 4, 3]"
  note exact = robustness_policy_exact [OF sample_wf_config sample_windows(1,2), unfolded sample_windows(3)]
  obtain r where r: "plan_robustness ?ds sample_wf_config 100 = Some r" "returns r"
      "\<forall>q. r = Inr q \<longrightarrow> robust_folds q = 3 \<and> validation_runs q = robust_folds q * 100"
    using exact [of 100] by auto
  obtain r' where r': "plan_robustness ?ds sample_wf_config 101 = Some r'" "\<not> returns r'"
    using exact [of 101] by auto
  obtain q where q: "r = Inr q" using r(2) by (auto simp: returns_iff)
  obtain e where e: "r' = Inl e" using r'(2) by (cases r') auto
  show ?thesis using r(1,3) r'(1) by (intro exI [of _ q]) (simp add: q e)
qed

text \<open>
  Every trial with a stability report of the plan's folds is evaluated: the breakdown passes its validator
  because it adds the parts in the same order, and the evaluation its own. The trial is eligible exactly
  when at least one fold traded; an objective that is no better in the sample than outside it costs no
  penalty.
\<close>

theorem trial_always_evaluated:
  assumes "analyze_stability run = Inr r" "plan_robustness ds cfg t = Some (Inr policy)"
    and "stability_folds r = robust_folds policy" "1 \<le> n" "sized 1 100 (summarized_id x)"
  shows "\<exists>e. evaluate_trial n x r policy m = Inr e \<and> OptimizationTrialEvaluation e = Inr e
    \<and> OptimizationRobustnessBreakdown (breakdown e) = Inr (breakdown e)
    \<and> (eligible e \<longleftrightarrow> 1 \<le> stability_traded_folds r)
    \<and> (oriented_value m (metric_value m x) \<le> oriented_value m (out_of_sample_value m r) \<longrightarrow> gap_penalty (breakdown e) = 0)"
proof -
  obtain e where e: "evaluate_trial n x r policy m = Inr e" "OptimizationTrialEvaluation e = Inr e"
      "OptimizationRobustnessBreakdown (breakdown e) = Inr (breakdown e)" "eligible e \<longleftrightarrow> 1 \<le> stability_traded_folds r"
      "generalization_gap e = max 0 (dsub (oriented_value m (metric_value m x)) (oriented_value m (out_of_sample_value m r)))"
      "gap_penalty (breakdown e) = dmul (generalization_gap e) (10 / 100)"
    using evaluation_runs_on [OF assms] by blast
  have "gap_penalty (breakdown e) = 0" if "oriented_value m (metric_value m x) \<le> oriented_value m (out_of_sample_value m r)"
  proof -
    have "dsub (oriented_value m (metric_value m x)) (oriented_value m (out_of_sample_value m r)) \<le> 0"
      using dround_mono [of _ 0] that by (simp add: dsub_def)
    then show ?thesis by (simp add: e(5,6) dmul_def)
  qed
  with e(1-4) show ?thesis by blast
qed

lemma sample_stability:
  "\<exists>run r. analyze_stability run = Inr r \<and> stability_folds r = 3"
proof -
  obtain p m r where m: "plan_walk_forward (sample_snapshot [10, 9, 8, 10, 6, 8]) sample_wf_config = Some (Inr p)"
      "materialize (sample_snapshot [10, 9, 8, 10, 6, 8]) p = Inr m" "length (splits m) = 2"
      "execute_walk_forward ''{}'' (sample_snapshot [10, 9, 8, 10, 6, 8]) m sample_label (\<lambda>_. Inr []) [] 1
         (Some sample_wf_backtest) (\<lambda>_ _ _. Inr ()) [] = Inr r"
    using sample_execution by blast
  note ex = executed_facts [OF m(4)]
  obtain x :: wf_run where x: "run_execution_id x = execution_id r"
    using run_built [OF m(1,2,4), of None] by auto
  have id: "has_id_form ''walk-forward-execution-'' 16 (execution_id r)" "fold_results r \<noteq> []"
    using ex(4) by (auto simp: WalkForwardExecutionResult_def bindR_Inr_iff check_fields_Inr_iff)
  obtain y ys where y: "fold_results r = y # ys" using id(2) by (cases "fold_results r") auto
  obtain s ss where "splits m = s # ss" using m(3) by (cases "splits m") auto
  then have "execution_of sample_label (effective_config (Some sample_wf_backtest)) s y" "1 \<le> executed_fold_number y"
    using ex(1,2) y by simp_all
  then have "fold_statistics_of y = Inr (statistics_as y) \<and> 0 \<le> stat_drawdown (statistics_as y)"
    using fold_statistics_run by blast
  then show ?thesis
    using stability_runs [of "x\<lparr>run_result := r\<lparr>fold_results := [y, y, y]\<rparr>\<rparr>"] id(1) x
    by (force simp: stability_of_def)
qed

theorem trial_always_evaluated_witness:
  "\<exists>run r policy e. analyze_stability run = Inr r
     \<and> plan_robustness (sample_dataset [10, 9, 8, 7, 6, 5, 4, 3]) sample_wf_config 2 = Some (Inr policy)
     \<and> evaluate_trial 1 (sample_summary ''a'' 1) r policy TOTAL_RETURN = Inr e \<and> OptimizationTrialEvaluation e = Inr e"
proof -
  obtain run r where r: "analyze_stability run = Inr r" "stability_folds r = 3" using sample_stability by blast
  obtain policy where p: "plan_robustness (sample_dataset [10, 9, 8, 7, 6, 5, 4, 3]) sample_wf_config 2 = Some (Inr policy)"
      "robust_folds policy = 3"
    using policy_runs [OF WalkForwardConfig_valid [OF sample_wf_config] sample_windows(1,2), of 2, unfolded sample_windows(3)]
    by (auto simp: returns_iff)
  have "sized 1 100 (summarized_id (sample_summary ''a'' 1))" by (simp add: sample_summary_def sized_def)
  then show ?thesis using trial_always_evaluated [OF r(1) p(1)] r p by (metis order_refl)
qed

text \<open>
  C38: the robustness ranking holds exactly the eligible trials, numbered from one by falling score. The named
  best experiment is the first, its score is the largest of all eligible trials, and the ranking does
  not depend on the order of the evaluations.
\<close>

theorem robustness_ranks_eligible:
  assumes "rank_trials es m = Inr r" "\<forall>e \<in> set es. OptimizationRobustnessBreakdown (breakdown e) = Inr (breakdown e)"
  shows "mset (map robust_evaluation (robust_entries r)) = mset (filter eligible es)
    \<and> map robust_position (robust_entries r) = [1..int (length (robust_entries r))]
    \<and> sorted_wrt (\<lambda>e f. total_score (breakdown f) \<le> total_score (breakdown e)) (map robust_evaluation (robust_entries r))
    \<and> (\<exists>b \<in> set es. eligible b \<and> robust_best_id r = evaluated_experiment b
         \<and> (\<forall>e \<in> set es. eligible e \<longrightarrow> total_score (breakdown e) \<le> total_score (breakdown b)))
    \<and> eligible_trials r + rejected_trials r = int (length es)
    \<and> (\<forall>fs. mset fs = mset es \<longrightarrow> rank_trials fs m = Inr r)"
proof -
  define ordered where "ordered = sort_key robustness_key (filter eligible es)"
  have ok: "distinct (map evaluated_experiment es)" "\<forall>e \<in> set es. evaluation_objective e = m" "filter eligible es \<noteq> []"
    and r: "robust_entries r = map (\<lambda>(n, e). \<lparr>robust_position = n, robust_evaluation = e\<rparr>) (enumerate_from 1 ordered)"
      "robust_best_id r = evaluated_experiment (hd ordered)" "eligible_trials r + rejected_trials r = int (length es)"
    using assms(1) by (simp_all add: rank_trials_Inr_iff Let_def ordered_def)
  have evs: "map robust_evaluation (robust_entries r) = ordered"
    unfolding r by (simp add: comp_def case_prod_unfold enumerate_seconds)
  have pos: "map robust_position (robust_entries r) = [1..int (length (robust_entries r))]"
    unfolding r by (intro nth_equalityI) (simp_all add: case_prod_unfold enumerate_from_def)
  have score: "dround (total_score (breakdown e)) = total_score (breakdown e)" if "e \<in> set es" for e
    using assms(2) that by (auto simp: OptimizationRobustnessBreakdown_def bindR_Inr_iff check_fields_Inr_iff
        raising_Inr_iff score_of_parts_def dsub_def)
  have less: "total_score (breakdown f) \<le> total_score (breakdown e)"
    if "robustness_key e \<le> robustness_key f" "e \<in> set es" "f \<in> set es" for e f
    using that score by (auto simp: robustness_key_def less_eq_prod_def dneg_def dround_minus)
  have "sorted_wrt (\<lambda>e f. robustness_key e \<le> robustness_key f) ordered"
    using sorted_sort_key [of robustness_key "filter eligible es"] by (simp add: ordered_def sorted_map)
  then have sorted: "sorted_wrt (\<lambda>e f. total_score (breakdown f) \<le> total_score (breakdown e)) ordered"
    by (rule sorted_wrt_mono_rel [rotated]) (auto simp: ordered_def intro: less)
  note first = sort_key_first [OF ok(3), where key = robustness_key]
  have "\<exists>b \<in> set es. eligible b \<and> robust_best_id r = evaluated_experiment b
      \<and> (\<forall>e \<in> set es. eligible e \<longrightarrow> total_score (breakdown e) \<le> total_score (breakdown b))"
    using first less r(2) by (intro bexI [of _ "hd ordered"]) (auto simp: ordered_def)
  moreover have "rank_trials fs m = Inr r" if fs: "mset fs = mset es" for fs
  proof -
    have "mset (map evaluated_experiment fs) = mset (map evaluated_experiment es)" using fs by simp
    then have "distinct (map evaluated_experiment fs)" using ok(1) mset_eq_imp_distinct_iff by blast
    moreover have "set fs = set es" "length fs = length es" using fs by (auto dest: mset_eq_setD mset_eq_length)
    moreover have el: "mset (filter eligible fs) = mset (filter eligible es)" using fs by simp
    moreover have "inj_on robustness_key (set (filter eligible es))"
      using ok(1) by (auto simp: robustness_key_def distinct_map inj_on_def)
    then have "sort_key robustness_key (filter eligible fs) = sort_key robustness_key (filter eligible es)"
      by (rule sort_key_perm [OF el])
    moreover have "length (filter eligible fs) = length (filter eligible es)" by (rule mset_eq_length [OF el])
    moreover from this have "filter eligible fs \<noteq> []" using ok(3) by (metis length_0_conv)
    ultimately show ?thesis using assms(1) ok by (simp add: rank_trials_Inr_iff)
  qed
  ultimately show ?thesis using evs pos sorted r(3) by (simp add: ordered_def)
qed


definition sample_trial :: "string \<Rightarrow> rat \<Rightarrow> bool \<Rightarrow> trial_evaluation" where
  "sample_trial i v ok =
     \<lparr>evaluated_trial = 1, evaluated_experiment = i, evaluated_run = ''r'', evaluation_objective = TOTAL_RETURN,
      evaluation_folds = 3, evaluation_traded = 1, in_sample_objective = v, out_of_sample_objective = v,
      evaluation_median = 0, evaluation_positive = 0, evaluation_traded_fraction = 0, evaluation_dispersion = 0,
      evaluation_drawdown = 0, generalization_gap = 0, eligible = ok, rejection_reasons = [],
      breakdown = \<lparr>objective_part = v, median_part = 0, positive_part = 0, traded_part = 0, dispersion_penalty = 0,
        drawdown_penalty = 0, gap_penalty = 0, total_score = v\<rparr>\<rparr>"

theorem robustness_ranks_eligible_witness:
  "\<exists>r. rank_trials [sample_trial ''a'' 1 True, sample_trial ''b'' 2 True, sample_trial ''c'' 3 False] TOTAL_RETURN = Inr r
     \<and> robust_best_id r = ''b'' \<and> length (robust_entries r) = 2"
proof -
  let ?es = "[sample_trial ''a'' 1 True, sample_trial ''b'' 2 True, sample_trial ''c'' 3 False]"
  have el: "filter eligible ?es = [sample_trial ''a'' 1 True, sample_trial ''b'' 2 True]" by (simp add: sample_trial_def)
  have first: "hd (sort_key robustness_key (filter eligible ?es)) \<in> set (filter eligible ?es)"
    by (rule sort_key_first(1)) (unfold el, simp)
  have "distinct (map evaluated_experiment ?es)" "\<forall>e \<in> set ?es. evaluation_objective e = TOTAL_RETURN"
    by (simp_all add: sample_trial_def)
  moreover have "sized 1 100 (evaluated_experiment (hd (sort_key robustness_key (filter eligible ?es))))"
    using first unfolding el by (auto simp: sample_trial_def sized_def)
  moreover have ne: "filter eligible ?es \<noteq> []" unfolding el by simp
  ultimately obtain r where r: "rank_trials ?es TOTAL_RETURN = Inr r" unfolding rank_trials_Inr_iff by blast
  have "\<forall>e \<in> set ?es. OptimizationRobustnessBreakdown (breakdown e) = Inr (breakdown e)"
    using dc.rnd_one dc.rnd_int [of 2] dc.rnd_int [of 3]
    by (simp add: sample_trial_def OptimizationRobustnessBreakdown_def check_fields_def raising.simps score_of_parts_def
        dadd_def dsub_def)
  note ranked = robustness_ranks_eligible [OF r this]
  obtain b where b: "b \<in> set ?es" "eligible b" "robust_best_id r = evaluated_experiment b"
      "\<forall>e \<in> set ?es. eligible e \<longrightarrow> total_score (breakdown e) \<le> total_score (breakdown b)"
    using ranked by blast
  then have "robust_best_id r = ''b''" by (auto simp: sample_trial_def)
  moreover have "length (map robust_evaluation (robust_entries r)) = length (filter eligible ?es)"
    using ranked by (metis mset_eq_length)
  then have "length (robust_entries r) = 2" unfolding el by simp
  ultimately show ?thesis using r by blast
qed

end
