(* ===== verification/Spec2Isabelle.thy ===== *)
theory Spec2Isabelle imports Performance Job_Worker Portfolio_Properties Position_Monitor Robustness
begin

text \<open>
  The trading-research core of trd-bot-v2 (\<open>src/src/trd_bot\<close>), modelled in the order the program uses
  its parts: candles of a dataset are turned into indicator values, indicators into signals, signals into
  backtest events, events into a performance report; the research pipeline runs this chain on a
  quality-checked dataset, walk-forward validation runs it fold by fold, and optimization runs it for every
  accepted combination of strategy parameters and ranks what comes out; a signal becomes a research candidate, candidates
  are ranked, sized by the risk policy, opened on a simulated portfolio and monitored until they close;
  background jobs run this work under leases.

  Which theory models which file (paths under \<open>src/src/trd_bot\<close>):

  \<^item> \<open>Prelude\<close>: results with Python exceptions as values, validation steps (\<open>raising\<close>,
    \<open>check_fields\<close>), string and list helpers. \<open>Rounding\<close>: rounding a rational to a number of digits of any
    base (locale \<open>significand\<close>, interpreted for 28 decimal and 53 binary digits). \<open>Decimal28\<close>:
    \<open>decimal.Decimal\<close> under the default context (28 digits, half even) as rounded rational arithmetic, with
    the interface locales \<open>rounding_context\<close> and \<open>integer_rounding\<close>. \<open>Digests\<close>: SHA-256 on 32-bit words and
    the hex identifiers.
  \<^item> \<open>Domain\<close>: \<open>domain/market_data.py\<close> and the dataset record. \<open>Indicators\<close>: \<open>indicators/\<close>.
    \<open>Strategies\<close>: \<open>strategies/\<close> (signals and the three strategies).
  \<^item> \<open>Backtest\<close>: \<open>backtesting/models.py\<close>, \<open>engine.py\<close>. \<open>Performance\<close>: \<open>performance.py\<close>, \<open>benchmarks.py\<close>.
  \<^item> \<open>Quality\<close>: \<open>market_data/quality.py\<close>, with the floats of the score rounded to 53 bits. \<open>Datasets\<close>:
    \<open>research/datasets.py\<close>. \<open>Catalog\<close>: what the in-memory stores share (the first record of an
    identifier is kept; filters, sorting, pages), with the contract of a store as the locale
    \<open>first_write_store\<close>, interpreted for datasets, experiments and walk-forward runs. \<open>Evaluation\<close>: \<open>research/evaluation.py\<close>, \<open>reporting.py\<close>. \<open>Pipeline\<close>:
    \<open>research/pipeline.py\<close>, with the locale \<open>named_strategy\<close> for the strategies it runs.
  \<^item> \<open>Walk_Forward\<close>, \<open>Walk_Forward_Execution\<close>: \<open>research/walk_forward.py\<close>; the planner's loop and the
    materializer, then the executor, its resumption and its summary. \<open>Walk_Forward_Runs\<close>:
    \<open>walk_forward_runs.py\<close>, \<open>walk_forward_reporting.py\<close>.
  \<^item> \<open>Strategy_Registry\<close>: \<open>strategies/registry.py\<close>, \<open>metadata.py\<close>, up to the default registry, whose
    strategies meet the contract \<open>research_strategy\<close>. \<open>Experiments\<close>: \<open>research/experiments.py\<close>,
    \<open>comparisons.py\<close>. \<open>Number_Text\<close>: how \<open>int\<close> and \<open>Decimal\<close> read a text and how a decimal is
    printed in plain notation. \<open>Optimization\<close>, \<open>Robustness\<close>: \<open>optimization.py\<close>,
    \<open>optimization_robustness.py\<close>.
  \<^item> \<open>Jobs\<close>, \<open>Job_Store\<close>, \<open>Job_Lifecycle\<close>, \<open>Job_Worker\<close>: \<open>jobs.py\<close> and
    \<open>db/background_job_repositories.py\<close>; every repository operation is one step on the table of rows.
  \<^item> \<open>Portfolio\<close>, \<open>Portfolio_Ledger\<close>, \<open>Portfolio_Properties\<close>: \<open>paper/portfolio.py\<close>.
  \<^item> \<open>Candidates\<close>: \<open>research/candidates.py\<close>, \<open>candidate_generation.py\<close>. \<open>Ranking\<close>:
    \<open>candidate_ranking.py\<close>. \<open>Risk_Policy\<close>, \<open>Risk_Properties\<close>: \<open>risk_policy.py\<close>. \<open>Simulation\<close>,
    \<open>Simulation_Runner\<close>, \<open>Position_Monitor\<close>: \<open>candidate_simulation_runner.py\<close>, \<open>position_monitoring.py\<close>.

  A class is a record of its fields and a constructor definition of the class's name that runs the field
  constraints and the validator in the code's order; a method is a definition of the method's name; every
  exception is an \<open>Inl\<close>. Timestamps are microseconds since the epoch, aware or naive where the code checks it.

  What the lemmas show: each component has the exact conditions under which its operations return and what
  they return (\<open>..._runs\<close>, \<open>..._Inr\<close>), an invariant kept by all its operations where it has state
  (\<open>simulated\<close> portfolios, \<open>candidate_life\<close>, job stores), and the properties of the manifest.

  Bounds and loops: decimals are exact as long as their digits fit, so amounts carry hypotheses
  (\<open>turnover\<close> at most 10^17, equity and cash of assessed portfolios at most 10^9, prices on the grid of
  eight decimals and at most 10^12; fewer than 10^30 candles), far above what the program handles. The
  planner's loop is a partial function whose value \<open>None\<close> is a loop that never ends, and its property
  shows that it ends for every configuration the constructor accepts. All other definitions are total: the
  claim loop of the job repository decreases the number of claimable rows, the position monitor recurses
  over the later candles, and its property states that it ends at the first exit.

  Conditions that the code leaves to its caller are hypotheses of the properties or branches of their
  conclusions. The engine is stated on any list of constructed signals, with the exact condition under which
  it returns, and its prices by a table of what buys and what sells (\<open>executed_price\<close>) rather than by the
  engine's own formula. Opening a candidate is stated outcome by outcome (\<open>fill_in_zone\<close>): an approved fill
  that the cash does not cover raises, and \<open>buffered\<close> is when the policy excludes that. The ranking needs
  weights of at most six digits, with a theorem for what finer weights do, and a worker round needs a worker
  id without surrounding blanks, with a property for what padded ids do. The pipeline pins every return to
  its signal's two prices, and the summary and comparison to formulas over them (\<open>summary_of\<close>,
  \<open>deltas_of\<close>). The text recorded for an optimization parameter is related to the exact value by the
  rounding to 28 digits, away from the smallest exponents of the context (\<open>in_decimal_range\<close>).

  Arguments of the model, because their code is outside \<open>src\<close> or is only text: uuid digits, the
  clock, job handlers, the progress callbacks of the executor, JSON renderings of configurations and
  candles, and the texts of decimals in messages.

  Not modelled: database sessions and rows other than the job table, the HTTP API, providers, alerts,
  monitoring, market context, acceptance and release tools; the manifest names each with its reason.
\<close>

end
